(* ===== verification/Prelude.thy ===== *)
theory Prelude
  imports Complex_Main "HOL-Library.AList" "HOL-Library.Sublist" "HOL-Library.List_Lexorder"
    "HOL-Library.Char_ord"
begin

text \<open>
  The shared vocabulary of the development: what the Go sources use of the language and of its
  standard library.

  \<^item> A Go string is a byte string, here \<^typ>\<open>string\<close> (a character of HOL is one byte).
    \<open>strings.ToLower\<close>, \<open>strings.EqualFold\<close> and \<open>strings.TrimSpace\<close> are modelled on ASCII: letters
    outside ASCII have no case here and the multi-byte Unicode spaces are not trimmed.
  \<^item> A Go map is an association list with distinct keys (\<open>wf_map\<close>); Go's unspecified iteration
    order is the order of the list, and every theorem quantifies over the list.
  \<^item> A nil slice or map is \<^const>\<open>None\<close> where the code tells nil from empty.
  \<^item> \<open>time.Time\<close> is an integer count of nanoseconds since Go's zero time; \<open>time.Duration\<close> is a
    64-bit count of nanoseconds, so \<open>Time.Sub\<close> saturates and negation wraps.
  \<^item> \<open>interface{}\<close> values decoded from JSON are values of \<open>json\<close>.
\<close>

section \<open>Collections of rules\<close>

named_theorems str_simps \<open>equations of the string library\<close>
named_theorems map_simps \<open>lookup laws of Go maps\<close>
named_theorems time_defs \<open>definitions of instants and durations\<close>
named_theorems wf_intros \<open>preservation of the well-formedness invariants\<close>

section \<open>Strings\<close>

definition lower_char :: "char \<Rightarrow> char" where
  "lower_char c =
     (let n = of_char c :: nat in if 65 \<le> n \<and> n \<le> 90 then char_of (n + 32) else c)"

definition upper_char :: "char \<Rightarrow> char" where
  "upper_char c =
     (let n = of_char c :: nat in if 97 \<le> n \<and> n \<le> 122 then char_of (n - 32) else c)"

definition ToLower :: "string \<Rightarrow> string" where
  "ToLower s = map lower_char s"

definition ToUpper :: "string \<Rightarrow> string" where
  "ToUpper s = map upper_char s"

definition EqualFold :: "string \<Rightarrow> string \<Rightarrow> bool" where
  "EqualFold s t \<longleftrightarrow> ToLower s = ToLower t"

definition is_space :: "char \<Rightarrow> bool" where
  "is_space c \<longleftrightarrow> (let n = of_char c :: nat in n = 32 \<or> (9 \<le> n \<and> n \<le> 13))"

definition trim_left_by :: "(char \<Rightarrow> bool) \<Rightarrow> string \<Rightarrow> string" where
  "trim_left_by P s = dropWhile P s"

definition trim_right_by :: "(char \<Rightarrow> bool) \<Rightarrow> string \<Rightarrow> string" where
  "trim_right_by P s = rev (dropWhile P (rev s))"

definition trim_by :: "(char \<Rightarrow> bool) \<Rightarrow> string \<Rightarrow> string" where
  "trim_by P s = trim_right_by P (trim_left_by P s)"

definition TrimSpace :: "string \<Rightarrow> string" where
  "TrimSpace s = trim_by is_space s"

text \<open>\<open>strings.Trim\<close>, \<open>TrimLeft\<close> and \<open>TrimRight\<close> take the cutset as their second argument.\<close>

definition Trim :: "string \<Rightarrow> string \<Rightarrow> string" where
  "Trim s cutset = trim_by (\<lambda>c. c \<in> set cutset) s"

definition TrimLeft :: "string \<Rightarrow> string \<Rightarrow> string" where
  "TrimLeft s cutset = trim_left_by (\<lambda>c. c \<in> set cutset) s"

definition TrimRight :: "string \<Rightarrow> string \<Rightarrow> string" where
  "TrimRight s cutset = trim_right_by (\<lambda>c. c \<in> set cutset) s"

definition HasPrefix :: "string \<Rightarrow> string \<Rightarrow> bool" where
  "HasPrefix s p \<longleftrightarrow> prefix p s"

definition HasSuffix :: "string \<Rightarrow> string \<Rightarrow> bool" where
  "HasSuffix s p \<longleftrightarrow> suffix p s"

definition Contains :: "string \<Rightarrow> string \<Rightarrow> bool" where
  "Contains s t \<longleftrightarrow> sublist t s"

definition ContainsAny :: "string \<Rightarrow> string \<Rightarrow> bool" where
  "ContainsAny s cs \<longleftrightarrow> list_ex (\<lambda>c. c \<in> set cs) s"

definition TrimPrefix :: "string \<Rightarrow> string \<Rightarrow> string" where
  "TrimPrefix s p = (if HasPrefix s p then drop (length p) s else s)"

definition TrimSuffix :: "string \<Rightarrow> string \<Rightarrow> string" where
  "TrimSuffix s p = (if HasSuffix s p then take (length s - length p) s else s)"

definition CutPrefix :: "string \<Rightarrow> string \<Rightarrow> string option" where
  "CutPrefix s p = (if HasPrefix s p then Some (drop (length p) s) else None)"

text \<open>\<open>strings.Cut\<close>: the text before and after the first occurrence of the separator.\<close>

fun Cut :: "string \<Rightarrow> string \<Rightarrow> (string \<times> string) option" where
  "Cut [] sep = (if sep = [] then Some ([], []) else None)"
| "Cut (c # cs) sep =
     (if prefix sep (c # cs) then Some ([], drop (length sep) (c # cs))
      else map_option (\<lambda>(b, a). (c # b, a)) (Cut cs sep))"

definition cut_before :: "string \<Rightarrow> string \<Rightarrow> string" where
  "cut_before s sep = (case Cut s sep of None \<Rightarrow> s | Some (b, _) \<Rightarrow> b)"

lemma Cut_after_length: "Cut s sep = Some (b, a) \<Longrightarrow> length b + length sep + length a = length s"
  by (induction s sep arbitrary: b a rule: Cut.induct)
     (fastforce split: if_splits dest: prefix_length_le)+

text \<open>\<open>strings.Split\<close> for a non-empty separator, the only way the sources use it.\<close>

function Split :: "string \<Rightarrow> string \<Rightarrow> string list" where
  "Split s sep =
     (if sep = [] then [s]
      else case Cut s sep of None \<Rightarrow> [s] | Some (b, a) \<Rightarrow> b # Split a sep)"
  by pat_completeness auto
termination
proof (relation "measure (\<lambda>(s, sep). length s)", goal_cases)
  case (2 s sep x b a)
  then have "length b + length sep + length a = length s" "0 < length sep"
    by (auto dest: Cut_after_length)
  then have "length a < length s" by linarith
  then show ?case by simp
qed simp

declare Split.simps [simp del]

function FieldsFunc :: "(char \<Rightarrow> bool) \<Rightarrow> string \<Rightarrow> string list" where
  "FieldsFunc P s =
     (let t = dropWhile P s
      in if t = [] then []
         else takeWhile (\<lambda>c. \<not> P c) t # FieldsFunc P (dropWhile (\<lambda>c. \<not> P c) t))"
  by pat_completeness auto
termination
proof (relation "measure (\<lambda>(P, s). length s)", goal_cases)
  case (2 P s t)
  then have t: "t = dropWhile P s" "t \<noteq> []" by auto
  then have "\<not> P (hd t)" using hd_dropWhile by blast
  with t(2) have "length (dropWhile (\<lambda>c. \<not> P c) t) < length t"
    by (cases t) (auto simp: le_imp_less_Suc length_dropWhile_le)
  also have "\<dots> \<le> length s" unfolding t(1) by (rule length_dropWhile_le)
  finally show ?case by simp
qed simp

declare FieldsFunc.simps [simp del]

definition Fields :: "string \<Rightarrow> string list" where
  "Fields s = FieldsFunc is_space s"

fun Join :: "string list \<Rightarrow> string \<Rightarrow> string" where
  "Join [] sep = []"
| "Join [x] sep = x"
| "Join (x # y # ys) sep = x @ sep @ Join (y # ys) sep"

text \<open>Decimal rendering (\<open>%d\<close>, \<open>strconv.Itoa\<close>).\<close>

fun digit_char :: "int \<Rightarrow> char" where
  "digit_char d =
     (if d = 0 then CHR ''0'' else if d = 1 then CHR ''1'' else if d = 2 then CHR ''2''
      else if d = 3 then CHR ''3'' else if d = 4 then CHR ''4'' else if d = 5 then CHR ''5''
      else if d = 6 then CHR ''6'' else if d = 7 then CHR ''7'' else if d = 8 then CHR ''8''
      else CHR ''9'')"

function show_digits :: "int \<Rightarrow> string" where
  "show_digits n = (if n < 10 then [digit_char n] else show_digits (n div 10) @ [digit_char (n mod 10)])"
  by pat_completeness auto
termination by (relation "measure nat") auto

declare digit_char.simps [simp del] show_digits.simps [simp del]

definition Itoa :: "int \<Rightarrow> string" where
  "Itoa i = (if i < 0 then ''-'' @ show_digits (- i) else show_digits i)"

section \<open>Maps and JSON values\<close>

type_synonym ('k, 'v) gomap = "('k \<times> 'v) list"

definition wf_map :: "('k, 'v) gomap \<Rightarrow> bool" where
  "wf_map m \<longleftrightarrow> distinct (map fst m)"

text \<open>\<open>m[k]\<close> with the second result, \<open>m[k] = v\<close> and \<open>delete(m, k)\<close>.\<close>

abbreviation mget :: "('k, 'v) gomap \<Rightarrow> 'k \<Rightarrow> 'v option" where
  "mget m k \<equiv> map_of m k"

abbreviation mput :: "'k \<Rightarrow> 'v \<Rightarrow> ('k, 'v) gomap \<Rightarrow> ('k, 'v) gomap" where
  "mput k v m \<equiv> AList.update k v m"

abbreviation mdel :: "'k \<Rightarrow> ('k, 'v) gomap \<Rightarrow> ('k, 'v) gomap" where
  "mdel k m \<equiv> AList.delete k m"

definition mhas :: "('k, 'v) gomap \<Rightarrow> 'k \<Rightarrow> bool" where
  "mhas m k \<longleftrightarrow> mget m k \<noteq> None"

text \<open>A JSON number is kept as the text \<open>fmt\<close> prints for it: the sources never compute with one.\<close>

datatype json =
    JNull
  | JBool bool
  | JNum string
  | JStr string
  | JArr "json list"
  | JObj "(string \<times> json) list"

type_synonym jobject = "(string \<times> json) list"

text \<open>The type assertion \<open>m[key].(string)\<close> on a possibly nil map.\<close>

fun as_string :: "json option \<Rightarrow> string option" where
  "as_string (Some (JStr s)) = Some s"
| "as_string _ = None"

definition jstring :: "jobject option \<Rightarrow> string \<Rightarrow> string option" where
  "jstring m key = (case m of None \<Rightarrow> None | Some o' \<Rightarrow> as_string (map_of o' key))"

text \<open>\<open>fmt.Sprint\<close> of a decoded value: slices in brackets, maps with their keys sorted.\<close>

fun Sprint :: "json \<Rightarrow> string" where
  "Sprint JNull = ''<nil>''"
| "Sprint (JBool b) = (if b then ''true'' else ''false'')"
| "Sprint (JNum n) = n"
| "Sprint (JStr s) = s"
| "Sprint (JArr xs) = ''['' @ Join (map Sprint xs) '' '' @ '']''"
| "Sprint (JObj kvs) =
     ''map['' @ Join (map (\<lambda>(k, v). k @ '':'' @ v) (sort_key fst (map (\<lambda>(k, v). (k, Sprint v)) kvs))) '' '' @ '']''"

definition items :: "'a list option \<Rightarrow> 'a list" where
  "items xs = (case xs of None \<Rightarrow> [] | Some ys \<Rightarrow> ys)"

section \<open>Instants and durations\<close>

type_synonym time = int
type_synonym duration = int

definition IsZero :: "time \<Rightarrow> bool" where
  [time_defs]: "IsZero t \<longleftrightarrow> t = 0"

definition Nanosecond :: duration where [time_defs]: "Nanosecond = 1"
definition Second :: duration where [time_defs]: "Second = 1000000000"
definition Minute :: duration where [time_defs]: "Minute = 60000000000"
definition Hour :: duration where [time_defs]: "Hour = 3600000000000"

definition minDuration :: duration where [time_defs]: "minDuration = - 9223372036854775808"
definition maxDuration :: duration where [time_defs]: "maxDuration = 9223372036854775807"

text \<open>\<open>Time.Sub\<close> saturates at the bounds of \<open>Duration\<close>; unary minus wraps as int64 does.\<close>

definition time_sub :: "time \<Rightarrow> time \<Rightarrow> duration" where
  "time_sub t u = max minDuration (min maxDuration (t - u))"

definition wrap64 :: "int \<Rightarrow> int" where
  "wrap64 x = (x + 2 ^ 63) mod 2 ^ 64 - 2 ^ 63"

definition dur_neg :: "duration \<Rightarrow> duration" where
  "dur_neg d = wrap64 (- d)"

section \<open>Lemmas: strings\<close>

lemma lower_char_idem [simp]: "lower_char (lower_char c) = lower_char c"
  by (auto simp: lower_char_def Let_def of_char_mod_256)

lemma ToLower_idem [simp, str_simps]: "ToLower (ToLower s) = ToLower s"
  by (simp add: ToLower_def)

lemma ToLower_append [simp, str_simps]: "ToLower (s @ t) = ToLower s @ ToLower t"
  by (simp add: ToLower_def)

lemma ToLower_Nil_iff [simp, str_simps]: "ToLower s = [] \<longleftrightarrow> s = []"
  by (simp add: ToLower_def)

lemma ToLower_Nil [simp]: "ToLower [] = []"
  by (simp add: ToLower_def)

lemma length_ToLower [simp]: "length (ToLower s) = length s"
  by (simp add: ToLower_def)

lemma trim_by_subset: "set (trim_by P s) \<subseteq> set s"
  unfolding trim_by_def trim_left_by_def trim_right_by_def
  by (metis set_dropWhileD set_rev subsetI)

lemma trim_by_Nil [simp]: "trim_by P [] = []"
  by (simp add: trim_by_def trim_left_by_def trim_right_by_def)

lemma trim_by_hd: "trim_by P s \<noteq> [] \<Longrightarrow> \<not> P (hd (trim_by P s))"
proof -
  assume ne: "trim_by P s \<noteq> []"
  define t where "t = dropWhile P s"
  have eq: "trim_by P s = rev (dropWhile P (rev t))"
    by (simp add: trim_by_def trim_left_by_def trim_right_by_def t_def)
  have "t \<noteq> []" using ne eq by auto
  then have h: "\<not> P (hd t)" unfolding t_def by (rule hd_dropWhile)
  have "rev t = takeWhile P (rev t) @ dropWhile P (rev t)" by simp
  then have "t = rev (dropWhile P (rev t)) @ rev (takeWhile P (rev t))"
    by (metis rev_append rev_rev_ident)
  then have "hd t = hd (rev (dropWhile P (rev t)))"
    using ne eq by (metis hd_append2)
  with h eq show ?thesis by simp
qed

lemma trim_by_last: "trim_by P s \<noteq> [] \<Longrightarrow> \<not> P (last (trim_by P s))"
  by (simp add: trim_by_def trim_right_by_def last_rev hd_dropWhile)

lemma trim_by_fixed:
  assumes "s = [] \<or> (\<not> P (hd s) \<and> \<not> P (last s))"
  shows "trim_by P s = s"
proof (cases s rule: rev_cases)
  case (snoc ys y)
  with assms have "\<not> P (hd s)" "\<not> P y" by auto
  then have "dropWhile P s = s" using snoc by (metis append_is_Nil_conv dropWhile_eq_self_iff not_Cons_self2)
  with snoc \<open>\<not> P y\<close> show ?thesis by (simp add: trim_by_def trim_left_by_def trim_right_by_def)
qed simp

lemma trim_by_idem [simp]: "trim_by P (trim_by P s) = trim_by P s"
  using trim_by_hd trim_by_last by (intro trim_by_fixed) blast

lemma TrimSpace_idem [simp, str_simps]: "TrimSpace (TrimSpace s) = TrimSpace s"
  by (simp add: TrimSpace_def)

lemma TrimSpace_Nil [simp]: "TrimSpace [] = []"
  by (simp add: TrimSpace_def)

lemma Trim_idem [simp, str_simps]: "Trim (Trim s cs) cs = Trim s cs"
  by (simp add: Trim_def)

lemma Trim_subset: "set (Trim s cs) \<subseteq> set s"
  by (simp add: Trim_def trim_by_subset)

lemma of_char_lower_char:
  "(of_char (lower_char c) :: nat) = (let n = of_char c in if 65 \<le> n \<and> n \<le> 90 then n + 32 else n)"
  by (simp add: lower_char_def Let_def of_char_mod_256)

lemma is_space_lower_char [simp]: "is_space (lower_char c) = is_space c"
  by (auto simp: is_space_def of_char_lower_char Let_def)

lemma dropWhile_is_space_ToLower:
  "dropWhile is_space (map lower_char s) = map lower_char (dropWhile is_space s)"
  by (simp add: dropWhile_map comp_def)

lemma TrimSpace_ToLower [str_simps]: "TrimSpace (ToLower s) = ToLower (TrimSpace s)"
  by (simp add: TrimSpace_def ToLower_def trim_by_def trim_left_by_def trim_right_by_def
      dropWhile_is_space_ToLower rev_map)

lemma HasPrefix_refl [simp]: "HasPrefix s s"
  by (simp add: HasPrefix_def)

lemma HasSuffix_append [simp]: "HasSuffix (s @ t) t"
  by (simp add: HasSuffix_def suffix_def)

lemma HasSuffix_trans: "HasSuffix s t \<Longrightarrow> HasSuffix t u \<Longrightarrow> HasSuffix s u"
  unfolding HasSuffix_def by (rule suffix_order.trans)

lemma Contains_trans: "Contains s t \<Longrightarrow> Contains t u \<Longrightarrow> Contains s u"
  unfolding Contains_def by (rule sublist_order.order.trans)

lemma Contains_suffix: "HasSuffix s t \<Longrightarrow> Contains s t"
  by (auto simp: HasSuffix_def Contains_def sublist_def suffix_def intro: exI [of _ "[]"])

lemma Contains_set: "Contains s t \<Longrightarrow> set t \<subseteq> set s"
  by (auto simp: Contains_def sublist_def)

lemma EqualFold_refl [simp]: "EqualFold s s"
  by (simp add: EqualFold_def)

lemma items_simps [simp]: "items None = []" "items (Some xs) = xs"
  by (simp_all add: items_def)

lemma jstring_None [simp]: "jstring None k = None"
  by (simp add: jstring_def)

section \<open>Lemmas: maps\<close>

lemma mget_mput [map_simps, simp]: "mget (mput k v m) k' = (if k' = k then Some v else mget m k')"
  by (simp add: update_conv')

lemma mget_mdel [map_simps, simp]: "mget (mdel k m) k' = (if k' = k then None else mget m k')"
  by (simp add: delete_conv')

lemma wf_map_Nil [wf_intros, simp]: "wf_map []"
  by (simp add: wf_map_def)

lemma wf_map_mput [wf_intros, simp]: "wf_map m \<Longrightarrow> wf_map (mput k v m)"
  by (simp add: wf_map_def distinct_update)

lemma wf_map_mdel [wf_intros, simp]: "wf_map m \<Longrightarrow> wf_map (mdel k m)"
  by (simp add: wf_map_def distinct_delete)

lemma wf_map_filter [wf_intros, simp]: "wf_map m \<Longrightarrow> wf_map (filter P m)"
  by (simp add: wf_map_def distinct_map_filter)

lemma mget_filter: "wf_map m \<Longrightarrow>
  mget (filter (\<lambda>(k, v). P k v) m) k = (case mget m k of Some v \<Rightarrow> if P k v then Some v else None | None \<Rightarrow> None)"
proof (induction m)
  case (Cons kv m)
  then have IH: "mget (filter (\<lambda>(k, v). P k v) m) k =
      (case mget m k of Some v \<Rightarrow> if P k v then Some v else None | None \<Rightarrow> None)"
    by (simp add: wf_map_def)
  have "fst kv = k \<Longrightarrow> mget m k = None"
    using Cons.prems by (auto simp: wf_map_def map_of_eq_None_iff)
  with IH show ?case by (cases kv) auto
qed simp

lemma mhas_iff: "mhas m k \<longleftrightarrow> k \<in> fst ` set m"
  by (simp add: mhas_def map_of_eq_None_iff)

lemma length_mput: "length (mput k v m) = (if mhas m k then length m else Suc (length m))"
  by (induction m) (auto simp: mhas_def)

section \<open>Lemmas: instants\<close>

lemma time_sub_bounds: "minDuration \<le> time_sub t u" "time_sub t u \<le> maxDuration"
  by (auto simp: time_sub_def minDuration_def maxDuration_def)

lemma time_sub_le_iff: "d < maxDuration \<Longrightarrow> minDuration \<le> d \<Longrightarrow> time_sub t u \<le> d \<longleftrightarrow> t - u \<le> d"
  by (auto simp: time_sub_def min_def max_def)

lemma time_sub_nonneg_iff: "0 \<le> time_sub t u \<longleftrightarrow> u \<le> t"
  by (auto simp: time_sub_def minDuration_def maxDuration_def)

lemma dur_neg_exact: "minDuration < d \<Longrightarrow> d \<le> maxDuration \<Longrightarrow> dur_neg d = - d"
  by (simp add: dur_neg_def wrap64_def minDuration_def maxDuration_def)

lemma dur_neg_min [simp]: "dur_neg minDuration = minDuration"
  by (simp add: dur_neg_def wrap64_def minDuration_def)

end
