(* ===== verification/Go_Time.thy ===== *)
theory Go_Time
  imports Prelude
begin

text \<open>
  \<open>time.Time.UTC().Format(time.RFC3339Nano)\<close>: the proleptic Gregorian calendar on the instants of
  the prelude (nanoseconds since the zero time, 1 January of year 1), and its rendering. The
  correlator builds suppression keys from it and the event encoder prints timestamps with it.
\<close>

definition days_per_400y :: int where "days_per_400y = 146097"

definition leap_year :: "int \<Rightarrow> bool" where
  "leap_year y \<longleftrightarrow> y mod 4 = 0 \<and> (y mod 100 \<noteq> 0 \<or> y mod 400 = 0)"

definition days_in_month :: "int \<Rightarrow> int \<Rightarrow> int" where
  "days_in_month y m =
     (if m = 2 then (if leap_year y then 29 else 28)
      else if m \<in> {4, 6, 9, 11} then 30 else 31)"

text \<open>The year, month and day of a count of days since 1 January of year 1, counted from March.\<close>

definition civil_of_days :: "int \<Rightarrow> int \<times> int \<times> int" where
  "civil_of_days d =
     (let z = d + 306;
          era = z div days_per_400y;
          doe = z mod days_per_400y;
          yoe = (doe - doe div 1460 + doe div 36524 - doe div 146096) div 365;
          doy = doe - (365 * yoe + yoe div 4 - yoe div 100);
          mp = (5 * doy + 2) div 153;
          day = doy - (153 * mp + 2) div 5 + 1;
          m = (if mp < 10 then mp + 3 else mp - 9);
          y = yoe + era * 400 + (if m \<le> 2 then 1 else 0)
      in (y, m, day))"

definition pad_left :: "nat \<Rightarrow> string \<Rightarrow> string" where
  "pad_left w s = replicate (w - length s) CHR ''0'' @ s"

definition show_padded :: "nat \<Rightarrow> int \<Rightarrow> string" where
  "show_padded w i = (if i < 0 then ''-'' @ pad_left w (show_digits (- i)) else pad_left w (show_digits i))"

text \<open>The fraction \<open>.999999999\<close>: nine digits with the trailing zeros, and a bare dot, removed.\<close>

definition show_fraction :: "int \<Rightarrow> string" where
  "show_fraction ns =
     (let s = TrimRight (show_padded 9 ns) ''0'' in if s = [] then [] else ''.'' @ s)"

definition FormatRFC3339Nano :: "time \<Rightarrow> string" where
  "FormatRFC3339Nano t =
     (let secs = t div Second; ns = t mod Second;
          (y, m, d) = civil_of_days (secs div 86400);
          sod = secs mod 86400
      in show_padded 4 y @ ''-'' @ show_padded 2 m @ ''-'' @ show_padded 2 d @ ''T'' @
         show_padded 2 (sod div 3600) @ '':'' @ show_padded 2 (sod mod 3600 div 60) @ '':'' @
         show_padded 2 (sod mod 60) @ show_fraction ns @ ''Z'')"

lemma FormatRFC3339Nano_zero: "FormatRFC3339Nano 0 = ''0001-01-01T00:00:00Z''"
  by code_simp

lemma FormatRFC3339Nano_unix:
  "FormatRFC3339Nano (62135596800 * Second + 1500000) = ''1970-01-01T00:00:00.0015Z''"
  by code_simp

lemma FormatRFC3339Nano_leap_day:
  "FormatRFC3339Nano (63844761600 * Second) = ''2024-02-29T00:00:00Z''"
  by code_simp

end
