(* ===== verification/Event.thy ===== *)
theory Event
  imports Go_Time
begin

text \<open>
  \<open>internal/event/event.go\<close>: the records that cross the daemon's socket, their normalisation and
  their validation. Every function that takes a pointer and writes through it returns the updated
  record here; \<open>clk\<close> is the value \<open>time.Now()\<close> returns. Validators return \<open>None\<close> for Go's nil
  error and the error otherwise.
\<close>

section \<open>Data\<close>

definition SchemaSemanticV0 :: string where "SchemaSemanticV0 = ''agentsnitch.semantic.v0''"
definition SchemaNetworkV0 :: string where "SchemaNetworkV0 = ''agentsnitch.network.v0''"
definition SchemaCorrelatedV0 :: string where "SchemaCorrelatedV0 = ''agentsnitch.correlated.v0''"
definition SchemaAgentV0 :: string where "SchemaAgentV0 = ''agentsnitch.agent.v0''"
definition SchemaInspectedHTTPV0 :: string where
  "SchemaInspectedHTTPV0 = ''agentsnitch.inspected_http.v0''"
definition SchemaControlV0 :: string where "SchemaControlV0 = ''agentsnitch.control.v0''"
definition SchemaPauseGapV0 :: string where "SchemaPauseGapV0 = ''agentsnitch.pause_gap.v0''"

definition ControlActionPause :: string where "ControlActionPause = ''pause''"
definition ControlActionResume :: string where "ControlActionResume = ''resume''"

lemmas schema_defs =
  SchemaSemanticV0_def SchemaNetworkV0_def SchemaCorrelatedV0_def SchemaAgentV0_def
  SchemaInspectedHTTPV0_def SchemaControlV0_def SchemaPauseGapV0_def

record ControlMessage =
  mSchema :: string
  mAction :: string

text \<open>\<open>DurationSec\<close> is kept in nanoseconds; the code divides by one second.\<close>

record PauseGapEvent =
  gSchema :: string
  gFrom :: time
  gTo :: time
  gDuration :: duration

definition NewPauseGapEvent :: "time \<Rightarrow> time \<Rightarrow> PauseGapEvent" where
  "NewPauseGapEvent from to =
     (let to' = (if to < from then from else to)
      in \<lparr>gSchema = SchemaPauseGapV0, gFrom = from, gTo = to', gDuration = time_sub to' from\<rparr>)"

record AgentInfo =
  aID :: string
  aType :: string
  aName :: string
  aPID :: int
  aParentAgentID :: string
  aSpawnMethod :: string
  aFirstSeen :: time
  aLastSeen :: time
  aCwd :: string
  aVersion :: string

record SessionInfo =
  sessID :: string

record SemanticEvent =
  sSchema :: string
  sTS :: time
  sAgent :: AgentInfo
  sSession :: SessionInfo
  sEvent :: string
  sTool :: string
  sTarget :: string
  sCWD :: string
  sPID :: int
  sPPID :: int
  sTags :: "string list option"
  sDestinationIntents :: "string list option"
  sToolUseID :: string
  sInputSummary :: "jobject option"
  sOutputSummary :: "jobject option"
  sRawRef :: string

record NetworkFlowEvent =
  fSchema :: string
  fTS :: time
  fAgent :: "AgentInfo option"
  fFlowID :: string
  fObserver :: string
  fPID :: int
  fPPID :: int
  fProcessPath :: string
  fProcessBundleID :: string
  fProcessTeamID :: string
  fSigningInfo :: "jobject option"
  fLocal :: string
  fRemote :: string
  fSNI :: string
  fHostname :: string
  fHostnameSource :: string
  fPTRHostname :: string
  fProtocol :: string
  fDirection :: string
  fBytesOut :: int
  fBytesIn :: int
  fState :: string

record ProcessNode =
  nPID :: int
  nPPID :: int
  nName :: string
  nSource :: string
  nRole :: string

record CorrelatedEvent =
  cSchema :: string
  cTS :: time
  cAgent :: "AgentInfo option"
  cSemanticIDs :: "string list"
  cFlowIDs :: "string list"
  cScore :: rat
  cConfidence :: string
  cReasons :: "string list"
  cSummary :: string
  cSemantics :: "SemanticEvent list"
  cFlows :: "NetworkFlowEvent list"
  cProcessTree :: "ProcessNode list"

record AgentLifecycleEvent =
  lSchema :: string
  lTS :: time
  lEvent :: string
  lAgent :: AgentInfo

record InspectedHTTPHeader =
  hdrName :: string
  hdrPresent :: bool
  hdrRedacted :: bool
  hdrValueSHA256 :: string
  hdrPreview :: string

record InspectedHTTPRequest =
  rqMethod :: string
  rqScheme :: string
  rqHost :: string
  rqPath :: string
  rqQueryRedacted :: bool
  rqHeaders :: "InspectedHTTPHeader list"
  rqContentType :: string
  rqBodySize :: int
  rqBodySHA256 :: string
  rqPreview :: string
  rqPreviewTruncated :: bool
  rqRedactionCount :: int
  rqPayloadRef :: string

record InspectedHTTPResponse =
  rsStatus :: int
  rsContentType :: string
  rsBodySize :: int
  rsBodySHA256 :: string
  rsPreview :: string
  rsPreviewTruncated :: bool
  rsRedactionCount :: int
  rsPayloadRef :: string

record InspectedHTTPTLS =
  tInspectionMode :: string
  tCAFingerprint :: string
  tLeafCertGenerated :: bool
  tUpstreamTLSVersion :: string

record InspectedHTTPNetwork =
  nwRemote :: string
  nwRemoteIP :: string
  nwRemotePort :: int
  nwBytesOut :: int
  nwBytesIn :: int
  nwDurationMS :: int

record InspectedHTTPRetention =
  rtPayloadMode :: string
  rtPreviewBytes :: int
  rtFullPayloadStored :: bool
  rtRetention :: string

record InspectedHTTPCorrelation =
  crBasis :: "string list option"
  crConfidence :: string

record InspectedHTTPExchange =
  xSchema :: string
  xTS :: time
  xSessionID :: string
  xSpanID :: string
  xToolUseID :: string
  xRequest :: InspectedHTTPRequest
  xResponse :: InspectedHTTPResponse
  xTLS :: InspectedHTTPTLS
  xNetwork :: InspectedHTTPNetwork
  xRetention :: InspectedHTTPRetention
  xCorrelation :: InspectedHTTPCorrelation

text \<open>The zero values Go gives a declared variable of these types.\<close>

definition zeroAgent :: AgentInfo where
  "zeroAgent = \<lparr>aID = [], aType = [], aName = [], aPID = 0, aParentAgentID = [], aSpawnMethod = [],
     aFirstSeen = 0, aLastSeen = 0, aCwd = [], aVersion = []\<rparr>"

definition zeroSemantic :: SemanticEvent where
  "zeroSemantic = \<lparr>sSchema = [], sTS = 0, sAgent = zeroAgent, sSession = \<lparr>sessID = []\<rparr>, sEvent = [],
     sTool = [], sTarget = [], sCWD = [], sPID = 0, sPPID = 0, sTags = None,
     sDestinationIntents = None, sToolUseID = [], sInputSummary = None, sOutputSummary = None,
     sRawRef = []\<rparr>"

definition zeroFlow :: NetworkFlowEvent where
  "zeroFlow = \<lparr>fSchema = [], fTS = 0, fAgent = None, fFlowID = [], fObserver = [], fPID = 0,
     fPPID = 0, fProcessPath = [], fProcessBundleID = [], fProcessTeamID = [], fSigningInfo = None,
     fLocal = [], fRemote = [], fSNI = [], fHostname = [], fHostnameSource = [], fPTRHostname = [],
     fProtocol = [], fDirection = [], fBytesOut = 0, fBytesIn = 0, fState = []\<rparr>"

section \<open>Wire encoding\<close>

text \<open>\<open>AgentInfo.MarshalJSON\<close> and \<open>SemanticEvent.MarshalJSON\<close>: the object each hands to
  \<open>json.Marshal\<close>.\<close>

definition put_unless :: "bool \<Rightarrow> string \<Rightarrow> json \<Rightarrow> jobject \<Rightarrow> jobject" where
  "put_unless b k v m = (if b then m else mput k v m)"

definition AgentInfo_MarshalJSON :: "AgentInfo \<Rightarrow> jobject" where
  "AgentInfo_MarshalJSON a =
     put_unless (aVersion a = []) ''version'' (JStr (aVersion a))
    (put_unless (aCwd a = []) ''cwd'' (JStr (aCwd a))
    (put_unless (IsZero (aLastSeen a)) ''last_seen'' (JStr (FormatRFC3339Nano (aLastSeen a)))
    (put_unless (IsZero (aFirstSeen a)) ''first_seen'' (JStr (FormatRFC3339Nano (aFirstSeen a)))
    (put_unless (aSpawnMethod a = []) ''spawn_method'' (JStr (aSpawnMethod a))
    (put_unless (aParentAgentID a = []) ''parent_agent_id'' (JStr (aParentAgentID a))
    (put_unless (\<not> aPID a > 0) ''pid'' (JNum (Itoa (aPID a)))
    (put_unless (aName a = []) ''name'' (JStr (aName a))
    (put_unless (aType a = []) ''type'' (JStr (aType a))
    (put_unless (aID a = []) ''id'' (JStr (aID a)) [])))))))))"

definition SessionInfo_json :: "SessionInfo \<Rightarrow> jobject" where
  "SessionInfo_json s = (if sessID s = [] then [] else [(''id'', JStr (sessID s))])"

definition SemanticEvent_MarshalJSON :: "SemanticEvent \<Rightarrow> jobject" where
  "SemanticEvent_MarshalJSON e =
     [(''schema'', JStr (sSchema e)), (''ts'', JStr (FormatRFC3339Nano (sTS e))),
      (''agent'', JObj (AgentInfo_MarshalJSON (sAgent e))),
      (''session'', JObj (SessionInfo_json (sSession e))),
      (''event'', JStr (sEvent e)), (''tool'', JStr (sTool e)), (''target'', JStr (sTarget e)),
      (''cwd'', JStr (sCWD e)), (''pid'', JNum (Itoa (sPID e))), (''ppid'', JNum (Itoa (sPPID e))),
      (''tags'', JArr (map JStr (items (sTags e))))] @
     (if items (sDestinationIntents e) = [] then []
      else [(''destination_intents'', JArr (map JStr (items (sDestinationIntents e))))]) @
     [(''tool_use_id'', JStr (sToolUseID e)), (''input_summary'', JObj (items (sInputSummary e)))] @
     (if items (sOutputSummary e) = [] then []
      else [(''output_summary'', JObj (items (sOutputSummary e)))]) @
     (if sRawRef e = [] then [] else [(''raw_ref'', JStr (sRawRef e))])"

section \<open>Normalisation\<close>

definition normalizeAgent :: "AgentInfo \<Rightarrow> AgentInfo" where
  "normalizeAgent a = a\<lparr>aID := TrimSpace (aID a), aType := TrimSpace (aType a),
     aName := TrimSpace (aName a), aParentAgentID := TrimSpace (aParentAgentID a),
     aSpawnMethod := TrimSpace (aSpawnMethod a), aCwd := TrimSpace (aCwd a)\<rparr>"

fun normalize_loop :: "string list \<Rightarrow> string list \<Rightarrow> string list \<Rightarrow> string list" where
  "normalize_loop seen out [] = out"
| "normalize_loop seen out (v # vs) =
     (let v' = TrimSpace v
      in if v' = [] \<or> v' \<in> set seen then normalize_loop seen out vs
         else normalize_loop (v' # seen) (out @ [v']) vs)"

definition normalizeStringSlice :: "string list option \<Rightarrow> string list option" where
  "normalizeStringSlice values = map_option (normalize_loop [] []) values"

definition NormalizeSemanticEvent :: "time \<Rightarrow> SemanticEvent \<Rightarrow> SemanticEvent" where
  "NormalizeSemanticEvent clk e = e\<lparr>
     sSchema := (if sSchema e = [] then SchemaSemanticV0 else sSchema e),
     sTS := (if IsZero (sTS e) then clk else sTS e),
     sAgent := normalizeAgent (sAgent e),
     sSession := (sSession e)\<lparr>sessID := TrimSpace (sessID (sSession e))\<rparr>,
     sEvent := TrimSpace (sEvent e), sTool := TrimSpace (sTool e), sTarget := TrimSpace (sTarget e),
     sCWD := TrimSpace (sCWD e), sToolUseID := TrimSpace (sToolUseID e),
     sRawRef := TrimSpace (sRawRef e),
     sTags := Some (items (sTags e)),
     sDestinationIntents := normalizeStringSlice (sDestinationIntents e),
     sInputSummary := Some (items (sInputSummary e))\<rparr>"

definition signingInfoString :: "jobject \<Rightarrow> string \<Rightarrow> string" where
  "signingInfoString info key =
     (case mget info key of
        None \<Rightarrow> []
      | Some JNull \<Rightarrow> []
      | Some (JStr v) \<Rightarrow> TrimSpace v
      | Some v \<Rightarrow> TrimSpace (Sprint v))"

text \<open>The process fields fall back to the signing information only when it is present.\<close>

definition signing_default :: "jobject option \<Rightarrow> string \<Rightarrow> string \<Rightarrow> string" where
  "signing_default info key cur =
     (case info of
        None \<Rightarrow> cur
      | Some i \<Rightarrow> if cur = [] then signingInfoString i key else cur)"

definition normalizeFlowAgent :: "AgentInfo option \<Rightarrow> AgentInfo option" where
  "normalizeFlowAgent a =
     (case a of
        None \<Rightarrow> None
      | Some b \<Rightarrow> let b' = normalizeAgent b
                 in if aID b' = [] \<and> aName b' = [] \<and> aPID b' = 0 then None else Some b')"

definition NormalizeNetworkFlow :: "time \<Rightarrow> NetworkFlowEvent \<Rightarrow> NetworkFlowEvent" where
  "NormalizeNetworkFlow clk f = f\<lparr>
     fSchema := (if fSchema f = [] then SchemaNetworkV0 else fSchema f),
     fTS := (if IsZero (fTS f) then clk else fTS f),
     fProtocol := ToLower (TrimSpace (fProtocol f)),
     fDirection := ToLower (TrimSpace (fDirection f)),
     fState := ToLower (TrimSpace (fState f)),
     fRemote := TrimSpace (fRemote f), fLocal := TrimSpace (fLocal f), fSNI := TrimSpace (fSNI f),
     fHostname := TrimSpace (fHostname f),
     fHostnameSource := ToLower (TrimSpace (fHostnameSource f)),
     fPTRHostname := TrimSpace (fPTRHostname f),
     fObserver := ToLower (TrimSpace (fObserver f)),
     fAgent := normalizeFlowAgent (fAgent f),
     fProcessPath := signing_default (fSigningInfo f) ''path'' (TrimSpace (fProcessPath f)),
     fProcessBundleID :=
       signing_default (fSigningInfo f) ''identifier'' (TrimSpace (fProcessBundleID f)),
     fProcessTeamID := signing_default (fSigningInfo f) ''team'' (TrimSpace (fProcessTeamID f))\<rparr>"

definition NormalizeInspectedHTTPExchange :: "time \<Rightarrow> InspectedHTTPExchange \<Rightarrow> InspectedHTTPExchange" where
  "NormalizeInspectedHTTPExchange clk x =
     (let rq = xRequest x; rs = xResponse x; tl = xTLS x; nw = xNetwork x; rt = xRetention x;
          cr = xCorrelation x
      in x\<lparr>
       xSchema := (if xSchema x = [] then SchemaInspectedHTTPV0 else xSchema x),
       xTS := (if IsZero (xTS x) then clk else xTS x),
       xSessionID := TrimSpace (xSessionID x), xSpanID := TrimSpace (xSpanID x),
       xToolUseID := TrimSpace (xToolUseID x),
       xRequest := rq\<lparr>rqMethod := ToUpper (TrimSpace (rqMethod rq)),
         rqScheme := ToLower (TrimSpace (rqScheme rq)), rqHost := ToLower (TrimSpace (rqHost rq)),
         rqPath := TrimSpace (rqPath rq), rqContentType := TrimSpace (rqContentType rq),
         rqPayloadRef := TrimSpace (rqPayloadRef rq),
         rqHeaders := map (\<lambda>h. h\<lparr>hdrName := ToLower (TrimSpace (hdrName h))\<rparr>) (rqHeaders rq)\<rparr>,
       xResponse := rs\<lparr>rsContentType := TrimSpace (rsContentType rs),
         rsPayloadRef := TrimSpace (rsPayloadRef rs)\<rparr>,
       xTLS := tl\<lparr>tInspectionMode := TrimSpace (tInspectionMode tl),
         tCAFingerprint := TrimSpace (tCAFingerprint tl),
         tUpstreamTLSVersion := TrimSpace (tUpstreamTLSVersion tl)\<rparr>,
       xNetwork := nw\<lparr>nwRemote := TrimSpace (nwRemote nw), nwRemoteIP := TrimSpace (nwRemoteIP nw)\<rparr>,
       xRetention := rt\<lparr>rtPayloadMode := TrimSpace (rtPayloadMode rt),
         rtRetention := TrimSpace (rtRetention rt)\<rparr>,
       xCorrelation := cr\<lparr>crConfidence := TrimSpace (crConfidence cr),
         crBasis := normalizeStringSlice (crBasis cr)\<rparr>\<rparr>)"

section \<open>Validation\<close>

datatype event_error =
    UnsupportedEventSchema string
  | MissingTimestamp
  | MissingField string
  | NonPositivePID
  | NonPositivePPID
  | MissingProcessIdentity
  | UnsupportedProtocol string
  | UnsupportedDirection string
  | UnsupportedState string
  | NegativeBytes
  | NegativeBodySize
  | NegativeMetrics
  | UnsupportedObserver string
  | ScoreOutOfRange rat
  | UnsupportedConfidence string
  | MissingReasons
  | EmptyReason
  | MissingSummary
  | OverclaimingSummary
  | MissingSemantics
  | MissingFlows
  | SemanticInvalid nat event_error
  | FlowInvalid nat event_error
  | UnsupportedScheme string
  | UnsupportedTLSMode string
  | MissingBasis

definition ValidateSemanticEvent :: "SemanticEvent \<Rightarrow> event_error option" where
  "ValidateSemanticEvent e =
     (if sSchema e \<noteq> SchemaSemanticV0 then Some (UnsupportedEventSchema (sSchema e))
      else if IsZero (sTS e) then Some MissingTimestamp
      else if aID (sAgent e) = [] then Some (MissingField ''agent id'')
      else if sessID (sSession e) = [] then Some (MissingField ''session id'')
      else if sEvent e = [] then Some (MissingField ''hook event name'')
      else if sTool e = [] then Some (MissingField ''tool'')
      else if sCWD e = [] then Some (MissingField ''cwd'')
      else if sPID e \<le> 0 then Some NonPositivePID
      else if sPPID e \<le> 0 then Some NonPositivePPID
      else if sToolUseID e = [] then Some (MissingField ''tool_use_id'')
      else if sTags e = None then Some (MissingField ''tags array'')
      else if sInputSummary e = None then Some (MissingField ''input_summary'')
      else None)"

definition hasProcessIdentity :: "NetworkFlowEvent \<Rightarrow> bool" where
  "hasProcessIdentity f =
     (if fProcessBundleID f \<noteq> [] then True
      else if fProcessPath f = [] then False
      else if fObserver f = ''network_statistics'' then True
      else Contains (fProcessPath f) ''/'')"

definition ValidateNetworkFlow :: "NetworkFlowEvent \<Rightarrow> event_error option" where
  "ValidateNetworkFlow f =
     (if fSchema f \<noteq> SchemaNetworkV0 then Some (UnsupportedEventSchema (fSchema f))
      else if fPID f \<le> 0 then Some NonPositivePID
      else if \<not> hasProcessIdentity f then Some MissingProcessIdentity
      else if fRemote f = [] then Some (MissingField ''remote endpoint'')
      else if fProtocol f \<notin> {''tcp'', ''udp'', ''quic''} then Some (UnsupportedProtocol (fProtocol f))
      else if fDirection f \<notin> {''out'', ''in''} then Some (UnsupportedDirection (fDirection f))
      else if fState f \<notin> {''new'', ''established'', ''closed'', ''data''} then Some (UnsupportedState (fState f))
      else if fBytesOut f < 0 \<or> fBytesIn f < 0 then Some NegativeBytes
      else if fObserver f \<notin> {'''', ''network_extension'', ''network_statistics'', ''lsof''}
      then Some (UnsupportedObserver (fObserver f))
      else None)"

definition overclaimingTerms :: "string list" where
  "overclaimingTerms = [''exfiltrated'', ''exfiltration'', ''leaked'', ''stolen'']"

definition usesOverclaimingLanguage :: "string \<Rightarrow> bool" where
  "usesOverclaimingLanguage summary \<longleftrightarrow> list_ex (\<lambda>t. Contains (ToLower summary) t) overclaimingTerms"

text \<open>The two validation loops of \<open>ValidateCorrelatedEvent\<close>, with the index of the first failure.\<close>

fun first_invalid :: "(nat \<Rightarrow> event_error \<Rightarrow> event_error) \<Rightarrow> ('a \<Rightarrow> event_error option) \<Rightarrow> nat \<Rightarrow> 'a list \<Rightarrow> event_error option" where
  "first_invalid wrap check i [] = None"
| "first_invalid wrap check i (x # xs) =
     (case check x of Some err \<Rightarrow> Some (wrap i err) | None \<Rightarrow> first_invalid wrap check (Suc i) xs)"

definition ValidateCorrelatedEvent :: "time \<Rightarrow> CorrelatedEvent \<Rightarrow> event_error option" where
  "ValidateCorrelatedEvent clk c =
     (if cSchema c \<noteq> SchemaCorrelatedV0 then Some (UnsupportedEventSchema (cSchema c))
      else if IsZero (cTS c) then Some MissingTimestamp
      else if cScore c \<le> 0 \<or> cScore c > 1 then Some (ScoreOutOfRange (cScore c))
      else if cConfidence c \<notin> {''low'', ''medium'', ''high''} then Some (UnsupportedConfidence (cConfidence c))
      else if cReasons c = [] then Some MissingReasons
      else if list_ex (\<lambda>r. TrimSpace r = []) (cReasons c) then Some EmptyReason
      else if TrimSpace (cSummary c) = [] then Some MissingSummary
      else if usesOverclaimingLanguage (cSummary c) then Some OverclaimingSummary
      else if cSemantics c = [] then Some MissingSemantics
      else if cFlows c = [] then Some MissingFlows
      else case first_invalid SemanticInvalid
                  (\<lambda>s. ValidateSemanticEvent (NormalizeSemanticEvent clk s)) 0 (cSemantics c) of
             Some err \<Rightarrow> Some err
           | None \<Rightarrow> first_invalid FlowInvalid
                  (\<lambda>f. ValidateNetworkFlow (NormalizeNetworkFlow clk f)) 0 (cFlows c))"

definition ValidateInspectedHTTPExchange :: "time \<Rightarrow> InspectedHTTPExchange \<Rightarrow> event_error option" where
  "ValidateInspectedHTTPExchange clk x0 =
     (let x = NormalizeInspectedHTTPExchange clk x0
      in if xSchema x \<noteq> SchemaInspectedHTTPV0 then Some (UnsupportedEventSchema (xSchema x))
      else if IsZero (xTS x) then Some MissingTimestamp
      else if rqMethod (xRequest x) = [] then Some (MissingField ''request method'')
      else if rqScheme (xRequest x) \<noteq> ''http'' \<and> rqScheme (xRequest x) \<noteq> ''https''
      then Some (UnsupportedScheme (rqScheme (xRequest x)))
      else if rqHost (xRequest x) = [] then Some (MissingField ''request host'')
      else if rqPath (xRequest x) = [] then Some (MissingField ''request path'')
      else if rqBodySize (xRequest x) < 0 \<or> rsBodySize (xResponse x) < 0 then Some NegativeBodySize
      else if nwBytesOut (xNetwork x) < 0 \<or> nwBytesIn (xNetwork x) < 0 \<or> nwDurationMS (xNetwork x) < 0
      then Some NegativeMetrics
      else if tInspectionMode (xTLS x) \<notin> {''metadata_only'', ''local_mitm'', ''trust_failed'',
                ''pinned_or_custom_trust'', ''unsupported_protocol''}
      then Some (UnsupportedTLSMode (tInspectionMode (xTLS x)))
      else if crConfidence (xCorrelation x) \<notin> {''low'', ''medium'', ''high''}
      then Some (UnsupportedConfidence (crConfidence (xCorrelation x)))
      else if items (crBasis (xCorrelation x)) = [] then Some MissingBasis
      else None)"

section \<open>Queries\<close>

definition HasTag :: "SemanticEvent \<Rightarrow> string \<Rightarrow> bool" where
  "HasTag e tag \<longleftrightarrow> list_ex (\<lambda>t. t = tag) (items (sTags e))"

definition IsEgressLike :: "SemanticEvent \<Rightarrow> bool" where
  "IsEgressLike e =
     (if list_ex (\<lambda>t. t = ''external_egress_attempt'' \<or> t = ''mcp_tool_use'') (items (sTags e)) then True
      else if HasPrefix (ToLower (sTool e)) ''mcp__'' then True
      else sTool e = ''WebFetch'' \<or> sTool e = ''WebSearch'')"

definition IsExternal :: "NetworkFlowEvent \<Rightarrow> bool" where
  "IsExternal f =
     (if fRemote f = [] then False
      else \<not> list_ex (\<lambda>bad. Contains (fRemote f) bad) [''127.0.0.1'', ''localhost'', ''::1'', ''[::1]''])"

section \<open>Lemmas: normalisation\<close>

lemma normalize_loop_append: "normalize_loop seen out vs = out @ normalize_loop seen [] vs"
proof (induction vs arbitrary: seen out)
  case (Cons v vs)
  show ?case
    by (simp add: Let_def) (metis Cons.IH append.assoc append_Cons append_Nil)
qed simp

lemma normalize_loop_Cons:
  "normalize_loop seen [] (v # vs) =
     (if TrimSpace v = [] \<or> TrimSpace v \<in> set seen then normalize_loop seen [] vs
      else TrimSpace v # normalize_loop (TrimSpace v # seen) [] vs)"
  by (simp add: Let_def) (metis append_Cons append_Nil normalize_loop_append)

lemma set_normalize_loop:
  "set (normalize_loop seen [] vs) = TrimSpace ` set vs - insert [] (set seen)"
proof (induction vs arbitrary: seen)
  case (Cons v vs)
  show ?case
    by (simp only: normalize_loop_Cons) (auto simp: Cons.IH)
qed simp

lemma distinct_normalize_loop: "distinct (normalize_loop seen [] vs)"
  by (induction vs arbitrary: seen)
     (auto simp: normalize_loop_Cons set_normalize_loop simp del: normalize_loop.simps(2))

lemma normalize_loop_fixed:
  assumes "distinct vs" "\<And>v. v \<in> set vs \<Longrightarrow> TrimSpace v = v \<and> v \<noteq> [] \<and> v \<notin> set seen"
  shows "normalize_loop seen [] vs = vs"
  using assms
proof (induction vs arbitrary: seen)
  case (Cons v vs)
  then have "normalize_loop (v # seen) [] vs = vs" by (intro Cons.IH) auto
  with Cons.prems(2) [of v] show ?case
    by (simp add: normalize_loop_Cons del: normalize_loop.simps(2))
qed simp

lemma normalizeStringSlice_idem [simp]:
  "normalizeStringSlice (normalizeStringSlice xs) = normalizeStringSlice xs"
proof -
  have "normalize_loop [] [] (normalize_loop [] [] ys) = normalize_loop [] [] ys" for ys
    by (rule normalize_loop_fixed) (auto simp: distinct_normalize_loop set_normalize_loop)
  then show ?thesis by (cases xs) (simp_all add: normalizeStringSlice_def)
qed

lemma normalizeAgent_idem [simp]: "normalizeAgent (normalizeAgent a) = normalizeAgent a"
  by (simp add: normalizeAgent_def)

lemma normalizeAgent_keeps [simp]:
  "aPID (normalizeAgent a) = aPID a" "aID (normalizeAgent a) = TrimSpace (aID a)"
  "aName (normalizeAgent a) = TrimSpace (aName a)"
  by (simp_all add: normalizeAgent_def)

lemma normalizeFlowAgent_idem [simp]:
  "normalizeFlowAgent (normalizeFlowAgent a) = normalizeFlowAgent a"
  by (auto simp: normalizeFlowAgent_def Let_def split: option.splits)

lemma signingInfoString_trimmed [simp]: "TrimSpace (signingInfoString i k) = signingInfoString i k"
  by (auto simp: signingInfoString_def split: option.splits json.splits)

lemma signing_default_trim [simp]:
  "TrimSpace s = s \<Longrightarrow> TrimSpace (signing_default i k s) = signing_default i k s"
  by (auto simp: signing_default_def split: option.splits)

lemma signing_default_idem [simp]: "signing_default i k (signing_default i k s) = signing_default i k s"
  by (auto simp: signing_default_def split: option.splits)

lemma upper_char_idem [simp]: "upper_char (upper_char c) = upper_char c"
  by (auto simp: upper_char_def Let_def of_char_mod_256)

lemma is_space_upper_char [simp]: "is_space (upper_char c) = is_space c"
proof -
  have "(of_char (upper_char c) :: nat) = (let n = of_char c in if 97 \<le> n \<and> n \<le> 122 then n - 32 else n)"
    by (auto simp: upper_char_def Let_def of_char_mod_256)
  then show ?thesis by (auto simp: is_space_def Let_def)
qed

lemma TrimSpace_ToUpper [str_simps]: "TrimSpace (ToUpper s) = ToUpper (TrimSpace s)"
  by (simp add: TrimSpace_def ToUpper_def trim_by_def trim_left_by_def trim_right_by_def
      rev_map dropWhile_map comp_def)

lemma ToUpper_idem [simp, str_simps]: "ToUpper (ToUpper s) = ToUpper s"
  by (simp add: ToUpper_def)

lemma NormalizeSemanticEvent_simps [simp]:
  "sPID (NormalizeSemanticEvent clk e) = sPID e"
  "sPPID (NormalizeSemanticEvent clk e) = sPPID e"
  "sTool (NormalizeSemanticEvent clk e) = TrimSpace (sTool e)"
  "sToolUseID (NormalizeSemanticEvent clk e) = TrimSpace (sToolUseID e)"
  "sSession (NormalizeSemanticEvent clk e) = (sSession e)\<lparr>sessID := TrimSpace (sessID (sSession e))\<rparr>"
  "sAgent (NormalizeSemanticEvent clk e) = normalizeAgent (sAgent e)"
  "items (sTags (NormalizeSemanticEvent clk e)) = items (sTags e)"
  by (simp_all add: NormalizeSemanticEvent_def)

lemma NormalizeSemanticEvent_idem [simp]:
  "clk \<noteq> 0 \<Longrightarrow> NormalizeSemanticEvent clk' (NormalizeSemanticEvent clk e) = NormalizeSemanticEvent clk e"
  by (simp add: NormalizeSemanticEvent_def SchemaSemanticV0_def IsZero_def)

lemma NormalizeNetworkFlow_simps [simp]:
  "fPID (NormalizeNetworkFlow clk f) = fPID f"
  "fPPID (NormalizeNetworkFlow clk f) = fPPID f"
  "fRemote (NormalizeNetworkFlow clk f) = TrimSpace (fRemote f)"
  "fTS (NormalizeNetworkFlow clk f) = (if fTS f = 0 then clk else fTS f)"
  by (simp_all add: NormalizeNetworkFlow_def IsZero_def)

lemma NormalizeNetworkFlow_idem [simp]:
  "clk \<noteq> 0 \<Longrightarrow> NormalizeNetworkFlow clk' (NormalizeNetworkFlow clk f) = NormalizeNetworkFlow clk f"
  by (simp add: NormalizeNetworkFlow_def SchemaNetworkV0_def IsZero_def str_simps)

lemma NormalizeInspectedHTTPExchange_idem [simp]:
  "clk \<noteq> 0 \<Longrightarrow>
   NormalizeInspectedHTTPExchange clk' (NormalizeInspectedHTTPExchange clk x) = NormalizeInspectedHTTPExchange clk x"
  by (simp add: NormalizeInspectedHTTPExchange_def SchemaInspectedHTTPV0_def IsZero_def Let_def str_simps
      comp_def)

section \<open>Lemmas: validation\<close>

lemma first_invalid_None_iff [simp]:
  "first_invalid wrap check i xs = None \<longleftrightarrow> (\<forall>x \<in> set xs. check x = None)"
  by (induction xs arbitrary: i) (auto split: option.splits)

lemma first_invalid_first:
  "first_invalid wrap check i xs = Some err \<longleftrightarrow>
     (\<exists>j < length xs. \<exists>e. check (xs ! j) = Some e \<and> err = wrap (i + j) e \<and> (\<forall>k < j. check (xs ! k) = None))"
proof (induction xs arbitrary: i)
  case (Cons x xs)
  show ?case
    by (cases "check x") (auto simp: Cons.IH Ex_less_Suc2 All_less_Suc2)
qed simp

lemma ValidateNetworkFlow_None:
  "ValidateNetworkFlow f = None \<longleftrightarrow>
     fSchema f = SchemaNetworkV0 \<and> 0 < fPID f \<and> hasProcessIdentity f \<and> fRemote f \<noteq> [] \<and>
     fProtocol f \<in> {''tcp'', ''udp'', ''quic''} \<and> fDirection f \<in> {''out'', ''in''} \<and>
     fState f \<in> {''new'', ''established'', ''closed'', ''data''} \<and> 0 \<le> fBytesOut f \<and> 0 \<le> fBytesIn f \<and>
     fObserver f \<in> {'''', ''network_extension'', ''network_statistics'', ''lsof''}"
  unfolding ValidateNetworkFlow_def by (simp add: not_le not_less del: insert_iff)

lemma ValidateSemanticEvent_None:
  "ValidateSemanticEvent e = None \<longleftrightarrow>
     sSchema e = SchemaSemanticV0 \<and> sTS e \<noteq> 0 \<and> aID (sAgent e) \<noteq> [] \<and> sessID (sSession e) \<noteq> [] \<and>
     sEvent e \<noteq> [] \<and> sTool e \<noteq> [] \<and> sCWD e \<noteq> [] \<and> 0 < sPID e \<and> 0 < sPPID e \<and>
     sToolUseID e \<noteq> [] \<and> sTags e \<noteq> None \<and> sInputSummary e \<noteq> None"
  by (auto simp: ValidateSemanticEvent_def IsZero_def)

end
