(* ===== verification/Go_Net.thy ===== *)
theory Go_Net
  imports Prelude
begin

text \<open>
  The part of \<open>net\<close> and \<open>net/netip\<close> the sources call: \<open>SplitHostPort\<close>, \<open>JoinHostPort\<close>,
  \<open>netip.ParseAddr\<close>, \<open>net.ParseIP\<close>, \<open>netip.ParsePrefix\<close> and the address classes. Parse errors are
  \<^const>\<open>None\<close>: the sources only test whether the error is nil. IPv4-mapped IPv6 addresses are
  classified by the embedded IPv4 address, as \<open>net/netip\<close> does in the Go release of \<open>go.mod\<close>.
\<close>

section \<open>Host and port\<close>

fun index_of :: "char \<Rightarrow> string \<Rightarrow> nat option" where
  "index_of c [] = None"
| "index_of c (x # xs) = (if x = c then Some 0 else map_option Suc (index_of c xs))"

definition last_index_of :: "char \<Rightarrow> string \<Rightarrow> nat option" where
  "last_index_of c s = map_option (\<lambda>i. length s - 1 - i) (index_of c (rev s))"

definition SplitHostPort :: "string \<Rightarrow> (string \<times> string) option" where
  "SplitHostPort hp =
     (case last_index_of CHR '':'' hp of
        None \<Rightarrow> None
      | Some i \<Rightarrow>
          if HasPrefix hp ''['' then
            (case index_of CHR '']'' hp of
               None \<Rightarrow> None
             | Some e \<Rightarrow>
                 if e + 1 \<noteq> i then None
                 else if CHR ''['' \<in> set (drop 1 hp) \<or> CHR '']'' \<in> set (drop (e + 1) hp) then None
                 else Some (take (e - 1) (drop 1 hp), drop (i + 1) hp))
          else if CHR '':'' \<in> set (take i hp) then None
          else if CHR ''['' \<in> set hp \<or> CHR '']'' \<in> set hp then None
          else Some (take i hp, drop (i + 1) hp))"

definition JoinHostPort :: "string \<Rightarrow> string \<Rightarrow> string" where
  "JoinHostPort host port =
     (if CHR '':'' \<in> set host then ''['' @ host @ '']:'' @ port else host @ '':'' @ port)"

section \<open>Addresses\<close>

text \<open>Bytes are naturals below 256: four of them for IPv4, sixteen and a zone for IPv6.\<close>

datatype addr = V4 "nat list" | V6 "nat list" string

definition is_digit :: "char \<Rightarrow> bool" where
  "is_digit c \<longleftrightarrow> (let n = of_char c :: nat in 48 \<le> n \<and> n \<le> 57)"

definition hex_val :: "char \<Rightarrow> nat option" where
  "hex_val c =
     (let n = of_char c :: nat
      in if 48 \<le> n \<and> n \<le> 57 then Some (n - 48)
         else if 97 \<le> n \<and> n \<le> 102 then Some (n - 87)
         else if 65 \<le> n \<and> n \<le> 70 then Some (n - 55)
         else None)"

definition parse_dec :: "string \<Rightarrow> nat" where
  "parse_dec s = foldl (\<lambda>v c. 10 * v + (of_char c - 48)) 0 s"

text \<open>\<open>strconv.Atoi\<close>, and \<open>ParseInt\<close> in base 10, on 64 bits.\<close>

definition Atoi :: "string \<Rightarrow> int option" where
  "Atoi s =
     (let neg = HasPrefix s ''-''; ds = (if neg \<or> HasPrefix s ''+'' then drop 1 s else s)
      in if ds = [] \<or> \<not> list_all is_digit ds then None
         else let v = (if neg then - int (parse_dec ds) else int (parse_dec ds))
              in if - 9223372036854775808 \<le> v \<and> v \<le> 9223372036854775807 then Some v else None)"

definition parse_hex :: "string \<Rightarrow> nat" where
  "parse_hex s = foldl (\<lambda>v c. 16 * v + (case hex_val c of None \<Rightarrow> 0 | Some d \<Rightarrow> d)) 0 s"

definition parse_octet :: "string \<Rightarrow> nat option" where
  "parse_octet p =
     (if p = [] \<or> \<not> list_all is_digit p then None
      else if 1 < length p \<and> hd p = CHR ''0'' then None
      else if 255 < parse_dec p then None
      else Some (parse_dec p))"

fun all_some :: "'a option list \<Rightarrow> 'a list option" where
  "all_some [] = Some []"
| "all_some (None # xs) = None"
| "all_some (Some x # xs) = map_option ((#) x) (all_some xs)"

definition parse_v4 :: "string \<Rightarrow> nat list option" where
  "parse_v4 s =
     (let parts = Split s ''.'' in if length parts = 4 then all_some (map parse_octet parts) else None)"

text \<open>The loop of \<open>parseIPv6\<close>: the first argument counts the 16-bit groups still free, so the byte
  index of the source is the length of \<open>acc\<close>.\<close>

fun v6_loop :: "nat \<Rightarrow> nat list \<Rightarrow> nat option \<Rightarrow> string \<Rightarrow> (nat list \<times> nat option \<times> string) option" where
  "v6_loop 0 acc ell s = Some (acc, ell, s)"
| "v6_loop (Suc n) acc ell s =
     (let h = takeWhile (\<lambda>c. hex_val c \<noteq> None) s;
          r = dropWhile (\<lambda>c. hex_val c \<noteq> None) s;
          acc' = acc @ [parse_hex h div 256, parse_hex h mod 256]
      in if h = [] \<or> 4 < length h then None
         else if HasPrefix r ''.'' then
           (if (ell = None \<and> length acc \<noteq> 12) \<or> 16 < length acc + 4 then None
            else map_option (\<lambda>bs. (acc @ bs, ell, [])) (parse_v4 s))
         else (case r of
             [] \<Rightarrow> Some (acc', ell, [])
           | c # r' \<Rightarrow>
               if c \<noteq> CHR '':'' then None
               else (case r' of
                   [] \<Rightarrow> None
                 | d # r'' \<Rightarrow>
                     if d = CHR '':'' then
                       (if ell \<noteq> None then None
                        else if r'' = [] then Some (acc', Some (length acc'), [])
                        else v6_loop n acc' (Some (length acc')) r'')
                     else v6_loop n acc' ell r')))"

definition v6_finish :: "string \<Rightarrow> (nat list \<times> nat option \<times> string) option \<Rightarrow> addr option" where
  "v6_finish zone res =
     (case res of
        None \<Rightarrow> None
      | Some (acc, ell, s) \<Rightarrow>
          if s \<noteq> [] then None
          else if length acc < 16 then
            (case ell of
               None \<Rightarrow> None
             | Some e \<Rightarrow> Some (V6 (take e acc @ replicate (16 - length acc) 0 @ drop e acc) zone))
          else if ell \<noteq> None then None
          else Some (V6 acc zone))"

definition parse_v6 :: "string \<Rightarrow> addr option" where
  "parse_v6 s =
     (let (body, zone) = (case Cut s ''%'' of None \<Rightarrow> (s, None) | Some (b, z) \<Rightarrow> (b, Some z));
          z = (case zone of None \<Rightarrow> [] | Some z \<Rightarrow> z)
      in if zone = Some [] then None
         else if HasPrefix body ''::'' then
           (if body = ''::'' then Some (V6 (replicate 16 0) z)
            else v6_finish z (v6_loop 8 [] (Some 0) (drop 2 body)))
         else v6_finish z (v6_loop 8 [] None body))"

definition ParseAddr :: "string \<Rightarrow> addr option" where
  "ParseAddr s =
     (case dropWhile (\<lambda>c. c \<notin> {CHR ''.'', CHR '':'', CHR ''%''}) s of
        [] \<Rightarrow> None
      | c # _ \<Rightarrow>
          if c = CHR ''.'' then map_option V4 (parse_v4 s)
          else if c = CHR '':'' then parse_v6 s
          else None)"

text \<open>\<open>net.ParseIP\<close> refuses zones.\<close>

definition ParseIP :: "string \<Rightarrow> addr option" where
  "ParseIP s = (case ParseAddr s of Some (V6 bs z) \<Rightarrow> if z = [] then Some (V6 bs z) else None | r \<Rightarrow> r)"

fun unmap :: "addr \<Rightarrow> addr" where
  "unmap (V4 bs) = V4 bs"
| "unmap (V6 bs z) =
     (if take 12 bs = replicate 10 0 @ [255, 255] then V4 (drop 12 bs) else V6 bs z)"

definition byte :: "nat list \<Rightarrow> nat \<Rightarrow> nat" where
  "byte bs i = (if i < length bs then bs ! i else 0)"

definition IsLoopback :: "addr \<Rightarrow> bool" where
  "IsLoopback a =
     (case unmap a of V4 bs \<Rightarrow> byte bs 0 = 127 | V6 bs _ \<Rightarrow> bs = replicate 15 0 @ [1])"

definition IsPrivate :: "addr \<Rightarrow> bool" where
  "IsPrivate a =
     (case unmap a of
        V4 bs \<Rightarrow> byte bs 0 = 10 \<or> (byte bs 0 = 172 \<and> byte bs 1 div 16 = 1) \<or>
                 (byte bs 0 = 192 \<and> byte bs 1 = 168)
      | V6 bs _ \<Rightarrow> byte bs 0 div 2 = 126)"

definition IsLinkLocalUnicast :: "addr \<Rightarrow> bool" where
  "IsLinkLocalUnicast a =
     (case unmap a of
        V4 bs \<Rightarrow> byte bs 0 = 169 \<and> byte bs 1 = 254
      | V6 bs _ \<Rightarrow> byte bs 0 = 254 \<and> byte bs 1 div 64 = 2)"

definition IsLinkLocalMulticast :: "addr \<Rightarrow> bool" where
  "IsLinkLocalMulticast a =
     (case unmap a of
        V4 bs \<Rightarrow> byte bs 0 = 224 \<and> byte bs 1 = 0 \<and> byte bs 2 = 0
      | V6 bs _ \<Rightarrow> byte bs 0 = 255 \<and> byte bs 1 mod 16 = 2)"

definition IsMulticast :: "addr \<Rightarrow> bool" where
  "IsMulticast a = (case unmap a of V4 bs \<Rightarrow> byte bs 0 div 16 = 14 | V6 bs _ \<Rightarrow> byte bs 0 = 255)"

definition IsGlobalUnicast :: "addr \<Rightarrow> bool" where
  "IsGlobalUnicast a \<longleftrightarrow>
     (case unmap a of
        V4 bs \<Rightarrow> bs \<noteq> [0, 0, 0, 0] \<and> bs \<noteq> [255, 255, 255, 255]
      | V6 bs z \<Rightarrow> \<not> (bs = replicate 16 0 \<and> z = [])) \<and>
     \<not> IsLoopback a \<and> \<not> IsMulticast a \<and> \<not> IsLinkLocalUnicast a"

section \<open>Printing\<close>

text \<open>\<open>Addr.String\<close>: dotted decimal, or groups in hexadecimal with the first longest run of two or more
  zero groups elided.\<close>

definition hex_char :: "nat \<Rightarrow> char" where
  "hex_char d = ''0123456789abcdef'' ! d"

definition show_group :: "nat \<Rightarrow> string" where
  "show_group g =
     (let ds = [g div 4096 mod 16, g div 256 mod 16, g div 16 mod 16, g mod 16];
          t = dropWhile (\<lambda>d. d = 0) ds
      in map hex_char (if t = [] then [0] else t))"

fun byte_groups :: "nat list \<Rightarrow> nat list" where
  "byte_groups (a # b # bs) = (256 * a + b) # byte_groups bs"
| "byte_groups _ = []"

definition zero_run :: "nat list \<Rightarrow> nat \<Rightarrow> nat" where
  "zero_run gs i = length (takeWhile (\<lambda>g. g = 0) (drop i gs))"

fun longest_zero_run :: "nat list \<Rightarrow> nat list \<Rightarrow> nat \<times> nat \<Rightarrow> nat \<times> nat" where
  "longest_zero_run gs [] best = best"
| "longest_zero_run gs (i # is) (start, len) =
     longest_zero_run gs is (if zero_run gs i > len \<and> zero_run gs i \<ge> 2 then (i, zero_run gs i) else (start, len))"

definition show_v6 :: "nat list \<Rightarrow> string" where
  "show_v6 bs =
     (let gs = byte_groups bs; (start, len) = longest_zero_run gs [0..<8] (0, 0)
      in if len = 0 then Join (map show_group gs) '':''
         else Join (map show_group (take start gs)) '':'' @ ''::'' @ Join (map show_group (drop (start + len) gs)) '':'')"

definition show_v4 :: "nat list \<Rightarrow> string" where
  "show_v4 bs = Join (map (\<lambda>b. Itoa (int b)) bs) ''.''"

fun AddrString :: "addr \<Rightarrow> string" where
  "AddrString (V4 bs) = show_v4 bs"
| "AddrString (V6 bs z) =
     (if take 12 bs = replicate 10 0 @ [255, 255] then ''::ffff:'' @ show_v4 (drop 12 bs) else show_v6 bs)
     @ (if z = [] then [] else ''%'' @ z)"

section \<open>Prefixes\<close>

text \<open>\<open>netip.ParsePrefix\<close>: the text after the last slash is the length, without sign or leading
  zero; a zone is refused. \<open>Prefix.Contains\<close> compares the leading bits of addresses of one family.\<close>

definition ParsePrefix :: "string \<Rightarrow> (addr \<times> nat) option" where
  "ParsePrefix s =
     (case last_index_of CHR ''/'' s of
        None \<Rightarrow> None
      | Some i \<Rightarrow>
          (case ParseAddr (take i s) of
             None \<Rightarrow> None
           | Some a \<Rightarrow>
               let b = drop (i + 1) s
               in if (case a of V6 _ z \<Rightarrow> z \<noteq> [] | V4 _ \<Rightarrow> False) then None
                  else if b = [] \<or> \<not> list_all is_digit b \<or> (1 < length b \<and> hd b = CHR ''0'') then None
                  else if parse_dec b > (case a of V4 _ \<Rightarrow> 32 | V6 _ _ \<Rightarrow> 128) then None
                  else Some (a, parse_dec b)))"

fun byte_bits :: "nat \<Rightarrow> nat \<Rightarrow> bool list" where
  "byte_bits 0 b = []"
| "byte_bits (Suc n) b = byte_bits n (b div 2) @ [odd b]"

definition addr_bits :: "nat list \<Rightarrow> bool list" where
  "addr_bits bs = concat (map (byte_bits 8) bs)"

fun prefix_contains :: "addr \<times> nat \<Rightarrow> addr \<Rightarrow> bool" where
  "prefix_contains (V4 p, n) (V4 a) \<longleftrightarrow> take n (addr_bits p) = take n (addr_bits a)"
| "prefix_contains (V6 p _, n) (V6 a z) \<longleftrightarrow> z = [] \<and> take n (addr_bits p) = take n (addr_bits a)"
| "prefix_contains _ _ \<longleftrightarrow> False"

section \<open>Lemmas\<close>

lemma all_some_length: "all_some xs = Some ys \<Longrightarrow> length ys = length xs"
  by (induction xs arbitrary: ys rule: all_some.induct) auto

lemma all_some_set: "all_some xs = Some ys \<Longrightarrow> y \<in> set ys \<Longrightarrow> Some y \<in> set xs"
  by (induction xs arbitrary: ys rule: all_some.induct) auto

lemma parse_v4_shape:
  assumes "parse_v4 s = Some bs"
  shows "length bs = 4" "\<forall>b \<in> set bs. b < 256"
proof -
  from assms show "length bs = 4"
    by (auto simp: parse_v4_def Let_def split: if_splits dest: all_some_length)
  show "\<forall>b \<in> set bs. b < 256"
    using assms
    by (auto simp: parse_v4_def Let_def parse_octet_def split: if_splits dest!: all_some_set)
qed

lemma index_of_None: "index_of c s = None \<longleftrightarrow> c \<notin> set s"
  by (induction s) auto

lemma index_of_append: "c \<notin> set s \<Longrightarrow> index_of c (s @ c # t) = Some (length s)"
  by (induction s) auto

lemma last_index_of_append: "c \<notin> set t \<Longrightarrow> last_index_of c (s @ c # t) = Some (length s)"
  by (simp add: last_index_of_def index_of_append)

text \<open>Splitting a joined host and port gives them back when neither holds a bracket and the port
  holds no colon.\<close>

lemma SplitHostPort_JoinHostPort:
  assumes "set host \<inter> {CHR ''['', CHR '']''} = {}" and "set port \<inter> {CHR ''['', CHR '']'', CHR '':''} = {}"
  shows "SplitHostPort (JoinHostPort host port) = Some (host, port)"
proof (cases "CHR '':'' \<in> set host")
  case False
  have "last_index_of CHR '':'' (host @ CHR '':'' # port) = Some (length host)"
    using assms by (intro last_index_of_append) auto
  moreover have "\<not> HasPrefix (host @ CHR '':'' # port) ''[''"
    using assms(1) by (cases host) (auto simp: HasPrefix_def)
  ultimately show ?thesis
    using False assms by (auto simp: SplitHostPort_def JoinHostPort_def)
next
  case True
  have li: "last_index_of CHR '':'' ((CHR ''['' # host @ [CHR '']'']) @ CHR '':'' # port) =
      Some (length (CHR ''['' # host @ [CHR '']'']))"
    using assms by (intro last_index_of_append) auto
  have ix: "index_of CHR '']'' ((CHR ''['' # host) @ CHR '']'' # CHR '':'' # port) =
      Some (length (CHR ''['' # host))"
    using assms by (intro index_of_append) auto
  show ?thesis
    using True assms li ix by (auto simp: SplitHostPort_def JoinHostPort_def HasPrefix_def)
qed

section \<open>Lemmas: decimal numbers\<close>

lemma digit_char_val: "0 \<le> d \<Longrightarrow> d < 10 \<Longrightarrow> of_char (digit_char d) = nat d + 48"
  by (cases d rule: int_cases) (auto simp: digit_char.simps less_Suc_eq eval_nat_numeral)

lemma digit_char_is_digit [simp]: "is_digit (digit_char d)"
  by (simp add: is_digit_def digit_char.simps)

lemma show_digits_digits: "list_all is_digit (show_digits n)" and show_digits_nonempty: "show_digits n \<noteq> []"
proof -
  have "list_all is_digit (show_digits n) \<and> show_digits n \<noteq> []"
  proof (induction n rule: show_digits.induct)
    case (1 n)
    then show ?case by (subst (1 2) show_digits.simps) simp
  qed
  then show "list_all is_digit (show_digits n)" "show_digits n \<noteq> []" by simp_all
qed

lemma show_digits_chars: "set (show_digits n) \<subseteq> set ''0123456789''"
proof (induction n rule: show_digits.induct)
  case (1 n)
  have "digit_char d \<in> set ''0123456789''" for d by (simp add: digit_char.simps)
  then show ?case using 1 by (subst show_digits.simps) simp
qed

lemma parse_show_digits: "0 \<le> n \<Longrightarrow> parse_dec (show_digits n) = nat n"
proof (induction n rule: show_digits.induct)
  case (1 n)
  show ?case
  proof (cases "n < 10")
    case True
    then show ?thesis using 1 by (subst show_digits.simps) (simp add: parse_dec_def digit_char_val)
  next
    case False
    then have "parse_dec (show_digits (n div 10)) = nat (n div 10)" using 1 by simp
    then have "parse_dec (show_digits n) = 10 * nat (n div 10) + nat (n mod 10)"
      using False by (subst show_digits.simps) (simp add: parse_dec_def digit_char_val)
    also have "\<dots> = nat n" using 1(2) by (simp add: nat_div_distrib nat_mod_distrib)
    finally show ?thesis .
  qed
qed

text \<open>A printed integer comes back.\<close>

lemma digit_not_sign: "is_digit c \<Longrightarrow> c \<noteq> CHR ''-'' \<and> c \<noteq> CHR ''+''"
  by (auto simp: is_digit_def)

lemma Atoi_Itoa:
  assumes "- 9223372036854775808 \<le> i" "i \<le> 9223372036854775807"
  shows "Atoi (Itoa i) = Some i"
proof -
  obtain c cs where s: "show_digits \<bar>i\<bar> = c # cs" using show_digits_nonempty by (metis neq_Nil_conv)
  have "list_all is_digit (c # cs)" "parse_dec (c # cs) = nat \<bar>i\<bar>"
    using show_digits_digits [of "\<bar>i\<bar>"] parse_show_digits [of "\<bar>i\<bar>"] unfolding s by simp_all
  then show ?thesis
    using s assms digit_not_sign [of c] by (cases "i < 0") (auto simp: Atoi_def Itoa_def HasPrefix_def Let_def)
qed

end
