(* ===== verification/Heuristics.thy ===== *)
theory Heuristics
  imports Go_Net
begin

text \<open>
  \<open>config/heuristics.go\<close> and the embedded \<open>config/heuristics.json\<close>: the configuration record, its
  checks and the host matching the correlator uses. \<open>json.Unmarshal\<close> is the parameter of
  \<open>ParseHeuristics\<close>; \<open>defaultHeuristics\<close> is the decoded content of the embedded file.
\<close>

record CorrelationHeuristics =
  CorrelationWindowSeconds :: int
  ExistingConnectionWindowSeconds :: int
  ProcessTTLMinutes :: int
  hMaxAncestorDepth :: int
  HighByteThreshold :: int

record ClassifyHeuristics =
  SensitivePaths :: "string list"
  LocalOnlyHosts :: "string list"
  NetworkCommandTokens :: "string list"

record DestinationCategory =
  catName :: string
  catDomains :: "string list"
  catCIDRs :: "string list"
  QuietByDefault :: bool

record NoisyAutomationRule =
  Family :: string
  ruleContains :: "string list"
  RequiresLocalhost :: bool

record Heuristics =
  hSchema :: string
  hCorrelation :: CorrelationHeuristics
  hClassify :: ClassifyHeuristics
  DestinationCategories :: "DestinationCategory list"
  QuietCategories :: "string list"
  NoisyAutomation :: "NoisyAutomationRule list"

definition HeuristicsSchema :: string where
  "HeuristicsSchema = ''agentsnitch.heuristics.v0''"

datatype heuristics_error =
    JsonError string
  | UnsupportedSchema string
  | NotPositive string
  | MustNotBeEmpty string
  | CategoryMissingName
  | CategoryMissingDomains string
  | InvalidCIDR string string
  | DuplicateCategory string

definition defaultHeuristics :: Heuristics where
  "defaultHeuristics = \<lparr>
     hSchema = ''agentsnitch.heuristics.v0'',
     hCorrelation = \<lparr>CorrelationWindowSeconds = 10, ExistingConnectionWindowSeconds = 30,
       ProcessTTLMinutes = 10, hMaxAncestorDepth = 12, HighByteThreshold = 1048576\<rparr>,
     hClassify = \<lparr>
       SensitivePaths =
         [''.env'', ''.env.local'', ''.env.*'', ''credentials'', ''id_rsa'', ''id_ed25519'',
          ''.pem'', ''.key'', ''.aws/'', ''.ssh/'', ''.netrc'', ''.git-credentials'',
          ''config.json'', ''secrets'', ''.npmrc'', ''.pypirc'', ''.docker/config.json'',
          ''docker/config.json'', ''.kube/config'', ''kubeconfig'', ''.config/gcloud/'',
          ''application_default_credentials.json'', ''terraform.tfvars'', ''.tfvars'',
          ''.terraformrc'', ''credentials.json'', ''client_secret'', ''service-account'',
          ''service_account'', ''ghp_'', ''sk-'', ''AKIA''],
       LocalOnlyHosts = [''localhost'', ''127.0.0.1'', ''::1'', ''0.0.0.0'', ''[::1]''],
       NetworkCommandTokens = [''curl'', ''wget'', ''nc'', ''netcat'', ''socat'']\<rparr>,
     DestinationCategories = [
       \<lparr>catName = ''Playwright bridge traffic'',
         catDomains = [''bridge.claudeusercontent.com'', ''playwright.azureedge.net''],
         catCIDRs = [], QuietByDefault = True\<rparr>,
       \<lparr>catName = ''known Claude service'',
         catDomains = [''anthropic.com'', ''claude.ai'', ''claudeusercontent.com'', ''anthropic-cdn.com''],
         catCIDRs = [''160.79.104.0/21''], QuietByDefault = True\<rparr>,
       \<lparr>catName = ''telemetry/logging'',
         catDomains = [''datadoghq.com'', ''datadoghq.eu'', ''ddog-gov.com'', ''sentry.io'',
           ''sentry-cdn.com'', ''segment.io'', ''segment.com'', ''segmentapis.com'',
           ''posthog.com'', ''statsig.com'', ''statsigapi.net'', ''amplitude.com'',
           ''mixpanel.com''],
         catCIDRs = [], QuietByDefault = True\<rparr>,
       \<lparr>catName = ''package registry'',
         catDomains = [''npmjs.com'', ''pypi.org'', ''pythonhosted.org'', ''rubygems.org'', ''crates.io'',
           ''pkg.go.dev'', ''proxy.golang.org'', ''sum.golang.org'', ''github.com'',
           ''githubusercontent.com'', ''github.io'', ''gitlab.com'', ''bitbucket.org''],
         catCIDRs = [], QuietByDefault = True\<rparr>,
       \<lparr>catName = ''cloud provider'',
         catDomains = [''googleusercontent.com'', ''amazonaws.com'', ''cloudfront.net'', ''azurefd.net'',
           ''azurewebsites.net''],
         catCIDRs = [], QuietByDefault = False\<rparr>,
       \<lparr>catName = ''local dev tunnel'',
         catDomains = [''ngrok-free.app'', ''ngrok.io'', ''trycloudflare.com'', ''loca.lt'',
           ''localtunnel.me'', ''localhost.run''],
         catCIDRs = [], QuietByDefault = True\<rparr>],
     QuietCategories =
       [''known Claude service'', ''Playwright bridge traffic'', ''telemetry/logging'',
        ''local dev server bridge'', ''local dev server'', ''local dev tunnel'',
        ''package registry''],
     NoisyAutomation = [
       \<lparr>Family = ''playwright'',
         ruleContains = [''playwright''],
         RequiresLocalhost = False\<rparr>,
       \<lparr>Family = ''browser_automation'',
         ruleContains = [''browser_batch'', ''browser_screenshot'', ''browser_snapshot'',
           ''browser_navigate'', ''browser_click'', ''browser_type'', ''browser_'',
           ''__browser'', ''chrome''],
         RequiresLocalhost = False\<rparr>,
       \<lparr>Family = ''localhost_paste'',
         ruleContains = [''/paste''],
         RequiresLocalhost = True\<rparr>]\<rparr>"


fun first_error :: "('a \<Rightarrow> 'e option) \<Rightarrow> 'a list \<Rightarrow> 'e option" where
  "first_error f [] = None"
| "first_error f (x # xs) = (case f x of Some e \<Rightarrow> Some e | None \<Rightarrow> first_error f xs)"

text \<open>The loop of \<open>ParseHeuristics\<close> over the destination categories, with the names already seen.\<close>

fun check_categories :: "string list \<Rightarrow> DestinationCategory list \<Rightarrow> heuristics_error option" where
  "check_categories seen [] = None"
| "check_categories seen (c # cs) =
     (let name = TrimSpace (catName c)
      in if name = [] then Some CategoryMissingName
         else if catDomains c = [] \<and> catCIDRs c = [] then Some (CategoryMissingDomains name)
         else (case first_error (\<lambda>cidr. if ParsePrefix (TrimSpace cidr) = None
                                         then Some (InvalidCIDR name cidr) else None) (catCIDRs c) of
                 Some e \<Rightarrow> Some e
               | None \<Rightarrow> if name \<in> set seen then Some (DuplicateCategory name)
                          else check_categories (name # seen) cs))"

definition check_heuristics :: "Heuristics \<Rightarrow> heuristics_error option" where
  "check_heuristics cfg =
     (let co = hCorrelation cfg; cl = hClassify cfg
      in if hSchema cfg \<noteq> HeuristicsSchema then Some (UnsupportedSchema (hSchema cfg))
         else if CorrelationWindowSeconds co \<le> 0 then Some (NotPositive ''correlation_window_seconds'')
         else if ExistingConnectionWindowSeconds co \<le> 0
           then Some (NotPositive ''existing_connection_window_seconds'')
         else if ProcessTTLMinutes co \<le> 0 then Some (NotPositive ''process_ttl_minutes'')
         else if hMaxAncestorDepth co \<le> 0 then Some (NotPositive ''max_ancestor_depth'')
         else if HighByteThreshold co \<le> 0 then Some (NotPositive ''high_byte_threshold'')
         else if SensitivePaths cl = [] then Some (MustNotBeEmpty ''sensitive_paths'')
         else if LocalOnlyHosts cl = [] then Some (MustNotBeEmpty ''local_only_hosts'')
         else if NetworkCommandTokens cl = [] then Some (MustNotBeEmpty ''network_command_tokens'')
         else check_categories [] (DestinationCategories cfg))"

definition ParseHeuristics ::
  "(string \<Rightarrow> string + Heuristics) \<Rightarrow> string \<Rightarrow> heuristics_error + Heuristics" where
  "ParseHeuristics unmarshal data =
     (case unmarshal data of
        Inl e \<Rightarrow> Inl (JsonError e)
      | Inr cfg \<Rightarrow> (case check_heuristics cfg of Some e \<Rightarrow> Inl e | None \<Rightarrow> Inr cfg))"

definition strip_host :: "string \<Rightarrow> string" where
  "strip_host h = Trim (ToLower (TrimSpace h)) ''[]''"

definition strip_port :: "string \<Rightarrow> string" where
  "strip_port h = (case Cut h '':'' of Some (b, _) \<Rightarrow> Trim b ''[]'' | None \<Rightarrow> h)"

definition HostMatchesDomain :: "string \<Rightarrow> string \<Rightarrow> bool" where
  "HostMatchesDomain host domain =
     (let h = strip_host host; d = strip_host domain
      in if h = [] \<or> d = [] then False
         else let h' = strip_port h in h' = d \<or> HasSuffix h' (''.'' @ d))"

definition HostMatchesAnyDomain :: "string \<Rightarrow> string list \<Rightarrow> bool" where
  "HostMatchesAnyDomain host domains = list_ex (HostMatchesDomain host) domains"

definition HostMatchesAnyCIDR :: "string \<Rightarrow> string list \<Rightarrow> bool" where
  "HostMatchesAnyCIDR host cidrs =
     (case ParseAddr (strip_port (strip_host host)) of
        None \<Rightarrow> False
      | Some a \<Rightarrow>
          list_ex (\<lambda>cidr. case ParsePrefix (TrimSpace cidr) of
                            None \<Rightarrow> False | Some p \<Rightarrow> prefix_contains p a) cidrs)"

definition DestinationCategoryForHost :: "Heuristics \<Rightarrow> string \<Rightarrow> string" where
  "DestinationCategoryForHost h host =
     (let host' = strip_host host
      in if host' = [] then []
         else case find (\<lambda>c. HostMatchesAnyDomain host' (catDomains c) \<or>
                              HostMatchesAnyCIDR host' (catCIDRs c)) (DestinationCategories h) of
                None \<Rightarrow> [] | Some c \<Rightarrow> catName c)"

definition DestinationCategoryDomains :: "Heuristics \<Rightarrow> string \<Rightarrow> string list" where
  "DestinationCategoryDomains h name =
     (case find (\<lambda>c. catName c = name) (DestinationCategories h) of
        None \<Rightarrow> [] | Some c \<Rightarrow> catDomains c)"

section \<open>Lemmas\<close>

lemma default_heuristics_checked [simp]: "check_heuristics defaultHeuristics = None"
  by code_simp

lemma default_correlation [simp]:
  "CorrelationWindowSeconds (hCorrelation defaultHeuristics) = 10"
  "ExistingConnectionWindowSeconds (hCorrelation defaultHeuristics) = 30"
  "ProcessTTLMinutes (hCorrelation defaultHeuristics) = 10"
  "hMaxAncestorDepth (hCorrelation defaultHeuristics) = 12"
  "HighByteThreshold (hCorrelation defaultHeuristics) = 1048576"
  by (simp_all add: defaultHeuristics_def)

lemma default_classify [simp]:
  "LocalOnlyHosts (hClassify defaultHeuristics) =
     [''localhost'', ''127.0.0.1'', ''::1'', ''0.0.0.0'', ''[::1]'']"
  "NetworkCommandTokens (hClassify defaultHeuristics) =
     [''curl'', ''wget'', ''nc'', ''netcat'', ''socat'']"
  by (simp_all add: defaultHeuristics_def)

text \<open>What a successful check guarantees to every user of the configuration.\<close>

lemma check_heuristics_positive:
  assumes "check_heuristics cfg = None"
  shows "0 < CorrelationWindowSeconds (hCorrelation cfg)"
    and "0 < ExistingConnectionWindowSeconds (hCorrelation cfg)"
    and "0 < ProcessTTLMinutes (hCorrelation cfg)"
    and "0 < hMaxAncestorDepth (hCorrelation cfg)"
    and "0 < HighByteThreshold (hCorrelation cfg)"
  using assms by (auto simp: check_heuristics_def Let_def split: if_splits)

lemma check_categories_distinct:
  "check_categories seen cs = None \<Longrightarrow>
     distinct (map (TrimSpace \<circ> catName) cs) \<and> set (map (TrimSpace \<circ> catName) cs) \<inter> set seen = {}"
  by (induction seen cs rule: check_categories.induct)
     (auto simp: Let_def split: if_splits option.splits)

lemma first_error_None: "first_error f xs = None \<longleftrightarrow> (\<forall>x \<in> set xs. f x = None)"
  by (induction xs) (auto split: option.splits)

lemma check_categories_cidrs:
  "check_categories seen cs = None \<Longrightarrow> c \<in> set cs \<Longrightarrow> cidr \<in> set (catCIDRs c) \<Longrightarrow>
     ParsePrefix (TrimSpace cidr) \<noteq> None"
  by (induction seen cs rule: check_categories.induct)
     (auto simp: Let_def first_error_None split: if_splits option.splits)

text \<open>A match is always on a label boundary: the host is the domain or a subdomain of it.\<close>

lemma HostMatchesDomain_boundary:
  "HostMatchesDomain host domain \<longleftrightarrow>
     strip_host host \<noteq> [] \<and> strip_host domain \<noteq> [] \<and>
     (strip_port (strip_host host) = strip_host domain \<or>
      (\<exists>p. strip_port (strip_host host) = p @ ''.'' @ strip_host domain))"
  by (auto simp: HostMatchesDomain_def Let_def HasSuffix_def suffix_def)

end
