(* ===== verification/Go_Path.thy ===== *)
theory Go_Path
  imports Prelude
begin

text \<open>
  The part of \<open>path/filepath\<close> (on Unix) the sources call: \<open>Clean\<close>, \<open>Base\<close>, \<open>Dir\<close> and \<open>Join\<close>.
  \<open>Clean\<close> processes the slash-separated elements with a stack, as its documentation describes.
\<close>

fun clean_step :: "bool \<Rightarrow> string list \<Rightarrow> string \<Rightarrow> string list" where
  "clean_step rooted stack e =
     (if e = [] \<or> e = ''.'' then stack
      else if e = ''..'' then
        (case stack of
           [] \<Rightarrow> if rooted then [] else [''..'']
         | x # xs \<Rightarrow> if x = ''..'' then ''..'' # stack else xs)
      else e # stack)"

definition clean_elems :: "bool \<Rightarrow> string list \<Rightarrow> string list" where
  "clean_elems rooted es = rev (fold (\<lambda>e st. clean_step rooted st e) es [])"

definition Clean :: "string \<Rightarrow> string" where
  "Clean path =
     (let rooted = HasPrefix path ''/'';
          body = Join (clean_elems rooted (Split path ''/'')) ''/''
      in if rooted then ''/'' @ body else if body = [] then ''.'' else body)"

definition Base :: "string \<Rightarrow> string" where
  "Base path =
     (if path = [] then ''.''
      else let p = TrimRight path ''/''
           in if p = [] then ''/'' else last (Split p ''/''))"

text \<open>\<open>filepath.Join\<close> ignores leading empty elements and cleans the rest.\<close>

definition PathJoin :: "string list \<Rightarrow> string" where
  "PathJoin es = (let es' = dropWhile (\<lambda>e. e = []) es in if es' = [] then [] else Clean (Join es' ''/''))"

text \<open>\<open>filepath.Dir\<close>: everything up to the last separator, cleaned.\<close>

definition Dir :: "string \<Rightarrow> string" where
  "Dir path = Clean (rev (dropWhile (\<lambda>c. c \<noteq> CHR ''/'') (rev path)))"

text \<open>\<open>filepath.Rel\<close>: the elements of the cleaned paths after their common prefix; None is its error.\<close>

definition path_elems :: "string \<Rightarrow> string list" where
  "path_elems p = clean_elems (HasPrefix p ''/'') (Split p ''/'')"

fun strip_common :: "string list \<Rightarrow> string list \<Rightarrow> string list \<times> string list" where
  "strip_common (b # bs) (t # ts) = (if b = t then strip_common bs ts else (b # bs, t # ts))"
| "strip_common bs ts = (bs, ts)"

definition Rel :: "string \<Rightarrow> string \<Rightarrow> string option" where
  "Rel basepath targpath =
     (if Clean basepath = Clean targpath then Some ''.''
      else if HasPrefix basepath ''/'' \<noteq> HasPrefix targpath ''/'' then None
      else
        let (bs, ts) = strip_common (path_elems basepath) (path_elems targpath)
        in if bs \<noteq> [] \<and> hd bs = ''..'' then None
           else Some (Join (replicate (length bs) ''..'' @ ts) ''/''))"

lemma Split_nonempty [simp]: "Split s sep \<noteq> []"
  by (subst Split.simps) (simp split: option.split)

lemma clean_step_no_empty: "[] \<notin> set st \<Longrightarrow> [] \<notin> set (clean_step r st e)"
  by (auto split: list.splits)

lemma fold_clean_step_no_empty:
  "[] \<notin> set st \<Longrightarrow> [] \<notin> set (fold (\<lambda>e st. clean_step r st e) es st)"
  by (induction es arbitrary: st) (simp_all del: clean_step.simps add: clean_step_no_empty)

lemma clean_elems_no_empty: "[] \<notin> set (clean_elems r es)"
  by (simp del: clean_step.simps add: clean_elems_def fold_clean_step_no_empty)

lemma Clean_nonempty [simp]: "Clean p \<noteq> []"
  by (simp add: Clean_def Let_def)

lemma Clean_rooted: "HasPrefix p ''/'' \<Longrightarrow> HasPrefix (Clean p) ''/''"
  by (simp add: Clean_def Let_def HasPrefix_def)

section \<open>Splitting at a separator character\<close>

lemma Cut_None_iff: "Cut s [c] = None \<longleftrightarrow> c \<notin> set s"
  by (induction s) auto

lemma Cut_here: "c \<notin> set p \<Longrightarrow> Cut (p @ c # q) [c] = Some (p, q)"
  by (induction p) auto

lemma Cut_append: "Cut s [c] = Some (b, a) \<Longrightarrow> Cut (s @ t) [c] = Some (b, a @ t)"
  by (induction s arbitrary: b) (auto split: if_splits)

lemma Split_none: "c \<notin> set s \<Longrightarrow> Split s [c] = [s]"
  by (subst Split.simps) (simp add: Cut_None_iff [THEN iffD2])

lemma Split_snoc: "c \<notin> set e \<Longrightarrow> Split (p @ c # e) [c] = Split p [c] @ [e]"
proof (induction p "[c]" rule: Split.induct)
  case (1 p)
  show ?case
  proof (cases "Cut p [c]")
    case None
    then have "c \<notin> set p" by (simp add: Cut_None_iff)
    then show ?thesis using 1(2) by (subst Split.simps) (simp add: Cut_here Split_none)
  next
    case (Some ba)
    obtain b a where ba: "Cut p [c] = Some (b, a)" using Some by (cases ba) auto
    have "Split (p @ c # e) [c] = b # Split (a @ c # e) [c]"
      by (subst Split.simps) (simp add: Cut_append [OF ba])
    moreover have "Split p [c] = b # Split a [c]" by (subst Split.simps) (simp add: ba)
    ultimately show ?thesis using 1 ba by simp
  qed
qed

lemma Split_no_sep: "e \<in> set (Split s [c]) \<Longrightarrow> c \<notin> set e"
proof (induction s "[c]" rule: Split.induct)
  case (1 s)
  show ?case
  proof (cases "Cut s [c]")
    case None
    then show ?thesis using 1(2) by (simp add: Split_none Cut_None_iff)
  next
    case (Some ba)
    obtain b a where ba: "Cut s [c] = Some (b, a)" using Some by (cases ba) auto
    have "c \<notin> set b" using ba by (induction s arbitrary: b) (auto split: if_splits)
    moreover have "Split s [c] = b # Split a [c]" by (subst Split.simps) (simp add: ba)
    ultimately show ?thesis using 1 ba by auto
  qed
qed

lemma Join_snoc: "Join (es @ [e]) sep = (if es = [] then e else Join es sep @ sep @ e)"
proof (induction es rule: rev_induct)
  case Nil then show ?case by simp
next
  case (snoc x xs)
  have "Join (ys @ [x, e]) sep = Join (ys @ [x]) sep @ sep @ e" for ys :: "string list"
    by (induction ys rule: induct_list012) auto
  then show ?case by simp
qed

lemma Split_Join:
  assumes "es \<noteq> []" "\<And>e. e \<in> set es \<Longrightarrow> c \<notin> set e"
  shows "Split (Join es [c]) [c] = es"
  using assms
proof (induction es rule: rev_induct)
  case (snoc e es)
  then show ?case by (cases "es = []") (simp_all add: Join_snoc Split_none Split_snoc)
qed simp

section \<open>Cleaning\<close>

text \<open>An element that names something: neither empty nor a dot element.\<close>

definition plain_elem :: "string \<Rightarrow> bool" where
  "plain_elem e \<longleftrightarrow> e \<noteq> [] \<and> e \<noteq> ''.'' \<and> e \<noteq> ''..'' \<and> CHR ''/'' \<notin> set e"

lemma clean_elems_snoc: "plain_elem e \<Longrightarrow> clean_elems r (es @ [e]) = clean_elems r es @ [e]"
  by (simp add: clean_elems_def plain_elem_def)

lemma clean_elems_append: "list_all plain_elem ps \<Longrightarrow> clean_elems r (es @ ps) = clean_elems r es @ ps"
  by (induction ps rule: rev_induct) (simp_all add: clean_elems_snoc flip: append_assoc)

text \<open>What a cleaned stack looks like: no empty or dot element, and parents only at the bottom of a
  relative path.\<close>

fun clean_stack :: "bool \<Rightarrow> string list \<Rightarrow> bool" where
  "clean_stack r [] = True"
| "clean_stack r (e # st) \<longleftrightarrow> CHR ''/'' \<notin> set e \<and> e \<noteq> [] \<and> e \<noteq> ''.'' \<and>
     (e = ''..'' \<longrightarrow> \<not> r \<and> set st \<subseteq> {''..''}) \<and> clean_stack r st"

lemma clean_stack_step: "clean_stack r st \<Longrightarrow> CHR ''/'' \<notin> set e \<Longrightarrow> clean_stack r (clean_step r st e)"
  by (cases st) auto

lemma clean_stack_fold:
  "clean_stack r st \<Longrightarrow> (\<And>e. e \<in> set es \<Longrightarrow> CHR ''/'' \<notin> set e) \<Longrightarrow>
     clean_stack r (fold (\<lambda>e st. clean_step r st e) es st)"
  by (induction es arbitrary: st) (simp_all del: clean_step.simps add: clean_stack_step)

lemma clean_stack_refold: "clean_stack r st \<Longrightarrow> fold (\<lambda>e st. clean_step r st e) (rev st) [] = st"
proof (induction st)
  case (Cons e st)
  then have "fold (\<lambda>e st. clean_step r st e) (rev st) [] = st" by simp
  moreover have "clean_step r st e = e # st" using Cons.prems by (auto split: list.splits)
  ultimately show ?case by (simp del: clean_step.simps)
qed simp

lemma clean_elems_stack: "clean_stack r (rev (clean_elems r (Split p ''/'')))"
  unfolding clean_elems_def by (simp del: clean_step.simps add: clean_stack_fold Split_no_sep)

lemma clean_elems_idem: "clean_elems r (clean_elems r (Split p ''/'')) = clean_elems r (Split p ''/'')"
  using clean_stack_refold [OF clean_elems_stack [of r p]] unfolding clean_elems_def [of r "clean_elems _ _"]
  by simp

lemma clean_elems_no_sep: "e \<in> set (clean_elems r (Split p ''/'')) \<Longrightarrow> CHR ''/'' \<notin> set e"
proof -
  have "clean_stack r st \<Longrightarrow> e \<in> set st \<Longrightarrow> CHR ''/'' \<notin> set e" for st by (induction st) auto
  from this [OF clean_elems_stack [of r p]] show "e \<in> set (clean_elems r (Split p ''/'')) \<Longrightarrow> CHR ''/'' \<notin> set e" by simp
qed

lemma Split_slash_Cons: "Split (CHR ''/'' # s) ''/'' = [] # Split s ''/''"
  by (subst Split.simps) simp

lemma clean_elems_Nil_Cons: "clean_elems r ([] # es) = clean_elems r es"
  by (simp add: clean_elems_def)

lemma Join_first: "es \<noteq> [] \<Longrightarrow> \<exists>rest. Join es sep = hd es @ rest"
  by (induction es sep rule: Join.induct) auto

lemma Join_eq_Nil: "[] \<notin> set es \<Longrightarrow> Join es sep = [] \<longleftrightarrow> es = []"
  using Join_first [of es sep] by (cases es) auto

lemma Join_relative:
  assumes "[] \<notin> set es" "\<And>e. e \<in> set es \<Longrightarrow> CHR ''/'' \<notin> set e"
  shows "\<not> HasPrefix (Join es ''/'') ''/''"
proof (cases es)
  case (Cons e es')
  then obtain rest where "Join es ''/'' = e @ rest" using Join_first [of es "''/''"] by auto
  moreover have "e \<noteq> []" "CHR ''/'' \<notin> set e" using assms Cons by auto
  ultimately show ?thesis by (cases e) (auto simp: HasPrefix_def)
qed (simp add: HasPrefix_def)

text \<open>The elements of a cleaned path.\<close>

lemma clean_elems_Clean:
  "HasPrefix (Clean p) ''/'' = HasPrefix p ''/'' \<and>
   clean_elems (HasPrefix p ''/'') (Split (Clean p) ''/'') = clean_elems (HasPrefix p ''/'') (Split p ''/'')"
proof -
  let ?r = "HasPrefix p ''/''" let ?es = "clean_elems ?r (Split p ''/'')"
  have idem: "clean_elems ?r (Split (Join ?es ''/'') ''/'') = ?es"
  proof (cases "?es = []")
    case True
    then show ?thesis by (simp add: Split_none clean_elems_def)
  next
    case False
    then show ?thesis using Split_Join [OF False, of "CHR ''/''"] clean_elems_no_sep clean_elems_idem by metis
  qed
  show ?thesis
  proof (cases ?r)
    case True
    then show ?thesis using idem
      by (simp add: Clean_def Let_def Split_slash_Cons clean_elems_Nil_Cons) (simp add: HasPrefix_def)
  next
    case False
    have rel: "\<not> HasPrefix (Join ?es ''/'') ''/''"
      by (rule Join_relative) (use clean_elems_no_empty clean_elems_no_sep in blast)+
    have "clean_elems False (Split ''.'' ''/'') = []" by code_simp
    moreover have "?es = []" if "Join ?es ''/'' = []"
      using that by (simp add: Join_eq_Nil clean_elems_no_empty)
    ultimately show ?thesis using False rel idem
      by (auto simp: Clean_def Let_def HasPrefix_def)
  qed
qed

lemma Clean_cong:
  "HasPrefix p ''/'' = HasPrefix q ''/'' \<Longrightarrow>
   clean_elems (HasPrefix q ''/'') (Split p ''/'') = clean_elems (HasPrefix q ''/'') (Split q ''/'') \<Longrightarrow> Clean p = Clean q"
  by (cases "HasPrefix q ''/''") (simp_all add: Clean_def Let_def)

lemma Clean_idem [simp]: "Clean (Clean p) = Clean p"
  using clean_elems_Clean [of p] by (intro Clean_cong) simp_all

text \<open>Plain elements joined to a path stay at its end.\<close>

lemma Clean_append:
  assumes "list_all plain_elem ps" "ps \<noteq> []" "p \<noteq> []"
  shows "Clean (p @ ''/'' @ Join ps ''/'') =
    (if HasPrefix p ''/'' then ''/'' else []) @ Join (clean_elems (HasPrefix p ''/'') (Split p ''/'') @ ps) ''/''"
proof -
  have sp: "Split (p @ ''/'' @ Join ps ''/'') ''/'' = Split p ''/'' @ ps"
    using assms(1,2)
  proof (induction ps rule: rev_induct)
    case (snoc e ps)
    then show ?case
      using Split_snoc [of "CHR ''/''" e "p @ ''/'' @ Join ps ''/''"] Split_snoc [of "CHR ''/''" e p]
      by (cases "ps = []") (simp_all add: Join_snoc plain_elem_def)
  qed simp
  have "HasPrefix (p @ ''/'' @ Join ps ''/'') ''/'' = HasPrefix p ''/''"
    using assms(3) by (cases p) (auto simp: HasPrefix_def)
  moreover have "Join (xs @ ps) ''/'' \<noteq> []" for xs
    using assms(1,2) by (cases ps rule: rev_cases) (auto simp: Join_snoc plain_elem_def simp flip: append_assoc)
  ultimately show ?thesis
    using assms(1) sp by (simp add: Clean_def Let_def clean_elems_append)
qed

section \<open>Joining\<close>

lemma Join_last: "\<exists>pre. Join (es @ [e]) ''/'' = pre @ e \<and> (pre = [] \<or> last pre = CHR ''/'')"
  by (cases "es = []") (auto simp: Join_snoc)

lemma Clean_last:
  assumes "plain_elem e" "p \<noteq> []"
  shows "\<exists>pre. Clean (p @ ''/'' @ e) = pre @ e \<and> (pre = [] \<or> last pre = CHR ''/'')"
proof -
  obtain pre where pre: "Join (clean_elems (HasPrefix p ''/'') (Split p ''/'') @ [e]) ''/'' = pre @ e"
    "pre = [] \<or> last pre = CHR ''/''" using Join_last by blast
  have "Clean (p @ ''/'' @ e) = ((if HasPrefix p ''/'' then ''/'' else []) @ pre) @ e"
    using Clean_append [of "[e]" p] assms pre(1) by simp
  then show ?thesis using pre(2) by fastforce
qed

lemma last_elem_unique:
  assumes "pre @ e = pre' @ e'" "CHR ''/'' \<notin> set e" "CHR ''/'' \<notin> set e'"
    "pre = [] \<or> last pre = CHR ''/''" "pre' = [] \<or> last pre' = CHR ''/''"
  shows "e = e'"
proof -
  have rule: "us = []" if "x = y @ us" "CHR ''/'' \<notin> set us" "x = [] \<or> last x = CHR ''/''" for us x y :: string
    using that by (cases us rule: rev_cases) auto
  from assms(1) consider us where "pre = pre' @ us" "us @ e = e'" | us where "pre' = pre @ us" "e = us @ e'"
    unfolding append_eq_append_conv2 by metis
  then show ?thesis
  proof cases
    case (1 us)
    moreover have "CHR ''/'' \<notin> set us" using 1(2) assms(3) by auto
    ultimately show ?thesis using rule [OF 1(1) _ assms(4)] by simp
  next
    case (2 us)
    moreover have "CHR ''/'' \<notin> set us" using 2(2) assms(2) by auto
    ultimately show ?thesis using rule [OF 2(1) _ assms(5)] by simp
  qed
qed

lemma PathJoin_append:
  "p \<noteq> [] \<Longrightarrow> ps \<noteq> [] \<Longrightarrow> PathJoin (p # ps) = Clean (p @ ''/'' @ Join ps ''/'')"
  by (cases ps) (simp_all add: PathJoin_def)

text \<open>Two paths with different last names are different executables.\<close>

lemma PathJoin_last:
  assumes "plain_elem e" "p \<noteq> []" "plain_elem e'" "q \<noteq> []" "Clean (p @ ''/'' @ e) = PathJoin [q, e']"
  shows "e = e'"
proof -
  obtain pre where a: "Clean (p @ ''/'' @ e) = pre @ e" "pre = [] \<or> last pre = CHR ''/''"
    using Clean_last [OF assms(1,2)] by blast
  obtain pre' where b: "Clean (q @ ''/'' @ e') = pre' @ e'" "pre' = [] \<or> last pre' = CHR ''/''"
    using Clean_last [OF assms(3,4)] by blast
  have "pre @ e = pre' @ e'" using assms(5) a(1) b(1) assms(4) by (simp add: PathJoin_append)
  then show ?thesis using last_elem_unique a(2) b(2) assms(1,3) unfolding plain_elem_def by metis
qed

lemma PathJoin_nonempty: "p \<noteq> [] \<Longrightarrow> PathJoin (p # ps) \<noteq> []"
  by (simp add: PathJoin_def Let_def)

lemma PathJoin_eq_Nil: "[] = PathJoin (p # ps) \<Longrightarrow> p = []"
  using PathJoin_nonempty [of p ps] by fastforce

lemma Join_append: "xs \<noteq> [] \<Longrightarrow> ys \<noteq> [] \<Longrightarrow> Join (xs @ ys) sep = Join xs sep @ sep @ Join ys sep"
proof (induction ys rule: rev_induct)
  case (snoc y ys)
  then show ?case using Join_snoc [of "xs @ ys" y sep] by (cases "ys = []") (simp_all add: Join_snoc)
qed simp

text \<open>Joining names to a cleaned directory other than the root and the current one puts the result under it.\<close>

lemma PathJoin_under:
  assumes "list_all plain_elem ps" "ps \<noteq> []" "Clean p \<noteq> ''/''" "Clean p \<noteq> ''.''"
  shows "PathJoin (Clean p # ps) = Clean p @ ''/'' @ Join ps ''/''"
proof -
  let ?r = "HasPrefix p ''/''" let ?es = "clean_elems ?r (Split p ''/'')"
  have c: "Clean p = (if ?r then ''/'' else []) @ Join ?es ''/''" and es: "?es \<noteq> []"
    using assms(3,4) by (auto simp: Clean_def Let_def split: if_splits)
  have "PathJoin (Clean p # ps) =
      (if ?r then ''/'' else []) @ Join (?es @ ps) ''/''"
    using assms(1,2) clean_elems_Clean [of p] Clean_append [of ps "Clean p"] by (simp add: PathJoin_append)
  then show ?thesis using es assms(2) by (subst c) (simp add: Join_append)
qed

lemma PathJoin_clean:
  assumes "list_all plain_elem ps" "ps \<noteq> []" "p \<noteq> []"
  shows "PathJoin (p # ps) = PathJoin (Clean p # ps)"
  using clean_elems_Clean [of p] Clean_append [OF assms] Clean_append [OF assms(1,2), of "Clean p"] assms(2,3)
  by (simp add: PathJoin_append)

section \<open>Relative paths\<close>

lemma strip_common_split:
  "strip_common bs ts = (bs', ts') \<Longrightarrow> \<exists>c. bs = c @ bs' \<and> ts = c @ ts'"
proof (induction bs ts rule: strip_common.induct)
  case (1 b bs t ts)
  then show ?case by (cases "b = t") (auto intro: exI [of _ "t # _"])
qed auto

text \<open>A relative path that does not climb stays below its base.\<close>

lemma Join_parent: "Join (''..'' # es) ''/'' = ''..'' \<or> HasPrefix (Join (''..'' # es) ''/'') ''../''"
  by (cases es) (auto simp: HasPrefix_def)

lemma Rel_below:
  assumes "Rel b t = Some rel" "rel \<noteq> ''..''" "\<not> HasPrefix rel ''../''"
  shows "Clean b = Clean t \<or> (HasPrefix b ''/'' = HasPrefix t ''/'' \<and> (\<exists>rest. path_elems t = path_elems b @ rest))"
proof (cases "Clean b = Clean t")
  case False
  obtain bs ts where st: "strip_common (path_elems b) (path_elems t) = (bs, ts)" by fastforce
  have root: "HasPrefix b ''/'' = HasPrefix t ''/''" using assms(1) False by (auto simp: Rel_def split: if_splits)
  have rel: "rel = Join (replicate (length bs) ''..'' @ ts) ''/''"
    using assms(1) False root st by (auto simp: Rel_def split: if_splits)
  have "bs = []"
    using rel assms(2,3) Join_parent [of "replicate (length bs - 1) ''..'' @ ts"] by (cases bs) auto
  then show ?thesis using strip_common_split [OF st] root by auto
qed simp

text \<open>Splitting goes through a separator, and joining undoes it.\<close>

lemma Split_Cons: "c \<notin> set b \<Longrightarrow> Split (b @ c # a) [c] = b # Split a [c]"
  by (subst Split.simps) (simp add: Cut_here)

lemma Split_append: "Split (p @ c # q) [c] = Split p [c] @ Split q [c]"
proof (induction "length p" arbitrary: p rule: less_induct)
  case less
  show ?case
  proof (cases "c \<in> set p")
    case True
    then obtain b a where "p = b @ c # a" "c \<notin> set b" by (metis split_list_first)
    then show ?thesis using less [of a] by (simp add: Split_Cons)
  qed (simp add: Split_Cons Split_none)
qed

lemma Join_Split: "Join (Split s [c]) [c] = s"
proof (induction "length s" arbitrary: s rule: less_induct)
  case less
  show ?case
  proof (cases "c \<in> set s")
    case True
    then obtain b a where s: "s = b @ c # a" "c \<notin> set b" by (metis split_list_first)
    obtain x xs where "Split a [c] = x # xs" by (cases "Split a [c]") simp_all
    then show ?thesis using less [of a] s by (simp add: Split_Cons)
  qed (simp add: Split_none)
qed

end
