(* ===== verification/Corr_State.thy ===== *)
theory Corr_State
  imports Event Heuristics Go_Path
begin

text \<open>
  \<open>internal/correlator/correlator.go\<close>, the data: process records, tool spans, the session state the
  correlator keeps per agent session and its constants. A \<open>map[int]struct{}\<close> is a list without
  duplicates; the mutex is left out, so every operation below is one atomic step, as it is under
  \<open>s.mu\<close>. \<open>clk\<close> is the wall clock an operation reads.
\<close>

definition MaxRecentEvents :: nat where "MaxRecentEvents = 50"
definition MaxRecentFlows :: nat where "MaxRecentFlows = 100"
definition maxCorrelationEntries :: nat where "maxCorrelationEntries = 2048"
definition correlationCacheTTL :: duration where [time_defs]: "correlationCacheTTL = 15 * Minute"
definition activeToolSpanRetentionWindow :: duration where
  [time_defs]: "activeToolSpanRetentionWindow = 10 * Minute"

definition CorrelationWindow :: duration where
  [time_defs]: "CorrelationWindow = CorrelationWindowSeconds (hCorrelation defaultHeuristics) * Second"
definition ExistingConnectionWindow :: duration where
  [time_defs]: "ExistingConnectionWindow =
     ExistingConnectionWindowSeconds (hCorrelation defaultHeuristics) * Second"
definition ProcessTTL :: duration where
  [time_defs]: "ProcessTTL = ProcessTTLMinutes (hCorrelation defaultHeuristics) * Minute"
definition MaxAncestorDepth :: nat where
  "MaxAncestorDepth = nat (hMaxAncestorDepth (hCorrelation defaultHeuristics))"

record ProcessInfo =
  piPID :: int
  piPPID :: int
  piName :: string
  piStartedAt :: time
  piSource :: string
  piAgentID :: string
  piAgentKind :: string
  piIsAgentBinary :: bool
  piTrackAsAgent :: bool
  piLastSeen :: time

definition zeroProcess :: ProcessInfo where
  "zeroProcess = \<lparr>piPID = 0, piPPID = 0, piName = [], piStartedAt = 0, piSource = [], piAgentID = [],
     piAgentKind = [], piIsAgentBinary = False, piTrackAsAgent = False, piLastSeen = 0\<rparr>"

type_synonym proc_table = "(int, ProcessInfo) gomap"

record ToolSpan =
  tsSessionID :: string
  tsSpanID :: string
  tsToolUseID :: string
  tsTool :: string
  tsTarget :: string
  tsStartedAt :: time
  tsEgress :: bool

record SessionState =
  Events :: "SemanticEvent list"
  Flows :: "NetworkFlowEvent list"
  KnownPIDs :: "int list"
  Processes :: proc_table
  HasSensitive :: bool
  CorrelatedKeys :: "(string, time) gomap"
  SemanticBestStrength :: "(string, int) gomap"
  SemanticBestStrengthUpdated :: "(string, time) gomap"
  DestinationSeen :: "(string, time) gomap"
  NoisyPatternSeen :: "(string, time) gomap"
  ActiveToolSpans :: "(string, ToolSpan) gomap"
  StartTime :: time

definition NewSessionState :: "time \<Rightarrow> SessionState" where
  "NewSessionState clk = \<lparr>Events = [], Flows = [], KnownPIDs = [], Processes = [],
     HasSensitive = False, CorrelatedKeys = [], SemanticBestStrength = [],
     SemanticBestStrengthUpdated = [], DestinationSeen = [], NoisyPatternSeen = [],
     ActiveToolSpans = [], StartTime = clk\<rparr>"

text \<open>Sets of keys: \<open>m[k] = struct{}{}\<close> and \<open>delete\<close>.\<close>

definition set_add :: "'a \<Rightarrow> 'a list \<Rightarrow> 'a list" where
  "set_add x xs = (if x \<in> set xs then xs else xs @ [x])"

lemma set_set_add [simp]: "set (set_add x xs) = insert x (set xs)"
  by (auto simp: set_add_def)

lemma distinct_set_add [simp]: "distinct (set_add x xs) = distinct xs"
  by (auto simp: set_add_def)

lemma MaxAncestorDepth_value [simp]: "MaxAncestorDepth = 12"
  by (simp add: MaxAncestorDepth_def)

lemma window_values:
  "CorrelationWindow = 10000000000" "ExistingConnectionWindow = 30000000000"
  "ProcessTTL = 600000000000" "correlationCacheTTL = 900000000000"
  "activeToolSpanRetentionWindow = 600000000000"
  by (simp_all add: time_defs)

section \<open>The bounded buffer\<close>

text \<open>The interface of the ring buffers (\<open>Events\<close>, \<open>Flows\<close> and the daemon's pending flows): an
  append that keeps the newest entries up to a capacity. The laws are what the users rely on: a short
  buffer only grows, a full one drops exactly its oldest entries.\<close>

locale bounded_buffer =
  fixes push :: "'a \<Rightarrow> 'a list \<Rightarrow> 'a list" and cap :: nat
  assumes push_short: "length xs < cap \<Longrightarrow> push x xs = xs @ [x]"
    and push_full: "cap \<le> length xs \<Longrightarrow> push x xs = drop (Suc (length xs) - cap) (xs @ [x])"
begin

lemma push_eq: "push x xs = drop (Suc (length xs) - cap) (xs @ [x])"
  using push_short [of xs x] push_full [of xs x] by (cases "length xs < cap") auto

lemma push_length: "length (push x xs) = min cap (Suc (length xs))"
  by (auto simp: push_eq)

lemma push_suffix: "suffix (push x xs) (xs @ [x])"
  unfolding push_eq by (rule suffix_drop)

lemma push_last: "0 < cap \<Longrightarrow> push x xs \<noteq> [] \<and> last (push x xs) = x"
  by (auto simp: push_eq)

text \<open>After any number of appends the buffer holds the last \<open>cap\<close> entries of the whole history.\<close>

lemma push_history:
  "length ys \<le> cap \<Longrightarrow> fold push xs ys = drop (length (ys @ xs) - cap) (ys @ xs)"
proof (induction xs arbitrary: ys)
  case (Cons x xs)
  define n where "n = Suc (length ys) - cap"
  define zs where "zs = ys @ x # xs"
  have app: "push x ys @ xs = drop n zs"
    using drop_append [of n "ys @ [x]" xs] by (simp add: push_eq n_def zs_def)
  have "length (push x ys) \<le> cap" by (simp add: push_length)
  then have "fold push (x # xs) ys = drop (length (drop n zs) - cap) (drop n zs)"
    using Cons.IH [of "push x ys"] by (simp only: app fold_simps)
  also have "\<dots> = drop (length zs - n - cap + n) zs" by (simp only: length_drop drop_drop)
  also have "length zs - n - cap + n = length zs - cap"
    using Cons.prems by (auto simp: n_def zs_def)
  finally show ?case by (simp only: zs_def append_Cons)
qed simp

lemma push_history_Nil: "fold push xs [] = drop (length xs - cap) xs"
  using push_history [of "[]" xs] by simp

end

text \<open>The Go idiom: append, then reslice when the length exceeds the capacity.\<close>

definition append_trim :: "nat \<Rightarrow> 'a \<Rightarrow> 'a list \<Rightarrow> 'a list" where
  "append_trim cap x xs = (let ys = xs @ [x] in if cap < length ys then drop (length ys - cap) ys else ys)"

interpretation events_ring: bounded_buffer "append_trim MaxRecentEvents" MaxRecentEvents
  by unfold_locales (simp_all add: append_trim_def Let_def)

interpretation flows_ring: bounded_buffer "append_trim MaxRecentFlows" MaxRecentFlows
  by unfold_locales (simp_all add: append_trim_def Let_def)

section \<open>The expiring cache\<close>

text \<open>The interface of the caches of instants: pruning at \<open>now\<close> keeps exactly the entries that are no
  older than the time to live.\<close>

locale ttl_cache =
  fixes prune :: "time \<Rightarrow> ('k, time) gomap \<Rightarrow> ('k, time) gomap" and ttl :: duration
  assumes prune_lookup: "wf_map m \<Longrightarrow> mget (prune now m) k =
      (case mget m k of Some t \<Rightarrow> if t < now - ttl then None else Some t | None \<Rightarrow> None)"
    and prune_wf: "wf_map m \<Longrightarrow> wf_map (prune now m)"
begin

lemma prune_fresh: "wf_map m \<Longrightarrow> mget (prune now m) k = Some t \<Longrightarrow> now - ttl \<le> t"
  by (auto simp: prune_lookup split: option.splits if_splits)

lemma prune_subset: "wf_map m \<Longrightarrow> mget (prune now m) k = Some t \<Longrightarrow> mget m k = Some t"
  by (auto simp: prune_lookup split: option.splits if_splits)

lemma prune_keeps: "wf_map m \<Longrightarrow> mget m k = Some t \<Longrightarrow> now - ttl \<le> t \<Longrightarrow> mget (prune now m) k = Some t"
  by (simp add: prune_lookup)

text \<open>Pruning twice is pruning at the later instant; the order does not matter.\<close>

lemma prune_twice:
  assumes "wf_map m"
  shows "mget (prune a (prune b m)) k = mget (prune (max a b) m) k"
  using assms prune_wf by (auto simp: prune_lookup split: option.splits)

text \<open>An entry written at \<open>now\<close> survives every pruning up to \<open>ttl\<close> later.\<close>

lemma put_then_prune:
  "wf_map m \<Longrightarrow> later \<le> now + ttl \<Longrightarrow> mget (prune later (mput k now m)) k = Some now"
  by (simp add: prune_lookup)

end

definition prune_instants :: "duration \<Rightarrow> time \<Rightarrow> ('k, time) gomap \<Rightarrow> ('k, time) gomap" where
  "prune_instants ttl now m = filter (\<lambda>(k, seen). \<not> seen < now - ttl) m"

lemma prune_instants_lookup:
  "wf_map m \<Longrightarrow> mget (prune_instants ttl now m) k =
      (case mget m k of Some t \<Rightarrow> if t < now - ttl then None else Some t | None \<Rightarrow> None)"
  using mget_filter [of m "\<lambda>k seen. \<not> seen < now - ttl" k]
  by (auto simp: prune_instants_def split: option.splits)

interpretation corr_cache: ttl_cache "prune_instants correlationCacheTTL" correlationCacheTTL
  by unfold_locales (simp_all add: prune_instants_lookup, simp add: prune_instants_def)

end
