(* ===== verification/Corr_Process.thy ===== *)
theory Corr_Process
  imports Corr_State
begin

text \<open>
  \<open>internal/correlator/correlator.go\<close>, the process graph: recognising agent binaries, recording
  processes, detecting reused PIDs, learning from a process snapshot, expiry, and the bounded
  ancestor walks the correlation decisions rest on.
\<close>

section \<open>Agent binaries\<close>

definition IdentifyAgentProcess :: "string \<Rightarrow> (string \<times> string) option" where
  "IdentifyAgentProcess name =
     (let trimmed = TrimSpace name
      in if trimmed = [] then None
         else
           let rawBase = Base (hd (Fields trimmed));
               base = ToLower rawBase;
               lower = ToLower trimmed
           in if rawBase = ''Claude'' \<or> (Contains lower ''.app/'' \<and> Contains lower ''claude'')
              then Some (''claude'', ''claude_desktop'')
              else if base = ''claude''
              then (if Contains lower ''.app/'' \<or> Contains lower ''claude helper''
                    then Some (''claude'', ''claude_desktop'')
                    else Some (''claude'', ''claude_cli''))
              else if base = ''claude helper'' \<or> Contains lower ''claude helper''
              then Some (''claude'', ''claude_desktop'')
              else if rawBase = ''Cursor'' \<or> (Contains lower ''.app/'' \<and> Contains lower ''cursor'')
              then Some (''cursor'', ''cursor_desktop'')
              else if base = ''cursor''
              then (if Contains lower ''.app/'' \<or> Contains lower ''cursor helper''
                    then Some (''cursor'', ''cursor_desktop'')
                    else Some (''cursor'', ''cursor_cli''))
              else if base = ''cursor helper'' \<or> Contains lower ''cursor helper''
              then Some (''cursor'', ''cursor_desktop'')
              else if rawBase = ''Codex'' \<or> Contains lower ''codex (service)'' \<or>
                      (Contains lower ''.app/'' \<and> Contains lower ''codex'')
              then Some (''codex'', ''codex_desktop'')
              else if base = ''codex'' then Some (''codex'', ''codex_cli'')
              else if base = ''openai'' then Some (''openai'', ''openai_cli'')
              else if base = ''gemini'' then Some (''gemini'', ''gemini_cli'')
              else None)"

definition annotateAgentProcess :: "ProcessInfo \<Rightarrow> ProcessInfo" where
  "annotateAgentProcess info =
     (if piName info = [] then info
      else case IdentifyAgentProcess (piName info) of
             None \<Rightarrow> info
           | Some (ident, kind) \<Rightarrow>
               info\<lparr>piAgentID := ident, piAgentKind := kind, piIsAgentBinary := True\<rparr>)"

definition joinSource :: "string \<Rightarrow> string \<Rightarrow> string" where
  "joinSource existing next =
     (if existing = [] then next
      else if next = [] \<or> Contains existing next then existing
      else existing @ '','' @ next)"

definition withSource :: "ProcessInfo \<Rightarrow> string \<Rightarrow> ProcessInfo" where
  "withSource info source = info\<lparr>piSource := joinSource (piSource info) source\<rparr>"

definition withAgentTracking :: "ProcessInfo \<Rightarrow> string \<Rightarrow> ProcessInfo" where
  "withAgentTracking info source =
     info\<lparr>piSource := joinSource (piSource info) source, piTrackAsAgent := True\<rparr>"

definition shouldTrackAsAgentPID :: "ProcessInfo \<Rightarrow> bool" where
  "shouldTrackAsAgentPID info =
     (if piTrackAsAgent info then True
      else piIsAgentBinary info \<and> HasSuffix (piAgentKind info) ''_cli'')"

section \<open>Recording processes\<close>

definition processExecutableIdentity :: "string \<Rightarrow> string" where
  "processExecutableIdentity name =
     (case Fields (TrimSpace name) of [] \<Rightarrow> [] | f # _ \<Rightarrow> ToLower (Clean f))"

definition processIdentityChanged :: "ProcessInfo \<Rightarrow> ProcessInfo \<Rightarrow> bool" where
  "processIdentityChanged existing incoming =
     (if piPID existing \<le> 0 \<or> piPID incoming \<le> 0 \<or> piPID existing \<noteq> piPID incoming then False
      else
        let existingExec = processExecutableIdentity (piName existing);
            incomingExec = processExecutableIdentity (piName incoming)
        in if existingExec \<noteq> [] \<and> incomingExec \<noteq> [] \<and> existingExec \<noteq> incomingExec then True
           else if \<not> IsZero (piStartedAt existing) \<and> \<not> IsZero (piStartedAt incoming) \<and>
                   piStartedAt existing \<noteq> piStartedAt incoming then True
           else if piPPID existing > 0 \<and> piPPID incoming > 0 \<and> piPPID existing \<noteq> piPPID incoming \<and>
                   piName existing \<noteq> [] \<and> piName incoming \<noteq> [] then True
           else False)"

definition table_get :: "proc_table \<Rightarrow> int \<Rightarrow> ProcessInfo" where
  "table_get m pid = (case mget m pid of None \<Rightarrow> zeroProcess | Some i \<Rightarrow> i)"

text \<open>The fields an incoming record takes over from the record already known for the PID.\<close>

definition mergeProcess :: "ProcessInfo \<Rightarrow> ProcessInfo \<Rightarrow> ProcessInfo" where
  "mergeProcess existing info = info\<lparr>
     piPPID := (if piPPID info = 0 then piPPID existing else piPPID info),
     piName := (if piName info = [] then piName existing else piName info),
     piStartedAt := (if IsZero (piStartedAt info) then piStartedAt existing else piStartedAt info),
     piSource := (if piSource info = [] then piSource existing else piSource info),
     piAgentID := (if piAgentID info = [] then piAgentID existing else piAgentID info),
     piAgentKind := (if piAgentKind info = [] then piAgentKind existing else piAgentKind info),
     piIsAgentBinary := (if \<not> piIsAgentBinary info then piIsAgentBinary existing else piIsAgentBinary info),
     piTrackAsAgent := (piTrackAsAgent info \<or> piTrackAsAgent existing)\<rparr>"

definition addProcessLocked :: "time \<Rightarrow> ProcessInfo \<Rightarrow> SessionState \<Rightarrow> SessionState" where
  "addProcessLocked clk info s =
     (if piPID info \<le> 0 then s
      else
        let pid = piPID info;
            changed = processIdentityChanged (table_get (Processes s) pid) info;
            known = (if changed then removeAll pid (KnownPIDs s) else KnownPIDs s);
            existing = (if changed then zeroProcess else table_get (Processes s) pid);
            info' = (annotateAgentProcess (mergeProcess existing info))\<lparr>piLastSeen := clk\<rparr>
        in s\<lparr>Processes := mput pid info' (Processes s),
             KnownPIDs := (if shouldTrackAsAgentPID info' then set_add pid known else known)\<rparr>)"

section \<open>Expiry\<close>

definition processExpired :: "time \<Rightarrow> ProcessInfo \<Rightarrow> bool" where
  "processExpired now info \<longleftrightarrow> \<not> IsZero (piLastSeen info) \<and> piLastSeen info < now - ProcessTTL"

definition pruneExpiredProcessesLocked :: "time \<Rightarrow> SessionState \<Rightarrow> SessionState" where
  "pruneExpiredProcessesLocked now s =
     (let dead = map fst (filter (\<lambda>(pid, info). processExpired now info) (Processes s))
      in s\<lparr>Processes := filter (\<lambda>(pid, info). \<not> processExpired now info) (Processes s),
           KnownPIDs := filter (\<lambda>pid. pid \<notin> set dead) (KnownPIDs s)\<rparr>)"

section \<open>Ancestor walks\<close>

text \<open>\<open>isAncestorLocked\<close>: at most \<open>depth\<close> steps up, with the parents already visited.\<close>

fun ancestor_walk :: "nat \<Rightarrow> proc_table \<Rightarrow> int \<Rightarrow> int list \<Rightarrow> int \<Rightarrow> bool" where
  "ancestor_walk 0 ps ancestor seen current = False"
| "ancestor_walk (Suc depth) ps ancestor seen current =
     (case mget ps current of
        None \<Rightarrow> False
      | Some info \<Rightarrow>
          if piPPID info \<le> 0 then False
          else if piPPID info = ancestor then True
          else if piPPID info \<in> set seen then False
          else ancestor_walk depth ps ancestor (piPPID info # seen) (piPPID info))"

definition isAncestorLocked :: "SessionState \<Rightarrow> int \<Rightarrow> int \<Rightarrow> bool" where
  "isAncestorLocked s ancestor child =
     (if ancestor \<le> 0 \<or> child \<le> 0 \<or> ancestor = child then False
      else ancestor_walk MaxAncestorDepth (Processes s) ancestor [] child)"

definition pidInSet :: "SessionState \<Rightarrow> int \<Rightarrow> bool" where
  "pidInSet s pid = (if pid \<le> 0 then False else pid \<in> set (KnownPIDs s))"

fun lineage_walk :: "nat \<Rightarrow> SessionState \<Rightarrow> int list \<Rightarrow> int list \<Rightarrow> int \<Rightarrow> int list" where
  "lineage_walk 0 s out seen current = out"
| "lineage_walk (Suc depth) s out seen current =
     (if current \<le> 0 then out
      else if current \<in> set seen then out
      else
        let out' = (if current > 1 \<and> pidInSet s current then set_add current out else out)
        in case mget (Processes s) current of
             None \<Rightarrow> out'
           | Some info \<Rightarrow> if piPPID info \<le> 0 then out'
                          else lineage_walk depth s out' (current # seen) (piPPID info))"

definition trackedLineageLocked :: "SessionState \<Rightarrow> int list \<Rightarrow> int list" where
  "trackedLineageLocked s pids = fold (\<lambda>pid out. lineage_walk MaxAncestorDepth s out [] pid) pids []"

definition commonTrackedAncestorLocked :: "SessionState \<Rightarrow> SemanticEvent \<Rightarrow> NetworkFlowEvent \<Rightarrow> bool" where
  "commonTrackedAncestorLocked s e flow =
     (let left = trackedLineageLocked s [sPID e, sPPID e]
      in if left = [] then False
         else list_ex (\<lambda>pid. pid \<in> set left) (trackedLineageLocked s [fPID flow, fPPID flow]))"

section \<open>Learning from a snapshot\<close>

fun learn_ancestors :: "time \<Rightarrow> proc_table \<Rightarrow> nat \<Rightarrow> int \<Rightarrow> SessionState \<Rightarrow> SessionState" where
  "learn_ancestors clk processes 0 current s = s"
| "learn_ancestors clk processes (Suc depth) current s =
     (case mget processes current of
        None \<Rightarrow> s
      | Some info \<Rightarrow>
          if piPPID info \<le> 0 then s
          else case mget processes (piPPID info) of
                 None \<Rightarrow> s
               | Some parent \<Rightarrow>
                   learn_ancestors clk processes depth (piPID parent)
                     (addProcessLocked clk (withSource parent ''snapshot-ancestor'') s))"

definition learnAncestorsLocked :: "time \<Rightarrow> int \<Rightarrow> proc_table \<Rightarrow> SessionState \<Rightarrow> SessionState" where
  "learnAncestorsLocked clk pid processes s = learn_ancestors clk processes MaxAncestorDepth pid s"

text \<open>One pass over the children of a dequeued process: the queue, the seen set and the state.\<close>

fun learn_children ::
  "time \<Rightarrow> proc_table \<Rightarrow> int list \<Rightarrow> int list \<times> int list \<times> SessionState \<Rightarrow> int list \<times> int list \<times> SessionState" where
  "learn_children clk processes [] st = st"
| "learn_children clk processes (child # cs) (queue, seen, s) =
     (if child \<in> set seen then learn_children clk processes cs (queue, seen, s)
      else case mget processes child of
             None \<Rightarrow> learn_children clk processes cs (queue, child # seen, s)
           | Some info \<Rightarrow>
               learn_children clk processes cs
                 (queue @ [child], child # seen,
                  addProcessLocked clk (withAgentTracking info ''snapshot-child'') s))"

type_synonym child_map = "(int, int list) gomap"

definition children_of :: "child_map \<Rightarrow> int \<Rightarrow> int list" where
  "children_of children pid = (case mget children pid of None \<Rightarrow> [] | Some cs \<Rightarrow> cs)"

fun learn_descendants ::
  "time \<Rightarrow> child_map \<Rightarrow> proc_table \<Rightarrow> nat \<Rightarrow> int list \<Rightarrow> int list \<Rightarrow> SessionState \<Rightarrow> SessionState" where
  "learn_descendants clk children processes (Suc depth) (current # queue) seen s =
     (let (queue', seen', s') = learn_children clk processes (children_of children current) (queue, seen, s)
      in learn_descendants clk children processes depth queue' seen' s')"
| "learn_descendants clk children processes _ _ seen s = s"

definition learnDescendantsLocked :: "time \<Rightarrow> int \<Rightarrow> child_map \<Rightarrow> proc_table \<Rightarrow> SessionState \<Rightarrow> SessionState" where
  "learnDescendantsLocked clk rootPID children processes s =
     learn_descendants clk children processes MaxAncestorDepth [rootPID] [rootPID] s"

text \<open>The first loop of \<open>ApplyProcessSnapshot\<close> writes the annotated records back into the caller's
  map and collects the child lists.\<close>

definition snapshotInfo :: "int \<Rightarrow> ProcessInfo \<Rightarrow> ProcessInfo" where
  "snapshotInfo pid info =
     annotateAgentProcess (info\<lparr>piPID := pid, piSource := joinSource (piSource info) ''snapshot''\<rparr>)"

definition annotateSnapshot :: "proc_table \<Rightarrow> proc_table" where
  "annotateSnapshot processes = map (\<lambda>(pid, info). (pid, snapshotInfo pid info)) processes"

definition childMap :: "proc_table \<Rightarrow> child_map" where
  "childMap processes =
     fold (\<lambda>(pid, info) m. if piPPID info > 0
                            then mput (piPPID info) (children_of m (piPPID info) @ [pid]) m else m)
       processes []"

definition knownChanged :: "SessionState \<Rightarrow> proc_table \<Rightarrow> int \<Rightarrow> bool" where
  "knownChanged s processes pid =
     (case mget processes pid of
        None \<Rightarrow> False
      | Some info \<Rightarrow> processIdentityChanged (table_get (Processes s) pid) info)"

definition dropChanged :: "SessionState \<Rightarrow> proc_table \<Rightarrow> SessionState" where
  "dropChanged s processes =
     (let gone = filter (knownChanged s processes) (KnownPIDs s)
      in s\<lparr>KnownPIDs := filter (\<lambda>p. p \<notin> set gone) (KnownPIDs s),
           Processes := filter (\<lambda>(p, i). p \<notin> set gone) (Processes s)\<rparr>)"

definition snapshotSeeds :: "SessionState \<Rightarrow> proc_table \<Rightarrow> int list" where
  "snapshotSeeds s processes =
     (let known = filter (\<lambda>p. mhas processes p) (KnownPIDs s);
          clis = map fst (filter (\<lambda>(p, i). piIsAgentBinary i \<and> HasSuffix (piAgentKind i) ''_cli'') processes)
      in fold set_add clis known)"

definition learnSeed :: "time \<Rightarrow> child_map \<Rightarrow> proc_table \<Rightarrow> int \<Rightarrow> SessionState \<Rightarrow> SessionState" where
  "learnSeed clk children processes pid s =
     learnDescendantsLocked clk pid children processes
       (learnAncestorsLocked clk pid processes
         (addProcessLocked clk (withAgentTracking (table_get processes pid) ''snapshot-seed'') s))"

section \<open>Lemmas: ancestor walks\<close>

text \<open>The parent of a process in a table, and the reference definition of its nearest \<open>n\<close> ancestors.\<close>

definition parent_of :: "proc_table \<Rightarrow> int \<Rightarrow> int option" where
  "parent_of ps p =
     (case mget ps p of None \<Rightarrow> None | Some i \<Rightarrow> if piPPID i \<le> 0 then None else Some (piPPID i))"

fun ancestors :: "(int \<Rightarrow> int option) \<Rightarrow> nat \<Rightarrow> int \<Rightarrow> int list" where
  "ancestors parent 0 p = []"
| "ancestors parent (Suc n) p = (case parent p of None \<Rightarrow> [] | Some q \<Rightarrow> q # ancestors parent n q)"

lemma ancestors_closed:
  assumes "\<And>x q. x \<in> A \<Longrightarrow> parent x = Some q \<Longrightarrow> q \<in> A" "p \<in> A"
  shows "set (ancestors parent n p) \<subseteq> A"
  using assms(2)
proof (induction n arbitrary: p)
  case (Suc n)
  show ?case
  proof (cases "parent p")
    case (Some q)
    then have "q \<in> A" using assms(1) Suc.prems by blast
    with Suc.IH [of q] Some show ?thesis by simp
  qed simp
qed simp

lemma ancestor_walk_Suc:
  "ancestor_walk (Suc d) ps a seen p =
     (case parent_of ps p of
        None \<Rightarrow> False
      | Some q \<Rightarrow> q = a \<or> (q \<notin> set seen \<and> ancestor_walk d ps a (q # seen) q))"
  by (auto simp: parent_of_def split: option.splits)

text \<open>Stopping at a parent seen before loses nothing: the visited processes are then closed under
  taking parents, and none of them is the one looked for.\<close>

lemma ancestor_walk_iff:
  assumes "a \<notin> set seen" "seen \<noteq> [] \<Longrightarrow> p \<in> set seen"
    and "\<And>x q. x \<in> set seen \<Longrightarrow> x \<noteq> p \<Longrightarrow> parent_of ps x = Some q \<Longrightarrow> q \<in> set seen"
  shows "ancestor_walk d ps a seen p \<longleftrightarrow> a \<in> set (ancestors (parent_of ps) d p)"
  using assms
proof (induction d arbitrary: seen p)
  case (Suc d)
  show ?case
  proof (cases "parent_of ps p")
    case None
    then show ?thesis unfolding ancestor_walk_Suc by simp
  next
    case (Some q)
    consider "q = a" | "q \<noteq> a" "q \<in> set seen" | "q \<noteq> a" "q \<notin> set seen" by blast
    then show ?thesis
    proof cases
      case 2
      have closed: "\<And>x r. x \<in> set seen \<Longrightarrow> parent_of ps x = Some r \<Longrightarrow> r \<in> set seen"
        using Suc.prems(3) Some 2 by (metis option.inject)
      have "set (ancestors (parent_of ps) d q) \<subseteq> set seen"
        by (rule ancestors_closed [OF closed 2(2)])
      with 2 Some Suc.prems(1) show ?thesis unfolding ancestor_walk_Suc by auto
    next
      case 3
      have "ancestor_walk d ps a (q # seen) q \<longleftrightarrow> a \<in> set (ancestors (parent_of ps) d q)"
      proof (rule Suc.IH)
        fix x r assume x: "x \<in> set (q # seen)" "x \<noteq> q" "parent_of ps x = Some r"
        then show "r \<in> set (q # seen)"
          using Suc.prems(3) [of x r] Some by (cases "x = p") auto
      qed (use 3 Suc.prems in auto)
      with 3 Some show ?thesis unfolding ancestor_walk_Suc by auto
    qed (use Some in \<open>simp add: ancestor_walk_Suc del: ancestor_walk.simps\<close>)
  qed
qed simp

lemma isAncestorLocked_iff:
  "isAncestorLocked s a c \<longleftrightarrow>
     0 < a \<and> 0 < c \<and> a \<noteq> c \<and> a \<in> set (ancestors (parent_of (Processes s)) MaxAncestorDepth c)"
  unfolding isAncestorLocked_def by (subst ancestor_walk_iff) auto

text \<open>The lineage of a process: itself and its ancestors, \<open>n\<close> processes at most.\<close>

definition lineage :: "proc_table \<Rightarrow> nat \<Rightarrow> int \<Rightarrow> int list" where
  "lineage ps n p = (if n = 0 \<or> p \<le> 0 then [] else p # ancestors (parent_of ps) (n - 1) p)"

lemma parent_of_pos: "parent_of ps p = Some q \<Longrightarrow> 0 < q"
  by (auto simp: parent_of_def split: option.splits if_splits)

lemma lineage_Suc:
  "lineage ps (Suc n) p =
     (if p \<le> 0 then [] else p # (case parent_of ps p of None \<Rightarrow> [] | Some q \<Rightarrow> lineage ps n q))"
proof (cases n)
  case (Suc m)
  then show ?thesis
    by (auto simp: lineage_def dest: parent_of_pos split: option.splits)
qed (simp add: lineage_def split: option.splits)

definition tracked :: "SessionState \<Rightarrow> int \<Rightarrow> bool" where
  "tracked s p \<longleftrightarrow> 1 < p \<and> p \<in> set (KnownPIDs s)"

lemma lineage_walk_Suc:
  "lineage_walk (Suc d) s out seen p =
     (if p \<le> 0 \<or> p \<in> set seen then out
      else case parent_of (Processes s) p of
             None \<Rightarrow> if tracked s p then set_add p out else out
           | Some q \<Rightarrow> lineage_walk d s (if tracked s p then set_add p out else out) (p # seen) q)"
  by (auto simp: parent_of_def tracked_def pidInSet_def Let_def split: option.splits)

lemma lineage_closed:
  assumes "\<And>x q. x \<in> A \<Longrightarrow> parent_of ps x = Some q \<Longrightarrow> q \<in> A" "p \<in> A"
  shows "set (lineage ps n p) \<subseteq> A"
proof -
  have "set (ancestors (parent_of ps) (n - 1) p) \<subseteq> A"
    using assms by (intro ancestors_closed) blast+
  then show ?thesis using assms(2) by (auto simp: lineage_def)
qed

lemma set_lineage_walk:
  assumes "\<And>x q. x \<in> set seen \<Longrightarrow> parent_of (Processes s) x = Some q \<Longrightarrow> q = p \<or> q \<in> set seen"
    and "\<And>x. x \<in> set seen \<Longrightarrow> tracked s x \<Longrightarrow> x \<in> set out"
  shows "set (lineage_walk d s out seen p) =
     set out \<union> {x \<in> set (lineage (Processes s) d p). tracked s x}"
  using assms
proof (induction d arbitrary: out seen p)
  case (Suc d)
  define out' where "out' = (if tracked s p then set_add p out else out)"
  consider "p \<le> 0" | "0 < p" "p \<in> set seen" | "0 < p" "p \<notin> set seen" by linarith
  then show ?case
  proof cases
    case 1
    then show ?thesis unfolding lineage_walk_Suc lineage_Suc by simp
  next
    case 2
    have "\<And>x q. x \<in> set seen \<Longrightarrow> parent_of (Processes s) x = Some q \<Longrightarrow> q \<in> set seen"
      using Suc.prems(1) 2(2) by blast
    then have "set (lineage (Processes s) (Suc d) p) \<subseteq> set seen"
      using 2(2) by (intro lineage_closed) blast+
    with 2 Suc.prems(2) show ?thesis unfolding lineage_walk_Suc by auto
  next
    case 3
    show ?thesis
    proof (cases "parent_of (Processes s) p")
      case None
      with 3 show ?thesis unfolding lineage_walk_Suc lineage_Suc by auto
    next
      case (Some q)
      have "set (lineage_walk d s out' (p # seen) q) =
          set out' \<union> {x \<in> set (lineage (Processes s) d q). tracked s x}"
        using Suc.prems Some by (intro Suc.IH) (auto simp: out'_def)
      with 3 Some show ?thesis unfolding lineage_walk_Suc lineage_Suc out'_def by auto
    qed
  qed
qed (simp add: lineage_def)

lemma set_trackedLineageLocked:
  "set (trackedLineageLocked s pids) =
     {x. tracked s x \<and> (\<exists>p \<in> set pids. x \<in> set (lineage (Processes s) MaxAncestorDepth p))}"
proof -
  have "set (fold (\<lambda>pid out. lineage_walk d s out [] pid) pids out) =
      set out \<union> {x. tracked s x \<and> (\<exists>p \<in> set pids. x \<in> set (lineage (Processes s) d p))}" for d out
  proof (induction pids arbitrary: out)
    case (Cons p pids)
    have "set (lineage_walk d s out [] p) = set out \<union> {x \<in> set (lineage (Processes s) d p). tracked s x}"
      by (rule set_lineage_walk) auto
    then show ?case by (auto simp: Cons.IH)
  qed simp
  then show ?thesis by (simp add: trackedLineageLocked_def)
qed

lemma commonTrackedAncestorLocked_iff:
  "commonTrackedAncestorLocked s e flow \<longleftrightarrow>
     (\<exists>x p q. tracked s x \<and> p \<in> {sPID e, sPPID e} \<and> q \<in> {fPID flow, fPPID flow} \<and>
        x \<in> set (lineage (Processes s) MaxAncestorDepth p) \<and>
        x \<in> set (lineage (Processes s) MaxAncestorDepth q))"
proof -
  have "commonTrackedAncestorLocked s e flow \<longleftrightarrow>
      set (trackedLineageLocked s [sPID e, sPPID e]) \<inter> set (trackedLineageLocked s [fPID flow, fPPID flow]) \<noteq> {}"
    by (auto simp: commonTrackedAncestorLocked_def Let_def list_ex_iff)
  then show ?thesis unfolding set_trackedLineageLocked by auto
qed

section \<open>Lemmas: the process table invariant\<close>

text \<open>Every record sits under its own positive PID, every session PID has a record, and every record
  that should be tracked as an agent is a session PID.\<close>

definition wf_processes :: "SessionState \<Rightarrow> bool" where
  "wf_processes s \<longleftrightarrow>
     wf_map (Processes s) \<and> distinct (KnownPIDs s) \<and>
     (\<forall>p i. mget (Processes s) p = Some i \<longrightarrow>
        0 < p \<and> piPID i = p \<and> (shouldTrackAsAgentPID i \<longrightarrow> p \<in> set (KnownPIDs s))) \<and>
     (\<forall>p \<in> set (KnownPIDs s). mget (Processes s) p \<noteq> None)"

lemma wf_processes_New [simp]: "wf_processes (NewSessionState clk)"
  by (simp add: wf_processes_def NewSessionState_def)

lemma annotateAgentProcess_keeps [simp]:
  "piPID (annotateAgentProcess i) = piPID i" "piPPID (annotateAgentProcess i) = piPPID i"
  "piTrackAsAgent (annotateAgentProcess i) = piTrackAsAgent i" "piName (annotateAgentProcess i) = piName i"
  "piStartedAt (annotateAgentProcess i) = piStartedAt i"
  by (auto simp: annotateAgentProcess_def split: option.splits)

lemma mergeProcess_PID [simp]: "piPID (mergeProcess e i) = piPID i"
  by (simp add: mergeProcess_def)

lemma shouldTrack_LastSeen [simp]:
  "shouldTrackAsAgentPID (i\<lparr>piLastSeen := t\<rparr>) = shouldTrackAsAgentPID i"
  by (simp add: shouldTrackAsAgentPID_def)

lemma addProcessLocked_other [simp]:
  "p \<noteq> piPID info \<Longrightarrow> mget (Processes (addProcessLocked clk info s)) p = mget (Processes s) p"
  "p \<noteq> piPID info \<Longrightarrow> p \<in> set (KnownPIDs (addProcessLocked clk info s)) \<longleftrightarrow> p \<in> set (KnownPIDs s)"
  by (auto simp: addProcessLocked_def Let_def)

lemma addProcessLocked_entry:
  assumes "0 < piPID info"
  obtains i where "mget (Processes (addProcessLocked clk info s)) (piPID info) = Some i"
    "piPID i = piPID info" "piLastSeen i = clk"
    "shouldTrackAsAgentPID i \<Longrightarrow> piPID info \<in> set (KnownPIDs (addProcessLocked clk info s))"
  using assms that by (fastforce simp: addProcessLocked_def Let_def)

lemma wf_processes_add [wf_intros, simp]:
  assumes "wf_processes s"
  shows "wf_processes (addProcessLocked clk info s)"
proof (cases "piPID info \<le> 0")
  case False
  then have pos: "0 < piPID info" by simp
  let ?s = "addProcessLocked clk info s"
  have "wf_map (Processes ?s)" "distinct (KnownPIDs ?s)"
    using assms by (auto simp: wf_processes_def addProcessLocked_def Let_def distinct_removeAll)
  moreover have "0 < p \<and> piPID i = p \<and> (shouldTrackAsAgentPID i \<longrightarrow> p \<in> set (KnownPIDs ?s))"
    if "mget (Processes ?s) p = Some i" for p i
  proof (cases "p = piPID info")
    case True
    with that pos show ?thesis by (metis addProcessLocked_entry option.inject)
  next
    case False
    with that assms show ?thesis by (auto simp: wf_processes_def)
  qed
  moreover have "mget (Processes ?s) p \<noteq> None" if "p \<in> set (KnownPIDs ?s)" for p
    using that assms addProcessLocked_entry [OF pos, of clk s]
    by (cases "p = piPID info") (auto simp: wf_processes_def)
  ultimately show ?thesis unfolding wf_processes_def by blast
qed (use assms in \<open>simp add: addProcessLocked_def\<close>)

lemma wf_processes_filter:
  assumes wf: "wf_processes s"
    and known: "KnownPIDs s' = filter (\<lambda>p. P p) (KnownPIDs s)"
    and table: "Processes s' = filter (\<lambda>(p, i). Q p i) (Processes s)"
    and agree: "\<And>p i. mget (Processes s) p = Some i \<Longrightarrow> p \<in> set (KnownPIDs s) \<Longrightarrow> Q p i \<longleftrightarrow> P p"
  shows "wf_processes s'"
proof -
  have m: "mget (Processes s') p =
      (case mget (Processes s) p of Some i \<Rightarrow> if Q p i then Some i else None | None \<Rightarrow> None)" for p
    unfolding table using wf by (intro mget_filter) (simp add: wf_processes_def)
  have "wf_map (Processes s')" "distinct (KnownPIDs s')"
    using wf by (simp_all add: wf_processes_def table known)
  moreover have "0 < p \<and> piPID i = p \<and> (shouldTrackAsAgentPID i \<longrightarrow> p \<in> set (KnownPIDs s'))"
    if "mget (Processes s') p = Some i" for p i
    using that wf agree [of p i] by (auto simp: m known wf_processes_def split: option.splits if_splits)
  moreover have "mget (Processes s') p \<noteq> None" if "p \<in> set (KnownPIDs s')" for p
    using that wf agree [of p] by (fastforce simp: m known wf_processes_def split: option.splits)
  ultimately show ?thesis unfolding wf_processes_def by blast
qed

lemma fst_filter_mget:
  "wf_map m \<Longrightarrow> p \<in> set (map fst (filter (\<lambda>(k, v). P k v) m)) \<longleftrightarrow> (\<exists>v. mget m p = Some v \<and> P p v)"
  by (force simp: wf_map_def map_of_eq_Some_iff)

lemma wf_processes_prune [wf_intros, simp]:
  assumes "wf_processes s"
  shows "wf_processes (pruneExpiredProcessesLocked now s)"
proof (rule wf_processes_filter [OF assms])
  fix p i assume "mget (Processes s) p = Some i"
  then show "\<not> processExpired now i \<longleftrightarrow>
      p \<notin> set (map fst (filter (\<lambda>(pid, info). processExpired now info) (Processes s)))"
    using assms by (subst fst_filter_mget) (auto simp: wf_processes_def)
qed (simp_all add: pruneExpiredProcessesLocked_def Let_def)

lemma wf_processes_dropChanged [wf_intros, simp]:
  "wf_processes s \<Longrightarrow> wf_processes (dropChanged s processes)"
  by (rule wf_processes_filter [where s = s]) (auto simp: dropChanged_def Let_def)

lemma wf_processes_learn_ancestors [wf_intros, simp]:
  "wf_processes s \<Longrightarrow> wf_processes (learn_ancestors clk processes d p s)"
  by (induction d arbitrary: p s) (auto split: option.splits)

lemma wf_processes_learn_children:
  "wf_processes s \<Longrightarrow> wf_processes (snd (snd (learn_children clk processes cs (q, seen, s))))"
  by (induction cs arbitrary: q seen s) (auto split: option.splits)

lemma wf_processes_learn_descendants [wf_intros, simp]:
  "wf_processes s \<Longrightarrow> wf_processes (learn_descendants clk children processes d q seen s)"
proof (induction clk children processes d q seen s rule: learn_descendants.induct)
  case (1 clk children processes d c q seen s)
  then show ?case
    using wf_processes_learn_children [of s clk processes "children_of children c" q seen]
    by (auto split: prod.splits)
qed auto

lemma wf_processes_learnSeed [wf_intros, simp]:
  "wf_processes s \<Longrightarrow> wf_processes (learnSeed clk children processes p s)"
  by (simp add: learnSeed_def learnAncestorsLocked_def learnDescendantsLocked_def)

section \<open>Lemmas: reused PIDs\<close>

text \<open>A record that contradicts the known identity of its PID starts from nothing: no field of the
  old record survives, and the PID is a session PID only if the new record earns it by itself.\<close>

lemma addProcessLocked_changed:
  assumes "processIdentityChanged (table_get (Processes s) (piPID info)) info"
  shows "mget (Processes (addProcessLocked clk info s)) (piPID info) =
      Some ((annotateAgentProcess info)\<lparr>piLastSeen := clk\<rparr>)"
    and "piPID info \<in> set (KnownPIDs (addProcessLocked clk info s)) \<longleftrightarrow>
      shouldTrackAsAgentPID (annotateAgentProcess info)"
proof -
  have pos: "\<not> piPID info \<le> 0"
    using assms by (auto simp: processIdentityChanged_def split: if_splits)
  have "mergeProcess zeroProcess info = info"
    by (cases info) (simp add: mergeProcess_def zeroProcess_def IsZero_def)
  with assms pos show "mget (Processes (addProcessLocked clk info s)) (piPID info) =
      Some ((annotateAgentProcess info)\<lparr>piLastSeen := clk\<rparr>)"
    and "piPID info \<in> set (KnownPIDs (addProcessLocked clk info s)) \<longleftrightarrow>
      shouldTrackAsAgentPID (annotateAgentProcess info)"
    by (auto simp: addProcessLocked_def Let_def)
qed

text \<open>Expiry: what survives a pruning was seen within the time to live.\<close>

lemma pruneExpired_known:
  assumes "wf_processes s" "p \<in> set (KnownPIDs (pruneExpiredProcessesLocked now s))"
  shows "p \<in> set (KnownPIDs s) \<and> (\<exists>i. mget (Processes s) p = Some i \<and> \<not> processExpired now i)"
proof -
  from assms(2) have known: "p \<in> set (KnownPIDs s)"
    and live: "p \<notin> set (map fst (filter (\<lambda>(pid, info). processExpired now info) (Processes s)))"
    by (auto simp: pruneExpiredProcessesLocked_def Let_def)
  from known assms(1) obtain i where "mget (Processes s) p = Some i" by (auto simp: wf_processes_def)
  with live known assms(1) show ?thesis by (subst (asm) fst_filter_mget) (auto simp: wf_processes_def)
qed

end
