(* ===== verification/Corr_Cache.thy ===== *)
theory Corr_Cache
  imports Corr_State
begin

text \<open>
  \<open>internal/correlator/correlator.go\<close>, the caches of a session: expiry of the suppression caches, the
  cap on the strength table, and the tool spans the inspect proxy correlates with. \<open>sort.Slice\<close> is
  the library sort on the instant; Go leaves the order of equal instants open.
\<close>

section \<open>Definitions\<close>

definition capStrength ::
  "nat \<Rightarrow> (string, int) gomap \<times> (string, time) gomap \<Rightarrow> (string, int) gomap \<times> (string, time) gomap" where
  "capStrength cap = (\<lambda>(best, updated).
     if cap < length best then
       let stats = sort_key snd updated;
           victims = map fst (take (length best - cap) stats)
       in (fold mdel victims best, fold mdel victims updated)
     else (best, updated))"

definition pruneStrength ::
  "time \<Rightarrow> (string, int) gomap \<times> (string, time) gomap \<Rightarrow> (string, int) gomap \<times> (string, time) gomap" where
  "pruneStrength now = (\<lambda>(best, updated).
     let dead = map fst (filter (\<lambda>(key, seen). seen < now - correlationCacheTTL) updated)
     in (fold mdel dead best, fold mdel dead updated))"

definition pruneSpans :: "time \<Rightarrow> (string, ToolSpan) gomap \<Rightarrow> (string, ToolSpan) gomap" where
  "pruneSpans now spans =
     filter (\<lambda>(k, sp). \<not> (IsZero (tsStartedAt sp) \<or>
                              time_sub now (tsStartedAt sp) > activeToolSpanRetentionWindow)) spans"

definition pruneCorrelationCachesLocked :: "time \<Rightarrow> time \<Rightarrow> SessionState \<Rightarrow> SessionState" where
  "pruneCorrelationCachesLocked clk now0 s =
     (let now = (if IsZero now0 then clk else now0);
          (best, updated) = capStrength maxCorrelationEntries
             (pruneStrength now (SemanticBestStrength s, SemanticBestStrengthUpdated s))
      in s\<lparr>CorrelatedKeys := prune_instants correlationCacheTTL now (CorrelatedKeys s),
           DestinationSeen := prune_instants correlationCacheTTL now (DestinationSeen s),
           NoisyPatternSeen := prune_instants correlationCacheTTL now (NoisyPatternSeen s),
           SemanticBestStrength := best,
           SemanticBestStrengthUpdated := updated,
           ActiveToolSpans := pruneSpans now (ActiveToolSpans s)\<rparr>)"

definition updateActiveToolSpanLocked :: "time \<Rightarrow> SemanticEvent \<Rightarrow> SessionState \<Rightarrow> SessionState" where
  "updateActiveToolSpanLocked clk e s =
     (let toolUseID = TrimSpace (sToolUseID e)
      in if toolUseID = [] then s
         else
           let kind = ToLower (TrimSpace (sEvent e))
           in if kind = ''pretooluse'' then
                if \<not> IsEgressLike e then s
                else s\<lparr>ActiveToolSpans := mput toolUseID
                        \<lparr>tsSessionID = sessID (sSession e), tsSpanID = toolUseID, tsToolUseID = toolUseID,
                          tsTool = sTool e, tsTarget = sTarget e,
                          tsStartedAt = (if IsZero (sTS e) then clk else sTS e), tsEgress = True\<rparr>
                        (ActiveToolSpans s)\<rparr>
              else if kind = ''posttooluse'' \<or> kind = ''posttoolusefailure''
              then s\<lparr>ActiveToolSpans := mdel toolUseID (ActiveToolSpans s)\<rparr>
              else s)"

text \<open>The loop of \<open>activeToolSpanLocked\<close> over the map: the newest egress span, the first one found
  among equals.\<close>

fun newest_span :: "ToolSpan option \<Rightarrow> ToolSpan list \<Rightarrow> ToolSpan option" where
  "newest_span best [] = best"
| "newest_span best (sp # spans) =
     (if \<not> tsEgress sp then newest_span best spans
      else case best of
             None \<Rightarrow> newest_span (Some sp) spans
           | Some b \<Rightarrow> newest_span (if tsStartedAt sp > tsStartedAt b then Some sp else Some b) spans)"

definition activeToolSpanLocked :: "SessionState \<Rightarrow> string \<Rightarrow> ToolSpan option" where
  "activeToolSpanLocked s toolUseID =
     (if toolUseID \<noteq> [] then mget (ActiveToolSpans s) toolUseID
      else newest_span None (map snd (ActiveToolSpans s)))"

definition ActiveToolSpan :: "SessionState \<Rightarrow> string \<Rightarrow> ToolSpan option" where
  "ActiveToolSpan s toolUseID = activeToolSpanLocked s toolUseID"

definition ActiveEgressToolSpan :: "SessionState \<Rightarrow> ToolSpan option" where
  "ActiveEgressToolSpan s = activeToolSpanLocked s []"

section \<open>Lemmas: deleting keys\<close>

lemma mget_fold_mdel: "mget (fold mdel ks m) k = (if k \<in> set ks then None else mget m k)"
  by (induction ks arbitrary: m) auto

lemma wf_map_fold_mdel [wf_intros, simp]: "wf_map m \<Longrightarrow> wf_map (fold mdel ks m)"
  by (induction ks arbitrary: m) auto

lemma length_wf_map: "wf_map m \<Longrightarrow> length m = card (dom (map_of m))"
  using distinct_card [of "map fst m"] by (simp add: wf_map_def dom_map_of_conv_image_fst)

lemma dom_fold_mdel: "dom (map_of (fold mdel ks m)) = dom (map_of m) - set ks"
  by (auto simp: dom_def mget_fold_mdel)

section \<open>Lemmas: the strength table\<close>

text \<open>The two maps always have the same keys.\<close>

definition wf_strength :: "(string, int) gomap \<times> (string, time) gomap \<Rightarrow> bool" where
  "wf_strength = (\<lambda>(best, updated). wf_map best \<and> wf_map updated \<and> dom (map_of best) = dom (map_of updated))"

lemma wf_strength_fold_mdel:
  "wf_strength (best, updated) \<Longrightarrow> wf_strength (fold mdel ks best, fold mdel ks updated)"
  by (simp add: wf_strength_def dom_fold_mdel)

lemma wf_strength_capStrength [wf_intros, simp]: "wf_strength bu \<Longrightarrow> wf_strength (capStrength cap bu)"
  by (cases bu) (simp add: capStrength_def Let_def wf_strength_fold_mdel)

lemma wf_strength_pruneStrength [wf_intros, simp]: "wf_strength bu \<Longrightarrow> wf_strength (pruneStrength now bu)"
  by (cases bu) (simp add: pruneStrength_def Let_def wf_strength_fold_mdel)

lemma capStrength_bound:
  assumes "wf_strength (best, updated)"
  shows "length (fst (capStrength cap (best, updated))) = min cap (length best)"
proof (cases "cap < length best")
  case True
  define stats where "stats = sort_key snd updated"
  define victims where "victims = map fst (take (length best - cap) stats)"
  have wf: "wf_map best" "wf_map updated" "dom (map_of best) = dom (map_of updated)"
    using assms by (simp_all add: wf_strength_def)
  have len: "length updated = length best" using wf by (simp add: length_wf_map)
  have "distinct (map fst stats)"
    using wf(2) by (simp add: stats_def wf_map_def distinct_map)
  then have "distinct victims" unfolding victims_def by (metis distinct_take take_map)
  then have card: "card (set victims) = length best - cap"
    unfolding distinct_card [OF \<open>distinct victims\<close>] using len by (simp add: victims_def stats_def)
  have sub: "set victims \<subseteq> dom (map_of best)"
    using set_take_subset [of "length best - cap" "sort_key snd updated"]
    unfolding wf(3) dom_map_of_conv_image_fst [of updated] victims_def stats_def by auto
  have "length (fold mdel victims best) = card (dom (map_of best) - set victims)"
    using wf by (simp add: length_wf_map dom_fold_mdel)
  also have "\<dots> = length best - (length best - cap)"
    using card sub wf by (simp add: card_Diff_subset length_wf_map)
  finally show ?thesis using True by (simp add: capStrength_def Let_def victims_def stats_def)
qed (simp add: capStrength_def)

text \<open>The entries the cap evicts are never newer than the ones it keeps.\<close>

lemma capStrength_evicts_oldest:
  assumes "wf_strength (best, updated)"
    and out: "mget updated k = Some t" "mget (snd (capStrength cap (best, updated))) k = None"
    and kept: "mget (snd (capStrength cap (best, updated))) k' = Some t'"
  shows "t \<le> t'"
proof -
  define stats where "stats = sort_key snd updated"
  define n where "n = length best - cap"
  have wf: "wf_map updated" using assms(1) by (simp add: wf_strength_def)
  then have uniq: "\<And>k a b. (k, a) \<in> set updated \<Longrightarrow> (k, b) \<in> set updated \<Longrightarrow> a = b"
    unfolding wf_map_def by (metis eq_key_imp_eq_value)
  have big: "cap < length best" using out by (auto simp: capStrength_def split: if_splits)
  then have r: "snd (capStrength cap (best, updated)) = fold mdel (map fst (take n stats)) updated"
    by (simp add: capStrength_def Let_def stats_def n_def)
  from out r obtain u where u: "(k, u) \<in> set (take n stats)"
    by (auto simp: mget_fold_mdel split: if_splits)
  have k': "k' \<notin> fst ` set (take n stats)" "mget updated k' = Some t'"
    using kept r by (auto simp: mget_fold_mdel split: if_splits)
  have set_eq: "set stats = set updated" by (simp add: stats_def)
  have "u = t"
    using u out(1) uniq set_eq by (metis in_set_takeD map_of_SomeD)
  moreover have "(k', t') \<in> set (drop n stats)"
    using k' set_eq by (metis Un_iff append_take_drop_id fst_conv image_eqI map_of_SomeD set_append)
  moreover have "sorted (map snd (take n stats @ drop n stats))" by (simp add: stats_def)
  ultimately show ?thesis using u unfolding map_append sorted_append by fastforce
qed

section \<open>Lemmas: tool spans\<close>

definition wf_spans :: "(string, ToolSpan) gomap \<Rightarrow> bool" where
  "wf_spans spans \<longleftrightarrow> wf_map spans \<and>
     (\<forall>k sp. mget spans k = Some sp \<longrightarrow>
        tsToolUseID sp = k \<and> tsSpanID sp = k \<and> k \<noteq> [] \<and> TrimSpace k = k \<and> tsEgress sp)"

lemma mget_pruneSpans:
  "wf_map spans \<Longrightarrow> mget (pruneSpans now spans) k =
     (case mget spans k of
        Some sp \<Rightarrow> if tsStartedAt sp = 0 \<or> time_sub now (tsStartedAt sp) > activeToolSpanRetentionWindow
                   then None else Some sp
      | None \<Rightarrow> None)"
  using mget_filter [of spans "\<lambda>k sp. \<not> (IsZero (tsStartedAt sp) \<or>
      time_sub now (tsStartedAt sp) > activeToolSpanRetentionWindow)" k]
  by (auto simp: pruneSpans_def IsZero_def split: option.splits)

lemma wf_spans_prune [wf_intros, simp]: "wf_spans spans \<Longrightarrow> wf_spans (pruneSpans now spans)"
proof -
  assume wf: "wf_spans spans"
  then have "wf_map (pruneSpans now spans)" by (simp add: wf_spans_def pruneSpans_def)
  then show ?thesis using wf by (auto simp: wf_spans_def mget_pruneSpans split: option.splits if_splits)
qed

lemma wf_spans_update [wf_intros, simp]:
  "wf_spans (ActiveToolSpans s) \<Longrightarrow> wf_spans (ActiveToolSpans (updateActiveToolSpanLocked clk e s))"
  by (auto simp: wf_spans_def updateActiveToolSpanLocked_def Let_def split: if_splits)

lemma newest_span_spec:
  "newest_span best spans = r \<Longrightarrow>
     (r = None \<longleftrightarrow> best = None \<and> (\<forall>sp \<in> set spans. \<not> tsEgress sp)) \<and>
     (\<forall>m. r = Some m \<longrightarrow>
        (best = Some m \<or> (m \<in> set spans \<and> tsEgress m)) \<and>
        (\<forall>b. best = Some b \<longrightarrow> tsStartedAt b \<le> tsStartedAt m) \<and>
        (\<forall>sp \<in> set spans. tsEgress sp \<longrightarrow> tsStartedAt sp \<le> tsStartedAt m))"
proof (induction best spans arbitrary: r rule: newest_span.induct)
  case (2 best sp spans)
  show ?case
  proof (cases "tsEgress sp")
    case True
    show ?thesis
    proof (cases best)
      case None
      with True 2(2) [OF _ None] 2(4) show ?thesis by auto
    next
      case (Some b)
      with True 2(3) [OF _ Some] 2(4) show ?thesis by (force split: if_splits)
    qed
  qed (use 2(1,4) in auto)
qed simp

end
