(* ===== verification/Go_Float.thy ===== *)
theory Go_Float
  imports Prelude
begin

text \<open>
  \<open>Duration.Seconds\<close> and the verb \<open>%.1f\<close>. A non-negative double is a pair of integers \<open>(n, d)\<close> with
  \<open>d\<close> a power of two and the value \<open>n / d\<close>; a floating-point operation rounds its exact result to 53
  significant bits, ties to even. Durations stay far below \<open>2^53\<close> seconds, so \<open>d\<close> is at least one.
\<close>

definition div_half_even :: "int \<Rightarrow> int \<Rightarrow> int" where
  "div_half_even p q =
     (let f = p div q; r = p mod q
      in if 2 * r < q then f else if 2 * r > q then f + 1 else if f mod 2 = 0 then f else f + 1)"

text \<open>The least power of two (within the fuel) that brings \<open>p / q\<close> to 53 bits; a fraction of a second
  has \<open>p * 2^30 \<ge> q\<close>, so 82 doublings suffice.\<close>

fun scale_pow :: "nat \<Rightarrow> int \<Rightarrow> int \<Rightarrow> int \<Rightarrow> int" where
  "scale_pow 0 p q d = d"
| "scale_pow (Suc fuel) p q d =
     (if p * d \<ge> q * 4503599627370496 then d else scale_pow fuel p q (2 * d))"

definition float_div :: "int \<Rightarrow> int \<Rightarrow> int \<times> int" where
  "float_div p q =
     (if p \<le> 0 then (0, 1) else let d = scale_pow 90 p q 1 in (div_half_even (p * d) q, d))"

text \<open>Adding an integer below \<open>2^53\<close>: the exact sum is \<open>(i * d + n) / d\<close>; its low bits are rounded
  away while it has more than 53 of them.\<close>

fun excess_pow :: "nat \<Rightarrow> int \<Rightarrow> int \<Rightarrow> int" where
  "excess_pow 0 m s = s"
| "excess_pow (Suc fuel) m s = (if m < s * 9007199254740992 then s else excess_pow fuel m (2 * s))"

definition float_add_int :: "int \<Rightarrow> int \<times> int \<Rightarrow> int \<times> int" where
  "float_add_int i = (\<lambda>(n, d).
     let m = i * d + n; s = excess_pow 90 m 1 in (div_half_even m s * s, d))"

definition seconds_abs :: "duration \<Rightarrow> int \<times> int" where
  "seconds_abs d = float_add_int (d div Second) (float_div (d mod Second) Second)"

definition show_tenths :: "int \<times> int \<Rightarrow> string" where
  "show_tenths = (\<lambda>(n, d). let t = div_half_even (10 * n) d in Itoa (t div 10) @ ''.'' @ [digit_char (t mod 10)])"

definition show_seconds :: "duration \<Rightarrow> string" where
  "show_seconds d = (if d < 0 then ''-'' @ show_tenths (seconds_abs (- d)) else show_tenths (seconds_abs d))"

lemma show_seconds_examples:
  "show_seconds 0 = ''0.0''" "show_seconds 250000000 = ''0.2''" "show_seconds 350000000 = ''0.3''"
  "show_seconds 1234567890 = ''1.2''" "show_seconds 9950000000 = ''9.9''"
  by code_simp+

end
