(* ===== verification/Corr_Match.thy ===== *)
theory Corr_Match
  imports Corr_Process Corr_Cache Go_Float
begin

text \<open>
  \<open>internal/correlator/correlator.go\<close>, the decisions: destination keys and intents, timing, the
  process relationship of a hook event and a flow, confidence, score, strength, and the text of an
  evidence card.
\<close>

section \<open>Tags and tools\<close>

definition hasSensitiveTag :: "SemanticEvent \<Rightarrow> bool" where
  "hasSensitiveTag e \<longleftrightarrow>
     list_ex (\<lambda>t. t = ''sensitive_read'' \<or> t = ''credential_output'' \<or> t = ''structured_secret'') (items (sTags e))"

definition hasCredentialOutputTag :: "SemanticEvent \<Rightarrow> bool" where
  "hasCredentialOutputTag e \<longleftrightarrow>
     list_ex (\<lambda>t. t = ''credential_output'' \<or> t = ''structured_secret'') (items (sTags e))"

definition isEgressLike :: "SemanticEvent \<Rightarrow> bool" where
  "isEgressLike e =
     (if list_ex (\<lambda>t. t = ''external_egress_attempt'' \<or> t = ''mcp_tool_use'') (items (sTags e)) then True
      else if HasPrefix (ToLower (sTool e)) ''mcp__'' then True
      else if sTool e = ''WebFetch'' \<or> sTool e = ''WebSearch'' then True
      else False)"

definition isMCPToolEvent :: "SemanticEvent \<Rightarrow> bool" where
  "isMCPToolEvent e =
     (if HasPrefix (ToLower (sTool e)) ''mcp__'' then True
      else list_ex (\<lambda>t. t = ''mcp_tool_use'') (items (sTags e)))"

definition isActiveFlow :: "NetworkFlowEvent \<Rightarrow> bool" where
  "isActiveFlow flow = (ToLower (TrimSpace (fState flow)) \<in> {''established'', ''data''})"

definition isHighByteFlow :: "NetworkFlowEvent \<Rightarrow> bool" where
  "isHighByteFlow flow =
     (let threshold = HighByteThreshold (hCorrelation defaultHeuristics)
      in fBytesOut flow \<ge> threshold \<or> fBytesIn flow \<ge> threshold)"

definition uniqueStrings :: "string list \<Rightarrow> string list" where
  "uniqueStrings values = fold set_add values []"

section \<open>Destinations\<close>

definition count_char :: "char \<Rightarrow> string \<Rightarrow> nat" where
  "count_char c s = length (filter (\<lambda>d. d = c) s)"

definition destinationKey :: "NetworkFlowEvent \<Rightarrow> string" where
  "destinationKey flow =
     (if fSNI flow \<noteq> [] then ToLower (TrimSpace (fSNI flow))
      else if fHostname flow \<noteq> [] then ToLower (TrimSpace (fHostname flow))
      else
        let remote = TrimSpace (fRemote flow)
        in if remote = [] then []
           else
             let host = (if count_char CHR '':'' remote = 1 then cut_before remote '':'' else Trim remote ''[]'')
             in ToLower (TrimSpace (Trim host ''[]'')))"

definition normalizeDestinationHost :: "string \<Rightarrow> string" where
  "normalizeDestinationHost v0 =
     (let v1 = ToLower (TrimSpace v0);
          v2 = TrimPrefix (TrimPrefix v1 ''http://'') ''https://'';
          v3 = cut_before (Trim v2 ''[]'') ''/'';
          v4 = cut_before v3 ''?'';
          v5 = (if count_char CHR '':'' v4 = 1 then cut_before v4 '':'' else v4)
      in Trim v5 ''.'')"

definition destinationHostMatches :: "string \<Rightarrow> string \<Rightarrow> bool" where
  "destinationHostMatches intent observed =
     (if intent = [] \<or> observed = [] then False
      else observed = intent \<or> HasSuffix observed (''.'' @ intent))"

definition flowDestinationCandidates :: "NetworkFlowEvent \<Rightarrow> string list" where
  "flowDestinationCandidates flow =
     uniqueStrings (filter (\<lambda>c. c \<noteq> [])
       (map normalizeDestinationHost
          [fSNI flow, fHostname flow, destinationKey (zeroFlow\<lparr>fRemote := fRemote flow\<rparr>)]))"

definition destinationIntentMatchesFlow :: "SemanticEvent \<Rightarrow> NetworkFlowEvent \<Rightarrow> bool" where
  "destinationIntentMatchesFlow e flow =
     (if items (sDestinationIntents e) = [] then False
      else
        let flowDestinations = flowDestinationCandidates flow
        in if flowDestinations = [] then False
           else list_ex (\<lambda>intent0.
                  let intent = normalizeDestinationHost intent0
                  in intent \<noteq> [] \<and> list_ex (\<lambda>dest. destinationHostMatches intent dest) flowDestinations)
                (items (sDestinationIntents e)))"

definition flowHasStrongObservedHostname :: "NetworkFlowEvent \<Rightarrow> bool" where
  "flowHasStrongObservedHostname flow =
     (let sni = normalizeDestinationHost (fSNI flow)
      in if sni \<noteq> [] \<and> ParseIP sni = None then True
         else
           let host = normalizeDestinationHost (fHostname flow)
           in if host = [] \<or> ParseIP host \<noteq> None then False
              else ToLower (TrimSpace (fHostnameSource flow)) \<notin> {''network_statistics'', ''ptr'', ''reverse_dns''})"

definition sameAgentSession :: "AgentInfo \<Rightarrow> AgentInfo option \<Rightarrow> bool" where
  "sameAgentSession a b0 =
     (case b0 of
        None \<Rightarrow> False
      | Some b \<Rightarrow>
          if aID a \<noteq> [] \<and> aID b \<noteq> [] \<and> aID a = aID b then True
          else if aPID a > 0 \<and> aPID b > 0 \<and> aPID a = aPID b then True
          else False)"

definition flowCorrelationKey :: "NetworkFlowEvent \<Rightarrow> string" where
  "flowCorrelationKey flow = Join [Itoa (fPID flow), fLocal flow, fRemote flow, ToLower (fProtocol flow)] ''|''"

section \<open>Timing\<close>

definition timingReasons :: "SemanticEvent \<Rightarrow> NetworkFlowEvent \<Rightarrow> time \<Rightarrow> string list" where
  "timingReasons e flow now =
     (if IsZero (sTS e) then []
      else
        let delta = time_sub now (sTS e)
        in if delta \<ge> 0 \<and> delta \<le> CorrelationWindow then [''within_10s'']
           else if delta < 0 \<and> dur_neg delta \<le> ExistingConnectionWindow \<and>
                   (hasSensitiveTag e \<or> isEgressLike e) \<and> isActiveFlow flow
           then [''existing_connection_active'']
           else [])"

definition destinationIntentTimingReasons ::
  "SemanticEvent \<Rightarrow> NetworkFlowEvent \<Rightarrow> time \<Rightarrow> bool \<Rightarrow> string list" where
  "destinationIntentTimingReasons e flow now intentMatch =
     (if \<not> intentMatch \<or> IsZero (sTS e) \<or> \<not> isEgressLike e \<or> hasSensitiveTag e \<or>
         \<not> EqualFold (fState flow) ''new'' then []
      else
        let delta = time_sub now (sTS e)
        in if delta \<ge> 0 \<and> delta \<le> CorrelationWindow then [''within_10s''] else [])"

section \<open>Process relationship\<close>

definition semanticProcessStaleLocked :: "SessionState \<Rightarrow> SemanticEvent \<Rightarrow> int \<Rightarrow> bool" where
  "semanticProcessStaleLocked s e pid =
     (if pid \<le> 0 \<or> IsZero (sTS e) then False
      else case mget (Processes s) pid of
             None \<Rightarrow> False
           | Some info \<Rightarrow> if IsZero (piStartedAt info) then False else piStartedAt info > sTS e)"

definition flowLooksLikeMCPServerLocked :: "SessionState \<Rightarrow> NetworkFlowEvent \<Rightarrow> bool" where
  "flowLooksLikeMCPServerLocked s flow =
     (let candidates = [fProcessPath flow, fProcessBundleID flow] @
            (case mget (Processes s) (fPID flow) of None \<Rightarrow> [] | Some info \<Rightarrow> [piName info, piSource info])
      in list_ex (\<lambda>candidate.
           let lower = ToLower candidate
           in Contains lower ''modelcontextprotocol'' \<or> Contains lower ''@modelcontextprotocol'' \<or>
              Contains lower ''mcp-server'' \<or> Contains lower ''mcp_server'' \<or> Contains lower ''/mcp-'' \<or>
              Contains lower '' mcp '' \<or> Contains lower ''/mcp/'' \<or> HasSuffix lower ''/mcp'') candidates)"

definition knownAgentBinaryMatchLocked :: "SessionState \<Rightarrow> SemanticEvent \<Rightarrow> NetworkFlowEvent \<Rightarrow> bool" where
  "knownAgentBinaryMatchLocked s e flow =
     (let found = (case mget (Processes s) (fPID flow) of
                     Some info \<Rightarrow> Some info
                   | None \<Rightarrow> if fProcessPath flow = [] then None
                             else Some (annotateAgentProcess
                                    (zeroProcess\<lparr>piPID := fPID flow, piName := fProcessPath flow\<rparr>)))
      in case found of
           None \<Rightarrow> False
         | Some info \<Rightarrow>
             if \<not> piIsAgentBinary info \<or> piAgentID info = [] then False
             else if \<not> HasSuffix (piAgentKind info) ''_cli'' then False
             else if aID (sAgent e) = [] \<and> aName (sAgent e) = [] then False
             else EqualFold (aID (sAgent e)) (piAgentID info) \<or> EqualFold (aName (sAgent e)) (piAgentID info))"

text \<open>The branch of \<open>processMatchReasonsLocked\<close> for different PIDs: each fallback is tried only when
  nothing matched before it.\<close>

definition or_else :: "string list \<Rightarrow> bool \<Rightarrow> string \<Rightarrow> string list" where
  "or_else reasons cond r = (if reasons = [] \<and> cond then [r] else reasons)"

definition relatedProcessReasons :: "SessionState \<Rightarrow> SemanticEvent \<Rightarrow> NetworkFlowEvent \<Rightarrow> string list" where
  "relatedProcessReasons s e flow =
     (let r1 = (if sPPID e > 0 \<and> sPPID e = fPID flow then [''parent_match''] else []);
          r2 = r1 @ (if fPPID flow > 0 then
                       (if sPID e > 0 \<and> sPID e = fPPID flow then [''parent_match'']
                        else if sPPID e > 0 \<and> sPPID e = fPPID flow then [''same_agent_session'']
                        else [])
                     else []);
          r3 = or_else r2 (sPID e > 0 \<and> isAncestorLocked s (sPID e) (fPID flow)) ''ancestor_match'';
          r4 = or_else r3 (sPPID e > 0 \<and> isAncestorLocked s (sPPID e) (fPID flow)) ''ancestor_match'';
          r5 = or_else r4 (fPID flow > 0 \<and> isAncestorLocked s (fPID flow) (sPID e)) ''ancestor_match'';
          r6 = or_else r5 (commonTrackedAncestorLocked s e flow) ''common_agent_ancestor''
      in or_else r6 (sPPID e > 0 \<and> fPPID flow > 0 \<and> sPPID e = fPPID flow) ''same_agent_session'')"

definition processMatchReasonsLocked :: "SessionState \<Rightarrow> SemanticEvent \<Rightarrow> NetworkFlowEvent \<Rightarrow> string list" where
  "processMatchReasonsLocked s e flow =
     (if fPID flow \<le> 0 then []
      else if semanticProcessStaleLocked s e (sPID e) \<or> semanticProcessStaleLocked s e (sPPID e) then []
      else if sPID e > 0 \<and> sPID e = fPID flow \<and> sPPID e > 0 \<and> fPPID flow > 0 \<and> sPPID e \<noteq> fPPID flow then []
      else
        let reasons = (if sPID e > 0 \<and> sPID e = fPID flow then [''pid_match'']
                       else relatedProcessReasons s e flow);
            extra = (if reasons \<noteq> [] then
                       (if knownAgentBinaryMatchLocked s e flow then [''known_agent_binary_match''] else []) @
                       (if isMCPToolEvent e \<and> flowLooksLikeMCPServerLocked s flow then [''mcp_server_flow''] else [])
                     else [])
        in uniqueStrings (reasons @ extra))"

section \<open>Confidence, score, strength\<close>

abbreviation hasReason :: "string list \<Rightarrow> string \<Rightarrow> bool" where
  "hasReason reasons r \<equiv> r \<in> set reasons"

definition confidenceForReasons :: "string list \<Rightarrow> string" where
  "confidenceForReasons reasons =
     (if hasReason reasons ''existing_connection_active'' then ''low''
      else if hasReason reasons ''pid_match'' then ''high''
      else
        let fallback =
          (if hasReason reasons ''parent_match'' then ''medium''
           else if hasReason reasons ''ancestor_match'' then ''medium''
           else if hasReason reasons ''destination_intent_match'' \<and> hasReason reasons ''same_agent_session'' \<and>
                   hasReason reasons ''within_10s'' then ''medium''
           else if hasReason reasons ''common_agent_ancestor'' then ''low''
           else if hasReason reasons ''same_agent_session'' then ''low''
           else if hasReason reasons ''known_agent_binary_match'' then ''low''
           else ''low'')
        in if hasReason reasons ''after_sensitive_read'' \<and> hasReason reasons ''within_10s'' then
             (if hasReason reasons ''parent_match'' \<or> hasReason reasons ''ancestor_match'' then ''high''
              else if hasReason reasons ''same_agent_session'' \<and> hasReason reasons ''known_agent_binary_match'' then ''high''
              else if hasReason reasons ''same_agent_session'' then ''medium''
              else if hasReason reasons ''common_agent_ancestor'' then ''medium''
              else fallback)
           else fallback)"

definition scoreForConfidence :: "string \<Rightarrow> rat" where
  "scoreForConfidence confidence =
     (if confidence = ''high'' then 1 else if confidence = ''medium'' then 3/4 else 1/2)"

definition scoreForReasons :: "string \<Rightarrow> string list \<Rightarrow> rat" where
  "scoreForReasons confidence reasons =
     (let s1 = scoreForConfidence confidence;
          s2 = (if hasReason reasons ''high_bytes'' then s1 + 15/100 else s1);
          s3 = (if hasReason reasons ''first_destination'' then s2 + 10/100 else s2);
          s4 = (if hasReason reasons ''destination_intent_match'' then s3 + 15/100 else s3)
      in if s4 > 1 then 1 else s4)"

definition correlationStrength :: "string list \<Rightarrow> int" where
  "correlationStrength reasons =
     (if hasReason reasons ''pid_match'' then 50
      else if hasReason reasons ''parent_match'' then 40
      else if hasReason reasons ''ancestor_match'' then 30
      else if hasReason reasons ''common_agent_ancestor'' then 20
      else if hasReason reasons ''same_agent_session'' then 10
      else if hasReason reasons ''known_agent_binary_match'' then 5
      else 1)"

text \<open>The fixed order in which \<open>tryCorrelateFlowLocked\<close> lists the reasons of a card.\<close>

definition reasonOrder :: "string list" where
  "reasonOrder = [''within_10s'', ''existing_connection_active'', ''pid_match'', ''parent_match'',
     ''ancestor_match'', ''common_agent_ancestor'', ''same_agent_session'', ''known_agent_binary_match'',
     ''mcp_server_flow'', ''destination_intent_match'', ''first_destination'', ''high_bytes'',
     ''after_sensitive_read'']"

section \<open>Identity of a card\<close>

definition semanticIDs :: "SemanticEvent list \<Rightarrow> string list" where
  "semanticIDs events = uniqueStrings (filter (\<lambda>i. i \<noteq> []) (map sToolUseID events))"

definition semanticSuppressionKey :: "SemanticEvent \<Rightarrow> string list" where
  "semanticSuppressionKey ev =
     (if sToolUseID ev \<noteq> [] then [sToolUseID ev]
      else if \<not> IsZero (sTS ev) \<or> sPID ev > 0 \<or> sTool ev \<noteq> []
      then [FormatRFC3339Nano (sTS ev) @ ''|'' @ Itoa (sPID ev) @ ''|'' @ sEvent ev @ ''|'' @ sTool ev]
      else [])"

definition semanticSuppressionKeys :: "SemanticEvent list \<Rightarrow> string list" where
  "semanticSuppressionKeys events = uniqueStrings (concat (map semanticSuppressionKey events))"

definition correlationKey :: "SemanticEvent list \<Rightarrow> NetworkFlowEvent \<Rightarrow> string" where
  "correlationKey events flow =
     (let ids = semanticIDs events
      in if ids = [] then [] else Join ids '','' @ ''|'' @ flowCorrelationKey flow)"

definition flowIDs :: "NetworkFlowEvent \<Rightarrow> string list" where
  "flowIDs flow = (if fFlowID flow = [] then [] else [fFlowID flow])"

definition correlationIncludesToolUse :: "CorrelatedEvent \<Rightarrow> string \<Rightarrow> bool" where
  "correlationIncludesToolUse c toolUseID =
     (if toolUseID = [] then False else list_ex (\<lambda>sem. sToolUseID sem = toolUseID) (cSemantics c))"

definition semanticSameProcessAndTime :: "CorrelatedEvent \<Rightarrow> SemanticEvent \<Rightarrow> bool" where
  "semanticSameProcessAndTime c target =
     (if sPID target \<le> 0 \<or> IsZero (sTS target) then False
      else list_ex (\<lambda>sem. sPID sem = sPID target \<and> sTS sem = sTS target \<and> sTool sem = sTool target) (cSemantics c))"

definition primarySemanticEvent :: "SemanticEvent list \<Rightarrow> SemanticEvent" where
  "primarySemanticEvent events =
     (case find hasSensitiveTag events of
        Some e \<Rightarrow> e
      | None \<Rightarrow> (case events of [] \<Rightarrow> zeroSemantic | e # _ \<Rightarrow> e))"

section \<open>Lemmas: reasons\<close>

lemma set_fold_set_add: "set (fold set_add xs ys) = set ys \<union> set xs"
  by (induction xs arbitrary: ys) auto

lemma distinct_fold_set_add: "distinct (fold set_add xs ys) \<longleftrightarrow> distinct ys"
  by (induction xs arbitrary: ys) auto

lemma set_uniqueStrings [simp]: "set (uniqueStrings xs) = set xs"
  by (simp add: uniqueStrings_def set_fold_set_add)

lemma distinct_uniqueStrings [simp]: "distinct (uniqueStrings xs)"
  by (simp add: uniqueStrings_def distinct_fold_set_add)

lemma uniqueStrings_Nil_iff [simp]: "uniqueStrings xs = [] \<longleftrightarrow> xs = []"
  by (metis set_empty set_uniqueStrings)

lemma length_uniqueStrings: "length (uniqueStrings xs) \<le> length xs"
  by (metis card_length distinct_card distinct_uniqueStrings set_uniqueStrings)

text \<open>The reasons that name a relationship between the processes, and the ones that only qualify it.\<close>

definition relationshipReasons :: "string list" where
  "relationshipReasons = [''pid_match'', ''parent_match'', ''ancestor_match'', ''common_agent_ancestor'', ''same_agent_session'']"

definition timingReasonNames :: "string list" where
  "timingReasonNames = [''within_10s'', ''existing_connection_active'']"

lemma or_else_subset: "set rs \<subseteq> A \<Longrightarrow> r \<in> A \<Longrightarrow> set (or_else rs c r) \<subseteq> A"
  by (cases "rs = [] \<and> c") (auto simp: or_else_def)

lemma relatedProcessReasons_subset:
  assumes "''parent_match'' \<in> A" "''ancestor_match'' \<in> A" "''common_agent_ancestor'' \<in> A" "''same_agent_session'' \<in> A"
  shows "set (relatedProcessReasons s e flow) \<subseteq> A"
  unfolding relatedProcessReasons_def Let_def by (intro or_else_subset assms) (auto simp: assms split: if_splits)

lemma relatedProcessReasons_relationship: "set (relatedProcessReasons s e flow) \<subseteq> set relationshipReasons"
  by (rule relatedProcessReasons_subset) (simp_all add: relationshipReasons_def)

definition baseReasons :: "SessionState \<Rightarrow> SemanticEvent \<Rightarrow> NetworkFlowEvent \<Rightarrow> string list" where
  "baseReasons s e flow =
     (if sPID e > 0 \<and> sPID e = fPID flow then [''pid_match''] else relatedProcessReasons s e flow)"

lemma baseReasons_relationship: "set (baseReasons s e flow) \<subseteq> set relationshipReasons"
  using relatedProcessReasons_relationship by (simp add: baseReasons_def relationshipReasons_def)

definition extraReasons :: "SessionState \<Rightarrow> SemanticEvent \<Rightarrow> NetworkFlowEvent \<Rightarrow> string list" where
  "extraReasons s e flow =
     (if knownAgentBinaryMatchLocked s e flow then [''known_agent_binary_match''] else []) @
     (if isMCPToolEvent e \<and> flowLooksLikeMCPServerLocked s flow then [''mcp_server_flow''] else [])"

lemma extraReasons_subset: "set (extraReasons s e flow) \<subseteq> {''known_agent_binary_match'', ''mcp_server_flow''}"
  by (auto simp: extraReasons_def)

lemma processMatchReasons_base:
  assumes "processMatchReasonsLocked s e flow \<noteq> []"
  shows "baseReasons s e flow \<noteq> []"
    and "set (baseReasons s e flow) \<subseteq> set (processMatchReasonsLocked s e flow)"
    and "set (processMatchReasonsLocked s e flow) \<subseteq>
      set (baseReasons s e flow) \<union> {''known_agent_binary_match'', ''mcp_server_flow''}"
proof -
  have e: "processMatchReasonsLocked s e flow =
      uniqueStrings (baseReasons s e flow @ (if baseReasons s e flow \<noteq> [] then extraReasons s e flow else []))"
    using assms unfolding processMatchReasonsLocked_def Let_def baseReasons_def [symmetric] extraReasons_def [symmetric]
    by (simp split: if_split_asm) blast+
  then show ne: "baseReasons s e flow \<noteq> []" using assms by auto
  show "set (baseReasons s e flow) \<subseteq> set (processMatchReasonsLocked s e flow)"
    "set (processMatchReasonsLocked s e flow) \<subseteq>
      set (baseReasons s e flow) \<union> {''known_agent_binary_match'', ''mcp_server_flow''}"
    unfolding e using ne extraReasons_subset [of s e flow] by auto
qed

lemma processMatchReasons_relationship:
  assumes "processMatchReasonsLocked s e flow \<noteq> []"
  shows "\<exists>r \<in> set relationshipReasons. r \<in> set (processMatchReasonsLocked s e flow)"
proof -
  have "hd (baseReasons s e flow) \<in> set (baseReasons s e flow)"
    using processMatchReasons_base(1) [OF assms] by simp
  then show ?thesis
    using processMatchReasons_base(2) [OF assms] baseReasons_relationship [of s e flow] by blast
qed

lemma timingReasons_cases:
  "timingReasons e flow now \<in> {[], [''within_10s''], [''existing_connection_active'']}"
  by (simp add: timingReasons_def Let_def)

lemma destinationIntentTimingReasons_cases:
  "destinationIntentTimingReasons e flow now i \<in> {[], [''within_10s'']}"
  by (simp add: destinationIntentTimingReasons_def Let_def)

text \<open>Without saturation the windows mean what they say.\<close>

lemma timingReasons_exact:
  assumes "sTS e \<noteq> 0" "\<bar>now - sTS e\<bar> < 2 ^ 63"
  shows "timingReasons e flow now =
     (if sTS e \<le> now \<and> now \<le> sTS e + CorrelationWindow then [''within_10s'']
      else if now < sTS e \<and> sTS e \<le> now + ExistingConnectionWindow \<and>
              (hasSensitiveTag e \<or> isEgressLike e) \<and> isActiveFlow flow
      then [''existing_connection_active'']
      else [])"
proof -
  have d: "time_sub now (sTS e) = now - sTS e" and n: "dur_neg (now - sTS e) = sTS e - now"
    using assms(2) by (auto simp: time_sub_def minDuration_def maxDuration_def dur_neg_def wrap64_def)
  show ?thesis
    unfolding timingReasons_def Let_def d n using assms(1) by (auto simp: IsZero_def window_values)
qed

section \<open>Lemmas: confidence and score\<close>

lemma confidence_range: "confidenceForReasons rs \<in> {''low'', ''medium'', ''high''}"
  by (simp add: confidenceForReasons_def Let_def)

lemma confidence_existing: "hasReason rs ''existing_connection_active'' \<Longrightarrow> confidenceForReasons rs = ''low''"
  by (simp add: confidenceForReasons_def)

lemma confidence_tree_high:
  assumes "lo \<noteq> hi" "me \<noteq> hi"
  shows "(if ex then lo else if pid then hi else
      if sens \<and> win then
        (if par \<or> anc then hi else if same \<and> bin then hi else if same then me else if comm then me
         else if par then me else if anc then me else if int_m \<and> same \<and> win then me
         else if comm then lo else if same then lo else if bin then lo else lo)
      else if par then me else if anc then me else if int_m \<and> same \<and> win then me
         else if comm then lo else if same then lo else if bin then lo else lo) = hi \<longleftrightarrow>
    \<not> ex \<and> (pid \<or> (sens \<and> win \<and> (par \<or> anc \<or> (same \<and> bin))))"
  using assms by auto

lemma confidence_high_iff:
  "confidenceForReasons rs = ''high'' \<longleftrightarrow>
     \<not> hasReason rs ''existing_connection_active'' \<and>
     (hasReason rs ''pid_match'' \<or>
      (hasReason rs ''after_sensitive_read'' \<and> hasReason rs ''within_10s'' \<and>
       (hasReason rs ''parent_match'' \<or> hasReason rs ''ancestor_match'' \<or>
        (hasReason rs ''same_agent_session'' \<and> hasReason rs ''known_agent_binary_match''))))"
  unfolding confidenceForReasons_def Let_def by (rule confidence_tree_high) simp_all

lemma score_bounds: "1/2 \<le> scoreForReasons c rs" "scoreForReasons c rs \<le> 1"
  by (simp_all add: scoreForReasons_def scoreForConfidence_def Let_def)

lemma score_mono_reasons:
  assumes "set rs \<subseteq> set rs'"
  shows "scoreForReasons c rs \<le> scoreForReasons c rs'"
proof -
  have "hasReason rs r \<Longrightarrow> hasReason rs' r" for r using assms by blast
  then show ?thesis by (simp add: scoreForReasons_def Let_def)
qed

lemma strength_pos: "0 < correlationStrength rs"
  by (simp add: correlationStrength_def)

end
