(* ===== verification/Corr_Card.thy ===== *)
theory Corr_Card
  imports Corr_Match
begin

text \<open>
  \<open>internal/correlator/correlator.go\<close>, the content of an evidence card: the summary sentence, the
  process tree around the hook and the flow, and the families of noisy automation.
\<close>

section \<open>Summary\<close>

definition looksLocalhost :: "string \<Rightarrow> bool" where
  "looksLocalhost value =
     (let lower = ToLower (TrimSpace value)
      in Contains lower ''localhost'' \<or> Contains lower ''127.0.0.1'' \<or> Contains lower ''[::1]'' \<or>
         Contains lower ''://::1'')"

definition isLocalhostBridge :: "SemanticEvent \<Rightarrow> NetworkFlowEvent \<Rightarrow> bool" where
  "isLocalhostBridge e flow =
     (if \<not> IsExternal flow then False
      else
        let targets = [sTarget e] @
              (case jstring (sInputSummary e) ''url'' of Some v \<Rightarrow> [v] | None \<Rightarrow> []) @
              (case jstring (sInputSummary e) ''command'' of Some v \<Rightarrow> [v] | None \<Rightarrow> [])
        in list_ex looksLocalhost targets)"

definition flowHost :: "NetworkFlowEvent \<Rightarrow> string" where
  "flowHost flow =
     (let h1 = TrimSpace (fSNI flow);
          h2 = (if h1 = [] then TrimSpace (fHostname flow) else h1);
          h3 = (if h2 = [] then TrimSpace (fRemote flow) else h2);
          h4 = Trim (ToLower h3) ''[]''
      in case Cut h4 '':'' of Some (b, _) \<Rightarrow> Trim b ''[]'' | None \<Rightarrow> h4)"

definition isKnownClaudeFlow :: "NetworkFlowEvent \<Rightarrow> bool" where
  "isKnownClaudeFlow flow =
     HostMatchesAnyDomain (flowHost flow) (DestinationCategoryDomains defaultHeuristics ''known Claude service'')"

definition isPlaywrightBridgeFlow :: "NetworkFlowEvent \<Rightarrow> bool" where
  "isPlaywrightBridgeFlow flow =
     HostMatchesAnyDomain (flowHost flow) (DestinationCategoryDomains defaultHeuristics ''Playwright bridge traffic'')"

definition agentDisplayName :: "AgentInfo \<Rightarrow> string" where
  "agentDisplayName a =
     (if aName a \<noteq> [] then aName a
      else
        let ident = ToLower (aID a)
        in if ident = ''claude'' then ''Claude Code''
           else if ident = ''codex'' then ''Codex''
           else if ident = ''cursor'' then ''Cursor''
           else if ident = ''gemini'' then ''Gemini''
           else aID a)"

definition semanticAction :: "SemanticEvent \<Rightarrow> string" where
  "semanticAction e =
     (let tool = (if sTool e = [] then sEvent e else sTool e);
          target = (if sTarget e = [] then
                      (case jstring (sInputSummary e) ''file_path'' of
                         Some v \<Rightarrow> v
                       | None \<Rightarrow> (case jstring (sInputSummary e) ''command'' of Some v \<Rightarrow> v | None \<Rightarrow> []))
                    else sTarget e)
      in if target = [] then TrimSpace (''used '' @ tool)
         else if tool = ''Read'' then ''read '' @ target
         else if tool = ''Bash'' then ''ran '' @ target
         else TrimSpace (''used '' @ tool @ '' '' @ target))"

text \<open>The arrow of the titles is U+2192, three bytes in UTF-8.\<close>

definition arrow :: string where "arrow = [CHR 0xE2, CHR 0x86, CHR 0x92]"

definition evidenceTitle :: "SemanticEvent \<Rightarrow> NetworkFlowEvent \<Rightarrow> string list \<Rightarrow> string" where
  "evidenceTitle primary flow reasons =
     (if hasCredentialOutputTag primary then ''Credential context '' @ arrow @ '' outbound connection''
      else if hasSensitiveTag primary then ''Sensitive read '' @ arrow @ '' outbound connection''
      else if isLocalhostBridge primary flow then ''Local bridge '' @ arrow @ '' outbound connection''
      else if hasReason reasons ''high_bytes'' \<and> isKnownClaudeFlow flow then ''High-volume Claude service traffic''
      else if hasReason reasons ''high_bytes'' \<and> isMCPToolEvent primary then ''Large outbound flow after MCP tool''
      else if hasReason reasons ''high_bytes'' then ''Large outbound flow after tool call''
      else if isKnownClaudeFlow flow then ''Claude service traffic''
      else if isPlaywrightBridgeFlow flow then ''Playwright bridge traffic''
      else if hasReason reasons ''mcp_server_flow'' then ''Tool call '' @ arrow @ '' outbound connection''
      else if isEgressLike primary then ''Tool call '' @ arrow @ '' outbound connection''
      else ''Linked activity '' @ arrow @ '' outbound connection'')"

definition evidenceDelay :: "SemanticEvent \<Rightarrow> NetworkFlowEvent \<Rightarrow> string" where
  "evidenceDelay primary flow =
     (if \<not> IsZero (sTS primary) \<and> \<not> IsZero (fTS flow) then
        let delta = time_sub (fTS flow) (sTS primary)
        in if delta < 0
           then ''; active '' @ show_seconds (dur_neg delta) @ ''s before '' @
                (if hasSensitiveTag primary then ''access'' else ''tool event'')
           else ''; '' @ show_seconds delta @ ''s later''
      else [])"

definition evidenceFlowText :: "NetworkFlowEvent \<Rightarrow> string" where
  "evidenceFlowText flow =
     ''PID '' @ Itoa (fPID flow) @ '' connected to '' @
     (if fRemote flow = [] then ''unknown remote'' else fRemote flow) @
     (if fSNI flow \<noteq> [] then '' (SNI: '' @ fSNI flow @ '')''
      else if fHostname flow \<noteq> [] then
        (let source = TrimSpace (fHostnameSource flow)
         in '' (hostname: '' @ fHostname flow @ '' via '' @ (if source = [] then ''observer'' else source) @ '')'')
      else if fPTRHostname flow \<noteq> [] then '' (PTR hint: '' @ fPTRHostname flow @ '')''
      else []) @
     (if fBytesOut flow > 0 then '', '' @ Itoa (fBytesOut flow) @ ''B out'' else [])"

definition evidenceSummary :: "SemanticEvent list \<Rightarrow> NetworkFlowEvent \<Rightarrow> string list \<Rightarrow> string" where
  "evidenceSummary related flow reasons =
     (let primary = primarySemanticEvent related;
          name = agentDisplayName (sAgent primary);
          agentName = (if name = [] then ''agent'' else name)
      in evidenceTitle primary flow reasons @ '': '' @ agentName @ '' '' @ semanticAction primary @
         evidenceDelay primary flow @ '': '' @ evidenceFlowText flow @ ''. Why linked: '' @ Join reasons '', '')"

section \<open>Noisy automation\<close>

definition noisyAutomationFamily :: "SemanticEvent \<Rightarrow> string" where
  "noisyAutomationFamily e =
     (let candidates = [sTool e, sTarget e] @
            concat (map (\<lambda>key. case jstring (sInputSummary e) key of Some v \<Rightarrow> [v] | None \<Rightarrow> [])
                      [''url'', ''command'', ''description'']);
          joined = ToLower (Join candidates '' '')
      in case find (\<lambda>rule. \<not> (RequiresLocalhost rule \<and> \<not> looksLocalhost joined) \<and>
                      list_ex (\<lambda>pattern. Contains joined (ToLower pattern)) (ruleContains rule))
                (NoisyAutomation defaultHeuristics) of
           None \<Rightarrow> []
         | Some rule \<Rightarrow> Family rule)"

section \<open>Process tree\<close>

text \<open>\<open>processTreeBuilder\<close>: the nodes, and the index of the node of each PID.\<close>

record processTreeBuilder =
  bNodes :: "ProcessNode list"
  bIndex :: "(int, nat) gomap"

definition appendRole :: "string \<Rightarrow> string \<Rightarrow> string" where
  "appendRole existing0 next0 =
     (let existing = TrimSpace existing0; nxt = TrimSpace next0
      in if nxt = [] then existing
         else if existing = [] then nxt
         else if list_ex (\<lambda>role. TrimSpace role = nxt) (Split existing '','') then existing
         else existing @ '','' @ nxt)"

definition updateNode :: "int \<Rightarrow> string \<Rightarrow> string \<Rightarrow> string \<Rightarrow> ProcessNode \<Rightarrow> ProcessNode" where
  "updateNode ppid name source role node = node\<lparr>
     nPPID := (if nPPID node = 0 then ppid else nPPID node),
     nName := (if nName node = [] then name else nName node),
     nSource := (if nSource node = [] then source else nSource node),
     nRole := appendRole (nRole node) role\<rparr>"

definition builder_add ::
  "int \<Rightarrow> int \<Rightarrow> string \<Rightarrow> string \<Rightarrow> string \<Rightarrow> processTreeBuilder \<Rightarrow> processTreeBuilder" where
  "builder_add pid ppid name source role b =
     (if pid \<le> 0 then b
      else case mget (bIndex b) pid of
             Some idx \<Rightarrow> b\<lparr>bNodes := (bNodes b)[idx := updateNode ppid name source role (bNodes b ! idx)]\<rparr>
           | None \<Rightarrow> b\<lparr>bIndex := mput pid (length (bNodes b)) (bIndex b),
                       bNodes := bNodes b @ [\<lparr>nPID = pid, nPPID = ppid, nName = TrimSpace name,
                          nSource = TrimSpace source, nRole = TrimSpace role\<rparr>]\<rparr>)"

fun add_ancestors :: "nat \<Rightarrow> proc_table \<Rightarrow> string \<Rightarrow> int \<Rightarrow> processTreeBuilder \<Rightarrow> processTreeBuilder" where
  "add_ancestors 0 ps role current b = b"
| "add_ancestors (Suc depth) ps role current b =
     (case mget ps current of
        None \<Rightarrow> b
      | Some info \<Rightarrow>
          if piPPID info \<le> 0 then b
          else case mget ps (piPPID info) of
                 None \<Rightarrow> builder_add (piPPID info) 0 [] ''process-parent'' role b
               | Some parent \<Rightarrow>
                   add_ancestors depth ps role (piPID parent)
                     (builder_add (piPID parent) (piPPID parent) (piName parent) (piSource parent) role b))"

definition addProcessAncestorsLocked :: "SessionState \<Rightarrow> int \<Rightarrow> string \<Rightarrow> processTreeBuilder \<Rightarrow> processTreeBuilder" where
  "addProcessAncestorsLocked s pid role b = add_ancestors MaxAncestorDepth (Processes s) role pid b"

definition add_semantic_nodes :: "SessionState \<Rightarrow> SemanticEvent \<Rightarrow> processTreeBuilder \<Rightarrow> processTreeBuilder" where
  "add_semantic_nodes s sem b =
     addProcessAncestorsLocked s (sPID sem) ''hook_ancestor''
       (builder_add (sPPID sem) 0 [] ''hook-parent'' ''hook_parent''
         (builder_add (sPID sem) (sPPID sem) (sTool sem) ''hook'' ''hook'' b))"

definition processTreeEvidenceLocked :: "SessionState \<Rightarrow> SemanticEvent list \<Rightarrow> NetworkFlowEvent \<Rightarrow> ProcessNode list" where
  "processTreeEvidenceLocked s related flow =
     bNodes (addProcessAncestorsLocked s (fPID flow) ''flow_ancestor''
       (builder_add (fPPID flow) 0 [] ''network-parent'' ''flow_parent''
         (builder_add (fPID flow) (fPPID flow) (fProcessPath flow) ''network'' ''flow''
           (fold (add_semantic_nodes s) related \<lparr>bNodes = [], bIndex = []\<rparr>))))"

section \<open>Lemmas: the process tree\<close>

text \<open>The index of the builder is right: it maps exactly the PIDs of the nodes to their positions, so
  no PID has two nodes and an index is never out of range.\<close>

definition wf_builder :: "processTreeBuilder \<Rightarrow> bool" where
  "wf_builder b \<longleftrightarrow>
     distinct (map nPID (bNodes b)) \<and> (\<forall>n \<in> set (bNodes b). 0 < nPID n) \<and>
     (\<forall>p i. mget (bIndex b) p = Some i \<longleftrightarrow> i < length (bNodes b) \<and> nPID (bNodes b ! i) = p)"

lemma updateNode_PID [simp]: "nPID (updateNode ppid name source role n) = nPID n"
  by (simp add: updateNode_def)

lemma wf_builder_empty [simp]: "wf_builder \<lparr>bNodes = [], bIndex = []\<rparr>"
  by (simp add: wf_builder_def)

lemma builder_add_Some:
  "0 < pid \<Longrightarrow> mget (bIndex b) pid = Some idx \<Longrightarrow> builder_add pid ppid name source role b =
     b\<lparr>bNodes := (bNodes b)[idx := updateNode ppid name source role (bNodes b ! idx)]\<rparr>"
  by (simp add: builder_add_def)

lemma map_update_same: "i < length xs \<Longrightarrow> f y = f (xs ! i) \<Longrightarrow> map f (xs[i := y]) = map f xs"
  by (simp add: map_update) (metis list_update_id map_update)

lemma wf_builder_same_pids:
  assumes wf: "wf_builder b" and pids: "map nPID ns = map nPID (bNodes b)"
  shows "wf_builder (b\<lparr>bNodes := ns\<rparr>)"
proof -
  have len: "length ns = length (bNodes b)" using pids map_eq_imp_length_eq by blast
  have nth: "\<And>i. i < length (bNodes b) \<Longrightarrow> nPID (ns ! i) = nPID (bNodes b ! i)"
    using pids len by (metis nth_map)
  have "nPID ` set ns = nPID ` set (bNodes b)" using pids by (metis image_set)
  then have "\<forall>n \<in> set ns. 0 < nPID n" using wf unfolding wf_builder_def by (metis image_iff)
  moreover have "i < length ns \<and> nPID (ns ! i) = q \<longleftrightarrow> i < length (bNodes b) \<and> nPID (bNodes b ! i) = q" for i q
    using len nth [of i] by auto
  ultimately show ?thesis using wf pids unfolding wf_builder_def by simp
qed

lemma wf_builder_add [wf_intros, simp]:
  assumes wf: "wf_builder b"
  shows "wf_builder (builder_add pid ppid name source role b)"
proof (cases "pid \<le> 0")
  case False
  then have pos: "0 < pid" by simp
  show ?thesis
  proof (cases "mget (bIndex b) pid")
    case (Some idx)
    then have "idx < length (bNodes b)" using wf by (auto simp: wf_builder_def)
    then show ?thesis
      unfolding builder_add_Some [OF pos Some] by (intro wf_builder_same_pids [OF wf] map_update_same) simp_all
  next
    case None
    then have "\<And>i. i < length (bNodes b) \<Longrightarrow> nPID (bNodes b ! i) \<noteq> pid"
      using wf unfolding wf_builder_def by (metis option.distinct(1))
    then have "pid \<notin> nPID ` set (bNodes b)" by (metis image_iff in_set_conv_nth)
    with None wf False show ?thesis
      by (auto simp: wf_builder_def builder_add_def nth_append less_Suc_eq)
  qed
qed (use wf in \<open>simp add: builder_add_def\<close>)

lemma wf_builder_ancestors [wf_intros, simp]: "wf_builder b \<Longrightarrow> wf_builder (add_ancestors d ps role p b)"
  by (induction d arbitrary: p b) (auto split: option.splits)

lemma wf_builder_semantics [wf_intros, simp]: "wf_builder b \<Longrightarrow> wf_builder (fold (add_semantic_nodes s) related b)"
  by (induction related arbitrary: b) (simp_all add: add_semantic_nodes_def addProcessAncestorsLocked_def)

definition node_pids :: "processTreeBuilder \<Rightarrow> int set" where
  "node_pids b = nPID ` set (bNodes b)"

lemma node_pids_add:
  assumes "wf_builder b"
  shows "node_pids (builder_add pid ppid name source role b) = (if pid \<le> 0 then node_pids b else insert pid (node_pids b))"
proof (cases "pid \<le> 0 \<or> mget (bIndex b) pid = None")
  case False
  then obtain idx where idx: "0 < pid" "mget (bIndex b) pid = Some idx" by auto
  with assms have i: "idx < length (bNodes b)" "nPID (bNodes b ! idx) = pid" by (auto simp: wf_builder_def)
  let ?ns = "(bNodes b)[idx := updateNode ppid name source role (bNodes b ! idx)]"
  have "map nPID ?ns = map nPID (bNodes b)" using i by (intro map_update_same) simp_all
  then have "nPID ` set ?ns = nPID ` set (bNodes b)" by (metis image_set)
  moreover have "pid \<in> nPID ` set (bNodes b)" using i by force
  ultimately show ?thesis unfolding builder_add_Some [OF idx] node_pids_def using idx(1) by auto
qed (auto simp: node_pids_def builder_add_def)

lemma node_pids_mono:
  assumes "wf_builder b"
  shows "node_pids b \<subseteq> node_pids (add_ancestors d ps role p b)"
  using assms
proof (induction d arbitrary: p b)
  case (Suc d)
  have add: "node_pids b \<subseteq> node_pids (builder_add q ppid name source role b)" for q ppid name source
    using Suc.prems by (auto simp: node_pids_add)
  have rec: "node_pids b \<subseteq> node_pids (add_ancestors d ps role p' (builder_add q ppid name source role b))"
    for p' q ppid name source
    using Suc.IH [of "builder_add q ppid name source role b" p'] Suc.prems add by (meson subset_trans wf_builder_add)
  show ?case
    using add rec by (simp split: option.split)
qed simp

end
