(* ===== verification/Correlator.thy ===== *)
theory Correlator
  imports Corr_Card
begin

text \<open>
  \<open>internal/correlator/correlator.go\<close>, the operations of \<open>SessionState\<close>: ingesting hook events and
  flows, applying a process snapshot, and the two correlation entry points. An operation that changes
  the state returns it; \<open>clk\<close> is the wall clock it reads.
\<close>

section \<open>Ingestion\<close>

definition AddPID :: "time \<Rightarrow> int \<Rightarrow> SessionState \<Rightarrow> SessionState" where
  "AddPID clk pid s =
     (if pid \<le> 0 then s
      else addProcessLocked clk (zeroProcess\<lparr>piPID := pid, piSource := ''manual'', piTrackAsAgent := True\<rparr>)
             (pruneCorrelationCachesLocked clk clk s))"

definition AddProcess :: "time \<Rightarrow> int \<Rightarrow> int \<Rightarrow> string \<Rightarrow> string \<Rightarrow> SessionState \<Rightarrow> SessionState" where
  "AddProcess clk pid ppid name source s =
     (if pid \<le> 0 then s
      else addProcessLocked clk (zeroProcess\<lparr>piPID := pid, piPPID := ppid, piName := name, piSource := source,
               piTrackAsAgent := True\<rparr>) (pruneCorrelationCachesLocked clk clk s))"

definition pruneAll :: "time \<Rightarrow> SessionState \<Rightarrow> SessionState" where
  "pruneAll now s = pruneCorrelationCachesLocked now now (pruneExpiredProcessesLocked now s)"

definition IsAgentPID :: "time \<Rightarrow> int \<Rightarrow> SessionState \<Rightarrow> bool \<times> SessionState" where
  "IsAgentPID clk pid s = (let s' = pruneAll clk s in (pid \<in> set (KnownPIDs s'), s'))"

definition MatchesNetworkFlow :: "time \<Rightarrow> NetworkFlowEvent \<Rightarrow> SessionState \<Rightarrow> bool \<times> SessionState" where
  "MatchesNetworkFlow clk flow s =
     (let s' = pruneAll clk s
      in (if pidInSet s' (fPID flow) \<or> pidInSet s' (fPPID flow) then True
          else trackedLineageLocked s' [fPID flow, fPPID flow] \<noteq> [], s'))"

definition HasLiveAgentPID :: "time \<Rightarrow> proc_table \<Rightarrow> SessionState \<Rightarrow> bool \<times> SessionState" where
  "HasLiveAgentPID clk processes s =
     (if processes = [] then (False, s)
      else let s' = pruneAll clk s in (list_ex (\<lambda>pid. mhas processes pid) (KnownPIDs s'), s'))"

text \<open>The snapshot comes back annotated: the Go code writes into the caller's map.\<close>

definition ApplyProcessSnapshot :: "time \<Rightarrow> proc_table \<Rightarrow> SessionState \<Rightarrow> proc_table \<times> SessionState" where
  "ApplyProcessSnapshot clk processes0 s =
     (if processes0 = [] then (processes0, s)
      else
        let processes = annotateSnapshot processes0;
            children = childMap processes;
            s1 = dropChanged (pruneAll clk s) processes
        in (processes, fold (learnSeed clk children processes) (snapshotSeeds s1 processes) s1))"

definition hookProcess :: "SemanticEvent \<Rightarrow> ProcessInfo" where
  "hookProcess e = zeroProcess\<lparr>piPID := sPID e, piPPID := sPPID e, piName := sTool e, piSource := ''hook'',
     piTrackAsAgent := True\<rparr>"

definition hookParent :: "SemanticEvent \<Rightarrow> ProcessInfo" where
  "hookParent e = zeroProcess\<lparr>piPID := sPPID e, piSource := ''hook-parent'', piTrackAsAgent := True\<rparr>"

definition AddSemanticEvent :: "time \<Rightarrow> SemanticEvent \<Rightarrow> SessionState \<Rightarrow> SessionState" where
  "AddSemanticEvent clk e s0 =
     (let s1 = pruneCorrelationCachesLocked clk clk s0;
          s2 = (if sPID e > 0 then addProcessLocked clk (hookProcess e) s1 else s1);
          s3 = (if sPPID e > 0 then addProcessLocked clk (hookParent e) s2 else s2);
          s4 = (if hasSensitiveTag e then s3\<lparr>HasSensitive := True\<rparr> else s3);
          s5 = updateActiveToolSpanLocked clk e s4;
          s6 = (if clk > StartTime s5 then s5\<lparr>StartTime := clk\<rparr> else s5)
      in s6\<lparr>Events := append_trim MaxRecentEvents e (Events s6)\<rparr>)"

definition AddNetworkFlow :: "time \<Rightarrow> NetworkFlowEvent \<Rightarrow> SessionState \<Rightarrow> SessionState" where
  "AddNetworkFlow clk f s0 =
     (let s1 = pruneCorrelationCachesLocked clk clk s0;
          s2 = (if fPID f > 0 then addProcessLocked clk
                  (zeroProcess\<lparr>piPID := fPID f, piPPID := fPPID f, piName := fProcessPath f, piSource := ''network''\<rparr>) s1
                else s1);
          s3 = (if fPPID f > 0 then addProcessLocked clk
                  (zeroProcess\<lparr>piPID := fPPID f, piSource := ''network-parent''\<rparr>) s2
                else s2)
      in s3\<lparr>Flows := append_trim MaxRecentFlows f (Flows s3)\<rparr>)"

definition GetRecent :: "SessionState \<Rightarrow> SemanticEvent list" where
  "GetRecent s = Events s"

section \<open>Correlation\<close>

definition isFirstCorrelationDestinationLocked :: "NetworkFlowEvent \<Rightarrow> time \<Rightarrow> SessionState \<Rightarrow> bool" where
  "isFirstCorrelationDestinationLocked flow now s =
     (let dest = destinationKey flow
      in if dest = [] then False
         else case mget (DestinationSeen s) dest of
                None \<Rightarrow> True
              | Some seenAt \<Rightarrow> time_sub now seenAt > correlationCacheTTL)"

definition markCorrelationDestinationLocked :: "NetworkFlowEvent \<Rightarrow> time \<Rightarrow> SessionState \<Rightarrow> SessionState" where
  "markCorrelationDestinationLocked flow now s =
     (let dest = destinationKey flow
      in if dest = [] then s else s\<lparr>DestinationSeen := mput dest now (DestinationSeen s)\<rparr>)"

definition shouldSuppressNoisyPatternLocked ::
  "CorrelatedEvent \<Rightarrow> NetworkFlowEvent \<Rightarrow> time \<Rightarrow> SessionState \<Rightarrow> bool \<times> SessionState" where
  "shouldSuppressNoisyPatternLocked corr flow now s =
     (if hasReason (cReasons corr) ''after_sensitive_read'' \<or> hasReason (cReasons corr) ''high_bytes'' then (False, s)
      else
        let family = noisyAutomationFamily (primarySemanticEvent (cSemantics corr))
        in if family = [] then (False, s)
           else
             let dest = (if destinationKey flow = [] then ''unknown'' else destinationKey flow);
                 key = family @ ''|'' @ dest;
                 seen = mhas (NoisyPatternSeen s) key;
                 s' = s\<lparr>NoisyPatternSeen := mput key now (NoisyPatternSeen s)\<rparr>
             in (seen \<and> \<not> hasReason (cReasons corr) ''first_destination'', s'))"

definition bestStrength :: "SessionState \<Rightarrow> string \<Rightarrow> int" where
  "bestStrength s key = (case mget (SemanticBestStrength s) key of None \<Rightarrow> 0 | Some n \<Rightarrow> n)"

definition raiseStrength :: "int \<Rightarrow> time \<Rightarrow> string \<Rightarrow> SessionState \<Rightarrow> SessionState" where
  "raiseStrength strength now key s =
     (if strength > bestStrength s key
      then s\<lparr>SemanticBestStrength := mput key strength (SemanticBestStrength s),
             SemanticBestStrengthUpdated := mput key now (SemanticBestStrengthUpdated s)\<rparr>
      else s)"

definition shouldEmitCorrelationLocked ::
  "CorrelatedEvent \<Rightarrow> NetworkFlowEvent \<Rightarrow> time \<Rightarrow> SessionState \<Rightarrow> bool \<times> SessionState" where
  "shouldEmitCorrelationLocked corr flow now s =
     (let keys = semanticSuppressionKeys (cSemantics corr)
      in if keys = [] then (True, s)
         else
           let (noisy, s1) = shouldSuppressNoisyPatternLocked corr flow now s
           in if noisy then (False, s1)
              else
                let strength = correlationStrength (cReasons corr)
                in if list_all (\<lambda>key. bestStrength s1 key > strength) keys then (False, s1)
                   else (True, fold (raiseStrength strength now) keys s1))"

text \<open>One turn of the loop over the events: the timing reasons, the relationship reasons, and all the
  reasons that link the event to the flow, or \<open>None\<close> when the loop goes on without it.\<close>

definition eventTiming :: "NetworkFlowEvent \<Rightarrow> time \<Rightarrow> SemanticEvent \<Rightarrow> string list" where
  "eventTiming flow now e =
     (let timing = timingReasons e flow now
      in if timing = [] then destinationIntentTimingReasons e flow now (destinationIntentMatchesFlow e flow)
         else timing)"

definition eventMatched :: "SessionState \<Rightarrow> NetworkFlowEvent \<Rightarrow> SemanticEvent \<Rightarrow> string list" where
  "eventMatched s flow e =
     (let matched = processMatchReasonsLocked s e flow
      in if matched = [] \<and> destinationIntentMatchesFlow e flow \<and> sameAgentSession (sAgent e) (fAgent flow)
         then [''same_agent_session''] else matched)"

definition eventReasons :: "SessionState \<Rightarrow> NetworkFlowEvent \<Rightarrow> time \<Rightarrow> SemanticEvent \<Rightarrow> string list option" where
  "eventReasons s flow now e =
     (if eventTiming flow now e = [] then None
      else if isEgressLike e \<and> \<not> hasSensitiveTag e \<and> items (sDestinationIntents e) \<noteq> [] \<and>
              \<not> destinationIntentMatchesFlow e flow \<and> flowHasStrongObservedHostname flow then None
      else if eventMatched s flow e = [] then None
      else if hasSensitiveTag e \<or> isEgressLike e
      then Some (eventTiming flow now e @ eventMatched s flow e @
                 (if destinationIntentMatchesFlow e flow then [''destination_intent_match''] else []))
      else None)"

definition relatedEvents :: "SessionState \<Rightarrow> NetworkFlowEvent \<Rightarrow> time \<Rightarrow> SemanticEvent list" where
  "relatedEvents s flow now = filter (\<lambda>e. eventReasons s flow now e \<noteq> None) (rev (Events s))"

definition linkReasons :: "SessionState \<Rightarrow> NetworkFlowEvent \<Rightarrow> time \<Rightarrow> string list" where
  "linkReasons s flow now =
     concat (map (\<lambda>e. items (eventReasons s flow now e)) (relatedEvents s flow now))"

definition reasonSetFor :: "SessionState \<Rightarrow> NetworkFlowEvent \<Rightarrow> time \<Rightarrow> string list" where
  "reasonSetFor s flow now =
     (let rs1 = linkReasons s flow now;
          rs2 = rs1 @ (if list_ex hasSensitiveTag (relatedEvents s flow now) then [''after_sensitive_read''] else []);
          rs3 = rs2 @ (if isFirstCorrelationDestinationLocked flow now s then [''first_destination''] else [])
      in rs3 @ (if isHighByteFlow flow \<and> \<not> hasReason rs3 ''existing_connection_active'' then [''high_bytes''] else []))"

definition buildCorrelation :: "time \<Rightarrow> SessionState \<Rightarrow> NetworkFlowEvent \<Rightarrow> time \<Rightarrow> CorrelatedEvent" where
  "buildCorrelation clk s flow now =
     (let related = relatedEvents s flow now;
          reasonSet = reasonSetFor s flow now;
          reasons = filter (\<lambda>r. hasReason reasonSet r) reasonOrder;
          confidence = confidenceForReasons reasonSet
      in \<lparr>cSchema = SchemaCorrelatedV0, cTS = clk, cAgent = Some (sAgent (primarySemanticEvent related)),
          cSemanticIDs = semanticIDs related, cFlowIDs = flowIDs flow,
          cScore = scoreForReasons confidence reasonSet, cConfidence = confidence, cReasons = reasons,
          cSummary = evidenceSummary related flow reasons, cSemantics = related, cFlows = [flow],
          cProcessTree = processTreeEvidenceLocked s related flow\<rparr>)"

definition tryCorrelateFlowLocked ::
  "time \<Rightarrow> NetworkFlowEvent \<Rightarrow> SessionState \<Rightarrow> CorrelatedEvent list \<times> SessionState" where
  "tryCorrelateFlowLocked clk flow s0 =
     (if \<not> IsExternal flow then ([], s0)
      else
        let now = (if IsZero (fTS flow) then clk else fTS flow);
            s = pruneCorrelationCachesLocked clk now (pruneExpiredProcessesLocked now s0);
            related = relatedEvents s flow now
        in if related = [] then ([], s)
           else
             let corr = buildCorrelation clk s flow now;
                 key = correlationKey related flow
             in if key \<noteq> [] \<and> mhas (CorrelatedKeys s) key then ([], s)
                else
                  let s1 = (if key \<noteq> [] then s\<lparr>CorrelatedKeys := mput key now (CorrelatedKeys s)\<rparr> else s);
                      (emit, s2) = shouldEmitCorrelationLocked corr flow now s1
                  in if \<not> emit then ([], s2)
                     else ([corr], markCorrelationDestinationLocked flow now s2))"

definition TryCorrelate :: "time \<Rightarrow> NetworkFlowEvent \<Rightarrow> SessionState \<Rightarrow> CorrelatedEvent list \<times> SessionState" where
  "TryCorrelate clk flow s = tryCorrelateFlowLocked clk flow (pruneCorrelationCachesLocked clk clk s)"

text \<open>The loop of \<open>TryCorrelateSemantic\<close> over the flows, newest first, with the keys already seen.\<close>

fun semantic_flows ::
  "time \<Rightarrow> SemanticEvent \<Rightarrow> time \<Rightarrow> NetworkFlowEvent list \<Rightarrow> string list \<Rightarrow> SessionState \<Rightarrow> CorrelatedEvent list \<times> SessionState" where
  "semantic_flows clk e now [] seen s = ([], s)"
| "semantic_flows clk e now (flow # flows) seen s =
     (if IsZero (fTS flow) then semantic_flows clk e now flows seen s
      else if fTS flow > now then semantic_flows clk e now flows seen s
      else if time_sub now (fTS flow) > ExistingConnectionWindow then ([], s)
      else
        let flowKey = flowCorrelationKey flow
        in if flowKey \<in> set seen then semantic_flows clk e now flows seen s
           else
             let (corrs, s1) = tryCorrelateFlowLocked clk flow s;
                 here = filter (\<lambda>corr. correlationIncludesToolUse corr (sToolUseID e) \<or>
                                         semanticSameProcessAndTime corr e) corrs;
                 (rest, s2) = semantic_flows clk e now flows (flowKey # seen) s1
             in (here @ rest, s2))"

definition TryCorrelateSemantic :: "time \<Rightarrow> SemanticEvent \<Rightarrow> SessionState \<Rightarrow> CorrelatedEvent list \<times> SessionState" where
  "TryCorrelateSemantic clk e s =
     (if \<not> hasSensitiveTag e \<and> \<not> isEgressLike e then ([], s)
      else
        let now = (if IsZero (sTS e) then clk else sTS e);
            s1 = pruneCorrelationCachesLocked clk now (pruneExpiredProcessesLocked now s)
        in semantic_flows clk e now (rev (Flows s1)) [] s1)"

section \<open>Lemmas: the session invariant\<close>

text \<open>The strength table stays within its cap plus the keys one correlation can add, which are no more
  than the recent events.\<close>

definition wf_session :: "SessionState \<Rightarrow> bool" where
  "wf_session s \<longleftrightarrow>
     wf_processes s \<and> wf_map (CorrelatedKeys s) \<and> wf_map (DestinationSeen s) \<and> wf_map (NoisyPatternSeen s) \<and>
     wf_strength (SemanticBestStrength s, SemanticBestStrengthUpdated s) \<and> wf_spans (ActiveToolSpans s) \<and>
     length (Events s) \<le> MaxRecentEvents \<and> length (Flows s) \<le> MaxRecentFlows \<and>
     length (SemanticBestStrength s) \<le> maxCorrelationEntries + MaxRecentEvents"

lemma wf_processes_cong:
  "Processes s' = Processes s \<Longrightarrow> KnownPIDs s' = KnownPIDs s \<Longrightarrow> wf_processes s' = wf_processes s"
  by (simp add: wf_processes_def)

lemma wf_processes_updates [simp]:
  "wf_processes (s\<lparr>HasSensitive := x1\<rparr>) = wf_processes s" "wf_processes (s\<lparr>StartTime := x2\<rparr>) = wf_processes s"
  "wf_processes (s\<lparr>Events := x3\<rparr>) = wf_processes s" "wf_processes (s\<lparr>Flows := x4\<rparr>) = wf_processes s"
  "wf_processes (s\<lparr>ActiveToolSpans := x5\<rparr>) = wf_processes s"
  "wf_processes (s\<lparr>CorrelatedKeys := x6\<rparr>) = wf_processes s"
  "wf_processes (s\<lparr>DestinationSeen := x7\<rparr>) = wf_processes s"
  "wf_processes (s\<lparr>NoisyPatternSeen := x8\<rparr>) = wf_processes s"
  "wf_processes (s\<lparr>SemanticBestStrength := x9, SemanticBestStrengthUpdated := x10\<rparr>) = wf_processes s"
  by (simp_all add: wf_processes_def)

lemma wf_session_New: "wf_session (NewSessionState clk)"
  by (simp add: wf_session_def) (simp add: NewSessionState_def wf_strength_def wf_spans_def)

lemma addProcessLocked_frame [simp]:
  "Events (addProcessLocked clk i s) = Events s" "Flows (addProcessLocked clk i s) = Flows s"
  "CorrelatedKeys (addProcessLocked clk i s) = CorrelatedKeys s"
  "DestinationSeen (addProcessLocked clk i s) = DestinationSeen s"
  "NoisyPatternSeen (addProcessLocked clk i s) = NoisyPatternSeen s"
  "SemanticBestStrength (addProcessLocked clk i s) = SemanticBestStrength s"
  "SemanticBestStrengthUpdated (addProcessLocked clk i s) = SemanticBestStrengthUpdated s"
  "ActiveToolSpans (addProcessLocked clk i s) = ActiveToolSpans s"
  "HasSensitive (addProcessLocked clk i s) = HasSensitive s"
  "StartTime (addProcessLocked clk i s) = StartTime s"
  by (simp_all add: addProcessLocked_def Let_def)

text \<open>Steps that only touch the process graph.\<close>

definition same_caches :: "SessionState \<Rightarrow> SessionState \<Rightarrow> bool" where
  "same_caches s s' \<longleftrightarrow> (\<exists>ps ks. s' = s\<lparr>Processes := ps, KnownPIDs := ks\<rparr>)"

lemma same_cachesI: "s\<lparr>Processes := Processes s', KnownPIDs := KnownPIDs s'\<rparr> = s' \<Longrightarrow> same_caches s s'"
  unfolding same_caches_def by metis

lemma same_caches_refl [simp]: "same_caches s s"
  by (rule same_cachesI) simp

lemma same_caches_trans: "same_caches s t \<Longrightarrow> same_caches t u \<Longrightarrow> same_caches s u"
  unfolding same_caches_def by (elim exE, intro exI) simp

lemma same_caches_add [simp]: "same_caches s (addProcessLocked clk i s)"
  by (rule same_cachesI) (simp add: addProcessLocked_def Let_def)

lemma same_caches_prune [simp]: "same_caches s (pruneExpiredProcessesLocked now s)"
  by (rule same_cachesI) (simp add: pruneExpiredProcessesLocked_def Let_def)

lemma same_caches_dropChanged [simp]: "same_caches s (dropChanged s ps)"
  by (rule same_cachesI) (simp add: dropChanged_def Let_def)

lemma same_caches_learn_ancestors [simp]: "same_caches s (learn_ancestors clk processes d p s)"
proof (induction d arbitrary: p s)
  case (Suc d)
  have "same_caches s (learn_ancestors clk processes d p' (addProcessLocked clk i s))" for p' i
    using same_caches_trans [OF same_caches_add Suc.IH] .
  then show ?case by (simp split: option.split)
qed simp

lemma same_caches_learn_children: "same_caches s (snd (snd (learn_children clk processes cs (q, seen, s))))"
proof (induction cs arbitrary: q seen s)
  case (Cons c cs)
  have "same_caches s (snd (snd (learn_children clk processes cs (q', seen', addProcessLocked clk i s))))" for q' seen' i
    using same_caches_trans [OF same_caches_add Cons.IH] .
  then show ?case using Cons.IH by (simp split: option.split)
qed simp

lemma same_caches_learn_descendants [simp]: "same_caches s (learn_descendants clk children processes d q seen s)"
proof (induction clk children processes d q seen s rule: learn_descendants.induct)
  case (1 clk children processes d c q seen s)
  obtain q' seen' s' where r: "learn_children clk processes (children_of children c) (q, seen, s) = (q', seen', s')"
    by (cases "learn_children clk processes (children_of children c) (q, seen, s)") auto
  have "same_caches s s'"
    using same_caches_learn_children [of s clk processes "children_of children c" q seen] by (simp add: r)
  with 1 r show ?case by (auto intro: same_caches_trans)
qed auto

lemma same_caches_learnSeed [simp]: "same_caches s (learnSeed clk children processes p s)"
  unfolding learnSeed_def learnAncestorsLocked_def learnDescendantsLocked_def
  by (meson same_caches_add same_caches_learn_ancestors same_caches_learn_descendants same_caches_trans)

lemma wf_session_same_caches: "same_caches s s' \<Longrightarrow> wf_processes s' \<Longrightarrow> wf_session s \<Longrightarrow> wf_session s'"
  by (auto simp: same_caches_def wf_session_def)

lemma wf_session_processes: "wf_session s \<Longrightarrow> wf_processes s"
  by (simp add: wf_session_def)

lemma wf_session_addProcess [wf_intros, simp]: "wf_session s \<Longrightarrow> wf_session (addProcessLocked clk i s)"
  by (rule wf_session_same_caches [of s]) (simp_all add: wf_session_processes)

lemma wf_session_pruneExpired [wf_intros, simp]: "wf_session s \<Longrightarrow> wf_session (pruneExpiredProcessesLocked now s)"
  by (rule wf_session_same_caches [of s]) (simp_all add: wf_session_processes)

lemma wf_session_dropChanged [wf_intros, simp]: "wf_session s \<Longrightarrow> wf_session (dropChanged s ps)"
  by (rule wf_session_same_caches [of s]) (simp_all add: wf_session_processes)

lemma wf_session_learnSeed [wf_intros, simp]: "wf_session s \<Longrightarrow> wf_session (learnSeed clk children processes p s)"
  by (rule wf_session_same_caches [of s]) (simp_all add: wf_session_processes)

text \<open>Pruning the caches re-establishes the cap.\<close>

lemma pruneCaches_strength_bound:
  assumes "wf_strength (SemanticBestStrength s, SemanticBestStrengthUpdated s)"
  shows "length (SemanticBestStrength (pruneCorrelationCachesLocked clk now s)) \<le> maxCorrelationEntries"
proof -
  obtain b u where bu: "pruneStrength (if IsZero now then clk else now)
      (SemanticBestStrength s, SemanticBestStrengthUpdated s) = (b, u)" by fastforce
  have "wf_strength (b, u)" using wf_strength_pruneStrength [OF assms] by (metis bu)
  from capStrength_bound [OF this, of maxCorrelationEntries] bu show ?thesis
    by (cases "capStrength maxCorrelationEntries (b, u)") (simp add: pruneCorrelationCachesLocked_def Let_def)
qed

lemma pruneCaches_frame [simp]:
  "Processes (pruneCorrelationCachesLocked clk now s) = Processes s"
  "KnownPIDs (pruneCorrelationCachesLocked clk now s) = KnownPIDs s"
  "Events (pruneCorrelationCachesLocked clk now s) = Events s"
  "Flows (pruneCorrelationCachesLocked clk now s) = Flows s"
  "HasSensitive (pruneCorrelationCachesLocked clk now s) = HasSensitive s"
  "StartTime (pruneCorrelationCachesLocked clk now s) = StartTime s"
  "ActiveToolSpans (pruneCorrelationCachesLocked clk now s) =
     pruneSpans (if IsZero now then clk else now) (ActiveToolSpans s)"
  "CorrelatedKeys (pruneCorrelationCachesLocked clk now s) =
     prune_instants correlationCacheTTL (if IsZero now then clk else now) (CorrelatedKeys s)"
  "DestinationSeen (pruneCorrelationCachesLocked clk now s) =
     prune_instants correlationCacheTTL (if IsZero now then clk else now) (DestinationSeen s)"
  "NoisyPatternSeen (pruneCorrelationCachesLocked clk now s) =
     prune_instants correlationCacheTTL (if IsZero now then clk else now) (NoisyPatternSeen s)"
  by (simp_all add: pruneCorrelationCachesLocked_def Let_def split: prod.splits)

lemma pruneCaches_strength_wf:
  assumes "wf_strength (SemanticBestStrength s, SemanticBestStrengthUpdated s)"
  shows "wf_strength (SemanticBestStrength (pruneCorrelationCachesLocked clk now s),
      SemanticBestStrengthUpdated (pruneCorrelationCachesLocked clk now s))"
proof -
  let ?r = "capStrength maxCorrelationEntries (pruneStrength (if IsZero now then clk else now)
      (SemanticBestStrength s, SemanticBestStrengthUpdated s))"
  have "wf_strength ?r" using assms by simp
  then show ?thesis
    by (cases ?r) (simp add: pruneCorrelationCachesLocked_def Let_def)
qed

lemma wf_session_pruneCaches [wf_intros, simp]:
  assumes "wf_session s"
  shows "wf_session (pruneCorrelationCachesLocked clk now s)"
proof -
  have "wf_processes (pruneCorrelationCachesLocked clk now s)"
    using assms by (subst wf_processes_cong [of _ s]) (simp_all add: wf_session_def)
  then show ?thesis
    using assms pruneCaches_strength_bound [of s clk now] pruneCaches_strength_wf [of s clk now]
    by (auto simp: wf_session_def corr_cache.prune_wf)
qed

lemma wf_session_pruneAll [wf_intros, simp]: "wf_session s \<Longrightarrow> wf_session (pruneAll now s)"
  by (simp add: pruneAll_def)

lemma wf_session_AddPID [wf_intros]: "wf_session s \<Longrightarrow> wf_session (AddPID clk pid s)"
  by (simp add: AddPID_def)

lemma wf_session_AddProcess [wf_intros]: "wf_session s \<Longrightarrow> wf_session (AddProcess clk pid ppid name source s)"
  by (simp add: AddProcess_def)

lemma wf_session_ApplyProcessSnapshot [wf_intros]:
  assumes "wf_session s"
  shows "wf_session (snd (ApplyProcessSnapshot clk processes s))"
proof -
  have "wf_session t \<Longrightarrow> wf_session (fold (learnSeed clk children ps) seeds t)" for children ps seeds t
    by (induction seeds arbitrary: t) simp_all
  then show ?thesis using assms by (simp add: ApplyProcessSnapshot_def Let_def)
qed

lemma wf_session_update_other:
  "wf_session (s\<lparr>HasSensitive := b\<rparr>) = wf_session s" "wf_session (s\<lparr>StartTime := t\<rparr>) = wf_session s"
  by (simp_all add: wf_session_def)

lemma updateActiveToolSpan_frame [simp]:
  "Events (updateActiveToolSpanLocked clk e s) = Events s" "Flows (updateActiveToolSpanLocked clk e s) = Flows s"
  "Processes (updateActiveToolSpanLocked clk e s) = Processes s"
  "KnownPIDs (updateActiveToolSpanLocked clk e s) = KnownPIDs s"
  "HasSensitive (updateActiveToolSpanLocked clk e s) = HasSensitive s"
  "CorrelatedKeys (updateActiveToolSpanLocked clk e s) = CorrelatedKeys s"
  "DestinationSeen (updateActiveToolSpanLocked clk e s) = DestinationSeen s"
  "NoisyPatternSeen (updateActiveToolSpanLocked clk e s) = NoisyPatternSeen s"
  "SemanticBestStrength (updateActiveToolSpanLocked clk e s) = SemanticBestStrength s"
  "SemanticBestStrengthUpdated (updateActiveToolSpanLocked clk e s) = SemanticBestStrengthUpdated s"
  by (simp_all add: updateActiveToolSpanLocked_def Let_def)

lemma wf_session_span [wf_intros, simp]: "wf_session s \<Longrightarrow> wf_session (updateActiveToolSpanLocked clk e s)"
  using wf_processes_cong [of "updateActiveToolSpanLocked clk e s" s] by (simp add: wf_session_def)

lemma wf_session_AddSemanticEvent [wf_intros]:
  assumes "wf_session s"
  shows "wf_session (AddSemanticEvent clk e s)"
proof -
  have push: "wf_session t \<Longrightarrow> wf_session (t\<lparr>Events := append_trim MaxRecentEvents e (Events t)\<rparr>)" for t
    by (simp add: wf_session_def events_ring.push_length)
  show ?thesis
    unfolding AddSemanticEvent_def Let_def
    by (rule push) (simp add: assms wf_session_update_other)
qed

lemma wf_session_AddNetworkFlow [wf_intros]:
  assumes "wf_session s"
  shows "wf_session (AddNetworkFlow clk f s)"
proof -
  have push: "wf_session t \<Longrightarrow> wf_session (t\<lparr>Flows := append_trim MaxRecentFlows f (Flows t)\<rparr>)" for t
    by (simp add: wf_session_def flows_ring.push_length)
  show ?thesis
    unfolding AddNetworkFlow_def Let_def by (rule push) (simp add: assms)
qed

section \<open>Lemmas: correlation keeps the invariant\<close>

text \<open>What the emission decision may touch: the noisy-pattern cache and the strength table.\<close>

definition same_graph :: "SessionState \<Rightarrow> SessionState \<Rightarrow> bool" where
  "same_graph s s' \<longleftrightarrow> Events s' = Events s \<and> Flows s' = Flows s \<and> Processes s' = Processes s \<and>
     KnownPIDs s' = KnownPIDs s \<and> HasSensitive s' = HasSensitive s \<and> StartTime s' = StartTime s \<and>
     ActiveToolSpans s' = ActiveToolSpans s"

lemma same_graph_refl [simp]: "same_graph s s"
  by (simp add: same_graph_def)

lemma same_graph_trans: "same_graph s t \<Longrightarrow> same_graph t u \<Longrightarrow> same_graph s u"
  by (simp add: same_graph_def)

lemma raiseStrength_frame [simp]:
  "same_graph s (raiseStrength n now k s)" "CorrelatedKeys (raiseStrength n now k s) = CorrelatedKeys s"
  "DestinationSeen (raiseStrength n now k s) = DestinationSeen s"
  "NoisyPatternSeen (raiseStrength n now k s) = NoisyPatternSeen s"
  by (simp_all add: raiseStrength_def same_graph_def)

lemma fold_raiseStrength_frame [simp]:
  "same_graph s (fold (raiseStrength n now) ks s)"
  "CorrelatedKeys (fold (raiseStrength n now) ks s) = CorrelatedKeys s"
  "DestinationSeen (fold (raiseStrength n now) ks s) = DestinationSeen s"
  "NoisyPatternSeen (fold (raiseStrength n now) ks s) = NoisyPatternSeen s"
proof (induction ks arbitrary: s)
  case (Cons k ks)
  { case 1 show ?case using same_graph_trans [OF raiseStrength_frame(1) Cons(1)] by simp }
qed simp_all

lemma noisy_frame [simp]:
  "same_graph s (snd (shouldSuppressNoisyPatternLocked c f now s))"
  "CorrelatedKeys (snd (shouldSuppressNoisyPatternLocked c f now s)) = CorrelatedKeys s"
  "DestinationSeen (snd (shouldSuppressNoisyPatternLocked c f now s)) = DestinationSeen s"
  "SemanticBestStrength (snd (shouldSuppressNoisyPatternLocked c f now s)) = SemanticBestStrength s"
  "SemanticBestStrengthUpdated (snd (shouldSuppressNoisyPatternLocked c f now s)) = SemanticBestStrengthUpdated s"
  "wf_map (NoisyPatternSeen s) \<Longrightarrow> wf_map (NoisyPatternSeen (snd (shouldSuppressNoisyPatternLocked c f now s)))"
  by (simp_all add: shouldSuppressNoisyPatternLocked_def Let_def same_graph_def)

lemma shouldEmit_unfold:
  "shouldEmitCorrelationLocked c f now s =
     (let keys = semanticSuppressionKeys (cSemantics c); n = shouldSuppressNoisyPatternLocked c f now s
      in if keys = [] then (True, s)
         else if fst n \<or> list_all (\<lambda>key. bestStrength (snd n) key > correlationStrength (cReasons c)) keys
         then (False, snd n)
         else (True, fold (raiseStrength (correlationStrength (cReasons c)) now) keys (snd n)))"
  by (cases "shouldSuppressNoisyPatternLocked c f now s") (simp add: shouldEmitCorrelationLocked_def Let_def)

lemma shouldEmit_frame [simp]:
  "same_graph s (snd (shouldEmitCorrelationLocked c f now s))"
  "CorrelatedKeys (snd (shouldEmitCorrelationLocked c f now s)) = CorrelatedKeys s"
  "DestinationSeen (snd (shouldEmitCorrelationLocked c f now s)) = DestinationSeen s"
  "wf_map (NoisyPatternSeen s) \<Longrightarrow> wf_map (NoisyPatternSeen (snd (shouldEmitCorrelationLocked c f now s)))"
  unfolding shouldEmit_unfold Let_def
  by (auto intro: same_graph_trans [OF noisy_frame(1) fold_raiseStrength_frame(1)])

lemma raiseStrength_wf:
  assumes "wf_strength (SemanticBestStrength s, SemanticBestStrengthUpdated s)"
  shows "wf_strength (SemanticBestStrength (raiseStrength n now k s), SemanticBestStrengthUpdated (raiseStrength n now k s))"
    and "length (SemanticBestStrength (raiseStrength n now k s)) \<le> Suc (length (SemanticBestStrength s))"
  using assms by (auto simp: raiseStrength_def wf_strength_def dom_def length_mput)

lemma fold_raiseStrength_wf:
  assumes "wf_strength (SemanticBestStrength s, SemanticBestStrengthUpdated s)"
  shows "wf_strength (SemanticBestStrength (fold (raiseStrength n now) ks s),
      SemanticBestStrengthUpdated (fold (raiseStrength n now) ks s)) \<and>
    length (SemanticBestStrength (fold (raiseStrength n now) ks s)) \<le> length ks + length (SemanticBestStrength s)"
  using assms
proof (induction ks arbitrary: s)
  case (Cons k ks)
  have "wf_strength (SemanticBestStrength (raiseStrength n now k s), SemanticBestStrengthUpdated (raiseStrength n now k s))"
    by (rule raiseStrength_wf(1) [OF Cons.prems])
  from Cons.IH [OF this] raiseStrength_wf(2) [OF Cons.prems, of n now k] show ?case by simp
qed simp

lemma length_suppressionKeys: "length (semanticSuppressionKeys es) \<le> length es"
proof -
  have one: "length (semanticSuppressionKey e) \<le> 1" for e by (simp add: semanticSuppressionKey_def)
  have "length (concat (map semanticSuppressionKey es)) \<le> length es"
  proof (induction es)
    case (Cons e es)
    then show ?case using one [of e] by simp
  qed simp
  then show ?thesis using length_uniqueStrings le_trans unfolding semanticSuppressionKeys_def by blast
qed

lemma shouldEmit_strength:
  assumes "wf_strength (SemanticBestStrength s, SemanticBestStrengthUpdated s)"
  shows "wf_strength (SemanticBestStrength (snd (shouldEmitCorrelationLocked c f now s)),
      SemanticBestStrengthUpdated (snd (shouldEmitCorrelationLocked c f now s)))"
    and "length (SemanticBestStrength (snd (shouldEmitCorrelationLocked c f now s)))
      \<le> length (cSemantics c) + length (SemanticBestStrength s)"
proof -
  let ?n = "snd (shouldSuppressNoisyPatternLocked c f now s)"
  have "wf_strength (SemanticBestStrength ?n, SemanticBestStrengthUpdated ?n)" using assms by simp
  note F = fold_raiseStrength_wf [OF this, of "correlationStrength (cReasons c)" now "semanticSuppressionKeys (cSemantics c)"]
  show "wf_strength (SemanticBestStrength (snd (shouldEmitCorrelationLocked c f now s)),
      SemanticBestStrengthUpdated (snd (shouldEmitCorrelationLocked c f now s)))"
    unfolding shouldEmit_unfold Let_def using F assms by simp
  show "length (SemanticBestStrength (snd (shouldEmitCorrelationLocked c f now s)))
      \<le> length (cSemantics c) + length (SemanticBestStrength s)"
    unfolding shouldEmit_unfold Let_def using F length_suppressionKeys [of "cSemantics c"] by simp
qed

text \<open>The state in which \<open>tryCorrelateFlowLocked\<close> decides: expired processes and entries are gone.\<close>

definition flowNow :: "time \<Rightarrow> NetworkFlowEvent \<Rightarrow> time" where
  "flowNow clk flow = (if IsZero (fTS flow) then clk else fTS flow)"

definition prunedFor :: "time \<Rightarrow> NetworkFlowEvent \<Rightarrow> SessionState \<Rightarrow> SessionState" where
  "prunedFor clk flow s =
     pruneCorrelationCachesLocked clk (flowNow clk flow) (pruneExpiredProcessesLocked (flowNow clk flow) s)"

definition markedKey :: "time \<Rightarrow> NetworkFlowEvent \<Rightarrow> SessionState \<Rightarrow> SessionState" where
  "markedKey now flow s =
     (let key = correlationKey (relatedEvents s flow now) flow
      in if key \<noteq> [] then s\<lparr>CorrelatedKeys := mput key now (CorrelatedKeys s)\<rparr> else s)"

lemma tryCorrelate_unfold:
  "tryCorrelateFlowLocked clk flow s0 =
     (let now = flowNow clk flow; s = prunedFor clk flow s0; related = relatedEvents s flow now;
          key = correlationKey related flow; corr = buildCorrelation clk s flow now;
          d = shouldEmitCorrelationLocked corr flow now (markedKey now flow s)
      in if \<not> IsExternal flow then ([], s0)
         else if related = [] then ([], s)
         else if key \<noteq> [] \<and> mhas (CorrelatedKeys s) key then ([], s)
         else if \<not> fst d then ([], snd d)
         else ([corr], markCorrelationDestinationLocked flow now (snd d)))"
  by (simp add: tryCorrelateFlowLocked_def flowNow_def prunedFor_def markedKey_def Let_def split: prod.split)

lemma cSemantics_buildCorrelation [simp]: "cSemantics (buildCorrelation clk s flow now) = relatedEvents s flow now"
  by (simp add: buildCorrelation_def Let_def)

lemma wf_session_mark [wf_intros, simp]: "wf_session s \<Longrightarrow> wf_session (markCorrelationDestinationLocked flow now s)"
  by (simp add: markCorrelationDestinationLocked_def Let_def wf_session_def)

lemma wf_session_shouldEmit:
  assumes wf: "wf_session s" and len: "length (cSemantics c) \<le> MaxRecentEvents"
    and cap: "length (SemanticBestStrength s) \<le> maxCorrelationEntries"
  shows "wf_session (snd (shouldEmitCorrelationLocked c f now s))"
proof -
  let ?s = "snd (shouldEmitCorrelationLocked c f now s)"
  have g: "same_graph s ?s" by simp
  have str: "wf_strength (SemanticBestStrength s, SemanticBestStrengthUpdated s)"
    using wf by (simp add: wf_session_def)
  have "wf_processes ?s"
    using g wf wf_processes_cong [of ?s s] by (simp add: same_graph_def wf_session_def)
  moreover have "length (SemanticBestStrength ?s) \<le> maxCorrelationEntries + MaxRecentEvents"
    using shouldEmit_strength(2) [OF str, of c f now] len cap by linarith
  moreover have "wf_strength (SemanticBestStrength ?s, SemanticBestStrengthUpdated ?s)"
    by (rule shouldEmit_strength(1) [OF str])
  ultimately show ?thesis using wf g by (simp add: wf_session_def same_graph_def)
qed

lemma length_relatedEvents: "length (relatedEvents s flow now) \<le> length (Events s)"
  unfolding relatedEvents_def by (metis length_filter_le length_rev)

lemma wf_session_tryCorrelate [wf_intros]:
  assumes wf: "wf_session s"
  shows "wf_session (snd (tryCorrelateFlowLocked clk flow s))"
proof -
  let ?p = "prunedFor clk flow s" and ?now = "flowNow clk flow"
  let ?m = "markedKey ?now flow ?p" and ?c = "buildCorrelation clk (prunedFor clk flow s) flow (flowNow clk flow)"
  have p: "wf_session ?p" using wf by (simp add: prunedFor_def)
  have m: "wf_session ?m" using p by (simp add: markedKey_def Let_def wf_session_def)
  have "wf_strength (SemanticBestStrength (pruneExpiredProcessesLocked ?now s),
      SemanticBestStrengthUpdated (pruneExpiredProcessesLocked ?now s))"
    using wf_session_pruneExpired [OF wf, of ?now] by (simp add: wf_session_def)
  then have cap: "length (SemanticBestStrength ?m) \<le> maxCorrelationEntries"
    using pruneCaches_strength_bound by (simp add: markedKey_def Let_def prunedFor_def)
  have "length (cSemantics ?c) \<le> MaxRecentEvents"
    using length_relatedEvents [of ?p flow ?now] p by (simp add: wf_session_def)
  from wf_session_shouldEmit [OF m this cap] p wf show ?thesis
    unfolding tryCorrelate_unfold Let_def by simp
qed

lemma wf_session_TryCorrelate [wf_intros]: "wf_session s \<Longrightarrow> wf_session (snd (TryCorrelate clk flow s))"
  by (simp add: TryCorrelate_def wf_session_tryCorrelate)

lemma semantic_flows_Cons:
  "semantic_flows clk e now (flow # flows) seen s =
     (if IsZero (fTS flow) \<or> fTS flow > now then semantic_flows clk e now flows seen s
      else if time_sub now (fTS flow) > ExistingConnectionWindow then ([], s)
      else if flowCorrelationKey flow \<in> set seen then semantic_flows clk e now flows seen s
      else let r = tryCorrelateFlowLocked clk flow s;
               t = semantic_flows clk e now flows (flowCorrelationKey flow # seen) (snd r)
           in (filter (\<lambda>corr. correlationIncludesToolUse corr (sToolUseID e) \<or> semanticSameProcessAndTime corr e) (fst r)
                 @ fst t, snd t))"
  by (auto simp: Let_def split: prod.split)

lemma wf_session_semantic_flows: "wf_session s \<Longrightarrow> wf_session (snd (semantic_flows clk e now flows seen s))"
proof (induction flows arbitrary: seen s)
  case (Cons flow flows)
  then show ?case
    unfolding semantic_flows_Cons Let_def by (simp add: wf_session_tryCorrelate)
qed simp

lemma wf_session_TryCorrelateSemantic [wf_intros]: "wf_session s \<Longrightarrow> wf_session (snd (TryCorrelateSemantic clk e s))"
  by (simp add: TryCorrelateSemantic_def Let_def wf_session_semantic_flows)

end
