(* ===== verification/Corr_Props.thy ===== *)
theory Corr_Props
  imports Correlator
begin

text \<open>
  What the correlator promises: every card rests on timing and on a process or agent relationship, is
  a valid linked-evidence record, is never emitted twice for the same hooks and socket, and never
  weakens what was already shown for a hook.
\<close>

section \<open>The reasons of a card\<close>

lemma eventReasons_Some:
  assumes "eventReasons s flow now e = Some rs"
  shows "rs = eventTiming flow now e @ eventMatched s flow e @
      (if destinationIntentMatchesFlow e flow then [''destination_intent_match''] else [])"
    and "eventTiming flow now e \<noteq> []" "eventMatched s flow e \<noteq> []" "hasSensitiveTag e \<or> isEgressLike e"
  using assms by (simp_all add: eventReasons_def split: if_split_asm)

lemma eventTiming_cases: "eventTiming flow now e \<in> {[], [''within_10s''], [''existing_connection_active'']}"
  using timingReasons_cases [of e flow now]
    destinationIntentTimingReasons_cases [of e flow now "destinationIntentMatchesFlow e flow"]
  unfolding eventTiming_def Let_def by (cases "timingReasons e flow now = []") auto

lemma eventTiming_subset: "set (eventTiming flow now e) \<subseteq> set timingReasonNames"
  using eventTiming_cases [of flow now e] by (auto simp: timingReasonNames_def)

lemma eventMatched_subset:
  "set (eventMatched s flow e) \<subseteq> set relationshipReasons \<union> {''known_agent_binary_match'', ''mcp_server_flow''}"
proof (cases "processMatchReasonsLocked s e flow = []")
  case True
  then show ?thesis by (auto simp: eventMatched_def relationshipReasons_def)
next
  case False
  then show ?thesis
    using processMatchReasons_base(3) [OF False] baseReasons_relationship [of s e flow]
    by (simp add: eventMatched_def) blast
qed

lemma eventMatched_relationship:
  assumes "eventMatched s flow e \<noteq> []"
  shows "\<exists>r \<in> set relationshipReasons. r \<in> set (eventMatched s flow e)"
proof (cases "processMatchReasonsLocked s e flow = []")
  case True
  then have "eventMatched s flow e = [''same_agent_session'']"
    using assms by (auto simp: eventMatched_def split: if_split_asm)
  then show ?thesis by (simp add: relationshipReasons_def)
next
  case False
  then show ?thesis using processMatchReasons_relationship [OF False] by (simp add: eventMatched_def)
qed

lemma reasonOrder_covers:
  "set timingReasonNames \<subseteq> set reasonOrder" "set relationshipReasons \<subseteq> set reasonOrder"
  "''known_agent_binary_match'' \<in> set reasonOrder" "''mcp_server_flow'' \<in> set reasonOrder"
  "''destination_intent_match'' \<in> set reasonOrder"
  by (simp_all add: timingReasonNames_def relationshipReasons_def reasonOrder_def)

lemma eventReasons_subset:
  assumes "eventReasons s flow now e = Some rs"
  shows "set rs \<subseteq> set reasonOrder"
  using eventTiming_subset [of flow now e] eventMatched_subset [of s flow e] reasonOrder_covers
  unfolding eventReasons_Some(1) [OF assms] set_append
  by (cases "destinationIntentMatchesFlow e flow") (simp_all, blast+)

lemma eventReasons_relationship:
  assumes "eventReasons s flow now e = Some rs"
  shows "\<exists>r \<in> set relationshipReasons. r \<in> set rs"
  using eventMatched_relationship [OF eventReasons_Some(3) [OF assms]]
  unfolding eventReasons_Some(1) [OF assms] by auto

lemma eventReasons_timing:
  assumes "eventReasons s flow now e = Some rs"
  shows "\<exists>t \<in> set timingReasonNames. t \<in> set rs"
proof -
  have "hd (eventTiming flow now e) \<in> set (eventTiming flow now e)"
    using eventReasons_Some(2) [OF assms] by simp
  then show ?thesis
    using eventTiming_subset [of flow now e] unfolding eventReasons_Some(1) [OF assms] set_append by blast
qed

lemma relatedEvents_reasons:
  "e \<in> set (relatedEvents s flow now) \<longleftrightarrow> e \<in> set (Events s) \<and> (\<exists>rs. eventReasons s flow now e = Some rs)"
  by (auto simp: relatedEvents_def)

lemma linkReasons_iff:
  "r \<in> set (linkReasons s flow now) \<longleftrightarrow>
     (\<exists>e \<in> set (Events s). \<exists>rs. eventReasons s flow now e = Some rs \<and> r \<in> set rs)"
  unfolding linkReasons_def by (force simp: relatedEvents_reasons)

lemma reasonSetFor_link: "set (linkReasons s flow now) \<subseteq> set (reasonSetFor s flow now)"
  by (auto simp: reasonSetFor_def Let_def)

lemma cReasons_set:
  "set (cReasons (buildCorrelation clk s flow now)) = set reasonOrder \<inter> set (reasonSetFor s flow now)"
  by (auto simp: buildCorrelation_def Let_def)

lemma buildCorrelation_reason:
  assumes "relatedEvents s flow now \<noteq> []"
  shows "\<exists>t \<in> set timingReasonNames. t \<in> set (cReasons (buildCorrelation clk s flow now))"
    and "\<exists>r \<in> set relationshipReasons. r \<in> set (cReasons (buildCorrelation clk s flow now))"
proof -
  from assms obtain e rs where e: "e \<in> set (Events s)" "eventReasons s flow now e = Some rs"
    by (metis last_in_set relatedEvents_reasons)
  then have sub: "set rs \<subseteq> set (cReasons (buildCorrelation clk s flow now))"
    using eventReasons_subset [OF e(2)] reasonSetFor_link [of s flow now] linkReasons_iff [of _ s flow now]
    unfolding cReasons_set by blast
  show "\<exists>t \<in> set timingReasonNames. t \<in> set (cReasons (buildCorrelation clk s flow now))"
    using eventReasons_timing [OF e(2)] sub by blast
  show "\<exists>r \<in> set relationshipReasons. r \<in> set (cReasons (buildCorrelation clk s flow now))"
    using eventReasons_relationship [OF e(2)] sub by blast
qed

section \<open>Shape of the result\<close>

lemma tryCorrelate_result:
  assumes "c \<in> set (fst (tryCorrelateFlowLocked clk flow s0))"
  shows "IsExternal flow" and "relatedEvents (prunedFor clk flow s0) flow (flowNow clk flow) \<noteq> []"
    and "c = buildCorrelation clk (prunedFor clk flow s0) flow (flowNow clk flow)"
    and "fst (tryCorrelateFlowLocked clk flow s0) = [c]"
  using assms unfolding tryCorrelate_unfold Let_def by (auto split: if_split_asm)

lemma prunedFor_frame [simp]:
  "Events (prunedFor clk flow s) = Events s" "Flows (prunedFor clk flow s) = Flows s"
  by (simp_all add: prunedFor_def pruneExpiredProcessesLocked_def Let_def)

lemma buildCorrelation_simps [simp]:
  "cFlows (buildCorrelation clk s flow now) = [flow]"
  "cSchema (buildCorrelation clk s flow now) = SchemaCorrelatedV0"
  "cTS (buildCorrelation clk s flow now) = clk"
  "cConfidence (buildCorrelation clk s flow now) = confidenceForReasons (reasonSetFor s flow now)"
  "cScore (buildCorrelation clk s flow now) =
     scoreForReasons (confidenceForReasons (reasonSetFor s flow now)) (reasonSetFor s flow now)"
  "cSemanticIDs (buildCorrelation clk s flow now) = semanticIDs (relatedEvents s flow now)"
  by (simp_all add: buildCorrelation_def Let_def)

section \<open>Validity of a card\<close>

lemma reasonOrder_not_blank: "r \<in> set reasonOrder \<Longrightarrow> TrimSpace r \<noteq> []"
proof -
  have "list_all (\<lambda>r. TrimSpace r \<noteq> []) reasonOrder" by code_simp
  then show "r \<in> set reasonOrder \<Longrightarrow> TrimSpace r \<noteq> []" by (simp add: list_all_iff)
qed

lemma trim_by_Nil_iff: "trim_by P s = [] \<longleftrightarrow> (\<forall>c \<in> set s. P c)"
  unfolding trim_by_def trim_left_by_def trim_right_by_def
  by (metis dropWhile_eq_Nil_conv rev_is_Nil_conv set_dropWhileD set_rev hd_dropWhile hd_in_set)

lemma evidenceSummary_not_blank: "TrimSpace (evidenceSummary related flow reasons) \<noteq> []"
proof -
  have "CHR ''W'' \<in> set (evidenceSummary related flow reasons)"
    by (simp add: evidenceSummary_def Let_def)
  moreover have "\<not> is_space CHR ''W''" by code_simp
  ultimately show ?thesis unfolding TrimSpace_def trim_by_Nil_iff by blast
qed

lemma cSummary_buildCorrelation:
  "\<exists>related reasons. cSummary (buildCorrelation clk s flow now) = evidenceSummary related flow reasons"
  by (auto simp: buildCorrelation_def Let_def)

lemma buildCorrelation_valid:
  assumes "clk \<noteq> 0" "relatedEvents s flow now \<noteq> []"
    and sem: "\<And>e. e \<in> set (Events s) \<Longrightarrow> ValidateSemanticEvent (NormalizeSemanticEvent clk' e) = None"
    and fl: "ValidateNetworkFlow (NormalizeNetworkFlow clk' flow) = None"
  shows "ValidateCorrelatedEvent clk' (buildCorrelation clk s flow now) =
     (if usesOverclaimingLanguage (cSummary (buildCorrelation clk s flow now)) then Some OverclaimingSummary else None)"
proof -
  let ?c = "buildCorrelation clk s flow now"
  have reasons: "cReasons ?c \<noteq> []"
    using buildCorrelation_reason(1) [OF assms(2), of clk] by auto
  have blank: "\<not> list_ex (\<lambda>r. TrimSpace r = []) (cReasons ?c)"
    using reasonOrder_not_blank by (auto simp: list_ex_iff cReasons_set)
  have summary: "TrimSpace (cSummary ?c) \<noteq> []"
    using cSummary_buildCorrelation [of clk s flow now] evidenceSummary_not_blank by metis
  have "\<forall>e \<in> set (relatedEvents s flow now). ValidateSemanticEvent (NormalizeSemanticEvent clk' e) = None"
    using sem by (auto simp: relatedEvents_reasons)
  then have sems: "first_invalid SemanticInvalid (\<lambda>s. ValidateSemanticEvent (NormalizeSemanticEvent clk' s)) 0 (relatedEvents s flow now) = None"
    by simp
  have range: "\<not> (cScore ?c \<le> 0 \<or> cScore ?c > 1)"
    using score_bounds [of "confidenceForReasons (reasonSetFor s flow now)" "reasonSetFor s flow now"] by auto
  have conf: "\<not> cConfidence ?c \<notin> {''low'', ''medium'', ''high''}"
    using confidence_range [of "reasonSetFor s flow now"] by simp
  show ?thesis
    unfolding ValidateCorrelatedEvent_def
    by (simp only: buildCorrelation_simps(1,2,3) cSemantics_buildCorrelation conf range reasons blank summary sems fl
        assms(2) IsZero_def assms(1) simp_thms if_False first_invalid.simps option.case list.distinct)
qed

section \<open>Suppression of duplicates\<close>

text \<open>A cache entry that every pruning since has found fresh is still there.\<close>

lemma markedKey_keys:
  "CorrelatedKeys (markedKey now flow s) =
     (let key = correlationKey (relatedEvents s flow now) flow
      in if key \<noteq> [] then mput key now (CorrelatedKeys s) else CorrelatedKeys s)"
  by (simp add: markedKey_def Let_def)

lemma mark_frame [simp]:
  "CorrelatedKeys (markCorrelationDestinationLocked flow now s) = CorrelatedKeys s"
  "Events (markCorrelationDestinationLocked flow now s) = Events s"
  "SemanticBestStrength (markCorrelationDestinationLocked flow now s) = SemanticBestStrength s"
  by (simp_all add: markCorrelationDestinationLocked_def Let_def)

lemma prunedFor_keys [simp]:
  "clk \<noteq> 0 \<Longrightarrow> CorrelatedKeys (prunedFor clk flow s) =
     prune_instants correlationCacheTTL (flowNow clk flow) (CorrelatedKeys s)"
  by (simp add: prunedFor_def flowNow_def IsZero_def pruneExpiredProcessesLocked_def Let_def)

lemma tryCorrelate_key_recorded:
  assumes "c \<in> set (fst (tryCorrelateFlowLocked clk flow s))" "semanticIDs (cSemantics c) \<noteq> []"
  shows "mget (CorrelatedKeys (snd (tryCorrelateFlowLocked clk flow s))) (correlationKey (cSemantics c) flow)
     = Some (flowNow clk flow)"
proof -
  have c: "c = buildCorrelation clk (prunedFor clk flow s) flow (flowNow clk flow)"
    by (rule tryCorrelate_result(3) [OF assms(1)])
  have "correlationKey (cSemantics c) flow \<noteq> []" using assms(2) by (simp add: correlationKey_def Let_def)
  with assms(1) c show ?thesis
    unfolding tryCorrelate_unfold Let_def by (auto simp: markedKey_keys Let_def split: if_split_asm)
qed

lemma tryCorrelate_key_fresh:
  assumes wf: "wf_session s" and "clk \<noteq> 0"
    and c: "c \<in> set (fst (tryCorrelateFlowLocked clk flow s))" "semanticIDs (cSemantics c) \<noteq> []"
    and t: "mget (CorrelatedKeys s) (correlationKey (cSemantics c) flow) = Some t"
  shows "t + correlationCacheTTL < flowNow clk flow"
proof (rule ccontr)
  let ?key = "correlationKey (cSemantics c) flow" and ?p = "prunedFor clk flow s"
  assume "\<not> t + correlationCacheTTL < flowNow clk flow"
  then have "mget (CorrelatedKeys ?p) ?key = Some t"
    using wf t assms(2) by (simp add: corr_cache.prune_keeps wf_session_def)
  moreover have "?key \<noteq> []" using c(2) by (simp add: correlationKey_def Let_def)
  moreover have "cSemantics c = relatedEvents ?p flow (flowNow clk flow)"
    using tryCorrelate_result(3) [OF c(1)] by simp
  ultimately have "fst (tryCorrelateFlowLocked clk flow s) = []"
    unfolding tryCorrelate_unfold Let_def by (simp add: mhas_def)
  with c(1) show False by simp
qed

section \<open>Strength\<close>

lemma bestStrength_raise:
  "bestStrength (raiseStrength n now k s) k' = (if k' = k then max n (bestStrength s k) else bestStrength s k')"
  by (auto simp: bestStrength_def raiseStrength_def split: option.splits)

lemma bestStrength_fold_raise:
  "bestStrength (fold (raiseStrength n now) ks s) k = (if k \<in> set ks then max n (bestStrength s k) else bestStrength s k)"
  by (induction ks arbitrary: s) (auto simp: bestStrength_raise)

lemma bestStrength_noisy [simp]: "bestStrength (snd (shouldSuppressNoisyPatternLocked c f now s)) k = bestStrength s k"
  by (simp add: bestStrength_def)

lemma shouldEmit_strength_rule:
  assumes "fst (shouldEmitCorrelationLocked c f now s)" "semanticSuppressionKeys (cSemantics c) \<noteq> []"
  shows "\<exists>k \<in> set (semanticSuppressionKeys (cSemantics c)). bestStrength s k \<le> correlationStrength (cReasons c)"
    and "bestStrength (snd (shouldEmitCorrelationLocked c f now s)) k =
      (if k \<in> set (semanticSuppressionKeys (cSemantics c)) then max (correlationStrength (cReasons c)) (bestStrength s k)
       else bestStrength s k)"
  using assms unfolding shouldEmit_unfold Let_def
  by (auto simp: list_all_iff not_less bestStrength_fold_raise split: if_split_asm)

lemma bestStrength_mark [simp]: "bestStrength (markCorrelationDestinationLocked flow now s) k = bestStrength s k"
  by (simp add: bestStrength_def)

lemma bestStrength_markedKey [simp]: "bestStrength (markedKey now flow s) k = bestStrength s k"
  by (simp add: bestStrength_def markedKey_def Let_def)

lemma tryCorrelate_strength:
  assumes "c \<in> set (fst (tryCorrelateFlowLocked clk flow s))" "semanticSuppressionKeys (cSemantics c) \<noteq> []"
  shows "\<exists>k \<in> set (semanticSuppressionKeys (cSemantics c)).
      bestStrength (prunedFor clk flow s) k \<le> correlationStrength (cReasons c)"
    and "\<forall>k \<in> set (semanticSuppressionKeys (cSemantics c)).
      correlationStrength (cReasons c) \<le> bestStrength (snd (tryCorrelateFlowLocked clk flow s)) k"
proof -
  let ?now = "flowNow clk flow" and ?p = "prunedFor clk flow s"
  have c: "c = buildCorrelation clk ?p flow ?now" by (rule tryCorrelate_result(3) [OF assms(1)])
  have emit: "fst (shouldEmitCorrelationLocked c flow ?now (markedKey ?now flow ?p))"
    and snd: "snd (tryCorrelateFlowLocked clk flow s) =
      markCorrelationDestinationLocked flow ?now (snd (shouldEmitCorrelationLocked c flow ?now (markedKey ?now flow ?p)))"
    using assms(1) unfolding tryCorrelate_unfold Let_def c [symmetric] by (auto split: if_split_asm)
  show "\<exists>k \<in> set (semanticSuppressionKeys (cSemantics c)). bestStrength ?p k \<le> correlationStrength (cReasons c)"
    using shouldEmit_strength_rule(1) [OF emit assms(2)] by simp
  show "\<forall>k \<in> set (semanticSuppressionKeys (cSemantics c)).
      correlationStrength (cReasons c) \<le> bestStrength (snd (tryCorrelateFlowLocked clk flow s)) k"
    using shouldEmit_strength_rule(2) [OF emit assms(2)] by (simp add: snd)
qed

end
