(* ===== verification/Corr_Machine.thy ===== *)
theory Corr_Machine
  imports Corr_Props
begin

text \<open>
  The session as a state machine: the public operations of \<open>SessionState\<close> in any order, each holding
  the session's mutex. Reachable states keep the session invariant, and over a run no card appears
  twice.
\<close>

section \<open>Definitions\<close>

datatype session_op =
    OpAddPID int
  | OpAddProcess int int string string
  | OpSnapshot proc_table
  | OpAddSemantic SemanticEvent
  | OpAddFlow NetworkFlowEvent
  | OpIsAgentPID int
  | OpMatchesFlow NetworkFlowEvent
  | OpHasLive proc_table
  | OpTryCorrelate NetworkFlowEvent
  | OpTrySemantic SemanticEvent

fun session_step :: "time \<Rightarrow> session_op \<Rightarrow> SessionState \<Rightarrow> CorrelatedEvent list \<times> SessionState" where
  "session_step clk (OpAddPID p) s = ([], AddPID clk p s)"
| "session_step clk (OpAddProcess p pp n src) s = ([], AddProcess clk p pp n src s)"
| "session_step clk (OpSnapshot ps) s = ([], snd (ApplyProcessSnapshot clk ps s))"
| "session_step clk (OpAddSemantic e) s = ([], AddSemanticEvent clk e s)"
| "session_step clk (OpAddFlow f) s = ([], AddNetworkFlow clk f s)"
| "session_step clk (OpIsAgentPID p) s = ([], snd (IsAgentPID clk p s))"
| "session_step clk (OpMatchesFlow f) s = ([], snd (MatchesNetworkFlow clk f s))"
| "session_step clk (OpHasLive ps) s = ([], snd (HasLiveAgentPID clk ps s))"
| "session_step clk (OpTryCorrelate f) s = TryCorrelate clk f s"
| "session_step clk (OpTrySemantic e) s = TryCorrelateSemantic clk e s"

text \<open>The instants an operation works with: the clock, and the timestamp of its event.\<close>

fun op_instants :: "session_op \<Rightarrow> time list" where
  "op_instants (OpTryCorrelate f) = (if fTS f = 0 then [] else [fTS f])"
| "op_instants (OpTrySemantic e) = (if sTS e = 0 then [] else [sTS e])"
| "op_instants _ = []"

text \<open>A run whose instants all lie between \<open>lo\<close> and \<open>hi\<close>, with the cards it returned.\<close>

inductive session_run :: "time \<Rightarrow> time \<Rightarrow> SessionState \<Rightarrow> CorrelatedEvent list \<Rightarrow> bool" for lo hi where
  start: "lo \<le> clk \<Longrightarrow> clk \<le> hi \<Longrightarrow> session_run lo hi (NewSessionState clk) []"
| step: "session_run lo hi s cards \<Longrightarrow> (\<forall>t \<in> set (clk # op_instants op). lo \<le> t \<and> t \<le> hi) \<Longrightarrow>
    session_step clk op s = (new, s') \<Longrightarrow> session_run lo hi s' (cards @ new)"

definition cardKey :: "CorrelatedEvent \<Rightarrow> string" where
  "cardKey c = correlationKey (cSemantics c) (hd (cFlows c))"

section \<open>Lemmas\<close>

lemma wf_session_step: "wf_session s \<Longrightarrow> wf_session (snd (session_step clk op s))"
  by (cases op)
     (simp_all add: wf_session_AddPID wf_session_AddProcess wf_session_ApplyProcessSnapshot
       wf_session_AddSemanticEvent wf_session_AddNetworkFlow wf_session_TryCorrelate
       wf_session_TryCorrelateSemantic IsAgentPID_def MatchesNetworkFlow_def HasLiveAgentPID_def Let_def)

lemma session_run_wf: "session_run lo hi s cards \<Longrightarrow> wf_session s"
  by (induction rule: session_run.induct) (use wf_session_New wf_session_step in \<open>metis snd_conv\<close>)+

text \<open>Keys recorded at \<open>lo\<close> or later survive every pruning up to the end of the time to live.\<close>

definition keys_since :: "time \<Rightarrow> SessionState \<Rightarrow> bool" where
  "keys_since lo s \<longleftrightarrow> (\<forall>k t. mget (CorrelatedKeys s) k = Some t \<longrightarrow> lo \<le> t)"

definition keys_of :: "SessionState \<Rightarrow> string set" where
  "keys_of s = dom (map_of (CorrelatedKeys s))"

lemma keys_prune:
  assumes "wf_map (CorrelatedKeys s)" "keys_since lo s" "now \<le> lo + correlationCacheTTL"
  shows "mget (prune_instants correlationCacheTTL now (CorrelatedKeys s)) k = mget (CorrelatedKeys s) k"
  using assms by (fastforce simp: prune_instants_lookup keys_since_def split: option.splits)

lemma keys_pruneCaches:
  assumes "wf_session s" "keys_since lo s" "now \<le> lo + correlationCacheTTL" "now \<noteq> 0"
  shows "keys_since lo (pruneCorrelationCachesLocked clk now s)" "keys_of (pruneCorrelationCachesLocked clk now s) = keys_of s"
proof -
  have wf: "wf_map (CorrelatedKeys s)" using assms(1) by (simp add: wf_session_def)
  note k = keys_prune [OF wf assms(2,3)]
  show "keys_since lo (pruneCorrelationCachesLocked clk now s)"
    using assms(2,4) by (simp add: keys_since_def k IsZero_def)
  show "keys_of (pruneCorrelationCachesLocked clk now s) = keys_of s"
    using assms(4) by (auto simp: keys_of_def dom_def k IsZero_def)
qed

lemma keys_same_caches: "same_caches s s' \<Longrightarrow> keys_since lo s' = keys_since lo s \<and> keys_of s' = keys_of s"
  by (auto simp: same_caches_def keys_since_def keys_of_def)

lemma keys_pruneAll:
  assumes "wf_session s" "keys_since lo s" "now \<le> lo + correlationCacheTTL" "now \<noteq> 0"
  shows "keys_since lo (pruneAll now s)" "keys_of (pruneAll now s) = keys_of s"
proof -
  have p: "keys_since lo (pruneExpiredProcessesLocked now s)" "keys_of (pruneExpiredProcessesLocked now s) = keys_of s"
    using keys_same_caches [OF same_caches_prune] assms(2) by blast+
  show "keys_since lo (pruneAll now s)" "keys_of (pruneAll now s) = keys_of s"
    unfolding pruneAll_def using keys_pruneCaches [of "pruneExpiredProcessesLocked now s" lo now now] assms p by simp_all
qed

text \<open>What one attempt does to the recorded keys.\<close>

definition fresh_cards :: "SessionState \<Rightarrow> CorrelatedEvent list \<times> SessionState \<Rightarrow> bool" where
  "fresh_cards s r \<longleftrightarrow>
     keys_of s \<subseteq> keys_of (snd r) \<and>
     distinct (filter (\<lambda>k. k \<noteq> []) (map cardKey (fst r))) \<and>
     (\<forall>c \<in> set (fst r). cardKey c \<noteq> [] \<longrightarrow> cardKey c \<notin> keys_of s \<and> cardKey c \<in> keys_of (snd r))"

lemma correlationKey_ids: "correlationKey es f \<noteq> [] \<Longrightarrow> semanticIDs es \<noteq> []"
  by (auto simp: correlationKey_def Let_def)

lemma tryCorrelate_fresh:
  assumes wf: "wf_session s" and k: "keys_since lo s" and clk: "clk \<noteq> 0"
    and now: "lo \<le> flowNow clk flow" "flowNow clk flow \<le> lo + correlationCacheTTL"
  shows "fresh_cards s (tryCorrelateFlowLocked clk flow s)" "keys_since lo (snd (tryCorrelateFlowLocked clk flow s))"
proof -
  let ?r = "tryCorrelateFlowLocked clk flow s" and ?p = "prunedFor clk flow s" and ?now = "flowNow clk flow"
  have nz: "?now \<noteq> 0" using clk by (simp add: flowNow_def IsZero_def)
  have p: "keys_since lo (pruneExpiredProcessesLocked ?now s)" "keys_of (pruneExpiredProcessesLocked ?now s) = keys_of s"
    using keys_same_caches [OF same_caches_prune] k by blast+
  have P: "keys_since lo ?p" "keys_of ?p = keys_of s"
    unfolding prunedFor_def using keys_pruneCaches [OF wf_session_pruneExpired [OF wf] p(1) now(2) nz] p(2) by simp_all
  have M: "keys_since lo (markedKey ?now flow ?p)"
    using P now(1) by (auto simp: keys_since_def markedKey_keys Let_def)
  have "keys_of ?p \<subseteq> keys_of (markedKey ?now flow ?p)"
    by (auto simp: keys_of_def markedKey_keys Let_def)
  then have M2: "keys_of s \<subseteq> keys_of (markedKey ?now flow ?p)" using P(2) by simp
  have R: "CorrelatedKeys (snd ?r) \<in> {CorrelatedKeys s, CorrelatedKeys ?p, CorrelatedKeys (markedKey ?now flow ?p)}"
    unfolding tryCorrelate_unfold Let_def by (simp split: if_split)
  then show since: "keys_since lo (snd ?r)"
    using k P(1) M by (auto simp: keys_since_def)
  have "keys_of (snd ?r) \<in> {keys_of s, keys_of ?p, keys_of (markedKey ?now flow ?p)}"
    using R by (auto simp: keys_of_def)
  then have mono: "keys_of s \<subseteq> keys_of (snd ?r)" using P(2) M2 by auto
  have card: "cardKey c \<notin> keys_of s \<and> cardKey c \<in> keys_of (snd ?r)"
    if c: "c \<in> set (fst ?r)" "cardKey c \<noteq> []" for c
  proof -
    have eq: "cardKey c = correlationKey (cSemantics c) flow"
      using tryCorrelate_result(3) [OF c(1)] by (simp add: cardKey_def)
    have ids: "semanticIDs (cSemantics c) \<noteq> []" using c(2) eq correlationKey_ids by metis
    have "t + correlationCacheTTL < ?now" if "mget (CorrelatedKeys s) (cardKey c) = Some t" for t
      using tryCorrelate_key_fresh [OF wf clk c(1) ids] that by (simp add: eq)
    then have "mget (CorrelatedKeys s) (cardKey c) = None"
      using k now(2) unfolding keys_since_def by (cases "mget (CorrelatedKeys s) (cardKey c)") fastforce+
    then show ?thesis using tryCorrelate_key_recorded [OF c(1) ids] by (auto simp: keys_of_def eq)
  qed
  have "distinct (filter (\<lambda>k. k \<noteq> []) (map cardKey (fst ?r)))"
  proof (cases "fst ?r")
    case (Cons c cs)
    then have "fst ?r = [c]" using tryCorrelate_result(4) [of c clk flow s] by simp
    then show ?thesis by simp
  qed simp
  with mono card show "fresh_cards s ?r" by (simp add: fresh_cards_def)
qed

lemma fresh_cards_seq:
  assumes "fresh_cards s (cs1, s1)" "fresh_cards s1 (cs2, s2)"
  shows "fresh_cards s (filter P cs1 @ cs2, s2)"
proof -
  let ?f = "\<lambda>cs. filter (\<lambda>k. k \<noteq> []) (map cardKey cs)"
  have in1: "k \<in> set (?f (filter P cs1)) \<Longrightarrow> k \<in> keys_of s1 \<and> k \<notin> keys_of s" for k
    using assms(1) by (auto simp: fresh_cards_def)
  have in2: "k \<in> set (?f cs2) \<Longrightarrow> k \<in> keys_of s2 \<and> k \<notin> keys_of s1" for k
    using assms(2) by (auto simp: fresh_cards_def)
  have "distinct (?f (filter P cs1))"
    using assms(1) by (induction cs1) (auto simp: fresh_cards_def)
  moreover have "distinct (?f cs2)" using assms(2) by (simp add: fresh_cards_def)
  moreover have "set (?f (filter P cs1)) \<inter> set (?f cs2) = {}" using in1 in2 by blast
  ultimately have "distinct (?f (filter P cs1 @ cs2))" by simp
  then show ?thesis using assms by (auto simp: fresh_cards_def)
qed

lemma semantic_flows_fresh:
  assumes "wf_session s" "keys_since (lo - ExistingConnectionWindow) s" "clk \<noteq> 0"
    and "lo \<le> now" "now \<le> lo - ExistingConnectionWindow + correlationCacheTTL" "lo \<le> clk"
  shows "fresh_cards s (semantic_flows clk e now flows seen s) \<and>
    keys_since (lo - ExistingConnectionWindow) (snd (semantic_flows clk e now flows seen s))"
  using assms
proof (induction flows arbitrary: seen s)
  case (Cons flow flows)
  let ?r = "tryCorrelateFlowLocked clk flow s"
  let ?run = "fTS flow \<noteq> 0 \<and> fTS flow \<le> now \<and> \<not> time_sub now (fTS flow) > ExistingConnectionWindow"
  have r: "fresh_cards s ?r" "keys_since (lo - ExistingConnectionWindow) (snd ?r)" if run: ?run
  proof -
    have n: "flowNow clk flow = fTS flow" using run by (simp add: flowNow_def IsZero_def)
    have "now - fTS flow \<le> ExistingConnectionWindow"
      using run time_sub_le_iff [of ExistingConnectionWindow now "fTS flow"]
      by (simp add: window_values maxDuration_def minDuration_def)
    then have "lo - ExistingConnectionWindow \<le> flowNow clk flow"
      "flowNow clk flow \<le> lo - ExistingConnectionWindow + correlationCacheTTL"
      using run Cons.prems(4,5) by (simp_all add: n)
    from tryCorrelate_fresh [OF Cons.prems(1,2,3) this]
    show "fresh_cards s ?r" "keys_since (lo - ExistingConnectionWindow) (snd ?r)" .
  qed
  have rest: "fresh_cards (snd ?r) (semantic_flows clk e now flows seen' (snd ?r)) \<and>
      keys_since (lo - ExistingConnectionWindow) (snd (semantic_flows clk e now flows seen' (snd ?r)))" if ?run for seen'
    using Cons.prems r(2) [OF that] by (intro Cons.IH) (simp_all add: wf_session_tryCorrelate)
  have seq: "fresh_cards s (filter P (fst ?r) @ fst (semantic_flows clk e now flows seen' (snd ?r)),
      snd (semantic_flows clk e now flows seen' (snd ?r)))" if ?run for P seen'
    using fresh_cards_seq [of s "fst ?r" "snd ?r"] r(1) [OF that] rest [OF that, of seen'] by simp
  show ?case
    unfolding semantic_flows_Cons Let_def
    using Cons.IH [OF Cons.prems] seq rest Cons.prems by (auto simp: IsZero_def fresh_cards_def [of s "([], s)"])
qed (simp add: fresh_cards_def)

text \<open>The window a run must stay in: the time to live less the lookback of existing connections.\<close>

definition run_window :: duration where
  "run_window = correlationCacheTTL - ExistingConnectionWindow"

lemma fresh_cards_same_keys: "keys_of (snd r) = keys_of s \<Longrightarrow> fst r = [] \<Longrightarrow> fresh_cards s r"
  by (simp add: fresh_cards_def)

lemma keys_fold_learnSeed:
  "keys_since lo (fold (learnSeed clk children ps) seeds t) = keys_since lo t \<and>
   keys_of (fold (learnSeed clk children ps) seeds t) = keys_of t"
proof (induction seeds arbitrary: t)
  case (Cons p seeds)
  have "keys_since lo (learnSeed clk children ps p t) = keys_since lo t \<and> keys_of (learnSeed clk children ps p t) = keys_of t"
    by (rule keys_same_caches) simp
  with Cons.IH show ?case by simp
qed simp

lemma keys_update_frame [simp]:
  "keys_since lo (s\<lparr>Events := x1\<rparr>) = keys_since lo s" "keys_of (s\<lparr>Events := x1\<rparr>) = keys_of s"
  "keys_since lo (s\<lparr>Flows := x2\<rparr>) = keys_since lo s" "keys_of (s\<lparr>Flows := x2\<rparr>) = keys_of s"
  "keys_since lo (s\<lparr>StartTime := x3\<rparr>) = keys_since lo s" "keys_of (s\<lparr>StartTime := x3\<rparr>) = keys_of s"
  "keys_since lo (s\<lparr>HasSensitive := x4\<rparr>) = keys_since lo s" "keys_of (s\<lparr>HasSensitive := x4\<rparr>) = keys_of s"
  "keys_since lo (updateActiveToolSpanLocked clk e s) = keys_since lo s"
  "keys_of (updateActiveToolSpanLocked clk e s) = keys_of s"
  "keys_since lo (addProcessLocked clk i s) = keys_since lo s" "keys_of (addProcessLocked clk i s) = keys_of s"
  by (simp_all add: keys_since_def keys_of_def)

text \<open>Every operation that does not correlate leaves the recorded keys alone.\<close>

lemma quiet_step_keys:
  assumes "wf_session s" "keys_since lo s" "clk \<le> lo + correlationCacheTTL" "clk \<noteq> 0"
    and "\<And>f. op \<noteq> OpTryCorrelate f" "\<And>e. op \<noteq> OpTrySemantic e"
  shows "fst (session_step clk op s) = [] \<and> keys_since lo (snd (session_step clk op s)) \<and>
    keys_of (snd (session_step clk op s)) = keys_of s"
proof -
  note P = keys_pruneCaches [OF assms(1-4), of clk] and A = keys_pruneAll [OF assms(1-4)]
  have D: "keys_since lo (dropChanged t ps) = keys_since lo t" "keys_of (dropChanged t ps) = keys_of t" for t ps
    using keys_same_caches [OF same_caches_dropChanged] by blast+
  show ?thesis
  proof (cases op)
    case (OpSnapshot ps)
    then show ?thesis
      using A assms(2) by (simp add: ApplyProcessSnapshot_def Let_def keys_fold_learnSeed D)
  qed (use assms P A in \<open>simp_all add: AddPID_def AddProcess_def AddSemanticEvent_def AddNetworkFlow_def
        IsAgentPID_def MatchesNetworkFlow_def HasLiveAgentPID_def Let_def\<close>)
qed

lemma session_step_fresh:
  assumes wf: "wf_session s" and k: "keys_since (lo - ExistingConnectionWindow) s"
    and lo: "0 < lo" and hi: "hi \<le> lo + run_window"
    and inst: "\<forall>t \<in> set (clk # op_instants op). lo \<le> t \<and> t \<le> hi"
  shows "fresh_cards s (session_step clk op s) \<and>
    keys_since (lo - ExistingConnectionWindow) (snd (session_step clk op s))"
proof -
  let ?lo = "lo - ExistingConnectionWindow"
  have clk: "lo \<le> clk" "clk \<le> ?lo + correlationCacheTTL" "clk \<noteq> 0"
    using inst lo hi by (simp_all add: run_window_def)
  have w: "?lo \<le> lo" by (simp add: window_values)
  have P: "wf_session (pruneCorrelationCachesLocked clk clk s)" "keys_since ?lo (pruneCorrelationCachesLocked clk clk s)"
    "keys_of (pruneCorrelationCachesLocked clk clk s) = keys_of s"
    using keys_pruneCaches [OF wf k clk(2,3)] wf by simp_all
  consider (flow) f where "op = OpTryCorrelate f" | (sem) e where "op = OpTrySemantic e"
    | (quiet) "\<And>f. op \<noteq> OpTryCorrelate f" "\<And>e. op \<noteq> OpTrySemantic e" by blast
  then show ?thesis
  proof cases
    case flow
    have "lo \<le> flowNow clk f" "flowNow clk f \<le> ?lo + correlationCacheTTL"
      using inst flow clk hi by (auto simp: flowNow_def IsZero_def run_window_def split: if_split_asm)
    with w have "?lo \<le> flowNow clk f" "flowNow clk f \<le> ?lo + correlationCacheTTL" by linarith+
    from tryCorrelate_fresh [OF P(1,2) clk(3) this] P(3) show ?thesis
      by (simp add: flow TryCorrelate_def fresh_cards_def)
  next
    case sem
    define now where "now = (if IsZero (sTS e) then clk else sTS e)"
    define s1 where "s1 = pruneCorrelationCachesLocked clk now (pruneExpiredProcessesLocked now s)"
    have now: "lo \<le> now" "now \<le> ?lo + correlationCacheTTL" "now \<noteq> 0"
      using inst sem clk hi lo by (auto simp: now_def IsZero_def run_window_def split: if_split_asm)
    have p: "keys_since ?lo (pruneExpiredProcessesLocked now s)" "keys_of (pruneExpiredProcessesLocked now s) = keys_of s"
      using keys_same_caches [OF same_caches_prune] k by blast+
    have S: "wf_session s1" "keys_since ?lo s1" "keys_of s1 = keys_of s"
      unfolding s1_def using keys_pruneCaches [OF wf_session_pruneExpired [OF wf] p(1) now(2,3), of clk] p(2) wf
      by simp_all
    have "session_step clk op s = (if \<not> hasSensitiveTag e \<and> \<not> isEgressLike e then ([], s)
        else semantic_flows clk e now (rev (Flows s1)) [] s1)"
      by (simp add: sem TryCorrelateSemantic_def Let_def now_def s1_def)
    with semantic_flows_fresh [OF S(1,2) clk(3) now(1,2) clk(1), of e "rev (Flows s1)" "[]"] S(3) k
    show ?thesis by (simp add: fresh_cards_def)
  next
    case quiet
    from quiet_step_keys [OF wf k clk(2,3) this] show ?thesis
      by (auto intro: fresh_cards_same_keys)
  qed
qed

lemma session_run_fresh:
  assumes "session_run lo hi s cards" "0 < lo" "hi \<le> lo + run_window"
  shows "keys_since (lo - ExistingConnectionWindow) s \<and> distinct (filter (\<lambda>k. k \<noteq> []) (map cardKey cards)) \<and>
    (\<forall>c \<in> set cards. cardKey c \<noteq> [] \<longrightarrow> cardKey c \<in> keys_of s)"
  using assms
proof (induction rule: session_run.induct)
  case (start clk)
  then show ?case by (simp add: keys_since_def NewSessionState_def)
next
  case (step s cards clk op new s')
  then have IH: "keys_since (lo - ExistingConnectionWindow) s" "distinct (filter (\<lambda>k. k \<noteq> []) (map cardKey cards))"
    "\<And>c. c \<in> set cards \<Longrightarrow> cardKey c \<noteq> [] \<Longrightarrow> cardKey c \<in> keys_of s" by auto
  from session_step_fresh [OF session_run_wf [OF step(1)] IH(1) step.prems step(2)] step(3)
  have f: "fresh_cards s (new, s')" "keys_since (lo - ExistingConnectionWindow) s'" by simp_all
  have "set (filter (\<lambda>k. k \<noteq> []) (map cardKey cards)) \<inter> set (filter (\<lambda>k. k \<noteq> []) (map cardKey new)) = {}"
  proof (rule ccontr)
    assume "\<not> ?thesis"
    then obtain c d where "c \<in> set cards" "d \<in> set new" "cardKey c = cardKey d" "cardKey d \<noteq> []" by auto
    then show False using IH(3) [of c] f(1) by (auto simp: fresh_cards_def)
  qed
  then show ?case using IH f by (auto simp: fresh_cards_def)
qed

end
