(* ===== verification/Corr_Claims.thy ===== *)
theory Corr_Claims
  imports Corr_Machine
begin

text \<open>
  The properties of the correlator, with an example session: a hook event that reads a sensitive file
  and a flow its child process opens two seconds later.
\<close>

section \<open>The example session\<close>

definition demoHook :: SemanticEvent where
  "demoHook = zeroSemantic\<lparr>sSchema := SchemaSemanticV0, sTS := 1000 * Second,
     sAgent := zeroAgent\<lparr>aID := ''claude'', aName := ''Claude Code''\<rparr>, sSession := \<lparr>sessID = ''s1''\<rparr>,
     sEvent := ''PreToolUse'', sTool := ''Read'', sTarget := ''/work/.env'', sCWD := ''/work'',
     sPID := 200, sPPID := 100, sTags := Some [''sensitive_read''], sToolUseID := ''toolu_1'',
     sInputSummary := Some []\<rparr>"

definition demoFlow :: NetworkFlowEvent where
  "demoFlow = zeroFlow\<lparr>fSchema := SchemaNetworkV0, fTS := 1002 * Second, fFlowID := ''f1'', fPID := 300,
     fPPID := 200, fProcessPath := ''/usr/bin/curl'', fRemote := ''203.0.113.9:443'',
     fLocal := ''10.0.0.2:50000'', fProtocol := ''tcp'', fDirection := ''out'', fState := ''new'',
     fBytesOut := 2048\<rparr>"

definition demoClock :: time where "demoClock = 1002 * Second"

definition demoState :: SessionState where
  "demoState = AddNetworkFlow demoClock demoFlow
     (AddSemanticEvent (1001 * Second) demoHook (NewSessionState (1000 * Second)))"

definition demoCard :: CorrelatedEvent where
  "demoCard = hd (fst (tryCorrelateFlowLocked demoClock demoFlow demoState))"

lemma demo_result: "fst (tryCorrelateFlowLocked demoClock demoFlow demoState) = [demoCard]"
proof -
  have "length (fst (tryCorrelateFlowLocked demoClock demoFlow demoState)) = 1" by code_simp
  then show ?thesis unfolding demoCard_def by (cases "fst (tryCorrelateFlowLocked demoClock demoFlow demoState)") simp_all
qed

lemma demo_wf: "wf_session demoState"
  unfolding demoState_def by (intro wf_session_AddNetworkFlow wf_session_AddSemanticEvent wf_session_New)

lemma demo_run:
  "\<exists>s. session_run (1000 * Second) (1002 * Second) s (fst (TryCorrelate demoClock demoFlow demoState))"
proof -
  let ?run = "session_run (1000 * Second) (1002 * Second)"
  let ?s0 = "NewSessionState (1000 * Second)" and ?s1 = "AddSemanticEvent (1001 * Second) demoHook (NewSessionState (1000 * Second))"
  have "?run ?s0 []" by (rule session_run.start) (simp_all add: Second_def)
  then have "?run ?s1 ([] @ [])"
    by (rule session_run.step [where op = "OpAddSemantic demoHook" and clk = "1001 * Second"]) (simp_all add: Second_def)
  then have "?run demoState (([] @ []) @ [])"
    by (rule session_run.step [where op = "OpAddFlow demoFlow" and clk = demoClock])
       (simp_all add: Second_def demoClock_def demoState_def)
  then have "?run (snd (TryCorrelate demoClock demoFlow demoState))
      ((([] @ []) @ []) @ fst (TryCorrelate demoClock demoFlow demoState))"
    by (rule session_run.step [where op = "OpTryCorrelate demoFlow" and clk = demoClock])
       (simp_all add: Second_def demoClock_def demoFlow_def)
  then show ?thesis by auto
qed

section \<open>Evidence\<close>

text \<open>C1. Every card the correlator returns for a flow rests on evidence: the flow is external, the card
  embeds that flow and at least one recent hook event, each embedded event is sensitive or
  egress-like, and the reasons name both a timing window and a relationship between the processes or
  agent sessions. A session that merely touched something sensitive is never enough.\<close>

theorem card_rests_on_evidence:
  assumes "c \<in> set (fst (tryCorrelateFlowLocked clk flow s))"
  shows "IsExternal flow \<and> cFlows c = [flow] \<and> cSemantics c \<noteq> [] \<and>
    (\<forall>e \<in> set (cSemantics c). e \<in> set (Events s) \<and> (hasSensitiveTag e \<or> isEgressLike e) \<and>
       eventTiming flow (flowNow clk flow) e \<noteq> [] \<and> eventMatched (prunedFor clk flow s) flow e \<noteq> []) \<and>
    (\<exists>t \<in> set timingReasonNames. t \<in> set (cReasons c)) \<and>
    (\<exists>r \<in> set relationshipReasons. r \<in> set (cReasons c))"
proof -
  let ?p = "prunedFor clk flow s" and ?now = "flowNow clk flow"
  note R = tryCorrelate_result [OF assms]
  have "e \<in> set (Events s) \<and> (hasSensitiveTag e \<or> isEgressLike e) \<and> eventTiming flow ?now e \<noteq> [] \<and>
      eventMatched ?p flow e \<noteq> []" if "e \<in> set (relatedEvents ?p flow ?now)" for e
    using that eventReasons_Some(2,3,4) [of ?p flow ?now e] by (auto simp: relatedEvents_reasons)
  then show ?thesis using R(1,2) buildCorrelation_reason [OF R(2), of clk] by (simp add: R(3))
qed

theorem card_rests_on_evidence_witness:
  "IsExternal demoFlow \<and> cFlows demoCard = [demoFlow] \<and> cSemantics demoCard = [demoHook]"
proof -
  have "demoCard \<in> set (fst (tryCorrelateFlowLocked demoClock demoFlow demoState))" by (simp add: demo_result)
  note this [THEN card_rests_on_evidence]
  moreover have "cSemantics demoCard = [demoHook]" by code_simp
  ultimately show ?thesis by simp
qed

text \<open>C16. A card is a valid linked-evidence record by the repository's own contract: when the hook events
  of the session and the flow pass validation, \<open>ValidateCorrelatedEvent\<close> accepts the card, and the
  only possible objection is the wording of its summary.\<close>

theorem card_is_valid:
  assumes "c \<in> set (fst (tryCorrelateFlowLocked clk flow s))" "clk \<noteq> 0"
    and "\<forall>e \<in> set (Events s). ValidateSemanticEvent (NormalizeSemanticEvent clk' e) = None"
    and "ValidateNetworkFlow (NormalizeNetworkFlow clk' flow) = None"
  shows "ValidateCorrelatedEvent clk' c =
    (if usesOverclaimingLanguage (cSummary c) then Some OverclaimingSummary else None)"
  unfolding tryCorrelate_result(3) [OF assms(1)]
  using assms tryCorrelate_result(2) [OF assms(1)] by (intro buildCorrelation_valid) simp_all

theorem card_is_valid_witness: "ValidateCorrelatedEvent demoClock demoCard = None"
proof -
  have "demoCard \<in> set (fst (tryCorrelateFlowLocked demoClock demoFlow demoState))" by (simp add: demo_result)
  moreover have "demoClock \<noteq> 0" by code_simp
  moreover have "\<forall>e \<in> set (Events demoState). ValidateSemanticEvent (NormalizeSemanticEvent demoClock e) = None"
  proof -
    have "Events demoState = [demoHook]" by code_simp
    moreover have "ValidateSemanticEvent (NormalizeSemanticEvent demoClock demoHook) = None" by code_simp
    ultimately show ?thesis by simp
  qed
  moreover have "ValidateNetworkFlow (NormalizeNetworkFlow demoClock demoFlow) = None" by code_simp
  ultimately have "ValidateCorrelatedEvent demoClock demoCard =
      (if usesOverclaimingLanguage (cSummary demoCard) then Some OverclaimingSummary else None)"
    by (rule card_is_valid)
  moreover have "\<not> usesOverclaimingLanguage (cSummary demoCard)" by code_simp
  ultimately show ?thesis by simp
qed

section \<open>Runs\<close>

text \<open>C3. Whatever operations the daemon performs on a session, in whatever order, the session keeps its
  invariant: process records sit under their own positive PID, every session PID has a record, every
  record marked as an agent is a session PID, the ring buffers and the strength table stay within
  their bounds, and every active tool span is an egress span filed under its own identifier.\<close>

theorem session_invariant:
  assumes "session_run lo hi s cards"
  shows "wf_processes s \<and> wf_spans (ActiveToolSpans s) \<and>
    length (Events s) \<le> 50 \<and> length (Flows s) \<le> 100 \<and> length (SemanticBestStrength s) \<le> 2098"
  using session_run_wf [OF assms]
  by (simp add: wf_session_def MaxRecentEvents_def MaxRecentFlows_def maxCorrelationEntries_def)

theorem session_invariant_witness: "\<exists>s. wf_processes s \<and> length (Events s) \<le> 50"
proof -
  obtain s where "session_run (1000 * Second) (1002 * Second) s (fst (TryCorrelate demoClock demoFlow demoState))"
    using demo_run by blast
  from session_invariant [OF this] show ?thesis by blast
qed





end
