(* ===== verification/Agent.thy ===== *)
theory Agent
  imports Prelude
begin

text \<open>
  \<open>internal/agent/agent.go\<close>: the hook payload the emitter reads from Claude Code and the response it
  writes back. \<open>json.Unmarshal\<close> into the wire record is the parameter of \<open>parseWire\<close>.
\<close>

record HookPayload =
  pSessionID :: string
  pHookEventName :: string
  pToolName :: string
  pToolInput :: "jobject option"
  pToolUseID :: string
  pToolOutput :: string
  pCWD :: string
  pTranscriptPath :: string

record wirePayload =
  wHookEventName :: string
  wHookEventNameAlt :: string
  wSessionID :: string
  wToolName :: string
  wToolInput :: "jobject option"
  wToolUseID :: string
  wToolOutput :: string
  wCWD :: string
  wTranscriptPath :: string

definition effectiveEventName :: "wirePayload \<Rightarrow> string" where
  "effectiveEventName w = (if wHookEventName w \<noteq> [] then wHookEventName w else wHookEventNameAlt w)"

definition parseWire :: "(string \<Rightarrow> string + wirePayload) \<Rightarrow> string \<Rightarrow> string + HookPayload" where
  "parseWire unmarshal raw =
     (case unmarshal raw of
        Inl err \<Rightarrow> Inl err
      | Inr w \<Rightarrow> Inr \<lparr>pSessionID = wSessionID w, pHookEventName = effectiveEventName w,
          pToolName = wToolName w, pToolInput = wToolInput w, pToolUseID = wToolUseID w,
          pToolOutput = wToolOutput w, pCWD = wCWD w, pTranscriptPath = wTranscriptPath w\<rparr>)"

text \<open>The double quote is \<open>CHR 0x22\<close>; \<open>json_field\<close> renders one member of an object of strings.\<close>

definition json_field :: "string \<Rightarrow> string \<Rightarrow> string" where
  "json_field k v = [CHR 0x22] @ k @ [CHR 0x22] @ '':'' @ v"

definition json_text :: "string \<Rightarrow> string" where
  "json_text s = [CHR 0x22] @ s @ [CHR 0x22]"

definition ClaudeAgent_ID :: string where "ClaudeAgent_ID = ''claude''"
definition ClaudeAgent_Name :: string where "ClaudeAgent_Name = ''Claude Code''"

definition ParsePreToolUse :: "(string \<Rightarrow> string + wirePayload) \<Rightarrow> string \<Rightarrow> string + HookPayload" where
  "ParsePreToolUse unmarshal raw = parseWire unmarshal raw"

definition ParsePostToolUse :: "(string \<Rightarrow> string + wirePayload) \<Rightarrow> string \<Rightarrow> string + HookPayload" where
  "ParsePostToolUse unmarshal raw = parseWire unmarshal raw"

definition claudeProceedPre :: string where
  "claudeProceedPre = ''{'' @ json_field ''hookSpecificOutput'' (''{'' @
     json_field ''hookEventName'' (json_text ''PreToolUse'') @ '','' @
     json_field ''permissionDecision'' (json_text ''allow'') @ ''}'') @ ''}''"

text \<open>The nil slice of the \<open>PostToolUse\<close> branch is the empty string: callers only use its length.\<close>

definition FormatProceedResponse :: "string \<Rightarrow> string" where
  "FormatProceedResponse eventName =
     (if eventName = ''PreToolUse'' then claudeProceedPre
      else if eventName = ''PostToolUse'' then []
      else ''{}'')"

definition MustProceed :: "string \<Rightarrow> string" where
  "MustProceed eventName =
     (let b = FormatProceedResponse eventName
      in if b = [] then (if eventName = ''PreToolUse'' then claudeProceedPre else ''{}'')
         else b)"

text \<open>Whatever the event, the hook answers with an object, and never with a denial: the sensor does
  not block the agent.\<close>

lemma MustProceed_cases:
  "MustProceed eventName = (if eventName = ''PreToolUse'' then claudeProceedPre else ''{}'')"
  by (simp add: MustProceed_def FormatProceedResponse_def claudeProceedPre_def Let_def)

lemma MustProceed_nonempty: "MustProceed eventName \<noteq> []"
  by (simp add: MustProceed_cases claudeProceedPre_def)

end
