(* ===== verification/Classify.thy ===== *)
theory Classify
  imports Heuristics Agent Go_Path "HOL-Library.While_Combinator"
begin

text \<open>
  \<open>internal/classify/classify.go\<close>: the labels a tool call gets from its tool name, its target path
  and its shell command. \<open>cfg\<close> is the package variable \<open>heuristics\<close>.
\<close>

section \<open>Definitions\<close>

definition TagSensitiveRead :: string where "TagSensitiveRead = ''sensitive_read''"
definition TagExternalEgress :: string where "TagExternalEgress = ''external_egress_attempt''"
definition TagMCP :: string where "TagMCP = ''mcp_tool_use''"
definition TagPostureChange :: string where "TagPostureChange = ''posture_change''"

lemmas tag_defs = TagSensitiveRead_def TagExternalEgress_def TagMCP_def TagPostureChange_def

definition quote_cutset :: string where "quote_cutset = [CHR 0x27, CHR 0x22, CHR 0x60]"
definition slash_cutset :: string where "slash_cutset = [CHR ''/'', CHR 0x5C]"

definition is_shell_break :: "char \<Rightarrow> bool" where
  "is_shell_break c \<longleftrightarrow>
     c \<in> set [CHR 0x20, CHR 0x09, CHR 0x0A, CHR 0x0D, CHR '';'', CHR ''|'', CHR ''&'', CHR ''('',
               CHR '')'', CHR ''<'', CHR ''>'', CHR ''='', CHR '','']"

definition shellTokens :: "string \<Rightarrow> string list" where
  "shellTokens command = filter (\<lambda>f. f \<noteq> []) (map TrimSpace (FieldsFunc is_shell_break command))"

definition isSensitivePath :: "ClassifyHeuristics \<Rightarrow> string \<Rightarrow> bool" where
  "isSensitivePath cfg p =
     (if p = [] then False else list_ex (\<lambda>s. Contains (ToLower p) s) (SensitivePaths cfg))"

definition isPostureFile :: "string \<Rightarrow> bool" where
  "isPostureFile p =
     (let lp = ToLower p
      in HasSuffix lp ''claude.md'' \<or> HasSuffix lp ''.mcp.json'' \<or> Contains lp ''settings.json'')"

definition tokenLooksPathLike :: "string \<Rightarrow> bool" where
  "tokenLooksPathLike token \<longleftrightarrow> ContainsAny token ''/.'' \<or> HasPrefix token ''~''"

definition isSensitiveStandaloneName :: "ClassifyHeuristics \<Rightarrow> string \<Rightarrow> bool" where
  "isSensitiveStandaloneName cfg token =
     (let t = ToLower (Trim token slash_cutset)
      in list_ex (\<lambda>s. let s' = ToLower (Trim s slash_cutset) in \<not> ContainsAny s' ''*.'' \<and> t = s')
           (SensitivePaths cfg))"

definition isSensitiveCommandToken :: "ClassifyHeuristics \<Rightarrow> string \<Rightarrow> bool" where
  "isSensitiveCommandToken cfg token0 =
     (let t0 = TrimSpace token0
      in if t0 = [] then False
         else let token = TrimRight (Trim (Trim t0 quote_cutset) ''[]{}()<>;,'') '':''
              in if token = [] then False
                 else if tokenLooksPathLike token \<and> isSensitivePath cfg token then True
                 else let base = Base token
                      in if base \<noteq> token \<and> isSensitivePath cfg base then True
                         else isSensitiveStandaloneName cfg token)"

definition commandReferencesSensitivePath :: "ClassifyHeuristics \<Rightarrow> string \<Rightarrow> bool" where
  "commandReferencesSensitivePath cfg command = list_ex (isSensitiveCommandToken cfg) (shellTokens command)"

definition isNetworkCommandToken :: "ClassifyHeuristics \<Rightarrow> string \<Rightarrow> bool" where
  "isNetworkCommandToken cfg token =
     (let base = Base (TrimRight (Trim token quote_cutset) '':;,&|()'')
      in list_ex (\<lambda>n. base = n) (NetworkCommandTokens cfg))"

definition isLocalOnlyCommand :: "ClassifyHeuristics \<Rightarrow> string \<Rightarrow> bool" where
  "isLocalOnlyCommand cfg command = list_ex (\<lambda>l. Contains command l) (LocalOnlyHosts cfg)"

lemma FieldsFunc_drop: "FieldsFunc P s = FieldsFunc P (dropWhile P s)"
  by (subst (1 2) FieldsFunc.simps) simp

lemma length_Join_FieldsFunc: "length (Join (FieldsFunc P s) [c]) \<le> length s"
proof (induction "length s" arbitrary: s rule: less_induct)
  case less
  define t where "t = dropWhile P s"
  define u where "u = dropWhile (\<lambda>c. \<not> P c) t"
  show ?case
  proof (cases "t = []")
    case True
    then have "FieldsFunc P s = []" unfolding t_def by (subst FieldsFunc.simps) (simp only: Let_def if_True simp_thms)
    then show ?thesis by simp
  next
    case False
    then have eq: "FieldsFunc P s = takeWhile (\<lambda>c. \<not> P c) t # FieldsFunc P u"
      unfolding t_def u_def by (subst FieldsFunc.simps) (simp only: Let_def if_False simp_thms)
    have len: "length (takeWhile (\<lambda>c. \<not> P c) t) + length u = length t" "length t \<le> length s"
      unfolding u_def t_def
      by (metis length_append takeWhile_dropWhile_id) (rule length_dropWhile_le)
    show ?thesis
    proof (cases "FieldsFunc P u")
      case Nil
      then show ?thesis using eq len by simp
    next
      case (Cons f fs)
      then have "u \<noteq> []" by (subst (asm) FieldsFunc.simps) (auto split: if_splits)
      then have "P (hd u)" unfolding u_def using hd_dropWhile by blast
      then have "FieldsFunc P u = FieldsFunc P (tl u)"
        using \<open>u \<noteq> []\<close> FieldsFunc_drop [of P u] FieldsFunc_drop [of P "tl u"] by (cases u) simp_all
      moreover have "length (Join (FieldsFunc P (tl u)) [c]) \<le> length (tl u)"
        using \<open>u \<noteq> []\<close> len by (intro less) (cases u; simp)
      ultimately show ?thesis using eq len Cons \<open>u \<noteq> []\<close> by (cases u) simp_all
    qed
  qed
qed

lemma length_Join_tl: "x \<noteq> [] \<Longrightarrow> length (Join xs [c]) < length (Join (x # xs) [c])"
  by (cases xs) auto

function normalize_command_loop :: "string \<Rightarrow> string" where
  "normalize_command_loop cmd =
     (case Fields cmd of
        [] \<Rightarrow> cmd
      | p # ps \<Rightarrow> if \<not> Contains p ''='' then cmd else normalize_command_loop (Join ps '' ''))"
  by pat_completeness auto
termination
proof (relation "measure length", goal_cases)
  case (2 cmd p ps)
  then have "p \<noteq> []" by (auto simp: Contains_def)
  then have "length (Join ps '' '') < length (Join (Fields cmd) '' '')"
    using 2 by (simp add: length_Join_tl)
  also have "\<dots> \<le> length cmd" unfolding Fields_def by (rule length_Join_FieldsFunc)
  finally show ?case by simp
qed simp

declare normalize_command_loop.simps [simp del]

definition NormalizeCommand :: "string \<Rightarrow> string" where
  "NormalizeCommand cmd = TrimSpace (normalize_command_loop (TrimSpace cmd))"

definition isExternalEgressCommand :: "ClassifyHeuristics \<Rightarrow> string \<Rightarrow> bool" where
  "isExternalEgressCommand cfg command =
     (let normalized = NormalizeCommand command
      in if normalized = [] then False
         else let lc = ToLower normalized
              in if isLocalOnlyCommand cfg lc then False
                 else if Contains lc ''http://'' \<or> Contains lc ''https://'' then True
                 else list_ex (isNetworkCommandToken cfg) (shellTokens lc))"

definition isExplicitEgressTool :: "string \<Rightarrow> bool" where
  "isExplicitEgressTool tool \<longleftrightarrow> EqualFold tool ''WebFetch'' \<or> EqualFold tool ''WebSearch''"

definition isReadLikeTool :: "string \<Rightarrow> bool" where
  "isReadLikeTool tool = (if tool = ''Read'' then True else Contains (ToLower tool) ''read'')"

definition classifyStrings :: "ClassifyHeuristics \<Rightarrow> string \<Rightarrow> string \<Rightarrow> string \<Rightarrow> string list" where
  "classifyStrings cfg tool target command =
     (if (isReadLikeTool tool \<or> tool = ''Bash'') \<and>
         (isSensitivePath cfg target \<or> (tool = ''Bash'' \<and> commandReferencesSensitivePath cfg command))
      then [TagSensitiveRead] else []) @
     (if isExplicitEgressTool tool then [TagExternalEgress] else []) @
     (if tool = ''Bash'' \<and> isExternalEgressCommand cfg command then [TagExternalEgress] else []) @
     (if HasPrefix tool ''mcp__'' \<or> HasPrefix tool ''MCP'' then [TagMCP] else []) @
     (if (tool = ''Edit'' \<or> tool = ''Write'') \<and> isPostureFile target then [TagPostureChange] else [])"

text \<open>The two dynamic types \<open>extract\<close> knows, and every other one.\<close>

datatype payload = PHook HookPayload | PMap jobject | POther

definition nonempty_string :: "jobject option \<Rightarrow> string \<Rightarrow> string" where
  "nonempty_string m key = (case jstring m key of Some s \<Rightarrow> s | None \<Rightarrow> [])"

fun as_object :: "json option \<Rightarrow> jobject option" where
  "as_object (Some (JObj m)) = Some m"
| "as_object _ = None"

definition input_target :: "jobject option \<Rightarrow> string" where
  "input_target ti =
     (let fp = nonempty_string ti ''file_path''
      in if fp \<noteq> [] then fp else nonempty_string ti ''path'')"

fun extract_payload :: "payload \<Rightarrow> string \<times> string \<times> string" where
  "extract_payload (PHook p) = (pToolName p, input_target (pToolInput p), nonempty_string (pToolInput p) ''command'')"
| "extract_payload (PMap m) =
     (let ti = as_object (mget m ''tool_input'')
      in (nonempty_string (Some m) ''tool_name'', input_target ti, nonempty_string ti ''command''))"
| "extract_payload POther = ([], [], [])"

definition ClassifyPayload :: "ClassifyHeuristics \<Rightarrow> payload \<Rightarrow> string list" where
  "ClassifyPayload cfg p = (case extract_payload p of (tool, target, cmd) \<Rightarrow> classifyStrings cfg tool target cmd)"

text \<open>The other entry points; the working directory they take is not looked at.\<close>

definition Classify :: "ClassifyHeuristics \<Rightarrow> payload \<Rightarrow> string \<Rightarrow> string list" where
  "Classify cfg p cwd = (case extract_payload p of (tool, target, cmd) \<Rightarrow> classifyStrings cfg tool target cmd)"

definition ClassifyStrings :: "ClassifyHeuristics \<Rightarrow> string \<Rightarrow> string \<Rightarrow> string \<Rightarrow> string list" where
  "ClassifyStrings cfg tool target command = classifyStrings cfg tool target command"

definition ClassifyForPayload :: "ClassifyHeuristics \<Rightarrow> string \<Rightarrow> string \<Rightarrow> string \<Rightarrow> string list" where
  "ClassifyForPayload cfg toolName target command = ClassifyStrings cfg toolName target command"

definition ClassifyEvent :: "ClassifyHeuristics \<Rightarrow> payload \<Rightarrow> string \<Rightarrow> string list" where
  "ClassifyEvent cfg p cwd = ClassifyPayload cfg p"

definition IsSensitivePath :: "ClassifyHeuristics \<Rightarrow> string \<Rightarrow> string \<Rightarrow> bool" where
  "IsSensitivePath cfg p unused = isSensitivePath cfg p"

lemma entry_points_agree:
  "Classify cfg p cwd = ClassifyPayload cfg p" "ClassifyEvent cfg p cwd = ClassifyPayload cfg p"
  "ClassifyForPayload cfg tool target command = classifyStrings cfg tool target command"
  by (simp_all add: Classify_def ClassifyPayload_def ClassifyEvent_def ClassifyForPayload_def ClassifyStrings_def)

section \<open>Lemmas: words of a command\<close>

lemma FieldsFunc_Nil [simp]: "FieldsFunc P [] = []"
  by (subst FieldsFunc.simps) simp

lemma FieldsFunc_skip: "P c \<Longrightarrow> FieldsFunc P (c # s) = FieldsFunc P s"
  using FieldsFunc_drop [of P "c # s"] FieldsFunc_drop [of P s] by simp

lemma FieldsFunc_word:
  "\<not> P c \<Longrightarrow> FieldsFunc P (c # s) =
     (c # takeWhile (\<lambda>c. \<not> P c) s) # FieldsFunc P (dropWhile (\<lambda>c. \<not> P c) s)"
  by (subst FieldsFunc.simps) simp

lemma FieldsFunc_scan_induct [case_names Nil sep word]:
  assumes "Q []" "\<And>c s. P c \<Longrightarrow> Q s \<Longrightarrow> Q (c # s)"
    "\<And>c s. \<not> P c \<Longrightarrow> Q (dropWhile (\<lambda>c. \<not> P c) s) \<Longrightarrow> Q (c # s)"
  shows "Q s"
proof (induction "length s" arbitrary: s rule: less_induct)
  case less
  show ?case
  proof (cases s)
    case (Cons c cs)
    have "Q cs" "Q (dropWhile (\<lambda>c. \<not> P c) cs)"
      using less [of cs] less [of "dropWhile (\<lambda>c. \<not> P c) cs"] length_dropWhile_le [of "\<lambda>c. \<not> P c" cs] Cons
      by simp_all
    then show ?thesis using Cons assms(2,3) by blast
  qed (simp add: assms(1))
qed

lemma FieldsFunc_fields:
  "f \<in> set (FieldsFunc P s) \<Longrightarrow> f \<noteq> [] \<and> (\<forall>c \<in> set f. \<not> P c)"
proof (induction s rule: FieldsFunc_scan_induct [where P = P])
  case (word c s)
  have "\<forall>d \<in> set (takeWhile (\<lambda>c. \<not> P c) s). \<not> P d"
    using set_takeWhileD [of _ "\<lambda>c. \<not> P c" s] by blast
  with word show ?case by (metis FieldsFunc_word list.distinct(1) set_ConsD)
qed (simp_all add: FieldsFunc_skip)

lemma FieldsFunc_append_word:
  assumes "f \<noteq> []" "\<forall>c \<in> set f. \<not> P c" "s = [] \<or> P (hd s)"
  shows "FieldsFunc P (f @ s) = f # FieldsFunc P s"
proof -
  obtain c cs where f: "f = c # cs" using assms(1) by (cases f) auto
  have "takeWhile (\<lambda>c. \<not> P c) s = []" "dropWhile (\<lambda>c. \<not> P c) s = s"
    using assms(3) by (cases s; simp)+
  then show ?thesis using assms f by (simp add: FieldsFunc_word takeWhile_append2 dropWhile_append2)
qed

lemma FieldsFunc_Join:
  assumes "P c" "\<And>f. f \<in> set fs \<Longrightarrow> f \<noteq> [] \<and> (\<forall>c \<in> set f. \<not> P c)"
  shows "FieldsFunc P (Join fs [c]) = fs"
  using assms
proof (induction fs "[c]" rule: Join.induct)
  case (2 x)
  then show ?case using FieldsFunc_append_word [of x P "[]"] by simp
next
  case (3 x y ys)
  have "FieldsFunc P (Join (y # ys) [c]) = y # ys" using 3 by auto
  moreover have "FieldsFunc P (x @ c # Join (y # ys) [c]) = x # FieldsFunc P (c # Join (y # ys) [c])"
    using 3 by (intro FieldsFunc_append_word) auto
  ultimately show ?case using 3(2) by (simp add: FieldsFunc_skip)
qed simp

lemma FieldsFunc_all: "\<forall>c \<in> set s. P c \<Longrightarrow> FieldsFunc P s = []"
  by (induction s) (simp_all add: FieldsFunc_skip)

lemma scan_append_seps:
  assumes "\<forall>c \<in> set w. P c"
  shows "dropWhile (\<lambda>c. \<not> P c) (s @ w) = dropWhile (\<lambda>c. \<not> P c) s @ w"
    "takeWhile (\<lambda>c. \<not> P c) (s @ w) = takeWhile (\<lambda>c. \<not> P c) s"
proof -
  have "takeWhile (\<lambda>c. \<not> P c) w = []" "dropWhile (\<lambda>c. \<not> P c) w = w" using assms by (cases w; simp)+
  then show "dropWhile (\<lambda>c. \<not> P c) (s @ w) = dropWhile (\<lambda>c. \<not> P c) s @ w"
    "takeWhile (\<lambda>c. \<not> P c) (s @ w) = takeWhile (\<lambda>c. \<not> P c) s"
    by (induction s) auto
qed

lemma FieldsFunc_append_seps:
  assumes "\<forall>c \<in> set w. P c"
  shows "FieldsFunc P (s @ w) = FieldsFunc P s"
proof (induction s rule: FieldsFunc_scan_induct [where P = P])
  case Nil
  then show ?case using assms by (simp add: FieldsFunc_all)
next
  case (word c s)
  then show ?case using assms by (simp add: FieldsFunc_word scan_append_seps)
qed (simp add: FieldsFunc_skip)

lemma FieldsFunc_trim: "FieldsFunc P (trim_by P s) = FieldsFunc P s"
proof -
  define t where "t = dropWhile P s"
  define w where "w = rev (takeWhile P (rev t))"
  have "trim_by P s @ w = t"
    unfolding trim_by_def trim_left_by_def trim_right_by_def w_def t_def
    by (metis rev_append rev_rev_ident takeWhile_dropWhile_id)
  moreover have "\<forall>c \<in> set w. P c" by (auto simp: w_def dest: set_takeWhileD)
  ultimately have "FieldsFunc P (trim_by P s) = FieldsFunc P t" using FieldsFunc_append_seps by metis
  then show ?thesis unfolding t_def by (simp flip: FieldsFunc_drop)
qed

lemma Fields_TrimSpace [simp]: "Fields (TrimSpace s) = Fields s"
  by (simp add: Fields_def TrimSpace_def FieldsFunc_trim)

lemma Fields_Join: "set fs \<subseteq> set (Fields s) \<Longrightarrow> Fields (Join fs '' '') = fs"
  unfolding Fields_def
  using FieldsFunc_fields [of _ is_space s]
  by (intro FieldsFunc_Join) (auto simp: is_space_def [of "CHR '' ''"])

lemma Fields_normalize_command_loop:
  "Fields (normalize_command_loop cmd) = dropWhile (\<lambda>p. Contains p ''='') (Fields cmd)"
proof (induction cmd rule: normalize_command_loop.induct)
  case (1 cmd)
  show ?case
  proof (cases "Fields cmd")
    case Nil
    then show ?thesis by (simp add: normalize_command_loop.simps)
  next
    case (Cons p ps)
    then have "Fields (Join ps '' '') = ps" by (intro Fields_Join [of _ cmd]) auto
    with Cons 1 [of p ps] show ?thesis by (subst normalize_command_loop.simps) simp
  qed
qed

lemma Fields_NormalizeCommand:
  "Fields (NormalizeCommand cmd) = dropWhile (\<lambda>p. Contains p ''='') (Fields cmd)"
  by (simp add: NormalizeCommand_def Fields_normalize_command_loop)

section \<open>Lemmas: tags\<close>

lemma list_ex_Contains_local:
  "isExternalEgressCommand cfg command \<Longrightarrow> h \<in> set (LocalOnlyHosts cfg) \<Longrightarrow>
     \<not> Contains (ToLower (NormalizeCommand command)) h"
  by (auto simp: isExternalEgressCommand_def isLocalOnlyCommand_def list_ex_iff Let_def split: if_splits)

lemma isExplicitEgressTool_not_Bash: "\<not> isExplicitEgressTool ''Bash''"
  by code_simp

lemma classifyStrings_tags:
  "set (classifyStrings cfg tool target command) \<subseteq> {TagSensitiveRead, TagExternalEgress, TagMCP, TagPostureChange}"
  by (auto simp: classifyStrings_def)

lemma classifyStrings_distinct: "distinct (classifyStrings cfg tool target command)"
  using isExplicitEgressTool_not_Bash by (auto simp: classifyStrings_def tag_defs)

section \<open>Properties\<close>

text \<open>The loop of \<open>NormalizeCommand\<close> as the source has it: a test and a body without any bound.\<close>

definition has_assignment :: "string \<Rightarrow> bool" where
  "has_assignment cmd = (case Fields cmd of [] \<Rightarrow> False | p # ps \<Rightarrow> Contains p ''='')"

definition drop_assignment :: "string \<Rightarrow> string" where
  "drop_assignment cmd = Join (tl (Fields cmd)) '' ''"

lemma loop_step: "normalize_command_loop cmd = (if has_assignment cmd then normalize_command_loop (drop_assignment cmd) else cmd)"
  by (subst normalize_command_loop.simps) (simp add: has_assignment_def drop_assignment_def split: list.split)

lemma loop_fields:
  "Fields cmd = [] \<Longrightarrow> \<not> has_assignment cmd"
  "Fields cmd = p # ps \<Longrightarrow> has_assignment cmd = Contains p ''='' \<and> drop_assignment cmd = Join ps '' ''"
  by (simp_all add: has_assignment_def drop_assignment_def)

lemma while_normalize_command: "while_option has_assignment drop_assignment cmd = Some (normalize_command_loop cmd)"
proof (induction cmd rule: normalize_command_loop.induct)
  case (1 cmd)
  have "while_option has_assignment drop_assignment (drop_assignment cmd) = Some (normalize_command_loop (drop_assignment cmd))"
    if "has_assignment cmd"
    using 1 loop_fields [of cmd] that by (cases "Fields cmd") metis+
  then show ?case
    by (subst while_option_unfold, subst loop_step) simp
qed

definition plain_word :: "string \<Rightarrow> bool" where
  "plain_word w \<longleftrightarrow> w \<noteq> [] \<and> list_all (\<lambda>c. \<not> is_space c) w"

lemma words_of_Join: "list_all plain_word ws \<Longrightarrow> Fields (Join ws '' '') = ws"
  unfolding Fields_def by (intro FieldsFunc_Join) (auto simp: list_all_iff plain_word_def is_space_def [of "CHR '' ''"])

lemma normalize_prefix:
  assumes "list_all plain_word (as @ ws)" "list_all (\<lambda>w. Contains w ''='') as"
  shows "normalize_command_loop (Join (as @ ws) '' '') = normalize_command_loop (Join ws '' '')"
  using assms
proof (induction as)
  case (Cons a as)
  then have "Fields (Join (a # as @ ws) '' '') = a # as @ ws" by (intro words_of_Join) simp
  with Cons show ?case
    by (subst loop_step) (simp add: has_assignment_def drop_assignment_def)
qed simp

lemma normalize_trim: "TrimSpace (normalize_command_loop (TrimSpace cmd)) = TrimSpace (normalize_command_loop cmd)"
  by (subst (1 2) loop_step) (simp add: has_assignment_def drop_assignment_def)

lemma NormalizeCommand_alt: "NormalizeCommand cmd = TrimSpace (normalize_command_loop cmd)"
  by (simp add: NormalizeCommand_def normalize_trim)

lemma normalized_no_assignment: "\<not> has_assignment (normalize_command_loop cmd)"
  by (simp add: has_assignment_def Fields_normalize_command_loop dropWhile_eq_Cons_conv split: list.split)

lemma NormalizeCommand_idem: "NormalizeCommand (NormalizeCommand cmd) = NormalizeCommand cmd"
proof -
  have "normalize_command_loop (normalize_command_loop cmd) = normalize_command_loop cmd"
    by (subst loop_step) (simp add: normalized_no_assignment)
  then show ?thesis by (simp add: NormalizeCommand_alt normalize_trim)
qed



end
