(* ===== verification/Go_Regexp.thy ===== *)
theory Go_Regexp
  imports Prelude
begin

text \<open>
  The part of \<open>regexp\<close> the sources use. Their expressions repeat single characters only, so an expression
  is a sequence of atoms, each giving the lengths it can consume in the order Go's leftmost-first matching
  prefers them. Case folding is on ASCII.
\<close>

section \<open>Matching\<close>

datatype atom =
    ALit string
  | AFold "string list"
  | ARep "char \<Rightarrow> bool" nat "nat option" bool
  | AWordStart

definition is_word :: "char \<Rightarrow> bool" where
  "is_word c =
     (let n = of_char c :: nat
      in (48 \<le> n \<and> n \<le> 57) \<or> (65 \<le> n \<and> n \<le> 90) \<or> (97 \<le> n \<and> n \<le> 122) \<or> c = CHR ''_'')"

definition prev_word :: "char option \<Rightarrow> bool" where
  "prev_word p = (case p of None \<Rightarrow> False | Some c \<Rightarrow> is_word c)"

definition next_word :: "string \<Rightarrow> bool" where
  "next_word s = (case s of [] \<Rightarrow> False | c # _ \<Rightarrow> is_word c)"

fun atom_ends :: "atom \<Rightarrow> char option \<Rightarrow> string \<Rightarrow> nat list" where
  "atom_ends (ALit w) prev s = (if HasPrefix s w then [length w] else [])"
| "atom_ends (AFold ws) prev s = map length (filter (\<lambda>w. HasPrefix (ToLower s) w) ws)"
| "atom_ends (ARep P lo hi greedy) prev s =
     (let k0 = length (takeWhile P s); k = (case hi of None \<Rightarrow> k0 | Some h \<Rightarrow> min h k0)
      in if k < lo then [] else if greedy then rev [lo..<Suc k] else [lo..<Suc k])"
| "atom_ends AWordStart prev s = (if prev_word prev \<noteq> next_word s then [0] else [])"

fun first_some :: "('a \<Rightarrow> 'b option) \<Rightarrow> 'a list \<Rightarrow> 'b option" where
  "first_some f [] = None"
| "first_some f (x # xs) = (case f x of Some y \<Rightarrow> Some y | None \<Rightarrow> first_some f xs)"

definition prev_after :: "nat \<Rightarrow> char option \<Rightarrow> string \<Rightarrow> char option" where
  "prev_after n prev s = (if n = 0 \<or> length s < n then prev else Some (s ! (n - 1)))"

primrec match_len :: "atom list \<Rightarrow> char option \<Rightarrow> string \<Rightarrow> nat option" where
  "match_len [] = (\<lambda>prev s. Some 0)"
| "match_len (a # as) =
     (\<lambda>prev s. first_some (\<lambda>n. map_option (\<lambda>m. n + m) (match_len as (prev_after n prev s) (drop n s)))
                 (atom_ends a prev s))"

text \<open>\<open>FindAllStringIndex\<close> and \<open>ReplaceAllString\<close> in one pass: the number of matches and the text with
  each replaced. No expression of the source matches the empty string.\<close>

function replace_all :: "atom list \<Rightarrow> string \<Rightarrow> char option \<Rightarrow> string \<Rightarrow> nat \<times> string" where
  "replace_all re rep prev [] = (0, [])"
| "replace_all re rep prev (c # s) =
     (case match_len re prev (c # s) of
        Some (Suc n) \<Rightarrow>
          (let (k, t) = replace_all re rep (prev_after (Suc n) prev (c # s)) (drop n s) in (Suc k, rep @ t))
      | _ \<Rightarrow> (let (k, t) = replace_all re rep (Some c) s in (k, c # t)))"
  by pat_completeness auto
termination by (relation "measure (\<lambda>(re, rep, prev, s). length s)") auto

text \<open>\<open>FindAllString\<close>: the texts of the successive matches.\<close>

function find_all :: "atom list \<Rightarrow> char option \<Rightarrow> string \<Rightarrow> string list" where
  "find_all re prev [] = []"
| "find_all re prev (c # s) =
     (case match_len re prev (c # s) of
        Some (Suc n) \<Rightarrow> take (Suc n) (c # s) # find_all re (prev_after (Suc n) prev (c # s)) (drop n s)
      | _ \<Rightarrow> find_all re (Some c) s)"
  by pat_completeness auto
termination by (relation "measure (\<lambda>(re, prev, s). length s)") auto

definition FindAllString :: "atom list \<Rightarrow> string \<Rightarrow> string list" where
  "FindAllString re s = find_all re None s"

text \<open>The class \<open>\s\<close> has no vertical tab.\<close>

definition is_re_space :: "char \<Rightarrow> bool" where
  "is_re_space c = (let n = of_char c :: nat in n = 9 \<or> n = 10 \<or> n = 12 \<or> n = 13 \<or> n = 32)"

definition many :: "(char \<Rightarrow> bool) \<Rightarrow> nat \<Rightarrow> atom" where "many P n = ARep P n None True"
definition one_of :: "string \<Rightarrow> atom" where "one_of cs = ARep (\<lambda>c. c \<in> set cs) 1 (Some 1) True"

section \<open>Lemmas\<close>

lemma replace_all_zero: "fst (replace_all re rep prev s) = 0 \<Longrightarrow> snd (replace_all re rep prev s) = s"
  by (induction re rep prev s rule: replace_all.induct)
     (auto simp: Let_def split: option.splits nat.splits prod.splits)

lemma snd_replace_all_Cons:
  "snd (replace_all q rep prev (c # s)) =
     (case match_len q prev (c # s) of
        Some (Suc n) \<Rightarrow> rep @ snd (replace_all q rep (prev_after (Suc n) prev (c # s)) (drop n s))
      | _ \<Rightarrow> c # snd (replace_all q rep (Some c) s))"
  by (simp add: Let_def split: option.split nat.split prod.split)

end
