(* ===== verification/Dest_Intent.thy ===== *)
theory Dest_Intent
  imports Go_Net Go_Regexp
begin

text \<open>
  \<open>internal/destinationintent/destinationintent.go\<close>: the hosts a tool call names. \<open>url.Parse\<close> is the
  parameter \<open>urlParse\<close>, which gives the scheme and the host of the parsed URL or \<open>None\<close> for an error.
  Maps are visited in the order of the association list; Go visits them in any order.
\<close>

section \<open>Definitions\<close>

definition dquotes :: string where "dquotes = [CHR 0x22, CHR 0x27, CHR 0x60]"

definition url_tail :: "char \<Rightarrow> bool" where
  "url_tail c \<longleftrightarrow> \<not> is_re_space c \<and> c \<noteq> CHR 0x22 \<and> c \<noteq> CHR 0x27 \<and> c \<noteq> CHR ''<'' \<and> c \<noteq> CHR ''>''"

definition urlPattern :: "atom list" where
  "urlPattern = [AWordStart, AFold [''https'', ''http'', ''ssh'', ''git''], ALit ''://'', many url_tail 1]"

definition normalizeHost :: "string \<Rightarrow> string" where
  "normalizeHost value0 =
     (let v1 = TrimSuffix (Trim (TrimSpace (ToLower value0)) ''[]'') ''.''
      in if v1 = [] then []
         else
           let v2 = (case SplitHostPort v1 of Some (host, _) \<Rightarrow> Trim host ''[]'' | None \<Rightarrow> v1)
           in if v2 = ''localhost'' then v2
              else case ParseAddr v2 of
                     Some addr \<Rightarrow> AddrString addr
                   | None \<Rightarrow>
                       if \<not> Contains v2 ''.'' then []
                       else if [] \<in> set (Split v2 ''.'') then []
                       else v2)"

definition after_last_at :: "string \<Rightarrow> string" where
  "after_last_at v = (case last_index_of CHR ''@'' v of Some i \<Rightarrow> drop (Suc i) v | None \<Rightarrow> v)"

definition before_colon :: "string \<Rightarrow> string" where
  "before_colon v = (case index_of CHR '':'' v of Some i \<Rightarrow> if i > 0 then take i v else v | None \<Rightarrow> v)"

definition normalizeDestination :: "(string \<Rightarrow> (string \<times> string) option) \<Rightarrow> string \<Rightarrow> string" where
  "normalizeDestination urlParse value0 =
     (let v = TrimLeft (TrimRight (Trim (TrimSpace value0) dquotes) ''.,;)'') ''(''
      in if v = [] \<or> ContainsAny v [CHR 0x20, CHR 0x09, CHR 0x0A, CHR 0x0D] then []
         else if HasPrefix v ''/'' \<or> HasPrefix v ''./'' \<or> HasPrefix v ''../'' then []
         else
           let scp = normalizeHost (before_colon (after_last_at
                       (takeWhile (\<lambda>c. c \<noteq> CHR ''/'') (takeWhile (\<lambda>c. c \<notin> {CHR ''?'', CHR ''#''}) v))))
           in case urlParse v of
                Some (scheme, host) \<Rightarrow> if scheme \<noteq> [] then normalizeHost host else scp
              | None \<Rightarrow> scp)"

definition appendDestination :: "(string \<Rightarrow> (string \<times> string) option) \<Rightarrow> string \<Rightarrow> string list \<Rightarrow> string list" where
  "appendDestination urlParse value out =
     (let host = normalizeDestination urlParse value
      in if host = [] then out else if host \<in> set out then out else out @ [host])"

text \<open>\<open>stringValues\<close> stops below depth three; the first argument is the number of levels left.\<close>

fun values_down :: "nat \<Rightarrow> json \<Rightarrow> string list" where
  "values_down 0 v = []"
| "values_down (Suc n) (JStr s) = [s]"
| "values_down (Suc n) (JObj m) = concat (map (\<lambda>kv. values_down n (snd kv)) m)"
| "values_down (Suc n) (JArr xs) = concat (map (values_down n) xs)"
| "values_down (Suc n) _ = []"

definition stringValues :: "json \<Rightarrow> nat \<Rightarrow> string list" where
  "stringValues v depth = values_down (4 - depth) v"

definition inputValues :: "jobject option \<Rightarrow> string list" where
  "inputValues input = (case input of None \<Rightarrow> [] | Some m \<Rightarrow> stringValues (JObj m) 0)"

definition is_token_break :: "char \<Rightarrow> bool" where
  "is_token_break r \<longleftrightarrow> r \<in> {CHR 0x20, CHR 0x09, CHR 0x0A, CHR 0x0D, CHR '';'', CHR ''|'', CHR ''&'', CHR ''('', CHR '')''}"

definition destTokens :: "string \<Rightarrow> string list" where
  "destTokens command = filter (\<lambda>f. f \<noteq> []) (map TrimSpace (FieldsFunc is_token_break command))"

definition networkCommands :: "string list" where
  "networkCommands = [''curl'', ''wget'', ''git'', ''gh'', ''npm'', ''pnpm'', ''yarn'', ''pip'', ''pip3'', ''go'',
     ''docker'', ''ssh'', ''scp'', ''rsync'']"

definition isNetworkToken :: "string \<Rightarrow> bool" where
  "isNetworkToken token =
     (let base = (case last_index_of CHR ''/'' token of Some i \<Rightarrow> drop (Suc i) token | None \<Rightarrow> token)
      in ToLower (Trim base dquotes) \<in> set networkCommands)"

text \<open>The loop of \<open>networkCommandArgs\<close>: the plain arguments after each network command, four at most.\<close>

fun network_args :: "string list \<Rightarrow> string list \<Rightarrow> string list" where
  "network_args [] out = out"
| "network_args (token # tokens) out =
     (if \<not> isNetworkToken token then network_args tokens out
      else
        let out' = take 4 (out @ filter (\<lambda>arg. \<not> HasPrefix arg ''-'') tokens)
        in if length out' \<ge> 4 then out' else network_args tokens out')"

definition networkCommandArgs :: "string \<Rightarrow> string list" where
  "networkCommandArgs command = network_args (destTokens command) []"

definition searchProviders :: "(string \<times> string) list" where
  "searchProviders = [(''github'', ''github.com''), (''gitlab'', ''gitlab.com''), (''npm'', ''npmjs.com''), (''pypi'', ''pypi.org'')]"

definition appendSearchProviderIntents ::
    "(string \<Rightarrow> (string \<times> string) option) \<Rightarrow> string \<Rightarrow> string \<Rightarrow> jobject option \<Rightarrow> string list \<Rightarrow> string list" where
  "appendSearchProviderIntents urlParse target command input out =
     fold (\<lambda>v o1. fold (\<lambda>(needle, host) o2. if Contains (ToLower v) needle then appendDestination urlParse host o2 else o2)
                    searchProviders o1)
       ([target, command] @ inputValues input) out"

definition scanValue :: "(string \<Rightarrow> (string \<times> string) option) \<Rightarrow> string \<Rightarrow> string list \<Rightarrow> string list" where
  "scanValue urlParse value out =
     fold (appendDestination urlParse) (FindAllString urlPattern value) (appendDestination urlParse value out)"

definition Extract ::
    "(string \<Rightarrow> (string \<times> string) option) \<Rightarrow> string \<Rightarrow> string \<Rightarrow> string \<Rightarrow> jobject option \<Rightarrow> string list" where
  "Extract urlParse tool target command input =
     (let o1 = scanValue urlParse target [];
          o2 = fold (scanValue urlParse) (inputValues input) o1;
          o3 = fold (appendDestination urlParse) (destTokens command) o2;
          o4 = fold (appendDestination urlParse) (networkCommandArgs command) o3;
          o5 = (if EqualFold tool ''WebFetch'' then appendDestination urlParse target o4 else o4)
      in if EqualFold tool ''WebSearch'' then appendSearchProviderIntents urlParse target command input o5 else o5)"

section \<open>Lemmas\<close>

text \<open>What an extracted destination looks like: \<open>localhost\<close>, a printed address, or a lower-case name of
  at least two non-empty labels.\<close>

definition host_shape :: "string \<Rightarrow> bool" where
  "host_shape h \<longleftrightarrow> h = ''localhost'' \<or> (\<exists>addr text. ParseAddr text = Some addr \<and> h = AddrString addr) \<or>
     (ToLower h = h \<and> Contains h ''.'' \<and> [] \<notin> set (Split h ''.''))"

lemma ToLower_fixed_subset: "set s \<subseteq> set (ToLower t) \<Longrightarrow> ToLower s = s"
  by (auto simp: ToLower_def intro!: map_idI)

lemma set_TrimSuffix: "set (TrimSuffix s t) \<subseteq> set s"
  by (auto simp: TrimSuffix_def dest: in_set_takeD)

lemma set_SplitHostPort: "SplitHostPort s = Some (h, p) \<Longrightarrow> set h \<subseteq> set s"
  by (auto simp: SplitHostPort_def Let_def dest: in_set_takeD in_set_dropD split: if_splits option.splits)

lemma normalizeHost_shape:
  assumes "normalizeHost v \<noteq> []"
  shows "host_shape (normalizeHost v)"
proof -
  let ?v1 = "TrimSuffix (Trim (TrimSpace (ToLower v)) ''[]'') ''.''"
  define v2 where "v2 = (case SplitHostPort ?v1 of Some (host, _) \<Rightarrow> Trim host ''[]'' | None \<Rightarrow> ?v1)"
  have "set ?v1 \<subseteq> set (ToLower v)"
    using set_TrimSuffix [of "Trim (TrimSpace (ToLower v)) ''[]''" "''.''"] Trim_subset [of "TrimSpace (ToLower v)" "''[]''"]
      trim_by_subset [of is_space "ToLower v"] unfolding TrimSpace_def by blast
  then have "set v2 \<subseteq> set (ToLower v)"
    using set_SplitHostPort [of ?v1] Trim_subset by (fastforce simp: v2_def split: option.splits)
  then have "ToLower v2 = v2" by (rule ToLower_fixed_subset)
  then show ?thesis
    using assms unfolding normalizeHost_def host_shape_def Let_def v2_def [symmetric]
    by (auto split: if_splits option.splits)
qed

lemma normalizeDestination_shape:
  "normalizeDestination urlParse v \<noteq> [] \<Longrightarrow> host_shape (normalizeDestination urlParse v)"
  by (auto simp: normalizeDestination_def Let_def normalizeHost_shape split: option.splits if_splits)

text \<open>Appending keeps the list duplicate-free, of that shape and, up to the new entry, as it was.\<close>

definition wf_dests :: "string list \<Rightarrow> bool" where
  "wf_dests out \<longleftrightarrow> distinct out \<and> (\<forall>h \<in> set out. host_shape h)"

lemma wf_appendDestination: "wf_dests out \<Longrightarrow> wf_dests (appendDestination urlParse v out)"
  using normalizeDestination_shape [of urlParse v] by (auto simp: wf_dests_def appendDestination_def Let_def)

lemma wf_fold_appendDestination: "wf_dests out \<Longrightarrow> wf_dests (fold (appendDestination urlParse) vs out)"
  by (induction vs arbitrary: out) (simp_all add: wf_appendDestination)

lemma wf_scanValue: "wf_dests out \<Longrightarrow> wf_dests (scanValue urlParse v out)"
  by (simp add: scanValue_def wf_appendDestination wf_fold_appendDestination)

lemma wf_fold_scanValue: "wf_dests out \<Longrightarrow> wf_dests (fold (scanValue urlParse) vs out)"
  by (induction vs arbitrary: out) (simp_all add: wf_scanValue)

lemma wf_searchProviders: "wf_dests out \<Longrightarrow> wf_dests (appendSearchProviderIntents urlParse t c i out)"
proof -
  have "wf_dests o1 \<Longrightarrow>
      wf_dests (fold (\<lambda>(needle, host) o2. if Contains w needle then appendDestination urlParse host o2 else o2) ps o1)" for o1 w ps
    by (induction ps arbitrary: o1) (auto simp: wf_appendDestination)
  then have "wf_dests o1 \<Longrightarrow> wf_dests (fold (\<lambda>v o1. fold (\<lambda>(needle, host) o2.
      if Contains (ToLower v) needle then appendDestination urlParse host o2 else o2) searchProviders o1) vs o1)" for o1 vs
    by (induction vs arbitrary: o1) auto
  then show "wf_dests out \<Longrightarrow> wf_dests (appendSearchProviderIntents urlParse t c i out)"
    by (simp only: appendSearchProviderIntents_def)
qed

lemma length_network_args: "length out < 4 \<Longrightarrow> length (network_args ts out) \<le> 4"
  by (induction ts out rule: network_args.induct) (auto simp: Let_def)

section \<open>Properties\<close>

lemma destination_example:
  "Extract (\<lambda>v. None) ''Bash'' '''' ''git clone git@github.com:org/x.git'' None = [''github.com'']"
  by code_simp



end
