(* ===== verification/Inspect_Settings.thy ===== *)
theory Inspect_Settings
  imports Go_Net Go_Path
begin

text \<open>
  \<open>internal/inspect/config.go\<close>, \<open>internal/inspect/scope.go\<close> and \<open>canonicalCertHost\<close> of
  \<open>cert_manager.go\<close>: the inspect settings, their normalisation, and the decision whether a destination
  may be inspected at all. Reading and writing the settings file is not modelled; \<open>decodeSettings\<close>
  takes the outcome of reading and of \<open>json.Unmarshal\<close> as arguments.
\<close>

section \<open>Settings\<close>

definition SettingsSchema :: string where "SettingsSchema = ''agentsnitch.ui_settings.v0''"

definition TrustModeProcessScoped :: string where "TrustModeProcessScoped = ''process_scoped''"
definition TrustModeSystem :: string where "TrustModeSystem = ''system''"
definition TrustModeBoth :: string where "TrustModeBoth = ''both''"
definition TrustModeNone :: string where "TrustModeNone = ''none''"

definition PayloadMetadataOnly :: string where "PayloadMetadataOnly = ''metadata_only''"
definition PayloadRedactedPreview :: string where "PayloadRedactedPreview = ''redacted_preview''"
definition PayloadFull :: string where "PayloadFull = ''full''"

definition FullPayloadUntilSession :: string where "FullPayloadUntilSession = ''until_session_ends''"
definition FullPayloadOneHour :: string where "FullPayloadOneHour = ''1h''"
definition FullPayloadTwentyFour :: string where "FullPayloadTwentyFour = ''24h''"
definition FullPayloadManual :: string where "FullPayloadManual = ''manual''"

lemmas payload_mode_defs = PayloadMetadataOnly_def PayloadRedactedPreview_def PayloadFull_def
lemmas retention_defs = FullPayloadUntilSession_def FullPayloadOneHour_def FullPayloadTwentyFour_def FullPayloadManual_def

record Settings =
  setSchema :: string
  AdvancedControlsEnabled :: bool
  KeepHooksUpToDate :: bool
  NetworkSensorDisabled :: bool
  HighAssuranceDefaultEnabled :: bool
  ReverseDNSEnabled :: bool
  ReverseDNSAlwaysOn :: bool
  DebugModeEnabled :: bool
  DebugModeAlwaysOn :: bool
  HTTPSInspectEnabled :: bool
  HTTPSInspectProcessScoped :: bool
  HTTPSInspectAllowSystemTrust :: bool
  HTTPSInspectCapturePreviews :: bool
  HTTPSInspectCaptureFull :: bool
  HTTPSInspectPreviewBytes :: int
  HTTPSInspectFullRetention :: string
  HTTPSInspectDomainsMode :: string
  HTTPSInspectDomains :: "string list"
  HTTPSInspectNeverDomains :: "string list"
  HTTPSInspectUpdatedAt :: time

definition DefaultSettings :: Settings where
  "DefaultSettings = \<lparr>setSchema = SettingsSchema, AdvancedControlsEnabled = False,
     KeepHooksUpToDate = False, NetworkSensorDisabled = True, HighAssuranceDefaultEnabled = False,
     ReverseDNSEnabled = False, ReverseDNSAlwaysOn = False, DebugModeEnabled = False,
     DebugModeAlwaysOn = False, HTTPSInspectEnabled = False, HTTPSInspectProcessScoped = True,
     HTTPSInspectAllowSystemTrust = False, HTTPSInspectCapturePreviews = True,
     HTTPSInspectCaptureFull = False, HTTPSInspectPreviewBytes = 2048,
     HTTPSInspectFullRetention = FullPayloadUntilSession, HTTPSInspectDomainsMode = ''all_managed'',
     HTTPSInspectDomains = [], HTTPSInspectNeverDomains = [], HTTPSInspectUpdatedAt = 0\<rparr>"

definition normalizeDomain :: "string \<Rightarrow> string" where
  "normalizeDomain v =
     Trim (TrimPrefix (TrimPrefix (ToLower (TrimSpace v)) ''https://'') ''http://'') ''/''"

fun normalize_domains_loop :: "string list \<Rightarrow> string list \<Rightarrow> string list" where
  "normalize_domains_loop seen [] = []"
| "normalize_domains_loop seen (v # vs) =
     (let d = normalizeDomain v
      in if d = [] \<or> d \<in> set seen then normalize_domains_loop seen vs
         else d # normalize_domains_loop (d # seen) vs)"

definition normalizeDomains :: "string list \<Rightarrow> string list" where
  "normalizeDomains values = normalize_domains_loop [] values"

definition normalizeSettings :: "Settings \<Rightarrow> Settings" where
  "normalizeSettings s = s\<lparr>
     setSchema := (if setSchema s = [] then SettingsSchema else setSchema s),
     HTTPSInspectPreviewBytes := (if HTTPSInspectPreviewBytes s \<le> 0 then 2048 else HTTPSInspectPreviewBytes s),
     HTTPSInspectFullRetention := (if HTTPSInspectFullRetention s = [] then FullPayloadUntilSession
        else HTTPSInspectFullRetention s),
     HTTPSInspectDomainsMode := (if HTTPSInspectDomainsMode s = [] then ''all_managed'' else HTTPSInspectDomainsMode s),
     HTTPSInspectDomains := normalizeDomains (HTTPSInspectDomains s),
     HTTPSInspectNeverDomains := normalizeDomains (HTTPSInspectNeverDomains s)\<rparr>"

text \<open>The ways \<open>LoadSettings\<close> can go: the file is missing, unreadable, or has content.\<close>

datatype file_read = FileMissing | FileError string | FileContent string

definition LoadSettings :: "(string \<Rightarrow> Settings \<Rightarrow> string + Settings) \<Rightarrow> file_read \<Rightarrow> Settings \<times> string option" where
  "LoadSettings unmarshal r =
     (case r of
        FileMissing \<Rightarrow> (DefaultSettings, None)
      | FileError e \<Rightarrow> (DefaultSettings, Some e)
      | FileContent raw \<Rightarrow>
          (case unmarshal raw DefaultSettings of
             Inl e \<Rightarrow> (DefaultSettings, Some e)
           | Inr s \<Rightarrow> (normalizeSettings s, None)))"

definition TrustMode :: "Settings \<Rightarrow> bool \<Rightarrow> string" where
  "TrustMode s systemTrusted =
     (if HTTPSInspectProcessScoped s \<and> systemTrusted then TrustModeBoth
      else if systemTrusted then TrustModeSystem
      else if HTTPSInspectProcessScoped s then TrustModeProcessScoped
      else TrustModeNone)"

definition PayloadMode :: "Settings \<Rightarrow> string" where
  "PayloadMode s =
     (if HTTPSInspectCaptureFull s then PayloadFull
      else if HTTPSInspectCapturePreviews s then PayloadRedactedPreview
      else PayloadMetadataOnly)"

section \<open>Scope\<close>

definition canonicalCertHost :: "string \<Rightarrow> string" where
  "canonicalCertHost host0 =
     (let h = TrimSpace host0;
          h' = (case SplitHostPort h of Some (parsed, _) \<Rightarrow> parsed | None \<Rightarrow> h)
      in Trim (ToLower h') ''[]'')"

definition bypassHost :: "string \<Rightarrow> bool" where
  "bypassHost host0 =
     (let host = Trim (ToLower host0) ''[]''
      in if host = '''' \<or> host = ''localhost'' then True
         else if HasSuffix host ''.local'' then True
         else case ParseIP host of
                Some a \<Rightarrow> IsLoopback a \<or> IsPrivate a \<or> IsLinkLocalUnicast a \<or> IsLinkLocalMulticast a
              | None \<Rightarrow> False)"

definition domainMatches :: "string \<Rightarrow> string \<Rightarrow> bool" where
  "domainMatches host0 pattern0 =
     (let host = Trim (ToLower host0) ''.''; pattern = Trim (ToLower pattern0) ''.''
      in if pattern = [] then False
         else if HasPrefix pattern ''*.'' then
           let sfx = TrimPrefix pattern ''*.'' in host = sfx \<or> HasSuffix host (''.'' @ sfx)
         else host = pattern \<or> HasSuffix host (''.'' @ pattern))"

definition DestinationInScope :: "Settings \<Rightarrow> string \<Rightarrow> bool" where
  "DestinationInScope settings host0 =
     (let host = canonicalCertHost host0
      in if host = [] \<or> bypassHost host then False
         else if list_ex (domainMatches host) (HTTPSInspectNeverDomains settings) then False
         else if HTTPSInspectDomainsMode settings = ''selected''
         then list_ex (domainMatches host) (HTTPSInspectDomains settings)
         else True)"

section \<open>Lemmas\<close>

lemma normalize_domains_loop_set:
  "set (normalize_domains_loop seen vs) = normalizeDomain ` set vs - insert [] (set seen)"
  by (induction vs arbitrary: seen) (auto simp: Let_def)

lemma normalize_domains_loop_distinct: "distinct (normalize_domains_loop seen vs)"
  by (induction vs arbitrary: seen) (auto simp: Let_def normalize_domains_loop_set)

lemma set_normalizeDomains: "set (normalizeDomains vs) = normalizeDomain ` set vs - {[]}"
  by (simp add: normalizeDomains_def normalize_domains_loop_set)

text \<open>The part of a pattern the match compares with.\<close>

definition patternBase :: "string \<Rightarrow> string" where
  "patternBase p = (let q = Trim (ToLower p) ''.'' in if HasPrefix q ''*.'' then TrimPrefix q ''*.'' else q)"

lemma domainMatches_boundary:
  "domainMatches host p \<longleftrightarrow> Trim (ToLower p) ''.'' \<noteq> [] \<and>
     (Trim (ToLower host) ''.'' = patternBase p \<or> (\<exists>l. Trim (ToLower host) ''.'' = l @ ''.'' @ patternBase p))"
  by (auto simp: domainMatches_def patternBase_def Let_def HasSuffix_def suffix_def)

lemma DestinationInScope_iff:
  "DestinationInScope settings host \<longleftrightarrow>
     (let h = canonicalCertHost host
      in h \<noteq> [] \<and> \<not> bypassHost h \<and> (\<forall>d \<in> set (HTTPSInspectNeverDomains settings). \<not> domainMatches h d) \<and>
         (HTTPSInspectDomainsMode settings = ''selected'' \<longrightarrow> (\<exists>d \<in> set (HTTPSInspectDomains settings). domainMatches h d)))"
  by (auto simp: DestinationInScope_def Let_def list_ex_iff)

lemma PayloadMode_range: "PayloadMode s \<in> {PayloadFull, PayloadRedactedPreview, PayloadMetadataOnly}"
  by (simp add: PayloadMode_def)

text \<open>A name is another or lies below it exactly when the labels of the other end its labels.\<close>

lemma suffix_labels: "suffix (Split b [c]) (Split h [c]) \<longleftrightarrow> h = b \<or> suffix (c # b) h"
proof
  assume "suffix (Split b [c]) (Split h [c])"
  then obtain pre where pre: "Split h [c] = pre @ Split b [c]" by (auto simp: suffix_def)
  show "h = b \<or> suffix (c # b) h"
  proof (cases "pre = []")
    case True
    then show ?thesis using pre Join_Split by (metis append_Nil)
  next
    case False
    have "h = Join (pre @ Split b [c]) [c]" unfolding pre [symmetric] by (rule Join_Split [symmetric])
    also have "\<dots> = Join pre [c] @ [c] @ b" using Join_append [OF False, of "Split b [c]" "[c]"] by (simp add: Join_Split)
    finally have "h = Join pre [c] @ [c] @ b" .
    then show ?thesis by (simp add: suffix_def)
  qed
next
  assume "h = b \<or> suffix (c # b) h"
  then show "suffix (Split b [c]) (Split h [c])" by (auto simp: suffix_def Split_append)
qed

text \<open>The labels of a name, and those a pattern asks for: a leading \<open>*\<close> is dropped unless it is all there is.\<close>

definition nameLabels :: "string \<Rightarrow> string list" where
  "nameLabels name = Split (Trim (ToLower name) ''.'') ''.''"

definition patternLabels :: "string \<Rightarrow> string list" where
  "patternLabels pattern = (case nameLabels pattern of l # m # ls \<Rightarrow> if l = ''*'' then m # ls else l # m # ls | ls \<Rightarrow> ls)"

lemma patternLabels_base: "patternLabels p = Split (patternBase p) ''.''"
proof (cases "HasPrefix (Trim (ToLower p) ''.'') ''*.''")
  case True
  then obtain r where r: "Trim (ToLower p) ''.'' = ''*'' @ CHR ''.'' # r" by (auto simp: HasPrefix_def prefix_def)
  then have "nameLabels p = ''*'' # Split r ''.''" unfolding nameLabels_def r by (subst Split_Cons) simp_all
  moreover obtain x xs where "Split r ''.'' = x # xs" by (cases "Split r ''.''") simp_all
  ultimately show ?thesis using r by (simp add: patternLabels_def patternBase_def HasPrefix_def TrimPrefix_def)
next
  case False
  have "Trim (ToLower p) ''.'' = Join (nameLabels p) ''.''" unfolding nameLabels_def by (rule Join_Split [symmetric])
  then have "HasPrefix (Trim (ToLower p) ''.'') ''*.''" if "nameLabels p = ''*'' # m # ls" for m ls
    using that by (cases ls) (simp_all add: HasPrefix_def)
  then have "patternLabels p = nameLabels p" using False by (auto simp: patternLabels_def split: list.split)
  then show ?thesis using False by (simp add: patternBase_def nameLabels_def)
qed

lemma domainMatches_labels: "domainMatches host p \<longleftrightarrow> nameLabels p \<noteq> [[]] \<and> suffix (patternLabels p) (nameLabels host)"
proof -
  have "nameLabels p = [[]] \<longleftrightarrow> Trim (ToLower p) ''.'' = []"
    using Join_Split [of "Trim (ToLower p) ''.''" "CHR ''.''"] by (auto simp: nameLabels_def Split_none)
  then show ?thesis unfolding domainMatches_boundary patternLabels_base nameLabels_def [of host] suffix_labels
    by (auto simp: suffix_def)
qed

lemma lowered: "set s \<subseteq> set (ToLower t) \<Longrightarrow> ToLower s = s"
  by (induction s) (auto simp: ToLower_def)

lemma canonical_lower [simp]: "ToLower (canonicalCertHost host) = canonicalCertHost host"
  unfolding canonicalCertHost_def Let_def by (rule lowered [OF Trim_subset])

lemma canonical_trimmed [simp]: "Trim (canonicalCertHost host) ''[]'' = canonicalCertHost host"
  by (simp add: canonicalCertHost_def Let_def)

text \<open>The addresses of the machine and of its own networks, by their bytes.\<close>

definition localAddress :: "addr \<Rightarrow> bool" where
  "localAddress a =
     (case unmap a of
        V4 bs \<Rightarrow>
          (let x = byte bs 0; y = byte bs 1
           in x = 127 \<or> x = 10 \<or> (x = 172 \<and> 16 \<le> y \<and> y \<le> 31) \<or> (x = 192 \<and> y = 168) \<or> (x = 169 \<and> y = 254) \<or>
              (x = 224 \<and> y = 0 \<and> byte bs 2 = 0))
      | V6 bs z \<Rightarrow>
          (let x = byte bs 0; y = byte bs 1
           in bs = replicate 15 0 @ [1] \<or> x \<in> {0xFC, 0xFD} \<or> (x = 0xFE \<and> 0x80 \<le> y \<and> y \<le> 0xBF) \<or> (x = 0xFF \<and> y mod 16 = 2)))"

lemma localAddress_iff: "localAddress a \<longleftrightarrow> IsLoopback a \<or> IsPrivate a \<or> IsLinkLocalUnicast a \<or> IsLinkLocalMulticast a"
proof -
  have div16: "y div 16 = 1 \<longleftrightarrow> 16 \<le> y \<and> y \<le> 31" for y :: nat by linarith
  have div2: "y div 2 = 126 \<longleftrightarrow> y = 0xFC \<or> y = 0xFD" for y :: nat by linarith
  have div64: "y div 64 = 2 \<longleftrightarrow> 0x80 \<le> y \<and> y \<le> 0xBF" for y :: nat by linarith
  show ?thesis
    unfolding localAddress_def IsLoopback_def IsPrivate_def IsLinkLocalUnicast_def IsLinkLocalMulticast_def div16 div2 div64 Let_def
    by (cases "unmap a") auto
qed

lemma bypassHost_canonical:
  "bypassHost (canonicalCertHost host) \<longleftrightarrow>
     (let h = canonicalCertHost host
      in h = [] \<or> h = ''localhost'' \<or> suffix ''.local'' h \<or> (case ParseIP h of Some a \<Rightarrow> localAddress a | None \<Rightarrow> False))"
  by (simp add: bypassHost_def Let_def HasSuffix_def localAddress_iff split: option.split)

section \<open>Properties\<close>

text \<open>C24. What the user excludes is never inspected. A destination is in scope exactly when its canonical name (without
  port and brackets, in lower case) is not empty, is not \<open>localhost\<close>, does not end in \<open>.local\<close> and is no literal
  address of the machine or of a local network (loopback, private, link-local); when no domain of the never list covers it,
  whatever the allow list says; and, under the selected mode, when a domain of the allow list covers it. A domain covers
  a name when its labels end the labels of the name, so it never covers a longer name that merely ends in its text.\<close>

theorem inspect_scope_respects_exclusions:
  "DestinationInScope settings host \<longleftrightarrow>
     (let h = canonicalCertHost host; covers = (\<lambda>d. nameLabels d \<noteq> [[]] \<and> suffix (patternLabels d) (nameLabels h))
      in h \<noteq> [] \<and> h \<noteq> ''localhost'' \<and> \<not> suffix ''.local'' h \<and> (\<forall>a. ParseIP h = Some a \<longrightarrow> \<not> localAddress a) \<and>
         (\<forall>d \<in> set (HTTPSInspectNeverDomains settings). \<not> covers d) \<and>
         (HTTPSInspectDomainsMode settings = ''selected'' \<longrightarrow> (\<exists>d \<in> set (HTTPSInspectDomains settings). covers d)))"
  unfolding DestinationInScope_iff domainMatches_labels bypassHost_canonical Let_def by (auto split: option.splits)

definition demoInspect :: Settings where
  "demoInspect = DefaultSettings\<lparr>HTTPSInspectEnabled := True, HTTPSInspectDomainsMode := ''selected'',
     HTTPSInspectDomains := [''*.example.com''], HTTPSInspectNeverDomains := [''bank.example.com'']\<rparr>"

theorem inspect_scope_respects_exclusions_witness:
  "DestinationInScope demoInspect ''api.example.com:443'' \<and> \<not> DestinationInScope demoInspect ''login.bank.example.com'' \<and>
   \<not> DestinationInScope demoInspect ''notexample.com'' \<and> \<not> DestinationInScope (demoInspect\<lparr>HTTPSInspectDomainsMode := []\<rparr>) ''192.168.1.7:8443''"
proof -
  let ?h = "canonicalCertHost ''api.example.com:443''"
  have "?h = ''api.example.com''" "ParseIP ''api.example.com'' = None" by code_simp+
  moreover have "nameLabels ''api.example.com'' = [''api'', ''example'', ''com'']" "nameLabels ''bank.example.com'' = [''bank'', ''example'', ''com'']"
    "nameLabels ''*.example.com'' = [''*'', ''example'', ''com'']" by code_simp+
  ultimately have "DestinationInScope demoInspect ''api.example.com:443''"
    unfolding inspect_scope_respects_exclusions by (simp add: patternLabels_def demoInspect_def suffix_def)
  moreover have "canonicalCertHost ''192.168.1.7:8443'' = ''192.168.1.7''" "ParseIP ''192.168.1.7'' = Some (V4 [192, 168, 1, 7])" by code_simp+
  then have "\<not> DestinationInScope (demoInspect\<lparr>HTTPSInspectDomainsMode := []\<rparr>) ''192.168.1.7:8443''"
    unfolding inspect_scope_respects_exclusions by (simp add: localAddress_def byte_def)
  moreover have "\<not> DestinationInScope demoInspect ''login.bank.example.com''" by code_simp
  moreover have "\<not> DestinationInScope demoInspect ''notexample.com''" by code_simp
  ultimately show ?thesis by blast
qed

text \<open>A trailing dot, which resolvers accept, hides a local name: nothing takes it off before the name is compared.\<close>

lemma trailing_dot_is_inspected:
  "DestinationInScope DefaultSettings ''localhost.'' \<and> DestinationInScope DefaultSettings ''printer.local.:443''"
  by code_simp

text \<open>A never-inspect entry that carries a path or a port is accepted by the settings but protects
  nothing: normalisation keeps the path, and the entry then matches no host. With the entry
  \<open>bank.example.com/login\<close> the host stays in scope.\<close>

theorem never_domain_with_path_is_ineffective:
  "HTTPSInspectNeverDomains (normalizeSettings (DefaultSettings\<lparr>HTTPSInspectNeverDomains := [''https://bank.example.com/login'']\<rparr>))
     = [''bank.example.com/login''] \<and>
   DestinationInScope (normalizeSettings (DefaultSettings\<lparr>HTTPSInspectNeverDomains := [''https://bank.example.com/login'']\<rparr>))
     ''bank.example.com'' \<and>
   \<not> DestinationInScope (normalizeSettings (DefaultSettings\<lparr>HTTPSInspectNeverDomains := [''https://bank.example.com/'']\<rparr>))
     ''bank.example.com''"
proof -
  have "HTTPSInspectNeverDomains (normalizeSettings (DefaultSettings\<lparr>HTTPSInspectNeverDomains := [''https://bank.example.com/login'']\<rparr>))
     = [''bank.example.com/login'']" by code_simp
  moreover have "DestinationInScope (normalizeSettings (DefaultSettings\<lparr>HTTPSInspectNeverDomains := [''https://bank.example.com/login'']\<rparr>))
     ''bank.example.com''" by code_simp
  moreover have "\<not> DestinationInScope (normalizeSettings (DefaultSettings\<lparr>HTTPSInspectNeverDomains := [''https://bank.example.com/'']\<rparr>))
     ''bank.example.com''" by code_simp
  ultimately show ?thesis by blast
qed

end
