(* ===== verification/Inspect_Redact.thy ===== *)
theory Inspect_Redact
  imports Inspect_Settings Go_Regexp
begin

text \<open>
  \<open>internal/inspect/redact.go\<close>: which headers are redacted and how a body is. \<open>sha\<close> stands for the hexadecimal SHA-256 of \<open>HashString\<close>.
\<close>

section \<open>Redaction\<close>

definition redactedHeaders :: "string list" where
  "redactedHeaders = [''authorization'', ''proxy-authorization'', ''cookie'', ''set-cookie'', ''x-api-key'',
     ''api-key'', ''x-auth-token'', ''x-amz-security-token'', ''x-github-token'', ''x-openai-api-key'',
     ''x-anthropic-api-key'']"

definition HeaderShouldRedact :: "string \<Rightarrow> bool" where
  "HeaderShouldRedact name \<longleftrightarrow> ToLower (TrimSpace name) \<in> set redactedHeaders"

definition is_digit_upper :: "char \<Rightarrow> bool" where
  "is_digit_upper c = (let n = of_char c :: nat in (48 \<le> n \<and> n \<le> 57) \<or> (65 \<le> n \<and> n \<le> 90))"

definition is_word_dash :: "char \<Rightarrow> bool" where "is_word_dash c \<longleftrightarrow> is_word c \<or> c = CHR ''-''"

definition is_upper_space :: "char \<Rightarrow> bool" where
  "is_upper_space c = (let n = of_char c :: nat in (65 \<le> n \<and> n \<le> 90) \<or> n = 32)"

definition is_alnum :: "char \<Rightarrow> bool" where "is_alnum c \<longleftrightarrow> is_word c \<and> c \<noteq> CHR ''_''"

definition bodyRedactors :: "(string \<times> atom list) list" where
  "bodyRedactors =
     [(''aws_access_key'', [ALit ''AKIA'', ARep is_digit_upper 16 (Some 16) True]),
      (''github_token'', [ALit ''gh'', one_of ''pousr'', ALit ''_'', many is_word 20]),
      (''openai_api_key'', [ALit ''sk-'', many is_word_dash 20]),
      (''anthropic_api_key'', [ALit ''sk-ant-'', many is_word_dash 20]),
      (''jwt'', [ALit ''eyJ'', many is_word_dash 8, ALit ''.'', many is_word_dash 8, ALit ''.'', many is_word_dash 8]),
      (''private_key'', [ALit ''-----BEGIN '', many is_upper_space 0, ALit ''PRIVATE KEY-----'',
         ARep (\<lambda>c. True) 0 None False, ALit ''-----END '', many is_upper_space 0, ALit ''PRIVATE KEY-----'']),
      (''bearer_token'', [AFold [''bearer''], many is_re_space 1,
         many (\<lambda>c. is_alnum c \<or> c \<in> set ''._~+/=-'') 12]),
      (''basic_auth'', [AFold [''basic''], many is_re_space 1, many (\<lambda>c. is_alnum c \<or> c \<in> set ''+/='') 12]),
      (''env_secret'', [AWordStart, many is_word 0,
         AFold [''secret'', ''token'', ''password'', ''api_key'', ''api-key'', ''apikey''], many is_word 0,
         many is_re_space 0, ALit ''='', many is_re_space 0,
         ARep (\<lambda>c. c = CHR 0x27 \<or> c = CHR 0x22) 0 (Some 1) True,
         many (\<lambda>c. c \<noteq> CHR 0x27 \<and> c \<noteq> CHR 0x22 \<and> \<not> is_re_space c) 1])]"

record RedactionResult =
  rrValue :: string
  rrCount :: nat
  rrTypes :: "(string, nat) gomap"
  rrSHA256 :: string
  rrPreview :: string
  rrPreviewTrunc :: bool
  rrOriginalLength :: nat

definition zeroRedaction :: RedactionResult where
  "zeroRedaction = \<lparr>rrValue = [], rrCount = 0, rrTypes = [], rrSHA256 = [], rrPreview = [], rrPreviewTrunc = False,
     rrOriginalLength = 0\<rparr>"

definition typeCount :: "(string, nat) gomap \<Rightarrow> string \<Rightarrow> nat" where
  "typeCount types name = (case mget types name of None \<Rightarrow> 0 | Some n \<Rightarrow> n)"

definition redact_step :: "string \<times> atom list \<Rightarrow> string \<times> (string, nat) gomap \<Rightarrow> string \<times> (string, nat) gomap" where
  "redact_step = (\<lambda>(name, re) (text, types).
     let (k, text') = replace_all re (''[REDACTED:'' @ name @ '']'') None text
     in if k = 0 then (text, types) else (text', mput name (typeCount types name + k) types))"

definition redactionCount :: "(string, nat) gomap \<Rightarrow> nat" where
  "redactionCount types = sum_list (map snd types)"

definition redactText :: "string \<Rightarrow> string \<times> (string, nat) gomap" where
  "redactText body = fold redact_step bodyRedactors (body, [])"

definition RedactBody :: "(string \<Rightarrow> string) \<Rightarrow> string \<Rightarrow> int \<Rightarrow> RedactionResult" where
  "RedactBody sha body previewBytes0 =
     (let previewBytes = nat (if previewBytes0 \<le> 0 then 2048 else previewBytes0);
          (redacted, types) = redactText body
      in \<lparr>rrValue = redacted, rrCount = redactionCount types, rrTypes = types, rrSHA256 = sha body,
          rrPreview = (if length redacted > previewBytes then take previewBytes redacted else redacted),
          rrPreviewTrunc = (length redacted > previewBytes), rrOriginalLength = length body\<rparr>)"

definition SortedHeaderNames :: "(string, string list) gomap \<Rightarrow> string list" where
  "SortedHeaderNames headers = sort (map (\<lambda>(name, vs). ToLower name) headers)"

section \<open>Lemmas\<close>

lemma RedactBody_preview:
  "rrPreview (RedactBody sha body n) = take (nat (if n \<le> 0 then 2048 else n)) (rrValue (RedactBody sha body n))"
  "rrPreviewTrunc (RedactBody sha body n) \<longleftrightarrow> rrPreview (RedactBody sha body n) \<noteq> rrValue (RedactBody sha body n)"
  by (auto simp: RedactBody_def Let_def split: prod.splits dest: arg_cong [where f = length])

section \<open>Secrets do not survive\<close>

definition marker :: "string \<Rightarrow> string" where
  "marker name = ''[REDACTED:'' @ name @ '']''"

definition unmatched :: "atom list \<Rightarrow> string \<Rightarrow> bool" where
  "unmatched re s \<longleftrightarrow> (\<forall>pre t prev. s = pre @ t \<longrightarrow> match_len re prev t = None)"

lemma unmatched_Cons: "unmatched re (c # s) \<longleftrightarrow> (\<forall>prev. match_len re prev (c # s) = None) \<and> unmatched re s"
  by (auto simp: unmatched_def Cons_eq_append_conv)

lemma unmatched_drop: "unmatched re s \<Longrightarrow> unmatched re (drop n s)"
  unfolding unmatched_def by (metis append.assoc append_take_drop_id)

text \<open>The interface a kind of secret offers: its expression is local to a run of characters of a class
  \<open>D\<close> that has no brackets, it is never empty, and no redaction marker contains it. What follows from
  it: once its redactor has run, no later replacement brings the secret back.\<close>

locale secret_pattern =
  fixes re :: "atom list" and D :: "char \<Rightarrow> bool"
  assumes run_local: "match_len re prev s \<noteq> None \<Longrightarrow> prefix (takeWhile D s) r \<Longrightarrow> match_len re prev' r \<noteq> None"
    and never_empty: "match_len re prev s \<noteq> Some 0"
    and empty_text: "match_len re prev [] = None"
    and no_brackets: "\<not> D CHR ''[''" "\<not> D CHR '']''"
    and marker_clean: "list_all (\<lambda>(name, r). list_all (\<lambda>t. match_len re None t = None) (suffixes (marker name))) bodyRedactors"
begin

lemma any_prev: "match_len re prev s = None \<Longrightarrow> match_len re prev' s = None"
  using run_local [of prev' s s prev] takeWhile_is_prefix by blast

lemma inside_marker:
  assumes "(name, r) \<in> set bodyRedactors" "suffix t (marker name)" "t \<noteq> []"
  shows "match_len re prev (t @ rest) = None"
proof (rule ccontr)
  assume m: "match_len re prev (t @ rest) \<noteq> None"
  obtain zs where "marker name = zs @ t" using assms(2) by (auto simp: suffix_def)
  then have "last t = last (marker name)" using assms(3) by simp
  then have "last t = CHR '']''" by (simp add: marker_def)
  then have "\<exists>c \<in> set t. \<not> D c" using assms(3) no_brackets(2) last_in_set by metis
  then have "takeWhile D (t @ rest) = takeWhile D t" by (auto simp: takeWhile_append)
  then have "match_len re None t \<noteq> None"
    using run_local [OF m, of t None] by (simp add: takeWhile_is_prefix)
  then show False
    using marker_clean assms(1,2) by (auto simp: list_all_iff)
qed

lemma leading_run: "prefix (takeWhile D (snd (replace_all q (marker name) prev s))) s"
  by (induction q "marker name" prev s rule: replace_all.induct)
     (auto simp: Let_def marker_def no_brackets split: option.splits nat.splits prod.splits)

lemma head_kept:
  assumes "match_len re p (c # s) = None"
  shows "match_len re p' (c # snd (replace_all q (marker name) prev s)) = None"
proof (rule ccontr)
  assume "match_len re p' (c # snd (replace_all q (marker name) prev s)) \<noteq> None"
  moreover have "prefix (takeWhile D (c # snd (replace_all q (marker name) prev s))) (c # s)"
    using leading_run by simp
  ultimately show False using run_local assms by metis
qed

lemma unmatched_append_marker:
  assumes "(name, r) \<in> set bodyRedactors" "unmatched re t"
  shows "unmatched re (marker name @ t)"
  unfolding unmatched_def
proof (intro allI impI)
  fix pre u prev assume eq: "marker name @ t = pre @ u"
  show "match_len re prev u = None"
  proof (cases "length pre < length (marker name)")
    case True
    have "u = drop (length pre) (marker name @ t)" by (simp add: eq)
    then have "u = drop (length pre) (marker name) @ t" "drop (length pre) (marker name) \<noteq> []"
      using True by simp_all
    then show ?thesis using inside_marker [OF assms(1)] suffix_drop by metis
  next
    case False
    have "u = drop (length pre) (marker name @ t)" by (simp add: eq)
    then have "u = drop (length pre - length (marker name)) t" using False by simp
    then obtain pre' where "t = pre' @ u" by (metis append_take_drop_id)
    then show ?thesis using assms(2) unfolding unmatched_def by blast
  qed
qed

text \<open>A replacement for another expression keeps a text free of the secret.\<close>

lemma replace_other:
  assumes "(name, r) \<in> set bodyRedactors" "unmatched re s"
  shows "unmatched re (snd (replace_all q (marker name) prev s))"
  using assms(2)
proof (induction "length s" arbitrary: prev s rule: less_induct)
  case less
  show ?case
  proof (cases s)
    case (Cons c s')
    have s: "unmatched re s'" "match_len re prev (c # s') = None" using less.prems by (auto simp: Cons unmatched_Cons)
    have "unmatched re (snd (replace_all q (marker name) p (drop n s')))" for p n
      using less.hyps [of "drop n s'"] unmatched_drop [OF s(1)] by (simp add: Cons)
    from this [of _ 0] unmatched_append_marker [OF assms(1) this] head_kept [OF s(2)] show ?thesis
      unfolding Cons snd_replace_all_Cons by (simp add: unmatched_Cons split: option.split nat.split)
  qed (use less.prems in simp)
qed

text \<open>The redactor of the secret removes every occurrence.\<close>

lemma replace_own:
  assumes "(name, r) \<in> set bodyRedactors"
  shows "unmatched re (snd (replace_all re (marker name) prev s))"
proof (induction "length s" arbitrary: prev s rule: less_induct)
  case less
  show ?case
  proof (cases s)
    case Nil
    have "match_len re p [] = None" for p by (rule empty_text)
    then show ?thesis using Nil by (simp add: unmatched_def)
  next
    case (Cons c s')
    have IH: "unmatched re (snd (replace_all re (marker name) p (drop n s')))" for p n
      using less.hyps [of "drop n s'"] by (simp add: Cons)
    show ?thesis
    proof (cases "match_len re prev (c # s')")
      case None
      then show ?thesis
        unfolding Cons snd_replace_all_Cons using IH [of _ 0] head_kept [OF None] by (simp add: unmatched_Cons)
    next
      case (Some m)
      then obtain n where "m = Suc n" using never_empty by (cases m) auto
      then show ?thesis
        unfolding Cons snd_replace_all_Cons using Some unmatched_append_marker [OF assms IH] by simp
    qed
  qed
qed

lemma redact_step_other:
  "(name, q) \<in> set bodyRedactors \<Longrightarrow> unmatched re tx \<Longrightarrow> unmatched re (fst (redact_step (name, q) (tx, types)))"
  using replace_other [of name q tx q None] by (auto simp: redact_step_def marker_def Let_def split: prod.splits)

lemma redact_step_own:
  assumes "(name, re) \<in> set bodyRedactors"
  shows "unmatched re (fst (redact_step (name, re) (tx, types)))"
  using replace_own [OF assms, of None tx] replace_all_zero [of re "marker name" None tx]
  by (auto simp: redact_step_def marker_def Let_def split: prod.splits)

lemma fold_redact_step_keeps:
  "set rs \<subseteq> set bodyRedactors \<Longrightarrow> unmatched re tx \<Longrightarrow> unmatched re (fst (fold redact_step rs (tx, types)))"
proof (induction rs arbitrary: tx types)
  case (Cons r rs)
  obtain name q where r: "r = (name, q)" by (cases r)
  obtain tx' types' where step: "redact_step r (tx, types) = (tx', types')" by (cases "redact_step r (tx, types)") auto
  have "unmatched re tx'" using redact_step_other [of name q tx types] Cons.prems step by (simp add: r)
  then show ?case using Cons step by simp
qed simp

lemma redactText_clean:
  assumes "(name, re) \<in> set bodyRedactors"
  shows "unmatched re (fst (redactText body))"
proof -
  obtain xs ys where sp: "bodyRedactors = xs @ (name, re) # ys" using assms by (meson split_list)
  obtain tx types where pre: "fold redact_step xs (body, []) = (tx, types)" by fastforce
  obtain tx' types' where step: "redact_step (name, re) (tx, types) = (tx', types')" by fastforce
  have "unmatched re tx'" using redact_step_own [OF assms, of tx types] step by simp
  then have "unmatched re (fst (fold redact_step ys (tx', types')))"
    by (intro fold_redact_step_keeps) (auto simp: sp)
  then show ?thesis by (simp add: redactText_def sp pre step)
qed

end

lemma first_some_eq_None: "first_some f xs = None \<longleftrightarrow> (\<forall>x \<in> set xs. f x = None)"
  by (induction xs) (auto split: option.splits)

text \<open>Two shapes of expression: a fixed head and a run of a class, and the token of GitHub whose head has
  one letter of five.\<close>

definition run_fits :: "nat \<Rightarrow> nat option \<Rightarrow> bool" where
  "run_fits lo hi = (case hi of None \<Rightarrow> True | Some h \<Rightarrow> lo \<le> h)"

lemma run_fits_None: "run_fits lo None"
  by (simp add: run_fits_def)

lemma match_run:
  assumes "run_fits lo hi"
  shows "match_len [ALit w, ARep D lo hi True] prev s = None \<longleftrightarrow>
           \<not> (prefix w s \<and> lo \<le> length (takeWhile D (drop (length w) s)))"
  using assms
  by (auto simp: first_some_eq_None HasPrefix_def run_fits_def Let_def not_less split: option.splits)

lemma match_run_pos:
  assumes "match_len [ALit w, ARep D lo hi True] prev s = Some n"
  shows "length w \<le> n"
  using assms by (induction "if HasPrefix s w then [length w] else []") (auto split: if_splits option.splits)

lemma run_is_local:
  assumes "list_all D w" "prefix w s \<and> lo \<le> length (takeWhile D (drop (length w) s))" "prefix (takeWhile D s) r"
  shows "prefix w r \<and> lo \<le> length (takeWhile D (drop (length w) r))"
proof -
  obtain s' where s: "s = w @ s'" using assms(2) by (auto simp: prefix_def)
  have "takeWhile D s = w @ takeWhile D s'" using assms(1) by (auto simp: s list_all_iff)
  then obtain r' where r: "r = w @ takeWhile D s' @ r'" using assms(3) by (auto simp: prefix_def)
  have "takeWhile D (takeWhile D s' @ r') = takeWhile D s' @ takeWhile D r'"
    by (rule takeWhile_append2) (blast dest: set_takeWhileD)
  then show ?thesis using assms(2) by (simp add: r s)
qed

text \<open>A head and a run whose characters are all of the class give a secret pattern, once the markers are
  checked.\<close>

lemma run_secret_pattern:
  assumes "run_fits lo hi" "list_all D w" "w \<noteq> []" "\<not> D CHR ''[''" "\<not> D CHR '']''"
    "list_all (\<lambda>(name, r). list_all (\<lambda>t. match_len [ALit w, ARep D lo hi True] None t = None)
       (suffixes (marker name))) bodyRedactors"
  shows "secret_pattern [ALit w, ARep D lo hi True] D"
proof
  fix prev s prev' r
  show "match_len [ALit w, ARep D lo hi True] prev' r \<noteq> None"
    if "match_len [ALit w, ARep D lo hi True] prev s \<noteq> None" "prefix (takeWhile D s) r"
    using that run_is_local [OF assms(2)] unfolding match_run [OF assms(1)] by blast
  show "match_len [ALit w, ARep D lo hi True] prev s \<noteq> Some 0"
    using match_run_pos [of w D lo hi prev s 0] assms(3) by auto
  show "match_len [ALit w, ARep D lo hi True] prev [] = None"
    unfolding match_run [OF assms(1)] using assms(3) by simp
qed (use assms in auto)

definition aws_re :: "atom list" where "aws_re = [ALit ''AKIA'', ARep is_digit_upper 16 (Some 16) True]"
definition sk_re :: "atom list" where "sk_re = [ALit ''sk-'', ARep is_word_dash 20 None True]"

definition markers_clean :: "atom list \<Rightarrow> bool" where
  "markers_clean re =
     list_all (\<lambda>(name, r). list_all (\<lambda>t. match_len re None t = None) (suffixes (marker name))) bodyRedactors"

lemma aws_markers: "markers_clean aws_re" by code_simp
lemma sk_markers: "markers_clean sk_re" by code_simp

interpretation aws: secret_pattern aws_re is_digit_upper
  unfolding aws_re_def
  by (rule run_secret_pattern)
     (use aws_markers in \<open>simp_all add: run_fits_def is_digit_upper_def markers_clean_def aws_re_def del: match_len.simps\<close>)

interpretation sk: secret_pattern sk_re is_word_dash
  unfolding sk_re_def
  by (rule run_secret_pattern)
     (use sk_markers in \<open>simp_all add: run_fits_def is_word_dash_def is_word_def markers_clean_def sk_re_def del: match_len.simps\<close>)

definition gh_re :: "atom list" where
  "gh_re = [ALit ''gh'', ARep (\<lambda>c. c \<in> set ''pousr'') 1 (Some 1) True, ALit ''_'', ARep is_word 20 None True]"

text \<open>The token of GitHub is one of five runs.\<close>

definition gh_head :: "char \<Rightarrow> string" where "gh_head x = ''gh'' @ [x] @ ''_''"

lemma match_one_of:
  "match_len (ARep P 1 (Some 1) True # re) prev s = None \<longleftrightarrow>
     (case s of [] \<Rightarrow> True | c # s' \<Rightarrow> \<not> P c \<or> match_len re (Some c) s' = None)"
  by (cases s) (auto simp: first_some_eq_None Let_def prev_after_def)

lemma match_lit:
  "match_len (ALit w # re) prev s = None \<longleftrightarrow>
     \<not> prefix w s \<or> match_len re (prev_after (length w) prev s) (drop (length w) s) = None"
  by (auto simp: HasPrefix_def split: option.splits)

lemma match_last_run: "match_len [ARep D lo None True] prev s = None \<longleftrightarrow> \<not> lo \<le> length (takeWhile D s)"
  by (auto simp: first_some_eq_None Let_def not_less)

lemma match_gh:
  "match_len gh_re prev s = None \<longleftrightarrow>
     (\<forall>x \<in> set ''pousr''. \<not> (prefix (gh_head x) s \<and> 20 \<le> length (takeWhile is_word (drop (length (gh_head x)) s))))"
  unfolding gh_re_def match_lit match_one_of match_last_run
  by (auto simp: gh_head_def prefix_def split: list.splits)

lemma gh_head_word: "x \<in> set ''pousr'' \<Longrightarrow> list_all is_word (gh_head x)"
  by (auto simp: gh_head_def is_word_def)

lemma gh_markers: "markers_clean gh_re" by code_simp

interpretation gh: secret_pattern gh_re is_word
proof
  fix prev s prev' r
  show "match_len gh_re prev' r \<noteq> None" if m: "match_len gh_re prev s \<noteq> None" and p: "prefix (takeWhile is_word s) r"
  proof -
    obtain x where "x \<in> set ''pousr''"
      "prefix (gh_head x) s \<and> 20 \<le> length (takeWhile is_word (drop (length (gh_head x)) s))"
      using m unfolding match_gh by blast
    then show ?thesis using run_is_local [OF gh_head_word _ p] unfolding match_gh by blast
  qed
  show "match_len gh_re prev s \<noteq> Some 0"
    by (auto simp: gh_re_def split: option.splits)
  show "match_len gh_re prev [] = None" by (simp add: match_gh gh_head_def)
qed (use gh_markers in \<open>simp_all add: is_word_def markers_clean_def del: match_len.simps\<close>)

lemma redactors_listed:
  "(''aws_access_key'', aws_re) \<in> set bodyRedactors" "(''github_token'', gh_re) \<in> set bodyRedactors"
  "(''openai_api_key'', sk_re) \<in> set bodyRedactors"
  by (simp_all add: bodyRedactors_def aws_re_def gh_re_def sk_re_def many_def one_of_def)

lemma unmatched_no_run:
  assumes "unmatched [ALit w, ARep D lo hi True] s" "run_fits lo hi" "length k = lo" "list_all D k"
  shows "s \<noteq> pre @ w @ k @ post"
proof
  assume "s = pre @ w @ k @ post"
  then have "match_len [ALit w, ARep D lo hi True] None (w @ k @ post) = None"
    using assms(1) unfolding unmatched_def by blast
  moreover have "takeWhile D (k @ post) = k @ takeWhile D post"
    using assms(4) by (simp add: list_all_iff)
  ultimately show False unfolding match_run [OF assms(2)] using assms(3) by simp
qed

lemma unmatched_no_gh:
  assumes "unmatched gh_re s" "x \<in> set ''pousr''" "length k = 20" "list_all is_word k"
  shows "s \<noteq> pre @ gh_head x @ k @ post"
proof
  assume "s = pre @ gh_head x @ k @ post"
  then have "match_len gh_re None (gh_head x @ k @ post) = None"
    using assms(1) unfolding unmatched_def by blast
  then have "\<not> 20 \<le> length (takeWhile is_word (k @ post))"
    using assms(2) unfolding match_gh by fastforce
  moreover have "takeWhile is_word (k @ post) = k @ takeWhile is_word post"
    using assms(4) by (simp add: list_all_iff)
  ultimately show False using assms(3) by simp
qed

lemma rrValue_RedactBody: "rrValue (RedactBody sha body n) = fst (redactText body)"
  by (simp add: RedactBody_def Let_def split: prod.split)

lemma no_aws: "length k = 16 \<Longrightarrow> list_all is_digit_upper k \<Longrightarrow> fst (redactText body) \<noteq> pre @ ''AKIA'' @ k @ post"
  by (rule unmatched_no_run [OF aws.redactText_clean [OF redactors_listed(1), unfolded aws_re_def]])
     (simp_all add: run_fits_def)

lemma no_sk: "length k = 20 \<Longrightarrow> list_all is_word_dash k \<Longrightarrow> fst (redactText body) \<noteq> pre @ ''sk-'' @ k @ post"
  by (rule unmatched_no_run [OF sk.redactText_clean [OF redactors_listed(3), unfolded sk_re_def]])
     (simp_all add: run_fits_def)

lemma no_gh:
  "length k = 20 \<Longrightarrow> list_all is_word k \<Longrightarrow> x \<in> set ''pousr'' \<Longrightarrow>
     fst (redactText body) \<noteq> pre @ gh_head x @ k @ post"
  by (rule unmatched_no_gh [OF gh.redactText_clean [OF redactors_listed(2)]])

lemma RedactBody_prefix:
  "\<exists>rest. fst (redactText body) = rrValue (RedactBody sha body n) @ rest"
  "\<exists>rest. fst (redactText body) = rrPreview (RedactBody sha body n) @ rest"
proof -
  show "\<exists>rest. fst (redactText body) = rrValue (RedactBody sha body n) @ rest"
    by (simp add: RedactBody_def Let_def split: prod.split)
  then show "\<exists>rest. fst (redactText body) = rrPreview (RedactBody sha body n) @ rest"
    unfolding RedactBody_preview(1) by (metis append_assoc append_take_drop_id)
qed

section \<open>The redactor for Anthropic keys finds nothing\<close>

definition ant_re :: "atom list" where "ant_re = [ALit ''sk-ant-'', ARep is_word_dash 20 None True]"

lemma ant_is_sk: "match_len sk_re prev s = None \<Longrightarrow> match_len ant_re prev s = None"
proof (rule ccontr)
  assume sk: "match_len sk_re prev s = None" and "match_len ant_re prev s \<noteq> None"
  then obtain r where r: "s = ''sk-ant-'' @ r" and k: "20 \<le> length (takeWhile is_word_dash r)"
    unfolding ant_re_def match_run [OF run_fits_None] by (auto simp: prefix_def)
  have "takeWhile is_word_dash (''ant-'' @ r) = ''ant-'' @ takeWhile is_word_dash r"
    by (simp add: is_word_dash_def is_word_def)
  then show False
    using sk k unfolding sk_re_def match_run [OF run_fits_None] r by simp
qed

lemma replace_all_unmatched: "unmatched q s \<Longrightarrow> replace_all q rep prev s = (0, s)"
  by (induction s arbitrary: prev) (auto simp: unmatched_Cons)

lemma redact_step_keeps_count:
  "name \<noteq> n \<Longrightarrow> mget (snd (redact_step (n, q) (tx, types))) name = mget types name"
  by (auto simp: redact_step_def Let_def mget_mput split: prod.splits)

lemma fold_redact_step_count:
  "name \<notin> fst ` set rs \<Longrightarrow> mget (snd (fold redact_step rs (tx, types))) name = mget types name"
proof (induction rs arbitrary: tx types)
  case (Cons r rs)
  obtain n q where r: "r = (n, q)" by (cases r)
  obtain tx' types' where st: "redact_step r (tx, types) = (tx', types')" by (cases "redact_step r (tx, types)") auto
  then show ?case using Cons redact_step_keeps_count [of name n q tx types] by (simp add: r)
qed simp

lemma bodyRedactors_split:
  "\<exists>xs ys. bodyRedactors = xs @ (''openai_api_key'', sk_re) # (''anthropic_api_key'', ant_re) # ys \<and>
     ''anthropic_api_key'' \<notin> fst ` set xs \<and> ''anthropic_api_key'' \<notin> fst ` set ys"
  by (rule exI [of _ "take 2 bodyRedactors"], rule exI [of _ "drop 4 bodyRedactors"])
     (simp add: bodyRedactors_def sk_re_def ant_re_def many_def)

lemma anthropic_never_counted: "mget (snd (redactText body)) ''anthropic_api_key'' = None"
proof -
  obtain xs ys where sp: "bodyRedactors = xs @ (''openai_api_key'', sk_re) # (''anthropic_api_key'', ant_re) # ys"
    and xs: "''anthropic_api_key'' \<notin> fst ` set xs" and ys: "''anthropic_api_key'' \<notin> fst ` set ys"
    using bodyRedactors_split by blast
  obtain tx types where a: "fold redact_step xs (body, []) = (tx, types)" by fastforce
  obtain tx' types' where b: "redact_step (''openai_api_key'', sk_re) (tx, types) = (tx', types')" by fastforce
  have "unmatched sk_re tx'" using sk.redact_step_own [OF redactors_listed(3), of tx types] b by simp
  then have "unmatched ant_re tx'" unfolding unmatched_def using ant_is_sk by blast
  then have c: "redact_step (''anthropic_api_key'', ant_re) (tx', types') = (tx', types')"
    by (simp only: redact_step_def prod.case replace_all_unmatched Let_def) simp
  have "mget types ''anthropic_api_key'' = None"
    using fold_redact_step_count [OF xs, of body "[]"] a by simp
  then have "mget types' ''anthropic_api_key'' = None"
    using redact_step_keeps_count [of "''anthropic_api_key''" "''openai_api_key''" sk_re tx types] b by simp
  then show ?thesis
    using fold_redact_step_count [OF ys, of tx' types'] by (simp add: redactText_def sp a b c)
qed

section \<open>Properties\<close>

text \<open>C18. Redaction is complete for the keys it names: whatever the body and the preview limit, neither the
  stored value nor the preview of the result contains an AWS access key (\<open>AKIA\<close> and 16 digits or capitals),
  a GitHub token (\<open>ghp_\<close>, \<open>gho_\<close>, \<open>ghu_\<close>, \<open>ghs_\<close> or \<open>ghr_\<close> and 20 word characters) or an \<open>sk-\<close> key; in
  particular no replacement made by a later redactor brings one back.\<close>

theorem redaction_is_complete:
  assumes "out \<in> {rrValue (RedactBody sha body n), rrPreview (RedactBody sha body n)}"
    and "length aws = 16" "list_all is_digit_upper aws"
    and "length tok = 20" "list_all is_word tok" "x \<in> set ''pousr''"
    and "length key = 20" "list_all is_word_dash key"
  shows "out \<noteq> pre @ ''AKIA'' @ aws @ post \<and> out \<noteq> pre @ (''gh'' @ [x] @ ''_'') @ tok @ post \<and>
         out \<noteq> pre @ ''sk-'' @ key @ post"
proof -
  obtain rest where rest: "fst (redactText body) = out @ rest"
    using assms(1) RedactBody_prefix [of body sha n] by auto
  show ?thesis
    using no_aws [OF assms(2,3), of body pre "post @ rest"] no_sk [OF assms(7,8), of body pre "post @ rest"]
      no_gh [OF assms(4,5,6), of body pre "post @ rest"]
    unfolding rest gh_head_def by (simp only: append_assoc) (metis append_assoc)
qed

definition secretBody :: string where
  "secretBody = ''a AKIA0123456789ABCDEF b ghp_abcdefghij0123456789 c sk-abcdefghij-123456789''"

theorem redaction_is_complete_witness:
  "rrValue (RedactBody (\<lambda>s. s) secretBody 0) \<noteq> ''a '' @ ''AKIA'' @ ''0123456789ABCDEF'' @ '' b'' \<and>
   rrValue (RedactBody (\<lambda>s. s) secretBody 0) \<noteq> ''a '' @ (''gh'' @ ''p'' @ ''_'') @ ''abcdefghij0123456789'' @ '' b'' \<and>
   rrValue (RedactBody (\<lambda>s. s) secretBody 0) \<noteq> ''a '' @ ''sk-'' @ ''abcdefghij-123456789'' @ '' b''"
  by (rule redaction_is_complete [where n = 0 and sha = "\<lambda>s. s" and body = secretBody])
     (simp_all add: is_digit_upper_def is_word_def is_word_dash_def)

text \<open>No redaction is ever reported as an Anthropic key, whatever the body: the redactor for \<open>sk-\<close> keys runs
  first and its expression covers every \<open>sk-ant-\<close> key, so the later redactor finds none. The key itself is
  removed, but under the other name.\<close>

theorem anthropic_key_never_reported:
  "mget (rrTypes (RedactBody sha body n)) ''anthropic_api_key'' = None"
  using anthropic_never_counted [of body] by (auto simp add: RedactBody_def Let_def split: prod.split)

end
