(* ===== verification/Emitter.thy ===== *)
theory Emitter
  imports Classify Dest_Intent Inspect_Redact Event
begin

text \<open>
  \<open>cmd/emitter/main.go\<close>: the hook the agent runs for each tool call. It reads the payload, describes the call as a
  semantic event in which free text is summarised and secrets are redacted, hands the event to the daemon's socket
  and always lets the agent proceed. \<open>EmitterEnv\<close> is what the process gets from outside: its input, identity and
  clock, the decoders of \<open>encoding/json\<close> and \<open>net/url\<close>, and SHA-1 in hexadecimal.
\<close>

section \<open>Expressions with a group\<close>

text \<open>The redaction expressions are a head, kept as group 1 or fixed, followed by one of several tails.\<close>

datatype template = KeepGroup | Constant string

definition match_alt :: "atom list list \<Rightarrow> char option \<Rightarrow> string \<Rightarrow> nat option" where
  "match_alt alts prev s = first_some (\<lambda>re. match_len re prev s) alts"

primrec match_group :: "atom list \<Rightarrow> atom list list \<Rightarrow> char option \<Rightarrow> string \<Rightarrow> (nat \<times> nat) option" where
  "match_group [] alts = (\<lambda>prev s. map_option (\<lambda>m. (0, m)) (match_alt alts prev s))"
| "match_group (a # as) alts =
     (\<lambda>prev s. first_some (\<lambda>n. map_option (\<lambda>(h, m). (n + h, m)) (match_group as alts (prev_after n prev s) (drop n s)))
                 (atom_ends a prev s))"

definition expand :: "template \<Rightarrow> string \<Rightarrow> string" where
  "expand tmpl grp = (case tmpl of KeepGroup \<Rightarrow> grp @ ''[redacted]'' | Constant w \<Rightarrow> w)"

function replace_group :: "atom list \<times> atom list list \<times> template \<Rightarrow> char option \<Rightarrow> string \<Rightarrow> string" where
  "replace_group p prev [] = []"
| "replace_group p prev (c # s) =
     (case match_group (fst p) (fst (snd p)) prev (c # s) of
        Some (h, m) \<Rightarrow>
          if h + m = 0 then c # replace_group p (Some c) s
          else expand (snd (snd p)) (take h (c # s)) @ replace_group p (prev_after (h + m) prev (c # s)) (drop (h + m) (c # s))
      | None \<Rightarrow> c # replace_group p (Some c) s)"
  by pat_completeness auto
termination by (relation "measure (\<lambda>(p, prev, s). length s)") auto

definition secretRedactionPatterns :: "(atom list \<times> atom list list \<times> template) list" where
  "secretRedactionPatterns =
     [([AFold [''bearer''], many is_re_space 1],
       [[many (\<lambda>c. is_alnum c \<or> c \<in> set ''._~+/=-'') 1],
        [ALit ''<'', many (\<lambda>c. c \<noteq> CHR ''>'' \<and> \<not> is_re_space c) 1, ALit ''>'']], KeepGroup),
      ([AFold [''api_key'', ''api-key'', ''apikey'', ''token'', ''password'', ''secret'', ''access_key'', ''access-key'', ''accesskey''],
        many is_re_space 0, one_of '':='', many is_re_space 0],
       [[many (\<lambda>c. \<not> is_re_space c \<and> c \<noteq> CHR ''&'' \<and> c \<noteq> CHR '';'') 1]], KeepGroup),
      ([one_of ''?&'', AFold [''api_key'', ''apikey'', ''token'', ''key'', ''password'', ''secret'', ''access_key''], ALit ''=''],
       [[many (\<lambda>c. c \<noteq> CHR ''&'' \<and> \<not> is_re_space c) 1]], KeepGroup),
      ([ALit ''sk-''], [[many is_word_dash 8]], Constant ''sk-[redacted]''),
      ([ALit ''ghp_''], [[many is_word 8]], Constant ''ghp_[redacted]''),
      ([ALit ''AKIA''], [[many is_digit_upper 8]], Constant ''AKIA[redacted]'')]"

definition redactSecretPatterns :: "string \<Rightarrow> string" where
  "redactSecretPatterns value = fold (\<lambda>p out. replace_group p None out) secretRedactionPatterns value"

section \<open>Sanitising\<close>

definition truncate_text :: "string \<Rightarrow> nat \<Rightarrow> string" where
  "truncate_text value n = (if length value \<le> n then value else take n value @ ''...'')"

definition appendUnique :: "string list \<Rightarrow> string list \<Rightarrow> string list" where
  "appendUnique existing values = fold (\<lambda>v out. if v = [] \<or> v \<in> set out then out else out @ [v]) (existing @ values) []"

definition markerNeedles :: "(string \<times> string) list" where
  "markerNeedles = [(''secret'', ''secret_keyword''), (''password'', ''password_keyword''), (''token'', ''token_keyword''),
     (''api_key'', ''api_key_keyword''), (''access_key'', ''access_key_keyword''), (''database_url'', ''database_url''),
     (''sk-'', ''openai_style_key''), (''ghp_'', ''github_token''), (''akia'', ''aws_access_key''),
     (''-----begin'', ''private_key_block'')]"

definition credentialMarkers :: "string \<Rightarrow> string list" where
  "credentialMarkers s = appendUnique [] (map snd (filter (\<lambda>(needle, name). Contains (ToLower s) needle) markerNeedles))"

definition isSensitiveKey :: "string \<Rightarrow> bool" where
  "isSensitiveKey k =
     list_ex (Contains (ToLower k)) [''secret'', ''token'', ''password'', ''api_key'', ''apikey'', ''access_key'', ''private_key'']"

definition jlen :: "nat \<Rightarrow> json" where "jlen n = JNum (Itoa (int n))"

definition withMarkers :: "string list \<Rightarrow> jobject \<Rightarrow> jobject" where
  "withMarkers markers summary =
     (if markers \<noteq> [] then mput ''credential_markers'' (JArr (map JStr markers)) summary else summary)"

definition stringSummary :: "string \<Rightarrow> jobject" where
  "stringSummary value = withMarkers (credentialMarkers value) [(''len'', jlen (length value)), (''redacted'', JBool True)]"

definition summaryForValue :: "json \<Rightarrow> json" where
  "summaryForValue value =
     (case value of
        JStr v \<Rightarrow> JObj (stringSummary v)
      | JObj v \<Rightarrow> JObj [(''type'', JStr ''object''), (''keys'', jlen (length v))]
      | JArr v \<Rightarrow> JObj [(''type'', JStr ''array''), (''len'', jlen (length v))]
      | v \<Rightarrow> v)"

definition sanitizeStringValue :: "string \<Rightarrow> string \<Rightarrow> json" where
  "sanitizeStringValue key value =
     (if key \<in> {''file_path'', ''path''} then JStr value
      else if key \<in> {''command'', ''description'', ''pattern'', ''url''} then JStr (truncate_text (redactSecretPatterns value) 256)
      else if key = ''prompt'' then JObj (stringSummary value)
      else if key \<in> {''content'', ''old_string'', ''new_string'', ''result'', ''output''} then JObj (stringSummary value)
      else if length value > 128 \<or> credentialMarkers value \<noteq> [] then JObj (stringSummary value)
      else JStr (redactSecretPatterns value))"

text \<open>The first argument is the number of levels left: \<open>3 - depth\<close>, and none once the depth is above two.\<close>

fun sanitizeInputValue :: "nat \<Rightarrow> string \<Rightarrow> json \<Rightarrow> json" where
  "sanitizeInputValue 0 key value = (if isSensitiveKey key then JStr ''[redacted]'' else summaryForValue value)"
| "sanitizeInputValue (Suc n) key value =
     (if isSensitiveKey key then JStr ''[redacted]''
      else case value of
             JStr v \<Rightarrow> sanitizeStringValue key v
           | JObj v \<Rightarrow> JObj (map (\<lambda>(childKey, childValue). (childKey, sanitizeInputValue n childKey childValue)) v)
           | JArr v \<Rightarrow> JObj [(''type'', JStr ''array''), (''len'', jlen (length v))]
           | v \<Rightarrow> v)"

definition sanitizeInput :: "jobject option \<Rightarrow> jobject option" where
  "sanitizeInput = map_option (map (\<lambda>(k, v). (k, sanitizeInputValue 3 k v)))"

section \<open>The event\<close>

definition commandTarget :: "string \<Rightarrow> string" where
  "commandTarget cmd = (case filter (\<lambda>f. \<not> HasPrefix f ''-'') (tl (Fields cmd)) of [] \<Rightarrow> [] | f # _ \<Rightarrow> f)"

definition stringAt :: "jobject option \<Rightarrow> string \<Rightarrow> string" where
  "stringAt input key = (case jstring input key of None \<Rightarrow> [] | Some s \<Rightarrow> s)"

definition extractTargetAndCommand :: "jobject option \<Rightarrow> string \<times> string" where
  "extractTargetAndCommand input =
     (if stringAt input ''file_path'' \<noteq> [] then (stringAt input ''file_path'', [])
      else if stringAt input ''path'' \<noteq> [] then (stringAt input ''path'', [])
      else
        let command = stringAt input ''command'';
            target = (if command \<noteq> [] then commandTarget command else [])
        in (if target = [] then stringAt input ''url'' else target, command))"

definition summarizeOutput :: "string \<Rightarrow> jobject" where
  "summarizeOutput out =
     withMarkers (credentialMarkers out)
       ([(''len'', jlen (length out))] @ (if Contains (ToLower out) ''error'' then [(''has_error'', JBool True)] else []))"

record EmitterEnv =
  emArgs :: "string list"
  emStdin :: "string option"
  emPID :: int
  emPPID :: int
  emGetwd :: "string option"
  emManagedSession :: string
  emUnmarshal :: "string \<Rightarrow> string + wirePayload"
  emSHA1 :: "string \<Rightarrow> string"
  emURLParse :: "string \<Rightarrow> (string \<times> string) option"
  emURLStripped :: "string \<Rightarrow> string"
  emHeuristics :: ClassifyHeuristics

text \<open>\<open>emURLStripped\<close> prints a parsed URL without its user, query and fragment.\<close>

definition sanitizeTarget :: "EmitterEnv \<Rightarrow> string \<Rightarrow> string" where
  "sanitizeTarget env target0 =
     (let target = TrimSpace target0; redacted = truncate_text (redactSecretPatterns target) 256
      in if target = [] then []
         else case emURLParse env target of
                Some (scheme, host) \<Rightarrow>
                  if scheme \<noteq> [] \<and> host \<noteq> [] then truncate_text (emURLStripped env target) 256 else redacted
              | None \<Rightarrow> redacted)"

definition derivedSessionID :: "EmitterEnv \<Rightarrow> string \<Rightarrow> int \<Rightarrow> string" where
  "derivedSessionID env cwd ppid = ''local-'' @ take 12 (emSHA1 env (cwd @ ''|'' @ Itoa ppid))"

definition derivedToolUseID :: "EmitterEnv \<Rightarrow> string \<Rightarrow> string \<Rightarrow> int \<Rightarrow> time \<Rightarrow> string" where
  "derivedToolUseID env eventName toolName pid ts =
     ''hook-'' @ take 12 (emSHA1 env (eventName @ ''|'' @ toolName @ ''|'' @ FormatRFC3339Nano ts @ ''|'' @ Itoa pid))"

definition nil_slice :: "'a list \<Rightarrow> 'a list option" where
  "nil_slice xs = (if xs = [] then None else Some xs)"

definition payloadCWD :: "EmitterEnv \<Rightarrow> HookPayload \<Rightarrow> string" where
  "payloadCWD env payload = (if pCWD payload = [] then (case emGetwd env of Some d \<Rightarrow> d | None \<Rightarrow> []) else pCWD payload)"

definition buildSemanticEvent :: "EmitterEnv \<Rightarrow> time \<Rightarrow> HookPayload \<Rightarrow> SemanticEvent" where
  "buildSemanticEvent env now payload =
     (let cwd = payloadCWD env payload;
          (target, command) = extractTargetAndCommand (pToolInput payload);
          tags = classifyStrings (emHeuristics env) (pToolName payload) target command;
          intents = Extract (emURLParse env) (pToolName payload) target command (pToolInput payload);
          managed = TrimSpace (emManagedSession env);
          session0 = (if managed \<noteq> [] then managed else TrimSpace (pSessionID payload));
          sessionID = (if session0 = [] then derivedSessionID env cwd (emPPID env) else session0);
          toolUse0 = TrimSpace (pToolUseID payload);
          toolUseID = (if toolUse0 = [] then derivedToolUseID env (pHookEventName payload) (pToolName payload) (emPID env) now
                       else toolUse0);
          post = (pHookEventName payload = ''PostToolUse'' \<and> pToolOutput payload \<noteq> []);
          markers = credentialMarkers (pToolOutput payload)
      in \<lparr>sSchema = SchemaSemanticV0, sTS = now, sAgent = zeroAgent\<lparr>aID := ''claude'', aName := ''Claude Code''\<rparr>,
          sSession = \<lparr>sessID = sessionID\<rparr>,
          sEvent = (if pHookEventName payload = [] then ''Unknown'' else pHookEventName payload),
          sTool = (if pToolName payload = [] then ''Unknown'' else pToolName payload),
          sTarget = sanitizeTarget env target, sCWD = cwd, sPID = emPID env, sPPID = emPPID env,
          sTags = (if post \<and> markers \<noteq> [] then Some (appendUnique tags [''credential_output'']) else nil_slice tags),
          sDestinationIntents = nil_slice intents, sToolUseID = toolUseID,
          sInputSummary = sanitizeInput (pToolInput payload),
          sOutputSummary = (if post then Some (summarizeOutput (pToolOutput payload)) else None),
          sRawRef = pTranscriptPath payload\<rparr>)"

section \<open>The process\<close>

definition maxHookPayload :: nat where "maxHookPayload = 2 ^ 20"

text \<open>\<open>io.LimitReader\<close> hands over one byte more than the limit, which tells a long input from a full one.\<close>

definition readHookPayload :: "string option \<Rightarrow> string option" where
  "readHookPayload stdin =
     (case stdin of
        None \<Rightarrow> None
      | Some all \<Rightarrow> let raw = take (maxHookPayload + 1) all in if length raw > maxHookPayload then None else Some raw)"

definition simpleTitle :: "string \<Rightarrow> string" where
  "simpleTitle s = Join (map (\<lambda>w. ToUpper (take 1 w) @ drop 1 w) (Fields s)) []"

definition underscores_to_spaces :: "string \<Rightarrow> string" where
  "underscores_to_spaces = map (\<lambda>c. if c = CHR ''_'' then CHR 0x20 else c)"

definition normalizeEventType :: "string \<Rightarrow> string" where
  "normalizeEventType s =
     (let ls = ToLower (TrimSpace s)
      in if ls \<in> {''pretooluse'', ''pre-tool-use'', ''pre_tool_use'', ''pre''} then ''PreToolUse''
         else if ls \<in> {''posttooluse'', ''post-tool-use'', ''post_tool_use'', ''post''} then ''PostToolUse''
         else if ls \<in> {''pretool'', ''posttool''} then simpleTitle ls
         else if Contains ls ''tooluse'' \<or> ls = ''stop'' \<or> ls = ''sessionstart'' then simpleTitle (underscores_to_spaces ls)
         else s)"

definition writeProceed :: "string \<Rightarrow> string" where
  "writeProceed eventType = (let b = MustProceed eventType in if b \<noteq> [] then b @ [CHR 0x0A] else [])"

text \<open>What the process writes to its standard output, and the event it hands to the socket. The deferred call
  writes the response on every path.\<close>

definition emitterEventType :: "string list \<Rightarrow> string" where
  "emitterEventType args =
     (case args of [] \<Rightarrow> ''PreToolUse''
      | a # _ \<Rightarrow> let et = normalizeEventType a in if et \<noteq> [] then et else ''PreToolUse'')"

definition emitterEvent :: "EmitterEnv \<Rightarrow> time \<Rightarrow> SemanticEvent option" where
  "emitterEvent env now =
     (case readHookPayload (emStdin env) of
        None \<Rightarrow> None
      | Some raw0 \<Rightarrow>
          let raw = TrimSpace raw0
          in if raw = [] then None
             else case parseWire (emUnmarshal env) raw of
                    Inl _ \<Rightarrow> None
                  | Inr payload \<Rightarrow>
                      let sem = NormalizeSemanticEvent now (buildSemanticEvent env now payload)
                      in if ValidateSemanticEvent sem \<noteq> None then None else Some sem)"

definition emitterMain :: "EmitterEnv \<Rightarrow> time \<Rightarrow> string \<times> SemanticEvent option" where
  "emitterMain env now = (writeProceed (emitterEventType (emArgs env)), emitterEvent env now)"

section \<open>Keys do not survive\<close>

text \<open>A key is a fixed head followed by a run of at least \<open>lo\<close> characters of a class that has no brackets.\<close>

definition starts_key :: "string \<Rightarrow> (char \<Rightarrow> bool) \<Rightarrow> nat \<Rightarrow> string \<Rightarrow> bool" where
  "starts_key w D lo t \<longleftrightarrow> prefix w t \<and> lo \<le> length (takeWhile D (drop (length w) t))"

primrec key_free :: "string \<Rightarrow> (char \<Rightarrow> bool) \<Rightarrow> nat \<Rightarrow> string \<Rightarrow> bool" where
  "key_free w D lo [] = True"
| "key_free w D lo (c # s) = (\<not> starts_key w D lo (c # s) \<and> key_free w D lo s)"

text \<open>One text comes from another by keeping characters and by putting the mark in place of a part.\<close>

inductive redacted_from :: "string \<Rightarrow> string \<Rightarrow> bool" where
  Nil: "redacted_from [] []"
| Keep: "redacted_from s t \<Longrightarrow> redacted_from (c # s) (c # t)"
| Mark: "redacted_from s t \<Longrightarrow> redacted_from (u @ s) (''[redacted]'' @ t)"

lemma redacted_keep: "redacted_from s t \<Longrightarrow> redacted_from (xs @ s) (xs @ t)"
  by (induction xs) (auto intro: redacted_from.intros)

text \<open>The interface of a kind of key, and what redaction owes it.\<close>

locale key_kind =
  fixes w :: string and D :: "char \<Rightarrow> bool" and lo :: nat
  assumes head_class: "list_all D w"
    and head_long: "8 < length w + lo" "w \<noteq> []" "0 < lo"
    and no_marks: "\<not> D CHR ''[''" "\<not> D CHR '']''" "\<not> D CHR ''.''"
begin

lemma starts_long: "starts_key w D lo t \<Longrightarrow> length w + lo \<le> length (takeWhile D t)"
  using head_class by (auto simp: starts_key_def prefix_def list_all_iff)

lemma starts_local: "starts_key w D lo s \<Longrightarrow> prefix (takeWhile D s) r \<Longrightarrow> starts_key w D lo r"
  using run_is_local [OF head_class] unfolding starts_key_def by blast

text \<open>Too short a run before a foreign character holds no key.\<close>

lemma key_free_skip:
  "\<not> D c \<Longrightarrow> length xs < length w + lo \<Longrightarrow> key_free w D lo ys \<Longrightarrow> key_free w D lo (xs @ c # ys)"
proof (induction xs)
  case Nil
  then have "\<not> starts_key w D lo (c # ys)" using starts_long [of "c # ys"] head_long(2) by auto
  then show ?case using Nil by simp
next
  case (Cons x xs)
  have "length (takeWhile D ((x # xs) @ c # ys)) \<le> length (x # xs)"
    using Cons.prems(1) by (simp add: takeWhile_append length_takeWhile_le)
  then have "\<not> starts_key w D lo ((x # xs) @ c # ys)"
    using starts_long [of "(x # xs) @ c # ys"] Cons.prems(2) by linarith
  then show ?case using Cons by simp
qed

lemma key_free_mark: "key_free w D lo t \<Longrightarrow> key_free w D lo (''[redacted]'' @ t)"
  using key_free_skip [OF no_marks(1), of "[]" "''redacted'' @ CHR '']'' # t"] key_free_skip [OF no_marks(2), of "''redacted''" t]
    head_long by simp

lemma redacted_run: "redacted_from s t \<Longrightarrow> prefix (takeWhile D t) s"
  by (induction rule: redacted_from.induct) (auto simp: no_marks)

lemma redacted_keeps: "redacted_from s t \<Longrightarrow> key_free w D lo s \<Longrightarrow> key_free w D lo t"
proof (induction rule: redacted_from.induct)
  case (Keep s t c)
  have "prefix (takeWhile D (c # t)) (c # s)" using redacted_run [OF Keep.hyps] by simp
  then show ?case using Keep starts_local by auto
next
  case (Mark s t u)
  have "key_free w D lo s" using Mark.prems by (induction u) auto
  then show ?case using Mark.IH key_free_mark by blast
qed simp

lemma match_own:
  "match_group [ALit w] [[many D lo]] prev s = None \<longleftrightarrow> \<not> starts_key w D lo s"
  "match_group [ALit w] [[many D lo]] prev s = Some (h, m) \<Longrightarrow> h = length w \<and> take h s = w"
  by (auto simp: starts_key_def HasPrefix_def match_alt_def many_def first_some_eq_None Let_def not_less prefix_def
      split: option.splits if_splits)

lemma own_cases:
  fixes c s prev
  defines "p \<equiv> ([ALit w], [[many D lo]], Constant (w @ ''[redacted]''))"
  shows "\<not> starts_key w D lo (c # s) \<and> replace_group p prev (c # s) = c # replace_group p (Some c) s \<or>
    (\<exists>m q. prefix w (c # s) \<and>
       replace_group p prev (c # s) = w @ ''[redacted]'' @ replace_group p q (drop (length w + m) (c # s)))"
proof (cases "match_group [ALit w] [[many D lo]] prev (c # s)")
  case None
  then have "\<not> starts_key w D lo (c # s)" by (simp only: match_own(1) simp_thms)
  then show ?thesis using None by (simp add: p_def del: match_group.simps)
next
  case (Some hm)
  obtain h m where hm: "hm = (h, m)" by fastforce
  have h: "h = length w" "take h (c # s) = w" using match_own(2) Some hm by blast+
  have "prefix w (c # s)" using h take_is_prefix by metis
  moreover have "replace_group p prev (c # s) =
      w @ ''[redacted]'' @ replace_group p (prev_after (h + m) prev (c # s)) (drop (length w + m) (c # s))"
    using Some hm h head_long(2) by (simp add: p_def expand_def del: match_group.simps)
  ultimately show ?thesis by blast
qed

lemma own_redacted:
  "redacted_from s (replace_group ([ALit w], [[many D lo]], Constant (w @ ''[redacted]'')) prev s)"
proof (induction "length s" arbitrary: prev s rule: less_induct)
  case less
  define p where "p = ([ALit w], [[many D lo]], Constant (w @ ''[redacted]''))"
  show ?case
  proof (cases s)
    case (Cons c s')
    have IH: "redacted_from (drop n s') (replace_group p q (drop n s'))" for n q
      using less.hyps [of "drop n s'"] by (simp add: Cons p_def)
    consider "replace_group p prev s = c # replace_group p (Some c) s'"
      | m q where "prefix w s" "replace_group p prev s = w @ ''[redacted]'' @ replace_group p q (drop (length w + m) s)"
      using own_cases [of c s' prev] unfolding Cons p_def by blast
    then show ?thesis
    proof cases
      case 1
      then show ?thesis using IH [of 0 "Some c"] by (simp add: Cons p_def redacted_from.Keep)
    next
      case 2
      obtain n where n: "drop (length w + m) s = drop n s'" using head_long(2) by (cases "length w + m") (auto simp: Cons)
      obtain r where r: "s = w @ r" using 2(1) by (auto simp: prefix_def)
      have "redacted_from (w @ take m r @ drop n s') (w @ ''[redacted]'' @ replace_group p q (drop n s'))"
        by (intro redacted_keep redacted_from.Mark IH)
      moreover have "take m r @ drop n s' = r" using n by (simp add: r flip: n)
      ultimately show ?thesis using 2(2) n r by (simp add: p_def)
    qed
  qed (simp add: redacted_from.Nil)
qed

lemma own_clean: "key_free w D lo (replace_group ([ALit w], [[many D lo]], Constant (w @ ''[redacted]'')) prev s)"
proof (induction "length s" arbitrary: prev s rule: less_induct)
  case less
  define p where "p = ([ALit w], [[many D lo]], Constant (w @ ''[redacted]''))"
  show ?case
  proof (cases s)
    case (Cons c s')
    have IH: "key_free w D lo (replace_group p q (drop n s'))" for n q
      using less.hyps [of "drop n s'"] by (simp add: Cons p_def)
    consider "\<not> starts_key w D lo (c # s')" "replace_group p prev s = c # replace_group p (Some c) s'"
      | m q where "replace_group p prev s = w @ ''[redacted]'' @ replace_group p q (drop (length w + m) s)"
      using own_cases [of c s' prev] unfolding Cons p_def by blast
    then show ?thesis
    proof cases
      case 1
      have "prefix (takeWhile D (c # replace_group p (Some c) s')) (c # s')"
        using redacted_run [OF own_redacted [of s' "Some c"]] by (simp add: p_def)
      then have "\<not> starts_key w D lo (c # replace_group p (Some c) s')" using starts_local 1(1) by blast
      then show ?thesis using 1(2) IH [of "Some c" 0] by (simp add: p_def)
    next
      case 2
      obtain n where n: "drop (length w + m) s = drop n s'" using head_long(2) by (cases "length w + m") (auto simp: Cons)
      have "key_free w D lo (''redacted'' @ CHR '']'' # replace_group p q (drop n s'))"
        using key_free_skip [OF no_marks(2) _ IH, of "''redacted''"] head_long by simp
      then show ?thesis using key_free_skip [OF no_marks(1), of w] head_long 2 n by (simp add: p_def)
    qed
  qed simp
qed

text \<open>Cutting a text off and adding dots brings no key back.\<close>

lemma truncated: "key_free w D lo s \<Longrightarrow> key_free w D lo (truncate_text s n)"
proof -
  have dots: "key_free w D lo ''...''"
    using key_free_skip [OF no_marks(3), of "[]"] head_long by auto
  have "key_free w D lo s \<Longrightarrow> key_free w D lo (take n s @ ''...'')"
  proof (induction s arbitrary: n)
    case (Cons c s)
    show ?case
    proof (cases n)
      case (Suc m)
      have "prefix (takeWhile D (take (Suc m) (c # s) @ ''...'')) (c # s)"
        using take_is_prefix [of "Suc m" "c # s"] takeWhile_is_prefix [of D "take (Suc m) (c # s)"] prefix_order.trans
        by (auto simp: takeWhile_append no_marks simp del: take_Suc_Cons)
      then have "\<not> starts_key w D lo (take (Suc m) (c # s) @ ''...'')" using starts_local Cons.prems by auto
      then show ?thesis using Cons Suc by simp
    qed (use dots in simp)
  qed (use dots in simp)
  then show "key_free w D lo s \<Longrightarrow> key_free w D lo (truncate_text s n)" by (simp add: truncate_text_def)
qed

end

interpretation sk_key: key_kind "''sk-''" is_word_dash 8
  by unfold_locales (simp_all add: is_word_dash_def is_word_def)

interpretation ghp_key: key_kind "''ghp_''" is_word 8
  by unfold_locales (simp_all add: is_word_def)

interpretation akia_key: key_kind "''AKIA''" is_digit_upper 8
  by unfold_locales (simp_all add: is_digit_upper_def)

definition no_keys :: "string \<Rightarrow> bool" where
  "no_keys s \<longleftrightarrow> key_free ''sk-'' is_word_dash 8 s \<and> key_free ''ghp_'' is_word 8 s \<and> key_free ''AKIA'' is_digit_upper 8 s"

lemma redactSecretPatterns_last:
  "\<exists>u. redactSecretPatterns v =
     replace_group ([ALit ''AKIA''], [[many is_digit_upper 8]], Constant (''AKIA'' @ ''[redacted]'')) None
      (replace_group ([ALit ''ghp_''], [[many is_word 8]], Constant (''ghp_'' @ ''[redacted]'')) None
        (replace_group ([ALit ''sk-''], [[many is_word_dash 8]], Constant (''sk-'' @ ''[redacted]'')) None u))"
  unfolding redactSecretPatterns_def secretRedactionPatterns_def by (simp del: replace_group.simps) blast

lemma redacted_no_keys: "no_keys (redactSecretPatterns v)"
proof -
  note later = sk_key.redacted_keeps [OF akia_key.own_redacted] sk_key.redacted_keeps [OF ghp_key.own_redacted]
    ghp_key.redacted_keeps [OF akia_key.own_redacted]
  show ?thesis
    using redactSecretPatterns_last [of v] later sk_key.own_clean ghp_key.own_clean akia_key.own_clean
    unfolding no_keys_def by metis
qed

lemma truncated_no_keys: "no_keys s \<Longrightarrow> no_keys (truncate_text s n)"
  unfolding no_keys_def using sk_key.truncated ghp_key.truncated akia_key.truncated by blast

text \<open>The strings of a document, each with the key it stands under.\<close>

fun string_leaves :: "string \<Rightarrow> json \<Rightarrow> (string \<times> string) list" where
  "string_leaves k (JStr s) = [(k, s)]"
| "string_leaves k (JArr vs) = concat (map (string_leaves k) vs)"
| "string_leaves k (JObj m) = concat (map (\<lambda>(c, v). string_leaves c v) m)"
| "string_leaves k v = []"

definition safe_leaf :: "string \<times> string \<Rightarrow> bool" where
  "safe_leaf = (\<lambda>(k, s). k = ''file_path'' \<or> k = ''path'' \<or> no_keys s)"

definition safe_doc :: "string \<Rightarrow> json \<Rightarrow> bool" where
  "safe_doc k v = list_all safe_leaf (string_leaves k v)"

lemma safe_doc_simps [simp]:
  "safe_doc k (JStr s) = safe_leaf (k, s)" "safe_doc k (JBool b)" "safe_doc k JNull" "safe_doc k (JNum n)"
  "safe_doc k (JArr vs) = list_all (safe_doc k) vs"
  "safe_doc k (JObj m) = list_all (\<lambda>(c, v). safe_doc c v) m"
  by (auto simp: safe_doc_def list_all_iff)

lemma fixed_no_keys:
  "no_keys ''[redacted]''" "no_keys ''object''" "no_keys ''array''" "list_all (\<lambda>(a, m). no_keys m) markerNeedles"
  by (simp_all add: no_keys_def markerNeedles_def starts_key_def)

lemma appendUnique_set: "set (appendUnique xs ys) = (set xs \<union> set ys) - {[]}"
proof -
  have "set (fold (\<lambda>v out. if v = [] \<or> v \<in> set out then out else out @ [v]) zs out) = set out \<union> (set zs - {[]})" for zs out :: "string list"
    by (induction zs arbitrary: out) auto
  then show ?thesis by (auto simp: appendUnique_def)
qed

lemma safe_markers: "list_all (\<lambda>m. safe_leaf (k, m)) (credentialMarkers s)"
  using fixed_no_keys(4) by (auto simp: credentialMarkers_def appendUnique_set list_all_iff safe_leaf_def)

lemma safe_summary: "list_all (\<lambda>(c, v). safe_doc c v) (stringSummary s)"
  using safe_markers [of "''credential_markers''" s]
  by (simp add: stringSummary_def withMarkers_def jlen_def list_all_iff)

lemma safe_string: "safe_doc key (sanitizeStringValue key s)"
  using redacted_no_keys [of s] truncated_no_keys [of "redactSecretPatterns s" 256] safe_summary
  by (auto simp: sanitizeStringValue_def safe_leaf_def)

lemma safe_value: "safe_doc key (sanitizeInputValue n key v)"
proof (induction n key v rule: sanitizeInputValue.induct)
  case (1 key v)
  then show ?case
    using fixed_no_keys safe_summary by (auto simp: summaryForValue_def safe_leaf_def jlen_def split: json.split)
next
  case (2 n key v)
  then show ?case
    using fixed_no_keys safe_string by (auto simp: safe_leaf_def jlen_def list_all_iff split: json.split)
qed

text \<open>The members of a document at every depth; what stands under a name that speaks of a secret is one word.\<close>

fun members :: "json \<Rightarrow> (string \<times> json) list" where
  "members (JObj m) = m @ concat (map (\<lambda>(k, v). members v) m)"
| "members (JArr vs) = concat (map members vs)"
| "members v = []"

definition safe_member :: "string \<times> json \<Rightarrow> bool" where
  "safe_member = (\<lambda>(k, v). isSensitiveKey k \<longrightarrow> v = JStr ''[redacted]'')"

lemma fixed_names:
  "\<not> isSensitiveKey ''len''" "\<not> isSensitiveKey ''redacted''" "\<not> isSensitiveKey ''credential_markers''"
  "\<not> isSensitiveKey ''type''" "\<not> isSensitiveKey ''keys''"
  by code_simp+

lemma members_texts: "concat (map (members \<circ> JStr) xs) = []"
  by (induction xs) simp_all

lemma safe_summary_members: "list_all safe_member (members (JObj (stringSummary s)))"
  by (simp add: stringSummary_def withMarkers_def jlen_def safe_member_def fixed_names members_texts)

lemma sanitized_secret: "isSensitiveKey k \<Longrightarrow> sanitizeInputValue n k v = JStr ''[redacted]''"
  by (cases n) simp_all

lemma safe_members: "list_all safe_member (members (sanitizeInputValue n key v))"
proof (induction n key v rule: sanitizeInputValue.induct)
  case (1 key v)
  then show ?case
    using safe_summary_members by (auto simp: summaryForValue_def jlen_def safe_member_def fixed_names split: json.split)
next
  case (2 n key v)
  have "list_all safe_member (members (sanitizeStringValue key s))" for s
    using safe_summary_members [of s] by (auto simp: sanitizeStringValue_def)
  moreover have "list_all safe_member (members (JObj (map (\<lambda>(k, v). (k, sanitizeInputValue n k v)) m)))"
    if "\<not> isSensitiveKey key" "v = JObj m" for m
  proof -
    have "list_all safe_member (members (sanitizeInputValue n k w))" if "(k, w) \<in> set m" for k w
      using "2.IH" [OF \<open>\<not> isSensitiveKey key\<close> \<open>v = JObj m\<close> that refl] .
    then show ?thesis using sanitized_secret [of _ n] by (fastforce simp: list_all_iff safe_member_def)
  qed
  ultimately show ?case by (auto simp: jlen_def safe_member_def fixed_names split: json.split)
qed

section \<open>The properties\<close>

lemma TrimSpace_nonblank [simp]: "\<not> is_space c \<Longrightarrow> TrimSpace (c # s) \<noteq> []"
  by (simp add: TrimSpace_def trim_by_def trim_left_by_def trim_right_by_def dropWhile_eq_Nil_conv)

definition reportable :: "EmitterEnv \<Rightarrow> time \<Rightarrow> HookPayload \<Rightarrow> bool" where
  "reportable env now payload \<longleftrightarrow>
     now \<noteq> 0 \<and> 0 < emPID env \<and> 0 < emPPID env \<and> TrimSpace (payloadCWD env payload) \<noteq> [] \<and>
     (pHookEventName payload = [] \<or> TrimSpace (pHookEventName payload) \<noteq> []) \<and>
     (pToolName payload = [] \<or> TrimSpace (pToolName payload) \<noteq> [])"

lemma build_fields:
  "sSchema (buildSemanticEvent env now p) = SchemaSemanticV0" "sTS (buildSemanticEvent env now p) = now"
  "sAgent (buildSemanticEvent env now p) = zeroAgent\<lparr>aID := ''claude'', aName := ''Claude Code''\<rparr>"
  "sPID (buildSemanticEvent env now p) = emPID env" "sPPID (buildSemanticEvent env now p) = emPPID env"
  "sCWD (buildSemanticEvent env now p) = payloadCWD env p"
  "sEvent (buildSemanticEvent env now p) = (if pHookEventName p = [] then ''Unknown'' else pHookEventName p)"
  "sTool (buildSemanticEvent env now p) = (if pToolName p = [] then ''Unknown'' else pToolName p)"
  "sInputSummary (buildSemanticEvent env now p) = sanitizeInput (pToolInput p)"
  by (simp_all only: buildSemanticEvent_def Let_def case_prod_beta SemanticEvent.select_convs)

lemma build_identifiers:
  "TrimSpace (sessID (sSession (buildSemanticEvent env now p))) \<noteq> []" "TrimSpace (sToolUseID (buildSemanticEvent env now p)) \<noteq> []"
proof -
  have "TrimSpace (derivedSessionID env cwd pid) \<noteq> []" "TrimSpace (derivedToolUseID env a b pid now) \<noteq> []" for cwd pid a b
    by (simp_all add: derivedSessionID_def derivedToolUseID_def is_space_def)
  then show "TrimSpace (sessID (sSession (buildSemanticEvent env now p))) \<noteq> []" "TrimSpace (sToolUseID (buildSemanticEvent env now p)) \<noteq> []"
    unfolding buildSemanticEvent_def Let_def case_prod_beta SemanticEvent.select_convs SessionInfo.select_convs by simp_all
qed

lemma valid_iff_reportable:
  "ValidateSemanticEvent (NormalizeSemanticEvent now (buildSemanticEvent env now p)) = None \<longleftrightarrow> reportable env now p"
  using build_identifiers [of env now p]
  by (simp add: ValidateSemanticEvent_def NormalizeSemanticEvent_def normalizeAgent_def build_fields reportable_def IsZero_def
      is_space_def SchemaSemanticV0_def not_le)

lemma emitted_is_built:
  assumes "snd (emitterMain env now) = Some sem"
  shows "\<exists>p. sem = NormalizeSemanticEvent now (buildSemanticEvent env now p) \<and> ValidateSemanticEvent sem = None"
proof -
  obtain raw where r: "readHookPayload (emStdin env) = Some raw" using assms by (cases "readHookPayload (emStdin env)") (auto simp: emitterMain_def emitterEvent_def)
  then obtain p where p: "parseWire (emUnmarshal env) (TrimSpace raw) = Inr p"
    using assms by (cases "parseWire (emUnmarshal env) (TrimSpace raw)") (auto simp: emitterMain_def emitterEvent_def Let_def split: if_splits)
  show ?thesis using assms r p by (simp add: emitterMain_def emitterEvent_def Let_def split: if_splits) blast
qed

lemma normalized_fields:
  "sPID (NormalizeSemanticEvent now e) = sPID e" "sPPID (NormalizeSemanticEvent now e) = sPPID e"
  "aID (sAgent (NormalizeSemanticEvent now e)) = TrimSpace (aID (sAgent e))"
  "sInputSummary (NormalizeSemanticEvent now e) = Some (items (sInputSummary e))"
  by (simp_all add: NormalizeSemanticEvent_def normalizeAgent_def)

lemma trimmed_claude: "TrimSpace ''claude'' = ''claude''"
  by code_simp

text \<open>C32. The hook fails open and reports exactly what it can: whatever its input, it answers the agent with the
  response that lets the call proceed, and never with a denial; it hands an event to the daemon exactly when the
  input is at most a megabyte of decodable payload, the clock and process identifiers are real and the directory,
  event and tool names are not blank, and that event is valid and carries the identity of the hook process,
  which the daemon compares with the peer of its socket.\<close>

theorem emitter_fails_open:
  "fst (emitterMain env now) = (if emitterEventType (emArgs env) = ''PreToolUse'' then claudeProceedPre else ''{}'') @ [CHR 0x0A] \<and>
   (snd (emitterMain env now) \<noteq> None \<longleftrightarrow>
      (\<exists>raw p. emStdin env = Some raw \<and> length raw \<le> 1048576 \<and> TrimSpace raw \<noteq> [] \<and>
               parseWire (emUnmarshal env) (TrimSpace raw) = Inr p \<and> reportable env now p)) \<and>
   (\<forall>sem. snd (emitterMain env now) = Some sem \<longrightarrow>
      ValidateSemanticEvent sem = None \<and> sPID sem = emPID env \<and> sPPID sem = emPPID env \<and> aID (sAgent sem) = ''claude'')"
proof (intro conjI)
  show "fst (emitterMain env now) = (if emitterEventType (emArgs env) = ''PreToolUse'' then claudeProceedPre else ''{}'') @ [CHR 0x0A]"
    using MustProceed_nonempty [of "emitterEventType (emArgs env)"] by (simp add: emitterMain_def writeProceed_def MustProceed_cases)
  show "snd (emitterMain env now) \<noteq> None \<longleftrightarrow>
      (\<exists>raw p. emStdin env = Some raw \<and> length raw \<le> 1048576 \<and> TrimSpace raw \<noteq> [] \<and>
               parseWire (emUnmarshal env) (TrimSpace raw) = Inr p \<and> reportable env now p)"
    by (auto simp: emitterMain_def emitterEvent_def readHookPayload_def maxHookPayload_def Let_def valid_iff_reportable not_less
        simp del: not_None_eq split: option.split sum.split)
  show "\<forall>sem. snd (emitterMain env now) = Some sem \<longrightarrow>
      ValidateSemanticEvent sem = None \<and> sPID sem = emPID env \<and> sPPID sem = emPPID env \<and> aID (sAgent sem) = ''claude''"
    using emitted_is_built [of env now] by (auto simp: normalized_fields build_fields trimmed_claude)
qed

text \<open>C33. No access key leaves the machine as a value in the description of a tool call: in the input summary of an event
  the hook emits, at every level, a string value that is not a file path has no \<open>sk-\<close> key, no \<open>ghp_\<close> token and no
  \<open>AKIA\<close> key of eight or more characters, and a member whose name speaks of a secret has the word \<open>[redacted]\<close> as its
  value. The names of members are kept as they are.\<close>

theorem emitted_summary_has_no_keys:
  assumes "snd (emitterMain env now) = Some sem"
  shows "(\<forall>c s. (c, s) \<in> set (string_leaves [] (JObj (items (sInputSummary sem)))) \<longrightarrow> c = ''file_path'' \<or> c = ''path'' \<or>
            (\<forall>pre rest. s = pre @ rest \<longrightarrow> \<not> starts_key ''sk-'' is_word_dash 8 rest \<and>
               \<not> starts_key ''ghp_'' is_word 8 rest \<and> \<not> starts_key ''AKIA'' is_digit_upper 8 rest)) \<and>
         (\<forall>(k, v) \<in> set (members (JObj (items (sInputSummary sem)))).
            list_ex (Contains (ToLower k)) [''secret'', ''token'', ''password'', ''api_key'', ''apikey'', ''access_key'', ''private_key''] \<longrightarrow>
            v = JStr ''[redacted]'')"
proof -
  obtain p where "sem = NormalizeSemanticEvent now (buildSemanticEvent env now p)" using emitted_is_built [OF assms] by blast
  then have "sInputSummary sem = Some (items (sanitizeInput (pToolInput p)))" by (simp only: normalized_fields build_fields)
  then obtain kvs where doc: "items (sInputSummary sem) = map (\<lambda>(k, v). (k, sanitizeInputValue 3 k v)) kvs"
    by (cases "pToolInput p") (auto simp: sanitizeInput_def items_def)
  have free: "\<not> starts_key w D lo rest" if "key_free w D lo (pre @ rest)" "w \<noteq> []" for w D lo pre and rest :: string
    using that by (induction pre) (cases rest, auto simp: starts_key_def)
  have "safe_doc [] (JObj (items (sInputSummary sem)))" using safe_value by (auto simp: doc list_all_iff)
  then have "list_all safe_leaf (string_leaves [] (JObj (items (sInputSummary sem))))" by (simp only: safe_doc_def)
  then have "c = ''file_path'' \<or> c = ''path'' \<or> no_keys s" if "(c, s) \<in> set (string_leaves [] (JObj (items (sInputSummary sem))))" for c s
    using that by (auto simp: list_all_iff safe_leaf_def simp del: string_leaves.simps)
  moreover have "list_all safe_member (members (JObj (items (sInputSummary sem))))"
    using safe_members [of 3] sanitized_secret [of _ 3] by (fastforce simp: doc list_all_iff safe_member_def)
  ultimately show ?thesis using free by (fastforce simp: no_keys_def safe_member_def isSensitiveKey_def list_all_iff simp del: string_leaves.simps members.simps)
qed

lemma member_names_are_kept: "sanitizeInput (Some [(''sk-abcdefgh'', JStr ''x'')]) = Some [(''sk-abcdefgh'', JStr ''x'')]"
  by code_simp

text \<open>A call that carries a key in its command and a password.\<close>

definition demoPayload :: wirePayload where
  "demoPayload = \<lparr>wHookEventName = ''PreToolUse'', wHookEventNameAlt = [], wSessionID = ''s1'', wToolName = ''Bash'',
     wToolInput = Some [(''command'', JStr ''ls sk-abcdefgh''), (''password'', JStr ''hunter2'')],
     wToolUseID = ''t1'', wToolOutput = [], wCWD = ''/w'', wTranscriptPath = []\<rparr>"

definition demoEmitter :: EmitterEnv where
  "demoEmitter = \<lparr>emArgs = [''pretooluse''], emStdin = Some ''payload'', emPID = 9, emPPID = 7, emGetwd = None,
     emManagedSession = [], emUnmarshal = (\<lambda>raw. Inr demoPayload), emSHA1 = (\<lambda>s. ''da39a3ee5e6b4b0d''),
     emURLParse = (\<lambda>s. None), emURLStripped = (\<lambda>s. s), emHeuristics = hClassify defaultHeuristics\<rparr>"

lemma demo_emitted:
  "\<exists>sem. snd (emitterMain demoEmitter 5) = Some sem \<and>
     sInputSummary sem = Some [(''command'', JStr ''ls sk-[redacted]''), (''password'', JStr ''[redacted]'')]"
proof -
  define p where "p = (case parseWire (emUnmarshal demoEmitter) ''payload'' of Inr p \<Rightarrow> p)"
  have p: "parseWire (emUnmarshal demoEmitter) ''payload'' = Inr p" by (simp add: p_def parseWire_def demoEmitter_def)
  have "readHookPayload (emStdin demoEmitter) = Some ''payload''" by (simp add: readHookPayload_def maxHookPayload_def demoEmitter_def)
  moreover have "TrimSpace ''payload'' = ''payload''" by code_simp
  moreover have "reportable demoEmitter 5 p" unfolding p_def by code_simp
  ultimately have "snd (emitterMain demoEmitter 5) = Some (NormalizeSemanticEvent 5 (buildSemanticEvent demoEmitter 5 p))"
    using p by (simp add: emitterMain_def emitterEvent_def Let_def valid_iff_reportable del: not_None_eq)
  moreover have "sanitizeInput (pToolInput p) = Some [(''command'', JStr ''ls sk-[redacted]''), (''password'', JStr ''[redacted]'')]"
    unfolding p_def by code_simp
  ultimately show ?thesis by (simp add: normalized_fields build_fields)
qed

theorem emitter_fails_open_witness:
  "fst (emitterMain demoEmitter 5) = claudeProceedPre @ [CHR 0x0A] \<and>
   (\<exists>sem. snd (emitterMain demoEmitter 5) = Some sem \<and> sPID sem = 9)"
proof -
  have "emitterEventType (emArgs demoEmitter) = ''PreToolUse''" "emPID demoEmitter = 9" by code_simp+
  then show ?thesis using emitter_fails_open [of demoEmitter 5] demo_emitted by auto
qed

theorem emitted_summary_has_no_keys_witness:
  "\<exists>sem. snd (emitterMain demoEmitter 5) = Some sem \<and>
     \<not> starts_key ''sk-'' is_word_dash 8 ''sk-[redacted]'' \<and> (''password'', JStr ''[redacted]'') \<in> set (members (JObj (items (sInputSummary sem))))"
proof -
  obtain sem where sem: "snd (emitterMain demoEmitter 5) = Some sem"
    "sInputSummary sem = Some [(''command'', JStr ''ls sk-[redacted]''), (''password'', JStr ''[redacted]'')]"
    using demo_emitted by blast
  have text1: "''ls sk-[redacted]'' = ''ls '' @ ''sk-[redacted]''" by simp
  have "(''command'', ''ls sk-[redacted]'') \<in> set (string_leaves [] (JObj (items (sInputSummary sem))))" using sem(2) by simp
  then have "\<not> starts_key ''sk-'' is_word_dash 8 ''sk-[redacted]''"
    using conjunct1 [OF emitted_summary_has_no_keys [OF sem(1)]] unfolding text1 by fastforce
  then show ?thesis using sem by simp
qed

end
