(* ===== verification/Go_OS.thy ===== *)
theory Go_OS
  imports Go_Path "HOL-Library.State_Monad" "HOL-Library.Word"
begin

text \<open>
  The file system calls the command-line programs make, as a state monad over the files. Every call
  that Go's \<open>os\<close> package makes may fail: the state carries a schedule of faults, and each call
  takes one entry from it. A fault refuses a call or interrupts a write or a recursive removal after
  some of its work is done; a schedule that has run out means no further faults, so a statement for
  every schedule covers every way the calls can fail. Path names stand for files as they are written:
  links and different spellings of one path are not identified. The state also holds what a program has
  printed and the fingerprints in the System keychain of macOS.
\<close>

unbundle bit_operations_syntax

section \<open>Definitions\<close>

named_theorems io_simps \<open>what a file system call does\<close>
named_theorems readonly_intros \<open>programs that change no file\<close>

type_synonym mode = "32 word"

datatype node = DirNode mode | FileNode mode string

datatype os_error = ErrNotExist | ErrIsDir | ErrNotDir | ErrNotEmpty | ErrIO

datatype fault = Refused | Partial nat

record OS =
  osFiles :: "(string, node) gomap"
  osFaults :: "fault option list"
  osUmask :: mode
  osOut :: "string list"
  osKeychain :: "string list"

type_synonym 'a io = "(OS, 'a) state"

abbreviation node_at :: "OS \<Rightarrow> string \<Rightarrow> node option" where
  "node_at s p \<equiv> mget (osFiles s) p"

definition set_node :: "string \<Rightarrow> node \<Rightarrow> OS \<Rightarrow> OS" where
  "set_node p n s = s\<lparr>osFiles := mput p n (osFiles s)\<rparr>"

definition next_fault :: "OS \<Rightarrow> fault option" where
  "next_fault s = (case osFaults s of [] \<Rightarrow> None | f # _ \<Rightarrow> f)"

definition pop_fault :: "OS \<Rightarrow> OS" where
  "pop_fault s = s\<lparr>osFaults := tl (osFaults s)\<rparr>"

text \<open>A call without intermediate states: it is refused or it happens.\<close>

definition syscall :: "(OS \<Rightarrow> (os_error + 'a) \<times> OS) \<Rightarrow> (os_error + 'a) io" where
  "syscall f = State (\<lambda>s. case next_fault s of Some _ \<Rightarrow> (Inl ErrIO, pop_fault s) | None \<Rightarrow> f (pop_fault s))"

definition isDirAt :: "OS \<Rightarrow> string \<Rightarrow> bool" where
  "isDirAt s p = (p = ''/'' \<or> p = ''.'' \<or> (case node_at s p of Some (DirNode _) \<Rightarrow> True | _ \<Rightarrow> False))"

definition Stat :: "string \<Rightarrow> (os_error + node) io" where
  "Stat p = syscall (\<lambda>s. (case node_at s p of None \<Rightarrow> Inl ErrNotExist | Some n \<Rightarrow> Inr n, s))"

definition ReadFile :: "string \<Rightarrow> (os_error + string) io" where
  "ReadFile p = syscall (\<lambda>s.
     (case node_at s p of None \<Rightarrow> Inl ErrNotExist | Some (DirNode _) \<Rightarrow> Inl ErrIsDir | Some (FileNode _ c) \<Rightarrow> Inr c, s))"

text \<open>Writing truncates the file first; an existing file keeps its permissions.\<close>

definition writtenMode :: "OS \<Rightarrow> string \<Rightarrow> mode \<Rightarrow> mode" where
  "writtenMode s p perm = (case node_at s p of Some (FileNode m _) \<Rightarrow> m | _ \<Rightarrow> perm AND NOT (osUmask s))"

definition WriteFile :: "string \<Rightarrow> string \<Rightarrow> mode \<Rightarrow> (os_error + unit) io" where
  "WriteFile p body perm = State (\<lambda>s0.
     let s = pop_fault s0
     in if next_fault s0 = Some Refused then (Inl ErrIO, s)
        else case node_at s p of
          Some (DirNode _) \<Rightarrow> (Inl ErrIsDir, s)
        | _ \<Rightarrow>
            if \<not> isDirAt s (Dir p) then (Inl ErrNotExist, s)
            else case next_fault s0 of
              Some (Partial n) \<Rightarrow> (Inl ErrIO, set_node p (FileNode (writtenMode s p perm) (take n body)) s)
            | _ \<Rightarrow> (Inr (), set_node p (FileNode (writtenMode s p perm) body) s))"

definition Rename :: "string \<Rightarrow> string \<Rightarrow> (os_error + unit) io" where
  "Rename src dst = syscall (\<lambda>s.
     case node_at s src of
       None \<Rightarrow> (Inl ErrNotExist, s)
     | Some (DirNode _) \<Rightarrow> (Inl ErrIsDir, s)
     | Some (FileNode m c) \<Rightarrow>
         if \<not> isDirAt s (Dir dst) then (Inl ErrNotExist, s)
         else case node_at s dst of
           Some (DirNode _) \<Rightarrow> (Inl ErrIsDir, s)
         | _ \<Rightarrow> (Inr (), s\<lparr>osFiles := mput dst (FileNode m c) (mdel src (osFiles s))\<rparr>))"

definition below :: "string \<Rightarrow> string \<Rightarrow> bool" where
  "below dir p = HasPrefix p (dir @ ''/'')"

definition Remove :: "string \<Rightarrow> (os_error + unit) io" where
  "Remove p = syscall (\<lambda>s.
     case node_at s p of
       None \<Rightarrow> (Inl ErrNotExist, s)
     | Some (DirNode _) \<Rightarrow>
         if list_ex (\<lambda>(q, n). below p q) (osFiles s) then (Inl ErrNotEmpty, s)
         else (Inr (), s\<lparr>osFiles := mdel p (osFiles s)\<rparr>)
     | Some (FileNode _ _) \<Rightarrow> (Inr (), s\<lparr>osFiles := mdel p (osFiles s)\<rparr>))"

text \<open>A recursive removal that is interrupted has removed some of the entries.\<close>

fun remove_under :: "string \<Rightarrow> nat \<Rightarrow> (string, node) gomap \<Rightarrow> (string, node) gomap" where
  "remove_under dir n [] = []"
| "remove_under dir n ((q, v) # fs) =
     (if q = dir \<or> below dir q
      then (case n of 0 \<Rightarrow> (q, v) # fs | Suc m \<Rightarrow> remove_under dir m fs)
      else (q, v) # remove_under dir n fs)"

definition RemoveAll :: "string \<Rightarrow> (os_error + unit) io" where
  "RemoveAll p = State (\<lambda>s0.
     let s = pop_fault s0
     in case next_fault s0 of
          Some Refused \<Rightarrow> (Inl ErrIO, s)
        | Some (Partial n) \<Rightarrow> (Inl ErrIO, s\<lparr>osFiles := remove_under p n (osFiles s)\<rparr>)
        | None \<Rightarrow> (Inr (), s\<lparr>osFiles := filter (\<lambda>(q, v). \<not> (q = p \<or> below p q)) (osFiles s)\<rparr>))"

text \<open>\<open>os.MkdirAll\<close>: the missing directories on the way to a path, outermost first.\<close>

fun dirChain :: "nat \<Rightarrow> string \<Rightarrow> string list" where
  "dirChain 0 p = [p]"
| "dirChain (Suc n) p = (let d = Dir p in if d = p \<or> d = ''/'' \<or> d = ''.'' then [p] else dirChain n d @ [p])"

fun make_dirs :: "mode \<Rightarrow> string list \<Rightarrow> OS \<Rightarrow> (os_error + unit) \<times> OS" where
  "make_dirs perm [] s = (Inr (), s)"
| "make_dirs perm (p # ps) s =
     (if isDirAt s p then make_dirs perm ps s
      else case node_at s p of
        Some _ \<Rightarrow> (Inl ErrNotDir, s)
      | None \<Rightarrow> make_dirs perm ps (set_node p (DirNode (perm AND NOT (osUmask s))) s))"

definition MkdirAll :: "string \<Rightarrow> mode \<Rightarrow> (os_error + unit) io" where
  "MkdirAll p perm = syscall (\<lambda>s. if isDirAt s p then (Inr (), s) else make_dirs perm (dirChain (length p) p) s)"

definition Chmod :: "string \<Rightarrow> mode \<Rightarrow> (os_error + unit) io" where
  "Chmod p perm = syscall (\<lambda>s.
     case node_at s p of
       None \<Rightarrow> if p = ''/'' \<or> p = ''.'' then (Inr (), s) else (Inl ErrNotExist, s)
     | Some (DirNode _) \<Rightarrow> (Inr (), set_node p (DirNode perm) s)
     | Some (FileNode _ c) \<Rightarrow> (Inr (), set_node p (FileNode perm c) s))"

definition Println :: "string \<Rightarrow> unit io" where
  "Println line = State (\<lambda>s. ((), s\<lparr>osOut := osOut s @ [line]\<rparr>))"

text \<open>Permission bits of a node, and the checks on them.\<close>

fun nodeMode :: "node \<Rightarrow> mode" where
  "nodeMode (DirNode m) = m"
| "nodeMode (FileNode m c) = m"

fun nodeIsDir :: "node \<Rightarrow> bool" where
  "nodeIsDir (DirNode m) = True"
| "nodeIsDir (FileNode m c) = False"

definition perm600 :: mode where "perm600 = 0x180"
definition perm700 :: mode where "perm700 = 0x1C0"
definition perm644 :: mode where "perm644 = 0x1A4"
definition anyExec :: mode where "anyExec = 0x49"
definition worldWrite :: mode where "worldWrite = 2"

definition nodeExecutable :: "node \<Rightarrow> bool" where
  "nodeExecutable n = (\<not> nodeIsDir n \<and> nodeMode n AND anyExec \<noteq> 0)"

text \<open>\<open>os.CreateTemp\<close> with the name it chooses, which no file has yet; writing to the open file, closing it.\<close>

definition CreateTemp :: "string \<Rightarrow> (os_error + unit) io" where
  "CreateTemp tmp = syscall (\<lambda>s.
     if \<not> isDirAt s (Dir tmp) then (Inl ErrNotExist, s)
     else if node_at s tmp \<noteq> None then (Inl ErrIO, s)
     else (Inr (), set_node tmp (FileNode (perm600 AND NOT (osUmask s)) []) s))"

definition WriteOpen :: "string \<Rightarrow> string \<Rightarrow> (os_error + unit) io" where
  "WriteOpen p body = State (\<lambda>s0.
     let s = pop_fault s0
     in case node_at s p of
          Some (FileNode m c) \<Rightarrow>
            (case next_fault s0 of
               None \<Rightarrow> (Inr (), set_node p (FileNode m (c @ body)) s)
             | Some Refused \<Rightarrow> (Inl ErrIO, s)
             | Some (Partial n) \<Rightarrow> (Inl ErrIO, set_node p (FileNode m (c @ take n body)) s))
        | _ \<Rightarrow> (Inl ErrIO, s))"

definition Close :: "(os_error + unit) io" where
  "Close = syscall (\<lambda>s. (Inr (), s))"

text \<open>\<open>if err != nil { return err }\<close>: go on with the value, or return the error.\<close>

definition attempt :: "('e + 'a) io \<Rightarrow> ('a \<Rightarrow> ('e + 'b) io) \<Rightarrow> ('e + 'b) io" where
  "attempt m k = do { r \<leftarrow> m; case r of Inl e \<Rightarrow> State_Monad.return (Inl e) | Inr x \<Rightarrow> k x }"

text \<open>An error of one type returned as another, as \<open>fmt.Errorf\<close> wraps one.\<close>

definition wrapped :: "('e \<Rightarrow> 'f) \<Rightarrow> ('e + 'a) io \<Rightarrow> ('f + 'a) io" where
  "wrapped w m = do { r \<leftarrow> m; State_Monad.return (case r of Inl e \<Rightarrow> Inl (w e) | Inr x \<Rightarrow> Inr x) }"

text \<open>Replacing a file by a finished temporary one: a step that fails removes the temporary file. The
  settings of the user interface and the daemon's status are saved this way.\<close>

definition orRemove :: "string \<Rightarrow> (os_error + 'a) io \<Rightarrow> (os_error + 'a) io" where
  "orRemove tmp m =
     do { r \<leftarrow> m;
          case r of
            Inl e \<Rightarrow> do { _ \<leftarrow> Remove tmp; State_Monad.return (Inl e) }
          | Inr x \<Rightarrow> State_Monad.return (Inr x) }"

definition replaceFile :: "string \<Rightarrow> string \<Rightarrow> string \<Rightarrow> (os_error + unit) io" where
  "replaceFile tmp path raw =
     attempt (CreateTemp tmp) (\<lambda>_.
     attempt (orRemove tmp (WriteOpen tmp raw)) (\<lambda>_.
     attempt (orRemove tmp Close) (\<lambda>_.
     attempt (orRemove tmp (Chmod tmp perm600)) (\<lambda>_.
     attempt (orRemove tmp (Rename tmp path)) (\<lambda>_.
     Chmod path perm600)))))"

section \<open>Lemmas\<close>

definition contentAt :: "OS \<Rightarrow> string \<Rightarrow> string option" where
  "contentAt s p = (case node_at s p of Some (FileNode _ c) \<Rightarrow> Some c | _ \<Rightarrow> None)"

text \<open>A program that changes no file, and meets no fault where none is scheduled.\<close>

definition readonly :: "'a io \<Rightarrow> bool" where
  "readonly m = (\<forall>s. osFiles (snd (run_state m s)) = osFiles s \<and> osUmask (snd (run_state m s)) = osUmask s \<and>
     (osFaults s = [] \<longrightarrow> osFaults (snd (run_state m s)) = []))"

lemma pop_fault_simps [simp]:
  "osFiles (pop_fault s) = osFiles s" "osUmask (pop_fault s) = osUmask s" "osOut (pop_fault s) = osOut s"
  "osFaults s = [] \<Longrightarrow> pop_fault s = s"
  by (simp_all add: pop_fault_def)

lemma next_fault_Nil [simp]: "osFaults s = [] \<Longrightarrow> next_fault s = None"
  by (simp add: next_fault_def)

lemma set_node_simps [simp]:
  "node_at (set_node p n s) q = (if q = p then Some n else node_at s q)"
  "osFaults (set_node p n s) = osFaults s" "osUmask (set_node p n s) = osUmask s" "osOut (set_node p n s) = osOut s"
  by (simp_all add: set_node_def)

lemma run_attempt [simp]:
  "run_state (attempt m k) s = (case run_state m s of (Inl e, s') \<Rightarrow> (Inl e, s') | (Inr x, s') \<Rightarrow> run_state (k x) s')"
  by (simp add: attempt_def split: prod.split sum.split)

lemma run_wrapped [simp]:
  "run_state (wrapped w m) s = (case run_state m s of (Inl e, s') \<Rightarrow> (Inl (w e), s') | (Inr x, s') \<Rightarrow> (Inr x, s'))"
  by (simp add: wrapped_def split: prod.split sum.split)

lemma run_Println [simp]: "run_state (Println line) s = ((), s\<lparr>osOut := osOut s @ [line]\<rparr>)"
  by (simp add: Println_def)

lemma readonlyD: "readonly m \<Longrightarrow> run_state m s = (r, s') \<Longrightarrow> osFiles s' = osFiles s"
  unfolding readonly_def by (metis snd_conv)

lemma readonly_return [readonly_intros]: "readonly (State_Monad.return x)"
  by (simp add: readonly_def)

lemma readonly_bind [readonly_intros]: "readonly m \<Longrightarrow> (\<And>x. readonly (k x)) \<Longrightarrow> readonly (State_Monad.bind m k)"
  by (simp add: readonly_def prod.case_eq_if)

lemma readonly_attempt [readonly_intros]: "readonly m \<Longrightarrow> (\<And>x. readonly (k x)) \<Longrightarrow> readonly (attempt m k)"
  unfolding attempt_def by (intro readonly_intros) (simp_all add: readonly_intros split: sum.split)

lemma readonly_wrapped [readonly_intros]: "readonly m \<Longrightarrow> readonly (wrapped w m)"
  unfolding wrapped_def by (intro readonly_intros)

lemma readonly_syscall: "(\<And>s. snd (f s) = s) \<Longrightarrow> readonly (syscall f)"
  by (simp add: readonly_def syscall_def split: option.split)

lemma readonly_Stat [readonly_intros]: "readonly (Stat p)"
  unfolding Stat_def by (rule readonly_syscall) simp

lemma readonly_ReadFile [readonly_intros]: "readonly (ReadFile p)"
  unfolding ReadFile_def by (rule readonly_syscall) simp

lemma readonly_Println [readonly_intros]: "readonly (Println line)"
  by (simp add: readonly_def)

lemma readonly_if [readonly_intros]: "readonly a \<Longrightarrow> readonly b \<Longrightarrow> readonly (if c then a else b)"
  by simp

lemma readonly_case_sum [readonly_intros]:
  "(\<And>e. readonly (a e)) \<Longrightarrow> (\<And>x. readonly (b x)) \<Longrightarrow> readonly (case r of Inl e \<Rightarrow> a e | Inr x \<Rightarrow> b x)"
  by (cases r) simp_all

lemma readonly_case_option [readonly_intros]:
  "readonly a \<Longrightarrow> (\<And>x. readonly (b x)) \<Longrightarrow> readonly (case r of None \<Rightarrow> a | Some x \<Rightarrow> b x)"
  by (cases r) simp_all

text \<open>The calls when no fault is scheduled.\<close>

lemma run_Stat [io_simps]:
  "osFaults s = [] \<Longrightarrow> run_state (Stat p) s = (case node_at s p of None \<Rightarrow> Inl ErrNotExist | Some n \<Rightarrow> Inr n, s)"
  by (simp add: Stat_def syscall_def)

lemma run_ReadFile [io_simps]:
  "osFaults s = [] \<Longrightarrow> run_state (ReadFile p) s =
     (case node_at s p of None \<Rightarrow> Inl ErrNotExist | Some (DirNode _) \<Rightarrow> Inl ErrIsDir | Some (FileNode _ c) \<Rightarrow> Inr c, s)"
  by (simp add: ReadFile_def syscall_def)

lemma run_WriteFile [io_simps]:
  "osFaults s = [] \<Longrightarrow> isDirAt s (Dir p) \<Longrightarrow> (\<And>m. node_at s p \<noteq> Some (DirNode m)) \<Longrightarrow>
     run_state (WriteFile p body perm) s = (Inr (), set_node p (FileNode (writtenMode s p perm) body) s)"
  by (auto simp: WriteFile_def Let_def split: option.split node.split)

lemma run_MkdirAll [io_simps]:
  "osFaults s = [] \<Longrightarrow> isDirAt s p \<Longrightarrow> run_state (MkdirAll p perm) s = (Inr (), s)"
  by (simp add: MkdirAll_def syscall_def)

lemma run_Rename [io_simps]:
  "osFaults s = [] \<Longrightarrow> node_at s src = Some (FileNode m c) \<Longrightarrow> isDirAt s (Dir dst) \<Longrightarrow>
     (\<And>m. node_at s dst \<noteq> Some (DirNode m)) \<Longrightarrow>
     run_state (Rename src dst) s = (Inr (), s\<lparr>osFiles := mput dst (FileNode m c) (mdel src (osFiles s))\<rparr>)"
  by (auto simp: Rename_def syscall_def split: option.split node.split)

lemma isDirAt_set_file: "(\<And>m. node_at s p \<noteq> Some (DirNode m)) \<Longrightarrow> isDirAt (set_node p (FileNode m c) s) d \<longleftrightarrow> d = ''/'' \<or> d = ''.'' \<or> isDirAt s d"
  by (auto simp: isDirAt_def split: option.split node.split)

text \<open>What each call can do to the content of a file, whatever fails.\<close>

lemma WriteFile_other:
  "run_state (WriteFile p body perm) s = (r, s') \<Longrightarrow> q \<noteq> p \<Longrightarrow> node_at s' q = node_at s q"
  by (auto simp: WriteFile_def Let_def split: if_split_asm option.split_asm node.split_asm fault.split_asm)

lemma WriteFile_ok:
  "run_state (WriteFile p body perm) s = (Inr u, s') \<Longrightarrow> contentAt s' p = Some body"
  by (auto simp: WriteFile_def Let_def contentAt_def split: if_split_asm option.split_asm node.split_asm fault.split_asm)

lemma Rename_cases:
  assumes "run_state (Rename src dst) s = (r, s')"
  shows "(\<exists>e. r = Inl e) \<and> osFiles s' = osFiles s \<or>
    r = Inr () \<and> (\<exists>m c. node_at s src = Some (FileNode m c) \<and>
      osFiles s' = mput dst (FileNode m c) (mdel src (osFiles s)))"
  using assms
  by (auto simp: Rename_def syscall_def split: option.split_asm node.split_asm if_split_asm)

lemma make_dirs_node:
  "make_dirs perm ps s = (r, s') \<Longrightarrow>
     node_at s' q = node_at s q \<or> node_at s q = None \<and> q \<in> set ps \<and> (\<exists>m. node_at s' q = Some (DirNode m))"
proof (induction ps arbitrary: s)
  case (Cons p ps)
  show ?case
  proof (cases "isDirAt s p \<or> node_at s p \<noteq> None")
    case True
    then show ?thesis using Cons.prems Cons.IH [of s] by (auto split: if_split_asm)
  next
    case False
    then have "make_dirs perm ps (set_node p (DirNode (perm AND NOT (osUmask s))) s) = (r, s')"
      using Cons.prems by auto
    from Cons.IH [OF this] False show ?thesis by (auto split: if_split_asm)
  qed
qed simp

lemma MkdirAll_node:
  assumes "run_state (MkdirAll p perm) s = (r, s')"
  shows "node_at s' q = node_at s q \<or> node_at s q = None \<and> (\<exists>m. node_at s' q = Some (DirNode m))"
  using assms make_dirs_node [of perm "dirChain (length p) p" "pop_fault s" r s' q]
  by (auto simp: MkdirAll_def syscall_def split: option.split_asm if_split_asm)

lemma MkdirAll_content: "run_state (MkdirAll p perm) s = (r, s') \<Longrightarrow> contentAt s' q = contentAt s q"
  using MkdirAll_node [of p perm s r s' q] by (auto simp: contentAt_def)

lemma isDirAt_mono: "(\<And>n. node_at s q = Some n \<Longrightarrow> node_at s' q = Some n) \<Longrightarrow> isDirAt s q \<Longrightarrow> isDirAt s' q"
  by (auto simp: isDirAt_def split: option.split_asm node.split_asm)

lemma make_dirs_ok: "make_dirs perm ps s = (Inr u, s') \<Longrightarrow> p \<in> set ps \<Longrightarrow> isDirAt s' p"
proof (induction ps arbitrary: s)
  case (Cons a ps)
  obtain t where t: "make_dirs perm ps t = (Inr u, s')" "isDirAt t a"
    using Cons.prems(1) by (auto simp: isDirAt_def split: if_split_asm option.split_asm)
  have "isDirAt s' a"
    by (rule isDirAt_mono [OF _ t(2)]) (use make_dirs_node [OF t(1), of a] in auto)
  then show ?case using Cons.IH [OF t(1)] Cons.prems(2) by auto
qed simp

lemma dirChain_self: "p \<in> set (dirChain n p)"
  by (cases n) (auto simp: Let_def)

lemma MkdirAll_ok: "run_state (MkdirAll p perm) s = (Inr u, s') \<Longrightarrow> isDirAt s' p"
  by (auto simp: MkdirAll_def syscall_def split: option.split_asm if_split_asm intro: make_dirs_ok [OF _ dirChain_self])

lemma contentAt_cong: "osFiles s' = osFiles s \<Longrightarrow> contentAt s' p = contentAt s p"
  by (simp add: contentAt_def)

lemma contentAt_out [simp]: "contentAt (osOut_update g s) p = contentAt s p"
  by (simp add: contentAt_def)

lemma contentAt_node: "node_at s' p = node_at s p \<Longrightarrow> contentAt s' p = contentAt s p"
  by (simp add: contentAt_def)

section \<open>Weakest preconditions\<close>

definition wp :: "'a io \<Rightarrow> ('a \<Rightarrow> OS \<Rightarrow> bool) \<Rightarrow> OS \<Rightarrow> bool" where
  "wp m Q s = (case run_state m s of (r, s') \<Rightarrow> Q r s')"

named_theorems wp_simps \<open>weakest preconditions of the control structures\<close>

lemma wp_run: "wp m Q s \<Longrightarrow> run_state m s = (r, s') \<Longrightarrow> Q r s'"
  by (simp add: wp_def)

lemma wp_mono: "wp m Q s \<Longrightarrow> (\<And>r s'. Q r s' \<Longrightarrow> Q' r s') \<Longrightarrow> wp m Q' s"
  by (auto simp: wp_def)

lemma wp_return [wp_simps]: "wp (State_Monad.return x) Q s = Q x s"
  by (simp add: wp_def)

lemma wp_bind [wp_simps]: "wp (State_Monad.bind m k) Q s = wp m (\<lambda>x. wp (k x) Q) s"
  by (simp add: wp_def split: prod.split)

lemma wp_attempt [wp_simps]:
  "wp (attempt m k) Q s = wp m (\<lambda>r s'. case r of Inl e \<Rightarrow> Q (Inl e) s' | Inr x \<Rightarrow> wp (k x) Q s') s"
  by (simp add: wp_def split: prod.split sum.split)

lemma wp_wrapped [wp_simps]:
  "wp (wrapped w m) Q s = wp m (\<lambda>r s'. case r of Inl e \<Rightarrow> Q (Inl (w e)) s' | Inr x \<Rightarrow> Q (Inr x) s') s"
  by (simp add: wp_def split: prod.split sum.split)

lemma wp_Println [wp_simps]: "wp (Println line) Q s = Q () (s\<lparr>osOut := osOut s @ [line]\<rparr>)"
  by (simp add: wp_def)

lemma wp_if [wp_simps]: "wp (if c then a else b) Q s = (if c then wp a Q s else wp b Q s)"
  by simp

lemma wp_readonly: "readonly m \<Longrightarrow> (\<And>r s'. osFiles s' = osFiles s \<Longrightarrow> Q r s') \<Longrightarrow> wp m Q s"
  unfolding wp_def readonly_def by (metis prod.case_eq_if)

lemma wp_readonly_calm:
  "readonly m \<Longrightarrow> osFaults s = [] \<Longrightarrow>
     (\<And>r s'. osFiles s' = osFiles s \<Longrightarrow> osFaults s' = [] \<Longrightarrow> osUmask s' = osUmask s \<Longrightarrow> Q r s') \<Longrightarrow> wp m Q s"
  unfolding wp_def readonly_def by (metis prod.case_eq_if)

text \<open>Each call, whatever fails: an error leaves the files as they were unless a write was interrupted.\<close>

lemma wp_CreateTemp:
  assumes "\<And>e s'. osFiles s' = osFiles s \<Longrightarrow> Q (Inl e) s'"
    "\<And>s' m. node_at s tmp = None \<Longrightarrow> osFiles s' = osFiles (set_node tmp (FileNode m []) s) \<Longrightarrow> Q (Inr ()) s'"
  shows "wp (CreateTemp tmp) Q s"
  using assms by (auto simp: wp_def CreateTemp_def syscall_def set_node_def split: option.split)

lemma wp_Stat:
  assumes "\<And>e s'. osFiles s' = osFiles s \<Longrightarrow> Q (Inl e) s'"
    "\<And>n s'. osFiles s' = osFiles s \<Longrightarrow> node_at s p = Some n \<Longrightarrow> Q (Inr n) s'"
  shows "wp (Stat p) Q s"
  using assms by (auto simp: wp_def Stat_def syscall_def split: option.split)

lemma wp_ReadFile:
  assumes "\<And>e s'. osFiles s' = osFiles s \<Longrightarrow> (e = ErrNotExist \<longrightarrow> node_at s p = None) \<Longrightarrow> Q (Inl e) s'"
    "\<And>m c s'. osFiles s' = osFiles s \<Longrightarrow> node_at s p = Some (FileNode m c) \<Longrightarrow> Q (Inr c) s'"
  shows "wp (ReadFile p) Q s"
  using assms by (auto simp: wp_def ReadFile_def syscall_def split: option.split node.split)

lemma wp_WriteOpen:
  assumes "\<And>e s'. (\<And>q. q \<noteq> p \<Longrightarrow> node_at s' q = node_at s q) \<Longrightarrow> Q (Inl e) s'"
    "\<And>s' m c. node_at s p = Some (FileNode m c) \<Longrightarrow> osFiles s' = osFiles (set_node p (FileNode m (c @ body)) s) \<Longrightarrow> Q (Inr ()) s'"
  shows "wp (WriteOpen p body) Q s"
  using assms by (auto simp: wp_def WriteOpen_def Let_def set_node_def split: option.split node.split fault.split)

lemma wp_Close: "(\<And>r s'. osFiles s' = osFiles s \<Longrightarrow> Q r s') \<Longrightarrow> wp Close Q s"
  by (auto simp: wp_def Close_def syscall_def split: option.split)

lemma wp_Chmod:
  assumes "\<And>e s'. osFiles s' = osFiles s \<Longrightarrow> Q (Inl e) s'"
    "\<And>s'. (\<And>q. q \<noteq> p \<Longrightarrow> node_at s' q = node_at s q) \<Longrightarrow> contentAt s' p = contentAt s p \<Longrightarrow>
       (\<And>n. node_at s p = Some n \<Longrightarrow> \<exists>n'. node_at s' p = Some n' \<and> nodeMode n' = perm \<and> nodeIsDir n' = nodeIsDir n) \<Longrightarrow> Q (Inr ()) s'"
  shows "wp (Chmod p perm) Q s"
  using assms by (auto simp: wp_def Chmod_def syscall_def contentAt_def split: option.split node.split)

lemma wp_Remove:
  assumes "\<And>r s'. (\<And>q. q \<noteq> p \<Longrightarrow> node_at s' q = node_at s q) \<Longrightarrow>
     (r = Inr () \<or> r = Inl ErrNotExist \<longrightarrow> node_at s' p = None) \<Longrightarrow> Q r s'"
  shows "wp (Remove p) Q s"
  by (auto simp: wp_def Remove_def syscall_def split: option.split node.split intro!: assms)

lemma wp_Rename:
  assumes "\<And>e s'. osFiles s' = osFiles s \<Longrightarrow> Q (Inl e) s'"
    "\<And>s' m c. node_at s src = Some (FileNode m c) \<Longrightarrow>
       osFiles s' = mput dst (FileNode m c) (mdel src (osFiles s)) \<Longrightarrow> Q (Inr ()) s'"
  shows "wp (Rename src dst) Q s"
  using assms by (auto simp: wp_def Rename_def syscall_def split: option.split node.split)

lemma wp_MkdirAll:
  assumes "\<And>r s'. (\<And>q. contentAt s' q = contentAt s q) \<Longrightarrow> (\<And>q n. node_at s q = Some n \<Longrightarrow> node_at s' q = Some n) \<Longrightarrow>
    (r = Inr () \<longrightarrow> isDirAt s' p) \<Longrightarrow> Q r s'"
  shows "wp (MkdirAll p perm) Q s"
proof -
  obtain r s' where run: "run_state (MkdirAll p perm) s = (r, s')" by (cases "run_state (MkdirAll p perm) s")
  have "node_at s q = Some n \<Longrightarrow> node_at s' q = Some n" for q n
    using MkdirAll_node [OF run, of q] by auto
  then show ?thesis
    using assms [of s' r] MkdirAll_content [OF run] MkdirAll_ok [of p perm s "()" s'] run by (auto simp: wp_def)
qed

lemma wp_WriteFile:
  assumes "\<And>e s'. (\<And>q. q \<noteq> p \<Longrightarrow> node_at s' q = node_at s q) \<Longrightarrow> Q (Inl e) s'"
    "\<And>s'. osFiles s' = osFiles (set_node p (FileNode (writtenMode s p perm) body) s) \<Longrightarrow> Q (Inr ()) s'"
  shows "wp (WriteFile p body perm) Q s"
  using assms
  by (auto simp: wp_def WriteFile_def Let_def set_node_def writtenMode_def split: option.split node.split fault.split)

lemma wp_orRemove:
  assumes "wp m (\<lambda>r s'. case r of Inl e \<Rightarrow> \<forall>s''. (\<forall>q. q \<noteq> tmp \<longrightarrow> node_at s'' q = node_at s' q) \<longrightarrow> Q (Inl e) s'' | Inr x \<Rightarrow> Q (Inr x) s') s"
  shows "wp (orRemove tmp m) Q s"
  unfolding orRemove_def wp_bind
  by (rule wp_mono [OF assms]) (auto simp: wp_simps split: sum.split_asm intro!: wp_Remove)

text \<open>Whatever fails, replacing a file leaves it as it was or gives it the whole new content, and
  touches no other file but the temporary one; when it succeeds the file is private and the
  temporary file is gone.\<close>

lemma contentAt_Some: "contentAt s p = Some c \<longleftrightarrow> (\<exists>m. node_at s p = Some (FileNode m c))"
  by (auto simp: contentAt_def split: option.split node.split)

lemma wp_replaceFile:
  assumes "tmp \<noteq> path"
  shows "wp (replaceFile tmp path raw) (\<lambda>r s'.
    (contentAt s' path = contentAt s path \<or> contentAt s' path = Some raw) \<and>
    (\<forall>q. q \<noteq> tmp \<longrightarrow> q \<noteq> path \<longrightarrow> node_at s' q = node_at s q) \<and>
    (r = Inr () \<longrightarrow> node_at s' path = Some (FileNode perm600 raw) \<and> node_at s' tmp = None)) s"
  unfolding replaceFile_def wp_attempt
proof (rule wp_CreateTemp, goal_cases)
  case (2 s1 m)
  then have t1: "node_at s1 tmp = Some (FileNode m [])" and o1: "\<And>q. q \<noteq> tmp \<Longrightarrow> node_at s1 q = node_at s q"
    by simp_all
  show ?case unfolding sum.case
  proof (rule wp_orRemove, rule wp_WriteOpen, goal_cases)
    case (2 s2 m2 c)
    then have t2: "node_at s2 tmp = Some (FileNode m raw)" and o2: "\<And>q. q \<noteq> tmp \<Longrightarrow> node_at s2 q = node_at s q"
      using t1 o1 by simp_all
    show ?case unfolding sum.case
    proof (rule wp_orRemove, rule wp_Close, goal_cases)
      case (1 r3 s3)
      then show ?case using t2 o2 assms
        by (auto simp: contentAt_def intro!: wp_orRemove wp_Chmod wp_Rename split: sum.split node.split_asm)
    qed
  qed (use o1 assms in \<open>auto simp: contentAt_def\<close>)
qed (auto simp: contentAt_def)

section \<open>Saving a document\<close>

text \<open>What a program that saves a document promises: whatever fails, the file keeps its content or
  holds the whole new one, and a save that reports success holds the new one.\<close>

definition savePost :: "string \<Rightarrow> string option \<Rightarrow> OS \<Rightarrow> 'e + unit \<Rightarrow> OS \<Rightarrow> bool" where
  "savePost path enc s r s' =
     ((contentAt s' path = contentAt s path \<or> enc \<noteq> None \<and> contentAt s' path = enc) \<and>
      (r = Inr () \<longrightarrow> enc \<noteq> None \<and> contentAt s' path = enc))"

lemma savePost_kept: "contentAt s' path = contentAt s path \<Longrightarrow> savePost path enc s (Inl e) s'"
  by (simp add: savePost_def)

lemma savePost_cong: "contentAt s path = contentAt t path \<Longrightarrow> savePost path enc s r s' = savePost path enc t r s'"
  by (simp add: savePost_def)

locale atomic_save =
  fixes save :: "'a \<Rightarrow> ('e + unit) io"
    and path :: "'a \<Rightarrow> string"
    and encode :: "'a \<Rightarrow> string option"
    and ok :: "'a \<Rightarrow> bool"
  assumes save_atomic: "ok a \<Longrightarrow> wp (save a) (savePost (path a) (encode a) s) s"
begin

lemma saved_or_kept:
  "ok a \<Longrightarrow> contentAt (snd (run_state (save a) s)) (path a) \<in> {contentAt s (path a), encode a}"
  using save_atomic [of a s] by (auto simp: wp_def savePost_def split: prod.split_asm)

lemma saved_ok:
  "ok a \<Longrightarrow> run_state (save a) s = (Inr u, s') \<Longrightarrow> encode a \<noteq> None \<and> contentAt s' (path a) = encode a"
  using wp_run [OF save_atomic, of a s "Inr u" s'] by (simp add: savePost_def)

text \<open>A whole run of saves to one file, each of which may fail: the file never holds a torn document.\<close>

lemma never_torn:
  "(\<And>a. a \<in> set as \<Longrightarrow> ok a \<and> path a = p) \<Longrightarrow>
     contentAt (fold (\<lambda>a s. snd (run_state (save a) s)) as s) p \<in> insert (contentAt s p) (encode ` set as)"
proof (induction as arbitrary: s)
  case (Cons a as)
  have "contentAt (snd (run_state (save a) s)) p \<in> {contentAt s p, encode a}"
    using saved_or_kept [of a s] Cons.prems by simp
  moreover have "contentAt (fold (\<lambda>a s. snd (run_state (save a) s)) as (snd (run_state (save a) s))) p
      \<in> insert (contentAt (snd (run_state (save a) s)) p) (encode ` set as)"
    using Cons.prems by (intro Cons.IH) simp
  ultimately show ?case by auto
qed simp

end

end
