(* ===== verification/Daemon_Out.thy ===== *)
theory Daemon_Out
  imports Corr_State Event Go_Path
begin

text \<open>
  What the daemon writes: the session transcripts (\<open>internal/runtime/transcript.go\<close>), the status snapshot
  (\<open>statusReporter\<close> in \<open>cmd/daemon/main.go\<close>) and the queue of events for the user interface
  (\<open>uiForwarder\<close>). Files are a map from paths to their appended records; whether a file can be written is
  the parameter \<open>writable\<close>, and \<open>now\<close> is the clock reading of the call. The status is the snapshot that is
  saved; how it is saved is in the theory of the runtime paths, and the dial and write loop of the forwarder in the
  one of the forwarder.
\<close>

section \<open>Definitions\<close>

datatype ui_event =
    UISemantic SemanticEvent
  | UINetwork NetworkFlowEvent
  | UICorrelated CorrelatedEvent
  | UIInspected InspectedHTTPExchange
  | UILifecycle AgentLifecycleEvent
  | UIGap PauseGapEvent

definition SchemaTranscriptV0 :: string where "SchemaTranscriptV0 = ''agentsnitch.transcript.v0''"

record TranscriptRecord =
  trSchema :: string
  trTS :: time
  trKind :: string
  trEvent :: ui_event

definition safe_char :: "char \<Rightarrow> bool" where
  "safe_char c =
     (let n = of_char c :: nat
      in (48 \<le> n \<and> n \<le> 57) \<or> (65 \<le> n \<and> n \<le> 90) \<or> (97 \<le> n \<and> n \<le> 122) \<or> c \<in> set ''._-'')"

text \<open>\<open>unsafeSessionChars.ReplaceAllString(id, "_")\<close>: one underscore for each run of other characters.\<close>

function replace_unsafe :: "string \<Rightarrow> string" where
  "replace_unsafe [] = []"
| "replace_unsafe (c # cs) =
     (if safe_char c then c # replace_unsafe cs else CHR ''_'' # replace_unsafe (dropWhile (\<lambda>d. \<not> safe_char d) cs))"
  by pat_completeness auto
termination by (relation "measure length") (auto simp: le_imp_less_Suc length_dropWhile_le)

definition safeSessionID :: "string \<Rightarrow> string" where
  "safeSessionID sessionID0 =
     (let s1 = TrimSpace sessionID0
      in if s1 = [] then ''unassigned''
         else
           let s2 = Trim (replace_unsafe s1) ''._-''
           in if s2 = [] then ''unassigned''
              else if length s2 > 128 then take 128 s2 else s2)"

definition TranscriptPath :: "string \<Rightarrow> string \<Rightarrow> string" where
  "TranscriptPath dir sessionID = PathJoin [dir, safeSessionID sessionID, ''events.jsonl'']"

record Status =
  LastSemantic :: "SemanticEvent option"
  LastNetwork :: "NetworkFlowEvent option"
  LastCorrelated :: "CorrelatedEvent option"
  LastInspectedHTTP :: "InspectedHTTPExchange option"
  LastTranscriptPath :: string
  LastTranscriptKind :: string
  LastTranscriptAt :: time
  ObserverMode :: string
  ObserverSources :: "string list"
  DaemonStartedAt :: time
  UpdatedAt :: time

record DaemonOut =
  transcripts :: "(string, TranscriptRecord list) gomap"
  uiQueue :: "ui_event list"
  status :: Status
  sources :: "string list"

record OutEnv =
  TranscriptsDir :: string
  writable :: "string \<Rightarrow> bool"

definition transcriptAppend :: "OutEnv \<Rightarrow> time \<Rightarrow> string \<Rightarrow> string \<Rightarrow> ui_event \<Rightarrow>
    (string, TranscriptRecord list) gomap \<Rightarrow> (string, TranscriptRecord list) gomap option" where
  "transcriptAppend e now sessionID kind ev files =
     (let path = TranscriptPath (TranscriptsDir e) sessionID;
          rec = \<lparr>trSchema = SchemaTranscriptV0, trTS = now, trKind = TrimSpace kind, trEvent = ev\<rparr>
      in if writable e path then Some (mput path (items (mget files path) @ [rec]) files) else None)"

definition observerModeForSources :: "string list \<Rightarrow> string" where
  "observerModeForSources srcs = (if ''network_extension'' \<in> set srcs then ''high_assurance_active'' else ''user_visibility'')"

definition newStatusReporter :: "time \<Rightarrow> Status \<times> string list" where
  "newStatusReporter now =
     (\<lparr>LastSemantic = None, LastNetwork = None, LastCorrelated = None, LastInspectedHTTP = None,
       LastTranscriptPath = [], LastTranscriptKind = [], LastTranscriptAt = 0, ObserverMode = ''user_visibility'',
       ObserverSources = [], DaemonStartedAt = now, UpdatedAt = now\<rparr>, [])"

definition writeLocked :: "time \<Rightarrow> ('a) Status_scheme \<Rightarrow> ('a) Status_scheme" where
  "writeLocked now s =
     (if ObserverMode s = [] then s\<lparr>ObserverMode := observerModeForSources (ObserverSources s)\<rparr> else s)\<lparr>UpdatedAt := now\<rparr>"

definition recordSemantic :: "time \<Rightarrow> SemanticEvent \<Rightarrow> DaemonOut \<Rightarrow> DaemonOut" where
  "recordSemantic now ev d = d\<lparr>status := writeLocked now ((status d)\<lparr>LastSemantic := Some ev\<rparr>)\<rparr>"

definition sortedObserverSources :: "string list \<Rightarrow> string list" where
  "sortedObserverSources srcs = sort srcs"

definition recordNetwork :: "time \<Rightarrow> NetworkFlowEvent \<Rightarrow> DaemonOut \<Rightarrow> DaemonOut" where
  "recordNetwork now ev d =
     (let source = TrimSpace (fObserver ev);
          srcs = (if source \<noteq> [] then set_add source (sources d) else sources d);
          sorted = sortedObserverSources srcs
      in d\<lparr>sources := srcs,
           status := writeLocked now ((status d)\<lparr>LastNetwork := Some ev, ObserverSources := sorted,
                                                ObserverMode := observerModeForSources sorted\<rparr>)\<rparr>)"

definition recordCorrelated :: "time \<Rightarrow> CorrelatedEvent \<Rightarrow> DaemonOut \<Rightarrow> DaemonOut" where
  "recordCorrelated now ev d = d\<lparr>status := writeLocked now ((status d)\<lparr>LastCorrelated := Some ev\<rparr>)\<rparr>"

definition recordInspectedHTTP :: "time \<Rightarrow> InspectedHTTPExchange \<Rightarrow> DaemonOut \<Rightarrow> DaemonOut" where
  "recordInspectedHTTP now ev d = d\<lparr>status := writeLocked now ((status d)\<lparr>LastInspectedHTTP := Some ev\<rparr>)\<rparr>"

definition recordTranscript :: "time \<Rightarrow> string \<Rightarrow> string \<Rightarrow> DaemonOut \<Rightarrow> DaemonOut" where
  "recordTranscript now kind path d =
     d\<lparr>status := writeLocked now ((status d)\<lparr>LastTranscriptKind := kind, LastTranscriptPath := path, LastTranscriptAt := now\<rparr>)\<rparr>"

definition appendTranscript :: "OutEnv \<Rightarrow> time \<Rightarrow> string \<Rightarrow> string \<Rightarrow> ui_event \<Rightarrow> DaemonOut \<Rightarrow> DaemonOut" where
  "appendTranscript e now sessionID kind ev d =
     (case transcriptAppend e now sessionID kind ev (transcripts d) of
        None \<Rightarrow> d
      | Some files \<Rightarrow> recordTranscript now kind (TranscriptPath (TranscriptsDir e) sessionID) (d\<lparr>transcripts := files\<rparr>))"

definition uiForwardQueueSize :: nat where "uiForwardQueueSize = 256"

text \<open>\<open>enqueue\<close> drops the oldest entry and retries until there is room; it gives up when there is
  nothing to drop.\<close>

fun enqueue :: "ui_event \<Rightarrow> ui_event list \<Rightarrow> ui_event list" where
  "enqueue b [] = (if 0 < uiForwardQueueSize then [b] else [])"
| "enqueue b (x # queue) =
     (if length (x # queue) < uiForwardQueueSize then (x # queue) @ [b] else enqueue b queue)"

definition forwardToUI :: "ui_event \<Rightarrow> DaemonOut \<Rightarrow> DaemonOut" where
  "forwardToUI v d = d\<lparr>uiQueue := enqueue v (uiQueue d)\<rparr>"

definition correlationSessionID :: "CorrelatedEvent \<Rightarrow> string" where
  "correlationSessionID c =
     (case find (\<lambda>sem. sessID (sSession sem) \<noteq> []) (cSemantics c) of
        Some sem \<Rightarrow> sessID (sSession sem)
      | None \<Rightarrow> ''correlated'')"

definition logCorrelation :: "OutEnv \<Rightarrow> time \<Rightarrow> CorrelatedEvent \<Rightarrow> DaemonOut \<Rightarrow> DaemonOut" where
  "logCorrelation e now c d =
     (if ValidateCorrelatedEvent now c \<noteq> None then d
      else appendTranscript e now (correlationSessionID c) ''correlated'' (UICorrelated c) (recordCorrelated now c d))"

section \<open>Lemmas\<close>

lemma enqueue_room: "length queue < uiForwardQueueSize \<Longrightarrow> enqueue b queue = queue @ [b]"
  by (cases queue) simp_all

lemma enqueue_full: "uiForwardQueueSize \<le> length queue \<Longrightarrow>
    enqueue b queue = drop (Suc (length queue) - uiForwardQueueSize) (queue @ [b])"
proof (induction queue)
  case (Cons x queue)
  show ?case
  proof (cases "uiForwardQueueSize \<le> length queue")
    case True
    then show ?thesis using Cons by (simp add: Suc_diff_le)
  next
    case False
    then have "length queue < uiForwardQueueSize" "Suc (length queue) - uiForwardQueueSize = 0" using Cons.prems by simp_all
    then show ?thesis using Cons.prems by (simp add: enqueue_room Suc_diff_le)
  qed
qed (simp add: uiForwardQueueSize_def)

interpretation ui_ring: bounded_buffer enqueue uiForwardQueueSize
  by unfold_locales (fact enqueue_room enqueue_full)+

lemma safe_chars: "list_all safe_char (replace_unsafe s)"
  by (induction s rule: replace_unsafe.induct) (auto simp: safe_char_def)

lemma replace_unsafe_subset: "c \<in> set (replace_unsafe s) \<Longrightarrow> safe_char c"
  using safe_chars [of s] by (auto simp: list_all_iff)

lemma take_first: "s \<noteq> [] \<Longrightarrow> 0 < n \<Longrightarrow> hd (take n s) = hd s \<and> take n s \<noteq> []"
  by (cases s) auto

text \<open>The directory name of a session: safe characters, not too long, not starting with a dot.\<close>

lemma safeSessionID_safe:
  "list_all safe_char (safeSessionID s) \<and> length (safeSessionID s) \<le> 128 \<and> safeSessionID s \<noteq> [] \<and>
   hd (safeSessionID s) \<notin> set ''._-''"
proof -
  let ?t = "Trim (replace_unsafe (TrimSpace s)) ''._-''"
  have un: "list_all safe_char ''unassigned''" "length ''unassigned'' \<le> 128" "hd ''unassigned'' \<notin> set ''._-''"
    by (simp_all add: safe_char_def)
  show ?thesis
  proof (cases "?t = [] \<or> TrimSpace s = []")
    case True
    then show ?thesis using un by (auto simp: safeSessionID_def Let_def)
  next
    case False
    have "set ?t \<subseteq> set (replace_unsafe (TrimSpace s))" by (rule Trim_subset)
    then have a: "list_all safe_char ?t" using replace_unsafe_subset by (auto simp: list_all_iff)
    have b: "hd ?t \<notin> set ''._-''" using False trim_by_hd unfolding Trim_def by blast
    have e: "safeSessionID s = take 128 ?t" using False by (auto simp: safeSessionID_def Let_def)
    have "list_all safe_char (take 128 ?t)" using a by (auto simp: list_all_iff dest: in_set_takeD)
    then show ?thesis using b take_first [of ?t 128] False unfolding e by auto
  qed
qed

lemma safe_not_slash: "\<not> safe_char CHR ''/''" by code_simp

lemma plain_elem_safe: "plain_elem (safeSessionID s)"
  using safeSessionID_safe [of s] safe_not_slash by (auto simp: plain_elem_def list_all_iff)

lemma TranscriptPath_under:
  assumes "dir \<noteq> []" "Clean dir \<noteq> ''/''" "Clean dir \<noteq> ''.''"
  shows "TranscriptPath dir s = Clean dir @ ''/'' @ safeSessionID s @ ''/'' @ ''events.jsonl''"
proof -
  have ps: "list_all plain_elem [safeSessionID s, ''events.jsonl'']" using plain_elem_safe by (simp add: plain_elem_def)
  show ?thesis
    unfolding TranscriptPath_def
    using PathJoin_clean [OF ps _ assms(1)] PathJoin_under [OF ps _ assms(2,3)] by simp
qed

lemma transcript_prefix:
  "prefix (items (mget (transcripts d) p)) (items (mget (transcripts (appendTranscript e now sid kind ev d)) p))"
  by (auto simp: appendTranscript_def transcriptAppend_def recordTranscript_def Let_def split: option.splits if_splits)

lemma logCorrelation_prefix:
  "prefix (items (mget (transcripts d) p)) (items (mget (transcripts (logCorrelation e now c d)) p))"
  using transcript_prefix [of "recordCorrelated now c d" p] by (auto simp: logCorrelation_def recordCorrelated_def)

lemma uiQueue_forward: "uiQueue (fold forwardToUI evs d) = fold enqueue evs (uiQueue d)"
  by (induction evs arbitrary: d) (simp_all add: forwardToUI_def)

section \<open>Properties\<close>

text \<open>C39. A transcript never leaves its directory: whatever the session identifier of a hook payload
  contains (separators, dots, control characters), the file written is the \<open>events.jsonl\<close> of one
  subdirectory of the transcripts directory whose name is at most 128 characters of a safe alphabet and
  does not start with a dot.\<close>

theorem transcript_stays_in_directory:
  assumes "dir \<noteq> []" "Clean dir \<noteq> ''/''" "Clean dir \<noteq> ''.''"
  shows "\<exists>name. TranscriptPath dir sessionID = Clean dir @ ''/'' @ name @ ''/events.jsonl'' \<and> name \<noteq> [] \<and>
    length name \<le> 128 \<and> list_all safe_char name \<and> hd name \<notin> set ''._-''"
  using TranscriptPath_under [OF assms, of sessionID] safeSessionID_safe [of sessionID] by auto

theorem transcript_stays_in_directory_witness:
  "TranscriptPath ''/u/.agentsnitch/sessions'' ''../../etc/passwd'' = ''/u/.agentsnitch/sessions/etc_passwd/events.jsonl'' \<and>
   (\<exists>name. TranscriptPath ''/u/.agentsnitch/sessions'' ''../../etc/passwd'' =
      Clean ''/u/.agentsnitch/sessions'' @ ''/'' @ name @ ''/events.jsonl'' \<and> hd name \<notin> set ''._-'')"
proof -
  have "Clean ''/u/.agentsnitch/sessions'' = ''/u/.agentsnitch/sessions''" by code_simp
  then have "\<exists>name. TranscriptPath ''/u/.agentsnitch/sessions'' ''../../etc/passwd'' =
      Clean ''/u/.agentsnitch/sessions'' @ ''/'' @ name @ ''/events.jsonl'' \<and> hd name \<notin> set ''._-''"
    using transcript_stays_in_directory [of "''/u/.agentsnitch/sessions''" "''../../etc/passwd''"] by auto
  moreover have "TranscriptPath ''/u/.agentsnitch/sessions'' ''../../etc/passwd'' =
    ''/u/.agentsnitch/sessions/etc_passwd/events.jsonl''" by code_simp
  ultimately show ?thesis by blast
qed

text \<open>Slow readers cost only old events: after any sequence of forwarded events the queue for the user
  interface holds exactly the newest 256 of everything queued and forwarded, in order, and forwarding never
  touches the transcripts or the status.\<close>

theorem ui_queue_keeps_newest:
  "uiQueue (fold forwardToUI evs (d\<lparr>uiQueue := []\<rparr>)) = drop (length evs - 256) evs \<and>
   length (uiQueue (fold forwardToUI evs (d\<lparr>uiQueue := []\<rparr>))) \<le> 256 \<and>
   transcripts (forwardToUI ev d) = transcripts d \<and> status (forwardToUI ev d) = status d"
  using ui_ring.push_history_Nil [of evs]
  by (simp add: uiQueue_forward uiForwardQueueSize_def) (simp add: forwardToUI_def)

end
