(* ===== verification/Runtime_Paths.thy ===== *)
theory Runtime_Paths
  imports Go_OS Daemon_Out
begin

text \<open>
  \<open>internal/runtime/paths.go\<close> and \<open>internal/runtime/status.go\<close>: where the programs keep their sockets, logs and
  status, and how the daemon saves its status snapshot. The environment of the process is a record;
  dialling the sockets, \<open>json.Unmarshal\<close> and \<open>json.MarshalIndent\<close> are arguments, and the random part of a temporary
  file's name is one too. The status record is \<open>Status\<close> of the theory of the daemon's outputs.
\<close>

section \<open>Definitions\<close>

record ProcEnv =
  peGetenv :: "string \<Rightarrow> string"
  peExecutable :: "string option"
  peCwd :: "string option"
  peTempDir :: string

definition UserHomeDir :: "('a) ProcEnv_scheme \<Rightarrow> string option" where
  "UserHomeDir e = (let home = peGetenv e ''HOME'' in if home = [] then None else Some home)"

definition SupportDir :: "('a) ProcEnv_scheme \<Rightarrow> string option" where
  "SupportDir e = map_option (\<lambda>home. PathJoin [home, ''.agentsnitch'']) (UserHomeDir e)"

definition ensurePrivateDir :: "string \<Rightarrow> unit io" where
  "ensurePrivateDir dir =
     (if dir = [] then State_Monad.return ()
      else do { _ \<leftarrow> MkdirAll dir perm700; _ \<leftarrow> Chmod dir perm700; State_Monad.return () })"

definition firstEnv :: "('a) ProcEnv_scheme \<Rightarrow> string list \<Rightarrow> string option" where
  "firstEnv e ks = find (\<lambda>p. p \<noteq> []) (map (peGetenv e) ks)"

text \<open>A file of the support directory, which is made private on the way; without a home directory, a fixed path.\<close>

definition supportFile :: "('a) ProcEnv_scheme \<Rightarrow> string list \<Rightarrow> string \<Rightarrow> string \<Rightarrow> string io" where
  "supportFile e ks name fallback =
     (case firstEnv e ks of
        Some p \<Rightarrow> State_Monad.return p
      | None \<Rightarrow>
          (case SupportDir e of
             Some dir \<Rightarrow> do { _ \<leftarrow> ensurePrivateDir dir; State_Monad.return (PathJoin [dir, name]) }
           | None \<Rightarrow> State_Monad.return fallback))"

definition SocketPath :: "('a) ProcEnv_scheme \<Rightarrow> string io" where
  "SocketPath e = supportFile e [''AGENTSNITCH_SOCK'', ''AGENTSNITCH_SOCKET''] ''events.sock'' ''/tmp/agentsnitch-dev.sock''"

definition EmitterLogPath :: "('a) ProcEnv_scheme \<Rightarrow> string io" where
  "EmitterLogPath e = supportFile e [''AGENTSNITCH_EMITTER_LOG''] ''emitter.log'' ''/tmp/agentsnitch-emitter.log''"

definition DefaultUIUDSSocket :: string where "DefaultUIUDSSocket = ''ui.sock''"

definition UISocketPath :: "('a) ProcEnv_scheme \<Rightarrow> string io" where
  "UISocketPath e = supportFile e [''AGENTSNITCH_UI_SOCK''] DefaultUIUDSSocket ''/tmp/agentsnitch-ui.sock''"

definition DialDaemon :: "('a) ProcEnv_scheme \<Rightarrow> (string \<Rightarrow> bool) \<Rightarrow> bool io" where
  "DialDaemon e dial = do { p \<leftarrow> SocketPath e; State_Monad.return (dial p) }"

definition DialUI :: "('a) ProcEnv_scheme \<Rightarrow> (string \<Rightarrow> bool) \<Rightarrow> bool io" where
  "DialUI e dial = do { p \<leftarrow> UISocketPath e; State_Monad.return (dial p) }"

definition besideExecutable :: "('a) ProcEnv_scheme \<Rightarrow> string option io" where
  "besideExecutable e =
     (case peExecutable e of
        None \<Rightarrow> State_Monad.return None
      | Some exe \<Rightarrow>
          (let candidate = PathJoin [Dir exe, ''emitter'']
           in do { st \<leftarrow> Stat candidate; State_Monad.return (case st of Inr _ \<Rightarrow> Some candidate | Inl _ \<Rightarrow> None) }))"

definition DefaultEmitterPath :: "('a) ProcEnv_scheme \<Rightarrow> string io" where
  "DefaultEmitterPath e =
     (if peGetenv e ''AGENTSNITCH_EMITTER'' \<noteq> [] then State_Monad.return (peGetenv e ''AGENTSNITCH_EMITTER'')
      else do {
        beside \<leftarrow> besideExecutable e;
        State_Monad.return (case beside of
          Some candidate \<Rightarrow> candidate
        | None \<Rightarrow> (case peCwd e of Some cwd \<Rightarrow> PathJoin [cwd, ''bin'', ''emitter''] | None \<Rightarrow> ''emitter'')) })"

definition statusPathOf :: "('a) ProcEnv_scheme \<Rightarrow> string" where
  "statusPathOf e =
     (if peGetenv e ''AGENTSNITCH_STATUS'' \<noteq> [] then peGetenv e ''AGENTSNITCH_STATUS''
      else case UserHomeDir e of
        Some home \<Rightarrow> PathJoin [PathJoin [home, ''.agentsnitch''], ''status.json'']
      | None \<Rightarrow> ''/tmp/agentsnitch-status.json'')"

definition StatusPath :: "('a) ProcEnv_scheme \<Rightarrow> string io" where
  "StatusPath e =
     (if peGetenv e ''AGENTSNITCH_STATUS'' = [] \<and> UserHomeDir e \<noteq> None
      then do { _ \<leftarrow> MkdirAll (PathJoin [the (UserHomeDir e), ''.agentsnitch'']) perm700; State_Monad.return (statusPathOf e) }
      else State_Monad.return (statusPathOf e))"

datatype status_error = StatusOS os_error | StatusJSON

definition ReadStatus :: "('a) ProcEnv_scheme \<Rightarrow> (string \<Rightarrow> 's option) \<Rightarrow> (status_error + 's) io" where
  "ReadStatus e unmarshal =
     do { path \<leftarrow> StatusPath e;
          attempt (wrapped StatusOS (ReadFile path)) (\<lambda>raw.
            State_Monad.return (case unmarshal raw of None \<Rightarrow> Inl StatusJSON | Some st \<Rightarrow> Inr st)) }"

definition stampStatus :: "time \<Rightarrow> Status \<Rightarrow> Status" where
  "stampStatus now st = (if IsZero (UpdatedAt st) then st\<lparr>UpdatedAt := now\<rparr> else st)"

definition tempFile :: "string \<Rightarrow> string \<Rightarrow> string \<Rightarrow> string" where
  "tempFile dir stem rnd = dir @ ''/'' @ stem @ rnd @ ''.json''"

definition WriteStatus :: "('a) ProcEnv_scheme \<Rightarrow> (Status \<Rightarrow> string option) \<Rightarrow> time \<Rightarrow> string \<Rightarrow> Status \<Rightarrow> (status_error + unit) io" where
  "WriteStatus e marshal now rnd st =
     do { path \<leftarrow> StatusPath e;
          attempt (wrapped StatusOS (MkdirAll (Dir path) perm700)) (\<lambda>_.
            case marshal (stampStatus now st) of
              None \<Rightarrow> State_Monad.return (Inl StatusJSON)
            | Some raw \<Rightarrow> wrapped StatusOS (replaceFile (tempFile (Dir path) ''.status-'' rnd) path raw)) }"

definition transcriptsDir :: "('a) ProcEnv_scheme \<Rightarrow> string io" where
  "transcriptsDir e =
     (if peGetenv e ''AGENTSNITCH_TRANSCRIPTS_DIR'' \<noteq> [] then State_Monad.return (peGetenv e ''AGENTSNITCH_TRANSCRIPTS_DIR'')
      else case UserHomeDir e of
        Some home \<Rightarrow>
          (let dir = PathJoin [home, ''.agentsnitch'', ''sessions''] in do { _ \<leftarrow> MkdirAll dir perm700; State_Monad.return dir })
      | None \<Rightarrow> State_Monad.return (PathJoin [peTempDir e, ''agentsnitch-sessions'']))"

section \<open>Lemmas\<close>

text \<open>A save waits for its directories, encodes, and replaces: the shape of every atomic save of the programs.\<close>

lemma wp_save_via_replace:
  assumes "tmp \<noteq> path"
  shows "wp (attempt (wrapped w (MkdirAll dir perm)) (\<lambda>_.
      case enc of None \<Rightarrow> State_Monad.return (Inl err) | Some raw \<Rightarrow> wrapped w (replaceFile tmp path raw)))
    (\<lambda>r s'. savePost path enc s r s' \<and> (r = Inr () \<longrightarrow> node_at s' path = map_option (FileNode perm600) enc)) s"
  unfolding wp_simps
proof (rule wp_MkdirAll, goal_cases)
  case (1 r s1)
  then show ?case
  proof (cases enc)
    case (Some raw)
    with 1 show ?thesis
      by (auto simp: wp_simps contentAt_Some savePost_def split: sum.split
            intro!: wp_mono [OF wp_replaceFile [OF assms, of raw s1]])
  qed (auto simp: wp_simps savePost_def split: sum.split)
qed

lemma StatusPath_result: "wp (StatusPath e) (\<lambda>p s'. p = statusPathOf e \<and> (\<forall>q. contentAt s' q = contentAt s q)) s"
  unfolding StatusPath_def by (auto simp: wp_simps intro!: wp_MkdirAll)

text \<open>The daemon's status: the random name of the temporary file is not the status file's own.\<close>

type_synonym status_save = "ProcEnv \<times> (Status \<Rightarrow> string option) \<times> time \<times> string \<times> Status"

definition saveStatus :: "status_save \<Rightarrow> (status_error + unit) io" where
  "saveStatus = (\<lambda>(e, marshal, now, rnd, st). WriteStatus e marshal now rnd st)"

definition statusEncoding :: "status_save \<Rightarrow> string option" where
  "statusEncoding = (\<lambda>(e, marshal, now, rnd, st). marshal (stampStatus now st))"

definition freshStatusTemp :: "status_save \<Rightarrow> bool" where
  "freshStatusTemp = (\<lambda>(e, marshal, now, rnd, st). tempFile (Dir (statusPathOf e)) ''.status-'' rnd \<noteq> statusPathOf e)"

lemma wp_WriteStatus:
  assumes "tempFile (Dir (statusPathOf e)) ''.status-'' rnd \<noteq> statusPathOf e"
  shows "wp (WriteStatus e marshal now rnd st) (\<lambda>r s'. savePost (statusPathOf e) (marshal (stampStatus now st)) s r s' \<and>
    (r = Inr () \<longrightarrow> node_at s' (statusPathOf e) = map_option (FileNode perm600) (marshal (stampStatus now st)))) s"
  unfolding WriteStatus_def wp_bind
proof (rule wp_mono [OF StatusPath_result], goal_cases)
  case (1 path s1)
  then have "contentAt s1 (statusPathOf e) = contentAt s (statusPathOf e)" by simp
  then have post: "savePost (statusPathOf e) enc s = (savePost (statusPathOf e) enc s1 :: status_error + unit \<Rightarrow> OS \<Rightarrow> bool)" for enc
    by (intro ext) (metis savePost_cong)
  from 1 show ?case
    unfolding post by (simp only: simp_thms) (rule wp_save_via_replace [OF assms])
qed

interpretation statusFile: atomic_save saveStatus "\<lambda>(e, _). statusPathOf e" statusEncoding freshStatusTemp
  by unfold_locales
     (auto simp: saveStatus_def statusEncoding_def freshStatusTemp_def elim!: wp_mono [OF wp_WriteStatus])

end
