(* ===== verification/Inspect_CA.thy ===== *)
theory Inspect_CA
  imports Runtime_Paths Inspect_Settings Go_Net
begin

text \<open>
  \<open>internal/inspect/paths.go\<close>, \<open>cert_manager.go\<close> and the loading and saving of the settings (\<open>config.go\<close>): the certificate
  authority of the inspection proxy and its files. \<open>crypto/x509\<close>, \<open>encoding/pem\<close>, the hashes and random numbers are a
  record of parameters. A certificate is its encoding and the template it was made from. The mutex of the
  manager is not modelled: every method is one step.
\<close>

section \<open>Definitions\<close>

subsection \<open>Paths and settings\<close>

record Paths =
  pBaseDir :: string
  pCAPath :: string
  pKeyPath :: string
  pBundlePath :: string
  pLeafDir :: string
  pDataDir :: string

definition inspectBase :: "('a) ProcEnv_scheme \<Rightarrow> string" where
  "inspectBase e =
     (let base = TrimSpace (peGetenv e ''AGENTSNITCH_INSPECT_DIR'')
      in if base \<noteq> [] then base
         else case UserHomeDir e of
           Some home \<Rightarrow> PathJoin [home, ''Library'', ''Application Support'', ''AgentSnitch'', ''inspect'']
         | None \<Rightarrow> PathJoin [peTempDir e, ''AgentSnitch'', ''inspect''])"

definition pathsIn :: "string \<Rightarrow> Paths" where
  "pathsIn base = \<lparr>pBaseDir = base, pCAPath = PathJoin [base, ''ca.pem''], pKeyPath = PathJoin [base, ''ca-key.pem''],
     pBundlePath = PathJoin [base, ''process-scoped-ca-bundle.pem''], pLeafDir = PathJoin [base, ''leaf-cache''],
     pDataDir = PathJoin [base, ''payloads'']\<rparr>"

definition DefaultPaths :: "('a) ProcEnv_scheme \<Rightarrow> Paths" where
  "DefaultPaths e = pathsIn (inspectBase e)"

fun ensure_dirs :: "string list \<Rightarrow> (os_error + unit) io" where
  "ensure_dirs [] = State_Monad.return (Inr ())"
| "ensure_dirs (dir # dirs) =
     attempt (MkdirAll dir perm700) (\<lambda>_. attempt (Chmod dir perm700) (\<lambda>_. ensure_dirs dirs))"

definition EnsureDirs :: "Paths \<Rightarrow> (os_error + unit) io" where
  "EnsureDirs paths = ensure_dirs [pBaseDir paths, pLeafDir paths, pDataDir paths]"

definition SettingsPath :: "('a) ProcEnv_scheme \<Rightarrow> string" where
  "SettingsPath e =
     (let path = TrimSpace (peGetenv e ''AGENTSNITCH_UI_SETTINGS'')
      in if path \<noteq> [] then path
         else case UserHomeDir e of
           Some home \<Rightarrow> PathJoin [home, ''.agentsnitch'', ''ui-settings.json'']
         | None \<Rightarrow> PathJoin [peTempDir e, ''agentsnitch-ui-settings.json''])"

datatype inspect_error = IOError os_error | InvalidJSON | Invalid string

record SettingsCodec = ProcEnv +
  scUnmarshal :: "string \<Rightarrow> Settings \<Rightarrow> string + Settings"
  scMarshal :: "Settings \<Rightarrow> string option"

definition fileRead :: "os_error + string \<Rightarrow> file_read" where
  "fileRead r = (case r of Inl ErrNotExist \<Rightarrow> FileMissing | Inl e \<Rightarrow> FileError ''read error'' | Inr raw \<Rightarrow> FileContent raw)"

definition loadSettings :: "('a) SettingsCodec_scheme \<Rightarrow> (Settings \<times> string option) io" where
  "loadSettings e =
     do { r \<leftarrow> ReadFile (SettingsPath e); State_Monad.return (LoadSettings (scUnmarshal e) (fileRead r)) }"

definition savedSettings :: "time \<Rightarrow> Settings \<Rightarrow> Settings" where
  "savedSettings now settings = (normalizeSettings settings)\<lparr>HTTPSInspectUpdatedAt := now\<rparr>"

definition SaveSettings :: "('a) SettingsCodec_scheme \<Rightarrow> time \<Rightarrow> string \<Rightarrow> Settings \<Rightarrow> (inspect_error + unit) io" where
  "SaveSettings e now rnd settings =
     (let path = SettingsPath e
      in attempt (wrapped IOError (MkdirAll (Dir path) perm700)) (\<lambda>_.
           case scMarshal e (savedSettings now settings) of
             None \<Rightarrow> State_Monad.return (Inl InvalidJSON)
           | Some raw \<Rightarrow> wrapped IOError (replaceFile (tempFile (Dir path) ''.ui-settings-'' rnd) path raw)))"

subsection \<open>Certificates\<close>

record Template =
  tSerial :: int
  tCommonName :: string
  tOrganization :: "string list"
  tNotBefore :: time
  tNotAfter :: time
  tKeyUsage :: "string list"
  tExtKeyUsage :: "string list"
  tIsCA :: bool
  tIPAddresses :: "string list"
  tDNSNames :: "string list"

record Certificate =
  cRaw :: string
  cTemplate :: Template

text \<open>\<open>crCreate\<close> signs a template with the issuer's key and gives the encoding.\<close>

record Crypto =
  crPEMDecode :: "string \<Rightarrow> (string \<times> string) option"
  crPEMEncode :: "string \<Rightarrow> string \<Rightarrow> string"
  crParse :: "string \<Rightarrow> Certificate option"
  crParseKey :: "string \<Rightarrow> string option"
  crMarshalKey :: "string \<Rightarrow> string option"
  crCreate :: "Template \<Rightarrow> string \<Rightarrow> string \<Rightarrow> string option"
  crSHA256 :: "string \<Rightarrow> string"
  crSHA1 :: "string \<Rightarrow> string"
  crIsIP :: "string \<Rightarrow> bool"

record Entropy =
  rnKey :: "string option"
  rnSerial :: "int option"

definition caCommonName :: string where "caCommonName = ''AgentSnitch Local HTTPS Inspection CA''"

record CAInfo =
  caPresent :: bool
  caFingerprint :: string
  caSubject :: string
  caNotBefore :: time
  caNotAfter :: time
  caCAPath :: string
  caKeyPath :: string

record CertManager =
  cmPaths :: Paths
  cmCA :: "Certificate option"
  cmKey :: "string option"
  cmLeaf :: "(string, Certificate) gomap"

definition NewCertManager :: "Paths \<Rightarrow> CertManager" where
  "NewCertManager paths = \<lparr>cmPaths = paths, cmCA = None, cmKey = None, cmLeaf = []\<rparr>"

definition Fingerprint :: "Crypto \<Rightarrow> Certificate option \<Rightarrow> string" where
  "Fingerprint cr cert = (case cert of None \<Rightarrow> [] | Some c \<Rightarrow> ''SHA256:'' @ ToUpper (crSHA256 cr (cRaw c)))"

definition SHA1Hex :: "Crypto \<Rightarrow> Certificate option \<Rightarrow> string" where
  "SHA1Hex cr cert = (case cert of None \<Rightarrow> [] | Some c \<Rightarrow> ToUpper (crSHA1 cr (cRaw c)))"

definition absentInfo :: "Paths \<Rightarrow> CAInfo" where
  "absentInfo paths = \<lparr>caPresent = False, caFingerprint = [], caSubject = [], caNotBefore = 0, caNotAfter = 0,
     caCAPath = pCAPath paths, caKeyPath = pKeyPath paths\<rparr>"

definition zeroInfo :: CAInfo where
  "zeroInfo = \<lparr>caPresent = False, caFingerprint = [], caSubject = [], caNotBefore = 0, caNotAfter = 0, caCAPath = [], caKeyPath = []\<rparr>"

definition infoLocked :: "Crypto \<Rightarrow> CertManager \<Rightarrow> CAInfo" where
  "infoLocked cr m =
     (case cmCA m of
        None \<Rightarrow> absentInfo (cmPaths m)
      | Some c \<Rightarrow> \<lparr>caPresent = True, caFingerprint = Fingerprint cr (Some c), caSubject = tCommonName (cTemplate c),
          caNotBefore = tNotBefore (cTemplate c), caNotAfter = tNotAfter (cTemplate c),
          caCAPath = pCAPath (cmPaths m), caKeyPath = pKeyPath (cmPaths m)\<rparr>)"

definition decodeCA :: "Crypto \<Rightarrow> string \<Rightarrow> string \<Rightarrow> inspect_error + (Certificate \<times> string)" where
  "decodeCA cr certPEM keyPEM =
     (case crPEMDecode cr certPEM of
        None \<Rightarrow> Inl (Invalid ''CA certificate PEM is invalid'')
      | Some (kind, der) \<Rightarrow>
          if kind \<noteq> ''CERTIFICATE'' then Inl (Invalid ''CA certificate PEM is invalid'')
          else case crParse cr der of
            None \<Rightarrow> Inl (Invalid ''x509'')
          | Some cert \<Rightarrow>
              (case crPEMDecode cr keyPEM of
                 None \<Rightarrow> Inl (Invalid ''CA private key PEM is invalid'')
               | Some (keyKind, keyDER) \<Rightarrow>
                   if \<not> Contains keyKind ''PRIVATE KEY'' then Inl (Invalid ''CA private key PEM is invalid'')
                   else case crParseKey cr keyDER of
                     None \<Rightarrow> Inl (Invalid ''x509'')
                   | Some key \<Rightarrow> Inr (cert, key)))"

text \<open>Methods give the manager back beside their result.\<close>

definition loadCALocked :: "Crypto \<Rightarrow> CertManager \<Rightarrow> ((inspect_error + unit) \<times> CertManager) io" where
  "loadCALocked cr m =
     (if cmCA m \<noteq> None \<and> cmKey m \<noteq> None then State_Monad.return (Inr (), m)
      else do {
        c \<leftarrow> ReadFile (pCAPath (cmPaths m));
        case c of
          Inl e \<Rightarrow> State_Monad.return (Inl (IOError e), m)
        | Inr certPEM \<Rightarrow> do {
            k \<leftarrow> ReadFile (pKeyPath (cmPaths m));
            State_Monad.return (case k of
              Inl e \<Rightarrow> (Inl (IOError e), m)
            | Inr keyPEM \<Rightarrow>
                (case decodeCA cr certPEM keyPEM of
                   Inl e \<Rightarrow> (Inl e, m)
                 | Inr (cert, key) \<Rightarrow> (Inr (), m\<lparr>cmCA := Some cert, cmKey := Some key\<rparr>))) } })"

definition caTemplate :: "time \<Rightarrow> int \<Rightarrow> Template" where
  "caTemplate now serial = \<lparr>tSerial = serial, tCommonName = caCommonName, tOrganization = [''AgentSnitch''],
     tNotBefore = now - Minute, tNotAfter = now + 365 * 24 * Hour,
     tKeyUsage = [''CertSign'', ''CRLSign'', ''DigitalSignature''], tExtKeyUsage = [], tIsCA = True,
     tIPAddresses = [], tDNSNames = []\<rparr>"

definition leafTemplate :: "(string \<Rightarrow> bool) \<Rightarrow> time \<Rightarrow> int \<Rightarrow> string \<Rightarrow> Template" where
  "leafTemplate isIP now serial host = \<lparr>tSerial = serial, tCommonName = host, tOrganization = [],
     tNotBefore = now - Minute, tNotAfter = now + 24 * Hour,
     tKeyUsage = [''DigitalSignature''], tExtKeyUsage = [''ServerAuth''], tIsCA = False,
     tIPAddresses = (if isIP host then [host] else []), tDNSNames = (if isIP host then [] else [host])\<rparr>"

definition generateCA :: "Crypto \<Rightarrow> Entropy \<Rightarrow> time \<Rightarrow> (Certificate \<times> string \<times> string \<times> string) option" where
  "generateCA cr rn now =
     (case rnKey rn of
        None \<Rightarrow> None
      | Some key \<Rightarrow>
          (case rnSerial rn of
             None \<Rightarrow> None
           | Some serial \<Rightarrow>
               (case crCreate cr (caTemplate now serial) key key of
                  None \<Rightarrow> None
                | Some der \<Rightarrow>
                    (case crMarshalKey cr key of
                       None \<Rightarrow> None
                     | Some keyDER \<Rightarrow>
                         (case crParse cr der of
                            None \<Rightarrow> None
                          | Some cert \<Rightarrow> Some (cert, key, crPEMEncode cr ''CERTIFICATE'' der, crPEMEncode cr ''EC PRIVATE KEY'' keyDER))))))"

definition generateLeafLocked :: "Crypto \<Rightarrow> Entropy \<Rightarrow> time \<Rightarrow> CertManager \<Rightarrow> string \<Rightarrow> Certificate option" where
  "generateLeafLocked cr rn now m host =
     (case (rnKey rn, rnSerial rn, cmKey m) of
        (Some key, Some serial, Some caKey) \<Rightarrow>
          (let tmpl = leafTemplate (crIsIP cr) now serial host
           in case crCreate cr tmpl key caKey of
                None \<Rightarrow> None
              | Some der \<Rightarrow> if crMarshalKey cr key = None then None else Some \<lparr>cRaw = der, cTemplate = tmpl\<rparr>)
      | _ \<Rightarrow> None)"

text \<open>\<open>os.OpenFile\<close> with \<open>O_CREATE|O_WRONLY|O_TRUNC\<close>, the write, the close and the chmod.\<close>

definition writePrivateFile :: "string \<Rightarrow> string \<Rightarrow> (os_error + unit) io" where
  "writePrivateFile path body =
     attempt (MkdirAll (Dir path) perm700) (\<lambda>_.
     attempt (WriteFile path [] perm600) (\<lambda>_.
     attempt (WriteOpen path body) (\<lambda>_.
     attempt Close (\<lambda>_.
     Chmod path perm600))))"

definition writeBundleLocked :: "CertManager \<Rightarrow> (os_error + unit) io" where
  "writeBundleLocked m =
     attempt (ReadFile (pCAPath (cmPaths m))) (\<lambda>raw. WriteFile (pBundlePath (cmPaths m)) raw perm644)"

definition withInfo :: "Crypto \<Rightarrow> CertManager \<Rightarrow> ((CAInfo \<times> inspect_error option) \<times> CertManager) io" where
  "withInfo cr m =
     do { b \<leftarrow> writeBundleLocked m;
          State_Monad.return ((infoLocked cr m, case b of Inl e \<Rightarrow> Some (IOError e) | Inr _ \<Rightarrow> None), m) }"

definition EnsureCA :: "Crypto \<Rightarrow> Entropy \<Rightarrow> time \<Rightarrow> CertManager \<Rightarrow> ((CAInfo \<times> inspect_error option) \<times> CertManager) io" where
  "EnsureCA cr rn now m =
     do { d \<leftarrow> EnsureDirs (cmPaths m);
          case d of
            Inl e \<Rightarrow> State_Monad.return ((zeroInfo, Some (IOError e)), m)
          | Inr _ \<Rightarrow> do {
              (l, m1) \<leftarrow> loadCALocked cr m;
              if l = Inr () then withInfo cr m1
              else case generateCA cr rn now of
                None \<Rightarrow> State_Monad.return ((zeroInfo, Some (Invalid ''x509'')), m1)
              | Some (ca, key, certPEM, keyPEM) \<Rightarrow> do {
                  w \<leftarrow> attempt (WriteFile (pCAPath (cmPaths m1)) certPEM perm644) (\<lambda>_. writePrivateFile (pKeyPath (cmPaths m1)) keyPEM);
                  case w of
                    Inl e \<Rightarrow> State_Monad.return ((zeroInfo, Some (IOError e)), m1)
                  | Inr _ \<Rightarrow> withInfo cr (m1\<lparr>cmCA := Some ca, cmKey := Some key, cmLeaf := []\<rparr>) } } }"

definition Info :: "Crypto \<Rightarrow> CertManager \<Rightarrow> ((CAInfo \<times> inspect_error option) \<times> CertManager) io" where
  "Info cr m =
     do { (l, m1) \<leftarrow> loadCALocked cr m;
          State_Monad.return (case l of
            Inl e \<Rightarrow> ((absentInfo (cmPaths m1), if e = IOError ErrNotExist then None else Some e), m1)
          | Inr _ \<Rightarrow> ((infoLocked cr m1, None), m1)) }"

fun remove_files :: "string list \<Rightarrow> (os_error + unit) io" where
  "remove_files [] = State_Monad.return (Inr ())"
| "remove_files (p # ps) =
     do { r \<leftarrow> Remove p;
          case r of
            Inl e \<Rightarrow> if e = ErrNotExist then remove_files ps else State_Monad.return (Inl e)
          | Inr _ \<Rightarrow> remove_files ps }"

definition DeleteCA :: "CertManager \<Rightarrow> ((os_error + unit) \<times> CertManager) io" where
  "DeleteCA m =
     do { r \<leftarrow> attempt (remove_files [pCAPath (cmPaths m), pKeyPath (cmPaths m), pBundlePath (cmPaths m)])
                 (\<lambda>_. RemoveAll (pLeafDir (cmPaths m)));
          State_Monad.return (r, m\<lparr>cmCA := None, cmKey := None, cmLeaf := []\<rparr>) }"

definition RotateCA :: "Crypto \<Rightarrow> Entropy \<Rightarrow> time \<Rightarrow> CertManager \<Rightarrow> ((CAInfo \<times> inspect_error option) \<times> CertManager) io" where
  "RotateCA cr rn now m =
     do { (r, m1) \<leftarrow> DeleteCA m;
          case r of
            Inl e \<Rightarrow> State_Monad.return ((zeroInfo, Some (IOError e)), m1)
          | Inr _ \<Rightarrow> EnsureCA cr rn now m1 }"

definition BundlePath :: "Crypto \<Rightarrow> Entropy \<Rightarrow> time \<Rightarrow> CertManager \<Rightarrow> ((inspect_error + string) \<times> CertManager) io" where
  "BundlePath cr rn now m =
     do { ((info, err), m1) \<leftarrow> EnsureCA cr rn now m;
          State_Monad.return (case err of Some e \<Rightarrow> Inl e | None \<Rightarrow> Inr (pBundlePath (cmPaths m1)), m1) }"

definition LeafCertificate :: "Crypto \<Rightarrow> Entropy \<Rightarrow> time \<Rightarrow> string \<Rightarrow> CertManager \<Rightarrow> ((inspect_error + Certificate) \<times> CertManager) io" where
  "LeafCertificate cr rn now host0 m =
     (let host = canonicalCertHost host0
      in if host = [] then State_Monad.return (Inl (Invalid ''empty leaf host''), m)
         else case mget (cmLeaf m) host of
           Some cert \<Rightarrow> State_Monad.return (Inr cert, m)
         | None \<Rightarrow> do {
             (l, m1) \<leftarrow> loadCALocked cr m;
             State_Monad.return (case l of
               Inl e \<Rightarrow> (Inl e, m1)
             | Inr _ \<Rightarrow>
                 (case generateLeafLocked cr rn now m1 host of
                    None \<Rightarrow> (Inl (Invalid ''x509''), m1)
                  | Some cert \<Rightarrow> (Inr cert, m1\<lparr>cmLeaf := mput host cert (cmLeaf m1)\<rparr>))) })"

text \<open>\<open>%o\<close> of a permission.\<close>

fun octal_digits :: "nat \<Rightarrow> nat \<Rightarrow> string" where
  "octal_digits 0 n = []"
| "octal_digits (Suc f) n = (if n < 8 then [char_of (48 + n)] else octal_digits f (n div 8) @ [char_of (48 + n mod 8)])"

definition showOctal :: "mode \<Rightarrow> string" where
  "showOctal m = octal_digits 11 (unat m)"

definition CheckKeyPermissions :: "Paths \<Rightarrow> (inspect_error + unit) io" where
  "CheckKeyPermissions paths =
     attempt (wrapped IOError (Stat (pKeyPath paths))) (\<lambda>info.
       if nodeMode info \<noteq> perm600
       then State_Monad.return (Inl (Invalid (''private key permissions are '' @ showOctal (nodeMode info) @ '', want 0600'')))
       else attempt (wrapped IOError (Stat (Dir (pKeyPath paths)))) (\<lambda>parent.
         State_Monad.return (if nodeMode parent AND worldWrite \<noteq> 0
           then Inl (Invalid (''private key parent directory is world-writable: '' @ showOctal (nodeMode parent)))
           else Inr ())))"

section \<open>Lemmas: settings\<close>

type_synonym settings_save = "SettingsCodec \<times> time \<times> string \<times> Settings"

lemma wp_SaveSettings:
  assumes "tempFile (Dir (SettingsPath e)) ''.ui-settings-'' rnd \<noteq> SettingsPath e"
  shows "wp (SaveSettings e now rnd settings) (\<lambda>r s'. savePost (SettingsPath e) (scMarshal e (savedSettings now settings)) s r s' \<and>
    (r = Inr () \<longrightarrow> node_at s' (SettingsPath e) = map_option (FileNode perm600) (scMarshal e (savedSettings now settings)))) s"
  unfolding SaveSettings_def Let_def by (rule wp_save_via_replace [OF assms])

interpretation settingsFile: atomic_save
    "\<lambda>(e, now, rnd, settings). SaveSettings e now rnd settings" "\<lambda>(e, _). SettingsPath e"
    "\<lambda>(e, now, rnd, settings). scMarshal e (savedSettings now settings)"
    "\<lambda>(e, now, rnd, settings). tempFile (Dir (SettingsPath e)) ''.ui-settings-'' rnd \<noteq> SettingsPath e"
  by unfold_locales (auto elim!: wp_mono [OF wp_SaveSettings])

section \<open>Lemmas: the certificate authority\<close>

lemma wp_loadCALocked:
  assumes "\<And>e s'. osFiles s' = osFiles s \<Longrightarrow> Q (Inl e, m) s'"
    "\<And>m' s'. osFiles s' = osFiles s \<Longrightarrow> cmCA m' \<noteq> None \<Longrightarrow> cmKey m' \<noteq> None \<Longrightarrow>
       cmLeaf m' = cmLeaf m \<Longrightarrow> cmPaths m' = cmPaths m \<Longrightarrow> Q (Inr (), m') s'"
  shows "wp (loadCALocked cr m) Q s"
  unfolding loadCALocked_def
  by (auto simp: wp_simps split: sum.split intro!: wp_ReadFile assms)

lemma wp_RemoveAll:
  assumes "\<And>r s'. (\<And>q. node_at s' q = node_at s q \<or> (q = p \<or> below p q)) \<Longrightarrow>
    (r = Inr () \<longrightarrow> (\<forall>q. q = p \<or> below p q \<longrightarrow> node_at s' q = None)) \<Longrightarrow> Q r s'"
  shows "wp (RemoveAll p) Q s"
proof -
  have f: "map_of (filter (\<lambda>(q, v). q \<noteq> p \<and> \<not> below p q) fs) q = (if q = p \<or> below p q then None else map_of fs q)" for fs q
    by (induction fs) auto
  have u: "\<not> (q = p \<or> below p q) \<Longrightarrow> map_of (remove_under p n fs) q = map_of fs q" for n fs q
    by (induction p n fs rule: remove_under.induct) (auto split: nat.split)
  show ?thesis
  proof (cases "next_fault s")
    case None
    then show ?thesis unfolding wp_def RemoveAll_def Let_def by (auto intro!: assms simp: f split: if_split_asm)
  next
    case (Some fault)
    then show ?thesis
      unfolding wp_def RemoveAll_def Let_def by (cases fault) (simp_all, (rule assms; use u in fastforce)+)
  qed
qed

lemma wp_remove_files:
  assumes "\<And>r s'. (\<And>q. q \<notin> set ps \<Longrightarrow> node_at s' q = node_at s q) \<Longrightarrow>
    (r = Inr () \<longrightarrow> (\<forall>p \<in> set ps. node_at s' p = None)) \<Longrightarrow> Q r s'"
  shows "wp (remove_files ps) Q s"
  using assms
proof (induction ps arbitrary: s Q)
  case (Cons p ps)
  have step: "wp (remove_files ps) Q s1"
    if "\<And>q. q \<noteq> p \<Longrightarrow> node_at s1 q = node_at s q" "node_at s1 p = None" for s1
  proof (rule Cons.IH)
    fix r :: "os_error + unit" and s' :: OS
    assume kept: "\<And>q. q \<notin> set ps \<Longrightarrow> node_at s' q = node_at s1 q"
      and gone: "r = Inr () \<longrightarrow> (\<forall>p \<in> set ps. node_at s' p = None)"
    have "r = Inr () \<Longrightarrow> node_at s' p = None" using kept [of p] gone that(2) by (cases "p \<in> set ps") auto
    with kept gone show "Q r s'" by (intro Cons.prems) (auto simp: that(1))
  qed
  show ?case
    unfolding remove_files.simps wp_bind
    by (rule wp_Remove) (auto split: sum.split simp: wp_simps intro: step Cons.prems)
qed (simp add: wp_simps)

text \<open>Deleting the authority: when it reports success no certificate, key, bundle or cached leaf is left; the
  manager forgets them in any case.\<close>

definition caFile :: "Paths \<Rightarrow> string \<Rightarrow> bool" where
  "caFile paths q = (q \<in> {pCAPath paths, pKeyPath paths, pBundlePath paths, pLeafDir paths} \<or> below (pLeafDir paths) q)"

lemma wp_DeleteCA:
  "wp (DeleteCA m) (\<lambda>(r, m') s'. m' = m\<lparr>cmCA := None, cmKey := None, cmLeaf := []\<rparr> \<and>
     (\<forall>q. \<not> caFile (cmPaths m) q \<longrightarrow> node_at s' q = node_at s q) \<and>
     (r = Inr () \<longrightarrow> (\<forall>q. caFile (cmPaths m) q \<longrightarrow> node_at s' q = None))) s"
  unfolding DeleteCA_def wp_simps
proof (rule wp_remove_files, goal_cases)
  case (1 r s1)
  have kept: "node_at s1 q = node_at s q" if "\<not> caFile (cmPaths m) q" for q
    using that 1(1) [of q] by (simp add: caFile_def)
  show ?case
  proof (cases r)
    case (Inr u)
    then have gone: "\<And>p. p \<in> {pCAPath (cmPaths m), pKeyPath (cmPaths m), pBundlePath (cmPaths m)} \<Longrightarrow> node_at s1 p = None"
      using 1(2) by auto
    show ?thesis unfolding Inr sum.case
    proof (rule wp_RemoveAll, goal_cases)
      case (1 r2 s2)
      have "node_at s2 q = node_at s q" if "\<not> caFile (cmPaths m) q" for q
        using that kept [OF that] 1(1) [of q] by (auto simp: caFile_def)
      moreover have "node_at s2 q = None" if "r2 = Inr ()" "caFile (cmPaths m) q" for q
        using that 1(1) [of q] 1(2) gone [of q] by (auto simp: caFile_def)
      ultimately show ?case by simp
    qed
  qed (simp add: kept)
qed

lemma wp_ensure_dirs:
  assumes "\<And>r s'. (\<And>q. contentAt s' q = contentAt s q) \<Longrightarrow> Q r s'"
  shows "wp (ensure_dirs dirs) Q s"
  using assms
proof (induction dirs arbitrary: s Q)
  case (Cons dir dirs)
  have chmod: "contentAt s' q = contentAt s1 q"
    if "\<And>q. q \<noteq> dir \<Longrightarrow> node_at s' q = node_at s1 q" "contentAt s' dir = contentAt s1 dir" for s1 s' q
    using that contentAt_node [of s' q s1] by (cases "q = dir") auto
  show ?case
    unfolding ensure_dirs.simps wp_attempt
  proof (rule wp_MkdirAll, goal_cases)
    case (1 r s1)
    have "wp (Chmod dir perm700) (\<lambda>r s'. case r of Inl e \<Rightarrow> Q (Inl e) s' | Inr _ \<Rightarrow> wp (ensure_dirs dirs) Q s') s1"
    proof (rule wp_Chmod, goal_cases)
      case (1 e s2)
      then show ?case using contentAt_cong [of s2 s1] \<open>\<And>q. contentAt s1 q = contentAt s q\<close> by (auto intro: Cons.prems)
    next
      case (2 s2)
      then show ?case using chmod [of s2 s1] \<open>\<And>q. contentAt s1 q = contentAt s q\<close> by (auto intro!: Cons.IH Cons.prems)
    qed
    with 1 show ?case by (auto split: sum.split intro: Cons.prems)
  qed
qed (simp add: wp_simps)

lemma wp_writePrivateFile:
  assumes "\<And>e s'. (\<And>q. q \<noteq> path \<Longrightarrow> contentAt s' q = contentAt s q) \<Longrightarrow> Q (Inl e) s'"
    "\<And>s'. (\<And>q. q \<noteq> path \<Longrightarrow> contentAt s' q = contentAt s q) \<Longrightarrow> node_at s' path = Some (FileNode perm600 body) \<Longrightarrow> Q (Inr ()) s'"
  shows "wp (writePrivateFile path body) Q s"
  unfolding writePrivateFile_def wp_attempt
proof (rule wp_MkdirAll, goal_cases)
  case (1 r s1)
  have frame: "contentAt s' q = contentAt s q"
    if "\<And>q. q \<noteq> path \<Longrightarrow> node_at s' q = node_at s1 q" "q \<noteq> path" for s' q
    using that 1(1) contentAt_node [of s' q s1] by simp
  have "wp (WriteFile path [] perm600) (\<lambda>r s'. case r of Inl e \<Rightarrow> Q (Inl e) s' | Inr _ \<Rightarrow>
      wp (WriteOpen path body) (\<lambda>r s'. case r of Inl e \<Rightarrow> Q (Inl e) s' | Inr _ \<Rightarrow>
      wp Close (\<lambda>r s'. case r of Inl e \<Rightarrow> Q (Inl e) s' | Inr _ \<Rightarrow> wp (Chmod path perm600) Q s') s') s') s1"
  proof (rule wp_WriteFile, goal_cases)
    case (1 e s2)
    then show ?case by (auto intro: assms(1) frame)
  next
    case (2 s2)
    then have o2: "\<And>q. q \<noteq> path \<Longrightarrow> node_at s2 q = node_at s1 q" and p2: "\<exists>m. node_at s2 path = Some (FileNode m [])"
      by simp_all
    show ?case unfolding sum.case
    proof (rule wp_WriteOpen, goal_cases)
      case (1 e s3)
      then show ?case using o2 by (auto intro: assms(1) frame)
    next
      case (2 s3 m c)
      then have o3: "\<And>q. q \<noteq> path \<Longrightarrow> node_at s3 q = node_at s1 q" and p3: "node_at s3 path = Some (FileNode m body)"
        using o2 p2 by auto
      show ?case unfolding sum.case
      proof (rule wp_Close, goal_cases)
        case (1 r4 s4)
        with o3 p3 show ?case
          by (auto split: sum.split node.split_asm simp: contentAt_def [of _ path] intro!: wp_Chmod assms frame)
      qed
    qed
  qed
  with 1 show ?case by (auto split: sum.split intro: assms)
qed

lemma wp_withInfo:
  assumes "\<And>err s'. (\<And>q. q \<noteq> pBundlePath (cmPaths m) \<Longrightarrow> node_at s' q = node_at s q) \<Longrightarrow>
    (err = None \<longrightarrow> contentAt s (pCAPath (cmPaths m)) \<noteq> None \<and>
      contentAt s' (pBundlePath (cmPaths m)) = contentAt s (pCAPath (cmPaths m))) \<Longrightarrow> Q ((infoLocked cr m, err), m) s'"
  shows "wp (withInfo cr m) Q s"
  unfolding withInfo_def writeBundleLocked_def wp_simps
proof (rule wp_ReadFile, goal_cases)
  case (1 e s1)
  then show ?case by (auto simp: wp_simps intro: assms)
next
  case (2 k c s1)
  then show ?case unfolding sum.case
    by (intro wp_WriteFile) (auto simp: contentAt_def intro!: assms)
qed

text \<open>What ensuring the authority guarantees: when it reports success there is one, the bundle is its
  certificate, and the key file is the one that was there or a new one with mode 0600.\<close>

definition caReady :: "Paths \<Rightarrow> OS \<Rightarrow> OS \<Rightarrow> bool" where
  "caReady paths s s' =
     (contentAt s' (pCAPath paths) \<noteq> None \<and> contentAt s' (pBundlePath paths) = contentAt s' (pCAPath paths) \<and>
      (contentAt s' (pKeyPath paths) = contentAt s (pKeyPath paths) \<or>
       (\<exists>keyPEM. node_at s' (pKeyPath paths) = Some (FileNode perm600 keyPEM))))"

definition distinctPaths :: "Paths \<Rightarrow> bool" where
  "distinctPaths paths = distinct [pCAPath paths, pKeyPath paths, pBundlePath paths]"

lemma infoLocked_present: "cmCA m \<noteq> None \<Longrightarrow> caPresent (infoLocked cr m)"
  by (auto simp: infoLocked_def)

definition ensurePost :: "CertManager \<Rightarrow> OS \<Rightarrow> (CAInfo \<times> inspect_error option) \<times> CertManager \<Rightarrow> OS \<Rightarrow> bool" where
  "ensurePost m s = (\<lambda>((info, err), m') s'.
     cmPaths m' = cmPaths m \<and> cmLeaf m' \<in> {cmLeaf m, []} \<and>
     (err = None \<longrightarrow> caPresent info \<and> cmCA m' \<noteq> None \<and> cmKey m' \<noteq> None \<and> caReady (cmPaths m) s s'))"

lemma wp_EnsureCA:
  assumes d: "distinctPaths (cmPaths m)"
  shows "wp (EnsureCA cr rn now m) (ensurePost m s) s"
  unfolding EnsureCA_def EnsureDirs_def wp_bind
proof (rule wp_ensure_dirs, goal_cases)
  case (1 r s1)
  let ?p = "cmPaths m"
  note d' = d [unfolded distinctPaths_def, simplified]
  have ready: "wp (withInfo cr m2) (ensurePost m s) s2"
    if m2: "cmPaths m2 = ?p" "cmLeaf m2 \<in> {cmLeaf m, []}" "cmCA m2 \<noteq> None" "cmKey m2 \<noteq> None"
      and key: "contentAt s2 (pKeyPath ?p) = contentAt s (pKeyPath ?p) \<or> (\<exists>pem. node_at s2 (pKeyPath ?p) = Some (FileNode perm600 pem))"
    for m2 s2
  proof (rule wp_withInfo, goal_cases)
    case (1 err s')
    then have "node_at s' (pKeyPath ?p) = node_at s2 (pKeyPath ?p)" "contentAt s' (pCAPath ?p) = contentAt s2 (pCAPath ?p)"
      using d' m2(1) contentAt_node [of s' "pCAPath ?p" s2] by auto
    with 1 m2 key infoLocked_present [OF m2(3)] show ?case
      by (auto simp: ensurePost_def caReady_def contentAt_node [of s' "pKeyPath ?p" s2])
  qed
  show ?case
  proof (cases r)
    case (Inl e)
    then show ?thesis by (simp add: wp_simps ensurePost_def)
  next
    case (Inr u)
    show ?thesis unfolding Inr sum.case wp_bind
    proof (rule wp_loadCALocked, goal_cases)
      case (1 e s2)
      then have c2: "\<And>q. contentAt s2 q = contentAt s q" using contentAt_cong [of s2 s1] \<open>\<And>q. contentAt s1 q = contentAt s q\<close> by simp
      have failed: "ensurePost m s ((zeroInfo, Some err), m) s'" for err s' by (simp add: ensurePost_def)
      show ?case
      proof (cases "generateCA cr rn now")
        case (Some g)
        obtain ca key certPEM keyPEM where g: "g = (ca, key, certPEM, keyPEM)" by (cases g)
        have "wp (attempt (WriteFile (pCAPath ?p) certPEM perm644) (\<lambda>_. writePrivateFile (pKeyPath ?p) keyPEM))
            (\<lambda>w s'. case w of Inl e \<Rightarrow> True | Inr _ \<Rightarrow> \<exists>pem. node_at s' (pKeyPath ?p) = Some (FileNode perm600 pem)) s2"
          unfolding wp_attempt by (rule wp_WriteFile) (auto intro!: wp_writePrivateFile)
        then show ?thesis
          unfolding Some g prod.case wp_simps
          by (auto simp: Some wp_simps failed elim!: wp_mono split: sum.split intro!: ready)
      qed (simp add: wp_simps failed)
    next
      case (2 m1 s2)
      then show ?case
        using ready [of m1 s2] contentAt_cong [of s2 s1] \<open>\<And>q. contentAt s1 q = contentAt s q\<close> by simp
    qed
  qed
qed

section \<open>Lemmas: leaf certificates\<close>

text \<open>A leaf certificate of a host: its only name is the host, it is a server certificate and no authority, and
  it is valid for a day.\<close>

definition leafFor :: "string \<Rightarrow> Certificate \<Rightarrow> bool" where
  "leafFor host cert =
     (let t = cTemplate cert
      in tCommonName t = host \<and> tDNSNames t @ tIPAddresses t = [host] \<and> \<not> tIsCA t \<and> tExtKeyUsage t = [''ServerAuth''] \<and>
         tNotAfter t = tNotBefore t + Minute + 24 * Hour)"

definition leaf_inv :: "CertManager \<Rightarrow> bool" where
  "leaf_inv m = (\<forall>host cert. mget (cmLeaf m) host = Some cert \<longrightarrow> leafFor host cert)"

lemma leaf_inv_empty: "cmLeaf m = [] \<Longrightarrow> leaf_inv m"
  by (simp add: leaf_inv_def)

lemma leaf_inv_same: "cmLeaf m' = cmLeaf m \<Longrightarrow> leaf_inv m \<Longrightarrow> leaf_inv m'"
  by (simp add: leaf_inv_def)

lemma generateLeaf_leafFor: "generateLeafLocked cr rn now m host = Some cert \<Longrightarrow> leafFor host cert"
  by (auto simp: generateLeafLocked_def leafFor_def leafTemplate_def Let_def split: option.split_asm if_split_asm)

lemma wp_LeafCertificate:
  assumes "leaf_inv m"
  shows "wp (LeafCertificate cr rn now host m) (\<lambda>(r, m') s'. leaf_inv m' \<and> cmPaths m' = cmPaths m \<and>
    (\<forall>cert. r = Inr cert \<longrightarrow> leafFor (canonicalCertHost host) cert \<and> mget (cmLeaf m') (canonicalCertHost host) = Some cert)) s"
proof -
  show ?thesis
    using assms unfolding LeafCertificate_def Let_def
    by (auto simp: wp_simps leaf_inv_def split: option.split sum.split intro!: wp_loadCALocked dest: generateLeaf_leafFor)
qed

text \<open>The methods of a manager in any order, with anything happening to the files in between.\<close>

inductive managed :: "Crypto \<Rightarrow> Paths \<Rightarrow> CertManager \<Rightarrow> OS \<Rightarrow> bool" for cr :: Crypto and paths :: Paths where
  New: "managed cr paths (NewCertManager paths) s"
| Others: "managed cr paths m s \<Longrightarrow> managed cr paths m s'"
| Ensure: "managed cr paths m s \<Longrightarrow> run_state (EnsureCA cr rn now m) s = ((r, m'), s') \<Longrightarrow> managed cr paths m' s'"
| Get_Info: "managed cr paths m s \<Longrightarrow> run_state (Info cr m) s = ((r, m'), s') \<Longrightarrow> managed cr paths m' s'"
| Delete: "managed cr paths m s \<Longrightarrow> run_state (DeleteCA m) s = ((d, m'), s') \<Longrightarrow> managed cr paths m' s'"
| Rotate: "managed cr paths m s \<Longrightarrow> run_state (RotateCA cr rn now m) s = ((r, m'), s') \<Longrightarrow> managed cr paths m' s'"
| Leaf: "managed cr paths m s \<Longrightarrow> run_state (LeafCertificate cr rn now host m) s = ((l, m'), s') \<Longrightarrow> managed cr paths m' s'"

lemma wp_attempt_any: "(\<And>r s'. Q r s') \<Longrightarrow> wp (attempt a k) Q s"
  by (simp add: wp_def split: prod.split)

lemma wp_EnsureCA_leaf:
  assumes "leaf_inv m"
  shows "wp (EnsureCA cr rn now m) (\<lambda>(r, m') s'. leaf_inv m' \<and> cmPaths m' = cmPaths m) s"
proof -
  have info: "wp (withInfo cr m1) (\<lambda>(r, m') s'. leaf_inv m' \<and> cmPaths m' = cmPaths m) s1"
    if "leaf_inv m1" "cmPaths m1 = cmPaths m" for m1 s1
    using that by (intro wp_withInfo) simp
  have new: "leaf_inv (m1\<lparr>cmCA := ca, cmKey := key, cmLeaf := []\<rparr>)" for m1 ca key by (simp add: leaf_inv_def)
  show ?thesis
    unfolding EnsureCA_def EnsureDirs_def wp_bind
    by (rule wp_ensure_dirs)
       (use assms in \<open>auto simp: wp_return wp_bind new split: sum.split option.split
          intro!: wp_loadCALocked info wp_attempt_any intro: leaf_inv_same [of _ m]\<close>)
qed

lemma wp_Info_leaf: "leaf_inv m \<Longrightarrow> wp (Info cr m) (\<lambda>(r, m') s'. leaf_inv m' \<and> cmPaths m' = cmPaths m) s"
  unfolding Info_def by (auto simp: wp_simps split: sum.split intro!: wp_loadCALocked leaf_inv_same [of _ m])

lemma wp_RotateCA_leaf: "wp (RotateCA cr rn now m) (\<lambda>(r, m') s'. leaf_inv m' \<and> cmPaths m' = cmPaths m) s"
  unfolding RotateCA_def wp_bind
proof (rule wp_mono [OF wp_DeleteCA], goal_cases)
  case (1 d s1)
  have "wp (EnsureCA cr rn now m1) (\<lambda>(r, m') s'. leaf_inv m' \<and> cmPaths m' = cmPaths m) s1"
    if "m1 = m\<lparr>cmCA := None, cmKey := None, cmLeaf := []\<rparr>" for m1
    using wp_EnsureCA_leaf [of m1 cr rn now s1] that by (simp add: leaf_inv_def)
  with 1 show ?case by (auto simp: wp_simps leaf_inv_def split: sum.split prod.split_asm)
qed

lemma managed_leaf_inv: "managed cr paths m s \<Longrightarrow> leaf_inv m \<and> cmPaths m = paths"
proof (induction rule: managed.induct)
  case (New s)
  show ?case by (simp add: leaf_inv_def NewCertManager_def)
next
  case (Ensure m s rn now r m' s')
  then show ?case using wp_run [OF wp_EnsureCA_leaf [of m cr rn now s] Ensure.hyps(2)] by simp
next
  case (Get_Info m s r m' s')
  then show ?case using wp_run [OF wp_Info_leaf [of m cr s] Get_Info.hyps(2)] by simp
next
  case (Delete m s d m' s')
  then show ?case using wp_run [OF wp_DeleteCA Delete.hyps(2)] by (simp add: leaf_inv_def)
next
  case (Rotate m s rn now r m' s')
  then show ?case using wp_run [OF wp_RotateCA_leaf Rotate.hyps(2)] by simp
next
  case (Leaf m s rn now host l m' s')
  then show ?case using wp_run [OF wp_LeafCertificate [of m cr rn now host s] Leaf.hyps(2)] by simp
qed simp

section \<open>Properties\<close>

text \<open>C23. Whatever calls a certificate manager has served, with whatever failures and changes to the files in
  between, a leaf certificate it returns was made for exactly the host that was asked for: that host is its only
  name, it is a server certificate without signing power, and it lives one day.\<close>

theorem leaf_certificates_name_their_host:
  assumes "managed cr paths m s" "run_state (LeafCertificate cr rn now host m) s = ((Inr cert, m'), s')"
  shows "leafFor (canonicalCertHost host) cert"
  using wp_run [OF wp_LeafCertificate assms(2)] managed_leaf_inv [OF assms(1)] by simp

definition demoCrypto :: Crypto where
  "demoCrypto = \<lparr>crPEMDecode = (\<lambda>raw. Some (if raw = ''cert'' then ''CERTIFICATE'' else ''EC PRIVATE KEY'', raw)), crPEMEncode = (\<lambda>kind der. der),
     crParse = (\<lambda>der. Some \<lparr>cRaw = der, cTemplate = caTemplate 0 1\<rparr>), crParseKey = Some, crMarshalKey = Some,
     crCreate = (\<lambda>tmpl key issuer. Some (tCommonName tmpl)), crSHA256 = (\<lambda>s. s), crSHA1 = (\<lambda>s. s), crIsIP = (\<lambda>h. False)\<rparr>"

definition demoManager :: CertManager where
  "demoManager = NewCertManager \<lparr>pBaseDir = ''/i'', pCAPath = ''/i/c'', pKeyPath = ''/i/k'', pBundlePath = ''/i/b'',
     pLeafDir = ''/i/l'', pDataDir = ''/i/d''\<rparr>"

definition demoDisk :: OS where
  "demoDisk = \<lparr>osFiles = [(''/i/c'', FileNode perm644 ''cert''), (''/i/k'', FileNode perm600 ''key'')], osFaults = [], osUmask = 0x12,
     osOut = [], osKeychain = []\<rparr>"

definition demoEntropy :: Entropy where "demoEntropy = \<lparr>rnKey = Some ''leafkey'', rnSerial = Some 7\<rparr>"

theorem leaf_certificates_name_their_host_witness:
  "\<exists>cert m' s'. run_state (LeafCertificate demoCrypto demoEntropy 5 ''API.Example.com:443'' demoManager) demoDisk = ((Inr cert, m'), s') \<and> leafFor ''api.example.com'' cert"
proof -
  have host: "canonicalCertHost ''API.Example.com:443'' = ''api.example.com''" by code_simp
  let ?run = "run_state (LeafCertificate demoCrypto demoEntropy 5 ''API.Example.com:443'' demoManager) demoDisk"
  have "\<not> isl (fst (fst ?run))" by code_simp
  then obtain cert m' s' where run: "?run = ((Inr cert, m'), s')"
    by (metis prod.collapse sum.collapse(2))
  have "managed demoCrypto (cmPaths demoManager) demoManager demoDisk"
    using managed.New by (simp add: demoManager_def NewCertManager_def)
  from leaf_certificates_name_their_host [OF this run] run host show ?thesis by auto
qed

text \<open>The cache has no expiry: once a certificate was made for a host, every later call gives the same one,
  also after the day it is valid for.\<close>

lemma leaf_cache_never_expires:
  assumes "managed cr paths m s" "run_state (LeafCertificate cr rn now host m) s = ((Inr cert, m'), s')"
  shows "run_state (LeafCertificate cr rn' (now + d) host m') s'' = ((Inr cert, m'), s'')"
proof -
  have "canonicalCertHost host \<noteq> []"
    using assms(2) by (auto simp: LeafCertificate_def Let_def split: if_split_asm)
  moreover have "mget (cmLeaf m') (canonicalCertHost host) = Some cert"
    using wp_run [OF wp_LeafCertificate assms(2)] managed_leaf_inv [OF assms(1)] by simp
  ultimately show ?thesis by (simp add: LeafCertificate_def)
qed

text \<open>The default files of the authority are different files, whatever the environment.\<close>

lemma inspectBase_nonempty: "inspectBase e \<noteq> []"
  by (auto simp: inspectBase_def Let_def PathJoin_def split: option.split)

lemma PathJoin_pair_eq:
  "plain_elem x \<Longrightarrow> plain_elem y \<Longrightarrow> base \<noteq> [] \<Longrightarrow> PathJoin [base, x] = PathJoin [base, y] \<longleftrightarrow> x = y"
  using PathJoin_last [of x base y base] by (auto simp: PathJoin_append)

lemma distinct_DefaultPaths: "distinctPaths (DefaultPaths e)"
proof -
  have "plain_elem ''ca.pem''" "plain_elem ''ca-key.pem''" "plain_elem ''process-scoped-ca-bundle.pem''" by code_simp+
  then show ?thesis
    by (simp add: distinctPaths_def DefaultPaths_def pathsIn_def PathJoin_pair_eq inspectBase_nonempty)
qed

text \<open>When making the certificate authority succeeds, whatever was on the disk and whatever calls failed on the way,
  the report says it is present, the certificate file exists, the bundle for processes is a copy of it, and the
  private key is either the one that was there or a file only its owner may read and write.\<close>

theorem new_ca_key_is_private:
  assumes "run_state (EnsureCA cr rn now (NewCertManager (DefaultPaths e))) s = (((info, None), m), s')"
  shows "caPresent info \<and> caReady (DefaultPaths e) s s'"
  using wp_run [OF wp_EnsureCA assms] distinct_DefaultPaths [of e]
  by (simp add: ensurePost_def NewCertManager_def)

definition demoInspectEnv :: ProcEnv where
  "demoInspectEnv = \<lparr>peGetenv = (\<lambda>k. if k = ''HOME'' then ''/u'' else []), peExecutable = None, peCwd = None, peTempDir = ''/tmp''\<rparr>"

definition emptyDisk :: OS where
  "emptyDisk = \<lparr>osFiles = [], osFaults = [], osUmask = 0x12, osOut = [], osKeychain = []\<rparr>"

theorem new_ca_key_is_private_witness:
  "\<exists>info m s'. run_state (EnsureCA demoCrypto demoEntropy 5 (NewCertManager (DefaultPaths demoInspectEnv))) emptyDisk = (((info, None), m), s') \<and>
     caPresent info \<and> caReady (DefaultPaths demoInspectEnv) emptyDisk s'"
proof -
  let ?run = "run_state (EnsureCA demoCrypto demoEntropy 5 (NewCertManager (DefaultPaths demoInspectEnv))) emptyDisk"
  have "snd (fst (fst ?run)) = None" by code_simp
  then obtain info m s' where run: "?run = (((info, None), m), s')"
    by (metis prod.collapse)
  from new_ca_key_is_private [OF run] run show ?thesis by auto
qed

text \<open>C22. However often the settings file and the status file are saved, by whichever program and whichever calls fail, each
  of them holds what it held before or the whole document of one of the saves, never a part of one.\<close>

theorem saved_files_are_whole:
  fixes e :: ProcEnv
  assumes "\<And>now rnd settings. (now, rnd, settings) \<in> set saves \<Longrightarrow> tempFile (Dir (SettingsPath c)) ''.ui-settings-'' rnd \<noteq> SettingsPath c"
    and "\<And>now rnd st. (now, rnd, st) \<in> set reports \<Longrightarrow> tempFile (Dir (statusPathOf e)) ''.status-'' rnd \<noteq> statusPathOf e"
  shows "contentAt (fold (\<lambda>(now, rnd, settings) s. snd (run_state (SaveSettings c now rnd settings) s)) saves s) (SettingsPath c)
      \<in> insert (contentAt s (SettingsPath c)) ((\<lambda>(now, rnd, settings). scMarshal c (savedSettings now settings)) ` set saves) \<and>
    contentAt (fold (\<lambda>(now, rnd, st) s. snd (run_state (WriteStatus e marshal now rnd st) s)) reports s) (statusPathOf e)
      \<in> insert (contentAt s (statusPathOf e)) ((\<lambda>(now, rnd, st). marshal (stampStatus now st)) ` set reports)"
proof
  let ?save = "\<lambda>(now, rnd, settings). (c, now, rnd, settings)" and ?report = "\<lambda>(now, rnd, st). (e, marshal, now, rnd, st)"
  have saves: "fold (\<lambda>(now, rnd, settings) s. snd (run_state (SaveSettings c now rnd settings) s)) saves s =
      fold (\<lambda>a s. snd (run_state ((\<lambda>(e, now, rnd, settings). SaveSettings e now rnd settings) a) s)) (map ?save saves) s"
    unfolding fold_map by (intro fold_cong) (auto simp: fun_eq_iff)
  have reports: "fold (\<lambda>(now, rnd, st) s. snd (run_state (WriteStatus e marshal now rnd st) s)) reports s =
      fold (\<lambda>a s. snd (run_state (saveStatus a) s)) (map ?report reports) s"
    unfolding fold_map by (intro fold_cong) (auto simp: fun_eq_iff saveStatus_def)
  have docs: "(\<lambda>(e, now, rnd, settings). scMarshal e (savedSettings now settings)) ` set (map ?save saves) =
      (\<lambda>(now, rnd, settings). scMarshal c (savedSettings now settings)) ` set saves"
    "statusEncoding ` set (map ?report reports) = (\<lambda>(now, rnd, st). marshal (stampStatus now st)) ` set reports"
    by (auto simp: image_image statusEncoding_def case_prod_unfold)
  show "contentAt (fold (\<lambda>(now, rnd, settings) s. snd (run_state (SaveSettings c now rnd settings) s)) saves s) (SettingsPath c)
      \<in> insert (contentAt s (SettingsPath c)) ((\<lambda>(now, rnd, settings). scMarshal c (savedSettings now settings)) ` set saves)"
    unfolding saves docs(1) [symmetric] by (rule settingsFile.never_torn) (use assms(1) in auto)
  show "contentAt (fold (\<lambda>(now, rnd, st) s. snd (run_state (WriteStatus e marshal now rnd st) s)) reports s) (statusPathOf e)
      \<in> insert (contentAt s (statusPathOf e)) ((\<lambda>(now, rnd, st). marshal (stampStatus now st)) ` set reports)"
    unfolding reports docs(2) [symmetric] by (rule statusFile.never_torn) (use assms(2) in \<open>auto simp: freshStatusTemp_def\<close>)
qed

definition demoCodec :: SettingsCodec where
  "demoCodec = \<lparr>peGetenv = (\<lambda>k. if k = ''HOME'' then ''/u'' else []), peExecutable = None, peCwd = None, peTempDir = ''/tmp'',
     scUnmarshal = (\<lambda>raw st. Inl raw), scMarshal = (\<lambda>st. Some (if HTTPSInspectEnabled st then ''on'' else ''off''))\<rparr>"

definition demoStatusText :: "Status \<Rightarrow> string option" where "demoStatusText st = Some ''status''"

theorem saved_files_are_whole_witness:
  "contentAt (fold (\<lambda>(now, rnd, settings) s. snd (run_state (SaveSettings demoCodec now rnd settings) s))
       [(5, ''1'', DefaultSettings), (6, ''2'', DefaultSettings\<lparr>HTTPSInspectEnabled := True\<rparr>)] emptyDisk) (SettingsPath demoCodec)
     \<in> {None, Some ''on'', Some ''off''}"
proof -
  let ?saves = "[(5, ''1'', DefaultSettings), (6, ''2'', DefaultSettings\<lparr>HTTPSInspectEnabled := True\<rparr>)]"
  have temp: "tempFile (Dir (SettingsPath demoCodec)) ''.ui-settings-'' ''1'' \<noteq> SettingsPath demoCodec"
    "tempFile (Dir (SettingsPath demoCodec)) ''.ui-settings-'' ''2'' \<noteq> SettingsPath demoCodec" by code_simp+
  have empty: "contentAt emptyDisk (SettingsPath demoCodec) = None" by code_simp
  have docs: "(\<lambda>(now, rnd, settings). scMarshal demoCodec (savedSettings now settings)) ` set ?saves \<subseteq> {Some ''on'', Some ''off''}"
    unfolding image_subset_iff by (simp add: demoCodec_def)
  have member: "contentAt (fold (\<lambda>(now, rnd, settings) s. snd (run_state (SaveSettings demoCodec now rnd settings) s)) ?saves emptyDisk) (SettingsPath demoCodec)
      \<in> insert (contentAt emptyDisk (SettingsPath demoCodec)) ((\<lambda>(now, rnd, settings). scMarshal demoCodec (savedSettings now settings)) ` set ?saves)"
    by (rule saved_files_are_whole [of _ _ "[]" demoInspectEnv _ demoStatusText, THEN conjunct1]) (use temp in auto)
  from subsetD [OF insert_mono [OF docs] member] show ?thesis unfolding empty .
qed

end
