(* ===== verification/Inspect_Status.thy ===== *)
theory Inspect_Status
  imports Inspect_CA
begin

text \<open>
  \<open>internal/inspect/trust.go\<close> and \<open>internal/inspect/status.go\<close>: the environment of a process that goes through the proxy,
  the certificate's place in the System keychain, the status report and its warnings, and the purge of captured data.
  The keychain tools are functions: what \<open>security find-certificate\<close> prints for the keychain's content, and what
  running a script with \<open>osascript\<close> makes of the keychain.
\<close>

section \<open>Definitions\<close>

subsection \<open>Trust\<close>

record TrustHost =
  thDarwin :: bool
  thFind :: "string list \<Rightarrow> bool \<times> string"
  thOsascript :: "string \<Rightarrow> OS \<Rightarrow> bool \<times> string list"

record TrustStatus =
  SystemTrusted :: bool
  trustDetail :: string

definition CertSHA1Hex :: "Crypto \<Rightarrow> Certificate option \<Rightarrow> string" where
  "CertSHA1Hex cr cert = (case cert of None \<Rightarrow> [] | Some c \<Rightarrow> ToUpper (crSHA1 cr (cRaw c)))"

definition trustStatusIn :: "TrustHost \<Rightarrow> Crypto \<Rightarrow> Certificate option \<Rightarrow> string list \<Rightarrow> TrustStatus" where
  "trustStatusIn th cr cert keychain =
     (if \<not> thDarwin th then \<lparr>SystemTrusted = False, trustDetail = ''system trust detection is only supported on macOS''\<rparr>
      else if cert = None then \<lparr>SystemTrusted = False, trustDetail = ''CA certificate missing''\<rparr>
      else case thFind th keychain of
        (False, out) \<Rightarrow> \<lparr>SystemTrusted = False, trustDetail = TrimSpace out\<rparr>
      | (True, out) \<Rightarrow>
          if Contains (ToUpper out) (CertSHA1Hex cr cert)
          then \<lparr>SystemTrusted = True, trustDetail = ''AgentSnitch CA fingerprint is present in the System keychain''\<rparr>
          else \<lparr>SystemTrusted = False, trustDetail = ''AgentSnitch CA fingerprint is not present in the System keychain''\<rparr>)"

definition SystemTrustStatus :: "TrustHost \<Rightarrow> Crypto \<Rightarrow> Certificate option \<Rightarrow> TrustStatus io" where
  "SystemTrustStatus th cr cert = State (\<lambda>s. (trustStatusIn th cr cert (osKeychain s), s))"

definition single_quoted :: "string \<Rightarrow> string" where
  "single_quoted v = CHR 0x27 # concat (map (\<lambda>c. if c = CHR 0x27 then [CHR 0x27, CHR 0x5C, CHR 0x27, CHR 0x27] else [c]) v) @ [CHR 0x27]"

definition shellArg :: "string \<Rightarrow> string" where
  "shellArg value = single_quoted value"

definition trustShellQuote :: "string \<Rightarrow> string" where
  "trustShellQuote command = ''/bin/sh -c '' @ single_quoted command"

text \<open>\<open>%q\<close> for text without control characters: quotes and backslashes are escaped.\<close>

definition goQuote :: "string \<Rightarrow> string" where
  "goQuote v = CHR 0x22 # concat (map (\<lambda>c. if c = CHR 0x22 \<or> c = CHR 0x5C then [CHR 0x5C, c] else [c]) v) @ [CHR 0x22]"

definition adminScript :: "string \<Rightarrow> string \<Rightarrow> string" where
  "adminScript command prompt =
     ''do shell script '' @ goQuote (trustShellQuote command) @ '' with administrator privileges with prompt '' @ goQuote prompt"

definition runScript :: "TrustHost \<Rightarrow> string \<Rightarrow> (inspect_error + unit) io" where
  "runScript th script = State (\<lambda>s.
     case thOsascript th script s of
       (ok, keychain) \<Rightarrow> (if ok then Inr () else Inl (Invalid ''exit status''), s\<lparr>osKeychain := keychain\<rparr>))"

definition InstallSystemTrust :: "TrustHost \<Rightarrow> string \<Rightarrow> (inspect_error + unit) io" where
  "InstallSystemTrust th caPath =
     (if \<not> thDarwin th then State_Monad.return (Inl (Invalid ''system trust install is only supported on macOS''))
      else runScript th (adminScript
        (''/usr/bin/security add-trusted-cert -d -r trustRoot -p ssl -k /Library/Keychains/System.keychain '' @ shellArg caPath)
        ''AgentSnitch wants to trust its local HTTPS inspection CA. Approve only if you enabled Advanced HTTPS Inspect Mode.''))"

definition RemoveSystemTrust :: "TrustHost \<Rightarrow> Crypto \<Rightarrow> string \<Rightarrow> Certificate option \<Rightarrow> (inspect_error + unit) io" where
  "RemoveSystemTrust th cr caPath cert =
     (if \<not> thDarwin th then State_Monad.return (Inl (Invalid ''system trust removal is only supported on macOS''))
      else if cert = None then State_Monad.return (Inl (Invalid ''CA certificate missing''))
      else runScript th (adminScript
        (''/usr/bin/security remove-trusted-cert -d '' @ shellArg caPath @ ''; /usr/bin/security delete-certificate -Z '' @
           CertSHA1Hex cr cert @ '' /Library/Keychains/System.keychain'')
        ''AgentSnitch wants to remove its HTTPS inspection CA from macOS trust.''))"

definition ProcessScopedEnv :: "string \<Rightarrow> string \<Rightarrow> (string, string) gomap" where
  "ProcessScopedEnv bundlePath proxyURL =
     (let env = [(''AGENTSNITCH_MANAGED_PROXY'', ''1''), (''AGENTSNITCH_INSPECT_MODE'', ''process_scoped''),
                 (''SSL_CERT_FILE'', bundlePath), (''REQUESTS_CA_BUNDLE'', bundlePath), (''CURL_CA_BUNDLE'', bundlePath),
                 (''GIT_SSL_CAINFO'', bundlePath), (''NODE_EXTRA_CA_CERTS'', bundlePath), (''NPM_CONFIG_CAFILE'', bundlePath),
                 (''npm_config_cafile'', bundlePath), (''PNPM_CONFIG_CAFILE'', bundlePath), (''YARN_CA_FILE'', bundlePath)]
      in if TrimSpace proxyURL = [] then env
         else fold (\<lambda>(k, v). mput k v)
           [(''HTTP_PROXY'', proxyURL), (''HTTPS_PROXY'', proxyURL), (''ALL_PROXY'', proxyURL), (''npm_config_proxy'', proxyURL),
            (''npm_config_https_proxy'', proxyURL), (''NPM_CONFIG_PROXY'', proxyURL), (''NPM_CONFIG_HTTPS_PROXY'', proxyURL),
            (''NO_PROXY'', ''localhost,127.0.0.1,::1,.local'')] env)"

subsection \<open>Status\<close>

record ProxyStatus =
  psEnabled :: bool
  psListening :: bool
  psAddress :: string

record InspectStatus =
  isEnabled :: bool
  isProxy :: ProxyStatus
  isCA :: CAInfo
  isTrust :: TrustStatus
  isTrustMode :: string
  isPayloadMode :: string
  isRetention :: string
  isProcessEnv :: "(string, string) gomap"
  isWarnings :: "string list"
  isLastInspection :: string

definition loadCertificate :: "Crypto \<Rightarrow> string \<Rightarrow> (inspect_error + Certificate) io" where
  "loadCertificate cr path =
     attempt (wrapped IOError (ReadFile path)) (\<lambda>raw.
       State_Monad.return (case crPEMDecode cr raw of
         None \<Rightarrow> Inl (Invalid ''certificate PEM is invalid'')
       | Some (kind, der) \<Rightarrow> (case crParse cr der of None \<Rightarrow> Inl (Invalid ''x509'') | Some c \<Rightarrow> Inr c)))"

definition toOption :: "'e + 'a \<Rightarrow> 'a option" where
  "toOption r = (case r of Inl _ \<Rightarrow> None | Inr x \<Rightarrow> Some x)"

definition errorText :: "inspect_error \<Rightarrow> string" where
  "errorText e = (case e of IOError _ \<Rightarrow> ''file error'' | InvalidJSON \<Rightarrow> ''invalid JSON'' | Invalid msg \<Rightarrow> msg)"

definition statusWarnings :: "Settings \<Rightarrow> ProxyStatus \<Rightarrow> CAInfo \<Rightarrow> inspect_error option \<Rightarrow> inspect_error option \<Rightarrow> bool \<Rightarrow> string list" where
  "statusWarnings settings proxy info caErr permErr trusted =
     (case caErr of Some e \<Rightarrow> if e = IOError ErrNotExist then [] else [''CA state unreadable: '' @ errorText e] | None \<Rightarrow> []) @
     (if HTTPSInspectEnabled settings \<and> \<not> caPresent info then [''Inspect Mode enabled but local CA is missing.''] else []) @
     (case permErr of Some e \<Rightarrow> [errorText e] | None \<Rightarrow> []) @
     (if \<not> HTTPSInspectEnabled settings \<and> trusted then [''System trust is installed while HTTPS Inspect Mode is disabled.''] else []) @
     (if HTTPSInspectEnabled settings \<and> \<not> psListening proxy then [''Inspect Mode enabled but managed proxy is unavailable.''] else []) @
     (if HTTPSInspectCaptureFull settings \<and> HTTPSInspectFullRetention settings = FullPayloadManual
      then [''Full payload capture is enabled with manual retention.''] else [])"

definition CurrentStatus :: "('a) SettingsCodec_scheme \<Rightarrow> Crypto \<Rightarrow> TrustHost \<Rightarrow> ProxyStatus \<Rightarrow> InspectStatus io" where
  "CurrentStatus e cr th proxy =
     do { (settings, _) \<leftarrow> loadSettings e;
          ((info, caErr), _) \<leftarrow> Info cr (NewCertManager (DefaultPaths e));
          cert \<leftarrow> loadCertificate cr (pCAPath (DefaultPaths e));
          trust \<leftarrow> SystemTrustStatus th cr (toOption cert);
          permErr \<leftarrow> (if caPresent info then do { r \<leftarrow> CheckKeyPermissions (DefaultPaths e);
                          State_Monad.return (case r of Inl x \<Rightarrow> Some x | Inr _ \<Rightarrow> None) }
                      else State_Monad.return None);
          State_Monad.return \<lparr>isEnabled = HTTPSInspectEnabled settings, isProxy = proxy, isCA = info, isTrust = trust,
            isTrustMode = TrustMode settings (SystemTrusted trust), isPayloadMode = PayloadMode settings,
            isRetention = HTTPSInspectFullRetention settings, isProcessEnv = [],
            isWarnings = statusWarnings settings proxy info caErr permErr (SystemTrusted trust), isLastInspection = []\<rparr> }"

definition PurgeData :: "Paths \<Rightarrow> (os_error + unit) io" where
  "PurgeData paths = attempt (RemoveAll (pDataDir paths)) (\<lambda>_. MkdirAll (pDataDir paths) perm700)"

end
