(* ===== verification/Inspect_Evidence.thy ===== *)
theory Inspect_Evidence
  imports Event Inspect_Redact Go_Path
begin

text \<open>
  \<open>internal/inspect/evidence.go\<close> and \<open>internal/inspect/retention.go\<close>: the record the proxy makes of an HTTP exchange, and
  the files that keep redacted bodies. A parsed URL carries the results of its methods \<open>EscapedPath\<close> and
  \<open>RequestURI\<close>; \<open>url.Parse\<close>, SHA-256, the random file name, the JSON codec of a payload file and the outcomes of file
  operations are parameters.
\<close>

section \<open>HTTP\<close>

record URL =
  uScheme :: string
  uHost :: string
  uPath :: string
  uEscapedPath :: string
  uRawQuery :: string
  uRequestURI :: string

type_synonym http_header = "(string, string list) gomap"

text \<open>What reading a body yields: there is none, it fails, or its bytes.\<close>

datatype body = NoBody | BrokenBody | Body string

record Request =
  reqMethod :: string
  reqURL :: "URL option"
  reqHost :: string
  reqHeader :: http_header
  reqBody :: body
  reqClose :: bool
  reqRemoteAddr :: string

record Response =
  respStatusCode :: int
  respHeader :: http_header
  respBody :: body
  respContentLength :: int

text \<open>\<open>textproto.CanonicalMIMEHeaderKey\<close>: the first letter and each letter after a hyphen are upper case, the others
  lower case; a name with a character outside the token set is left alone.\<close>

definition is_token :: "char \<Rightarrow> bool" where
  "is_token c \<longleftrightarrow> is_alnum c \<or> c \<in> set ''!#$%&*+-.^_|~'' \<or> c = CHR 0x27 \<or> c = CHR 0x60"

fun title_case :: "bool \<Rightarrow> string \<Rightarrow> string" where
  "title_case up [] = []"
| "title_case up (c # cs) = (if up then upper_char c else lower_char c) # title_case (c = CHR ''-'') cs"

definition CanonicalHeaderKey :: "string \<Rightarrow> string" where
  "CanonicalHeaderKey s = (if list_all is_token s then title_case True s else s)"

definition HeaderValues :: "http_header \<Rightarrow> string \<Rightarrow> string list" where
  "HeaderValues h name = items (mget h (CanonicalHeaderKey name))"

definition HeaderGet :: "http_header \<Rightarrow> string \<Rightarrow> string" where
  "HeaderGet h name = (case HeaderValues h name of [] \<Rightarrow> [] | v # _ \<Rightarrow> v)"

definition HeaderDel :: "http_header \<Rightarrow> string \<Rightarrow> http_header" where
  "HeaderDel h name = mdel (CanonicalHeaderKey name) h"

section \<open>Evidence\<close>

record InspectContext =
  cxSessionID :: string
  cxSpanID :: string
  cxToolUseID :: string
  cxToken :: string

record Capture =
  cpSettings :: Settings
  cpCAFingerprint :: string
  cpNetwork :: InspectedHTTPNetwork

definition inspectedHeader :: "(string \<Rightarrow> string) \<Rightarrow> http_header \<Rightarrow> string \<Rightarrow> InspectedHTTPHeader" where
  "inspectedHeader sha headers name =
     (let value = Join (HeaderValues headers name) '',''; redacted = HeaderShouldRedact name
      in \<lparr>hdrName = ToLower name, hdrPresent = True, hdrRedacted = redacted,
          hdrValueSHA256 = (if redacted then sha value else []), hdrPreview = (if redacted then [] else value)\<rparr>)"

definition inspectedHeaders :: "(string \<Rightarrow> string) \<Rightarrow> http_header \<Rightarrow> InspectedHTTPHeader list" where
  "inspectedHeaders sha headers = map (inspectedHeader sha headers) (sort (map fst headers))"

definition previewForSettings :: "Settings \<Rightarrow> RedactionResult \<Rightarrow> string" where
  "previewForSettings settings redacted =
     (if HTTPSInspectCaptureFull settings \<or> HTTPSInspectCapturePreviews settings then rrPreview redacted else [])"

definition correlationBasis :: "InspectContext \<Rightarrow> string \<Rightarrow> string list" where
  "correlationBasis ctx tlsMode =
     [''managed_proxy'', ''exact_requested_host''] @
     (if cxSessionID ctx \<noteq> [] then [''managed_agent_session''] else []) @
     (if cxToolUseID ctx \<noteq> [] \<or> cxSpanID ctx \<noteq> [] then [''active_tool_span''] else []) @
     (if tlsMode = ''local_mitm'' then [''tls_terminated_locally''] else [])"

definition correlationConfidence :: "InspectContext \<Rightarrow> string \<Rightarrow> string" where
  "correlationConfidence ctx tlsMode =
     (if tlsMode = ''local_mitm'' \<and> (cxToolUseID ctx \<noteq> [] \<or> cxSpanID ctx \<noteq> []) then ''high''
      else if cxSessionID ctx \<noteq> [] then ''medium''
      else ''low'')"

section \<open>Payload files\<close>

record PayloadRecord =
  prSchema :: string
  prCaptured :: time
  prExpiresAt :: "time option"
  prRetention :: string
  prSessionID :: string
  prSpanID :: string
  prToolUseID :: string
  prRequest :: string
  prResponse :: string

text \<open>The entries of the payload directory; \<open>None\<close> for the directory when it does not exist.\<close>

datatype payload_entry = SubDir | Unreadable | File string

type_synonym payload_dir = "(string, payload_entry) gomap option"

record PayloadEnv =
  pvEnsureDirs :: bool
  pvListable :: bool
  pvRemovable :: "string \<Rightarrow> bool"
  pvWritable :: bool
  pvRandomID :: "string option"
  pvEncode :: "PayloadRecord \<Rightarrow> string option"
  pvDecode :: "string \<Rightarrow> PayloadRecord option"

text \<open>Both purges read every file, leave directories and files they cannot read or decode, and remove the records
  that fulfil a condition. The first file that cannot be removed ends the purge with an error.\<close>

fun purge_entries :: "PayloadEnv \<Rightarrow> (PayloadRecord \<Rightarrow> bool) \<Rightarrow> (string, payload_entry) gomap \<Rightarrow> bool \<times> (string, payload_entry) gomap" where
  "purge_entries env P [] = (True, [])"
| "purge_entries env P ((name, entry) # rest) =
     (let keep = (case purge_entries env P rest of (ok, rest') \<Rightarrow> (ok, (name, entry) # rest'))
      in case entry of
           File raw \<Rightarrow>
             (case pvDecode env raw of
                Some r \<Rightarrow> if P r then (if pvRemovable env name then purge_entries env P rest else (False, (name, entry) # rest)) else keep
              | None \<Rightarrow> keep)
         | _ \<Rightarrow> keep)"

definition purge_dir :: "PayloadEnv \<Rightarrow> (PayloadRecord \<Rightarrow> bool) \<Rightarrow> payload_dir \<Rightarrow> bool \<times> payload_dir" where
  "purge_dir env P dir =
     (case dir of
        None \<Rightarrow> (True, None)
      | Some entries \<Rightarrow>
          if \<not> pvListable env then (False, dir)
          else case purge_entries env P entries of (ok, entries') \<Rightarrow> (ok, Some entries'))"

definition payloadExpired :: "time \<Rightarrow> PayloadRecord \<Rightarrow> bool" where
  "payloadExpired now r = (case prExpiresAt r of Some t \<Rightarrow> t \<le> now | None \<Rightarrow> False)"

definition PurgeExpiredPayloads :: "PayloadEnv \<Rightarrow> time \<Rightarrow> payload_dir \<Rightarrow> bool \<times> payload_dir" where
  "PurgeExpiredPayloads env now dir = purge_dir env (payloadExpired now) dir"

definition PurgePayloadsForEndedSessions :: "PayloadEnv \<Rightarrow> string list \<Rightarrow> payload_dir \<Rightarrow> bool \<times> payload_dir" where
  "PurgePayloadsForEndedSessions env sessionIDs dir =
     (let ended = filter (\<lambda>sid. sid \<noteq> []) sessionIDs
      in if ended = [] then (True, dir)
         else purge_dir env (\<lambda>r. prRetention r = FullPayloadUntilSession \<and> prSessionID r \<in> set ended) dir)"

definition payloadExpiry :: "time \<Rightarrow> string \<Rightarrow> time option" where
  "payloadExpiry captured retention =
     (if retention = FullPayloadOneHour then Some (captured + Hour)
      else if retention = FullPayloadTwentyFour then Some (captured + 24 * Hour)
      else None)"

definition payloadRecord :: "time \<Rightarrow> InspectedHTTPExchange \<Rightarrow> string \<Rightarrow> string \<Rightarrow> PayloadRecord" where
  "payloadRecord captured x requestBody responseBody =
     \<lparr>prSchema = ''agentsnitch.inspect_payload.v0'', prCaptured = captured,
      prExpiresAt = payloadExpiry captured (rtRetention (xRetention x)), prRetention = rtRetention (xRetention x),
      prSessionID = xSessionID x, prSpanID = xSpanID x, prToolUseID = xToolUseID x,
      prRequest = requestBody, prResponse = responseBody\<rparr>"

definition withPayloadRef :: "string \<Rightarrow> InspectedHTTPExchange \<Rightarrow> InspectedHTTPExchange" where
  "withPayloadRef ident x =
     (let ref = PathJoin [''payloads'', ident @ ''.json'']
      in x\<lparr>xRequest := (xRequest x)\<lparr>rqPayloadRef := ref @ ''#request''\<rparr>,
           xResponse := (xResponse x)\<lparr>rsPayloadRef := ref @ ''#response''\<rparr>\<rparr>)"

text \<open>The result is the exchange with its references, or \<open>None\<close> for an error, and the directory.\<close>

definition StorePayloadRecord ::
    "PayloadEnv \<Rightarrow> time \<Rightarrow> InspectedHTTPExchange \<Rightarrow> string \<Rightarrow> string \<Rightarrow> payload_dir \<Rightarrow> InspectedHTTPExchange option \<times> payload_dir" where
  "StorePayloadRecord env now x requestBody responseBody dir =
     (if \<not> pvEnsureDirs env then (None, dir)
      else case PurgeExpiredPayloads env now (Some (items dir)) of
             (False, dir1) \<Rightarrow> (None, dir1)
           | (True, dir1) \<Rightarrow>
               (case pvRandomID env of
                  None \<Rightarrow> (None, dir1)
                | Some ident \<Rightarrow>
                    (case pvEncode env (payloadRecord now x requestBody responseBody) of
                       None \<Rightarrow> (None, dir1)
                     | Some raw \<Rightarrow>
                         if \<not> pvWritable env then (None, dir1)
                         else (Some (withPayloadRef ident x), Some (mput (ident @ ''.json'') (File raw) (items dir1))))))"

section \<open>Exchanges\<close>

definition emptyRequest :: InspectedHTTPRequest where
  "emptyRequest = \<lparr>rqMethod = [], rqScheme = ''https'', rqHost = [], rqPath = ''/'', rqQueryRedacted = False, rqHeaders = [],
     rqContentType = [], rqBodySize = 0, rqBodySHA256 = [], rqPreview = [], rqPreviewTruncated = False, rqRedactionCount = 0,
     rqPayloadRef = []\<rparr>"

definition emptyResponse :: InspectedHTTPResponse where
  "emptyResponse = \<lparr>rsStatus = 0, rsContentType = [], rsBodySize = 0, rsBodySHA256 = [], rsPreview = [],
     rsPreviewTruncated = False, rsRedactionCount = 0, rsPayloadRef = []\<rparr>"

text \<open>The parts read from the request and from the response.\<close>

definition requestEvidence :: "(string \<Rightarrow> string) \<Rightarrow> Request \<Rightarrow> InspectedHTTPRequest" where
  "requestEvidence sha req =
     emptyRequest\<lparr>rqMethod := reqMethod req,
       rqScheme := (case reqURL req of Some u \<Rightarrow> if uScheme u \<noteq> [] then uScheme u else ''https'' | None \<Rightarrow> ''https''),
       rqPath := (case reqURL req of Some u \<Rightarrow> if uPath u \<noteq> [] then uEscapedPath u else ''/'' | None \<Rightarrow> ''/''),
       rqQueryRedacted := (case reqURL req of Some u \<Rightarrow> uRawQuery u \<noteq> [] | None \<Rightarrow> False),
       rqHost := canonicalCertHost (if reqHost req \<noteq> [] then reqHost req
                   else (case reqURL req of Some u \<Rightarrow> uHost u | None \<Rightarrow> [])),
       rqContentType := HeaderGet (reqHeader req) ''Content-Type'',
       rqHeaders := inspectedHeaders sha (reqHeader req)\<rparr>"

definition responseEvidence :: "Response \<Rightarrow> InspectedHTTPResponse" where
  "responseEvidence resp =
     emptyResponse\<lparr>rsStatus := respStatusCode resp, rsContentType := HeaderGet (respHeader resp) ''Content-Type''\<rparr>"

definition captureExchange ::
    "(string \<Rightarrow> string) \<Rightarrow> time \<Rightarrow> InspectContext \<Rightarrow> Capture \<Rightarrow> Request \<Rightarrow> string \<Rightarrow> Response \<Rightarrow> string \<Rightarrow> string \<Rightarrow> string \<Rightarrow> bool \<Rightarrow>
     RedactionResult \<Rightarrow> RedactionResult \<Rightarrow> InspectedHTTPExchange" where
  "captureExchange sha now ctx capture req requestBody resp responseBody tlsMode upstreamTLSVersion leafGenerated reqRedacted respRedacted =
     (let settings = cpSettings capture
      in \<lparr>xSchema = SchemaInspectedHTTPV0, xTS = now, xSessionID = cxSessionID ctx, xSpanID = cxSpanID ctx, xToolUseID = cxToolUseID ctx,
          xRequest = (requestEvidence sha req)\<lparr>rqBodySize := int (length requestBody), rqBodySHA256 := rrSHA256 reqRedacted,
             rqPreview := previewForSettings settings reqRedacted, rqPreviewTruncated := rrPreviewTrunc reqRedacted,
             rqRedactionCount := int (rrCount reqRedacted)\<rparr>,
          xResponse = (responseEvidence resp)\<lparr>rsBodySize := int (length responseBody), rsBodySHA256 := rrSHA256 respRedacted,
             rsPreview := previewForSettings settings respRedacted, rsPreviewTruncated := rrPreviewTrunc respRedacted,
             rsRedactionCount := int (rrCount respRedacted)\<rparr>,
          xTLS = \<lparr>tInspectionMode = tlsMode, tCAFingerprint = cpCAFingerprint capture, tLeafCertGenerated = leafGenerated,
             tUpstreamTLSVersion = upstreamTLSVersion\<rparr>,
          xNetwork = cpNetwork capture,
          xRetention = \<lparr>rtPayloadMode = PayloadMode settings, rtPreviewBytes = HTTPSInspectPreviewBytes settings,
             rtFullPayloadStored = HTTPSInspectCaptureFull settings, rtRetention = HTTPSInspectFullRetention settings\<rparr>,
          xCorrelation = \<lparr>crBasis = Some (correlationBasis ctx tlsMode), crConfidence = correlationConfidence ctx tlsMode\<rparr>\<rparr>)"

definition redactionFor :: "(string \<Rightarrow> string) \<Rightarrow> Settings \<Rightarrow> string \<Rightarrow> RedactionResult" where
  "redactionFor sha settings bytes =
     (if PayloadMode settings \<noteq> PayloadMetadataOnly then RedactBody sha bytes (HTTPSInspectPreviewBytes settings) else zeroRedaction)"

definition ExchangeFromHTTP ::
    "(string \<Rightarrow> string) \<Rightarrow> PayloadEnv \<Rightarrow> time \<Rightarrow> InspectContext \<Rightarrow> Capture \<Rightarrow> Request \<Rightarrow> string \<Rightarrow> Response \<Rightarrow> string \<Rightarrow> string \<Rightarrow> string \<Rightarrow> bool \<Rightarrow>
     payload_dir \<Rightarrow> InspectedHTTPExchange \<times> payload_dir" where
  "ExchangeFromHTTP sha env now ctx capture req requestBody resp responseBody tlsMode upstreamTLSVersion leafGenerated dir =
     (let settings = cpSettings capture;
          reqRedacted = redactionFor sha settings requestBody;
          respRedacted = redactionFor sha settings responseBody;
          x = captureExchange sha now ctx capture req requestBody resp responseBody tlsMode upstreamTLSVersion leafGenerated
                reqRedacted respRedacted
      in if HTTPSInspectCaptureFull settings
         then (case StorePayloadRecord env now x (rrValue reqRedacted) (rrValue respRedacted) dir of
                 (Some x', dir') \<Rightarrow> (x', dir')
               | (None, dir') \<Rightarrow> (x\<lparr>xRetention := (xRetention x)\<lparr>rtFullPayloadStored := False\<rparr>\<rparr>, dir'))
         else (x, dir))"

definition MetadataOnlyExchange :: "time \<Rightarrow> InspectContext \<Rightarrow> Capture \<Rightarrow> string \<Rightarrow> string \<Rightarrow> InspectedHTTPExchange" where
  "MetadataOnlyExchange now ctx capture host tlsMode =
     \<lparr>xSchema = SchemaInspectedHTTPV0, xTS = now, xSessionID = cxSessionID ctx, xSpanID = cxSpanID ctx, xToolUseID = cxToolUseID ctx,
      xRequest = emptyRequest\<lparr>rqMethod := ''CONNECT'', rqHost := canonicalCertHost host\<rparr>,
      xResponse = emptyResponse,
      xTLS = \<lparr>tInspectionMode = tlsMode, tCAFingerprint = cpCAFingerprint capture, tLeafCertGenerated = False, tUpstreamTLSVersion = []\<rparr>,
      xNetwork = cpNetwork capture,
      xRetention = \<lparr>rtPayloadMode = PayloadMetadataOnly, rtPreviewBytes = HTTPSInspectPreviewBytes (cpSettings capture),
         rtFullPayloadStored = False, rtRetention = HTTPSInspectFullRetention (cpSettings capture)\<rparr>,
      xCorrelation = \<lparr>crBasis = Some (correlationBasis ctx tlsMode), crConfidence = correlationConfidence ctx tlsMode\<rparr>\<rparr>"

text \<open>A request is sent on under its own path; the credentials for the proxy are dropped.\<close>

definition upstreamTarget :: "Request \<Rightarrow> string \<Rightarrow> string \<Rightarrow> string" where
  "upstreamTarget req scheme host =
     scheme @ ''://'' @ host @ (case reqURL req of Some u \<Rightarrow> if uRequestURI u \<noteq> [] then uRequestURI u else ''/'' | None \<Rightarrow> ''/'')"

definition CloneRequestForUpstreamStreaming :: "(string \<Rightarrow> URL option) \<Rightarrow> Request \<Rightarrow> string \<Rightarrow> string \<Rightarrow> Request option" where
  "CloneRequestForUpstreamStreaming urlParse req scheme host =
     map_option (\<lambda>u. req\<lparr>reqURL := Some u, reqHost := host, reqHeader := HeaderDel (reqHeader req) ''Proxy-Authorization''\<rparr>)
       (urlParse (upstreamTarget req scheme host))"

definition CloneRequestForUpstream :: "(string \<Rightarrow> URL option) \<Rightarrow> Request \<Rightarrow> string \<Rightarrow> string \<Rightarrow> string \<Rightarrow> Request option" where
  "CloneRequestForUpstream urlParse req bytes scheme host =
     map_option (\<lambda>r. r\<lparr>reqBody := Body bytes\<rparr>) (CloneRequestForUpstreamStreaming urlParse req scheme host)"

section \<open>Lemmas\<close>

definition doomed :: "PayloadEnv \<Rightarrow> (PayloadRecord \<Rightarrow> bool) \<Rightarrow> payload_entry \<Rightarrow> bool" where
  "doomed env P entry = (case entry of File raw \<Rightarrow> (case pvDecode env raw of Some r \<Rightarrow> P r | None \<Rightarrow> False) | _ \<Rightarrow> False)"

lemma purge_entries_ok:
  "fst (purge_entries env P entries) \<Longrightarrow> snd (purge_entries env P entries) = filter (\<lambda>(name, entry). \<not> doomed env P entry) entries"
  by (induction env P entries rule: purge_entries.induct)
     (auto simp: doomed_def Let_def split: payload_entry.splits option.splits if_splits prod.splits)

lemma purge_entries_removable:
  "\<forall>name. pvRemovable env name \<Longrightarrow> fst (purge_entries env P entries)"
  by (induction env P entries rule: purge_entries.induct)
     (auto simp: Let_def split: payload_entry.splits option.splits prod.splits)

lemma mget_filter_entry:
  "wf_map m \<Longrightarrow> mget (filter (\<lambda>(k, v). Q v) m) k = (case mget m k of Some v \<Rightarrow> if Q v then Some v else None | None \<Rightarrow> None)"
proof (induction m)
  case (Cons p m)
  obtain k' v where p: "p = (k', v)" by fastforce
  have "k' \<notin> fst ` set m" using Cons.prems by (simp add: wf_map_def p)
  then have "mget (filter (\<lambda>(k, v). Q v) m) k' = None" by (auto simp: map_of_eq_None_iff)
  then show ?case using Cons by (auto simp: p wf_map_def)
qed simp

lemma mget_purge_dir:
  assumes "wf_map (items dir)" "fst (purge_dir env P dir)" "pvListable env"
  shows "mget (items (snd (purge_dir env P dir))) name =
    (case mget (items dir) name of Some entry \<Rightarrow> if doomed env P entry then None else Some entry | None \<Rightarrow> None)"
proof (cases dir)
  case (Some entries)
  then have "snd (purge_dir env P dir) = Some (filter (\<lambda>(name, entry). \<not> doomed env P entry) entries)"
    using assms(2,3) purge_entries_ok [of env P entries] by (auto simp: purge_dir_def split: prod.splits)
  then show ?thesis using assms(1) mget_filter_entry [of entries "\<lambda>e. \<not> doomed env P e" name] Some by (auto split: option.splits)
qed (simp add: purge_dir_def)

lemma purge_dir_succeeds: "\<forall>name. pvRemovable env name \<Longrightarrow> pvListable env \<Longrightarrow> fst (purge_dir env P dir)"
  using purge_entries_removable [of env P] by (auto simp: purge_dir_def split: option.split prod.split) (metis fst_conv)

lemma wf_purge_dir:
  assumes "wf_map (items dir)" "fst (purge_dir env P dir)" "pvListable env"
  shows "wf_map (items (snd (purge_dir env P dir)))"
proof (cases dir)
  case (Some entries)
  then have "snd (purge_dir env P dir) = Some (filter (\<lambda>(name, entry). \<not> doomed env P entry) entries)"
    using assms(2,3) purge_entries_ok [of env P entries] by (auto simp: purge_dir_def split: prod.splits)
  then show ?thesis using assms(1) Some by (simp add: wf_map_def distinct_map_filter)
qed (simp add: purge_dir_def)

lemma store_result:
  assumes "StorePayloadRecord env now x requestBody responseBody dir = (Some x', dir')"
  obtains ident raw dir1 where "pvRandomID env = Some ident" "pvEncode env (payloadRecord now x requestBody responseBody) = Some raw"
    "PurgeExpiredPayloads env now (Some (items dir)) = (True, dir1)" "x' = withPayloadRef ident x"
    "dir' = Some (mput (ident @ ''.json'') (File raw) (items dir1))"
  using assms by (auto simp: StorePayloadRecord_def split: if_splits prod.splits bool.splits option.splits)

section \<open>The properties\<close>

lemma redactedHeaders_trimmed: "n \<in> set redactedHeaders \<Longrightarrow> TrimSpace n = n"
proof -
  have "list_all (\<lambda>n. TrimSpace n = n) redactedHeaders" by code_simp
  then show "n \<in> set redactedHeaders \<Longrightarrow> TrimSpace n = n" by (simp add: list_all_iff)
qed

lemma header_redacted:
  "hdrName (inspectedHeader sha headers name) \<in> set redactedHeaders \<Longrightarrow>
   hdrRedacted (inspectedHeader sha headers name) \<and> hdrPreview (inspectedHeader sha headers name) = []"
  using redactedHeaders_trimmed [of "ToLower name"] by (simp add: inspectedHeader_def Let_def HeaderShouldRedact_def str_simps)

lemma mode_metadata: "PayloadMode settings = PayloadMetadataOnly \<longleftrightarrow> \<not> HTTPSInspectCaptureFull settings \<and> \<not> HTTPSInspectCapturePreviews settings"
  by (simp add: PayloadMode_def payload_mode_defs)

lemma withPayloadRef_fields:
  "rqHeaders (xRequest (withPayloadRef i x)) = rqHeaders (xRequest x)" "rqPreview (xRequest (withPayloadRef i x)) = rqPreview (xRequest x)"
  "rsPreview (xResponse (withPayloadRef i x)) = rsPreview (xResponse x)" "rqBodySHA256 (xRequest (withPayloadRef i x)) = rqBodySHA256 (xRequest x)"
  "rsBodySHA256 (xResponse (withPayloadRef i x)) = rsBodySHA256 (xResponse x)"
  by (simp_all add: withPayloadRef_def Let_def)

lemma exchange_fields:
  assumes "ExchangeFromHTTP sha env now ctx capture req b resp b' mode ver leaf dir = (x, dir')"
  shows "rqHeaders (xRequest x) = inspectedHeaders sha (reqHeader req)"
    "rqPreview (xRequest x) = previewForSettings (cpSettings capture) (redactionFor sha (cpSettings capture) b)"
    "rsPreview (xResponse x) = previewForSettings (cpSettings capture) (redactionFor sha (cpSettings capture) b')"
    "rqBodySHA256 (xRequest x) = rrSHA256 (redactionFor sha (cpSettings capture) b)"
    "rsBodySHA256 (xResponse x) = rrSHA256 (redactionFor sha (cpSettings capture) b')"
proof -
  define y where "y = captureExchange sha now ctx capture req b resp b' mode ver leaf
    (redactionFor sha (cpSettings capture) b) (redactionFor sha (cpSettings capture) b')"
  obtain o1 d1 where st: "StorePayloadRecord env now y (rrValue (redactionFor sha (cpSettings capture) b))
    (rrValue (redactionFor sha (cpSettings capture) b')) dir = (o1, d1)" by fastforce
  have x: "x = (if HTTPSInspectCaptureFull (cpSettings capture)
      then (case o1 of Some x' \<Rightarrow> x' | None \<Rightarrow> y\<lparr>xRetention := (xRetention y)\<lparr>rtFullPayloadStored := False\<rparr>\<rparr>) else y)"
    using assms st unfolding ExchangeFromHTTP_def Let_def y_def [symmetric] by (auto split: option.splits if_splits)
  have "x = y \<or> x = y\<lparr>xRetention := (xRetention y)\<lparr>rtFullPayloadStored := False\<rparr>\<rparr> \<or> (\<exists>i. x = withPayloadRef i y)"
  proof (cases o1)
    case (Some x')
    obtain i where "x' = withPayloadRef i y" using store_result [OF st [unfolded Some]] by blast
    then show ?thesis using x Some by auto
  qed (use x in auto)
  then show "rqHeaders (xRequest x) = inspectedHeaders sha (reqHeader req)"
    "rqPreview (xRequest x) = previewForSettings (cpSettings capture) (redactionFor sha (cpSettings capture) b)"
    "rsPreview (xResponse x) = previewForSettings (cpSettings capture) (redactionFor sha (cpSettings capture) b')"
    "rqBodySHA256 (xRequest x) = rrSHA256 (redactionFor sha (cpSettings capture) b)"
    "rsBodySHA256 (xResponse x) = rrSHA256 (redactionFor sha (cpSettings capture) b')"
    by (elim disjE exE; simp add: withPayloadRef_fields; simp add: y_def captureExchange_def requestEvidence_def Let_def)+
qed

text \<open>C35. An exchange record keeps what the settings allow and no more: a header that carries credentials is present
  without its value, of which only the hash is kept, in every mode, and no other header is hashed; with capture off there are no
  previews of the bodies, no hashes of the bodies and no file; without full capture no file is written; and a
  preview, where there is one, is the beginning of the redacted body.\<close>

theorem capture_policy_respected:
  assumes "ExchangeFromHTTP sha env now ctx capture req b resp b' mode ver leaf dir = (x, dir')"
  shows "(\<forall>h. h \<in> set (rqHeaders (xRequest x)) \<and> hdrName h \<in> set redactedHeaders \<longrightarrow> hdrRedacted h \<and> hdrPreview h = []) \<and>
    (\<forall>h. h \<in> set (rqHeaders (xRequest x)) \<and> hdrValueSHA256 h \<noteq> [] \<longrightarrow>
       (\<exists>(name, values) \<in> set (reqHeader req). hdrName h = ToLower name \<and> TrimSpace (ToLower name) \<in> set redactedHeaders \<and>
          hdrValueSHA256 h = sha (Join (HeaderValues (reqHeader req) name) '',''))) \<and>
    (PayloadMode (cpSettings capture) = PayloadMetadataOnly \<longrightarrow>
       rqPreview (xRequest x) = [] \<and> rsPreview (xResponse x) = [] \<and> rqBodySHA256 (xRequest x) = [] \<and> rsBodySHA256 (xResponse x) = [] \<and> dir' = dir) \<and>
    (\<not> HTTPSInspectCaptureFull (cpSettings capture) \<longrightarrow> dir' = dir) \<and>
    prefix (rqPreview (xRequest x)) (fst (redactText b)) \<and> prefix (rsPreview (xResponse x)) (fst (redactText b'))"
proof (intro conjI allI impI)
  note f = exchange_fields [OF assms]
  show "hdrRedacted h" "hdrPreview h = []" if "h \<in> set (rqHeaders (xRequest x)) \<and> hdrName h \<in> set redactedHeaders" for h
    using that header_redacted f(1) by (auto simp: inspectedHeaders_def)
  show "\<exists>(name, values) \<in> set (reqHeader req). hdrName h = ToLower name \<and> TrimSpace (ToLower name) \<in> set redactedHeaders \<and>
      hdrValueSHA256 h = sha (Join (HeaderValues (reqHeader req) name) '','')"
    if "h \<in> set (rqHeaders (xRequest x)) \<and> hdrValueSHA256 h \<noteq> []" for h
    using that f(1) by (auto simp: inspectedHeaders_def inspectedHeader_def HeaderShouldRedact_def str_simps Let_def split: if_splits intro!: bexI)
  have off: "redactionFor sha (cpSettings capture) s = zeroRedaction" if "PayloadMode (cpSettings capture) = PayloadMetadataOnly" for s
    using that by (simp add: redactionFor_def)
  show "rqPreview (xRequest x) = []" "rsPreview (xResponse x) = []" "rqBodySHA256 (xRequest x) = []" "rsBodySHA256 (xResponse x) = []"
    if "PayloadMode (cpSettings capture) = PayloadMetadataOnly"
    using f(2-5) off [OF that] by (simp_all add: previewForSettings_def zeroRedaction_def)
  show dir: "dir' = dir" if "\<not> HTTPSInspectCaptureFull (cpSettings capture)"
    using that assms by (simp add: ExchangeFromHTTP_def Let_def)
  show "dir' = dir" if "PayloadMode (cpSettings capture) = PayloadMetadataOnly"
    using that dir mode_metadata by blast
  have "prefix (previewForSettings (cpSettings capture) (redactionFor sha (cpSettings capture) s)) (fst (redactText s))" for s
    by (simp add: previewForSettings_def redactionFor_def zeroRedaction_def RedactBody_preview(1) rrValue_RedactBody take_is_prefix)
  then show "prefix (rqPreview (xRequest x)) (fst (redactText b))" "prefix (rsPreview (xResponse x)) (fst (redactText b'))"
    using f(2,3) by simp_all
qed

text \<open>What a purge does to one entry.\<close>

definition expired_entry :: "PayloadEnv \<Rightarrow> time \<Rightarrow> payload_entry \<Rightarrow> bool" where
  "expired_entry env now entry = doomed env (payloadExpired now) entry"

lemma expired_record:
  assumes "pvDecode env raw = Some (payloadRecord now x b b')"
  shows "doomed env (payloadExpired later) (File raw) \<longleftrightarrow>
    (rtRetention (xRetention x) = FullPayloadOneHour \<and> now + Hour \<le> later \<or>
     rtRetention (xRetention x) = FullPayloadTwentyFour \<and> now + 24 * Hour \<le> later)"
  using assms by (auto simp: doomed_def payloadExpired_def payloadRecord_def payloadExpiry_def retention_defs)

text \<open>A stored payload lives as long as its retention says: it is in the directory under the name the exchange
  refers to, with the redacted bodies; a later purge removes it once its hour or its day has passed and not
  before, the end of its session removes it when it is kept until then and not otherwise, and storing it disturbs
  no other entry that has not expired.\<close>

theorem payload_lifetime:
  assumes "\<And>r raw. pvEncode env r = Some raw \<Longrightarrow> pvDecode env raw = Some r"
    and "wf_map (items dir)" "pvListable env" "\<forall>name. pvRemovable env name"
    and "StorePayloadRecord env now x b b' dir = (Some x', dir')"
  shows "\<exists>ident raw. pvRandomID env = Some ident \<and> mget (items dir') (ident @ ''.json'') = Some (File raw) \<and>
    rqPayloadRef (xRequest x') = PathJoin [''payloads'', ident @ ''.json''] @ ''#request'' \<and>
    pvDecode env raw = Some (payloadRecord now x b b') \<and>
    (\<forall>later. mget (items (snd (PurgeExpiredPayloads env later dir'))) (ident @ ''.json'') =
       (if rtRetention (xRetention x) = FullPayloadOneHour \<and> now + Hour \<le> later \<or>
           rtRetention (xRetention x) = FullPayloadTwentyFour \<and> now + 24 * Hour \<le> later then None else Some (File raw))) \<and>
    (\<forall>ended. mget (items (snd (PurgePayloadsForEndedSessions env ended dir'))) (ident @ ''.json'') =
       (if rtRetention (xRetention x) = FullPayloadUntilSession \<and> xSessionID x \<noteq> [] \<and> xSessionID x \<in> set ended then None else Some (File raw))) \<and>
    (\<forall>name entry. name \<noteq> ident @ ''.json'' \<and> mget (items dir) name = Some entry \<and> \<not> expired_entry env now entry \<longrightarrow>
       mget (items dir') name = Some entry)"
proof -
  obtain ident raw dir1 where s: "pvRandomID env = Some ident" "pvEncode env (payloadRecord now x b b') = Some raw"
    "PurgeExpiredPayloads env now (Some (items dir)) = (True, dir1)" "x' = withPayloadRef ident x"
    "dir' = Some (mput (ident @ ''.json'') (File raw) (items dir1))"
    using store_result [OF assms(5)] by blast
  have dec: "pvDecode env raw = Some (payloadRecord now x b b')" using assms(1) s(2) by blast
  have p1: "fst (purge_dir env (payloadExpired now) (Some (items dir)))" "dir1 = snd (purge_dir env (payloadExpired now) (Some (items dir)))"
    using s(3) by (simp_all add: PurgeExpiredPayloads_def)
  have wf: "wf_map (items dir')" using wf_purge_dir [OF _ p1(1) assms(3)] assms(2) p1(2) by (simp add: s(5))
  have own: "mget (items dir') (ident @ ''.json'') = Some (File raw)" by (simp add: s(5))
  note later = mget_purge_dir [OF wf purge_dir_succeeds [OF assms(4,3)] assms(3)]
  have "mget (items (snd (PurgeExpiredPayloads env t dir'))) (ident @ ''.json'') =
      (if doomed env (payloadExpired t) (File raw) then None else Some (File raw))" for t
    using later own by (simp add: PurgeExpiredPayloads_def)
  moreover have "mget (items (snd (PurgePayloadsForEndedSessions env ended dir'))) (ident @ ''.json'') =
       (if rtRetention (xRetention x) = FullPayloadUntilSession \<and> xSessionID x \<noteq> [] \<and> xSessionID x \<in> set ended then None else Some (File raw))" for ended
    using later own dec by (auto simp: PurgePayloadsForEndedSessions_def Let_def doomed_def payloadRecord_def filter_empty_conv)
  moreover have "mget (items dir') name = Some entry"
    if "name \<noteq> ident @ ''.json''" "mget (items dir) name = Some entry" "\<not> expired_entry env now entry" for name entry
    using that mget_purge_dir [OF _ p1(1) assms(3), of name] assms(2) by (simp add: s(5) p1(2) expired_entry_def)
  ultimately show ?thesis
    using s(1,4) own dec expired_record [OF dec] by (auto simp: withPayloadRef_def Let_def)
qed

text \<open>An hour of retention, with a codec for one record.\<close>

definition demoExchange :: InspectedHTTPExchange where
  "demoExchange = MetadataOnlyExchange 1 \<lparr>cxSessionID = ''s1'', cxSpanID = [], cxToolUseID = [], cxToken = []\<rparr>
     \<lparr>cpSettings = DefaultSettings\<lparr>HTTPSInspectFullRetention := FullPayloadOneHour\<rparr>, cpCAFingerprint = [], cpNetwork =
       \<lparr>nwRemote = [], nwRemoteIP = [], nwRemotePort = 0, nwBytesOut = 0, nwBytesIn = 0, nwDurationMS = 0\<rparr>\<rparr> ''api.example.com'' ''metadata_only''"

definition demoRecord :: PayloadRecord where "demoRecord = payloadRecord 1 demoExchange ''req'' ''resp''"

definition demoPayloads :: PayloadEnv where
  "demoPayloads = \<lparr>pvEnsureDirs = True, pvListable = True, pvRemovable = (\<lambda>name. True), pvWritable = True, pvRandomID = Some ''00ff'',
     pvEncode = (\<lambda>r. if r = demoRecord then Some ''record'' else None),
     pvDecode = (\<lambda>raw. if raw = ''record'' then Some demoRecord else None)\<rparr>"

theorem payload_lifetime_witness:
  "\<exists>x' dir'. StorePayloadRecord demoPayloads 1 demoExchange ''req'' ''resp'' None = (Some x', dir') \<and>
     mget (items (snd (PurgeExpiredPayloads demoPayloads (30 * Minute) dir'))) ''00ff.json'' = Some (File ''record'') \<and>
     mget (items (snd (PurgeExpiredPayloads demoPayloads (2 * Hour) dir'))) ''00ff.json'' = None"
proof -
  have st: "StorePayloadRecord demoPayloads 1 demoExchange ''req'' ''resp'' None =
      (Some (withPayloadRef ''00ff'' demoExchange), Some [(''00ff.json'', File ''record'')])"
    by (simp add: StorePayloadRecord_def PurgeExpiredPayloads_def purge_dir_def demoPayloads_def demoRecord_def)
  have "rtRetention (xRetention demoExchange) = FullPayloadOneHour" by (simp add: demoExchange_def MetadataOnlyExchange_def)
  then show ?thesis
    using payload_lifetime [of demoPayloads None 1 demoExchange "''req''" "''resp''", OF _ _ _ _ st] st
    by (force simp: demoPayloads_def wf_map_def time_defs split: if_splits)
qed

definition demoCapture :: "InspectedHTTPExchange \<times> payload_dir" where
  "demoCapture = ExchangeFromHTTP (\<lambda>s. s) demoPayloads 1 \<lparr>cxSessionID = ''s1'', cxSpanID = [], cxToolUseID = [], cxToken = []\<rparr>
     \<lparr>cpSettings = DefaultSettings\<lparr>HTTPSInspectCapturePreviews := False\<rparr>, cpCAFingerprint = [], cpNetwork = xNetwork demoExchange\<rparr>
     \<lparr>reqMethod = ''GET'', reqURL = None, reqHost = ''api.example.com'', reqHeader = [(''Authorization'', [''Bearer x''])],
       reqBody = NoBody, reqClose = False, reqRemoteAddr = []\<rparr> ''secret''
     \<lparr>respStatusCode = 200, respHeader = [], respBody = NoBody, respContentLength = 0\<rparr> [] ''local_mitm'' [] True None"

theorem capture_policy_respected_witness:
  "rqPreview (xRequest (fst demoCapture)) = [] \<and> rqBodySHA256 (xRequest (fst demoCapture)) = [] \<and> snd demoCapture = None \<and>
   (\<exists>h. rqHeaders (xRequest (fst demoCapture)) = [h] \<and> hdrValueSHA256 h = ''Bearer x'' \<and> hdrPreview h = [])"
proof -
  obtain x dir' where d: "demoCapture = (x, dir')" by fastforce
  have "map (\<lambda>h. (hdrName h, hdrValueSHA256 h)) (rqHeaders (xRequest (fst demoCapture))) = [(''authorization'', ''Bearer x'')]" by code_simp
  then obtain h where h: "rqHeaders (xRequest x) = [h]" "hdrName h = ''authorization''" "hdrValueSHA256 h = ''Bearer x''" by (auto simp: d)
  have "''authorization'' \<in> set redactedHeaders" by code_simp
  then show ?thesis
    using h d capture_policy_respected [of "\<lambda>s. s"] by (auto simp: demoCapture_def mode_metadata DefaultSettings_def)
qed

end
