(* ===== verification/Go_Utf8.thy ===== *)
theory Go_Utf8
  imports Prelude
begin

text \<open>
  \<open>unicode/utf8\<close>, \<open>strings.Map\<close> and \<open>unicode.IsPrint\<close> as the log renderers use them. A rune is a natural number; a string
  stays a list of bytes. A byte that starts no well-formed sequence decodes to \<open>RuneError\<close> and is one byte wide, and
  encoding a number that is no scalar value encodes \<open>RuneError\<close>. The properties of runes above Latin-1, which Go
  keeps in the tables of the Unicode standard, are the argument \<open>wide\<close> of \<open>IsPrint\<close>.
\<close>

type_synonym rune = nat

definition RuneError :: rune where "RuneError = 0xFFFD"
definition MaxRune :: rune where "MaxRune = 0x10FFFF"

definition ValidRune :: "rune \<Rightarrow> bool" where
  "ValidRune r \<longleftrightarrow> r < 0xD800 \<or> 0xDFFF < r \<and> r \<le> MaxRune"

definition byte_of :: "char \<Rightarrow> nat" where
  "byte_of c = of_char c"

definition continuation :: "char \<Rightarrow> bool" where
  "continuation c \<longleftrightarrow> 0x80 \<le> byte_of c \<and> byte_of c \<le> 0xBF"

text \<open>The bounds of the second byte, by the first: they exclude overlong forms, surrogates and numbers above
  \<open>MaxRune\<close>.\<close>

definition second_ok :: "nat \<Rightarrow> char \<Rightarrow> bool" where
  "second_ok b c \<longleftrightarrow>
     (if b = 0xE0 then 0xA0 else if b = 0xF0 then 0x90 else 0x80) \<le> byte_of c \<and>
     byte_of c \<le> (if b = 0xED then 0x9F else if b = 0xF4 then 0x8F else 0xBF)"

definition low6 :: "char \<Rightarrow> nat" where
  "low6 c = byte_of c mod 64"

definition DecodeRune :: "char \<Rightarrow> string \<Rightarrow> rune \<times> nat" where
  "DecodeRune c rest =
     (let b = byte_of c
      in if b < 0x80 then (b, 1)
         else if 0xC2 \<le> b \<and> b \<le> 0xDF then
           (case rest of
              c1 # _ \<Rightarrow> if second_ok b c1 then (b mod 32 * 64 + low6 c1, 2) else (RuneError, 1)
            | _ \<Rightarrow> (RuneError, 1))
         else if 0xE0 \<le> b \<and> b \<le> 0xEF then
           (case rest of
              c1 # c2 # _ \<Rightarrow> if second_ok b c1 \<and> continuation c2
                             then (b mod 16 * 4096 + low6 c1 * 64 + low6 c2, 3) else (RuneError, 1)
            | _ \<Rightarrow> (RuneError, 1))
         else if 0xF0 \<le> b \<and> b \<le> 0xF4 then
           (case rest of
              c1 # c2 # c3 # _ \<Rightarrow> if second_ok b c1 \<and> continuation c2 \<and> continuation c3
                                  then (b mod 8 * 262144 + low6 c1 * 4096 + low6 c2 * 64 + low6 c3, 4)
                                  else (RuneError, 1)
            | _ \<Rightarrow> (RuneError, 1))
         else (RuneError, 1))"

text \<open>\<open>for _, r := range s\<close>, and \<open>[]rune(s)\<close>.\<close>

function runes :: "string \<Rightarrow> rune list" where
  "runes [] = []"
| "runes (c # cs) = fst (DecodeRune c cs) # runes (drop (snd (DecodeRune c cs) - 1) cs)"
  by pat_completeness auto

termination
  by (relation "measure length") (auto simp: le_imp_less_Suc)

definition tail_byte :: "nat \<Rightarrow> char" where
  "tail_byte n = char_of (0x80 + n mod 64)"

definition EncodeRune :: "rune \<Rightarrow> string" where
  "EncodeRune r0 =
     (let r = (if ValidRune r0 then r0 else RuneError)
      in if r < 0x80 then [char_of r]
         else if r < 0x800 then [char_of (0xC0 + r div 64), tail_byte r]
         else if r < 0x10000 then [char_of (0xE0 + r div 4096), tail_byte (r div 64), tail_byte r]
         else [char_of (0xF0 + r div 262144), tail_byte (r div 4096), tail_byte (r div 64), tail_byte r])"

text \<open>\<open>string(runes)\<close>, and \<open>strings.Map\<close> for a mapping that drops no rune.\<close>

definition encode :: "rune list \<Rightarrow> string" where
  "encode rs = concat (map EncodeRune rs)"

definition MapRunes :: "(rune \<Rightarrow> rune) \<Rightarrow> string \<Rightarrow> string" where
  "MapRunes f s = encode (map f (runes s))"

definition IsPrint :: "(rune \<Rightarrow> bool) \<Rightarrow> rune \<Rightarrow> bool" where
  "IsPrint wide r \<longleftrightarrow>
     (if r \<le> 0xFF then 0x20 \<le> r \<and> r \<le> 0x7E \<or> 0xA1 \<le> r \<and> r \<noteq> 0xAD else wide r)"

section \<open>Encoding and decoding\<close>

lemma byte_of_char_of [simp]: "n < 256 \<Longrightarrow> byte_of (char_of n) = n"
  by (simp add: byte_of_def)

lemma byte_of_less [simp]: "byte_of c < 256"
  unfolding byte_of_def by (rule nat_of_char_less_256)

lemma char_of_byte_of [simp]: "char_of (byte_of c) = c"
  by (simp add: byte_of_def)

lemma low6_less [simp]: "low6 c < 64"
  by (simp add: low6_def)

lemma byte_of_tail_byte [simp]: "byte_of (tail_byte n) = 0x80 + n mod 64"
proof -
  have "n mod 64 < 64" by simp
  then show ?thesis unfolding tail_byte_def by (intro byte_of_char_of) linarith
qed

lemma low6_tail_byte [simp]: "low6 (tail_byte n) = n mod 64"
proof -
  have "(0x80 + n mod 64) mod 64 = (2 * 64 + n mod 64) mod 64" by simp
  then show ?thesis unfolding low6_def byte_of_tail_byte by (simp only: mod_mult_self3 mod_mod_trivial)
qed

lemma continuation_tail_byte [simp]: "continuation (tail_byte n)"
proof -
  have "n mod 64 < 64" by simp
  then show ?thesis unfolding continuation_def byte_of_tail_byte by linarith
qed

text \<open>The digits of a number in base 64.\<close>

lemma base64: "(r::nat) = r div 64 * 64 + r mod 64" "r mod 64 < 64"
  by simp_all

lemma div_4096: "(r::nat) div 4096 = r div 64 div 64"
  using div_mult2_eq [of r 64 64] by simp

lemma div_262144: "(r::nat) div 262144 = r div 64 div 64 div 64"
  using div_mult2_eq [of r 64 4096] by (simp add: div_4096)

lemma mod_top:
  "a < 32 \<Longrightarrow> (0xC0 + a) mod 32 = (a::nat)" "a < 16 \<Longrightarrow> (0xE0 + a) mod 16 = (a::nat)" "a < 8 \<Longrightarrow> (0xF0 + a) mod 8 = (a::nat)"
  using mod_mult_self3 [of 6 32 a] mod_mult_self3 [of 14 16 a] mod_mult_self3 [of 30 8 a] by simp_all

lemma decode_encode_2:
  assumes "0x80 \<le> r" "r < 0x800"
  shows "DecodeRune (char_of (0xC0 + r div 64)) (tail_byte r # s) = (r, 2)"
proof -
  define a where "a = r div 64"
  have r: "r = a * 64 + r mod 64" "r mod 64 < 64" using base64 [of r] by (simp_all add: a_def)
  have d: "2 \<le> a" "a < 32" using assms r by linarith+
  have "byte_of (char_of (0xC0 + a)) = 0xC0 + a" using d by (intro byte_of_char_of) linarith
  moreover have "second_ok (0xC0 + a) (tail_byte r)" using d r(2) by (simp add: second_ok_def)
  ultimately have "DecodeRune (char_of (0xC0 + a)) (tail_byte r # s) = (a * 64 + r mod 64, 2)"
    using d by (simp add: DecodeRune_def Let_def mod_top)
  then show ?thesis using r(1) by (simp add: a_def)
qed

lemma decode_encode_3:
  assumes "0x800 \<le> r" "r < 0x10000" "ValidRune r"
  shows "DecodeRune (char_of (0xE0 + r div 4096)) (tail_byte (r div 64) # tail_byte r # s) = (r, 3)"
proof -
  define q where "q = r div 64"
  define a where "a = q div 64"
  have r: "r = q * 64 + r mod 64" "r mod 64 < 64" "q = a * 64 + q mod 64" "q mod 64 < 64"
    using base64 [of r] base64 [of q] by (simp_all add: a_def q_def)
  have d: "a < 16" using assms(2) r by linarith
  have "a = 0 \<Longrightarrow> 32 \<le> q mod 64" using assms(1) r by linarith
  moreover have "q mod 64 < 32" if "a = 13"
  proof (rule ccontr)
    assume "\<not> q mod 64 < 32"
    then have "0xD800 \<le> r" "r \<le> 0xDFFF" using that r by linarith+
    then show False using assms(3) by (simp add: ValidRune_def)
  qed
  ultimately have "second_ok (0xE0 + a) (tail_byte q)" using d r(4) by (auto simp: second_ok_def)
  moreover have "byte_of (char_of (0xE0 + a)) = 0xE0 + a" using d by (intro byte_of_char_of) linarith
  ultimately have "DecodeRune (char_of (0xE0 + a)) (tail_byte q # tail_byte r # s) = (a * 4096 + q mod 64 * 64 + r mod 64, 3)"
    using d by (simp add: DecodeRune_def Let_def mod_top)
  moreover have "a * 4096 + q mod 64 * 64 + r mod 64 = r" using r by linarith
  ultimately show ?thesis by (simp add: a_def q_def div_4096)
qed

lemma decode_encode_4:
  assumes "0x10000 \<le> r" "r \<le> MaxRune"
  shows "DecodeRune (char_of (0xF0 + r div 262144)) (tail_byte (r div 4096) # tail_byte (r div 64) # tail_byte r # s) = (r, 4)"
proof -
  define q where "q = r div 64"
  define p where "p = q div 64"
  define a where "a = p div 64"
  have r: "r = q * 64 + r mod 64" "r mod 64 < 64" "q = p * 64 + q mod 64" "q mod 64 < 64" "p = a * 64 + p mod 64" "p mod 64 < 64"
    using base64 [of r] base64 [of q] base64 [of p] by (simp_all add: a_def q_def p_def)
  have m: "r \<le> 0x10FFFF" using assms(2) by (simp add: MaxRune_def)
  have d: "a < 5" using m r by linarith
  have "a = 0 \<Longrightarrow> 16 \<le> p mod 64" using assms(1) r by linarith
  moreover have "a = 4 \<Longrightarrow> p mod 64 < 16" using m r by linarith
  ultimately have "second_ok (0xF0 + a) (tail_byte p)" using d r(6) by (auto simp: second_ok_def)
  moreover have "byte_of (char_of (0xF0 + a)) = 0xF0 + a" using d by (intro byte_of_char_of) linarith
  ultimately have "DecodeRune (char_of (0xF0 + a)) (tail_byte p # tail_byte q # tail_byte r # s) =
      (a * 262144 + p mod 64 * 4096 + q mod 64 * 64 + r mod 64, 4)"
    using d by (simp add: DecodeRune_def Let_def mod_top)
  moreover have "a * 262144 + p mod 64 * 4096 + q mod 64 * 64 + r mod 64 = r" using r by linarith
  ultimately show ?thesis by (simp add: a_def q_def p_def div_4096 div_262144)
qed

lemma runes_EncodeRune: "ValidRune r \<Longrightarrow> runes (EncodeRune r @ s) = r # runes s"
proof -
  assume v: "ValidRune r"
  consider "r < 0x80" | "0x80 \<le> r" "r < 0x800" | "0x800 \<le> r" "r < 0x10000" | "0x10000 \<le> r" "r \<le> MaxRune"
    using v by (fastforce simp: ValidRune_def MaxRune_def)
  then show ?thesis
  proof cases
    case 1
    then show ?thesis by (simp add: EncodeRune_def ValidRune_def DecodeRune_def)
  next
    case 2
    then show ?thesis using v by (simp add: EncodeRune_def decode_encode_2)
  next
    case 3
    then show ?thesis using v by (simp add: EncodeRune_def decode_encode_3)
  next
    case 4
    then show ?thesis using v by (simp add: EncodeRune_def decode_encode_4)
  qed
qed

lemma runes_encode: "list_all ValidRune rs \<Longrightarrow> runes (encode rs @ s) = rs @ runes s"
  by (induction rs) (simp_all add: encode_def runes_EncodeRune)

lemma runes_encode_only: "list_all ValidRune rs \<Longrightarrow> runes (encode rs) = rs"
  using runes_encode [of rs "[]"] by simp

lemma ValidRune_RuneError [simp]: "ValidRune RuneError"
  by (simp add: ValidRune_def RuneError_def MaxRune_def)

text \<open>What decoding yields is always a scalar value, whatever the bytes.\<close>

lemma low6_second: "0x80 \<le> byte_of c \<Longrightarrow> byte_of c \<le> 0xBF \<Longrightarrow> low6 c = byte_of c - 0x80"
proof -
  assume b: "0x80 \<le> byte_of c" "byte_of c \<le> 0xBF"
  then have "byte_of c = 2 * 64 + (byte_of c - 0x80)" by linarith
  then have "low6 c = (2 * 64 + (byte_of c - 0x80)) mod 64" by (simp add: low6_def)
  then show ?thesis using b by (simp only: mod_mult_self3) simp
qed

lemma second_ok_bounds: "second_ok b c \<Longrightarrow> 0x80 \<le> byte_of c \<and> byte_of c \<le> 0xBF"
  by (auto simp: second_ok_def split: if_splits)

lemma valid_3:
  assumes "0xE0 \<le> b" "b \<le> 0xEF" "second_ok b c1"
  shows "ValidRune (b mod 16 * 4096 + low6 c1 * 64 + low6 c2)"
proof -
  have b: "b mod 16 = b - 0xE0" using mod_top(2) [of "b - 0xE0"] assms(1,2) by simp
  have l: "low6 c1 = byte_of c1 - 0x80" using low6_second second_ok_bounds [OF assms(3)] by blast
  show ?thesis
  proof (cases "b = 0xED")
    case True
    then have "low6 c1 < 32" using assms(3) l by (simp add: second_ok_def) linarith
    then have "13 * 4096 + low6 c1 * 64 + low6 c2 < 0xD800" using low6_less [of c2] by linarith
    then show ?thesis using True b by (simp add: ValidRune_def)
  next
    case False
    define a where "a = b - 0xE0"
    have a: "a < 13 \<or> 14 \<le> a" "a \<le> 15" using False assms(1,2) by (auto simp: a_def)
    have "a * 4096 + low6 c1 * 64 + low6 c2 < 0xD000 \<or> 0xDFFF < a * 4096 + low6 c1 * 64 + low6 c2"
      using a low6_less [of c1] low6_less [of c2] by linarith
    moreover have "a * 4096 + low6 c1 * 64 + low6 c2 \<le> MaxRune"
      unfolding MaxRune_def using a low6_less [of c1] low6_less [of c2] by linarith
    ultimately show ?thesis unfolding b a_def [symmetric] ValidRune_def by auto
  qed
qed

lemma valid_4:
  assumes "0xF0 \<le> b" "b \<le> 0xF4" "second_ok b c1"
  shows "ValidRune (b mod 8 * 262144 + low6 c1 * 4096 + low6 c2 * 64 + low6 c3)"
proof -
  define a where "a = b - 0xF0"
  have b: "b mod 8 = a" using mod_top(3) [of "b - 0xF0"] assms(1,2) by (simp add: a_def)
  have l: "low6 c1 = byte_of c1 - 0x80" using low6_second second_ok_bounds [OF assms(3)] by blast
  note low = low6_less [of c1] low6_less [of c2] low6_less [of c3]
  have a: "a \<le> 4" "a = 0 \<Longrightarrow> 16 \<le> low6 c1" "a = 4 \<Longrightarrow> low6 c1 < 16"
    using assms l by (auto simp: second_ok_def a_def split: if_splits)
  have "0xDFFF < a * 262144 + low6 c1 * 4096 + low6 c2 * 64 + low6 c3" using a low by (cases "a = 0") linarith+
  moreover have "a * 262144 + low6 c1 * 4096 + low6 c2 * 64 + low6 c3 \<le> 0x10FFFF" using a low by (cases "a = 4") linarith+
  ultimately show ?thesis unfolding b ValidRune_def MaxRune_def by simp
qed

lemma DecodeRune_valid: "ValidRune (fst (DecodeRune c cs))"
proof -
  have "ValidRune (b mod 32 * 64 + low6 c1)" for b c1
  proof -
    have "b mod 32 < 32" by simp
    then have "b mod 32 * 64 + low6 c1 < 0xD800" using low6_less [of c1] by linarith
    then show ?thesis by (simp add: ValidRune_def)
  qed
  then show ?thesis
    using valid_3 [of "byte_of c"] valid_4 [of "byte_of c"]
    by (auto simp: DecodeRune_def Let_def ValidRune_def [of "byte_of c"] split: list.splits if_splits)
qed

lemma runes_valid: "list_all ValidRune (runes s)"
  by (induction s rule: runes.induct) (simp_all add: DecodeRune_valid)

text \<open>Bytes below 128 stand for themselves: a multi-byte sequence has none.\<close>

lemma EncodeRune_ascii: "r < 0x80 \<Longrightarrow> EncodeRune r = [char_of r]"
  by (simp add: EncodeRune_def ValidRune_def)

lemma EncodeRune_high: "0x80 \<le> r \<Longrightarrow> c \<in> set (EncodeRune r) \<Longrightarrow> 0x80 \<le> byte_of c"
proof -
  assume r: "0x80 \<le> r" and c: "c \<in> set (EncodeRune r)"
  define r' where "r' = (if ValidRune r then r else RuneError)"
  have r': "0x80 \<le> r'" "r' \<le> 0x10FFFF" using r by (auto simp: r'_def RuneError_def ValidRune_def MaxRune_def)
  have lead: "0x80 \<le> byte_of (char_of n)" if "0x80 \<le> n" "n < 256" for n :: nat using that by simp
  have top: "r' div 64 < 32 \<longleftrightarrow> r' < 0x800" "r' div 4096 < 16 \<longleftrightarrow> r' < 0x10000" "r' div 262144 < 16 \<longleftrightarrow> r' < 0x400000"
    by (simp_all add: div_less_iff_less_mult)
  have "r' < 0x800 \<Longrightarrow> 0xC0 + r' div 64 < 256" "r' < 0x10000 \<Longrightarrow> 0xE0 + r' div 4096 < 256" "0xF0 + r' div 262144 < 256"
    using r' top by linarith+
  then show ?thesis
    using c r' by (auto simp: EncodeRune_def Let_def r'_def [symmetric] split: if_splits intro!: lead)
qed

lemma encode_append [simp]: "encode (rs @ ss) = encode rs @ encode ss"
  by (simp add: encode_def)

lemma encode_Nil [simp]: "encode [] = []"
  by (simp add: encode_def)

lemma runes_ascii: "list_all (\<lambda>c. byte_of c < 0x80) s \<Longrightarrow> runes (s @ t) = map byte_of s @ runes t"
  by (induction s) (simp_all add: DecodeRune_def)

end
