(* ===== verification/Inspect_Proxy.thy ===== *)
theory Inspect_Proxy
  imports Inspect_Evidence Go_Utf8 "HOL-Library.Word"
begin

text \<open>
  \<open>internal/inspect/proxy.go\<close>: the local proxy. A request is answered by a function of the proxy's state and of what the
  network does, which is the record \<open>ProxyNet\<close> (the upstream servers, the client's TLS stream, \<open>url.Parse\<close>); the
  result says what the client gets, which requests went upstream, which exchanges were reported and what the payload
  directory holds. Sockets, TLS and the HTTP wire format are not modelled.
\<close>

section \<open>Credentials\<close>

text \<open>\<open>base64.StdEncoding.DecodeString\<close>: line breaks are skipped, padding is required.\<close>

definition b64_value :: "char \<Rightarrow> nat option" where
  "b64_value c =
     (let n = of_char c :: nat
      in if 65 \<le> n \<and> n \<le> 90 then Some (n - 65)
         else if 97 \<le> n \<and> n \<le> 122 then Some (n - 71)
         else if 48 \<le> n \<and> n \<le> 57 then Some (n + 4)
         else if n = 43 then Some 62
         else if n = 47 then Some 63
         else None)"

definition b64_bytes :: "nat \<Rightarrow> nat \<Rightarrow> nat \<Rightarrow> nat \<Rightarrow> string" where
  "b64_bytes a b c d =
     (let n = a * 262144 + b * 4096 + c * 64 + d in [char_of (n div 65536), char_of (n div 256 mod 256), char_of (n mod 256)])"

fun b64_quads :: "string \<Rightarrow> string option" where
  "b64_quads [] = Some []"
| "b64_quads (w # x # y # z # rest) =
     (case (b64_value w, b64_value x) of
        (Some a, Some b) \<Rightarrow>
          if y = CHR ''='' \<and> z = CHR ''='' \<and> rest = [] then Some (take 1 (b64_bytes a b 0 0))
          else (case b64_value y of
                  None \<Rightarrow> None
                | Some c \<Rightarrow>
                    if z = CHR ''='' \<and> rest = [] then Some (take 2 (b64_bytes a b c 0))
                    else (case (b64_value z, b64_quads rest) of
                            (Some d, Some out) \<Rightarrow> Some (b64_bytes a b c d @ out)
                          | _ \<Rightarrow> None))
      | _ \<Rightarrow> None)"
| "b64_quads s = None"

definition DecodeString :: "string \<Rightarrow> string option" where
  "DecodeString s = b64_quads (filter (\<lambda>c. c \<noteq> CHR 0x0A \<and> c \<noteq> CHR 0x0D) s)"

definition proxyCredentials :: "Request \<Rightarrow> string \<times> string" where
  "proxyCredentials req =
     (let value = HeaderGet (reqHeader req) ''Proxy-Authorization''
      in if HasPrefix (ToLower value) ''bearer '' then ([], TrimSpace (drop 7 value))
         else if HasPrefix (ToLower value) ''basic ''
         then (case DecodeString (TrimSpace (drop 6 value)) of
                 None \<Rightarrow> ([], [])
               | Some raw \<Rightarrow> (case Cut raw '':'' of Some (user, token) \<Rightarrow> (user, token) | None \<Rightarrow> ([], [])))
         else ([], []))"

definition proxyUserPrefix :: string where "proxyUserPrefix = ''agentsnitch.''"

definition sessionIDFromProxyUser :: "string \<Rightarrow> string" where
  "sessionIDFromProxyUser user0 =
     (let user = TrimSpace user0
      in if \<not> HasPrefix user proxyUserPrefix then [] else TrimSpace (TrimPrefix user proxyUserPrefix))"

definition contextFromRequest :: "Request \<Rightarrow> InspectContext" where
  "contextFromRequest req =
     (let (user, token) = proxyCredentials req; header = HeaderGet (reqHeader req) ''X-AgentSnitch-Session''
      in \<lparr>cxSessionID = (if TrimSpace header = [] then sessionIDFromProxyUser user else header),
          cxSpanID = HeaderGet (reqHeader req) ''X-AgentSnitch-Span'',
          cxToolUseID = HeaderGet (reqHeader req) ''X-AgentSnitch-Tool-Use-ID'', cxToken = token\<rparr>)"

text \<open>Comparison without an early exit: the differences of all bytes are collected.\<close>

definition byte_word :: "char \<Rightarrow> 8 word" where "byte_word c = of_nat (of_char c)"

unbundle bit_operations_syntax

definition constantTimeStringEqual :: "string \<Rightarrow> string \<Rightarrow> bool" where
  "constantTimeStringEqual a b =
     (if length a \<noteq> length b then False else fold (\<lambda>(x, y) diff. diff OR (byte_word x XOR byte_word y)) (zip a b) 0 = 0)"

text \<open>A session name for a proxy URL: the runes that are not allowed become hyphens, at most 96 bytes are written.\<close>

definition session_rune :: "rune \<Rightarrow> char" where
  "session_rune r =
     (if r < 0x80 \<and> (is_alnum (char_of r) \<or> char_of r \<in> {CHR ''.'', CHR ''_'', CHR ''-''}) then char_of r else CHR ''-'')"

definition SafeProxySessionID :: "string \<Rightarrow> string" where
  "SafeProxySessionID sessionID = Trim (take 96 (map session_rune (runes (TrimSpace sessionID)))) ''.-_''"

section \<open>State\<close>

record Proxy =
  pxSettings :: Settings
  pxToken :: string
  pxScope :: "(InspectContext \<Rightarrow> string \<Rightarrow> InspectContext \<times> bool) option"
  pxMaxBodyBytes :: int
  pxFingerprint :: string

definition defaultMaxProxyBodyBytes :: int where "defaultMaxProxyBodyBytes = 32 * 1024 * 1024"

definition bodyLimit :: "Proxy \<Rightarrow> int" where
  "bodyLimit p = (if pxMaxBodyBytes p > 0 then pxMaxBodyBytes p else defaultMaxProxyBodyBytes)"

datatype body_error = ProxyBodyTooLarge | BodyReadFailed

definition readBodyCapped :: "body \<Rightarrow> int \<Rightarrow> body_error + string" where
  "readBodyCapped r limit0 =
     (let limit = (if limit0 \<le> 0 then defaultMaxProxyBodyBytes else limit0)
      in case r of
           NoBody \<Rightarrow> Inr []
         | BrokenBody \<Rightarrow> Inl BodyReadFailed
         | Body bytes \<Rightarrow> if int (length bytes) > limit then Inl ProxyBodyTooLarge else Inr bytes)"

definition authorized :: "Proxy \<Rightarrow> InspectContext \<Rightarrow> bool" where
  "authorized p ctx \<longleftrightarrow> pxToken p = [] \<or> constantTimeStringEqual (cxToken ctx) (pxToken p)"

definition localClient :: "Request \<Rightarrow> bool" where
  "localClient req =
     (let host = (case SplitHostPort (reqRemoteAddr req) of Some (h, _) \<Rightarrow> h | None \<Rightarrow> reqRemoteAddr req)
      in case ParseIP host of Some a \<Rightarrow> IsLoopback a | None \<Rightarrow> False)"

definition inspectAllowed :: "Proxy \<Rightarrow> InspectContext \<Rightarrow> string \<Rightarrow> InspectContext \<times> bool" where
  "inspectAllowed p ctx host = (case pxScope p of None \<Rightarrow> (ctx, True) | Some scope \<Rightarrow> scope ctx host)"

text \<open>A destination is inspected when the settings and the scope allow it; then with the scoped context.\<close>

definition inspectable :: "Proxy \<Rightarrow> InspectContext \<Rightarrow> string \<Rightarrow> InspectContext option" where
  "inspectable p ctx host =
     (if \<not> HTTPSInspectEnabled (pxSettings p) \<or> \<not> DestinationInScope (pxSettings p) host then None
      else case inspectAllowed p ctx host of (ctx', ok) \<Rightarrow> if ok then Some ctx' else None)"

section \<open>Serving\<close>

text \<open>What the client gets: an error of the proxy, a buffered response, a response passed on as it arrives (aborted when
  its body breaks off), a tunnel, a closed connection, or nothing when the connection could not be taken over.\<close>

datatype reply = HTTPError int | Responded Response string | Streamed Response | Aborted Response | Tunnelled | Dropped | Unanswered

datatype hijack = HijackUnsupported | HijackFailed | Hijacked

record ProxyResult =
  pyReply :: "reply list"
  pyUpstream :: "Request list"
  pyEvents :: "InspectedHTTPExchange list"
  pyPayloads :: payload_dir

record ProxyNet =
  pnURLParse :: "string \<Rightarrow> URL option"
  pnRoundTrip :: "Request \<Rightarrow> (Response \<times> InspectedHTTPNetwork \<times> string) option"
  pnSHA256 :: "string \<Rightarrow> string"
  pnPayloads :: PayloadEnv
  pnDial :: "string \<Rightarrow> InspectedHTTPNetwork option"
  pnHijack :: hijack
  pnLeaf :: "string \<Rightarrow> bool"
  pnHandshake :: bool
  pnClientRequests :: "Request list"
  pnClientWritable :: bool
  pnTunnelBytes :: "int \<times> int"

text \<open>\<open>net/http\<close> gives the round trip with the TLS version it used; a response body over the limit is refused, before
  it is read when its length is declared.\<close>

definition roundTrip :: "ProxyNet \<Rightarrow> Proxy \<Rightarrow> Request \<Rightarrow> body_error + (Response \<times> string \<times> InspectedHTTPNetwork \<times> string)" where
  "roundTrip net p req =
     (case pnRoundTrip net req of
        None \<Rightarrow> Inl BodyReadFailed
      | Some (resp, network, ver) \<Rightarrow>
          if reqMethod req \<noteq> ''HEAD'' \<and> respContentLength resp > bodyLimit p then Inl ProxyBodyTooLarge
          else case readBodyCapped (respBody resp) (bodyLimit p) of
                 Inl err \<Rightarrow> Inl err
               | Inr bytes \<Rightarrow>
                   Inr (resp\<lparr>respBody := Body bytes,
                             respContentLength := (if reqMethod req \<noteq> ''HEAD'' then int (length bytes) else respContentLength resp)\<rparr>,
                        bytes, network, ver))"

definition emit :: "time \<Rightarrow> InspectedHTTPExchange \<Rightarrow> InspectedHTTPExchange list" where
  "emit clk x = (let x' = NormalizeInspectedHTTPExchange clk x in if ValidateInspectedHTTPExchange clk x' \<noteq> None then [] else [x'])"

definition zeroNetwork :: InspectedHTTPNetwork where
  "zeroNetwork = \<lparr>nwRemote = [], nwRemoteIP = [], nwRemotePort = 0, nwBytesOut = 0, nwBytesIn = 0, nwDurationMS = 0\<rparr>"

definition proxyMetadata :: "Proxy \<Rightarrow> time \<Rightarrow> InspectContext \<Rightarrow> string \<Rightarrow> string \<Rightarrow> InspectedHTTPNetwork \<Rightarrow> InspectedHTTPExchange" where
  "proxyMetadata p clk ctx host mode network =
     MetadataOnlyExchange clk ctx \<lparr>cpSettings = pxSettings p, cpCAFingerprint = pxFingerprint p, cpNetwork = network\<rparr> host mode"

definition answered :: "reply \<Rightarrow> Request list \<Rightarrow> InspectedHTTPExchange list \<Rightarrow> payload_dir \<Rightarrow> ProxyResult" where
  "answered r sent events dir = \<lparr>pyReply = [r], pyUpstream = sent, pyEvents = events, pyPayloads = dir\<rparr>"

definition forwardPlainHTTP :: "ProxyNet \<Rightarrow> Request \<Rightarrow> payload_dir \<Rightarrow> ProxyResult" where
  "forwardPlainHTTP net req dir =
     (case CloneRequestForUpstreamStreaming (pnURLParse net) req ''http'' (reqHost req) of
        None \<Rightarrow> answered (HTTPError 400) [] [] dir
      | Some upstream \<Rightarrow>
          (case pnRoundTrip net upstream of
             None \<Rightarrow> answered (HTTPError 502) [upstream] [] dir
           | Some (resp, _) \<Rightarrow> answered (if respBody resp = BrokenBody then Aborted resp else Streamed resp) [upstream] [] dir))"

definition measured :: "InspectedHTTPNetwork \<Rightarrow> string \<Rightarrow> string \<Rightarrow> int \<Rightarrow> InspectedHTTPNetwork" where
  "measured network sent received ms = network\<lparr>nwBytesOut := int (length sent), nwBytesIn := int (length received), nwDurationMS := ms\<rparr>"

definition handlePlainHTTP :: "ProxyNet \<Rightarrow> Proxy \<Rightarrow> time \<Rightarrow> int \<Rightarrow> Request \<Rightarrow> InspectContext \<Rightarrow> payload_dir \<Rightarrow> ProxyResult" where
  "handlePlainHTTP net p clk ms req ctx0 dir =
     (case inspectable p ctx0 (canonicalCertHost (reqHost req)) of
        None \<Rightarrow> forwardPlainHTTP net req dir
      | Some ctx \<Rightarrow>
          (case readBodyCapped (reqBody req) (bodyLimit p) of
             Inl ProxyBodyTooLarge \<Rightarrow> answered (HTTPError 413) [] [] dir
           | Inl BodyReadFailed \<Rightarrow> answered (HTTPError 400) [] [] dir
           | Inr bytes \<Rightarrow>
               (case CloneRequestForUpstream (pnURLParse net) req bytes ''http'' (reqHost req) of
                  None \<Rightarrow> answered (HTTPError 400) [] [] dir
                | Some upstream \<Rightarrow>
                    (case roundTrip net p upstream of
                       Inl _ \<Rightarrow> answered (HTTPError 502) [upstream] [] dir
                     | Inr (resp, received, network, _) \<Rightarrow>
                         (case ExchangeFromHTTP (pnSHA256 net) (pnPayloads net) clk ctx
                                 \<lparr>cpSettings = pxSettings p, cpCAFingerprint = [], cpNetwork = measured network bytes received ms\<rparr>
                                 req bytes resp received ''metadata_only'' [] False dir of
                            (x, dir') \<Rightarrow> answered (Responded resp received) [upstream] (emit clk x) dir')))))"

text \<open>A tunnel passes bytes through and reports only how many.\<close>

definition tunnelConnect :: "ProxyNet \<Rightarrow> int \<Rightarrow> Request \<Rightarrow> reply \<times> InspectedHTTPNetwork" where
  "tunnelConnect net ms req =
     (case pnDial net (reqHost req) of
        None \<Rightarrow> (HTTPError 502, zeroNetwork\<lparr>nwDurationMS := ms\<rparr>)
      | Some network \<Rightarrow>
          if pnHijack net = HijackUnsupported then (HTTPError 500, network)
          else if pnHijack net = HijackFailed then (Unanswered, network)
          else if \<not> pnClientWritable net then (Dropped, network)
          else (Tunnelled, network\<lparr>nwBytesOut := fst (pnTunnelBytes net), nwBytesIn := snd (pnTunnelBytes net), nwDurationMS := ms\<rparr>))"

definition fillContext :: "InspectContext \<Rightarrow> InspectContext \<Rightarrow> InspectContext" where
  "fillContext ctx inner = ctx\<lparr>
     cxSessionID := (if cxSessionID ctx = [] then cxSessionID inner else cxSessionID ctx),
     cxSpanID := (if cxSpanID ctx = [] then cxSpanID inner else cxSpanID ctx),
     cxToolUseID := (if cxToolUseID ctx = [] then cxToolUseID inner else cxToolUseID ctx)\<rparr>"

definition maxRequestsPerTunnel :: nat where "maxRequestsPerTunnel = 16"

text \<open>The requests inside an inspected tunnel, until one fails, the client closes or sixteen were served. The first
  argument counts those left, \<open>first\<close> tells whether one was read.\<close>

definition finish :: "reply list \<Rightarrow> InspectedHTTPExchange list \<Rightarrow> payload_dir \<Rightarrow> ProxyResult" where
  "finish replies events dir = \<lparr>pyReply = replies, pyUpstream = [], pyEvents = events, pyPayloads = dir\<rparr>"

definition served :: "Request \<Rightarrow> reply list \<Rightarrow> InspectedHTTPExchange list \<Rightarrow> ProxyResult \<Rightarrow> ProxyResult" where
  "served upstream replies events rest = rest\<lparr>pyReply := replies @ pyReply rest, pyUpstream := upstream # pyUpstream rest,
     pyEvents := events @ pyEvents rest\<rparr>"

fun tunnelRequests ::
    "ProxyNet \<Rightarrow> Proxy \<Rightarrow> time \<Rightarrow> int \<Rightarrow> string \<Rightarrow> nat \<Rightarrow> bool \<Rightarrow> Request list \<Rightarrow> InspectContext \<Rightarrow> payload_dir \<Rightarrow> ProxyResult" where
  "tunnelRequests net p clk ms host 0 first reqs ctx dir =
     finish [] (emit clk (proxyMetadata p clk ctx (canonicalCertHost host) ''unsupported_protocol'' zeroNetwork)) dir"
| "tunnelRequests net p clk ms host (Suc n) first [] ctx dir =
     finish [] (if first then emit clk (proxyMetadata p clk ctx (canonicalCertHost host) ''unsupported_protocol'' zeroNetwork) else []) dir"
| "tunnelRequests net p clk ms host (Suc n) first (req # reqs) ctx0 dir =
     (let ctx = fillContext ctx0 (contextFromRequest req);
          unsupported = emit clk (proxyMetadata p clk ctx (canonicalCertHost host) ''unsupported_protocol'' zeroNetwork)
      in case readBodyCapped (reqBody req) (bodyLimit p) of
           Inl ProxyBodyTooLarge \<Rightarrow> finish [HTTPError 413] [] dir
         | Inl BodyReadFailed \<Rightarrow> finish [] unsupported dir
         | Inr bytes \<Rightarrow>
             (case CloneRequestForUpstream (pnURLParse net) req bytes ''https'' host of
                None \<Rightarrow> finish [] unsupported dir
              | Some upstream \<Rightarrow>
                  (case roundTrip net p upstream of
                     Inl _ \<Rightarrow> served upstream [] [] (finish [HTTPError 502] [] dir)
                   | Inr (resp, received, network, ver) \<Rightarrow>
                       if \<not> pnClientWritable net then served upstream [] [] (finish [Dropped] [] dir)
                       else
                         (case ExchangeFromHTTP (pnSHA256 net) (pnPayloads net) clk ctx
                                 \<lparr>cpSettings = pxSettings p, cpCAFingerprint = pxFingerprint p, cpNetwork = measured network bytes received ms\<rparr>
                                 req bytes resp received ''local_mitm'' ver True dir of
                            (x, dir') \<Rightarrow>
                              served upstream [Responded resp received] (emit clk x)
                                (if reqClose req then finish [] [] dir'
                                 else tunnelRequests net p clk ms host n False reqs ctx dir')))))"

definition handleConnect :: "ProxyNet \<Rightarrow> Proxy \<Rightarrow> time \<Rightarrow> int \<Rightarrow> Request \<Rightarrow> InspectContext \<Rightarrow> payload_dir \<Rightarrow> ProxyResult" where
  "handleConnect net p clk ms req ctx0 dir =
     (let host = reqHost req; hostOnly = canonicalCertHost host
      in if host = [] then answered (HTTPError 400) [] [] dir
         else case inspectable p ctx0 hostOnly of
                None \<Rightarrow>
                  (case tunnelConnect net ms req of
                     (r, network) \<Rightarrow> answered r [] (emit clk (proxyMetadata p clk ctx0 hostOnly ''metadata_only'' network)) dir)
              | Some ctx \<Rightarrow>
                  if pnHijack net = HijackUnsupported then answered (HTTPError 500) [] [] dir
                  else if pnHijack net = HijackFailed then answered Unanswered [] [] dir
                  else if \<not> pnClientWritable net then answered Dropped [] [] dir
                  else if \<not> pnLeaf net hostOnly
                  then answered Tunnelled [] (emit clk (proxyMetadata p clk ctx hostOnly ''trust_failed'' zeroNetwork)) dir
                  else if \<not> pnHandshake net
                  then answered Tunnelled [] (emit clk (proxyMetadata p clk ctx hostOnly ''pinned_or_custom_trust'' zeroNetwork)) dir
                  else
                    let r = tunnelRequests net p clk ms host maxRequestsPerTunnel True (pnClientRequests net) ctx dir
                    in r\<lparr>pyReply := Tunnelled # pyReply r\<rparr>)"

definition ServeHTTP :: "ProxyNet \<Rightarrow> Proxy \<Rightarrow> time \<Rightarrow> int \<Rightarrow> Request \<Rightarrow> payload_dir \<Rightarrow> ProxyResult" where
  "ServeHTTP net p clk ms req dir =
     (if \<not> localClient req then answered (HTTPError 403) [] [] dir
      else
        let ctx = contextFromRequest req
        in if \<not> authorized p ctx then answered (HTTPError 407) [] [] dir
           else if reqMethod req = ''CONNECT'' then handleConnect net p clk ms req ctx dir
           else handlePlainHTTP net p clk ms req ctx dir)"

section \<open>Lemmas\<close>

lemma byte_word_eq: "byte_word x XOR byte_word y = 0 \<longleftrightarrow> x = y"
proof -
  have "unat (byte_word c) = of_char c" for c by (simp add: byte_word_def unat_of_nat)
  then have "byte_word x = byte_word y \<longleftrightarrow> x = y" by (metis of_char_eq_iff)
  then show ?thesis by (metis xor.assoc xor.left_neutral xor.right_neutral xor_self_eq)
qed

lemma fold_or_zero: "fold (\<lambda>(x, y) diff. diff OR f x y) ps (d :: 8 word) = 0 \<longleftrightarrow> d = 0 \<and> (\<forall>(x, y) \<in> set ps. f x y = 0)"
  by (induction ps arbitrary: d) (auto simp: or_eq_0_iff)

text \<open>The comparison that does not exit early is equality.\<close>

lemma constantTimeStringEqual_eq: "constantTimeStringEqual a b \<longleftrightarrow> a = b"
proof (cases "length a = length b")
  case True
  then have "(\<forall>(x, y) \<in> set (zip a b). x = y) \<longleftrightarrow> a = b"
    by (induction a b rule: list_induct2) auto
  then show ?thesis using True by (simp add: constantTimeStringEqual_def fold_or_zero byte_word_eq case_prod_beta)
qed (auto simp: constantTimeStringEqual_def)

definition bare :: "InspectedHTTPExchange \<Rightarrow> bool" where
  "bare x \<longleftrightarrow> rqHeaders (xRequest x) = [] \<and> rqPath (xRequest x) = ''/'' \<and> rqPreview (xRequest x) = [] \<and> rqBodySHA256 (xRequest x) = [] \<and>
     rsPreview (xResponse x) = [] \<and> rsBodySHA256 (xResponse x) = []"

lemma trim_slash: "TrimSpace ''/'' = ''/''"
  by code_simp

lemma metadata_bare: "x \<in> set (emit clk (proxyMetadata p clk ctx host mode network)) \<Longrightarrow> bare x"
  by (auto simp: emit_def proxyMetadata_def MetadataOnlyExchange_def NormalizeInspectedHTTPExchange_def bare_def
      emptyRequest_def emptyResponse_def trim_slash Let_def split: if_splits)

definition no_credentials :: "Request \<Rightarrow> bool" where
  "no_credentials req \<longleftrightarrow> HeaderValues (reqHeader req) ''Proxy-Authorization'' = []"

lemma streaming_no_credentials: "CloneRequestForUpstreamStreaming urlParse req scheme host = Some r \<Longrightarrow> no_credentials r"
  by (auto simp: CloneRequestForUpstreamStreaming_def no_credentials_def HeaderValues_def HeaderDel_def)

lemma clone_no_credentials: "CloneRequestForUpstream urlParse req bytes scheme host = Some r \<Longrightarrow> no_credentials r"
  using streaming_no_credentials by (fastforce simp: CloneRequestForUpstream_def no_credentials_def)

lemma result_parts [simp]:
  "pyUpstream (answered r sent events dir) = sent" "pyEvents (answered r sent events dir) = events" "pyPayloads (answered r sent events dir) = dir"
  "pyReply (answered r sent events dir) = [r]"
  "pyUpstream (finish rs events dir) = []" "pyEvents (finish rs events dir) = events" "pyPayloads (finish rs events dir) = dir"
  "pyUpstream (served u rs events rest) = u # pyUpstream rest" "pyEvents (served u rs events rest) = events @ pyEvents rest"
  "pyPayloads (served u rs events rest) = pyPayloads rest"
  by (simp_all add: answered_def finish_def served_def)

lemma forward_upstream: "list_all no_credentials (pyUpstream (forwardPlainHTTP net req dir)) \<and> length (pyUpstream (forwardPlainHTTP net req dir)) \<le> 1"
  by (auto simp: forwardPlainHTTP_def streaming_no_credentials split: option.split)

lemma plain_upstream:
  "list_all no_credentials (pyUpstream (handlePlainHTTP net p clk ms req ctx dir)) \<and> length (pyUpstream (handlePlainHTTP net p clk ms req ctx dir)) \<le> 1"
  using forward_upstream
  by (auto simp: handlePlainHTTP_def clone_no_credentials split: option.split sum.split body_error.split prod.split)

lemma tunnel_upstream:
  "list_all no_credentials (pyUpstream (tunnelRequests net p clk ms host n first reqs ctx dir)) \<and>
   length (pyUpstream (tunnelRequests net p clk ms host n first reqs ctx dir)) \<le> n"
  by (induction net p clk ms host n first reqs ctx dir rule: tunnelRequests.induct)
     (auto simp: Let_def clone_no_credentials split: option.split sum.split body_error.split prod.split)

lemma connect_upstream:
  "list_all no_credentials (pyUpstream (handleConnect net p clk ms req ctx dir)) \<and> length (pyUpstream (handleConnect net p clk ms req ctx dir)) \<le> 16"
  using tunnel_upstream [of net p clk ms "reqHost req" maxRequestsPerTunnel True]
  by (auto simp: handleConnect_def Let_def maxRequestsPerTunnel_def split: option.split prod.split)

lemma excluded_plain: "inspectable p ctx (canonicalCertHost (reqHost req)) = None \<Longrightarrow>
    pyEvents (handlePlainHTTP net p clk ms req ctx dir) = [] \<and> pyPayloads (handlePlainHTTP net p clk ms req ctx dir) = dir"
  by (auto simp: handlePlainHTTP_def forwardPlainHTTP_def split: option.split)

lemma excluded_connect: "inspectable p ctx (canonicalCertHost (reqHost req)) = None \<Longrightarrow>
    list_all bare (pyEvents (handleConnect net p clk ms req ctx dir)) \<and> pyPayloads (handleConnect net p clk ms req ctx dir) = dir \<and>
    pyUpstream (handleConnect net p clk ms req ctx dir) = []"
  using metadata_bare by (auto simp: handleConnect_def Let_def list_all_iff split: prod.split)


definition demoProxy :: Proxy where
  "demoProxy = \<lparr>pxSettings = DefaultSettings\<lparr>HTTPSInspectEnabled := True, HTTPSInspectNeverDomains := [''bank.example'']\<rparr>,
     pxToken = ''t0k'', pxScope = None, pxMaxBodyBytes = 0, pxFingerprint = []\<rparr>"

definition demoNet :: ProxyNet where
  "demoNet = \<lparr>pnURLParse = (\<lambda>s. None), pnRoundTrip = (\<lambda>r. None), pnSHA256 = (\<lambda>s. s), pnPayloads = demoPayloads, pnDial = (\<lambda>h. Some zeroNetwork),
     pnHijack = Hijacked, pnLeaf = (\<lambda>h. True), pnHandshake = True, pnClientRequests = [], pnClientWritable = True, pnTunnelBytes = (10, 20)\<rparr>"

definition demoConnect :: "string \<Rightarrow> Request" where
  "demoConnect auth = \<lparr>reqMethod = ''CONNECT'', reqURL = None, reqHost = ''www.bank.example:443'',
     reqHeader = [(''Proxy-Authorization'', [auth])], reqBody = NoBody, reqClose = False, reqRemoteAddr = ''127.0.0.1:5000''\<rparr>"


end
