(* ===== verification/Cli.thy ===== *)
theory Cli
  imports Inspect_Status Inspect_Proxy
begin

text \<open>
  \<open>cmd/agentsnitch/main.go\<close>, the \<open>agentsnitchctl inspect\<close> commands, and the proxy URLs they use (\<open>internal/inspect/proxy.go\<close>).
  A command runs in the file system monad and returns its exit code. The daemon's status file, \<open>net/url\<close>, the
  command that \<open>run\<close> starts and the flag parsing are parameters or arguments.
\<close>

section \<open>Definitions\<close>

subsection \<open>Proxy URLs\<close>

record ProxyURL =
  quScheme :: string
  quUser :: "(string \<times> string option) option"
  quHost :: string

text \<open>\<open>(*url.URL).String\<close> for the scheme, the user information and the host.\<close>

definition hex_digit :: "nat \<Rightarrow> char" where
  "hex_digit n = char_of (if n < 10 then 48 + n else 55 + n)"

definition percent :: "char \<Rightarrow> string" where
  "percent c = (let n = of_char c :: nat in [CHR ''%'', hex_digit (n div 16), hex_digit (n mod 16)])"

definition unreserved :: "char \<Rightarrow> bool" where
  "unreserved c = (is_alnum c \<or> c \<in> set ''-_.~'')"

definition escapeUser :: "string \<Rightarrow> string" where
  "escapeUser v = concat (map (\<lambda>c. if unreserved c \<or> c \<in> set ''$&+,;='' then [c] else percent c) v)"

definition escapeHost :: "string \<Rightarrow> string" where
  "escapeHost v = concat (map (\<lambda>c. if unreserved c \<or> c \<in> set ''!$&()*+,;=:[]<>'' \<or> c = CHR 0x27 \<or> c = CHR 0x22 then [c] else percent c) v)"

definition urlString :: "ProxyURL \<Rightarrow> string" where
  "urlString u =
     (if quScheme u \<noteq> [] then quScheme u @ '':'' else []) @ ''//'' @
     (case quUser u of
        None \<Rightarrow> []
      | Some (user, None) \<Rightarrow> escapeUser user @ ''@''
      | Some (user, Some password) \<Rightarrow> escapeUser user @ '':'' @ escapeUser password @ ''@'') @
     escapeHost (quHost u)"

definition AuthenticatedProxyURL :: "string \<Rightarrow> string \<Rightarrow> string" where
  "AuthenticatedProxyURL address token =
     (if TrimSpace address = [] then []
      else urlString \<lparr>quScheme = ''http'', quUser = (if token = [] then None else Some (''agentsnitch'', Some token)), quHost = address\<rparr>)"

definition sessionUser :: "string \<Rightarrow> string" where
  "sessionUser session = (if session = [] then ''agentsnitch'' else proxyUserPrefix @ session)"

definition AuthenticatedProxyURLForSession :: "string \<Rightarrow> string \<Rightarrow> string \<Rightarrow> string" where
  "AuthenticatedProxyURLForSession address token sessionID =
     (if TrimSpace address = [] then []
      else urlString \<lparr>quScheme = ''http'',
        quUser = (if token = [] then None else Some (sessionUser (SafeProxySessionID sessionID), Some token)), quHost = address\<rparr>)"

text \<open>\<open>url.Parse\<close> is the parameter; a URL that does not parse, has no host or no password is left alone.\<close>

definition SessionScopedProxyURL :: "(string \<Rightarrow> ProxyURL option) \<Rightarrow> string \<Rightarrow> string \<Rightarrow> string" where
  "SessionScopedProxyURL parse proxyURL sessionID =
     (let session = SafeProxySessionID sessionID
      in if TrimSpace proxyURL = [] \<or> session = [] then proxyURL
         else case parse proxyURL of
           None \<Rightarrow> proxyURL
         | Some u \<Rightarrow>
             if quHost u = [] then proxyURL
             else
               let token = (case quUser u of Some (_, Some p) \<Rightarrow> p | _ \<Rightarrow> [])
               in if token = [] then proxyURL
                  else urlString (u\<lparr>quUser := Some (proxyUserPrefix @ session, Some token)\<rparr>))"

definition proxyToken :: "Request \<Rightarrow> string" where
  "proxyToken req = snd (proxyCredentials req)"

definition AuthenticatedURL :: "ProxyStatus \<Rightarrow> string \<Rightarrow> string" where
  "AuthenticatedURL st token = (if \<not> psListening st \<or> psAddress st = [] then [] else AuthenticatedProxyURL (psAddress st) token)"

subsection \<open>The host\<close>

record FullStatus = Status +
  stInspect :: InspectStatus

record CliHost = SettingsCodec +
  clReadStatus :: "string \<Rightarrow> FullStatus option"
  clCrypto :: Crypto
  clTrust :: TrustHost
  clEntropy :: Entropy
  clNow :: time
  clTemp :: string
  clPayload :: PayloadEnv
  clParseURL :: "string \<Rightarrow> ProxyURL option"
  clEnviron :: "string list"
  clRandom :: "string option"
  clRun :: "string list \<Rightarrow> string list \<Rightarrow> int option"

definition exitIf :: "('e + 'a) io \<Rightarrow> (int + 'a) io" where
  "exitIf m = wrapped (\<lambda>_. 1) m"

definition exitUnless :: "('e option \<times> 'a) io \<Rightarrow> (int + 'a) io" where
  "exitUnless m = do { (err, x) \<leftarrow> m; State_Monad.return (case err of Some _ \<Rightarrow> Inl 1 | None \<Rightarrow> Inr x) }"

definition finish0 :: "(int + unit) io" where
  "finish0 = State_Monad.return (Inr ())"

definition manager :: "CliHost \<Rightarrow> CertManager" where
  "manager h = NewCertManager (DefaultPaths h)"

definition ensureCA :: "CliHost \<Rightarrow> (int + CAInfo) io" where
  "ensureCA h = exitUnless (do { ((info, err), _) \<leftarrow> EnsureCA (clCrypto h) (clEntropy h) (clNow h) (manager h); State_Monad.return (err, info) })"

definition getSettings :: "CliHost \<Rightarrow> (int + Settings) io" where
  "getSettings h = exitUnless (do { (st, err) \<leftarrow> loadSettings h; State_Monad.return (err, st) })"

definition putSettings :: "CliHost \<Rightarrow> Settings \<Rightarrow> (int + unit) io" where
  "putSettings h st = exitIf (SaveSettings h (clNow h) (clTemp h) st)"

definition deleteCA :: "CliHost \<Rightarrow> (int + unit) io" where
  "deleteCA h = exitIf (do { (r, _) \<leftarrow> DeleteCA (manager h); State_Monad.return r })"

definition loadCurrentCert :: "CliHost \<Rightarrow> (inspect_error + Certificate) io" where
  "loadCurrentCert h = loadCertificate (clCrypto h) (pCAPath (DefaultPaths h))"

definition currentTrust :: "CliHost \<Rightarrow> (Certificate option \<times> bool) io" where
  "currentTrust h =
     do { cert \<leftarrow> loadCurrentCert h;
          trust \<leftarrow> SystemTrustStatus (clTrust h) (clCrypto h) (toOption cert);
          State_Monad.return (toOption cert, SystemTrusted trust) }"

definition lastInspection :: "FullStatus \<Rightarrow> string" where
  "lastInspection st =
     (case LastInspectedHTTP st of
        None \<Rightarrow> []
      | Some x \<Rightarrow> TrimSpace (if rqHost (xRequest x) = [] then nwRemote (xNetwork x) else rqHost (xRequest x)))"

definition noProxy :: ProxyStatus where
  "noProxy = \<lparr>psEnabled = False, psListening = False, psAddress = []\<rparr>"

definition currentInspectStatus :: "CliHost \<Rightarrow> InspectStatus io" where
  "currentInspectStatus h =
     do { r \<leftarrow> ReadStatus h (clReadStatus h);
          case r of
            Inl _ \<Rightarrow> CurrentStatus h (clCrypto h) (clTrust h) noProxy
          | Inr st \<Rightarrow> do {
              cur \<leftarrow> CurrentStatus h (clCrypto h) (clTrust h) (isProxy (stInspect st));
              State_Monad.return (cur\<lparr>isProcessEnv := isProcessEnv (stInspect st), isLastInspection := lastInspection st\<rparr>) } }"

definition liveInspectEnv :: "CliHost \<Rightarrow> (int + (string, string) gomap) io" where
  "liveInspectEnv h =
     attempt (exitIf (ReadStatus h (clReadStatus h))) (\<lambda>st.
       State_Monad.return (if isProcessEnv (stInspect st) = [] then Inl 1 else Inr (isProcessEnv (stInspect st))))"

definition shellExportValue :: "string \<Rightarrow> string" where
  "shellExportValue value = single_quoted value"

fun printLines :: "string list \<Rightarrow> unit io" where
  "printLines [] = State_Monad.return ()"
| "printLines (l # ls) = do { _ \<leftarrow> Println l; printLines ls }"

definition printInspectEnv :: "CliHost \<Rightarrow> (int + unit) io" where
  "printInspectEnv h =
     attempt (liveInspectEnv h) (\<lambda>env. do {
       _ \<leftarrow> printLines (map (\<lambda>key. ''export '' @ key @ ''='' @ shellExportValue (items (mget env key))) (sort (map fst env)));
       finish0 })"

definition proxyKeys :: "string list" where
  "proxyKeys = [''HTTP_PROXY'', ''HTTPS_PROXY'', ''ALL_PROXY'', ''npm_config_proxy'', ''npm_config_https_proxy'',
     ''NPM_CONFIG_PROXY'', ''NPM_CONFIG_HTTPS_PROXY'']"

definition scopedInspectEnv :: "(string \<Rightarrow> ProxyURL option) \<Rightarrow> (string, string) gomap \<Rightarrow> string \<Rightarrow> (string, string) gomap" where
  "scopedInspectEnv parse env sessionID =
     (let out = map (\<lambda>(key, value). (key, if key \<in> set proxyKeys then SessionScopedProxyURL parse value sessionID else value)) env;
          safe = SafeProxySessionID sessionID
      in if safe = [] then out else mput ''AGENTSNITCH_SESSION_ID'' safe (mput ''AGENTSNITCH_INSPECT_SESSION_ID'' safe out))"

text \<open>Instants count from the year 1; \<open>Unix\<close> and \<open>UnixNano\<close> count from 1970.\<close>

definition unixNano :: "time \<Rightarrow> int" where
  "unixNano t = t - 62135596800 * Second"

definition managedRunSessionID :: "CliHost \<Rightarrow> string list \<Rightarrow> string" where
  "managedRunSessionID h args =
     (case clRandom h of
        None \<Rightarrow> SafeProxySessionID (''inspect-run-'' @ Itoa (unixNano (clNow h)))
      | Some rnd \<Rightarrow>
          SafeProxySessionID (''inspect-run-'' @ (case args of [] \<Rightarrow> ''command'' | a # _ \<Rightarrow> Base a) @ ''-'' @
            Itoa (unixNano (clNow h) div Second) @ ''-'' @ rnd))"

definition runWithInspectEnv :: "CliHost \<Rightarrow> string list \<Rightarrow> (int + unit) io" where
  "runWithInspectEnv h args0 =
     (let args = (case args0 of a # as \<Rightarrow> if a = ''--'' then as else args0 | [] \<Rightarrow> [])
      in if args = [] then State_Monad.return (Inl 2)
         else attempt (liveInspectEnv h) (\<lambda>live.
           let env = clEnviron h @ map (\<lambda>(k, v). k @ ''='' @ v) (scopedInspectEnv (clParseURL h) live (managedRunSessionID h args))
           in State_Monad.return (case clRun h args env of None \<Rightarrow> Inl 1 | Some code \<Rightarrow> if code = 0 then Inr () else Inl code)))"

text \<open>The payload files of the data directory, as the purge of expired records sees them.\<close>

definition payloadName :: "string \<Rightarrow> string \<Rightarrow> string option" where
  "payloadName dir q =
     (if below dir q \<and> CHR ''/'' \<notin> set (drop (Suc (length dir)) q) then Some (drop (Suc (length dir)) q) else None)"

definition payloadView :: "string \<Rightarrow> OS \<Rightarrow> payload_dir" where
  "payloadView dir s =
     (if isDirAt s dir
      then Some (List.map_filter (\<lambda>(q, n). case payloadName dir q of
             None \<Rightarrow> None
           | Some name \<Rightarrow> Some (name, case n of DirNode _ \<Rightarrow> SubDir | FileNode _ c \<Rightarrow> File c)) (osFiles s))
      else None)"

definition purgeExpired :: "CliHost \<Rightarrow> (os_error + unit) io" where
  "purgeExpired h = State (\<lambda>s.
     let dir = pDataDir (DefaultPaths h)
     in case PurgeExpiredPayloads (clPayload h) (clNow h) (payloadView dir s) of
          (ok, left) \<Rightarrow>
            (if ok then Inr () else Inl ErrIO,
             s\<lparr>osFiles := filter (\<lambda>(q, n). case payloadName dir q of None \<Rightarrow> True | Some name \<Rightarrow> name \<in> fst ` set (items left)) (osFiles s)\<rparr>))"

definition purgeInspectData :: "CliHost \<Rightarrow> bool \<Rightarrow> (int + unit) io" where
  "purgeInspectData h expiredOnly =
     (if expiredOnly
      then attempt (exitIf (purgeExpired h)) (\<lambda>_. do { _ \<leftarrow> Println ''Expired HTTPS Inspect payload data purged.''; finish0 })
      else attempt (exitIf (PurgeData (DefaultPaths h))) (\<lambda>_. do { _ \<leftarrow> Println ''Captured HTTPS Inspect payload data purged.''; finish0 }))"

definition disableInspect :: "CliHost \<Rightarrow> bool \<Rightarrow> bool \<Rightarrow> bool \<Rightarrow> (int + unit) io" where
  "disableInspect h removeProcess purge delete =
     attempt (getSettings h) (\<lambda>settings.
     attempt (putSettings h (settings\<lparr>HTTPSInspectEnabled := False, HTTPSInspectCaptureFull := False\<rparr>)) (\<lambda>_. do {
       _ \<leftarrow> (if removeProcess then do { _ \<leftarrow> Remove (pBundlePath (DefaultPaths h)); State_Monad.return () } else State_Monad.return ());
       attempt (if purge then exitIf (PurgeData (DefaultPaths h)) else finish0) (\<lambda>_.
       attempt (if delete then do {
                  (cert, trusted) \<leftarrow> currentTrust h;
                  if trusted then State_Monad.return (Inl 1) else deleteCA h }
                else finish0) (\<lambda>_. do {
       _ \<leftarrow> Println ''HTTPS Inspect Mode disabled.''; finish0 })) }))"

subsection \<open>The commands\<close>

definition announce :: "string \<Rightarrow> CAInfo \<Rightarrow> unit io" where
  "announce what info = printLines [what, ''Fingerprint: '' @ caFingerprint info, ''macOS will request administrator approval.'']"

definition enableInspect :: "CliHost \<Rightarrow> (int + unit) io" where
  "enableInspect h =
     attempt (getSettings h) (\<lambda>settings.
     attempt (putSettings h (settings\<lparr>HTTPSInspectEnabled := True, HTTPSInspectProcessScoped := True,
       HTTPSInspectCapturePreviews := True, HTTPSInspectCaptureFull := False\<rparr>)) (\<lambda>_.
     attempt (ensureCA h) (\<lambda>info. do {
       _ \<leftarrow> printLines [''HTTPS Inspect Mode enabled.'', ''CA fingerprint: '' @ caFingerprint info, ''Trust mode: process-scoped only''];
       finish0 })))"

definition removeCA :: "CliHost \<Rightarrow> (int + unit) io" where
  "removeCA h =
     do { ((info, _), _) \<leftarrow> Info (clCrypto h) (manager h);
          attempt (if caPresent info then do {
                     (cert, trusted) \<leftarrow> currentTrust h;
                     if trusted then do {
                       _ \<leftarrow> announce ''Removing AgentSnitch CA from macOS System trust.'' info;
                       exitIf (RemoveSystemTrust (clTrust h) (clCrypto h) (caCAPath info) cert) }
                     else finish0 }
                   else finish0) (\<lambda>_.
          attempt (getSettings h) (\<lambda>settings.
          attempt (putSettings h (settings\<lparr>HTTPSInspectEnabled := False, HTTPSInspectProcessScoped := False,
            HTTPSInspectAllowSystemTrust := False, HTTPSInspectCapturePreviews := False, HTTPSInspectCaptureFull := False\<rparr>)) (\<lambda>_.
          attempt (deleteCA h) (\<lambda>_. do { _ \<leftarrow> Println ''AgentSnitch local CA material removed.''; finish0 })))) }"

definition trustSystem :: "CliHost \<Rightarrow> (int + unit) io" where
  "trustSystem h =
     attempt (ensureCA h) (\<lambda>info. do {
       _ \<leftarrow> announce ''Installing AgentSnitch CA in macOS System trust.'' info;
       attempt (exitIf (InstallSystemTrust (clTrust h) (caCAPath info))) (\<lambda>_. do {
         (settings, _) \<leftarrow> loadSettings h;
         putSettings h (settings\<lparr>HTTPSInspectAllowSystemTrust := True\<rparr>) }) })"

definition untrustSystem :: "CliHost \<Rightarrow> (int + unit) io" where
  "untrustSystem h =
     attempt (exitUnless (do { ((info, err), _) \<leftarrow> Info (clCrypto h) (manager h); State_Monad.return (err, info) })) (\<lambda>info.
     attempt (exitIf (loadCurrentCert h)) (\<lambda>cert. do {
       _ \<leftarrow> announce ''Removing AgentSnitch CA from macOS System trust.'' info;
       attempt (exitIf (RemoveSystemTrust (clTrust h) (clCrypto h) (caCAPath info) (Some cert))) (\<lambda>_. do {
         (settings, _) \<leftarrow> loadSettings h;
         putSettings h (settings\<lparr>HTTPSInspectAllowSystemTrust := False\<rparr>) }) }))"

definition rotateCA :: "CliHost \<Rightarrow> (int + CAInfo) io" where
  "rotateCA h = exitUnless (do { ((info, err), _) \<leftarrow> RotateCA (clCrypto h) (clEntropy h) (clNow h) (manager h); State_Monad.return (err, info) })"

text \<open>\<open>runInspect\<close>: the flags of \<open>disable\<close> and \<open>purge-data\<close> come parsed.\<close>

datatype inspect_command =
    CmdStatus | CmdEnv | CmdRun "string list" | CmdEnable | CmdDisable bool bool bool | CmdCreateCA | CmdRemoveCA
  | CmdTrustSystem | CmdUntrustSystem | CmdRotateCA | CmdPurgeData bool | CmdUnknown

fun runInspect :: "CliHost \<Rightarrow> (InspectStatus \<Rightarrow> string) \<Rightarrow> (CAInfo \<Rightarrow> string) \<Rightarrow> inspect_command \<Rightarrow> (int + unit) io" where
  "runInspect h encS encI CmdStatus = do { st \<leftarrow> currentInspectStatus h; _ \<leftarrow> Println (encS st); finish0 }"
| "runInspect h encS encI CmdEnv = printInspectEnv h"
| "runInspect h encS encI (CmdRun args) = runWithInspectEnv h args"
| "runInspect h encS encI CmdEnable = enableInspect h"
| "runInspect h encS encI (CmdDisable removeProcess purge delete) = disableInspect h removeProcess purge delete"
| "runInspect h encS encI CmdCreateCA = attempt (ensureCA h) (\<lambda>info. do { _ \<leftarrow> Println (encI info); finish0 })"
| "runInspect h encS encI CmdRemoveCA = removeCA h"
| "runInspect h encS encI CmdTrustSystem = trustSystem h"
| "runInspect h encS encI CmdUntrustSystem = untrustSystem h"
| "runInspect h encS encI CmdRotateCA = attempt (rotateCA h) (\<lambda>info. do { _ \<leftarrow> Println (encI info); finish0 })"
| "runInspect h encS encI (CmdPurgeData expiredOnly) = purgeInspectData h expiredOnly"
| "runInspect h encS encI CmdUnknown = State_Monad.return (Inl 2)"

definition inspectCommand :: "(string list \<Rightarrow> bool \<times> bool \<times> bool) \<Rightarrow> (string list \<Rightarrow> bool) \<Rightarrow> string list \<Rightarrow> inspect_command" where
  "inspectCommand disableFlags purgeFlag args =
     (case args of
        [] \<Rightarrow> CmdUnknown
      | cmd # rest \<Rightarrow>
          if cmd = ''status'' then CmdStatus else if cmd = ''env'' then CmdEnv else if cmd = ''run'' then CmdRun rest
          else if cmd = ''enable'' then CmdEnable
          else if cmd = ''disable'' then (case disableFlags rest of (removeProcess, purge, delete) \<Rightarrow> CmdDisable removeProcess purge delete)
          else if cmd = ''create-ca'' then CmdCreateCA else if cmd = ''remove-ca'' then CmdRemoveCA
          else if cmd = ''trust-system'' then CmdTrustSystem else if cmd = ''untrust-system'' then CmdUntrustSystem
          else if cmd = ''rotate-ca'' then CmdRotateCA else if cmd = ''purge-data'' then CmdPurgeData (purgeFlag rest)
          else CmdUnknown)"

definition cliMain :: "CliHost \<Rightarrow> (InspectStatus \<Rightarrow> string) \<Rightarrow> (CAInfo \<Rightarrow> string) \<Rightarrow> (string list \<Rightarrow> bool \<times> bool \<times> bool) \<Rightarrow>
    (string list \<Rightarrow> bool) \<Rightarrow> string list \<Rightarrow> int io" where
  "cliMain h encS encI disableFlags purgeFlag args =
     (case args of
        cmd # rest \<Rightarrow>
          if cmd = ''inspect'' then do {
            r \<leftarrow> runInspect h encS encI (inspectCommand disableFlags purgeFlag rest);
            State_Monad.return (case r of Inl code \<Rightarrow> code | Inr _ \<Rightarrow> 0) }
          else State_Monad.return 2
      | [] \<Rightarrow> State_Monad.return 2)"

section \<open>Lemmas\<close>

lemma readonly_loadSettings [readonly_intros]: "readonly (loadSettings h)"
  unfolding loadSettings_def by (intro readonly_intros)

lemma readonly_getSettings [readonly_intros]: "readonly (getSettings h)"
  unfolding getSettings_def exitUnless_def by (intro readonly_intros) (auto intro!: readonly_intros split: prod.split)

lemma readonly_currentTrust [readonly_intros]: "readonly (currentTrust h)"
proof -
  have "readonly (SystemTrustStatus th cr cert)" for th cr cert by (simp add: readonly_def SystemTrustStatus_def)
  then show ?thesis unfolding currentTrust_def loadCurrentCert_def loadCertificate_def by (intro readonly_intros)
qed

lemma attempt_finish0: "attempt finish0 k = k ()"
  by (rule state_ext) (simp add: finish0_def)

lemma wp_PurgeData:
  assumes "\<And>r s'. (\<And>q. q \<noteq> pDataDir paths \<Longrightarrow> \<not> below (pDataDir paths) q \<Longrightarrow> contentAt s' q = contentAt s q) \<Longrightarrow>
    (r = Inr () \<longrightarrow> (\<forall>q. below (pDataDir paths) q \<longrightarrow> contentAt s' q = None)) \<Longrightarrow> Q r s'"
  shows "wp (PurgeData paths) Q s"
  unfolding PurgeData_def wp_attempt
proof (rule wp_RemoveAll, goal_cases)
  case (1 r s1)
  have kept: "contentAt s1 q = contentAt s q" if "q \<noteq> pDataDir paths" "\<not> below (pDataDir paths) q" for q
    using 1(1) [of q] that by (auto intro: contentAt_node)
  have gone: "contentAt s1 q = None" if "r = Inr ()" "below (pDataDir paths) q" for q
    using 1(2) that by (simp add: contentAt_def)
  show ?case
    by (cases r) (auto intro!: assms wp_MkdirAll simp: kept gone)
qed

definition separateSettings :: "CliHost \<Rightarrow> bool" where
  "separateSettings h =
     (let paths = DefaultPaths h; sp = SettingsPath h
      in \<not> caFile paths sp \<and> sp \<noteq> pDataDir paths \<and> \<not> below (pDataDir paths) sp \<and>
         tempFile (Dir sp) ''.ui-settings-'' (clTemp h) \<noteq> sp)"

lemma savedSettings_flags:
  "HTTPSInspectEnabled (savedSettings now st) = HTTPSInspectEnabled st"
  "HTTPSInspectCaptureFull (savedSettings now st) = HTTPSInspectCaptureFull st"
  by (simp_all add: savedSettings_def normalizeSettings_def)

lemma wp_putSettings:
  assumes "separateSettings h"
    "\<And>e s'. Q (Inl e) s'"
    "\<And>raw s'. scMarshal h (savedSettings (clNow h) st) = Some raw \<Longrightarrow> contentAt s' (SettingsPath h) = Some raw \<Longrightarrow> Q (Inr ()) s'"
  shows "wp (putSettings h st) Q s"
proof -
  have "tempFile (Dir (SettingsPath h)) ''.ui-settings-'' (clTemp h) \<noteq> SettingsPath h"
    using assms(1) by (simp add: separateSettings_def Let_def)
  from wp_SaveSettings [OF this] show ?thesis
    unfolding putSettings_def exitIf_def wp_wrapped
    by (rule wp_mono) (auto simp: savePost_def assms(2) split: sum.split intro!: assms(3))
qed

lemma wp_deleteCA:
  assumes "\<And>e s'. Q (Inl e) s'"
    "\<And>s'. (\<And>q. \<not> caFile (DefaultPaths h) q \<Longrightarrow> node_at s' q = node_at s q) \<Longrightarrow>
      (\<And>q. caFile (DefaultPaths h) q \<Longrightarrow> node_at s' q = None) \<Longrightarrow> Q (Inr ()) s'"
  shows "wp (deleteCA h) Q s"
  unfolding deleteCA_def exitIf_def wp_wrapped wp_bind
proof (rule wp_mono [OF wp_DeleteCA], goal_cases)
  case (1 d s')
  then show ?case
    by (cases d; cases "fst d") (auto simp: wp_simps manager_def NewCertManager_def assms(1) intro: assms(2))
qed

text \<open>What \<open>inspect disable\<close> leaves behind.\<close>

definition settingsOff :: "CliHost \<Rightarrow> OS \<Rightarrow> bool" where
  "settingsOff h s = (\<exists>st raw. \<not> HTTPSInspectEnabled st \<and> \<not> HTTPSInspectCaptureFull st \<and>
     scMarshal h st = Some raw \<and> contentAt s (SettingsPath h) = Some raw)"

definition payloadsPurged :: "CliHost \<Rightarrow> OS \<Rightarrow> bool" where
  "payloadsPurged h s = (\<forall>q. below (pDataDir (DefaultPaths h)) q \<longrightarrow> contentAt s q = None)"

definition caDeleted :: "CliHost \<Rightarrow> OS \<Rightarrow> bool" where
  "caDeleted h s = (\<forall>q. caFile (DefaultPaths h) q \<longrightarrow> contentAt s q = None)"

definition disabledPost :: "CliHost \<Rightarrow> bool \<Rightarrow> bool \<Rightarrow> int + unit \<Rightarrow> OS \<Rightarrow> bool" where
  "disabledPost h purge delete r s =
     (r = Inr () \<longrightarrow> settingsOff h s \<and> (purge \<longrightarrow> payloadsPurged h s) \<and> (delete \<longrightarrow> caDeleted h s))"

lemma settingsOff_cong: "contentAt s' (SettingsPath h) = contentAt s (SettingsPath h) \<Longrightarrow> settingsOff h s' = settingsOff h s"
  by (simp add: settingsOff_def)

lemma disabledPost_Inl [simp]: "disabledPost h purge delete (Inl e) s"
  by (simp add: disabledPost_def)

text \<open>The steps of \<open>disableInspect\<close>, last first.\<close>

definition disableEnd :: "(int + unit) io" where
  "disableEnd = do { _ \<leftarrow> Println ''HTTPS Inspect Mode disabled.''; finish0 }"

definition disableDelete :: "CliHost \<Rightarrow> bool \<Rightarrow> (int + unit) io" where
  "disableDelete h delete =
     attempt (if delete then do { (cert, trusted) \<leftarrow> currentTrust h; if trusted then State_Monad.return (Inl 1) else deleteCA h }
              else finish0) (\<lambda>_. disableEnd)"

lemma wp_disableEnd:
  "settingsOff h s \<Longrightarrow> (purge \<longrightarrow> payloadsPurged h s) \<Longrightarrow> (delete \<longrightarrow> caDeleted h s) \<Longrightarrow> wp disableEnd (disabledPost h purge delete) s"
  by (simp add: disableEnd_def disabledPost_def wp_simps finish0_def settingsOff_def payloadsPurged_def caDeleted_def)

lemma wp_disableDelete:
  assumes sep: "separateSettings h" and o: "settingsOff h s" and p: "purge \<longrightarrow> payloadsPurged h s"
  shows "wp (disableDelete h delete) (disabledPost h purge delete) s"
proof (cases delete)
  case True
  let ?Q = "disabledPost h purge delete"
  have deleteOK: "wp (deleteCA h) (\<lambda>r s2. case r of Inl e \<Rightarrow> True | Inr _ \<Rightarrow> wp disableEnd ?Q s2) s1"
    if s1: "osFiles s1 = osFiles s" for s1
  proof (rule wp_deleteCA, goal_cases)
    case (2 s2)
    have c: "contentAt s2 q = (if caFile (DefaultPaths h) q then None else contentAt s q)" for q
      using 2 [of q] s1 by (simp add: contentAt_def)
    have "settingsOff h s2"
      using o sep c [of "SettingsPath h"] settingsOff_cong [of s2 h s] by (simp add: separateSettings_def Let_def)
    then show ?case unfolding sum.case using p by (intro wp_disableEnd) (auto simp: c payloadsPurged_def caDeleted_def)
  qed simp
  with True show ?thesis
    unfolding disableDelete_def wp_attempt
    by (auto simp: wp_bind wp_return split: prod.split sum.split_asm sum.split
        intro!: wp_readonly [OF readonly_currentTrust] wp_mono [OF deleteOK])
next
  case False
  then show ?thesis using wp_disableEnd [OF o p] by (simp only: disableDelete_def if_False attempt_finish0) simp
qed

lemma wp_disablePurge:
  assumes sep: "separateSettings h" and o: "settingsOff h s"
  shows "wp (attempt (if purge then exitIf (PurgeData (DefaultPaths h)) else finish0) (\<lambda>_. disableDelete h delete))
    (disabledPost h purge delete) s"
proof (cases purge)
  case True
  have "wp (PurgeData (DefaultPaths h))
      (\<lambda>r s1. case r of Inl e \<Rightarrow> True | Inr _ \<Rightarrow> wp (disableDelete h delete) (disabledPost h purge delete) s1) s"
  proof (rule wp_PurgeData, goal_cases)
    case (1 r s1)
    have "settingsOff h s1"
      using o sep 1(1) [of "SettingsPath h"] settingsOff_cong [of s1 h s] by (simp add: separateSettings_def Let_def)
    moreover have "r = Inr () \<Longrightarrow> payloadsPurged h s1" using 1(2) by (simp add: payloadsPurged_def)
    ultimately show ?case using wp_disableDelete [OF sep, of s1 purge delete] by (cases r) simp_all
  qed
  with True show ?thesis
    unfolding wp_attempt exitIf_def by (auto simp: wp_wrapped elim!: wp_mono split: sum.split_asm sum.split)
qed (use wp_disableDelete [OF sep o, of purge delete] in \<open>simp add: attempt_finish0\<close>)

lemma wp_disableInspect:
  assumes sep: "separateSettings h"
  shows "wp (disableInspect h removeProcess purge delete) (disabledPost h purge delete) s"
  unfolding disableInspect_def disableEnd_def [symmetric] disableDelete_def [symmetric] wp_attempt [of "getSettings h"]
proof (rule wp_readonly [OF readonly_getSettings], goal_cases)
  case (1 r s1)
  show ?case
  proof (cases r)
    case (Inr st)
    show ?thesis unfolding Inr sum.case wp_attempt [of "putSettings h _"]
    proof (rule wp_putSettings [OF sep], goal_cases)
      case (2 raw s2)
      let ?st = "savedSettings (clNow h) (st\<lparr>HTTPSInspectEnabled := False, HTTPSInspectCaptureFull := False\<rparr>)"
      from 2 have "settingsOff h s2"
        unfolding settingsOff_def by (intro exI [of _ ?st] exI [of _ raw]) (simp add: savedSettings_flags)
      moreover have "settingsOff h s3"
        if "settingsOff h s2" "\<And>q. q \<noteq> pBundlePath (DefaultPaths h) \<Longrightarrow> node_at s3 q = node_at s2 q" for s3
        using that sep contentAt_node [of s3 "SettingsPath h" s2] settingsOff_cong [of s3 h s2]
        by (auto simp: caFile_def separateSettings_def Let_def)
      ultimately have "wp (if removeProcess then do { _ \<leftarrow> Remove (pBundlePath (DefaultPaths h)); State_Monad.return () } else State_Monad.return ())
          (\<lambda>_. settingsOff h) s2"
        by (auto simp: wp_bind wp_return intro!: wp_Remove)
      then show ?case
        unfolding sum.case wp_bind [of "if removeProcess then _ else _"] by (rule wp_mono) (rule wp_disablePurge [OF sep])
    qed simp
  qed simp
qed

section \<open>Properties\<close>

text \<open>When \<open>inspect disable\<close> exits successfully, inspection is off: the settings on disk have inspection and full
  capture disabled, with the purge flag no captured payload is left, and with the delete flag neither is any file of
  the certificate authority.\<close>

theorem disable_disables:
  assumes "separateSettings h" "run_state (disableInspect h removeProcess purge delete) s = (Inr (), s')"
  shows "settingsOff h s' \<and> (purge \<longrightarrow> payloadsPurged h s') \<and> (delete \<longrightarrow> caDeleted h s')"
  using wp_run [OF wp_disableInspect [OF assms(1)] assms(2)] by (simp add: disabledPost_def)

definition demoCli :: CliHost where
  "demoCli = \<lparr>peGetenv = (\<lambda>k. if k = ''AGENTSNITCH_UI_SETTINGS'' then ''/s/u'' else if k = ''AGENTSNITCH_INSPECT_DIR'' then ''/i'' else []),
     peExecutable = None, peCwd = None, peTempDir = ''/tmp'', scUnmarshal = (\<lambda>raw st. Inr (st\<lparr>HTTPSInspectEnabled := True\<rparr>)),
     scMarshal = (\<lambda>st. Some (if HTTPSInspectEnabled st then ''on'' else ''off'')), clReadStatus = (\<lambda>_. None), clCrypto = demoCrypto,
     clTrust = \<lparr>thDarwin = True, thFind = (\<lambda>keychain. (True, Join keychain '' '')), thOsascript = (\<lambda>script s. (True, []))\<rparr>,
     clEntropy = demoEntropy, clNow = 5, clTemp = ''x'', clPayload = demoPayloads, clParseURL = (\<lambda>_. None), clEnviron = [],
     clRandom = Some ''ab'', clRun = (\<lambda>_ _. Some 0)\<rparr>"

definition demoCliDisk :: OS where
  "demoCliDisk = \<lparr>osFiles = [(''/s'', DirNode perm700), (''/s/u'', FileNode perm600 ''on''), (''/i'', DirNode perm700),
      (''/i/ca.pem'', FileNode perm644 ''cert''), (''/i/ca-key.pem'', FileNode perm600 ''key''), (''/i/payloads'', DirNode perm700),
      (''/i/payloads/p.json'', FileNode perm600 ''captured'')],
     osFaults = [], osUmask = 0x12, osOut = [], osKeychain = []\<rparr>"

theorem disable_disables_witness:
  "settingsOff demoCli (snd (run_state (disableInspect demoCli True True True) demoCliDisk)) \<and>
   payloadsPurged demoCli (snd (run_state (disableInspect demoCli True True True) demoCliDisk)) \<and>
   caDeleted demoCli (snd (run_state (disableInspect demoCli True True True) demoCliDisk))"
proof -
  have sep: "separateSettings demoCli" by code_simp
  have "fst (run_state (disableInspect demoCli True True True) demoCliDisk) = Inr ()" by code_simp
  then have "run_state (disableInspect demoCli True True True) demoCliDisk =
      (Inr (), snd (run_state (disableInspect demoCli True True True) demoCliDisk))" by (metis prod.collapse)
  from disable_disables [OF sep this] show ?thesis by simp
qed

text \<open>Two commands leave a trusted certificate behind: rotating the authority does not remove the old one from the
  System keychain, and removing it skips the keychain when the private key cannot be read. In both cases the files
  by which it could be identified are gone.\<close>

lemma rotate_leaves_old_ca_trusted:
  "let s = demoCliDisk\<lparr>osKeychain := [''CERT'']\<rparr>; (r, s') = run_state (rotateCA demoCli) s
   in \<not> isl r \<and> osKeychain s' = [''CERT''] \<and> contentAt s (''/i/ca.pem'') = Some ''cert'' \<and>
      contentAt s' (''/i/ca.pem'') = Some caCommonName"
  by code_simp

lemma removeCA_leaves_trust_without_key:
  "let s = demoCliDisk\<lparr>osKeychain := [''CERT''], osFiles := mdel ''/i/ca-key.pem'' (osFiles demoCliDisk)\<rparr>;
       (r, s') = run_state (removeCA demoCli) s
   in r = Inr () \<and> osKeychain s' = [''CERT''] \<and> contentAt s' ''/i/ca.pem'' = None"
  by code_simp

end
