(* ===== verification/Daemon_Process.thy ===== *)
theory Daemon_Process
  imports Corr_Process
begin

text \<open>
  \<open>cmd/daemon/subagent_process.go\<close> and the hook-origin check of \<open>cmd/daemon/main.go\<close>: questions about the
  ancestors of a process in a snapshot of the process table. Looking up executables on disk and running
  \<open>lsof\<close> is not modelled.
\<close>

section \<open>Definitions\<close>

definition cleanCWD :: "string \<Rightarrow> string" where
  "cleanCWD cwd0 =
     (let cwd = TrimSpace cwd0
      in if cwd = [] then [] else let clean = Clean cwd in if clean = ''.'' then [] else clean)"

definition isClaudeCLIBinary :: "string \<Rightarrow> bool" where
  "isClaudeCLIBinary name =
     (case IdentifyAgentProcess name of
        None \<Rightarrow> False
      | Some (agentID, kind) \<Rightarrow> agentID = ''claude'' \<and> HasSuffix kind ''_cli'')"

definition looksLikeAgentProcess :: "string \<Rightarrow> bool" where
  "looksLikeAgentProcess name =
     (case IdentifyAgentProcess name of None \<Rightarrow> False | Some (agentID, kind) \<Rightarrow> HasSuffix kind ''_cli'')"

definition isTmuxProcess :: "ProcessInfo \<Rightarrow> bool" where
  "isTmuxProcess proc =
     (case Fields (TrimSpace (piName proc)) of [] \<Rightarrow> False | f # fs \<Rightarrow> EqualFold (Base f) ''tmux'')"

fun has_ancestor_walk :: "nat \<Rightarrow> proc_table \<Rightarrow> (ProcessInfo \<Rightarrow> bool) \<Rightarrow> int list \<Rightarrow> int \<Rightarrow> bool" where
  "has_ancestor_walk 0 processes pred seen pid = False"
| "has_ancestor_walk (Suc depth) processes pred seen pid =
     (case mget processes pid of
        None \<Rightarrow> False
      | Some proc \<Rightarrow>
          if piPPID proc \<le> 0 then False
          else if piPPID proc \<in> set seen then False
          else case mget processes (piPPID proc) of
                 None \<Rightarrow> False
               | Some parent \<Rightarrow>
                   if pred parent then True
                   else has_ancestor_walk depth processes pred (piPPID proc # seen) (piPID parent))"

definition hasProcessAncestor :: "proc_table \<Rightarrow> int \<Rightarrow> (ProcessInfo \<Rightarrow> bool) \<Rightarrow> bool" where
  "hasProcessAncestor processes pid pred = has_ancestor_walk MaxAncestorDepth processes pred [] pid"

fun ancestor_pid_walk :: "nat \<Rightarrow> proc_table \<Rightarrow> int list \<Rightarrow> int list \<Rightarrow> int \<Rightarrow> bool" where
  "ancestor_pid_walk 0 processes wanted seen pid = False"
| "ancestor_pid_walk (Suc depth) processes wanted seen pid =
     (case mget processes pid of
        None \<Rightarrow> False
      | Some proc \<Rightarrow>
          if piPPID proc \<le> 0 then False
          else if piPPID proc \<in> set wanted then True
          else if piPPID proc \<in> set seen then False
          else ancestor_pid_walk depth processes wanted (piPPID proc # seen) (piPPID proc))"

definition processHasAncestorPID :: "proc_table \<Rightarrow> int \<Rightarrow> int list \<Rightarrow> bool" where
  "processHasAncestorPID processes pid candidatePIDs =
     (let wanted = filter (\<lambda>c. c > 0) candidatePIDs
      in if wanted = [] then False else ancestor_pid_walk MaxAncestorDepth processes wanted [] pid)"

definition registeredName :: "(int, string) gomap \<Rightarrow> int \<Rightarrow> string" where
  "registeredName registered pid = (case mget registered pid of None \<Rightarrow> [] | Some n \<Rightarrow> n)"

fun registered_walk :: "nat \<Rightarrow> proc_table \<Rightarrow> (int, string) gomap \<Rightarrow> int list \<Rightarrow> int \<Rightarrow> int" where
  "registered_walk 0 processes registered seen pid = 0"
| "registered_walk (Suc depth) processes registered seen pid =
     (case mget processes pid of
        None \<Rightarrow> 0
      | Some proc \<Rightarrow>
          if piPPID proc \<le> 0 then 0
          else if registeredName registered (piPPID proc) \<noteq> [] then piPPID proc
          else if piPPID proc \<in> set seen then 0
          else registered_walk depth processes registered (piPPID proc # seen) (piPPID proc))"

definition registeredAncestorPID :: "proc_table \<Rightarrow> int \<Rightarrow> (int, string) gomap \<Rightarrow> int" where
  "registeredAncestorPID processes pid registered =
     (if pid \<le> 0 \<or> processes = [] \<or> registered = [] then 0
      else if registeredName registered pid \<noteq> [] then pid
      else registered_walk MaxAncestorDepth processes registered [] pid)"

fun claude_walk :: "nat \<Rightarrow> proc_table \<Rightarrow> int list \<Rightarrow> int \<Rightarrow> int" where
  "claude_walk 0 processes seen pid = 0"
| "claude_walk (Suc depth) processes seen pid =
     (case mget processes pid of
        None \<Rightarrow> 0
      | Some proc \<Rightarrow>
          if piPPID proc \<le> 0 then 0
          else if piPPID proc \<in> set seen then 0
          else case mget processes (piPPID proc) of
                 None \<Rightarrow> 0
               | Some parent \<Rightarrow>
                   if isClaudeCLIBinary (piName parent) then piPID parent
                   else claude_walk depth processes (piPPID proc # seen) (piPID parent))"

definition claudeAncestorPID :: "proc_table \<Rightarrow> int \<Rightarrow> int" where
  "claudeAncestorPID processes pid =
     (if pid \<le> 0 \<or> processes = [] then 0
      else case mget processes pid of
             Some proc \<Rightarrow> if isClaudeCLIBinary (piName proc) then pid else claude_walk MaxAncestorDepth processes [] pid
           | None \<Rightarrow> claude_walk MaxAncestorDepth processes [] pid)"

definition firstPositive :: "int list \<Rightarrow> int" where
  "firstPositive values = (case find (\<lambda>v. v > 0) values of Some v \<Rightarrow> v | None \<Rightarrow> 0)"

definition isTrustedHookInvoker :: "ProcessInfo \<Rightarrow> bool" where
  "isTrustedHookInvoker proc =
     (case IdentifyAgentProcess (piName proc) of None \<Rightarrow> False | Some (agentID, kind) \<Rightarrow> HasSuffix kind ''_cli'')"

definition trustedSemanticHookOrigin :: "int \<Rightarrow> proc_table \<Rightarrow> bool" where
  "trustedSemanticHookOrigin peerPID processes =
     (if peerPID \<le> 0 \<or> processes = [] then False
      else case mget processes peerPID of
             Some proc \<Rightarrow> if isTrustedHookInvoker proc then True
                          else hasProcessAncestor processes peerPID isTrustedHookInvoker
           | None \<Rightarrow> hasProcessAncestor processes peerPID isTrustedHookInvoker)"

section \<open>The interface of an ancestor search\<close>

text \<open>The walks above differ in what they look for, in what they return and in whether they test a parent
  before or after they ask if it was seen. What they share is below: from a process, a search goes to its
  parent, ends there when the test holds, and gives up at a process without a parent or when it runs in a
  circle. It follows that a search returns the nearest ancestor within its depth that passes the test.\<close>

locale ancestor_search =
  fixes walk :: "nat \<Rightarrow> int list \<Rightarrow> int \<Rightarrow> 'r" and parent :: "int \<Rightarrow> int option" and test :: "int \<Rightarrow> bool"
    and hit :: "int \<Rightarrow> 'r" and miss :: 'r
  assumes walk_0: "walk 0 seen p = miss"
    and walk_root: "parent p = None \<Longrightarrow> walk (Suc d) seen p = miss"
    and walk_hit: "parent p = Some q \<Longrightarrow> q \<notin> set seen \<Longrightarrow> test q \<Longrightarrow> walk (Suc d) seen p = hit q"
    and walk_next: "parent p = Some q \<Longrightarrow> q \<notin> set seen \<Longrightarrow> \<not> test q \<Longrightarrow> walk (Suc d) seen p = walk d (q # seen) q"
    and walk_cycle: "parent p = Some q \<Longrightarrow> q \<in> set seen \<Longrightarrow> \<not> test q \<Longrightarrow> walk (Suc d) seen p = miss"
begin

lemma walk_gen:
  assumes "\<And>x. x \<in> set seen \<Longrightarrow> \<not> test x" "seen \<noteq> [] \<Longrightarrow> p \<in> set seen"
    and "\<And>x q. x \<in> set seen \<Longrightarrow> x \<noteq> p \<Longrightarrow> parent x = Some q \<Longrightarrow> q \<in> set seen"
  shows "walk d seen p = (case find test (ancestors parent d p) of Some q \<Rightarrow> hit q | None \<Rightarrow> miss)"
  using assms
proof (induction d arbitrary: seen p)
  case (Suc d)
  show ?case
  proof (cases "parent p")
    case (Some q)
    consider "q \<in> set seen" | "q \<notin> set seen" "test q" | "q \<notin> set seen" "\<not> test q" by blast
    then show ?thesis
    proof cases
      case 1
      have closed: "\<And>x r. x \<in> set seen \<Longrightarrow> parent x = Some r \<Longrightarrow> r \<in> set seen"
        using Suc.prems(3) Some 1 by (metis option.inject)
      have "set (ancestors parent d q) \<subseteq> set seen" by (rule ancestors_closed [OF closed 1])
      then have "find test (q # ancestors parent d q) = None"
        using Suc.prems(1) 1 by (auto simp: find_None_iff)
      then show ?thesis using walk_cycle [OF Some 1] Suc.prems(1) [OF 1] Some by simp
    next
      case 2
      then show ?thesis using walk_hit [OF Some] Some by simp
    next
      case 3
      have "walk d (q # seen) q = (case find test (ancestors parent d q) of Some q \<Rightarrow> hit q | None \<Rightarrow> miss)"
      proof (rule Suc.IH)
        fix x r assume x: "x \<in> set (q # seen)" "x \<noteq> q" "parent x = Some r"
        then show "r \<in> set (q # seen)" using Suc.prems(3) [of x r] Some by (cases "x = p") auto
      qed (use 3 Suc.prems in auto)
      then show ?thesis using walk_next [OF Some 3] Some 3(2) by simp
    qed
  qed (simp add: walk_root)
qed (simp add: walk_0)

lemma walk_nearest: "walk d [] p = (case find test (ancestors parent d p) of Some q \<Rightarrow> hit q | None \<Rightarrow> miss)"
  by (rule walk_gen) simp_all

end

section \<open>The searches meet the interface\<close>

text \<open>The tables come from \<open>parseProcessTableOutput\<close>, which files a process under its own PID.\<close>

definition keyed :: "proc_table \<Rightarrow> bool" where
  "keyed ps \<longleftrightarrow> list_all (\<lambda>(p, i). piPID i = p) ps"

lemma keyedD: "keyed ps \<Longrightarrow> mget ps p = Some i \<Longrightarrow> piPID i = p"
  by (auto simp: keyed_def list_all_iff dest!: map_of_SomeD)

definition passes :: "proc_table \<Rightarrow> (ProcessInfo \<Rightarrow> bool) \<Rightarrow> int \<Rightarrow> bool" where
  "passes ps pred q = (case mget ps q of None \<Rightarrow> False | Some i \<Rightarrow> pred i)"

lemma parent_of_cases:
  "parent_of ps p = Some q \<longleftrightarrow> (\<exists>i. mget ps p = Some i \<and> 0 < piPPID i \<and> piPPID i = q)"
  "parent_of ps p = None \<longleftrightarrow> (\<forall>i. mget ps p = Some i \<longrightarrow> piPPID i \<le> 0)"
  by (auto simp: parent_of_def split: option.splits)

lemma has_ancestor_walk_orphan: "mget ps q = None \<Longrightarrow> \<not> has_ancestor_walk d ps pred seen q"
  by (cases d) simp_all

lemma claude_walk_orphan: "mget ps q = None \<Longrightarrow> claude_walk d ps seen q = 0"
  by (cases d) simp_all

interpretation registered: ancestor_search "\<lambda>d. registered_walk d ps reg" "parent_of ps"
    "\<lambda>q. registeredName reg q \<noteq> []" "\<lambda>q. q" 0 for ps reg
  by unfold_locales (auto simp: parent_of_cases split: option.splits)

interpretation wanted_pid: ancestor_search "\<lambda>d. ancestor_pid_walk d ps wanted" "parent_of ps"
    "\<lambda>q. q \<in> set wanted" "\<lambda>q. True" False for ps wanted
  by unfold_locales (auto simp: parent_of_cases split: option.splits)

text \<open>The other two walk on with the PID stored in the entry, so they meet the interface on keyed tables.\<close>

lemma has_ancestor_search:
  assumes "keyed ps"
  shows "ancestor_search (\<lambda>d. has_ancestor_walk d ps pred) (parent_of ps) (passes ps pred) (\<lambda>q. True) False"
  using keyedD [OF assms]
  by unfold_locales (auto simp: parent_of_cases passes_def has_ancestor_walk_orphan split: option.splits)

lemma claude_ancestor_search:
  assumes "keyed ps"
  shows "ancestor_search (\<lambda>d. claude_walk d ps) (parent_of ps) (passes ps (\<lambda>i. isClaudeCLIBinary (piName i))) (\<lambda>q. q) 0"
  using keyedD [OF assms]
  by unfold_locales (auto simp: parent_of_cases passes_def claude_walk_orphan split: option.splits)

text \<open>What each question answers, over the reference definition of the nearest ancestors.\<close>

lemma find_found: "(case find P xs of Some q \<Rightarrow> True | None \<Rightarrow> False) \<longleftrightarrow> (\<exists>x \<in> set xs. P x)"
  by (induction xs) auto

lemma hasProcessAncestor_iff:
  "keyed ps \<Longrightarrow> hasProcessAncestor ps pid pred \<longleftrightarrow>
     (\<exists>q \<in> set (ancestors (parent_of ps) MaxAncestorDepth pid). passes ps pred q)"
  unfolding hasProcessAncestor_def ancestor_search.walk_nearest [OF has_ancestor_search]
  by (rule find_found)

lemma processHasAncestorPID_iff:
  "processHasAncestorPID ps pid cs \<longleftrightarrow> (\<exists>c \<in> set cs. 0 < c \<and> c \<in> set (ancestors (parent_of ps) MaxAncestorDepth pid))"
proof -
  have "ancestor_pid_walk MaxAncestorDepth ps (filter (\<lambda>c. 0 < c) cs) [] pid \<longleftrightarrow>
      (\<exists>c \<in> set cs. 0 < c \<and> c \<in> set (ancestors (parent_of ps) MaxAncestorDepth pid))"
    unfolding wanted_pid.walk_nearest find_found by auto
  then show ?thesis by (auto simp: processHasAncestorPID_def Let_def filter_empty_conv)
qed

lemma registeredAncestorPID_nearest:
  assumes "0 < pid" "ps \<noteq> []" "reg \<noteq> []"
  shows "registeredAncestorPID ps pid reg =
    (case find (\<lambda>q. registeredName reg q \<noteq> []) (pid # ancestors (parent_of ps) MaxAncestorDepth pid) of
       Some q \<Rightarrow> q | None \<Rightarrow> 0)"
  using assms registered.walk_nearest [of MaxAncestorDepth ps reg pid] by (simp add: registeredAncestorPID_def)

lemma claudeAncestorPID_nearest:
  assumes "keyed ps" "0 < pid" "ps \<noteq> []"
  shows "claudeAncestorPID ps pid =
    (case find (passes ps (\<lambda>i. isClaudeCLIBinary (piName i))) (pid # ancestors (parent_of ps) MaxAncestorDepth pid) of
       Some q \<Rightarrow> q | None \<Rightarrow> 0)"
  using assms(2,3) ancestor_search.walk_nearest [OF claude_ancestor_search [OF assms(1)], of MaxAncestorDepth pid]
  by (simp add: claudeAncestorPID_def passes_def split: option.splits)

section \<open>Properties\<close>

text \<open>C36. A hook event is accepted from a socket peer only if the peer, or one of its nearest twelve
  ancestors in the process table, is the command-line binary of a known agent; conversely each such peer is
  accepted. Circular parent links neither loop nor change the answer.\<close>

theorem hook_origin_exact:
  assumes "keyed processes" "0 < peerPID"
  shows "trustedSemanticHookOrigin peerPID processes \<longleftrightarrow>
    (\<exists>q \<in> insert peerPID (set (ancestors (parent_of processes) 12 peerPID)). \<exists>i ident kind.
       mget processes q = Some i \<and> IdentifyAgentProcess (piName i) = Some (ident, kind) \<and> HasSuffix kind ''_cli'')"
proof -
  have "passes processes isTrustedHookInvoker q \<longleftrightarrow> (\<exists>i ident kind. mget processes q = Some i \<and>
      IdentifyAgentProcess (piName i) = Some (ident, kind) \<and> HasSuffix kind ''_cli'')" for q
    by (auto simp: passes_def isTrustedHookInvoker_def split: option.splits)
  moreover have "trustedSemanticHookOrigin peerPID processes \<longleftrightarrow>
      (\<exists>q \<in> insert peerPID (set (ancestors (parent_of processes) MaxAncestorDepth peerPID)). passes processes isTrustedHookInvoker q)"
    using assms hasProcessAncestor_iff [OF assms(1), of peerPID isTrustedHookInvoker]
    by (auto simp: trustedSemanticHookOrigin_def passes_def split: option.splits)
  ultimately show ?thesis by simp
qed

definition demoTable :: proc_table where
  "demoTable =
     [(10, zeroProcess\<lparr>piPID := 10, piPPID := 1, piName := ''/usr/local/bin/claude --resume''\<rparr>),
      (20, zeroProcess\<lparr>piPID := 20, piPPID := 10, piName := ''/bin/zsh -c emitter''\<rparr>),
      (30, zeroProcess\<lparr>piPID := 30, piPPID := 20, piName := ''emitter pretooluse''\<rparr>),
      (40, zeroProcess\<lparr>piPID := 40, piPPID := 41, piName := ''emitter pretooluse''\<rparr>),
      (41, zeroProcess\<lparr>piPID := 41, piPPID := 40, piName := ''sh''\<rparr>)]"

theorem hook_origin_exact_witness:
  "trustedSemanticHookOrigin 30 demoTable \<and> \<not> trustedSemanticHookOrigin 40 demoTable"
proof -
  have k: "keyed demoTable" by code_simp
  have "ancestors (parent_of demoTable) 12 30 = [20, 10, 1]" "ancestors (parent_of demoTable) 12 40 = [41, 40, 41, 40, 41, 40, 41, 40, 41, 40, 41, 40]"
    by code_simp+
  moreover have "mget demoTable 10 = Some (zeroProcess\<lparr>piPID := 10, piPPID := 1, piName := ''/usr/local/bin/claude --resume''\<rparr>)"
    "mget demoTable 40 = Some (zeroProcess\<lparr>piPID := 40, piPPID := 41, piName := ''emitter pretooluse''\<rparr>)"
    "mget demoTable 41 = Some (zeroProcess\<lparr>piPID := 41, piPPID := 40, piName := ''sh''\<rparr>)"
    by (simp_all add: demoTable_def)
  moreover have "IdentifyAgentProcess ''/usr/local/bin/claude --resume'' = Some (''claude'', ''claude_cli'')"
    "IdentifyAgentProcess ''emitter pretooluse'' = None" "IdentifyAgentProcess ''sh'' = None" "HasSuffix ''claude_cli'' ''_cli''"
    by code_simp+
  ultimately show ?thesis
    using hook_origin_exact [OF k, of 30] hook_origin_exact [OF k, of 40] by (simp add: zeroProcess_def)
qed

end
