(* ===== verification/Daemon_Registry.thy ===== *)
theory Daemon_Registry
  imports Daemon_Process
begin

text \<open>
  \<open>cmd/daemon/subagent_registry.go\<close>: the registry of main agents and sub-agents of a session, filed by
  agent identifier, by PID and by tool-use identifier, and the pruning of dead entries
  (\<open>pruneStateLocked\<close> of \<open>cmd/daemon/subagent_monitor.go\<close>). Go iterates over its maps in any order; the
  loops that depend on it take the order of the association list. \<open>fmt.Sprintf\<close> with \<open>%d\<close> is \<open>Itoa\<close>.
\<close>

section \<open>Definitions\<close>

record subagentRegistry =
  agents :: "(string, AgentInfo) gomap"
  pidToAgentID :: "(int, string) gomap"
  toolUseToAgentID :: "(string, string) gomap"
  emittedAgentIDs :: "string list"
  mainAgentID :: string

definition newRegistry :: subagentRegistry where
  "newRegistry = \<lparr>agents = [], pidToAgentID = [], toolUseToAgentID = [], emittedAgentIDs = [], mainAgentID = []\<rparr>"

definition noAgent :: AgentInfo where
  "noAgent = \<lparr>aID = [], aType = [], aName = [], aPID = 0, aParentAgentID = [], aSpawnMethod = [], aFirstSeen = 0,
     aLastSeen = 0, aCwd = [], aVersion = []\<rparr>"

definition putAgent :: "AgentInfo \<Rightarrow> subagentRegistry \<Rightarrow> subagentRegistry" where
  "putAgent a m = m\<lparr>agents := mput (aID a) a (agents m)\<rparr>"

definition bindPID :: "int \<Rightarrow> string \<Rightarrow> subagentRegistry \<Rightarrow> subagentRegistry" where
  "bindPID pid ident m = m\<lparr>pidToAgentID := mput pid ident (pidToAgentID m)\<rparr>"

definition bindToolUse :: "string \<Rightarrow> string \<Rightarrow> subagentRegistry \<Rightarrow> subagentRegistry" where
  "bindToolUse tid ident m = m\<lparr>toolUseToAgentID := mput tid ident (toolUseToAgentID m)\<rparr>"

definition agentForPIDLocked :: "subagentRegistry \<Rightarrow> int \<Rightarrow> AgentInfo option" where
  "agentForPIDLocked m pid =
     (case mget (pidToAgentID m) pid of None \<Rightarrow> None | Some agentID \<Rightarrow> mget (agents m) agentID)"

fun agentForProcessLocked :: "subagentRegistry \<Rightarrow> proc_table \<Rightarrow> int list \<Rightarrow> AgentInfo option" where
  "agentForProcessLocked m processes [] = None"
| "agentForProcessLocked m processes (pid # pids) =
     (if pid \<le> 0 then agentForProcessLocked m processes pids
      else case agentForPIDLocked m pid of
             Some agent \<Rightarrow> Some agent
           | None \<Rightarrow>
               let ancestor = registeredAncestorPID processes pid (pidToAgentID m)
               in if ancestor > 0 then agentForPIDLocked m ancestor else agentForProcessLocked m processes pids)"

text \<open>The update several registrations share: an agent seen again.\<close>

definition seenAgain :: "time \<Rightarrow> string \<Rightarrow> AgentInfo \<Rightarrow> AgentInfo" where
  "seenAgain now cwd agent = agent\<lparr>aLastSeen := now, aCwd := (if aCwd agent = [] then cleanCWD cwd else aCwd agent)\<rparr>"

definition newMainAgent :: "int \<Rightarrow> string \<Rightarrow> time \<Rightarrow> AgentInfo" where
  "newMainAgent pid cwd now = noAgent\<lparr>aID := ''main_'' @ Itoa pid, aType := ''main'', aName := ''claude'', aPID := pid,
     aSpawnMethod := ''direct'', aFirstSeen := now, aLastSeen := now, aCwd := cleanCWD cwd\<rparr>"

definition registerMainLocked :: "int \<Rightarrow> string \<Rightarrow> time \<Rightarrow> subagentRegistry \<Rightarrow> AgentInfo \<times> subagentRegistry" where
  "registerMainLocked pid cwd now m =
     (if pid \<le> 0 then (noAgent\<lparr>aID := ''claude'', aType := ''main'', aName := ''claude'', aLastSeen := now\<rparr>, m)
      else case agentForPIDLocked m pid of
             Some agent \<Rightarrow> (let agent' = seenAgain now cwd agent in (agent', putAgent agent' m))
           | None \<Rightarrow>
               let agent = newMainAgent pid cwd now;
                   m1 = (if mainAgentID m = [] then m\<lparr>mainAgentID := aID agent\<rparr> else m)
               in (agent, bindPID pid (aID agent) (putAgent agent m1)))"

definition registerSubLocked ::
    "int \<Rightarrow> string \<Rightarrow> string \<Rightarrow> string \<Rightarrow> time \<Rightarrow> subagentRegistry \<Rightarrow> (AgentInfo \<times> bool) \<times> subagentRegistry" where
  "registerSubLocked pid cwd spawn parentAgentID now m =
     (case agentForPIDLocked m pid of
        Some agent \<Rightarrow> (let agent' = seenAgain now cwd agent in ((agent', False), putAgent agent' m))
      | None \<Rightarrow>
          let agentID = ''sub_'' @ Itoa pid;
              agent = noAgent\<lparr>aID := agentID, aType := ''sub'', aName := ''claude'', aPID := pid,
                aParentAgentID := (if parentAgentID = [] then mainAgentID m else parentAgentID),
                aSpawnMethod := (if spawn = [] then ''unknown'' else spawn),
                aFirstSeen := now, aLastSeen := now, aCwd := cleanCWD cwd\<rparr>
          in ((agent, True), bindPID pid agentID (putAgent agent m)))"

definition isAgentToolLaunch :: "SemanticEvent \<Rightarrow> bool" where
  "isAgentToolLaunch se =
     (let tool = TrimSpace (sTool se)
      in if \<not> EqualFold tool ''Agent'' \<and> \<not> EqualFold tool ''TaskCreate'' then False
         else Contains (sEvent se) ''PreToolUse'' \<or> Contains (sEvent se) ''PostToolUse'')"

definition component_char :: "char \<Rightarrow> string" where
  "component_char ch =
     (let n = of_char ch :: nat
      in if (97 \<le> n \<and> n \<le> 122) \<or> (65 \<le> n \<and> n \<le> 90) \<or> (48 \<le> n \<and> n \<le> 57) then [ch]
         else if ch = CHR ''-'' \<or> ch = CHR ''_'' then ''_'' else [])"

definition agentIDComponent :: "string \<Rightarrow> string" where
  "agentIDComponent value0 =
     (let v = TrimSpace value0 in if v = [] then [] else Trim (concat (map component_char v)) ''_'')"

definition hookSubagentID :: "SemanticEvent \<Rightarrow> string" where
  "hookSubagentID se =
     (let component = agentIDComponent (sToolUseID se)
      in if component \<noteq> [] then ''subhook_'' @ component
         else if sPID se > 0 then ''subhook_pid_'' @ Itoa (sPID se)
         else [])"

fun first_description :: "jobject option \<Rightarrow> string list \<Rightarrow> string" where
  "first_description m [] = ''Claude Code sub-agent''"
| "first_description m (key # keys) =
     (case jstring m key of
        Some description \<Rightarrow>
          if TrimSpace description \<noteq> [] then TrimSpace description else first_description m keys
      | None \<Rightarrow> first_description m keys)"

definition hookSubagentDescription :: "SemanticEvent \<Rightarrow> string" where
  "hookSubagentDescription se = first_description (sInputSummary se) [''activeForm'', ''subject'', ''description'']"

definition hookSubagentType :: "SemanticEvent \<Rightarrow> string" where
  "hookSubagentType se = (case jstring (sInputSummary se) ''subagent_type'' of Some t \<Rightarrow> TrimSpace t | None \<Rightarrow> [])"

definition toolUseAgent :: "subagentRegistry \<Rightarrow> string \<Rightarrow> string" where
  "toolUseAgent m tid = (case mget (toolUseToAgentID m) tid of None \<Rightarrow> [] | Some ident \<Rightarrow> ident)"

text \<open>The two branches of \<open>hookInferredSubagentLocked\<close> that refresh a known agent.\<close>

definition hookSeen :: "SemanticEvent \<Rightarrow> time \<Rightarrow> AgentInfo \<Rightarrow> AgentInfo" where
  "hookSeen se now agent =
     (let a = (if aPID agent = 0 then agent\<lparr>aPID := sPID se\<rparr> else agent) in seenAgain now (sCWD se) a)"

definition bindHookPID :: "SemanticEvent \<Rightarrow> string \<Rightarrow> subagentRegistry \<Rightarrow> subagentRegistry" where
  "bindHookPID se ident m = (if sPID se > 0 then bindPID (sPID se) ident m else m)"

definition knownToolUseAgent :: "subagentRegistry \<Rightarrow> string \<Rightarrow> AgentInfo option" where
  "knownToolUseAgent m toolUseID =
     (if toolUseID = [] \<or> toolUseAgent m toolUseID = [] then None else mget (agents m) (toolUseAgent m toolUseID))"

definition hookInferredSubagentLocked ::
    "SemanticEvent \<Rightarrow> string \<Rightarrow> time \<Rightarrow> subagentRegistry \<Rightarrow> (AgentInfo \<times> bool) option \<times> subagentRegistry" where
  "hookInferredSubagentLocked se parentAgentID now m =
     (let toolUseID = TrimSpace (sToolUseID se)
      in case knownToolUseAgent m toolUseID of
           Some agent \<Rightarrow> (let a = hookSeen se now agent in (Some (a, False), bindHookPID se (aID a) (putAgent a m)))
         | None \<Rightarrow>
             if \<not> isAgentToolLaunch se then (None, m)
             else
               let agentID = hookSubagentID se
               in if agentID = [] then (None, m)
                  else
                    let bindTool = (\<lambda>ident r. if toolUseID \<noteq> [] then bindToolUse toolUseID ident r else r)
                    in case mget (agents m) agentID of
                         Some agent \<Rightarrow>
                           (let a = hookSeen se now agent
                            in (Some (a, False), bindHookPID se (aID a) (bindTool (aID a) (putAgent a m))))
                       | None \<Rightarrow>
                           let agent = noAgent\<lparr>aID := agentID, aType := ''sub'', aName := hookSubagentDescription se,
                                 aPID := sPID se, aParentAgentID := (if parentAgentID = [] then mainAgentID m else parentAgentID),
                                 aSpawnMethod := ''hook'', aFirstSeen := now, aLastSeen := now, aCwd := cleanCWD (sCWD se),
                                 aVersion := hookSubagentType se\<rparr>
                           in (Some (agent, True), bindHookPID se agentID (bindTool agentID (putAgent agent m))))"

definition cwdRelated :: "string \<Rightarrow> AgentInfo \<Rightarrow> bool" where
  "cwdRelated cwd agent =
     (aType agent = ''main'' \<and>
      (let agentCWD = cleanCWD (aCwd agent)
       in agentCWD \<noteq> [] \<and> (cwd = agentCWD \<or> HasPrefix cwd (agentCWD @ ''/'') \<or> HasPrefix agentCWD (cwd @ ''/''))))"

definition parentAgentIDForCWDLocked :: "subagentRegistry \<Rightarrow> string \<Rightarrow> string" where
  "parentAgentIDForCWDLocked m cwd0 =
     (let cwd = cleanCWD cwd0
      in if cwd = [] then []
         else case find (\<lambda>(ident, agent). cwdRelated cwd agent) (agents m) of
                Some (ident, agent) \<Rightarrow> aID agent
              | None \<Rightarrow> [])"

definition rememberToolUseAgentLocked :: "string \<Rightarrow> string \<Rightarrow> subagentRegistry \<Rightarrow> subagentRegistry" where
  "rememberToolUseAgentLocked toolUseID0 agentID0 m =
     (let toolUseID = TrimSpace toolUseID0; agentID = TrimSpace agentID0
      in if toolUseID = [] \<or> agentID = [] then m else bindToolUse toolUseID agentID m)"

definition parentPIDLocked :: "subagentRegistry \<Rightarrow> string \<Rightarrow> int" where
  "parentPIDLocked m parentAgentID = (case mget (agents m) parentAgentID of Some p \<Rightarrow> aPID p | None \<Rightarrow> 0)"

definition subName :: "string \<Rightarrow> string" where
  "subName name = (if TrimSpace name = [] then ''Claude Code sub-agent'' else TrimSpace name)"

definition transcriptSubID :: "subagentRegistry \<Rightarrow> string \<Rightarrow> string \<Rightarrow> string" where
  "transcriptSubID m component launchToolUseID =
     (if launchToolUseID = [] then ''subchain_'' @ component
      else if toolUseAgent m launchToolUseID \<noteq> [] then toolUseAgent m launchToolUseID
      else if agentIDComponent launchToolUseID \<noteq> [] then ''subhook_'' @ agentIDComponent launchToolUseID
      else ''subchain_'' @ component)"

definition transcriptVersion :: "string \<Rightarrow> string \<Rightarrow> string" where
  "transcriptVersion subagentType agentID =
     (if TrimSpace subagentType \<noteq> [] then TrimSpace subagentType else TrimSpace agentID)"

definition transcriptSeen :: "string \<Rightarrow> string \<Rightarrow> string \<Rightarrow> string \<Rightarrow> string \<Rightarrow> time \<Rightarrow> AgentInfo \<Rightarrow> AgentInfo" where
  "transcriptSeen agentID name cwd spawn subagentType now agent =
     (let a = seenAgain now cwd agent
      in a\<lparr>aName := (if TrimSpace name \<noteq> [] then TrimSpace name else aName a),
           aSpawnMethod := (if TrimSpace spawn \<noteq> [] then TrimSpace spawn else aSpawnMethod a),
           aVersion := (if transcriptVersion subagentType agentID \<noteq> [] then transcriptVersion subagentType agentID else aVersion a)\<rparr>)"

definition registerTranscriptSubLocked ::
    "string \<Rightarrow> string \<Rightarrow> string \<Rightarrow> string \<Rightarrow> string \<Rightarrow> string \<Rightarrow> string \<Rightarrow> time \<Rightarrow> subagentRegistry \<Rightarrow>
       (AgentInfo \<times> bool) \<times> subagentRegistry" where
  "registerTranscriptSubLocked agentID name cwd spawn parentAgentID launch subagentType now m =
     (let component = agentIDComponent agentID
      in if component = [] then ((noAgent, False), m)
         else
           let launchToolUseID = TrimSpace launch;
               ident = transcriptSubID m component launchToolUseID;
               bindLaunch = (\<lambda>i r. if launchToolUseID \<noteq> [] then bindToolUse launchToolUseID i r else r)
           in case mget (agents m) ident of
                Some agent \<Rightarrow>
                  (let a = transcriptSeen agentID name cwd spawn subagentType now agent
                   in ((a, False), bindLaunch (aID a) (m\<lparr>agents := mput ident a (agents m)\<rparr>)))
              | None \<Rightarrow>
                  let a = noAgent\<lparr>aID := ident, aType := ''sub'', aName := subName name,
                        aParentAgentID := (if parentAgentID = [] then mainAgentID m else parentAgentID),
                        aSpawnMethod := spawn, aFirstSeen := now, aLastSeen := now, aCwd := cleanCWD cwd,
                        aVersion := transcriptVersion subagentType agentID\<rparr>
                  in ((a, True), bindLaunch (aID a) (m\<lparr>agents := mput ident a (agents m)\<rparr>)))"

definition registerTranscriptHookSubLocked ::
    "string \<Rightarrow> string \<Rightarrow> string \<Rightarrow> string \<Rightarrow> string \<Rightarrow> time \<Rightarrow> subagentRegistry \<Rightarrow> (AgentInfo \<times> bool) \<times> subagentRegistry" where
  "registerTranscriptHookSubLocked toolUseID name subagentType cwd parentAgentID now m =
     (let component = agentIDComponent toolUseID
      in if component = [] then ((noAgent, False), m)
         else
           let ident = ''subhook_'' @ component
           in case mget (agents m) ident of
                Some agent \<Rightarrow>
                  (let a = seenAgain now cwd agent
                   in ((a, False), bindToolUse toolUseID (aID a) (m\<lparr>agents := mput ident a (agents m)\<rparr>)))
              | None \<Rightarrow>
                  let a = noAgent\<lparr>aID := ident, aType := ''sub'', aName := subName name,
                        aParentAgentID := (if parentAgentID = [] then mainAgentID m else parentAgentID),
                        aSpawnMethod := ''hook'', aFirstSeen := now, aLastSeen := now, aCwd := cleanCWD cwd,
                        aVersion := TrimSpace subagentType\<rparr>
                  in ((a, True), bindToolUse toolUseID (aID a) (m\<lparr>agents := mput ident a (agents m)\<rparr>)))"

definition shouldEmitSubagentLifecycleLocked :: "AgentInfo \<Rightarrow> subagentRegistry \<Rightarrow> bool \<times> subagentRegistry" where
  "shouldEmitSubagentLifecycleLocked agent m =
     (if aID agent = [] \<or> aType agent \<noteq> ''sub'' \<or> aPID agent \<le> 0 then (False, m)
      else if aID agent \<in> set (emittedAgentIDs m) then (False, m)
      else (True, m\<lparr>emittedAgentIDs := emittedAgentIDs m @ [aID agent]\<rparr>))"

definition transcriptInferredSubagentLocked ::
    "SemanticEvent \<Rightarrow> string \<Rightarrow> time \<Rightarrow> subagentRegistry \<Rightarrow> (AgentInfo \<times> bool) option \<times> subagentRegistry" where
  "transcriptInferredSubagentLocked se parentAgentID now m =
     (case knownToolUseAgent m (TrimSpace (sToolUseID se)) of
        None \<Rightarrow> (None, m)
      | Some agent \<Rightarrow>
          if aID agent = parentAgentID then (None, m)
          else
            let a = seenAgain now (sCWD se) (if sPID se > 0 then agent\<lparr>aPID := sPID se\<rparr> else agent);
                m1 = bindHookPID se (aID a) (putAgent a m);
                (emit, m2) = shouldEmitSubagentLifecycleLocked a m1
            in (Some (a, emit), m2))"

section \<open>Pruning\<close>

definition subagentStaleAgentTTL :: duration where [time_defs]: "subagentStaleAgentTTL = 15 * Minute"

definition freshAgent :: "time \<Rightarrow> AgentInfo \<Rightarrow> bool" where
  "freshAgent now agent \<longleftrightarrow> time_sub now (aLastSeen agent) \<le> subagentStaleAgentTTL"

definition keepPID :: "int list \<Rightarrow> time \<Rightarrow> subagentRegistry \<Rightarrow> int \<times> string \<Rightarrow> bool" where
  "keepPID live now m = (\<lambda>(pid, agentID).
     case mget (agents m) agentID of
       None \<Rightarrow> False
     | Some agent \<Rightarrow> pid \<in> set live \<or> (aType agent = ''main'' \<and> (freshAgent now agent \<or> aPID agent \<in> set live)))"

definition keepAgent :: "int list \<Rightarrow> time \<Rightarrow> AgentInfo \<Rightarrow> bool" where
  "keepAgent live now agent =
     (if aType agent = ''main'' then aPID agent \<in> set live \<or> freshAgent now agent
      else if aPID agent > 0 then aPID agent \<in> set live
      else freshAgent now agent)"

definition electMain :: "subagentRegistry \<Rightarrow> subagentRegistry" where
  "electMain m =
     (if mainAgentID m = [] \<or> mhas (agents m) (mainAgentID m) then m
      else m\<lparr>mainAgentID := (case find (\<lambda>(ident, agent). aType agent = ''main'') (agents m) of
                               Some (ident, agent) \<Rightarrow> ident | None \<Rightarrow> [])\<rparr>)"

definition pruneRegistry :: "int list \<Rightarrow> time \<Rightarrow> subagentRegistry \<Rightarrow> subagentRegistry" where
  "pruneRegistry live now m =
     (let pids = filter (keepPID live now m) (pidToAgentID m);
          kept = filter (\<lambda>(ident, agent). keepAgent live now agent) (agents m);
          emitted = filter (\<lambda>ident. \<not> (mhas (agents m) ident \<and> \<not> mhas kept ident)) (emittedAgentIDs m);
          m1 = electMain (m\<lparr>pidToAgentID := pids, agents := kept, emittedAgentIDs := emitted\<rparr>)
      in m1\<lparr>toolUseToAgentID := filter (\<lambda>(tid, ident). mhas kept ident) (toolUseToAgentID m1)\<rparr>)"

section \<open>The invariant\<close>

text \<open>Agents are filed under their own identifier, whose first letter tells main from sub-agents; the main
  agent and the targets of the tool-use index exist, and what was announced is still registered.\<close>

definition agent_kind :: "AgentInfo \<Rightarrow> bool" where
  "agent_kind a \<longleftrightarrow> aID a \<noteq> [] \<and> list_all (\<lambda>c. \<not> is_space c) (aID a) \<and>
     (aType a = ''main'' \<and> hd (aID a) = CHR ''m'' \<or> aType a = ''sub'' \<and> hd (aID a) = CHR ''s'')"

definition wf_registry :: "subagentRegistry \<Rightarrow> bool" where
  "wf_registry m \<longleftrightarrow>
     wf_map (agents m) \<and> wf_map (pidToAgentID m) \<and> wf_map (toolUseToAgentID m) \<and>
     (\<forall>i a. mget (agents m) i = Some a \<longrightarrow> aID a = i \<and> agent_kind a) \<and>
     (mainAgentID m \<noteq> [] \<longrightarrow> (\<exists>a. mget (agents m) (mainAgentID m) = Some a \<and> aType a = ''main'')) \<and>
     (\<forall>t i. mget (toolUseToAgentID m) t = Some i \<longrightarrow> mget (agents m) i \<noteq> None) \<and>
     distinct (emittedAgentIDs m) \<and> (\<forall>i \<in> set (emittedAgentIDs m). mget (agents m) i \<noteq> None)"

lemma digit_char_no_space [simp]: "\<not> is_space (digit_char n)"
  by (simp add: digit_char.simps is_space_def)

lemma show_digits_no_space: "list_all (\<lambda>c. \<not> is_space c) (show_digits n)"
proof (induction n rule: show_digits.induct)
  case (1 n)
  then show ?case by (subst show_digits.simps) simp
qed

lemma Itoa_no_space [simp]: "list_all (\<lambda>c. \<not> is_space c) (Itoa n)"
  using show_digits_no_space by (simp add: Itoa_def is_space_def)

lemma component_char_no_space: "list_all (\<lambda>c. \<not> is_space c) (component_char c)"
  by (auto simp: component_char_def is_space_def Let_def)

lemma agentIDComponent_no_space [simp]: "list_all (\<lambda>c. \<not> is_space c) (agentIDComponent s)"
proof -
  have "set (agentIDComponent s) \<subseteq> \<Union> (set ` component_char ` set (TrimSpace s))"
    using Trim_subset [of "concat (map component_char (TrimSpace s))" "''_''"] by (auto simp: agentIDComponent_def Let_def)
  then show ?thesis using component_char_no_space by (fastforce simp: list_all_iff)
qed

lemma no_space_letters [simp]:
  "\<not> is_space CHR ''m''" "\<not> is_space CHR ''a''" "\<not> is_space CHR ''i''" "\<not> is_space CHR ''n''" "\<not> is_space CHR ''s''" "\<not> is_space CHR ''u''" "\<not> is_space CHR ''b''" "\<not> is_space CHR ''h''" "\<not> is_space CHR ''o''" "\<not> is_space CHR ''k''" "\<not> is_space CHR ''p''" "\<not> is_space CHR ''d''" "\<not> is_space CHR ''c''" "\<not> is_space CHR ''_''"
  by (simp_all add: is_space_def)

lemma wf_registry_new [simp]: "wf_registry newRegistry"
  by (simp add: wf_registry_def newRegistry_def)

lemma wf_registryD:
  assumes "wf_registry m"
  shows "wf_map (agents m)"
    and "mget (agents m) i = Some a \<Longrightarrow> aID a = i \<and> agent_kind a"
    and "mainAgentID m \<noteq> [] \<Longrightarrow> \<exists>a. mget (agents m) (mainAgentID m) = Some a \<and> aType a = ''main''"
    and "mget (toolUseToAgentID m) t = Some i \<Longrightarrow> mget (agents m) i \<noteq> None"
  using assms by (auto simp: wf_registry_def)

text \<open>Every registration files an agent, binds a PID or binds a tool use.\<close>

lemma wf_registry_mput:
  assumes "wf_registry m" "aID a = i" "agent_kind a"
  shows "wf_registry (m\<lparr>agents := mput i a (agents m)\<rparr>)"
  unfolding wf_registry_def
proof (intro conjI allI impI ballI)
  fix t j assume "mget (toolUseToAgentID (m\<lparr>agents := mput i a (agents m)\<rparr>)) t = Some j"
  then show "mget (agents (m\<lparr>agents := mput i a (agents m)\<rparr>)) j \<noteq> None" using wf_registryD(4) [OF assms(1)] by simp
next
  fix j assume "j \<in> set (emittedAgentIDs (m\<lparr>agents := mput i a (agents m)\<rparr>))"
  then show "mget (agents (m\<lparr>agents := mput i a (agents m)\<rparr>)) j \<noteq> None" using assms(1) by (simp add: wf_registry_def)
next
  assume "mainAgentID (m\<lparr>agents := mput i a (agents m)\<rparr>) \<noteq> []"
  then obtain b where b: "mget (agents m) (mainAgentID m) = Some b" "aType b = ''main''"
    using wf_registryD(3) [OF assms(1)] by auto
  have "aType a = ''main''" if "i = mainAgentID m"
    using wf_registryD(2) [OF assms(1) b(1)] b(2) assms(2,3) that by (auto simp: agent_kind_def)
  then show "\<exists>b. mget (agents (m\<lparr>agents := mput i a (agents m)\<rparr>)) (mainAgentID (m\<lparr>agents := mput i a (agents m)\<rparr>)) = Some b \<and>
      aType b = ''main''"
    using b by (cases "i = mainAgentID m") auto
next
  fix j b assume "mget (agents (m\<lparr>agents := mput i a (agents m)\<rparr>)) j = Some b"
  then show "aID b = j" "agent_kind b"
    using wf_registryD(2) [OF assms(1), of j b] assms(2,3) by (auto split: if_splits)
qed (use assms(1) in \<open>simp_all add: wf_registry_def\<close>)

lemma wf_registry_put: "wf_registry m \<Longrightarrow> agent_kind a \<Longrightarrow> wf_registry (putAgent a m)"
  by (simp add: putAgent_def wf_registry_mput)

lemma wf_registry_setMain:
  "wf_registry m \<Longrightarrow> mget (agents m) i = Some a \<Longrightarrow> aType a = ''main'' \<Longrightarrow> wf_registry (m\<lparr>mainAgentID := i\<rparr>)"
  by (simp add: wf_registry_def)

lemma wf_registry_bindPID: "wf_registry m \<Longrightarrow> wf_registry (bindPID pid i m)"
  by (simp add: wf_registry_def bindPID_def)

lemma wf_registry_bindToolUse: "wf_registry m \<Longrightarrow> mget (agents m) i \<noteq> None \<Longrightarrow> wf_registry (bindToolUse t i m)"
  by (auto simp: wf_registry_def bindToolUse_def)

lemma agents_bind [simp]:
  "agents (bindPID pid i m) = agents m" "agents (bindToolUse t i m) = agents m"
  "agents (bindHookPID se i m) = agents m"
  by (simp_all add: bindPID_def bindToolUse_def bindHookPID_def)

lemma agents_put [simp]: "agents (putAgent a m) = mput (aID a) a (agents m)"
  by (simp add: putAgent_def)

lemma wf_registry_bindHookPID: "wf_registry m \<Longrightarrow> wf_registry (bindHookPID se i m)"
  by (simp add: bindHookPID_def wf_registry_bindPID)

lemma seenAgain_fields [simp]:
  "aID (seenAgain now cwd a) = aID a" "aType (seenAgain now cwd a) = aType a" "aPID (seenAgain now cwd a) = aPID a"
  by (simp_all add: seenAgain_def)

lemma hookSeen_fields [simp]: "aID (hookSeen se now a) = aID a" "aType (hookSeen se now a) = aType a"
  by (simp_all add: hookSeen_def Let_def)

lemma transcriptSeen_fields [simp]:
  "aID (transcriptSeen i n c s t now a) = aID a" "aType (transcriptSeen i n c s t now a) = aType a"
  by (simp_all add: transcriptSeen_def Let_def)

lemma agent_kind_seen [simp]:
  "agent_kind (seenAgain now cwd a) = agent_kind a" "agent_kind (hookSeen se now a) = agent_kind a"
  "agent_kind (transcriptSeen i n c s t now a) = agent_kind a" "agent_kind (a\<lparr>aPID := p\<rparr>) = agent_kind a"
  by (simp_all add: agent_kind_def)

lemma agentForPID_registered:
  "wf_registry m \<Longrightarrow> agentForPIDLocked m pid = Some a \<Longrightarrow> mget (agents m) (aID a) = Some a \<and> agent_kind a"
  using wf_registryD(2) [of m] by (auto simp: agentForPIDLocked_def split: option.splits)

lemma knownToolUse_registered:
  "wf_registry m \<Longrightarrow> knownToolUseAgent m tid = Some a \<Longrightarrow> mget (agents m) (aID a) = Some a \<and> agent_kind a"
  using wf_registryD(2) [of m] by (auto simp: knownToolUseAgent_def split: if_splits)

lemma agentForProcess_registered:
  "wf_registry m \<Longrightarrow> agentForProcessLocked m processes pids = Some a \<Longrightarrow> mget (agents m) (aID a) = Some a \<and> agent_kind a"
proof (induction m processes pids rule: agentForProcessLocked.induct)
  case (2 m processes pid pids)
  then show ?case
    using agentForPID_registered [of m] by (auto simp: Let_def split: if_splits option.splits)
qed simp

lemmas registry_intros = wf_registry_put wf_registry_mput wf_registry_bindPID wf_registry_bindToolUse
  wf_registry_bindHookPID wf_registry_setMain

section \<open>Preservation\<close>

text \<open>The registry operations return an agent that is registered, and keep the invariant.\<close>

lemma wf_registerMain:
  assumes "wf_registry m" "registerMainLocked pid cwd now m = (a, m')"
  shows "wf_registry m'" "0 < pid \<Longrightarrow> mget (agents m') (aID a) = Some a \<and> agent_kind a"
proof -
  have "wf_registry m' \<and> (0 < pid \<longrightarrow> mget (agents m') (aID a) = Some a \<and> agent_kind a)"
  proof (cases "pid \<le> 0")
    case True
    then show ?thesis using assms by (simp add: registerMainLocked_def)
  next
    case False
    show ?thesis
    proof (cases "agentForPIDLocked m pid")
      case (Some b)
      then show ?thesis
        using assms False agentForPID_registered [OF assms(1) Some]
        by (auto simp: registerMainLocked_def Let_def intro!: registry_intros)
    next
      case None
      let ?b = "newMainAgent pid cwd now"
      have k: "agent_kind ?b" "aType ?b = ''main''" by (simp_all add: newMainAgent_def agent_kind_def)
      have "wf_registry (putAgent ?b m)" by (rule wf_registry_put [OF assms(1) k(1)])
      moreover have "wf_registry ((putAgent ?b m)\<lparr>mainAgentID := aID ?b\<rparr>)"
        by (rule wf_registry_setMain [OF calculation _ k(2)]) simp
      moreover have "putAgent ?b (m\<lparr>mainAgentID := i\<rparr>) = (putAgent ?b m)\<lparr>mainAgentID := i\<rparr>" for i by (simp add: putAgent_def)
      ultimately show ?thesis
        using assms(2) False None k
        by (auto simp: registerMainLocked_def Let_def intro!: wf_registry_bindPID)
    qed
  qed
  then show "wf_registry m'" "0 < pid \<Longrightarrow> mget (agents m') (aID a) = Some a \<and> agent_kind a" by blast+
qed

lemma wf_registerSub:
  assumes "wf_registry m" "registerSubLocked pid cwd spawn parent now m = ((a, isNew), m')"
  shows "wf_registry m' \<and> mget (agents m') (aID a) = Some a \<and> agent_kind a"
proof (cases "agentForPIDLocked m pid")
  case (Some b)
  then show ?thesis
    using assms agentForPID_registered [OF assms(1) Some]
    by (auto simp: registerSubLocked_def Let_def intro!: registry_intros)
next
  case None
  then show ?thesis
    using assms by (auto simp: registerSubLocked_def Let_def agent_kind_def intro!: registry_intros)
qed

lemma wf_shouldEmit:
  assumes "wf_registry m" "shouldEmitSubagentLifecycleLocked a m = (emit, m')" "mget (agents m) (aID a) \<noteq> None"
  shows "wf_registry m'"
  using assms by (auto simp: shouldEmitSubagentLifecycleLocked_def wf_registry_def split: if_splits)

lemma hookSubagentID_sub:
  "hookSubagentID se \<noteq> [] \<Longrightarrow> hd (hookSubagentID se) = CHR ''s'' \<and> list_all (\<lambda>c. \<not> is_space c) (hookSubagentID se)"
  by (auto simp: hookSubagentID_def Let_def split: if_splits)

lemma wf_hookInferred:
  assumes "wf_registry m" "hookInferredSubagentLocked se parent now m = (r, m')"
  shows "wf_registry m' \<and> (\<forall>a n. r = Some (a, n) \<longrightarrow> mget (agents m') (aID a) = Some a \<and> agent_kind a)"
proof (cases "knownToolUseAgent m (TrimSpace (sToolUseID se))")
  case (Some b)
  then show ?thesis
    using assms knownToolUse_registered [OF assms(1) Some]
    by (auto simp: hookInferredSubagentLocked_def Let_def intro!: registry_intros)
next
  case None
  show ?thesis
  proof (cases "isAgentToolLaunch se \<and> hookSubagentID se \<noteq> []")
    case True
    then have hd: "hd (hookSubagentID se) = CHR ''s''" "list_all (\<lambda>c. \<not> is_space c) (hookSubagentID se)"
      using hookSubagentID_sub by blast+
    show ?thesis
    proof (cases "mget (agents m) (hookSubagentID se)")
      case (Some b)
      then show ?thesis
        using assms None True wf_registryD(2) [OF assms(1) Some]
        by (auto simp: hookInferredSubagentLocked_def Let_def intro!: registry_intros)
    next
      case new: None
      then show ?thesis
        using assms None True hd
        by (auto simp: hookInferredSubagentLocked_def Let_def agent_kind_def intro!: registry_intros)
    qed
  next
    case False
    then show ?thesis
      using assms None by (cases "isAgentToolLaunch se") (auto simp: hookInferredSubagentLocked_def Let_def)
  qed
qed

lemma wf_transcriptInferred:
  assumes "wf_registry m" "transcriptInferredSubagentLocked se parent now m = (r, m')"
  shows "wf_registry m' \<and> (\<forall>a n. r = Some (a, n) \<longrightarrow> mget (agents m') (aID a) = Some a \<and> agent_kind a)"
proof (cases "knownToolUseAgent m (TrimSpace (sToolUseID se))")
  case (Some b)
  note k = knownToolUse_registered [OF assms(1) Some]
  define a where "a = seenAgain now (sCWD se) (if sPID se > 0 then b\<lparr>aPID := sPID se\<rparr> else b)"
  define m1 where "m1 = bindHookPID se (aID a) (putAgent a m)"
  obtain emit m2 where e: "shouldEmitSubagentLifecycleLocked a m1 = (emit, m2)" by fastforce
  have ak: "agent_kind a" using k by (simp add: a_def)
  then have "wf_registry m1" using assms(1) by (simp add: m1_def registry_intros)
  then have "wf_registry m2" using wf_shouldEmit [OF _ e] by (simp add: m1_def)
  moreover have "agents m2 = agents m1" using e by (auto simp: shouldEmitSubagentLifecycleLocked_def split: if_splits)
  ultimately show ?thesis
    using assms Some ak e
    by (auto simp: transcriptInferredSubagentLocked_def Let_def a_def [symmetric] m1_def [symmetric] split: if_splits)
       (simp_all add: m1_def)
qed (use assms in \<open>auto simp: transcriptInferredSubagentLocked_def\<close>)

lemma transcriptSubID_kind:
  assumes "wf_registry m" "mget (agents m) (transcriptSubID m c l) = None"
  shows "hd (transcriptSubID m c l) = CHR ''s''" "transcriptSubID m c l \<noteq> []"
    "list_all (\<lambda>ch. \<not> is_space ch) c \<Longrightarrow> list_all (\<lambda>ch. \<not> is_space ch) (transcriptSubID m c l)"
proof -
  have "transcriptSubID m c l = ''subchain_'' @ c \<or> transcriptSubID m c l = ''subhook_'' @ agentIDComponent l"
    using assms wf_registryD(4) [OF assms(1), of l]
    by (auto simp: transcriptSubID_def toolUseAgent_def split: if_splits option.splits)
  then show "hd (transcriptSubID m c l) = CHR ''s''" "transcriptSubID m c l \<noteq> []"
    "list_all (\<lambda>ch. \<not> is_space ch) c \<Longrightarrow> list_all (\<lambda>ch. \<not> is_space ch) (transcriptSubID m c l)"
    by auto
qed

lemma wf_registerTranscriptSub:
  assumes "wf_registry m" "registerTranscriptSubLocked i n c s p l t now m = ((a, isNew), m')"
  shows "wf_registry m' \<and> (aID a \<noteq> [] \<longrightarrow> mget (agents m') (aID a) = Some a \<and> agent_kind a)"
proof (cases "agentIDComponent i = []")
  case True
  then show ?thesis using assms by (auto simp: registerTranscriptSubLocked_def noAgent_def)
next
  case False
  let ?id = "transcriptSubID m (agentIDComponent i) (TrimSpace l)"
  show ?thesis
  proof (cases "mget (agents m) ?id")
    case (Some b)
    then show ?thesis
      using assms False wf_registryD(2) [OF assms(1) Some]
      by (auto simp: registerTranscriptSubLocked_def Let_def intro!: registry_intros)
  next
    case None
    then show ?thesis
      using assms False transcriptSubID_kind [OF assms(1) None]
      by (auto simp: registerTranscriptSubLocked_def Let_def agent_kind_def intro!: registry_intros)
  qed
qed

lemma wf_registerTranscriptHookSub:
  assumes "wf_registry m" "registerTranscriptHookSubLocked tid n t c p now m = ((a, isNew), m')"
  shows "wf_registry m' \<and> (aID a \<noteq> [] \<longrightarrow> mget (agents m') (aID a) = Some a \<and> agent_kind a)"
proof (cases "agentIDComponent tid = []")
  case True
  then show ?thesis using assms by (auto simp: registerTranscriptHookSubLocked_def noAgent_def)
next
  case False
  show ?thesis
  proof (cases "mget (agents m) (''subhook_'' @ agentIDComponent tid)")
    case (Some b)
    then show ?thesis
      using assms False wf_registryD(2) [OF assms(1) Some]
      by (auto simp: registerTranscriptHookSubLocked_def Let_def intro!: registry_intros)
  next
    case None
    then show ?thesis
      using assms False
      by (auto simp: registerTranscriptHookSubLocked_def Let_def agent_kind_def intro!: registry_intros)
  qed
qed

lemma TrimSpace_no_space: "list_all (\<lambda>c. \<not> is_space c) s \<Longrightarrow> TrimSpace s = s"
proof (cases "s = []")
  case False
  assume "list_all (\<lambda>c. \<not> is_space c) s"
  then have "\<not> is_space (hd s)" "\<not> is_space (last s)" using False by (auto simp: list_all_iff)
  then show ?thesis using False unfolding TrimSpace_def by (intro trim_by_fixed) auto
qed simp

lemma wf_rememberToolUse:
  assumes "wf_registry m" "aID a \<noteq> [] \<Longrightarrow> mget (agents m) (aID a) = Some a"
  shows "wf_registry (rememberToolUseAgentLocked tid (aID a) m)"
proof (cases "aID a = []")
  case False
  then have "TrimSpace (aID a) = aID a"
    using assms wf_registryD(2) [OF assms(1), of "aID a" a] by (intro TrimSpace_no_space) (auto simp: agent_kind_def)
  then show ?thesis
    using assms False by (auto simp: rememberToolUseAgentLocked_def Let_def intro!: wf_registry_bindToolUse)
qed (use assms(1) in \<open>simp add: rememberToolUseAgentLocked_def\<close>)

lemma agents_remember [simp]: "agents (rememberToolUseAgentLocked tid i m) = agents m"
  by (simp add: rememberToolUseAgentLocked_def Let_def)

lemma electMain_fields [simp]:
  "agents (electMain m) = agents m" "pidToAgentID (electMain m) = pidToAgentID m"
  "toolUseToAgentID (electMain m) = toolUseToAgentID m" "emittedAgentIDs (electMain m) = emittedAgentIDs m"
  by (simp_all add: electMain_def)

lemma electMain_main:
  assumes "wf_map (agents m)" "mainAgentID (electMain m) \<noteq> []"
    "\<And>a. mget (agents m) (mainAgentID m) = Some a \<Longrightarrow> mainAgentID m \<noteq> [] \<Longrightarrow> aType a = ''main''"
  shows "\<exists>a. mget (agents m) (mainAgentID (electMain m)) = Some a \<and> aType a = ''main''"
proof (cases "mainAgentID m = [] \<or> mhas (agents m) (mainAgentID m)")
  case True
  then show ?thesis using assms(2,3) by (auto simp: electMain_def mhas_def split: if_splits)
next
  case False
  then obtain i a where f: "find (\<lambda>(ident, agent). aType agent = ''main'') (agents m) = Some (i, a)"
    using assms(2) by (auto simp: electMain_def split: option.splits if_splits)
  then have "(i, a) \<in> set (agents m)" "aType a = ''main''" by (auto simp: find_Some_iff dest: nth_mem)
  moreover have "mget (agents m) i = Some a"
    using calculation(1) assms(1) by (simp add: wf_map_def)
  ultimately show ?thesis using False f by (auto simp: electMain_def)
qed

text \<open>After pruning: the agents that pass \<open>keepAgent\<close>, the tool uses that point at one of them, and the
  announcements of agents that are still there.\<close>

lemma mget_pruned_agents:
  "wf_map (agents m) \<Longrightarrow> mget (agents (pruneRegistry live now m)) i =
     (case mget (agents m) i of Some a \<Rightarrow> if keepAgent live now a then Some a else None | None \<Rightarrow> None)"
  using mget_filter [of "agents m" "\<lambda>i a. keepAgent live now a" i]
  by (simp add: pruneRegistry_def Let_def split: option.splits)

lemma wf_pruneRegistry:
  assumes "wf_registry m"
  shows "wf_registry (pruneRegistry live now m)"
proof -
  let ?k = "filter (\<lambda>(ident, agent). keepAgent live now agent) (agents m)"
  have wm: "wf_map (agents m)" using assms by (simp add: wf_registry_def)
  have k: "mget ?k i = (case mget (agents m) i of Some a \<Rightarrow> if keepAgent live now a then Some a else None | None \<Rightarrow> None)" for i
    using mget_filter [OF wm, of "\<lambda>i a. keepAgent live now a" i] by (simp split: option.splits)
  have ka: "aID a = i \<and> agent_kind a" if "mget ?k i = Some a" for i a
    using that wf_registryD(2) [OF assms, of i a] by (auto simp: k split: option.splits if_splits)
  have km: "aType a = ''main''" if "mget ?k (mainAgentID m) = Some a" "mainAgentID m \<noteq> []" for a
    using that wf_registryD(3) [OF assms] by (auto simp: k split: option.splits if_splits)
  show ?thesis
    unfolding wf_registry_def pruneRegistry_def Let_def
  proof (intro conjI allI impI ballI, goal_cases)
    case 6
    then show ?case using electMain_main [of "m\<lparr>pidToAgentID := _, agents := ?k, emittedAgentIDs := _\<rparr>"] km wm by simp
  next
    case (7 t i)
    then show ?case by (auto simp: mhas_def dest!: map_of_SomeD)
  next
    case (9 i)
    then have "i \<in> set (emittedAgentIDs m)" "mhas (agents m) i \<longrightarrow> mhas ?k i" by auto
    then show ?case using assms by (auto simp: wf_registry_def mhas_def)
  qed (use assms ka in \<open>auto simp: wf_registry_def\<close>)
qed

section \<open>Announcements\<close>

text \<open>An agent is announced at most once while it is registered.\<close>

lemma shouldEmit_once:
  assumes "shouldEmitSubagentLifecycleLocked a m = (emit, m')"
  shows "emit \<Longrightarrow> aID a \<notin> set (emittedAgentIDs m) \<and> aID a \<in> set (emittedAgentIDs m') \<and> 0 < aPID a \<and> aType a = ''sub''"
    and "set (emittedAgentIDs m) \<subseteq> set (emittedAgentIDs m')" and "agents m' = agents m"
  using assms by (auto simp: shouldEmitSubagentLifecycleLocked_def split: if_splits)

end
