(* ===== verification/Daemon_Sidechain.thy ===== *)
theory Daemon_Sidechain
  imports Daemon_Registry Dest_Intent
begin

text \<open>
  \<open>cmd/daemon/sidechain.go\<close>: indexing the transcripts of Claude sub-agents. The file system and the JSON
  decoder are the record \<open>SideFS\<close>: what a path resolves to, its size, the entries of a directory, the lines
  the scanner yields, and how a line or a message decodes. The walk over the projects directory is the list of
  its entries in the order \<open>WalkDir\<close> visits them, with what \<open>d.Info()\<close> says of each.
\<close>

section \<open>Data\<close>

record claudeTranscriptLine =
  rowUUID :: string
  rowParentUUID :: string
  rowIsSidechain :: bool
  rowAgentID :: string
  rowCWD :: string
  rowTimestamp :: string
  rowType :: string
  rowContent :: string

record claudeContentBlock =
  blType :: string
  blID :: string
  blName :: string
  blInput :: "jobject option"

record claudeSidechainMeta =
  mtAgentType :: string
  mtDescription :: string
  mtToolUseID :: string

definition noMeta :: claudeSidechainMeta where
  "noMeta = \<lparr>mtAgentType = [], mtDescription = [], mtToolUseID = []\<rparr>"

record walkEntry =
  weIsDir :: bool
  weModTime :: time
  weSize :: int

record SideFS =
  fsHome :: string
  fsDisableDiscovery :: bool
  EvalSymlinks :: "string \<Rightarrow> string option"
  fsSize :: "string \<Rightarrow> int option"
  fsReadDir :: "string \<Rightarrow> (string \<times> bool) list option"
  fsLines :: "string \<Rightarrow> string list option"
  fsWalk :: "string \<Rightarrow> (string \<times> walkEntry) list"
  decodeRow :: "string \<Rightarrow> claudeTranscriptLine option"
  decodeBlocks :: "string \<Rightarrow> claudeContentBlock list option"
  decodePrompt :: "string \<Rightarrow> string option"
  decodeMeta :: "string \<Rightarrow> claudeSidechainMeta option"
  timeParse :: "string \<Rightarrow> time option"
  urlParse :: "string \<Rightarrow> (string \<times> string) option"

definition SidechainDiscoveryInterval :: duration where [time_defs]: "SidechainDiscoveryInterval = 10 * Second"
definition SidechainDiscoveryWindow :: duration where [time_defs]: "SidechainDiscoveryWindow = 6 * Hour"
definition SidechainDiscoveryMaxFiles :: nat where "SidechainDiscoveryMaxFiles = 128"
definition SidechainTranscriptMaxBytes :: int where "SidechainTranscriptMaxBytes = 4 * 1024 * 1024"

record sidechainIndexer =
  transcriptSizes :: "(string, int) gomap"
  scanned :: time

definition newSidechainIndexer :: sidechainIndexer where
  "newSidechainIndexer = \<lparr>transcriptSizes = [], scanned = 0\<rparr>"

record subagentEvents =
  lifecycle :: "AgentLifecycleEvent list"
  semantics :: "SemanticEvent list"

definition noEvents :: subagentEvents where "noEvents = \<lparr>lifecycle = [], semantics = []\<rparr>"

definition appendEvents :: "subagentEvents \<Rightarrow> subagentEvents \<Rightarrow> subagentEvents" where
  "appendEvents e other = \<lparr>lifecycle = lifecycle e @ lifecycle other, semantics = semantics e @ semantics other\<rparr>"

definition newSubagentLifecycle :: "time \<Rightarrow> AgentInfo \<Rightarrow> AgentLifecycleEvent" where
  "newSubagentLifecycle now agent = \<lparr>lSchema = SchemaAgentV0, lTS = now, lEvent = ''new_subagent'', lAgent = agent\<rparr>"

definition addLifecycle :: "time \<Rightarrow> AgentInfo \<Rightarrow> subagentEvents \<Rightarrow> subagentEvents" where
  "addLifecycle now agent e = e\<lparr>lifecycle := lifecycle e @ [newSubagentLifecycle now agent]\<rparr>"

section \<open>Paths\<close>

definition claudeProjectsRoot :: "SideFS \<Rightarrow> string" where
  "claudeProjectsRoot fs = (if fsHome fs = [] then [] else PathJoin [fsHome fs, ''.claude'', ''projects''])"

definition withinClaudeProjectsRoot :: "SideFS \<Rightarrow> string \<Rightarrow> bool" where
  "withinClaudeProjectsRoot fs path =
     (let projects = claudeProjectsRoot fs
      in if projects = [] \<or> TrimSpace path = [] then False
         else case EvalSymlinks fs projects of
                None \<Rightarrow> False
              | Some resolvedRoot \<Rightarrow>
                  (case EvalSymlinks fs path of
                     None \<Rightarrow> False
                   | Some resolved \<Rightarrow>
                       if resolved = resolvedRoot then True
                       else case Rel resolvedRoot resolved of
                              None \<Rightarrow> False
                            | Some rel \<Rightarrow> rel \<noteq> ''..'' \<and> \<not> HasPrefix rel ''../''))"

fun dedupe_loop :: "string list \<Rightarrow> string list \<Rightarrow> string list" where
  "dedupe_loop seen [] = []"
| "dedupe_loop seen (v # vs) =
     (let t = TrimSpace v
      in if t = [] \<or> t \<in> set seen then dedupe_loop seen vs else t # dedupe_loop (t # seen) vs)"

definition dedupeStrings :: "string list \<Rightarrow> string list" where
  "dedupeStrings vs = dedupe_loop [] vs"

definition jsonlFiles :: "SideFS \<Rightarrow> string \<Rightarrow> string list" where
  "jsonlFiles fs dir =
     (case fsReadDir fs dir of
        None \<Rightarrow> []
      | Some entries \<Rightarrow> map fst (filter (\<lambda>(name, isDir). \<not> isDir \<and> HasSuffix name ''.jsonl'') entries))"

definition transcriptSeedCandidates :: "SideFS \<Rightarrow> string \<Rightarrow> string list" where
  "transcriptSeedCandidates fs path =
     (let clean = Clean path;
          dir = Dir clean;
          subagentsDir = PathJoin [TrimSuffix clean ''.jsonl'', ''subagents''];
          siblingDir = PathJoin [dir, TrimSuffix (Base clean) ''.jsonl'', ''subagents'']
      in dedupeStrings
           ([clean] @ map (\<lambda>n. PathJoin [subagentsDir, n]) (jsonlFiles fs subagentsDir) @
            (if Base dir \<noteq> ''subagents'' then map (\<lambda>n. PathJoin [siblingDir, n]) (jsonlFiles fs siblingDir) else [])))"

definition recentClaudeSidechainPaths :: "SideFS \<Rightarrow> time \<Rightarrow> string list" where
  "recentClaudeSidechainPaths fs now =
     (if fsHome fs = [] then []
      else
        take SidechainDiscoveryMaxFiles
          (map fst (filter (\<lambda>(path, e). \<not> weIsDir e \<and> HasSuffix path ''.jsonl'' \<and> Base (Dir path) = ''subagents'' \<and>
                                        \<not> weModTime e < now - SidechainDiscoveryWindow \<and>
                                        \<not> weSize e > SidechainTranscriptMaxBytes)
             (fsWalk fs (PathJoin [fsHome fs, ''.claude'', ''projects''])))))"

definition fileTooLarge :: "SideFS \<Rightarrow> string \<Rightarrow> bool" where
  "fileTooLarge fs path = (case fsSize fs path of None \<Rightarrow> True | Some n \<Rightarrow> n > SidechainTranscriptMaxBytes)"

definition hasTranscriptSubagents :: "SideFS \<Rightarrow> string \<Rightarrow> bool" where
  "hasTranscriptSubagents fs path =
     (jsonlFiles fs (PathJoin [TrimSuffix (Clean path) ''.jsonl'', ''subagents'']) \<noteq> [])"

definition readSidechainMeta :: "SideFS \<Rightarrow> string \<Rightarrow> claudeSidechainMeta" where
  "readSidechainMeta fs path =
     (let metaPath = TrimSuffix (Clean path) ''.jsonl'' @ ''.meta.json''
      in if \<not> withinClaudeProjectsRoot fs metaPath then noMeta
         else case decodeMeta fs metaPath of
                None \<Rightarrow> noMeta
              | Some meta \<Rightarrow> \<lparr>mtAgentType = TrimSpace (mtAgentType meta), mtDescription = TrimSpace (mtDescription meta),
                              mtToolUseID = TrimSpace (mtToolUseID meta)\<rparr>)"

section \<open>Rows and blocks\<close>

definition claudeContentBlocks :: "SideFS \<Rightarrow> string \<Rightarrow> claudeContentBlock list" where
  "claudeContentBlocks fs raw =
     (if raw = [] then [] else case decodeBlocks fs raw of Some blocks \<Rightarrow> blocks | None \<Rightarrow> [])"

definition valueAsString :: "json \<Rightarrow> string" where
  "valueAsString v = (case v of JStr s \<Rightarrow> TrimSpace s | _ \<Rightarrow> TrimSpace (Sprint v))"

definition stringMapValue :: "jobject option \<Rightarrow> string \<Rightarrow> string" where
  "stringMapValue m key =
     (case m of None \<Rightarrow> [] | Some kvs \<Rightarrow> (case mget kvs key of None \<Rightarrow> [] | Some v \<Rightarrow> TrimSpace (valueAsString v)))"

definition truncateAgentName :: "string \<Rightarrow> string" where
  "truncateAgentName name0 =
     (let name = Join (Fields name0) '' '' in if length name \<le> 80 then name else take 77 name @ ''...'')"

text \<open>The loop of \<open>extractPromptScope\<close> over the lines after the marker.\<close>

fun scope_parts :: "string list \<Rightarrow> string list \<Rightarrow> string list" where
  "scope_parts [] parts = parts"
| "scope_parts (raw # lines) parts =
     (let line = TrimSpace raw
      in if \<not> HasPrefix line ''- '' then scope_parts lines parts
         else
           let item = TrimSpace (TrimPrefix line ''- '')
           in if \<not> HasPrefix item ''src/pages/'' then (if parts \<noteq> [] then parts else scope_parts lines parts)
              else
                let page = TrimSuffix (TrimPrefix item ''src/pages/'') ''.tsx'';
                    parts' = (if page \<noteq> [] \<and> \<not> Contains (ToLower page) ''shared files'' then parts @ [page] else parts)
                in if length parts' \<ge> 4 then parts' else scope_parts lines parts')"

fun str_index :: "string \<Rightarrow> string \<Rightarrow> nat option" where
  "str_index [] pat = (if pat = [] then Some 0 else None)"
| "str_index (c # s) pat = (if HasPrefix (c # s) pat then Some 0 else map_option Suc (str_index s pat))"

definition extractPromptScope :: "string \<Rightarrow> string" where
  "extractPromptScope prompt =
     (case str_index (ToUpper prompt) ''YOUR SCOPE'' of
        None \<Rightarrow> []
      | Some idx \<Rightarrow>
          let parts = scope_parts (Split (drop idx prompt) [CHR 0x0A]) []
          in if parts = [] then [] else ''QA '' @ Join parts ''/'')"

definition sidechainScopeFromPrompt :: "SideFS \<Rightarrow> string \<Rightarrow> string" where
  "sidechainScopeFromPrompt fs raw =
     (case decodePrompt fs raw of
        None \<Rightarrow> []
      | Some prompt0 \<Rightarrow>
          let prompt = TrimSpace prompt0; lines = Split prompt [CHR 0x0A]
          in if prompt = [] then []
             else if extractPromptScope prompt \<noteq> [] then extractPromptScope prompt
             else case find (\<lambda>line. HasPrefix line ''- src/'' \<or> Contains line ''Route'' \<or> Contains line ''Artboard'')
                         (map TrimSpace lines) of
                    Some line \<Rightarrow> truncateAgentName line
                  | None \<Rightarrow> truncateAgentName (hd lines))"

definition sidechainAgentName :: "SideFS \<Rightarrow> claudeTranscriptLine \<Rightarrow> string \<Rightarrow> string" where
  "sidechainAgentName fs row path =
     (let name = sidechainScopeFromPrompt fs (rowContent row)
      in if name \<noteq> [] then name
         else if rowAgentID row \<noteq> [] then ''Claude subagent '' @ rowAgentID row
         else ''Claude subagent '' @ TrimPrefix (TrimSuffix (Base path) ''.jsonl'') ''agent-'')"

definition sidechainEventKey :: "string \<Rightarrow> claudeTranscriptLine \<Rightarrow> claudeContentBlock \<Rightarrow> string" where
  "sidechainEventKey path row block =
     (let parts = [Clean path, TrimSpace (rowAgentID row)]
      in if TrimSpace (blID block) \<noteq> [] then Join (parts @ [TrimSpace (blID block)]) ''|''
         else if TrimSpace (rowUUID row) \<noteq> [] then Join (parts @ [TrimSpace (rowUUID row), TrimSpace (blName block)]) ''|''
         else [])"

definition sidechainEventTime :: "SideFS \<Rightarrow> time \<Rightarrow> string \<Rightarrow> time \<Rightarrow> time" where
  "sidechainEventTime fs clk value0 fallback =
     (let v = TrimSpace value0; f = (if IsZero fallback then clk else fallback)
      in if v \<noteq> [] then (case timeParse fs v of Some ts \<Rightarrow> ts | None \<Rightarrow> f) else f)"

definition transcriptSessionID :: "string \<Rightarrow> string" where
  "transcriptSessionID path =
     (let clean = Clean path;
          sessionBase = Base (Dir (Dir clean));
          base = TrimSuffix (Base clean) ''.jsonl'';
          plain = (if HasPrefix base ''agent-'' then TrimPrefix base ''agent-'' else base)
      in if Base (Dir clean) = ''subagents'' \<and> sessionBase \<noteq> ''.'' \<and> sessionBase \<noteq> ''/''
         then TrimSuffix sessionBase ''.jsonl'' else plain)"

fun first_target :: "jobject option \<Rightarrow> string list \<Rightarrow> string" where
  "first_target m [] = []"
| "first_target m (key # keys) = (if stringMapValue m key \<noteq> [] then stringMapValue m key else first_target m keys)"

definition sidechainToolTarget :: "claudeContentBlock \<Rightarrow> string" where
  "sidechainToolTarget block = first_target (blInput block)
     [''file_path'', ''filepath'', ''path'', ''filename'', ''url'', ''command'', ''pattern'', ''query'']"

definition toolUseIDOrFallback :: "string \<Rightarrow> string \<Rightarrow> string" where
  "toolUseIDOrFallback toolUseID fallback =
     (if TrimSpace toolUseID \<noteq> [] then TrimSpace toolUseID else ''sidechain_'' @ agentIDComponent fallback)"

definition sidechainToolSemantic ::
    "SideFS \<Rightarrow> time \<Rightarrow> string \<Rightarrow> claudeTranscriptLine \<Rightarrow> claudeContentBlock \<Rightarrow> AgentInfo \<Rightarrow> string \<Rightarrow> time \<Rightarrow>
       subagentRegistry \<Rightarrow> SemanticEvent option" where
  "sidechainToolSemantic fs clk path row block agent0 parentAgentID now m =
     (let tool = TrimSpace (blName block);
          toolUseID = TrimSpace (blID block);
          eventKey = sidechainEventKey path row block
      in if \<not> EqualFold (TrimSpace (blType block)) ''tool_use'' then None
         else if tool = [] then None
         else if eventKey = [] then None
         else
           let agent = (if aParentAgentID agent0 = [] then agent0\<lparr>aParentAgentID := parentAgentID\<rparr> else agent0);
               target = sidechainToolTarget block;
               command = (if EqualFold tool ''Bash'' then stringMapValue (blInput block) ''command'' else []);
               cwd = (if cleanCWD (rowCWD row) = [] then aCwd agent else cleanCWD (rowCWD row));
               pid = (if firstPositive [aPID agent] = 0 then parentPIDLocked m parentAgentID else firstPositive [aPID agent])
           in Some \<lparr>sSchema = SchemaSemanticV0, sTS = sidechainEventTime fs clk (rowTimestamp row) now, sAgent = agent,
                sSession = \<lparr>sessID = transcriptSessionID path\<rparr>, sEvent = ''SubagentToolUse'', sTool = tool, sTarget = target,
                sCWD = cwd, sPID = pid, sPPID = 0,
                sTags = Some ([''claude_sidechain'', ''subagent_activity''] @ (if HasPrefix tool ''mcp__'' then [''mcp_tool_use''] else [])),
                sDestinationIntents = Some (Extract (urlParse fs) tool target command (blInput block)),
                sToolUseID = toolUseIDOrFallback toolUseID eventKey,
                sInputSummary = Some [(''source'', JStr ''claude_sidechain''), (''row'', JStr (rowUUID row))],
                sOutputSummary = None, sRawRef = path\<rparr>)"

section \<open>Indexing\<close>

text \<open>A scanner stops at the first line that does not fit its buffer, and drops the carriage return of
  each line.\<close>

definition scan_lines :: "nat \<Rightarrow> string list \<Rightarrow> string list" where
  "scan_lines limit lines = map (\<lambda>l. TrimSuffix l [CHR 0x0D]) (takeWhile (\<lambda>l. length l < limit) lines)"

definition SidechainCWDMaxLine :: nat where "SidechainCWDMaxLine = 1024 * 1024"

definition firstSidechainCWD :: "SideFS \<Rightarrow> string \<Rightarrow> string" where
  "firstSidechainCWD fs path =
     (case fsLines fs path of
        None \<Rightarrow> []
      | Some lines \<Rightarrow>
          if fileTooLarge fs path then []
          else case find (\<lambda>c. c \<noteq> [])
                      (map (\<lambda>row. cleanCWD (rowCWD row)) (List.map_filter (decodeRow fs) (scan_lines SidechainCWDMaxLine lines))) of
                 Some cwd \<Rightarrow> cwd
               | None \<Rightarrow> [])"

text \<open>One content block of a sub-agent's row, and one of a launching row.\<close>

definition indexSidechainBlock ::
    "SideFS \<Rightarrow> time \<Rightarrow> string \<Rightarrow> claudeTranscriptLine \<Rightarrow> AgentInfo \<Rightarrow> string \<Rightarrow> time \<Rightarrow> claudeContentBlock \<Rightarrow>
       subagentRegistry \<times> subagentEvents \<Rightarrow> subagentRegistry \<times> subagentEvents" where
  "indexSidechainBlock fs clk path row agent parentAgentID now block = (\<lambda>(m, e).
     let toolUseID = TrimSpace (blID block);
         m1 = (if toolUseID \<noteq> [] then rememberToolUseAgentLocked toolUseID (aID agent) m else m)
     in (m1, if aPID agent > 0
             then (case sidechainToolSemantic fs clk path row block agent parentAgentID now m1 of
                     Some semantic \<Rightarrow> e\<lparr>semantics := semantics e @ [semantic]\<rparr>
                   | None \<Rightarrow> e)
             else e))"

definition indexLaunchBlock ::
    "string \<Rightarrow> time \<Rightarrow> claudeContentBlock \<Rightarrow> subagentRegistry \<times> subagentEvents \<Rightarrow> subagentRegistry \<times> subagentEvents" where
  "indexLaunchBlock parentAgentID now block = (\<lambda>(m, e).
     let toolUseID = TrimSpace (blID block)
     in if \<not> EqualFold (TrimSpace (blName block)) ''Agent'' then (m, e)
        else if toolUseID = [] then (m, e)
        else
          let described = stringMapValue (blInput block) ''description'';
              name = (if described = [] then ''Claude Code sub-agent'' else described);
              subagentType = stringMapValue (blInput block) ''subagent_type'';
              ((agent, isNew), m1) = registerTranscriptHookSubLocked toolUseID name subagentType [] parentAgentID now m
          in if isNew
             then (case shouldEmitSubagentLifecycleLocked agent m1 of
                     (emit, m2) \<Rightarrow> (m2, if emit then addLifecycle now agent e else e))
             else (m1, e))"

definition indexSidechainRow ::
    "SideFS \<Rightarrow> time \<Rightarrow> string \<Rightarrow> string \<Rightarrow> time \<Rightarrow> bool \<Rightarrow> claudeSidechainMeta \<Rightarrow> claudeTranscriptLine \<Rightarrow>
       subagentRegistry \<times> subagentEvents \<Rightarrow> subagentRegistry \<times> subagentEvents" where
  "indexSidechainRow fs clk path parentAgentID now emitExisting meta row = (\<lambda>(m, e).
     let name = (if TrimSpace (mtDescription meta) \<noteq> [] then TrimSpace (mtDescription meta) else sidechainAgentName fs row path);
         ((agent, isNew), m1) = registerTranscriptSubLocked (rowAgentID row) name (rowCWD row) ''claude_sidechain'' parentAgentID
                                  (mtToolUseID meta) (mtAgentType meta) now m;
         s2 = (if isNew \<or> emitExisting
               then (case shouldEmitSubagentLifecycleLocked agent m1 of
                       (emit, m2) \<Rightarrow> (m2, if emit then addLifecycle now agent e else e))
               else (m1, e))
     in fold (indexSidechainBlock fs clk path row agent parentAgentID now) (claudeContentBlocks fs (rowContent row)) s2)"

definition indexLine ::
    "SideFS \<Rightarrow> time \<Rightarrow> string \<Rightarrow> string \<Rightarrow> time \<Rightarrow> bool \<Rightarrow> bool \<Rightarrow> claudeSidechainMeta \<Rightarrow> string \<Rightarrow>
       subagentRegistry \<times> subagentEvents \<Rightarrow> subagentRegistry \<times> subagentEvents" where
  "indexLine fs clk path parentAgentID now emitExisting skipAgentToolSeeds meta line0 s =
     (let line = TrimSpace line0
      in if line = [] then s
         else case decodeRow fs line of
                None \<Rightarrow> s
              | Some row \<Rightarrow>
                  if rowIsSidechain row \<and> TrimSpace (rowAgentID row) \<noteq> []
                  then indexSidechainRow fs clk path parentAgentID now emitExisting meta row s
                  else if skipAgentToolSeeds then s
                  else fold (indexLaunchBlock parentAgentID now) (claudeContentBlocks fs (rowContent row)) s)"

definition indexClaudeTranscriptLocked ::
    "SideFS \<Rightarrow> time \<Rightarrow> string \<Rightarrow> string \<Rightarrow> time \<Rightarrow> bool \<Rightarrow> subagentRegistry \<Rightarrow> subagentRegistry \<times> subagentEvents" where
  "indexClaudeTranscriptLocked fs clk path parentAgentID now emitExisting m =
     (if \<not> withinClaudeProjectsRoot fs path then (m, noEvents)
      else case fsLines fs path of
             None \<Rightarrow> (m, noEvents)
           | Some lines \<Rightarrow>
               if fileTooLarge fs path then (m, noEvents)
               else fold (indexLine fs clk path parentAgentID now emitExisting (hasTranscriptSubagents fs path) (readSidechainMeta fs path))
                      (scan_lines (nat SidechainTranscriptMaxBytes) lines) (m, noEvents))"

record sidechainState =
  ssIndexer :: sidechainIndexer
  ssRegistry :: subagentRegistry
  ssEvents :: subagentEvents

definition indexInto :: "SideFS \<Rightarrow> time \<Rightarrow> string \<Rightarrow> string \<Rightarrow> time \<Rightarrow> bool \<Rightarrow> sidechainState \<Rightarrow> sidechainState" where
  "indexInto fs clk path parentAgentID now emitExisting s =
     (let (m, e) = indexClaudeTranscriptLocked fs clk path parentAgentID now emitExisting (ssRegistry s)
      in s\<lparr>ssRegistry := m, ssEvents := appendEvents (ssEvents s) e\<rparr>)"

text \<open>A size of 0 is what the map yields for a transcript never seen.\<close>

definition seedCandidate :: "SideFS \<Rightarrow> time \<Rightarrow> string \<Rightarrow> time \<Rightarrow> string \<Rightarrow> sidechainState \<Rightarrow> sidechainState" where
  "seedCandidate fs clk parentAgentID now candidate s =
     (if candidate = [] then s
      else if \<not> withinClaudeProjectsRoot fs candidate then s
      else case fsSize fs candidate of
             None \<Rightarrow> s
           | Some sz \<Rightarrow>
               let sizes = transcriptSizes (ssIndexer s)
               in if (case mget sizes candidate of Some n \<Rightarrow> n | None \<Rightarrow> 0) = sz then s
                  else indexInto fs clk candidate parentAgentID now False
                         (s\<lparr>ssIndexer := (ssIndexer s)\<lparr>transcriptSizes := mput candidate sz sizes\<rparr>\<rparr>))"

definition seedReferencedLocked ::
    "SideFS \<Rightarrow> time \<Rightarrow> SemanticEvent \<Rightarrow> string \<Rightarrow> time \<Rightarrow> sidechainIndexer \<Rightarrow> subagentRegistry \<Rightarrow> sidechainState" where
  "seedReferencedLocked fs clk se parentAgentID now x m =
     (let path = TrimSpace (sRawRef se); s = \<lparr>ssIndexer = x, ssRegistry = m, ssEvents = noEvents\<rparr>
      in if path = [] then s
         else fold (seedCandidate fs clk parentAgentID now) (transcriptSeedCandidates fs path) s)"

definition discoverPath :: "SideFS \<Rightarrow> time \<Rightarrow> time \<Rightarrow> string \<Rightarrow> sidechainState \<Rightarrow> sidechainState" where
  "discoverPath fs clk now path s =
     (let cwd = firstSidechainCWD fs path
      in if cwd = [] then s
         else let parentAgentID = parentAgentIDForCWDLocked (ssRegistry s) cwd
              in if parentAgentID = [] then s else indexInto fs clk path parentAgentID now True s)"

definition discoverRecentLocked ::
    "SideFS \<Rightarrow> time \<Rightarrow> time \<Rightarrow> sidechainIndexer \<Rightarrow> subagentRegistry \<Rightarrow> sidechainState" where
  "discoverRecentLocked fs clk now x m =
     (let s = \<lparr>ssIndexer = x, ssRegistry = m, ssEvents = noEvents\<rparr>
      in if fsDisableDiscovery fs then s
         else if \<not> IsZero (scanned x) \<and> time_sub now (scanned x) < SidechainDiscoveryInterval then s
         else fold (discoverPath fs clk now) (recentClaudeSidechainPaths fs now) (s\<lparr>ssIndexer := x\<lparr>scanned := now\<rparr>\<rparr>))"

section \<open>Reads stay below the projects directory\<close>

text \<open>The specification: the resolved path is the resolved projects directory or its elements extend those of
  the directory.\<close>

definition below :: "string \<Rightarrow> string \<Rightarrow> bool" where
  "below dir p \<longleftrightarrow> Clean dir = Clean p \<or>
     (HasPrefix dir ''/'' = HasPrefix p ''/'' \<and> take (length (path_elems dir)) (path_elems p) = path_elems dir)"

definition resolves_below :: "SideFS \<Rightarrow> string \<Rightarrow> bool" where
  "resolves_below fs p \<longleftrightarrow>
     (case (EvalSymlinks fs (claudeProjectsRoot fs), EvalSymlinks fs p) of
        (Some dir, Some resolved) \<Rightarrow> below dir resolved
      | _ \<Rightarrow> False)"

lemma within_below: "withinClaudeProjectsRoot fs path \<Longrightarrow> resolves_below fs path"
  using Rel_below by (fastforce simp: withinClaudeProjectsRoot_def resolves_below_def below_def Let_def split: if_splits option.splits)

text \<open>The same file system with other contents in some files.\<close>

definition refile :: "(string \<Rightarrow> string list option) \<Rightarrow> (string \<Rightarrow> claudeSidechainMeta option) \<Rightarrow> SideFS \<Rightarrow> SideFS" where
  "refile f g fs = fs\<lparr>fsLines := f, decodeMeta := g\<rparr>"

lemma refile_fields [simp]:
  "fsHome (refile f g fs) = fsHome fs" "EvalSymlinks (refile f g fs) = EvalSymlinks fs"
  "fsDisableDiscovery (refile f g fs) = fsDisableDiscovery fs" "fsSize (refile f g fs) = fsSize fs"
  "fsReadDir (refile f g fs) = fsReadDir fs" "fsWalk (refile f g fs) = fsWalk fs" "fsLines (refile f g fs) = f"
  "decodeRow (refile f g fs) = decodeRow fs" "decodeBlocks (refile f g fs) = decodeBlocks fs"
  "decodePrompt (refile f g fs) = decodePrompt fs" "decodeMeta (refile f g fs) = g"
  "timeParse (refile f g fs) = timeParse fs" "urlParse (refile f g fs) = urlParse fs"
  by (simp_all add: refile_def)

lemma refile_root [simp]: "claudeProjectsRoot (refile f g fs) = claudeProjectsRoot fs"
  unfolding claudeProjectsRoot_def refile_fields ..

lemma refile_within [simp]: "withinClaudeProjectsRoot (refile f g fs) = withinClaudeProjectsRoot fs"
  unfolding fun_eq_iff withinClaudeProjectsRoot_def refile_fields refile_root by simp

lemma refile_jsonl [simp]: "jsonlFiles (refile f g fs) = jsonlFiles fs" "fileTooLarge (refile f g fs) = fileTooLarge fs"
  unfolding fun_eq_iff jsonlFiles_def fileTooLarge_def refile_fields by simp_all

lemmas refile_eqs = refile_fields refile_root refile_within refile_jsonl

lemma refile_candidates [simp]:
  "hasTranscriptSubagents (refile f g fs) = hasTranscriptSubagents fs"
  "transcriptSeedCandidates (refile f g fs) = transcriptSeedCandidates fs"
  "recentClaudeSidechainPaths (refile f g fs) = recentClaudeSidechainPaths fs"
  unfolding fun_eq_iff hasTranscriptSubagents_def transcriptSeedCandidates_def recentClaudeSidechainPaths_def refile_eqs
  by (rule allI, rule refl)+

lemma refile_rows [simp]:
  "claudeContentBlocks (refile f g fs) = claudeContentBlocks fs"
  "sidechainAgentName (refile f g fs) = sidechainAgentName fs"
  "sidechainToolSemantic (refile f g fs) = sidechainToolSemantic fs"
  unfolding fun_eq_iff claudeContentBlocks_def sidechainAgentName_def sidechainScopeFromPrompt_def
    sidechainToolSemantic_def sidechainEventTime_def refile_eqs
  by (intro allI refl)+

lemma refile_indexLine [simp]: "indexLine (refile f g fs) = indexLine fs"
proof -
  have b: "indexSidechainBlock (refile f g fs) = indexSidechainBlock fs"
    unfolding fun_eq_iff indexSidechainBlock_def refile_rows by (intro allI refl)
  have r: "indexSidechainRow (refile f g fs) = indexSidechainRow fs"
    unfolding fun_eq_iff indexSidechainRow_def refile_rows b by (intro allI refl)
  show ?thesis unfolding fun_eq_iff indexLine_def refile_rows refile_eqs r by (intro allI refl)
qed

lemma refile_indexInto:
  assumes "\<And>p. resolves_below fs p \<Longrightarrow> f p = fsLines fs p \<and> g p = decodeMeta fs p"
  shows "indexInto (refile f g fs) = indexInto fs"
proof -
  have lines: "withinClaudeProjectsRoot fs p \<Longrightarrow> f p = fsLines fs p"
    and "withinClaudeProjectsRoot fs p \<Longrightarrow> g p = decodeMeta fs p" for p
    using assms within_below by blast+
  then have meta: "readSidechainMeta (refile f g fs) = readSidechainMeta fs"
    by (simp add: fun_eq_iff readSidechainMeta_def Let_def)
  have "indexClaudeTranscriptLocked (refile f g fs) clk p parent now b m = indexClaudeTranscriptLocked fs clk p parent now b m"
    for clk p parent now b m
    unfolding indexClaudeTranscriptLocked_def meta refile_indexLine refile_candidates refile_eqs using lines [of p] by simp
  then show ?thesis unfolding fun_eq_iff indexInto_def by simp
qed

lemma indexInto_outside: "\<not> withinClaudeProjectsRoot fs p \<Longrightarrow> indexInto fs clk p parent now b s = s"
  by (simp add: indexInto_def indexClaudeTranscriptLocked_def noEvents_def appendEvents_def)

lemma refile_discoverPath:
  assumes "\<And>p. resolves_below fs p \<Longrightarrow> f p = fsLines fs p \<and> g p = decodeMeta fs p"
  shows "discoverPath (refile f g fs) clk now = discoverPath fs clk now"
proof -
  have into: "indexInto (refile f g fs) = indexInto fs" by (rule refile_indexInto) (rule assms)
  have "discoverPath (refile f g fs) clk now p s = discoverPath fs clk now p s" for p s
  proof (cases "withinClaudeProjectsRoot fs p")
    case True
    then have "f p = fsLines fs p" using assms within_below by blast
    then show ?thesis unfolding discoverPath_def firstSidechainCWD_def into refile_eqs by simp
  next
    case False
    then show ?thesis by (simp add: discoverPath_def indexInto_outside into Let_def)
  qed
  then show ?thesis by (simp add: fun_eq_iff)
qed

lemma refile_seed:
  assumes "\<And>p. resolves_below fs p \<Longrightarrow> f p = fsLines fs p \<and> g p = decodeMeta fs p"
  shows "seedReferencedLocked (refile f g fs) = seedReferencedLocked fs"
proof -
  have into: "indexInto (refile f g fs) = indexInto fs" by (rule refile_indexInto) (rule assms)
  have seed: "seedCandidate (refile f g fs) = seedCandidate fs"
    unfolding fun_eq_iff seedCandidate_def into refile_eqs by (intro allI refl)
  show ?thesis unfolding fun_eq_iff seedReferencedLocked_def refile_candidates seed by (intro allI refl)
qed

lemma refile_discover:
  assumes "\<And>p. resolves_below fs p \<Longrightarrow> f p = fsLines fs p \<and> g p = decodeMeta fs p"
  shows "discoverRecentLocked (refile f g fs) = discoverRecentLocked fs"
proof -
  have path: "discoverPath (refile f g fs) clk now = discoverPath fs clk now" for clk now
    by (rule refile_discoverPath) (rule assms)
  show ?thesis unfolding fun_eq_iff discoverRecentLocked_def refile_candidates refile_eqs path by (intro allI refl)
qed

section \<open>The registry stays well-formed\<close>

lemma wf_indexSidechainBlocks:
  assumes "wf_registry m" "aID agent \<noteq> [] \<Longrightarrow> mget (agents m) (aID agent) = Some agent"
  shows "wf_registry (fst (fold (indexSidechainBlock fs clk path row agent parent now) blocks (m, e)))"
  using assms
proof (induction blocks arbitrary: m e)
  case (Cons b bs)
  have "wf_registry (fst (indexSidechainBlock fs clk path row agent parent now b (m, e)))"
    "agents (fst (indexSidechainBlock fs clk path row agent parent now b (m, e))) = agents m"
    using Cons.prems by (auto simp: indexSidechainBlock_def Let_def wf_rememberToolUse)
  then show ?case
    using Cons.IH [of "fst (indexSidechainBlock fs clk path row agent parent now b (m, e))"] Cons.prems(2)
    by (cases "indexSidechainBlock fs clk path row agent parent now b (m, e)") simp
qed simp

lemma wf_indexSidechainRow:
  assumes "wf_registry (fst s)"
  shows "wf_registry (fst (indexSidechainRow fs clk path parent now emit meta row s))"
proof -
  obtain m e where s: "s = (m, e)" by fastforce
  obtain name a isNew m1 where r: "registerTranscriptSubLocked (rowAgentID row) name (rowCWD row) ''claude_sidechain'' parent
        (mtToolUseID meta) (mtAgentType meta) now m = ((a, isNew), m1)"
    and name: "name = (if TrimSpace (mtDescription meta) \<noteq> [] then TrimSpace (mtDescription meta) else sidechainAgentName fs row path)"
    by (metis surj_pair)
  obtain em m2 where e: "shouldEmitSubagentLifecycleLocked a m1 = (em, m2)" by fastforce
  have m1: "wf_registry m1" "aID a \<noteq> [] \<longrightarrow> mget (agents m1) (aID a) = Some a"
    using wf_registerTranscriptSub [OF _ r] assms s by auto
  have m2: "wf_registry m2" "agents m2 = agents m1"
    using wf_shouldEmit [OF m1(1) e] m1 e shouldEmit_once(3) [OF e]
    by (auto simp: shouldEmitSubagentLifecycleLocked_def split: if_splits)
  show ?thesis
    using m1 m2 r e unfolding s indexSidechainRow_def name by (auto simp: Let_def intro!: wf_indexSidechainBlocks)
qed

lemma wf_indexLaunchBlock:
  assumes "wf_registry (fst s)"
  shows "wf_registry (fst (indexLaunchBlock parent now block s))"
proof -
  obtain m e where s: "s = (m, e)" by fastforce
  let ?d = "stringMapValue (blInput block) ''description''"
  obtain a isNew m1 where r: "registerTranscriptHookSubLocked (TrimSpace (blID block)) (if ?d = [] then ''Claude Code sub-agent'' else ?d)
        (stringMapValue (blInput block) ''subagent_type'') [] parent now m = ((a, isNew), m1)"
    by (metis surj_pair)
  obtain em m2 where e: "shouldEmitSubagentLifecycleLocked a m1 = (em, m2)" by fastforce
  have m1: "wf_registry m1" "aID a \<noteq> [] \<longrightarrow> mget (agents m1) (aID a) = Some a"
    using wf_registerTranscriptHookSub [OF _ r] assms s by auto
  then have "wf_registry m2"
    using wf_shouldEmit [OF m1(1) e] e by (auto simp: shouldEmitSubagentLifecycleLocked_def split: if_splits)
  then show ?thesis using m1 assms r e unfolding s indexLaunchBlock_def by (simp add: Let_def)
qed

lemma wf_fold:
  assumes "\<And>x s. P s \<Longrightarrow> P (f x s)" "P s"
  shows "P (fold f xs s)"
  using assms(2) by (induction xs arbitrary: s) (auto intro: assms(1))

lemma wf_indexLine:
  assumes "wf_registry (fst s)"
  shows "wf_registry (fst (indexLine fs clk path parent now emit skip meta line s))"
proof -
  have "wf_registry (fst (fold (indexLaunchBlock parent now) bs s))" for bs
    using wf_fold [of "\<lambda>s. wf_registry (fst s)" "indexLaunchBlock parent now"] wf_indexLaunchBlock assms by blast
  then show ?thesis using assms by (simp add: indexLine_def Let_def wf_indexSidechainRow split: option.split)
qed

lemma wf_indexTranscript:
  assumes "wf_registry m"
  shows "wf_registry (fst (indexClaudeTranscriptLocked fs clk path parent now emit m))"
proof -
  have "wf_registry (fst (fold (indexLine fs clk path parent now emit skip meta) ls (m, noEvents)))" for skip meta ls
    using assms by (intro wf_fold [of "\<lambda>s. wf_registry (fst s)"] wf_indexLine) auto
  then show ?thesis using assms by (simp add: indexClaudeTranscriptLocked_def split: option.split)
qed

lemma wf_indexInto: "wf_registry (ssRegistry s) \<Longrightarrow> wf_registry (ssRegistry (indexInto fs clk p parent now b s))"
  using wf_indexTranscript [of "ssRegistry s" fs clk p parent now b] by (auto simp: indexInto_def split: prod.split)

lemma wf_seedReferenced: "wf_registry m \<Longrightarrow> wf_registry (ssRegistry (seedReferencedLocked fs clk se parent now x m))"
  unfolding seedReferencedLocked_def Let_def
  by (auto intro!: wf_fold [where P = "\<lambda>s. wf_registry (ssRegistry s)"] simp: seedCandidate_def wf_indexInto Let_def split: option.split)

lemma wf_discoverRecent: "wf_registry m \<Longrightarrow> wf_registry (ssRegistry (discoverRecentLocked fs clk now x m))"
  unfolding discoverRecentLocked_def Let_def
  by (auto intro!: wf_fold [where P = "\<lambda>s. wf_registry (ssRegistry s)"] simp: discoverPath_def wf_indexInto Let_def)

section \<open>Properties\<close>

text \<open>C12. A transcript path supplied by a hook cannot make the daemon take in a file outside the Claude
  projects directory: indexing a referenced path and the periodic discovery give the same registry, the same
  remembered sizes and the same events whatever the files that do not resolve to a place below the resolved
  projects directory contain, symbolic links included.\<close>

theorem sidechain_reads_confined:
  assumes "\<And>p. resolves_below fs p \<Longrightarrow> f p = fsLines fs p \<and> g p = decodeMeta fs p"
  shows "seedReferencedLocked (refile f g fs) clk se parent now x m = seedReferencedLocked fs clk se parent now x m \<and>
         discoverRecentLocked (refile f g fs) clk now x m = discoverRecentLocked fs clk now x m"
proof -
  have "seedReferencedLocked (refile f g fs) = seedReferencedLocked fs" by (rule refile_seed) (rule assms)
  moreover have "discoverRecentLocked (refile f g fs) = discoverRecentLocked fs" by (rule refile_discover) (rule assms)
  ultimately show ?thesis by simp
qed

definition exampleFS :: SideFS where
  "exampleFS = \<lparr>fsHome = ''/h'', fsDisableDiscovery = False, EvalSymlinks = Some, fsSize = (\<lambda>p. Some 9), fsReadDir = (\<lambda>p. None),
     fsLines = (\<lambda>p. None), fsWalk = (\<lambda>p. []), decodeRow = (\<lambda>l. None), decodeBlocks = (\<lambda>r. None),
     decodePrompt = (\<lambda>r. None), decodeMeta = (\<lambda>p. None), timeParse = (\<lambda>v. None), urlParse = (\<lambda>v. None)\<rparr>"

lemma example_outside: "\<not> resolves_below exampleFS ''/etc/x.jsonl''" "resolves_below exampleFS ''/h/.claude/projects/x.jsonl''"
  by code_simp+

theorem sidechain_reads_confined_witness:
  "\<not> resolves_below exampleFS ''/etc/x.jsonl'' \<and>
   (let fs' = refile (\<lambda>p. if p = ''/etc/x.jsonl'' then Some [''secret''] else None) (\<lambda>p. None) exampleFS
    in \<forall>se. seedReferencedLocked fs' 1 se ''main_1'' 1 newSidechainIndexer newRegistry =
            seedReferencedLocked exampleFS 1 se ''main_1'' 1 newSidechainIndexer newRegistry)"
proof -
  have "(if p = ''/etc/x.jsonl'' then Some [''secret''] else None) = fsLines exampleFS p \<and> None = decodeMeta exampleFS p"
    if "resolves_below exampleFS p" for p
    using that example_outside(1) by (auto simp: exampleFS_def)
  note confined = sidechain_reads_confined [of exampleFS, OF this]
  show ?thesis unfolding Let_def using confined example_outside(1) by blast
qed

end
