(* ===== verification/Daemon_Monitor.thy ===== *)
theory Daemon_Monitor
  imports Daemon_Sidechain
begin

text \<open>
  \<open>cmd/daemon/subagent_monitor.go\<close>: the monitor that recognises Claude sub-agents from the process table, from
  hooks and from transcripts. Its parts are the detector (what was seen lately), the registry and the transcript
  indexer. A Go map of processes is an association list and a range over it takes the order of the list. The
  clock, the working directory of a process, \<open>json.Marshal\<close> and the file system are arguments; log lines are
  left out, the counter that rations them is kept.
\<close>

section \<open>State\<close>

record delegationHook =
  dhTS :: time
  dhPID :: int
  dhPPID :: int
  dhCWD :: string
  dhTool :: string
  dhPattern :: string

record sessionHook =
  shTS :: time
  shPID :: int
  shPPID :: int
  shCWD :: string
  shTool :: string
  shSessionID :: string
  shAgentID :: string

record claudeObservation =
  obTS :: time
  obPID :: int
  obPPID :: int
  obCWD :: string
  obCommand :: string

record subagentMonitor =
  dSeen :: "int list"
  dBaseline :: "int list"
  dRecent :: "delegationHook list"
  dSessions :: "sessionHook list"
  dClaudeRecent :: "claudeObservation list"
  dBurstLogCounts :: "(string, int) gomap"
  mRegistry :: subagentRegistry
  mSidechains :: sidechainIndexer

definition newSubagentMonitor :: subagentMonitor where
  "newSubagentMonitor = \<lparr>dSeen = [], dBaseline = [], dRecent = [], dSessions = [], dClaudeRecent = [], dBurstLogCounts = [],
     mRegistry = newRegistry, mSidechains = newSidechainIndexer\<rparr>"

definition SubagentDelegationWindow :: duration where [time_defs]: "SubagentDelegationWindow = 30 * Second"
definition SubagentSessionWindow :: duration where [time_defs]: "SubagentSessionWindow = 2 * Minute"
definition SubagentBurstWindow :: duration where [time_defs]: "SubagentBurstWindow = 15 * Second"
definition SubagentBurstThreshold :: nat where "SubagentBurstThreshold = 3"

definition addPID :: "int \<Rightarrow> int list \<Rightarrow> int list" where
  "addPID pid pids = (if pid \<in> set pids then pids else pids @ [pid])"

section \<open>Recognising events\<close>

definition isClaudeSemanticEvent :: "SemanticEvent \<Rightarrow> bool" where
  "isClaudeSemanticEvent se =
     (ToLower (TrimSpace (aID (sAgent se))) = ''claude'' \<or> Contains (ToLower (TrimSpace (aName (sAgent se)))) ''claude'')"

definition spawnMethod :: "string list \<Rightarrow> string" where
  "spawnMethod methods =
     (let joined = Join methods ''|''
      in if Contains joined ''tmux'' then ''tmux''
         else if Contains joined ''hook'' \<or> Contains joined ''session_cwd'' then ''tool''
         else if Contains joined ''claude_ancestor'' \<or> Contains joined ''burst'' then ''direct''
         else ''unknown'')"

definition delegationPatterns :: "string list" where
  "delegationPatterns =
     [''sub-agent'', ''sub agent'', ''new claude'', ''spawn claude'', ''another claude'', ''tmux'', ''claude '']"

definition summaryText :: "(jobject \<Rightarrow> string option) \<Rightarrow> jobject option \<Rightarrow> string list" where
  "summaryText marshal m =
     (case m of None \<Rightarrow> [] | Some [] \<Rightarrow> [] | Some kvs \<Rightarrow> (case marshal kvs of Some raw \<Rightarrow> [raw] | None \<Rightarrow> []))"

definition delegationPattern :: "(jobject \<Rightarrow> string option) \<Rightarrow> SemanticEvent \<Rightarrow> string" where
  "delegationPattern marshal se =
     (if sTool se = [] then []
      else
        let haystack = ToLower (Join ([sTool se, sTarget se] @ summaryText marshal (sInputSummary se) @
                                      summaryText marshal (sOutputSummary se)) '' '')
        in case find (Contains haystack) delegationPatterns of
             Some pattern \<Rightarrow> TrimSpace pattern
           | None \<Rightarrow> [])"

section \<open>Windows\<close>

definition pruneRecentLocked :: "time \<Rightarrow> subagentMonitor \<Rightarrow> subagentMonitor" where
  "pruneRecentLocked now m =
     m\<lparr>dRecent := filter (\<lambda>h. dhTS h > now - SubagentDelegationWindow) (dRecent m),
       dSessions := filter (\<lambda>h. shTS h > now - SubagentSessionWindow) (dSessions m),
       dClaudeRecent := filter (\<lambda>o1. obTS o1 > now - SubagentBurstWindow) (dClaudeRecent m)\<rparr>"

definition livePIDs :: "proc_table \<Rightarrow> int list" where
  "livePIDs processes = map fst (filter (\<lambda>(pid, proc). isClaudeCLIBinary (piName proc)) processes)"

definition pruneStateLocked :: "time \<Rightarrow> proc_table \<Rightarrow> time \<Rightarrow> subagentMonitor \<Rightarrow> subagentMonitor" where
  "pruneStateLocked clk processes now0 m =
     (let now = (if IsZero now0 then clk else now0); live = livePIDs processes
      in m\<lparr>dSeen := filter (\<lambda>pid. pid \<in> set live) (dSeen m),
           dBaseline := filter (\<lambda>pid. pid \<in> set live) (dBaseline m),
           mRegistry := pruneRegistry live now (mRegistry m)\<rparr>)"

definition sameCWD :: "string \<Rightarrow> string \<Rightarrow> bool" where
  "sameCWD cwd hookCWD = (\<not> (cwd \<noteq> [] \<and> hookCWD \<noteq> [] \<and> Clean cwd \<noteq> Clean hookCWD))"

definition matchRecentDelegationLocked :: "subagentMonitor \<Rightarrow> time \<Rightarrow> string \<Rightarrow> delegationHook option" where
  "matchRecentDelegationLocked m now cwd =
     find (\<lambda>h. \<not> time_sub now (dhTS h) > SubagentDelegationWindow \<and> sameCWD cwd (dhCWD h)) (rev (dRecent m))"

definition matchRecentSessionLocked :: "subagentMonitor \<Rightarrow> time \<Rightarrow> string \<Rightarrow> sessionHook option" where
  "matchRecentSessionLocked m now cwd =
     find (\<lambda>h. \<not> time_sub now (shTS h) > SubagentSessionWindow \<and> sameCWD cwd (shCWD h)) (rev (dSessions m))"

definition recentClaudeBurstLocked :: "subagentMonitor \<Rightarrow> time \<Rightarrow> string \<Rightarrow> int list" where
  "recentClaudeBurstLocked m now cwd0 =
     (let cwd = cleanCWD cwd0
      in if cwd = [] then []
         else map obPID (filter (\<lambda>o1. \<not> (obTS o1 < now - SubagentBurstWindow \<or> cleanCWD (obCWD o1) \<noteq> cwd)) (dClaudeRecent m)))"

definition logBurstLocked :: "string \<Rightarrow> nat \<Rightarrow> subagentMonitor \<Rightarrow> subagentMonitor" where
  "logBurstLocked cwd0 count m =
     (let cwd = cleanCWD cwd0;
          prev = (case mget (dBurstLogCounts m) cwd of Some n \<Rightarrow> n | None \<Rightarrow> 0)
      in if cwd = [] \<or> count < SubagentBurstThreshold then m
         else if prev \<noteq> 0 \<and> int count - prev < 10 then m
         else m\<lparr>dBurstLogCounts := mput cwd (int count) (dBurstLogCounts m)\<rparr>)"

section \<open>Operations\<close>

definition markBaselineStep :: "time \<Rightarrow> int \<times> ProcessInfo \<Rightarrow> subagentMonitor \<Rightarrow> subagentMonitor" where
  "markBaselineStep clk = (\<lambda>(pid, proc) m.
     if \<not> isClaudeCLIBinary (piName proc) then m
     else m\<lparr>dSeen := addPID pid (dSeen m), dBaseline := addPID pid (dBaseline m),
            mRegistry := snd (registerMainLocked pid [] clk (mRegistry m))\<rparr>)"

definition markBaseline :: "time \<Rightarrow> proc_table \<Rightarrow> subagentMonitor \<Rightarrow> subagentMonitor" where
  "markBaseline clk processes m = fold (markBaselineStep clk) processes m"

definition recordSemantic :: "(jobject \<Rightarrow> string option) \<Rightarrow> time \<Rightarrow> SemanticEvent \<Rightarrow> subagentMonitor \<Rightarrow> subagentMonitor" where
  "recordSemantic marshal clk se m =
     (let ts = (if IsZero (sTS se) then clk else sTS se);
          session = \<lparr>shTS = ts, shPID = sPID se, shPPID = sPPID se, shCWD = cleanCWD (sCWD se), shTool = sTool se,
                     shSessionID = sessID (sSession se), shAgentID = aID (sAgent se)\<rparr>;
          pattern = delegationPattern marshal se;
          hook = \<lparr>dhTS = ts, dhPID = sPID se, dhPPID = sPPID se, dhCWD = cleanCWD (sCWD se), dhTool = sTool se, dhPattern = pattern\<rparr>;
          m1 = (if isClaudeSemanticEvent se \<and> (shCWD session \<noteq> [] \<or> shPID session > 0 \<or> shSessionID session \<noteq> [])
                then m\<lparr>dSessions := dSessions m @ [session]\<rparr> else m)
      in if pattern = [] then pruneRecentLocked clk m1
         else pruneRecentLocked clk (m1\<lparr>dRecent := dRecent m1 @ [hook]\<rparr>))"

definition parentAgentIDLocked :: "subagentRegistry \<Rightarrow> proc_table \<Rightarrow> int \<Rightarrow> sessionHook option \<Rightarrow> string" where
  "parentAgentIDLocked r processes pid session =
     (let ancestorPID = registeredAncestorPID processes pid (pidToAgentID r)
      in if ancestorPID > 0 \<and> registeredName (pidToAgentID r) ancestorPID \<noteq> [] then registeredName (pidToAgentID r) ancestorPID
         else case session of
                Some s \<Rightarrow> if shAgentID s \<noteq> [] then shAgentID s else mainAgentID r
              | None \<Rightarrow> mainAgentID r)"

definition refreshMain :: "time \<Rightarrow> int \<Rightarrow> string \<Rightarrow> subagentRegistry \<Rightarrow> subagentRegistry" where
  "refreshMain now pid cwd r =
     (case agentForPIDLocked r pid of
        Some agent \<Rightarrow> if aType agent = ''main'' \<and> cwd \<noteq> [] then putAgent (agent\<lparr>aCwd := cwd, aLastSeen := now\<rparr>) r else r
      | None \<Rightarrow> r)"

definition spawnEvidence :: "proc_table \<Rightarrow> int \<Rightarrow> time \<Rightarrow> string \<Rightarrow> subagentMonitor \<Rightarrow> string list" where
  "spawnEvidence processes pid now cwd m =
     (let tmuxAncestor = hasProcessAncestor processes pid isTmuxProcess;
          claudeAncestor = hasProcessAncestor processes pid (\<lambda>parent. isClaudeCLIBinary (piName parent));
          hookMatch = (matchRecentDelegationLocked m now cwd \<noteq> None);
          session = matchRecentSessionLocked m now cwd;
          hookLineage = (case session of Some s \<Rightarrow> processHasAncestorPID processes pid [shPID s, shPPID s] | None \<Rightarrow> False);
          burstMatch = (length (recentClaudeBurstLocked m now cwd) \<ge> SubagentBurstThreshold)
      in (if tmuxAncestor then [''tmux''] else []) @ (if hookMatch then [''hook''] else []) @
         (if claudeAncestor then [''claude_ancestor''] else []) @ (if hookLineage then [''hook_lineage''] else []) @
         (if session \<noteq> None \<and> (claudeAncestor \<or> hookLineage \<or> burstMatch) then [''session_cwd''] else []) @
         (if burstMatch then [''burst''] else []))"

definition observeNew :: "proc_table \<Rightarrow> time \<Rightarrow> int \<Rightarrow> ProcessInfo \<Rightarrow> string \<Rightarrow> subagentMonitor \<Rightarrow> subagentMonitor \<times> subagentEvents" where
  "observeNew processes now pid proc cwd m0 =
     (let m1 = m0\<lparr>dSeen := addPID pid (dSeen m0),
            dClaudeRecent := dClaudeRecent m0 @ [\<lparr>obTS = now, obPID = pid, obPPID = piPPID proc, obCWD = cwd, obCommand = piName proc\<rparr>]\<rparr>;
          session = matchRecentSessionLocked m1 now cwd;
          burst = length (recentClaudeBurstLocked m1 now cwd);
          m2 = (if burst \<ge> SubagentBurstThreshold then logBurstLocked cwd burst m1 else m1);
          methods = spawnEvidence processes pid now cwd m2
      in if methods = [] then (m2, noEvents)
         else
           let parentAgentID = parentAgentIDLocked (mRegistry m2) processes pid session;
               ((agent, isNew), r1) = registerSubLocked pid cwd (spawnMethod methods) parentAgentID now (mRegistry m2)
           in if isNew
              then (case shouldEmitSubagentLifecycleLocked agent r1 of
                      (emit, r2) \<Rightarrow> (m2\<lparr>mRegistry := r2\<rparr>, if emit then addLifecycle now agent noEvents else noEvents))
              else (m2\<lparr>mRegistry := r1\<rparr>, noEvents))"

definition observeStep ::
    "proc_table \<Rightarrow> (int \<Rightarrow> string) \<Rightarrow> time \<Rightarrow> int \<times> ProcessInfo \<Rightarrow> subagentMonitor \<times> subagentEvents \<Rightarrow> subagentMonitor \<times> subagentEvents" where
  "observeStep processes cwdLookup now = (\<lambda>(pid, proc) (m, e).
     if \<not> isClaudeCLIBinary (piName proc) then (m, e)
     else
       let cwd = cleanCWD (cwdLookup pid);
           m1 = m\<lparr>mRegistry := refreshMain now pid cwd (mRegistry m)\<rparr>
       in if pid \<in> set (dSeen m1) then (m1, e)
          else case observeNew processes now pid proc cwd m1 of (m2, e2) \<Rightarrow> (m2, appendEvents e e2))"

definition observe ::
    "SideFS \<Rightarrow> proc_table \<Rightarrow> (int \<Rightarrow> string) \<Rightarrow> time \<Rightarrow> subagentMonitor \<Rightarrow> subagentMonitor \<times> subagentEvents" where
  "observe fs processes cwdLookup now m =
     (if processes = [] then (m, noEvents)
      else
        let (m1, e1) = fold (observeStep processes cwdLookup now) processes
                         (pruneStateLocked now processes now (pruneRecentLocked now m), noEvents);
            s = discoverRecentLocked fs now now (mSidechains m1) (mRegistry m1)
        in (m1\<lparr>mSidechains := ssIndexer s, mRegistry := ssRegistry s\<rparr>, appendEvents e1 (ssEvents s)))"

definition semanticParent :: "proc_table \<Rightarrow> SemanticEvent \<Rightarrow> time \<Rightarrow> subagentRegistry \<Rightarrow> (AgentInfo \<times> subagentRegistry) option" where
  "semanticParent processes se now r =
     (case agentForProcessLocked r processes [sPID se, sPPID se] of
        Some agent \<Rightarrow> Some (agent, r)
      | None \<Rightarrow>
          let pid = firstPositive [claudeAncestorPID processes (sPID se), claudeAncestorPID processes (sPPID se), sPPID se, sPID se]
          in if pid \<le> 0 then None else Some (registerMainLocked pid (cleanCWD (sCWD se)) now r))"

definition annotateSemantic ::
    "SideFS \<Rightarrow> time \<Rightarrow> SemanticEvent \<Rightarrow> proc_table \<Rightarrow> subagentMonitor \<Rightarrow> SemanticEvent \<times> subagentMonitor \<times> subagentEvents" where
  "annotateSemantic fs clk se processes m =
     (if \<not> isClaudeSemanticEvent se then (se, m, noEvents)
      else
        let now = (if IsZero (sTS se) then clk else sTS se)
        in case semanticParent processes se now (mRegistry m) of
             None \<Rightarrow> (se, m, noEvents)
           | Some (parent, r1) \<Rightarrow>
               let se1 = se\<lparr>sAgent := parent\<rparr>;
                   s = seedReferencedLocked fs clk se1 (aID parent) now (mSidechains m) r1;
                   m1 = m\<lparr>mSidechains := ssIndexer s\<rparr>
               in case transcriptInferredSubagentLocked se1 (aID parent) now (ssRegistry s) of
                    (Some (agent, shouldEmit), r2) \<Rightarrow>
                      (se1\<lparr>sAgent := agent\<rparr>, m1\<lparr>mRegistry := r2\<rparr>,
                       if shouldEmit then addLifecycle now agent (ssEvents s) else ssEvents s)
                  | (None, r2) \<Rightarrow>
                      (case hookInferredSubagentLocked se1 (aID parent) now r2 of
                         (None, r3) \<Rightarrow> (se1, m1\<lparr>mRegistry := r3\<rparr>, ssEvents s)
                       | (Some (agent, isNew), r3) \<Rightarrow>
                           if isNew
                           then (case shouldEmitSubagentLifecycleLocked agent r3 of
                                   (emit, r4) \<Rightarrow> (se1\<lparr>sAgent := agent\<rparr>, m1\<lparr>mRegistry := r4\<rparr>,
                                                if emit then addLifecycle now agent (ssEvents s) else ssEvents s))
                           else (se1\<lparr>sAgent := agent\<rparr>, m1\<lparr>mRegistry := r3\<rparr>, ssEvents s)))"

definition annotateNetwork ::
    "(int \<Rightarrow> string) \<Rightarrow> time \<Rightarrow> NetworkFlowEvent \<Rightarrow> proc_table \<Rightarrow> subagentMonitor \<Rightarrow> NetworkFlowEvent \<times> subagentMonitor" where
  "annotateNetwork cwdForPID clk nf processes m =
     (let now = (if IsZero (fTS nf) then clk else fTS nf)
      in case agentForProcessLocked (mRegistry m) processes [fPID nf, fPPID nf] of
           Some agent \<Rightarrow> (nf\<lparr>fAgent := Some agent\<rparr>, m)
         | None \<Rightarrow>
             if \<not> isClaudeCLIBinary (fProcessPath nf) then (nf, m)
             else
               let pid = firstPositive [fPID nf, fPPID nf]
               in if mhas (pidToAgentID (mRegistry m)) pid then (nf, m)
                  else case registerMainLocked pid (cleanCWD (cwdForPID pid)) now (mRegistry m) of
                         (agent, r) \<Rightarrow> (nf\<lparr>fAgent := Some agent\<rparr>, m\<lparr>mRegistry := r\<rparr>))"

section \<open>What an operation announces\<close>

text \<open>The identifiers of the agents an operation announces are exactly those it adds to the announced ones.\<close>

definition announced :: "subagentEvents \<Rightarrow> string list" where
  "announced e = map (\<lambda>l. aID (lAgent l)) (lifecycle e)"

definition real_subagent :: "AgentLifecycleEvent \<Rightarrow> bool" where
  "real_subagent l \<longleftrightarrow> aType (lAgent l) = ''sub'' \<and> 0 < aPID (lAgent l)"

definition announces :: "subagentRegistry \<Rightarrow> subagentEvents \<Rightarrow> subagentRegistry \<Rightarrow> subagentEvents \<Rightarrow> bool" where
  "announces m e m' e' \<longleftrightarrow>
     (\<exists>ls. emittedAgentIDs m' = emittedAgentIDs m @ map (\<lambda>l. aID (lAgent l)) ls \<and> lifecycle e' = lifecycle e @ ls \<and> list_all real_subagent ls)"

lemma lifecycle_simps [simp]:
  "lifecycle noEvents = []" "lifecycle (appendEvents e f) = lifecycle e @ lifecycle f"
  "lifecycle (addLifecycle now a e) = lifecycle e @ [newSubagentLifecycle now a]"
  "lAgent (newSubagentLifecycle now a) = a"
  by (simp_all add: noEvents_def appendEvents_def addLifecycle_def newSubagentLifecycle_def)

lemma announces_refl [simp]: "emittedAgentIDs m' = emittedAgentIDs m \<Longrightarrow> announces m e m' e"
  by (simp add: announces_def)

lemma announces_trans: "announces m e m' e' \<Longrightarrow> announces m' e' m'' e'' \<Longrightarrow> announces m e m'' e''"
  by (auto simp: announces_def)

lemma announces_from_none:
  "announces m noEvents m' e \<Longrightarrow> emittedAgentIDs m' = emittedAgentIDs m @ announced e \<and> list_all real_subagent (lifecycle e)"
  by (auto simp: announces_def announced_def)

lemma announces_append: "announces m noEvents m' e' \<Longrightarrow> announces m e m' (appendEvents e e')"
  by (auto simp: announces_def)

lemma emitted_bind [simp]:
  "emittedAgentIDs (putAgent a m) = emittedAgentIDs m" "emittedAgentIDs (bindPID p i m) = emittedAgentIDs m"
  "emittedAgentIDs (bindToolUse t i m) = emittedAgentIDs m" "emittedAgentIDs (bindHookPID se i m) = emittedAgentIDs m"
  "emittedAgentIDs (rememberToolUseAgentLocked t i m) = emittedAgentIDs m"
  by (simp_all add: putAgent_def bindPID_def bindToolUse_def bindHookPID_def rememberToolUseAgentLocked_def Let_def)

lemma emitted_registerMain: "registerMainLocked pid cwd now m = (a, m') \<Longrightarrow> emittedAgentIDs m' = emittedAgentIDs m"
  by (auto simp: registerMainLocked_def Let_def split: if_splits option.splits)

lemma emitted_registerSub: "registerSubLocked pid cwd s p now m = (an, m') \<Longrightarrow> emittedAgentIDs m' = emittedAgentIDs m"
  by (auto simp: registerSubLocked_def Let_def split: option.splits)

lemma emitted_registerTranscriptSub:
  "registerTranscriptSubLocked i n c s p l t now m = (an, m') \<Longrightarrow> emittedAgentIDs m' = emittedAgentIDs m"
  by (auto simp: registerTranscriptSubLocked_def Let_def split: if_splits option.splits)

lemma emitted_registerTranscriptHookSub:
  "registerTranscriptHookSubLocked tid n t c p now m = (an, m') \<Longrightarrow> emittedAgentIDs m' = emittedAgentIDs m"
  by (auto simp: registerTranscriptHookSubLocked_def Let_def split: if_splits option.splits)

lemma emitted_hookInferred: "hookInferredSubagentLocked se p now m = (r, m') \<Longrightarrow> emittedAgentIDs m' = emittedAgentIDs m"
  by (auto simp: hookInferredSubagentLocked_def Let_def split: if_splits option.splits)

text \<open>The pattern at every place that announces.\<close>

lemma announces_emit:
  "shouldEmitSubagentLifecycleLocked a m = (emit, m') \<Longrightarrow> announces m e m' (if emit then addLifecycle now a e else e)"
  by (auto simp: announces_def shouldEmitSubagentLifecycleLocked_def real_subagent_def split: if_splits)

lemma emitted_transcriptInferred:
  assumes "transcriptInferredSubagentLocked se p now m = (r, m')"
  shows "(case r of None \<Rightarrow> emittedAgentIDs m' = emittedAgentIDs m
          | Some (a, emit) \<Rightarrow> announces m e m' (if emit then addLifecycle now a e else e))"
proof (cases "knownToolUseAgent m (TrimSpace (sToolUseID se))")
  case (Some b)
  define a where "a = seenAgain now (sCWD se) (if sPID se > 0 then b\<lparr>aPID := sPID se\<rparr> else b)"
  define m1 where "m1 = bindHookPID se (aID a) (putAgent a m)"
  obtain emit m2 where s: "shouldEmitSubagentLifecycleLocked a m1 = (emit, m2)" by fastforce
  have "announces m e m1 e" by (simp add: m1_def)
  then have "announces m e m2 (if emit then addLifecycle now a e else e)"
    using announces_emit [OF s] by (rule announces_trans)
  then show ?thesis
    using assms Some s by (auto simp: transcriptInferredSubagentLocked_def Let_def a_def [symmetric] m1_def [symmetric] split: if_splits)
qed (use assms in \<open>auto simp: transcriptInferredSubagentLocked_def\<close>)

subsection \<open>Transcripts\<close>

lemma announces_fold:
  assumes "\<And>x s. announces (reg s) (ev s) (reg (f x s)) (ev (f x s))"
  shows "announces (reg s) (ev s) (reg (fold f xs s)) (ev (fold f xs s))"
proof (induction xs arbitrary: s)
  case (Cons x xs)
  then show ?case using announces_trans [OF assms [of s x]] by simp
qed simp

lemma announces_indexSidechainBlock:
  "announces (fst s) (snd s) (fst (indexSidechainBlock fs clk path row a parent now b s)) (snd (indexSidechainBlock fs clk path row a parent now b s))"
  by (cases s) (auto simp: indexSidechainBlock_def Let_def announces_def split: option.split)

lemma announces_indexSidechainRow:
  "announces (fst s) (snd s) (fst (indexSidechainRow fs clk path parent now emit meta row s)) (snd (indexSidechainRow fs clk path parent now emit meta row s))"
proof -
  obtain m e where s: "s = (m, e)" by fastforce
  obtain name a isNew m1 where r: "registerTranscriptSubLocked (rowAgentID row) name (rowCWD row) ''claude_sidechain'' parent
        (mtToolUseID meta) (mtAgentType meta) now m = ((a, isNew), m1)"
    and name: "name = (if TrimSpace (mtDescription meta) \<noteq> [] then TrimSpace (mtDescription meta) else sidechainAgentName fs row path)"
    by (metis surj_pair)
  obtain em m2 where e: "shouldEmitSubagentLifecycleLocked a m1 = (em, m2)" by fastforce
  define s2 where "s2 = (if isNew \<or> emit then (m2, if em then addLifecycle now a e else e) else (m1, e))"
  have "announces m e m1 e" using emitted_registerTranscriptSub [OF r] by simp
  then have "announces m e (fst s2) (snd s2)" using announces_trans [OF _ announces_emit [OF e]] by (simp add: s2_def)
  moreover have "indexSidechainRow fs clk path parent now emit meta row s =
      fold (indexSidechainBlock fs clk path row a parent now) (claudeContentBlocks fs (rowContent row)) s2"
    using r e unfolding s indexSidechainRow_def name s2_def by (simp add: Let_def)
  ultimately show ?thesis
    using announces_trans [OF _ announces_fold [of fst snd, OF announces_indexSidechainBlock]] unfolding s by simp
qed

lemma announces_indexLaunchBlock:
  "announces (fst s) (snd s) (fst (indexLaunchBlock parent now b s)) (snd (indexLaunchBlock parent now b s))"
proof -
  obtain m e where s: "s = (m, e)" by fastforce
  let ?d = "stringMapValue (blInput b) ''description''"
  obtain a isNew m1 where r: "registerTranscriptHookSubLocked (TrimSpace (blID b)) (if ?d = [] then ''Claude Code sub-agent'' else ?d)
        (stringMapValue (blInput b) ''subagent_type'') [] parent now m = ((a, isNew), m1)"
    by (metis surj_pair)
  obtain em m2 where e: "shouldEmitSubagentLifecycleLocked a m1 = (em, m2)" by fastforce
  have "announces m e m1 e" using emitted_registerTranscriptHookSub [OF r] by simp
  then show ?thesis
    using announces_trans [OF _ announces_emit [OF e]] r e unfolding s indexLaunchBlock_def by (simp add: Let_def)
qed

lemma announces_indexLine:
  "announces (fst s) (snd s) (fst (indexLine fs clk path parent now emit skip meta l s)) (snd (indexLine fs clk path parent now emit skip meta l s))"
  using announces_indexSidechainRow announces_fold [of fst snd "indexLaunchBlock parent now", OF announces_indexLaunchBlock]
  by (simp add: indexLine_def Let_def split: option.split)

lemma announces_indexTranscript:
  "announces m noEvents (fst (indexClaudeTranscriptLocked fs clk p parent now b m)) (snd (indexClaudeTranscriptLocked fs clk p parent now b m))"
proof -
  have "announces m noEvents (fst (fold (indexLine fs clk p parent now b skip meta) ls (m, noEvents)))
      (snd (fold (indexLine fs clk p parent now b skip meta) ls (m, noEvents)))" for skip meta ls
    using announces_fold [of fst snd "indexLine fs clk p parent now b skip meta" "(m, noEvents)", OF announces_indexLine] by simp
  then show ?thesis by (simp add: indexClaudeTranscriptLocked_def split: option.split)
qed

lemma announces_indexInto:
  "announces (ssRegistry s) (ssEvents s) (ssRegistry (indexInto fs clk p parent now b s)) (ssEvents (indexInto fs clk p parent now b s))"
  using announces_indexTranscript [of "ssRegistry s" fs clk p parent now b]
  by (auto simp: indexInto_def split: prod.split intro!: announces_append)

lemma announces_seedCandidate:
  "announces (ssRegistry s) (ssEvents s) (ssRegistry (seedCandidate fs clk p now c s)) (ssEvents (seedCandidate fs clk p now c s))"
proof -
  have "announces (ssRegistry s) (ssEvents s) (ssRegistry (indexInto fs clk c p now b (s\<lparr>ssIndexer := x\<rparr>)))
      (ssEvents (indexInto fs clk c p now b (s\<lparr>ssIndexer := x\<rparr>)))" for x b
    using announces_indexInto [of "s\<lparr>ssIndexer := x\<rparr>"] by simp
  then show ?thesis by (simp add: seedCandidate_def Let_def split: option.split)
qed

lemma announces_seed:
  "announces m noEvents (ssRegistry (seedReferencedLocked fs clk se p now x m)) (ssEvents (seedReferencedLocked fs clk se p now x m))"
  using announces_fold [of ssRegistry ssEvents "seedCandidate fs clk p now" "\<lparr>ssIndexer = x, ssRegistry = m, ssEvents = noEvents\<rparr>",
      OF announces_seedCandidate]
  by (simp add: seedReferencedLocked_def Let_def)

lemma announces_discoverPath:
  "announces (ssRegistry s) (ssEvents s) (ssRegistry (discoverPath fs clk now c s)) (ssEvents (discoverPath fs clk now c s))"
  using announces_indexInto by (simp add: discoverPath_def Let_def)

lemma announces_discover:
  "announces m noEvents (ssRegistry (discoverRecentLocked fs clk now x m)) (ssEvents (discoverRecentLocked fs clk now x m))"
  using announces_fold [of ssRegistry ssEvents "discoverPath fs clk now" "\<lparr>ssIndexer = x\<lparr>scanned := now\<rparr>, ssRegistry = m, ssEvents = noEvents\<rparr>",
      OF announces_discoverPath]
  by (simp add: discoverRecentLocked_def Let_def)

subsection \<open>The process table\<close>

lemma mRegistry_logBurst [simp]:
  "mRegistry (logBurstLocked cwd n m) = mRegistry m" "dSeen (logBurstLocked cwd n m) = dSeen m"
  "dBaseline (logBurstLocked cwd n m) = dBaseline m" "dClaudeRecent (logBurstLocked cwd n m) = dClaudeRecent m"
  by (simp_all add: logBurstLocked_def Let_def)

text \<open>What a newly seen process changes: it becomes seen, is recorded as an observation, and the registry may gain
  it as a sub-agent.\<close>

lemma observeNew_result:
  assumes "observeNew processes now pid proc cwd m = (m', e')"
  shows "dSeen m' = addPID pid (dSeen m)" "dBaseline m' = dBaseline m"
    "map obPID (dClaudeRecent m') = map obPID (dClaudeRecent m) @ [pid]"
    "announces (mRegistry m) noEvents (mRegistry m') e'"
    "wf_registry (mRegistry m) \<Longrightarrow> wf_registry (mRegistry m')"
proof -
  define m1 where "m1 = m\<lparr>dSeen := addPID pid (dSeen m),
      dClaudeRecent := dClaudeRecent m @ [\<lparr>obTS = now, obPID = pid, obPPID = piPPID proc, obCWD = cwd, obCommand = piName proc\<rparr>]\<rparr>"
  define n where "n = length (recentClaudeBurstLocked m1 now cwd)"
  define m2 where "m2 = (if n \<ge> SubagentBurstThreshold then logBurstLocked cwd n m1 else m1)"
  define methods where "methods = spawnEvidence processes pid now cwd m2"
  obtain a isNew r1 where r: "registerSubLocked pid cwd (spawnMethod methods)
      (parentAgentIDLocked (mRegistry m2) processes pid (matchRecentSessionLocked m1 now cwd)) now (mRegistry m2) = ((a, isNew), r1)"
    by (metis surj_pair)
  obtain em r2 where e: "shouldEmitSubagentLifecycleLocked a r1 = (em, r2)" by fastforce
  have res: "(m', e') = (if methods = [] then (m2, noEvents)
      else if isNew then (m2\<lparr>mRegistry := r2\<rparr>, if em then addLifecycle now a noEvents else noEvents) else (m2\<lparr>mRegistry := r1\<rparr>, noEvents))"
    unfolding assms [symmetric] observeNew_def Let_def m1_def [symmetric]
    unfolding n_def [symmetric]
    unfolding m2_def [symmetric]
    unfolding methods_def [symmetric] r by (simp add: e)
  have m2: "dSeen m2 = addPID pid (dSeen m)" "dBaseline m2 = dBaseline m" "mRegistry m2 = mRegistry m"
    "map obPID (dClaudeRecent m2) = map obPID (dClaudeRecent m) @ [pid]"
    by (simp_all add: m2_def m1_def)
  have "announces (mRegistry m) noEvents r1 noEvents" using emitted_registerSub [OF r] m2 by simp
  then have ann: "announces (mRegistry m) noEvents r1 noEvents"
    "announces (mRegistry m) noEvents r2 (if em then addLifecycle now a noEvents else noEvents)"
    using announces_trans [OF _ announces_emit [OF e]] by blast+
  show "dSeen m' = addPID pid (dSeen m)" "dBaseline m' = dBaseline m"
    "map obPID (dClaudeRecent m') = map obPID (dClaudeRecent m) @ [pid]"
    using res m2 by (auto split: if_splits)
  show "announces (mRegistry m) noEvents (mRegistry m') e'" using res m2 ann by (auto split: if_splits)
  assume "wf_registry (mRegistry m)"
  then have r1: "wf_registry r1" "mget (agents r1) (aID a) = Some a" using wf_registerSub [OF _ r] m2 by auto
  then have "wf_registry r2" using wf_shouldEmit [OF _ e] by auto
  then show "wf_registry (mRegistry m')" using res r1 m2 \<open>wf_registry (mRegistry m)\<close> by (auto split: if_splits)
qed

lemma refreshMain_result:
  "emittedAgentIDs (refreshMain now pid cwd r) = emittedAgentIDs r"
  "wf_registry r \<Longrightarrow> wf_registry (refreshMain now pid cwd r)"
  by (auto simp: refreshMain_def agent_kind_def dest: agentForPID_registered intro!: wf_registry_put split: option.split)

definition wf_monitor :: "subagentMonitor \<Rightarrow> bool" where
  "wf_monitor m \<longleftrightarrow> wf_registry (mRegistry m) \<and> distinct (dSeen m) \<and> set (dBaseline m) \<subseteq> set (dSeen m)"

lemma set_addPID [simp]: "set (addPID pid pids) = insert pid (set pids)" "distinct (addPID pid pids) = distinct pids"
  by (auto simp: addPID_def)

text \<open>One entry of the process table, in terms of the reference list of processes not seen before.\<close>

definition newPIDs :: "int list \<Rightarrow> proc_table \<Rightarrow> int list" where
  "newPIDs seen processes = filter (\<lambda>pid. pid \<notin> set seen) (livePIDs processes)"

lemma observeStep_result:
  assumes "observeStep processes cwdLookup now (pid, proc) (m, e) = (m', e')"
  defines "fresh \<equiv> isClaudeCLIBinary (piName proc) \<and> pid \<notin> set (dSeen m)"
  shows "dSeen m' = (if fresh then dSeen m @ [pid] else dSeen m)" "dBaseline m' = dBaseline m"
    "map obPID (dClaudeRecent m') = map obPID (dClaudeRecent m) @ (if fresh then [pid] else [])"
    "announces (mRegistry m) e (mRegistry m') e'"
    "wf_registry (mRegistry m) \<Longrightarrow> wf_registry (mRegistry m')"
proof -
  let ?cwd = "cleanCWD (cwdLookup pid)"
  let ?m1 = "m\<lparr>mRegistry := refreshMain now pid ?cwd (mRegistry m)\<rparr>"
  obtain m2 e2 where n: "observeNew processes now pid proc ?cwd ?m1 = (m2, e2)" by fastforce
  note new = observeNew_result [OF n]
  have res: "(m', e') = (if \<not> isClaudeCLIBinary (piName proc) then (m, e) else if pid \<in> set (dSeen m) then (?m1, e) else (m2, appendEvents e e2))"
    using assms(1) n by (simp add: observeStep_def Let_def split: if_splits)
  have "announces (mRegistry m) e (mRegistry ?m1) e" by (simp add: refreshMain_result)
  then have "announces (mRegistry m) e (mRegistry m2) (appendEvents e e2)"
    using announces_trans announces_append [OF new(4)] by blast
  then show "announces (mRegistry m) e (mRegistry m') e'" using res by (auto simp: refreshMain_result split: if_splits)
  show "dSeen m' = (if fresh then dSeen m @ [pid] else dSeen m)" "dBaseline m' = dBaseline m"
    "map obPID (dClaudeRecent m') = map obPID (dClaudeRecent m) @ (if fresh then [pid] else [])"
    using res new(1-3) by (auto simp: fresh_def addPID_def split: if_splits)
  show "wf_registry (mRegistry m')" if "wf_registry (mRegistry m)"
    using res new(5) refreshMain_result(2) [OF that] that by (auto split: if_splits)
qed

lemma observeSteps_result:
  assumes "fold (observeStep processes cwdLookup now) ps (m, e) = (m', e')" "distinct (map fst ps)"
  shows "dSeen m' = dSeen m @ newPIDs (dSeen m) ps" "dBaseline m' = dBaseline m"
    "map obPID (dClaudeRecent m') = map obPID (dClaudeRecent m) @ newPIDs (dSeen m) ps"
    "announces (mRegistry m) e (mRegistry m') e'"
    "wf_registry (mRegistry m) \<Longrightarrow> wf_registry (mRegistry m')"
proof -
  have "dSeen m' = dSeen m @ newPIDs (dSeen m) ps \<and> dBaseline m' = dBaseline m \<and>
    map obPID (dClaudeRecent m') = map obPID (dClaudeRecent m) @ newPIDs (dSeen m) ps \<and>
    announces (mRegistry m) e (mRegistry m') e' \<and> (wf_registry (mRegistry m) \<longrightarrow> wf_registry (mRegistry m'))"
    using assms
  proof (induction ps arbitrary: m e)
    case Nil
    then show ?case by (simp add: newPIDs_def livePIDs_def)
  next
    case (Cons p ps)
    obtain pid proc where p: "p = (pid, proc)" by fastforce
    obtain m1 e1 where s: "observeStep processes cwdLookup now (pid, proc) (m, e) = (m1, e1)" by fastforce
    note one = observeStep_result [OF s]
    have f: "fold (observeStep processes cwdLookup now) ps (m1, e1) = (m', e')" using Cons.prems(1) s p by simp
    note rest = Cons.IH [OF f]
    have "pid \<notin> fst ` set ps" using Cons.prems(2) p by simp
    then have notin: "pid \<notin> set (livePIDs ps)" by (auto simp: livePIDs_def image_iff)
    have new: "newPIDs (dSeen m1) ps = newPIDs (dSeen m) ps"
      using notin unfolding newPIDs_def one(1) by (intro filter_cong) auto
    have split: "newPIDs (dSeen m) (p # ps) =
        (if isClaudeCLIBinary (piName proc) \<and> pid \<notin> set (dSeen m) then [pid] else []) @ newPIDs (dSeen m) ps"
      by (simp add: newPIDs_def livePIDs_def p)
    have d: "distinct (map fst ps)" using Cons.prems(2) by simp
    show ?case
      using rest [OF d] one announces_trans [OF one(4)] unfolding split new by auto
  qed
  then show "dSeen m' = dSeen m @ newPIDs (dSeen m) ps" "dBaseline m' = dBaseline m"
    "map obPID (dClaudeRecent m') = map obPID (dClaudeRecent m) @ newPIDs (dSeen m) ps"
    "announces (mRegistry m) e (mRegistry m') e'"
    "wf_registry (mRegistry m) \<Longrightarrow> wf_registry (mRegistry m')" by blast+
qed

lemma filter_mem_all: "set xs \<subseteq> set ys \<Longrightarrow> filter (\<lambda>x. x \<in> set ys) xs = xs"
  by (induction xs) auto

text \<open>One observation of a process table: first what is stale goes, then every live Claude process that was
  not seen is examined once, in the order of the table.\<close>

definition prunedMonitor :: "proc_table \<Rightarrow> time \<Rightarrow> subagentMonitor \<Rightarrow> subagentMonitor" where
  "prunedMonitor processes now m = pruneStateLocked now processes now (pruneRecentLocked now m)"

lemma prunedMonitor_fields:
  "dSeen (prunedMonitor ps now m) = filter (\<lambda>pid. pid \<in> set (livePIDs ps)) (dSeen m)"
  "dBaseline (prunedMonitor ps now m) = filter (\<lambda>pid. pid \<in> set (livePIDs ps)) (dBaseline m)"
  "dClaudeRecent (prunedMonitor ps now m) = filter (\<lambda>o1. obTS o1 > now - SubagentBurstWindow) (dClaudeRecent m)"
  "mRegistry (prunedMonitor ps now m) = pruneRegistry (livePIDs ps) now (mRegistry m)"
  by (simp_all add: prunedMonitor_def pruneStateLocked_def pruneRecentLocked_def Let_def)

lemma newPIDs_pruned: "newPIDs (filter (\<lambda>pid. pid \<in> set (livePIDs ps)) seen) ps = newPIDs seen ps"
  unfolding newPIDs_def by (intro filter_cong) auto

lemma observe_result:
  assumes "observe fs ps cwdLookup now m = (m', e')" "ps \<noteq> []" "distinct (map fst ps)"
  shows "dSeen m' = filter (\<lambda>pid. pid \<in> set (livePIDs ps)) (dSeen m) @ newPIDs (dSeen m) ps"
    "dBaseline m' = filter (\<lambda>pid. pid \<in> set (livePIDs ps)) (dBaseline m)"
    "map obPID (dClaudeRecent m') = map obPID (filter (\<lambda>o1. obTS o1 > now - SubagentBurstWindow) (dClaudeRecent m)) @ newPIDs (dSeen m) ps"
    "announces (pruneRegistry (livePIDs ps) now (mRegistry m)) noEvents (mRegistry m') e'"
    "wf_registry (mRegistry m) \<Longrightarrow> wf_registry (mRegistry m')"
proof -
  obtain m1 e1 where f: "fold (observeStep ps cwdLookup now) ps (prunedMonitor ps now m, noEvents) = (m1, e1)" by fastforce
  note r = observeSteps_result [OF f assms(3)]
  let ?s = "discoverRecentLocked fs now now (mSidechains m1) (mRegistry m1)"
  have res: "m' = m1\<lparr>mSidechains := ssIndexer ?s, mRegistry := ssRegistry ?s\<rparr>" "e' = appendEvents e1 (ssEvents ?s)"
    using assms(1,2) f by (auto simp: observe_def prunedMonitor_def [symmetric] Let_def)
  show "dSeen m' = filter (\<lambda>pid. pid \<in> set (livePIDs ps)) (dSeen m) @ newPIDs (dSeen m) ps"
    "dBaseline m' = filter (\<lambda>pid. pid \<in> set (livePIDs ps)) (dBaseline m)"
    "map obPID (dClaudeRecent m') = map obPID (filter (\<lambda>o1. obTS o1 > now - SubagentBurstWindow) (dClaudeRecent m)) @ newPIDs (dSeen m) ps"
    using r(1-3) by (simp_all add: res prunedMonitor_fields newPIDs_pruned)
  have "announces (mRegistry m1) e1 (ssRegistry ?s) (appendEvents e1 (ssEvents ?s))"
    by (rule announces_append) (rule announces_discover)
  with r(4) show "announces (pruneRegistry (livePIDs ps) now (mRegistry m)) noEvents (mRegistry m') e'"
    unfolding res prunedMonitor_fields by (auto intro: announces_trans)
  show "wf_registry (mRegistry m')" if "wf_registry (mRegistry m)"
    using r(5) wf_pruneRegistry [OF that] wf_discoverRecent by (simp add: res prunedMonitor_fields)
qed

subsection \<open>Hooks and flows\<close>

lemma semanticParent_result:
  assumes "semanticParent ps se now r = Some (a, r')"
  shows "emittedAgentIDs r' = emittedAgentIDs r"
    "wf_registry r \<Longrightarrow> wf_registry r' \<and> mget (agents r') (aID a) = Some a \<and> agent_kind a"
proof -
  let ?pid = "firstPositive [claudeAncestorPID ps (sPID se), claudeAncestorPID ps (sPPID se), sPPID se, sPID se]"
  consider (known) "agentForProcessLocked r ps [sPID se, sPPID se] = Some a" "r' = r"
    | (main) "?pid > 0" "registerMainLocked ?pid (cleanCWD (sCWD se)) now r = (a, r')"
    using assms by (auto simp: semanticParent_def Let_def split: option.splits if_splits)
  then have "emittedAgentIDs r' = emittedAgentIDs r \<and>
    (wf_registry r \<longrightarrow> wf_registry r' \<and> mget (agents r') (aID a) = Some a \<and> agent_kind a)"
  proof cases
    case known
    then show ?thesis using agentForProcess_registered [of r ps "[sPID se, sPPID se]" a] by simp
  next
    case main
    then show ?thesis using emitted_registerMain [OF main(2)] wf_registerMain [OF _ main(2)] by simp
  qed
  then show "emittedAgentIDs r' = emittedAgentIDs r"
    "wf_registry r \<Longrightarrow> wf_registry r' \<and> mget (agents r') (aID a) = Some a \<and> agent_kind a" by blast+
qed

lemma annotateSemantic_result:
  assumes "annotateSemantic fs clk se ps m = (se', m', e')"
  shows "announces (mRegistry m) noEvents (mRegistry m') e' \<and> (wf_registry (mRegistry m) \<longrightarrow> wf_registry (mRegistry m')) \<and>
    dSeen m' = dSeen m \<and> dBaseline m' = dBaseline m"
proof (cases "isClaudeSemanticEvent se \<and> semanticParent ps se (if IsZero (sTS se) then clk else sTS se) (mRegistry m) \<noteq> None")
  case False
  then consider "\<not> isClaudeSemanticEvent se" | "semanticParent ps se (if IsZero (sTS se) then clk else sTS se) (mRegistry m) = None"
    by blast
  then have "annotateSemantic fs clk se ps m = (se, m, noEvents)" by cases (simp_all add: annotateSemantic_def Let_def)
  then show ?thesis using assms by simp
next
  case True
  define now where "now = (if IsZero (sTS se) then clk else sTS se)"
  obtain parent r1 where p: "semanticParent ps se now (mRegistry m) = Some (parent, r1)" using True by (auto simp: now_def)
  define se1 where "se1 = se\<lparr>sAgent := parent\<rparr>"
  define s where "s = seedReferencedLocked fs clk se1 (aID parent) now (mSidechains m) r1"
  obtain t r2 where t: "transcriptInferredSubagentLocked se1 (aID parent) now (ssRegistry s) = (t, r2)" by fastforce
  obtain h r3 where h: "hookInferredSubagentLocked se1 (aID parent) now r2 = (h, r3)" by fastforce
  have res: "(se', m', e') = (case t of
      Some (agent, emit) \<Rightarrow> (se1\<lparr>sAgent := agent\<rparr>, m\<lparr>mSidechains := ssIndexer s, mRegistry := r2\<rparr>,
                             if emit then addLifecycle now agent (ssEvents s) else ssEvents s)
    | None \<Rightarrow> (case h of
        None \<Rightarrow> (se1, m\<lparr>mSidechains := ssIndexer s, mRegistry := r3\<rparr>, ssEvents s)
      | Some (agent, isNew) \<Rightarrow>
          if isNew then (case shouldEmitSubagentLifecycleLocked agent r3 of
             (emit, r4) \<Rightarrow> (se1\<lparr>sAgent := agent\<rparr>, m\<lparr>mSidechains := ssIndexer s, mRegistry := r4\<rparr>,
                          if emit then addLifecycle now agent (ssEvents s) else ssEvents s))
          else (se1\<lparr>sAgent := agent\<rparr>, m\<lparr>mSidechains := ssIndexer s, mRegistry := r3\<rparr>, ssEvents s)))"
    unfolding assms [symmetric] annotateSemantic_def Let_def now_def [symmetric] p option.case prod.case se1_def [symmetric]
    unfolding s_def [symmetric] t using True h by (cases t; cases h) simp_all
  have a1: "announces (mRegistry m) noEvents (ssRegistry s) (ssEvents s)"
    unfolding s_def by (rule announces_trans [OF announces_refl announces_seed]) (rule semanticParent_result(1) [OF p])
  have w1: "wf_registry (ssRegistry s)" if "wf_registry (mRegistry m)"
    unfolding s_def using semanticParent_result(2) [OF p that] by (simp add: wf_seedReferenced)
  have w2: "wf_registry r2 \<and> (\<forall>a n. t = Some (a, n) \<longrightarrow> mget (agents r2) (aID a) = Some a)" if "wf_registry (mRegistry m)"
    using wf_transcriptInferred [OF w1 [OF that] t] by blast
  have w3: "wf_registry r3 \<and> (\<forall>a n. h = Some (a, n) \<longrightarrow> mget (agents r3) (aID a) = Some a)" if "wf_registry (mRegistry m)"
    using wf_hookInferred [OF _ h] w2 [OF that] by blast
  note a2 = emitted_transcriptInferred [OF t, of "ssEvents s"]
  note a3 = emitted_hookInferred [OF h]
  consider (tr) a em where "t = Some (a, em)" | (none) "t = None" "h = None"
    | (old) a where "t = None" "h = Some (a, False)"
    | (new) a em r4 where "t = None" "h = Some (a, True)" "shouldEmitSubagentLifecycleLocked a r3 = (em, r4)"
    by (cases t; cases h) (auto, metis (full_types) surj_pair)
  then show ?thesis
  proof cases
    case tr
    then have "announces (mRegistry m) noEvents r2 (if em then addLifecycle now a (ssEvents s) else ssEvents s)"
      using a2 announces_trans [OF a1] by simp
    then show ?thesis using res w2 tr by simp
  next
    case none
    then show ?thesis using res a2 a3 w3 announces_trans [OF a1 announces_refl] by simp
  next
    case old
    then show ?thesis using res a2 a3 w3 announces_trans [OF a1 announces_refl] by simp
  next
    case new
    have "announces (mRegistry m) noEvents r3 (ssEvents s)" using new a2 a3 announces_trans [OF a1 announces_refl] by simp
    from announces_trans [OF this announces_emit [OF new(3)]] show ?thesis
      using new res w3 wf_shouldEmit [OF _ new(3)] by auto
  qed
qed

lemma annotateNetwork_result:
  assumes "annotateNetwork cwdForPID clk nf ps m = (nf', m')"
  shows "announces (mRegistry m) noEvents (mRegistry m') noEvents \<and> (wf_registry (mRegistry m) \<longrightarrow> wf_registry (mRegistry m')) \<and>
    dSeen m' = dSeen m \<and> dBaseline m' = dBaseline m"
  using assms emitted_registerMain wf_registerMain(1)
  by (auto simp: annotateNetwork_def Let_def split: option.splits if_splits prod.splits)

lemma recordSemantic_result:
  "mRegistry (recordSemantic marshal clk se m) = mRegistry m" "dSeen (recordSemantic marshal clk se m) = dSeen m"
  "dBaseline (recordSemantic marshal clk se m) = dBaseline m"
  by (simp_all add: recordSemantic_def pruneRecentLocked_def Let_def)

lemma wf_markBaseline: "wf_monitor m \<Longrightarrow> wf_monitor (markBaseline clk ps m)"
  unfolding markBaseline_def
proof (rule wf_fold)
  show "wf_monitor (markBaselineStep clk p m)" if "wf_monitor m" for p m
    using that wf_registerMain(1) [of "mRegistry m" "fst p" "[]" clk]
    by (auto simp: wf_monitor_def markBaselineStep_def split: prod.split) (metis surjective_pairing)
qed

lemma wf_emitted_distinct: "wf_registry r \<Longrightarrow> distinct (emittedAgentIDs r)"
  by (simp add: wf_registry_def)

section \<open>The monitor as a machine\<close>

text \<open>The daemon calls the monitor from several goroutines; the mutex makes each call one step. A process table
  has each PID once.\<close>

inductive monitor_step :: "subagentMonitor \<Rightarrow> subagentEvents \<Rightarrow> subagentMonitor \<Rightarrow> bool" where
  Baseline: "monitor_step m noEvents (markBaseline clk ps m)"
| Record: "monitor_step m noEvents (recordSemantic marshal clk se m)"
| Observe: "distinct (map fst ps) \<Longrightarrow> observe fs ps cwdLookup now m = (m', e) \<Longrightarrow> monitor_step m e m'"
| Semantic: "annotateSemantic fs clk se ps m = (se', m', e) \<Longrightarrow> monitor_step m e m'"
| Network: "annotateNetwork cwdForPID clk nf ps m = (nf', m') \<Longrightarrow> monitor_step m noEvents m'"

inductive monitor_run :: "subagentMonitor \<Rightarrow> bool" where
  Start: "monitor_run newSubagentMonitor"
| Step: "monitor_run m \<Longrightarrow> monitor_step m e m' \<Longrightarrow> monitor_run m'"

lemma observe_empty: "observe fs [] cwdLookup now m = (m, noEvents)"
  by (simp add: observe_def)

lemma wf_observe:
  assumes "distinct (map fst ps)" "observe fs ps cwdLookup now m = (m', e)" "wf_monitor m"
  shows "wf_monitor m'"
proof (cases "ps = []")
  case False
  note r = observe_result [OF assms(2) False assms(1)]
  have "distinct (livePIDs ps)"
    using distinct_filter [of _ "\<lambda>p. True"] assms(1) by (induction ps) (auto simp: livePIDs_def)
  then show ?thesis using r assms(3) by (auto simp: wf_monitor_def newPIDs_def)
qed (use assms in \<open>simp add: observe_empty\<close>)

lemma wf_monitor_step: "monitor_step m e m' \<Longrightarrow> wf_monitor m \<Longrightarrow> wf_monitor m'"
proof (induction rule: monitor_step.induct)
  case (Baseline m clk ps)
  then show ?case by (rule wf_markBaseline)
next
  case (Record m marshal clk se)
  then show ?case by (simp add: wf_monitor_def recordSemantic_result)
next
  case (Observe ps fs cwdLookup now m m' e)
  then show ?case by (rule wf_observe)
next
  case (Semantic fs clk se ps m se' m' e)
  then show ?case using annotateSemantic_result [OF Semantic(1)] by (simp add: wf_monitor_def)
next
  case (Network cwdForPID clk nf ps m nf' m')
  then show ?case using annotateNetwork_result [OF Network(1)] by (simp add: wf_monitor_def)
qed

lemma wf_monitor_run: "monitor_run m \<Longrightarrow> wf_monitor m"
  by (induction rule: monitor_run.induct) (simp_all add: wf_monitor_step, simp add: wf_monitor_def newSubagentMonitor_def)

section \<open>Announcements\<close>

text \<open>The operations of the monitor as a sequence; a run starts from a new monitor.\<close>

datatype monitor_op =
    DoBaseline time proc_table
  | DoRecord "jobject \<Rightarrow> string option" time SemanticEvent
  | DoObserve SideFS proc_table "int \<Rightarrow> string" time
  | DoSemantic SideFS time SemanticEvent proc_table
  | DoNetwork "int \<Rightarrow> string" time NetworkFlowEvent proc_table

fun do_op :: "monitor_op \<Rightarrow> subagentMonitor \<Rightarrow> subagentMonitor \<times> subagentEvents" where
  "do_op (DoBaseline clk ps) m = (markBaseline clk ps m, noEvents)"
| "do_op (DoRecord marshal clk se) m = (recordSemantic marshal clk se m, noEvents)"
| "do_op (DoObserve fs ps cwdLookup now) m = observe fs ps cwdLookup now m"
| "do_op (DoSemantic fs clk se ps) m = (case annotateSemantic fs clk se ps m of (se', m', e) \<Rightarrow> (m', e))"
| "do_op (DoNetwork cwdForPID clk nf ps) m = (snd (annotateNetwork cwdForPID clk nf ps m), noEvents)"

fun wf_op :: "monitor_op \<Rightarrow> bool" where
  "wf_op (DoObserve fs ps cwdLookup now) = distinct (map fst ps)"
| "wf_op op = True"

definition monitor_after :: "monitor_op list \<Rightarrow> subagentMonitor" where
  "monitor_after ops = fold (\<lambda>op m. fst (do_op op m)) ops newSubagentMonitor"

definition announced_at :: "monitor_op list \<Rightarrow> nat \<Rightarrow> string list" where
  "announced_at ops i = announced (snd (do_op (ops ! i) (monitor_after (take i ops))))"

text \<open>What the announced agents are before an operation announces more: an observation forgets some first.\<close>

fun remembered :: "monitor_op \<Rightarrow> subagentMonitor \<Rightarrow> string list" where
  "remembered (DoObserve fs ps cwdLookup now) m =
     (if ps = [] then emittedAgentIDs (mRegistry m) else emittedAgentIDs (pruneRegistry (livePIDs ps) now (mRegistry m)))"
| "remembered op m = emittedAgentIDs (mRegistry m)"

lemma monitor_step_op: "wf_op op \<Longrightarrow> monitor_step m (snd (do_op op m)) (fst (do_op op m))"
  by (cases op) (auto split: prod.split intro: monitor_step.intros, metis monitor_step.Network surjective_pairing)

lemma emitted_markBaseline: "emittedAgentIDs (mRegistry (markBaseline clk ps m)) = emittedAgentIDs (mRegistry m)"
proof -
  have "emittedAgentIDs (mRegistry (markBaselineStep clk p m)) = emittedAgentIDs (mRegistry m)" for p m
    by (cases "registerMainLocked (fst p) [] clk (mRegistry m)") (auto simp: markBaselineStep_def emitted_registerMain split: prod.split)
  then show ?thesis unfolding markBaseline_def by (induction ps arbitrary: m) simp_all
qed

lemma op_announces:
  assumes "wf_op op"
  shows "emittedAgentIDs (mRegistry (fst (do_op op m))) = remembered op m @ announced (snd (do_op op m)) \<and>
    list_all real_subagent (lifecycle (snd (do_op op m)))"
proof (cases op)
  case (DoObserve fs ps cwdLookup now)
  obtain m' e where o: "observe fs ps cwdLookup now m = (m', e)" by fastforce
  show ?thesis
  proof (cases "ps = []")
    case True
    then show ?thesis using DoObserve by (simp add: observe_empty announced_def)
  next
    case False
    then show ?thesis using announces_from_none [OF observe_result(4) [OF o]] assms DoObserve o by simp
  qed
next
  case (DoSemantic fs clk se ps)
  obtain se' m' e where a: "annotateSemantic fs clk se ps m = (se', m', e)" using prod_cases3 by blast
  then have "announces (mRegistry m) noEvents (mRegistry m') e" using annotateSemantic_result by blast
  then show ?thesis using announces_from_none a DoSemantic by simp
next
  case (DoNetwork cwdForPID clk nf ps)
  obtain nf' m' where a: "annotateNetwork cwdForPID clk nf ps m = (nf', m')" by fastforce
  then have "announces (mRegistry m) noEvents (mRegistry m') noEvents" using annotateNetwork_result by blast
  then show ?thesis using announces_from_none [of "mRegistry m" "mRegistry m'" noEvents] a DoNetwork by simp
qed (simp_all add: emitted_markBaseline recordSemantic_result announced_def)

lemma monitor_after_snoc: "i < length ops \<Longrightarrow> monitor_after (take (Suc i) ops) = fst (do_op (ops ! i) (monitor_after (take i ops)))"
  by (simp add: monitor_after_def take_Suc_conv_app_nth)

lemma monitor_after_run: "list_all wf_op ops \<Longrightarrow> i \<le> length ops \<Longrightarrow> monitor_run (monitor_after (take i ops))"
proof (induction i)
  case 0
  then show ?case by (simp add: monitor_after_def monitor_run.Start)
next
  case (Suc i)
  then have "wf_op (ops ! i)" by (simp add: list_all_length)
  then show ?case using Suc monitor_after_snoc [of i ops] monitor_run.Step [OF _ monitor_step_op] by simp
qed

text \<open>What is forgotten is an agent that is gone.\<close>

lemma forgotten:
  assumes "wf_registry r" "x \<in> set (emittedAgentIDs r)" "x \<notin> set (emittedAgentIDs (pruneRegistry live now r))"
  obtains agent where "mget (agents r) x = Some agent" "\<not> keepAgent live now agent"
proof -
  obtain agent where a: "mget (agents r) x = Some agent" using assms(1,2) by (auto simp: wf_registry_def)
  have "\<not> mhas (filter (\<lambda>(ident, agent). keepAgent live now agent) (agents r)) x"
    using assms(2,3) by (auto simp: pruneRegistry_def electMain_def Let_def split: if_splits)
  then have "\<not> keepAgent live now agent" using a assms(1) mget_filter [of "agents r" "\<lambda>i. keepAgent live now" x]
    by (auto simp: mhas_def wf_registry_def)
  with a show thesis by (rule that)
qed

lemma announced_once_until_forgotten:
  assumes "list_all wf_op ops" "i < j" "j < length ops" "x \<in> set (announced_at ops i)" "x \<in> set (announced_at ops j)"
  shows "\<exists>k. i < k \<and> k \<le> j \<and> x \<in> set (emittedAgentIDs (mRegistry (monitor_after (take k ops)))) \<and>
    x \<notin> set (remembered (ops ! k) (monitor_after (take k ops)))"
proof (rule ccontr)
  let ?m = "\<lambda>k. monitor_after (take k ops)"
  assume no: "\<not> ?thesis"
  have wf: "wf_op (ops ! k)" if "k < length ops" for k using assms(1) that by (simp add: list_all_length)
  have emitted: "emittedAgentIDs (mRegistry (?m (Suc k))) = remembered (ops ! k) (?m k) @ announced_at ops k" if "k < length ops" for k
    using op_announces [OF wf [OF that], of "?m k"] monitor_after_snoc [OF that] by (simp add: announced_at_def)
  have stays: "x \<in> set (emittedAgentIDs (mRegistry (?m k)))" if "i < k" "k \<le> j" for k
    using that
  proof (induction k)
    case (Suc k)
    then show ?case
      using no assms(3,4) emitted [of k] by (cases "k = i") auto
  qed simp
  then have "x \<in> set (remembered (ops ! j) (?m j))" using no assms(2) by blast
  moreover have "distinct (emittedAgentIDs (mRegistry (?m (Suc j))))"
    using wf_emitted_distinct wf_monitor_run [OF monitor_after_run [OF assms(1), of "Suc j"]] assms(3) by (simp add: wf_monitor_def)
  ultimately show False using emitted [OF assms(3)] assms(5) by auto
qed

section \<open>Properties\<close>

text \<open>C13. The agent registry stays consistent however hooks, process observations, transcripts and flows
  interleave: agents are filed under their own identifier, every identifier of a main agent starts with m and
  of a sub-agent with s, the elected main agent and the target of every tool call exist and the main agent is of
  type main, and an announced agent is registered. The processes of the baseline are among those seen.\<close>

theorem monitor_invariant:
  assumes "monitor_run m"
  shows "wf_registry (mRegistry m) \<and> distinct (dSeen m) \<and> set (dBaseline m) \<subseteq> set (dSeen m)"
  using wf_monitor_run [OF assms] by (simp add: wf_monitor_def)

text \<open>One observation of the process table examines every live Claude process exactly once: afterwards the
  seen processes are the live Claude processes, the new observations are those of the live processes that had
  not been seen, in the order of the table, and nothing that exited is remembered.\<close>

theorem observation_is_exact:
  assumes "ps \<noteq> []" "distinct (map fst ps)" "observe fs ps cwdLookup now m = (m', e)"
  shows "set (dSeen m') = set (livePIDs ps) \<and> set (dBaseline m') = set (dBaseline m) \<inter> set (livePIDs ps) \<and>
    map obPID (dClaudeRecent m') =
      map obPID (filter (\<lambda>o1. obTS o1 > now - SubagentBurstWindow) (dClaudeRecent m)) @
      filter (\<lambda>pid. pid \<notin> set (dSeen m)) (livePIDs ps)"
  using observe_result(1-3) [OF assms(3,1,2)] by (auto simp: newPIDs_def)

text \<open>C15. Over any run of the monitor, whatever hooks, process tables and flows arrive, a sub-agent is announced again
  only after an observation forgot it: between two announcements of one identifier there is an observation that found
  the agent registered but gone, that is without its process among the live agent processes (for a sub-agent without a process, or a main
  agent, without having been seen for the time to live). The announcements of one operation are distinct, and each is
  a sub-agent with a process.\<close>

theorem subagents_announced_once_until_gone:
  assumes "list_all wf_op ops" "j < length ops"
  shows "distinct (announced_at ops j) \<and>
    list_all real_subagent (lifecycle (snd (do_op (ops ! j) (monitor_after (take j ops))))) \<and>
    (\<forall>i < j. \<forall>x \<in> set (announced_at ops i) \<inter> set (announced_at ops j).
      \<exists>k fs ps cwdLookup now agent. i < k \<and> k \<le> j \<and> ops ! k = DoObserve fs ps cwdLookup now \<and> ps \<noteq> [] \<and>
        mget (agents (mRegistry (monitor_after (take k ops)))) x = Some agent \<and>
        (if aType agent = ''main'' then aPID agent \<notin> set (livePIDs ps) \<and> subagentStaleAgentTTL < time_sub now (aLastSeen agent)
         else if aPID agent > 0 then aPID agent \<notin> set (livePIDs ps)
         else subagentStaleAgentTTL < time_sub now (aLastSeen agent)))"
proof (intro conjI allI ballI impI)
  let ?m = "\<lambda>k. monitor_after (take k ops)"
  have wf: "wf_op (ops ! k)" if "k < length ops" for k using assms(1) that by (simp add: list_all_length)
  note r = op_announces [OF wf [OF assms(2)], of "?m j"]
  have "distinct (emittedAgentIDs (mRegistry (?m (Suc j))))"
    using wf_emitted_distinct wf_monitor_run [OF monitor_after_run [OF assms(1), of "Suc j"]] assms(2) by (simp add: wf_monitor_def)
  then show "distinct (announced_at ops j)" using r monitor_after_snoc [OF assms(2)] by (simp add: announced_at_def)
  show "list_all real_subagent (lifecycle (snd (do_op (ops ! j) (?m j))))" using r by blast
next
  fix i x
  let ?m = "\<lambda>k. monitor_after (take k ops)"
  assume "i < j" "x \<in> set (announced_at ops i) \<inter> set (announced_at ops j)"
  then obtain k where k: "i < k" "k \<le> j" "x \<in> set (emittedAgentIDs (mRegistry (?m k)))" "x \<notin> set (remembered (ops ! k) (?m k))"
    using announced_once_until_forgotten [OF assms(1) _ assms(2)] by blast
  then obtain fs ps cwdLookup now where op: "ops ! k = DoObserve fs ps cwdLookup now" "ps \<noteq> []"
    "x \<notin> set (emittedAgentIDs (pruneRegistry (livePIDs ps) now (mRegistry (?m k))))"
    by (cases "ops ! k") (auto split: if_splits)
  have "wf_registry (mRegistry (?m k))"
    using wf_monitor_run [OF monitor_after_run [OF assms(1), of k]] k(2) assms(2) by (simp add: wf_monitor_def)
  then obtain agent where "mget (agents (mRegistry (?m k))) x = Some agent" "\<not> keepAgent (livePIDs ps) now agent"
    using forgotten k(3) op(3) by blast
  then show "\<exists>k fs ps cwdLookup now agent. i < k \<and> k \<le> j \<and> ops ! k = DoObserve fs ps cwdLookup now \<and> ps \<noteq> [] \<and>
        mget (agents (mRegistry (?m k))) x = Some agent \<and>
        (if aType agent = ''main'' then aPID agent \<notin> set (livePIDs ps) \<and> subagentStaleAgentTTL < time_sub now (aLastSeen agent)
         else if aPID agent > 0 then aPID agent \<notin> set (livePIDs ps)
         else subagentStaleAgentTTL < time_sub now (aLastSeen agent))"
    using k(1,2) op(1,2) by (intro exI [of _ k] exI [of _ fs] exI [of _ ps] exI [of _ cwdLookup] exI [of _ now] exI [of _ agent])
      (auto simp: keepAgent_def freshAgent_def)
qed

text \<open>A concrete run: a main agent with a child process of its own.\<close>

definition exampleTable :: proc_table where
  "exampleTable = [(7, zeroProcess\<lparr>piPID := 7, piPPID := 1, piName := ''claude''\<rparr>),
     (9, zeroProcess\<lparr>piPID := 9, piPPID := 7, piName := ''claude''\<rparr>)]"

definition exampleMonitor :: subagentMonitor where
  "exampleMonitor = markBaseline 1 [hd exampleTable] newSubagentMonitor"

lemma example_run: "monitor_run exampleMonitor"
  unfolding exampleMonitor_def by (rule monitor_run.Step [OF monitor_run.Start monitor_step.Baseline])

lemma example_observation:
  "livePIDs exampleTable = [7, 9] \<and> distinct (map fst exampleTable) \<and> exampleTable \<noteq> [] \<and>
   announced (snd (observe exampleFS exampleTable (\<lambda>p. []) 2 exampleMonitor)) = [''sub_9''] \<and>
   dSeen exampleMonitor = [7] \<and> dBaseline exampleMonitor = [7] \<and> dClaudeRecent exampleMonitor = []"
  by code_simp

theorem monitor_invariant_witness:
  "monitor_run exampleMonitor \<and> set (dBaseline exampleMonitor) \<subseteq> set (dSeen exampleMonitor) \<and> dBaseline exampleMonitor = [7]"
  using monitor_invariant [OF example_run] example_run example_observation by simp

theorem observation_is_exact_witness:
  "set (dSeen (fst (observe exampleFS exampleTable (\<lambda>p. []) 2 exampleMonitor))) = {7, 9} \<and>
   map obPID (dClaudeRecent (fst (observe exampleFS exampleTable (\<lambda>p. []) 2 exampleMonitor))) = [9]"
  using observation_is_exact [of exampleTable exampleFS "\<lambda>p. []" 2 exampleMonitor] example_observation
  by (cases "observe exampleFS exampleTable (\<lambda>p. []) 2 exampleMonitor") simp

text \<open>A concrete run: a sub-agent that a hook announced carries the PID of the process that ran the hook, so the next
  observation forgets it and the hook of the result announces it again.\<close>

definition launchHook :: "string \<Rightarrow> SemanticEvent" where
  "launchHook ev = zeroSemantic\<lparr>sTS := 2, sAgent := zeroAgent\<lparr>aID := ''claude'', aName := ''Claude Code''\<rparr>,
     sSession := \<lparr>sessID = ''s1''\<rparr>, sEvent := ev, sTool := ''Agent'', sCWD := ''/w'', sPID := 50, sPPID := 7, sToolUseID := ''toolu_1''\<rparr>"

definition exampleOps :: "monitor_op list" where
  "exampleOps =
     [DoBaseline 1 [hd exampleTable], DoSemantic exampleFS 2 (launchHook ''PreToolUse'') [hd exampleTable],
      DoObserve exampleFS [hd exampleTable] (\<lambda>p. []) 3, DoSemantic exampleFS 4 (launchHook ''PostToolUse'') [hd exampleTable]]"

lemma hook_subagent_announced_twice:
  "announced_at exampleOps 1 = [''subhook_toolu_1''] \<and> announced_at exampleOps 3 = [''subhook_toolu_1'']"
  by code_simp

theorem subagents_announced_once_until_gone_witness:
  "announced_at exampleOps 1 = [''subhook_toolu_1''] \<and> announced_at exampleOps 3 = [''subhook_toolu_1''] \<and>
   (\<exists>k fs ps cwdLookup now agent. k \<in> {2, 3} \<and> exampleOps ! k = DoObserve fs ps cwdLookup now \<and>
      mget (agents (mRegistry (monitor_after (take k exampleOps)))) ''subhook_toolu_1'' = Some agent)"
proof -
  have "list_all wf_op exampleOps" "3 < length exampleOps" by (simp_all add: exampleOps_def exampleTable_def)
  then have "\<forall>i < 3. \<forall>x \<in> set (announced_at exampleOps i) \<inter> set (announced_at exampleOps 3).
      \<exists>k fs ps cwdLookup now agent. i < k \<and> k \<le> 3 \<and> exampleOps ! k = DoObserve fs ps cwdLookup now \<and> ps \<noteq> [] \<and>
        mget (agents (mRegistry (monitor_after (take k exampleOps)))) x = Some agent"
    using subagents_announced_once_until_gone by blast
  then have "\<exists>k fs ps cwdLookup now agent. 1 < k \<and> k \<le> 3 \<and> exampleOps ! k = DoObserve fs ps cwdLookup now \<and> ps \<noteq> [] \<and>
        mget (agents (mRegistry (monitor_after (take k exampleOps)))) ''subhook_toolu_1'' = Some agent"
    using hook_subagent_announced_twice by (auto dest: spec [of _ "1 :: nat"])
  then obtain k fs ps cwdLookup now agent where k: "1 < k" "k \<le> 3" "exampleOps ! k = DoObserve fs ps cwdLookup now"
    "mget (agents (mRegistry (monitor_after (take k exampleOps)))) ''subhook_toolu_1'' = Some agent" by blast
  then have "k \<in> {2, 3}" by auto
  with k show ?thesis using hook_subagent_announced_twice by blast
qed

end
