(* ===== verification/Daemon_Observe.thy ===== *)
theory Daemon_Observe
  imports Daemon_Process Classify "HOL-Library.Word"
begin

unbundle bit_operations_syntax

text \<open>
  What the observers of \<open>cmd/daemon/main.go\<close> and \<open>cmd/daemon/subagent_process.go\<close> read: the process table
  printed by \<open>ps\<close>, the connections printed by \<open>lsof\<close> and \<open>nettop\<close>, and the path of an executable. The outputs
  of the commands are strings; which files exist (\<open>os.Stat\<close>, \<open>exec.LookPath\<close>), the home directory and
  \<open>time.ParseInLocation\<close> are the record \<open>ExecEnv\<close>. \<open>fmt.Sscanf\<close> with one integer, the record reader of
  \<open>encoding/csv\<close> on one line, and the 64-bit FNV-1a hash are modelled.
\<close>

section \<open>Library functions\<close>

text \<open>\<open>fmt.Sscanf(s, "%d", &n)\<close>: blanks, a sign and at least one digit; what follows the digits is not read. The
  value must fit 64 bits.\<close>

definition Sscanf_d :: "string \<Rightarrow> int option" where
  "Sscanf_d s0 =
     (let s = dropWhile is_space s0;
          neg = (s \<noteq> [] \<and> hd s = CHR ''-'');
          body = (if s \<noteq> [] \<and> (hd s = CHR ''-'' \<or> hd s = CHR ''+'') then tl s else s);
          digits = takeWhile is_digit body;
          n = (if neg then - int (parse_dec digits) else int (parse_dec digits))
      in if digits = [] then None
         else if - (2 ^ 63) \<le> n \<and> n < 2 ^ 63 then Some n else None)"

text \<open>One record of comma-separated fields. In a quoted field two quotes stand for one; a quote inside an unquoted
  field, a field left open and text after the closing quote are errors.\<close>

fun csv_quoted :: "string \<Rightarrow> string \<Rightarrow> (string \<times> string) option" where
  "csv_quoted acc [] = None"
| "csv_quoted acc [c] = (if c = CHR ''\"'' then Some (acc, []) else None)"
| "csv_quoted acc (c # d # cs) =
     (if c \<noteq> CHR ''\"'' then csv_quoted (acc @ [c]) (d # cs)
      else if d = CHR ''\"'' then csv_quoted (acc @ [d]) cs
      else if d = CHR '','' then Some (acc, d # cs)
      else None)"

lemma csv_quoted_shrinks: "csv_quoted acc s = Some (f, rest) \<Longrightarrow> length rest < length s"
  by (induction acc s rule: csv_quoted.induct) (fastforce split: if_splits)+

function csv_record :: "string \<Rightarrow> string list option" where
  "csv_record s =
     (if HasPrefix s [CHR ''\"'']
      then (case csv_quoted [] (tl s) of
              None \<Rightarrow> None
            | Some (f, []) \<Rightarrow> Some [f]
            | Some (f, c # rest) \<Rightarrow> map_option (\<lambda>fs. f # fs) (csv_record rest))
      else
        let f = takeWhile (\<lambda>c. c \<noteq> CHR '','') s; rest = dropWhile (\<lambda>c. c \<noteq> CHR '','') s
        in if CHR ''\"'' \<in> set f then None
           else case rest of [] \<Rightarrow> Some [f] | c # rest' \<Rightarrow> map_option (\<lambda>fs. f # fs) (csv_record rest'))"
  by pat_completeness auto
termination
proof (relation "measure length", goal_cases)
  case (2 s p f q c rest)
  then have "length q < length (tl s)" using csv_quoted_shrinks [of "[]" "tl s" f q] by simp
  then show ?case using 2 by simp
next
  case (3 s f rest c rest')
  then have "Suc (length rest') \<le> length s"
    using length_dropWhile_le [of "\<lambda>c. c \<noteq> CHR '',''" s] by (metis length_Cons)
  then show ?case by simp
qed simp

text \<open>\<open>fnv.New64a\<close> and the \<open>%x\<close> verb.\<close>

definition fnv_step :: "64 word \<Rightarrow> char \<Rightarrow> 64 word" where
  "fnv_step h c = (h XOR of_char c) * 1099511628211"

definition fnv64a :: "string \<Rightarrow> 64 word" where
  "fnv64a s = foldl fnv_step 14695981039346656037 s"

function show_hex :: "int \<Rightarrow> string" where
  "show_hex n = (if n < 16 then [hex_char (nat n)] else show_hex (n div 16) @ [hex_char (nat (n mod 16))])"
  by pat_completeness auto
termination by (relation "measure nat") auto

declare show_hex.simps [simp del]
declare csv_record.simps [simp del]

section \<open>Executables\<close>

record ExecEnv =
  exHome :: string
  isFile :: "string \<Rightarrow> bool"
  LookPath :: "string \<Rightarrow> string option"
  parseStart :: "string \<Rightarrow> time option"

definition firstField :: "string \<Rightarrow> string" where
  "firstField s = (case Fields (TrimSpace s) of [] \<Rightarrow> [] | f # fs \<Rightarrow> f)"

definition executablePathFromCommand :: "ExecEnv \<Rightarrow> string \<Rightarrow> string" where
  "executablePathFromCommand env command =
     (let first = firstField command in if HasPrefix first ''/'' \<and> isFile env first then first else [])"

definition fallbackExecutableDirs :: "ExecEnv \<Rightarrow> string list" where
  "fallbackExecutableDirs env =
     (if exHome env \<noteq> [] then [PathJoin [exHome env, ''.local'', ''bin'']] else []) @ [''/opt/homebrew/bin'', ''/usr/local/bin'']"

definition lookupExecutablePath :: "ExecEnv \<Rightarrow> string \<Rightarrow> string" where
  "lookupExecutablePath env candidate =
     (let fallback = (case find (isFile env) (map (\<lambda>dir. PathJoin [dir, candidate]) (fallbackExecutableDirs env)) of
                        Some path \<Rightarrow> path | None \<Rightarrow> [])
      in case LookPath env candidate of
           Some path \<Rightarrow> if Contains path ''/'' then path else fallback
         | None \<Rightarrow> fallback)"

definition resolveProcessPath :: "ExecEnv \<Rightarrow> string \<Rightarrow> string \<Rightarrow> string" where
  "resolveProcessPath env command fallbackName =
     (if executablePathFromCommand env command \<noteq> [] then executablePathFromCommand env command
      else if executablePathFromCommand env fallbackName \<noteq> [] then executablePathFromCommand env fallbackName
      else
        case find (\<lambda>p. p \<noteq> []) (map (lookupExecutablePath env)
               (filter (\<lambda>c. \<not> (c = [] \<or> Contains c ''/'')) [firstField command, firstField fallbackName])) of
          Some path \<Rightarrow> path
        | None \<Rightarrow> [])"

section \<open>The process table\<close>

definition parseProcessStartTime :: "ExecEnv \<Rightarrow> string list \<Rightarrow> time" where
  "parseProcessStartTime env words =
     (if length words \<noteq> 5 then 0
      else case parseStart env (Join words '' '') of Some t \<Rightarrow> t | None \<Rightarrow> 0)"

definition parseProcessLine :: "ExecEnv \<Rightarrow> string \<Rightarrow> (int \<times> ProcessInfo) option" where
  "parseProcessLine env raw =
     (let line = TrimSpace raw; words = Fields line
      in if line = [] then None
         else if length words < 7 then None
         else case Sscanf_d (words ! 0) of
                None \<Rightarrow> None
              | Some pid \<Rightarrow>
                  (case Sscanf_d (words ! 1) of
                     None \<Rightarrow> None
                   | Some ppid \<Rightarrow>
                       let startedAt = parseProcessStartTime env (take 5 (drop 2 words));
                           command = (if length words > 7 then Join (drop 7 words) '' '' else [])
                       in Some (pid, zeroProcess\<lparr>piPID := pid, piPPID := ppid, piStartedAt := startedAt, piName := command,
                                  piSource := ''ps''\<rparr>)))"

definition parseProcessTableOutput :: "ExecEnv \<Rightarrow> string \<Rightarrow> proc_table" where
  "parseProcessTableOutput env out =
     fold (\<lambda>raw table. case parseProcessLine env raw of Some (pid, info) \<Rightarrow> mput pid info table | None \<Rightarrow> table)
       (Split out [CHR 0x0A]) []"

definition enrichNetworkFlowFromProcesses :: "ExecEnv \<Rightarrow> proc_table \<Rightarrow> NetworkFlowEvent \<Rightarrow> NetworkFlowEvent" where
  "enrichNetworkFlowFromProcesses env processes nf =
     (if fPID nf \<le> 0 \<or> processes = [] then nf
      else case mget processes (fPID nf) of
             None \<Rightarrow> nf
           | Some info \<Rightarrow>
               nf\<lparr>fPPID := (if fPPID nf = 0 \<and> piPPID info > 0 then piPPID info else fPPID nf),
                  fProcessPath := (if fProcessPath nf = [] then resolveProcessPath env (piName info) [] else fProcessPath nf)\<rparr>)"

section \<open>lsof\<close>

definition splitLsofEndpoint :: "string \<Rightarrow> string \<times> string" where
  "splitLsofEndpoint name = (case Split name ''->'' of [l, r] \<Rightarrow> (l, r) | _ \<Rightarrow> (name, []))"

record lsofState =
  lsPID :: int
  lsProc :: string
  lsFlows :: "NetworkFlowEvent list"

definition lsofFlow :: "ExecEnv \<Rightarrow> time \<Rightarrow> proc_table \<Rightarrow> lsofState \<Rightarrow> string \<Rightarrow> string \<Rightarrow> NetworkFlowEvent" where
  "lsofFlow env now processes s local remote =
     (let pid = lsPID s;
          known = mget processes pid;
          ppid = (case known of Some info \<Rightarrow> piPPID info | None \<Rightarrow> 0);
          path1 = (case known of Some info \<Rightarrow> resolveProcessPath env (piName info) (lsProc s) | None \<Rightarrow> []);
          processPath = (if path1 = [] then resolveProcessPath env (lsProc s) [] else path1)
      in zeroFlow\<lparr>fSchema := SchemaNetworkV0, fTS := now,
           fFlowID := ''lsof-'' @ Itoa pid @ ''-'' @ show_hex (int (length (lsFlows s)) + 1), fObserver := ''lsof'', fPID := pid,
           fPPID := ppid, fProcessPath := processPath, fLocal := local, fRemote := remote, fProtocol := ''tcp'',
           fDirection := ''out'', fState := ''established''\<rparr>)"

definition lsofLine :: "ExecEnv \<Rightarrow> time \<Rightarrow> proc_table \<Rightarrow> string \<Rightarrow> lsofState \<Rightarrow> lsofState" where
  "lsofLine env now processes raw s =
     (case TrimSpace raw of
        [] \<Rightarrow> s
      | c # rest \<Rightarrow>
          if c = CHR ''p'' then s\<lparr>lsPID := (case Sscanf_d rest of Some n \<Rightarrow> n | None \<Rightarrow> 0)\<rparr>
          else if c = CHR ''c'' then s\<lparr>lsProc := rest\<rparr>
          else if c = CHR ''n'' then
            (if lsPID s \<le> 0 then s
             else case splitLsofEndpoint rest of
                    (local, remote) \<Rightarrow>
                      if remote = [] then s
                      else s\<lparr>lsFlows := lsFlows s @ [lsofFlow env now processes s local remote]\<rparr>)
          else s)"

text \<open>None is the output of a failed command, \<open>Some\<close> the text \<open>lsof\<close> printed (empty when it found nothing and
  exited with 1).\<close>

definition snapshotEstablishedTCP ::
    "ExecEnv \<Rightarrow> time \<Rightarrow> proc_table \<Rightarrow> string option \<Rightarrow> NetworkFlowEvent list option" where
  "snapshotEstablishedTCP env now processes out =
     map_option (\<lambda>text1. lsFlows (fold (lsofLine env now processes) (Split text1 [CHR 0x0A])
                                    \<lparr>lsPID = 0, lsProc = [], lsFlows = []\<rparr>)) out"

section \<open>nettop\<close>

record nettopProcessContext =
  ncPID :: int
  ncName :: string

definition parseNettopProcessLabel :: "string \<Rightarrow> (int \<times> string) option" where
  "parseNettopProcessLabel label0 =
     (let label = TrimSpace label0
      in case last_index_of CHR ''.'' label of
           None \<Rightarrow> None
         | Some idx \<Rightarrow>
             if idx = 0 \<or> idx = length label - 1 then None
             else case Sscanf_d (drop (idx + 1) label) of
                    None \<Rightarrow> None
                  | Some pid \<Rightarrow>
                      if pid \<le> 0 then None
                      else let name = TrimSpace (take idx label)
                           in Some (pid, if name = [] then label else name))"

definition allDigits :: "string \<Rightarrow> bool" where
  "allDigits v = (v \<noteq> [] \<and> list_all is_digit v)"

definition normalizeNettopEndpoint :: "string \<Rightarrow> string" where
  "normalizeNettopEndpoint endpoint0 =
     (let endpoint = TrimSpace endpoint0
      in if endpoint = [] \<or> endpoint = ''*:*'' \<or> endpoint = ''*.*'' \<or> HasPrefix endpoint ''*.'' \<or> HasPrefix endpoint ''*:'' then []
         else case SplitHostPort endpoint of
                Some (host, port) \<Rightarrow> JoinHostPort (Trim host ''[]'') port
              | None \<Rightarrow>
                  (case last_index_of CHR ''.'' endpoint of
                     None \<Rightarrow> endpoint
                   | Some idx \<Rightarrow>
                       if idx = 0 \<or> idx = length endpoint - 1 then endpoint
                       else let port = drop (idx + 1) endpoint
                            in if \<not> allDigits port then endpoint
                               else JoinHostPort (Trim (take idx endpoint) ''[]'') port))"

definition nettopProtocol :: "string \<Rightarrow> string option" where
  "nettopProtocol token =
     (if HasPrefix token ''tcp'' then Some ''tcp''
      else if HasPrefix token ''udp'' then Some ''udp''
      else if HasPrefix token ''quic'' then Some ''quic'' else None)"

definition parseNettopSocketItem :: "string \<Rightarrow> (string \<times> string \<times> string) option" where
  "parseNettopSocketItem item =
     (case Fields (TrimSpace item) of
        [proto, ends] \<Rightarrow>
          (case nettopProtocol (ToLower proto) of
             None \<Rightarrow> None
           | Some protocol \<Rightarrow>
               (case Split ends ''<->'' of
                  [l, r] \<Rightarrow> if normalizeNettopEndpoint r = [] then None
                            else Some (protocol, normalizeNettopEndpoint l, normalizeNettopEndpoint r)
                | _ \<Rightarrow> None))
      | _ \<Rightarrow> None)"

definition normalizeNettopState :: "string \<Rightarrow> string \<Rightarrow> string option" where
  "normalizeNettopState protocol state0 =
     (let state = ToLower (TrimSpace state0)
      in if protocol = ''udp'' \<or> protocol = ''quic'' then Some ''data''
         else if state \<in> {''established'', ''closewait'', ''timewait''} then Some ''established''
         else if state \<in> {''synsent'', ''synreceived''} then Some ''new''
         else if state = ''closed'' then Some ''closed''
         else None)"

definition parseNettopBytes :: "string \<Rightarrow> int" where
  "parseNettopBytes value0 =
     (let v = TrimSpace value0
      in if v = [] then 0 else case Sscanf_d v of Some n \<Rightarrow> if n < 0 then 0 else n | None \<Rightarrow> 0)"

definition networkStatisticsFlowID :: "int \<Rightarrow> string \<Rightarrow> string \<Rightarrow> string \<Rightarrow> string" where
  "networkStatisticsFlowID pid protocol local remote =
     ''network_statistics-'' @ Itoa pid @ ''-'' @
     show_hex (uint (fnv64a (Itoa pid @ ''|'' @ protocol @ ''|'' @ local @ ''|'' @ remote)))"

datatype nettop_result = NettopError | NettopNone | NettopFlow NetworkFlowEvent

definition nettopFlow ::
    "ExecEnv \<Rightarrow> proc_table \<Rightarrow> time \<Rightarrow> nettopProcessContext \<Rightarrow> string list \<Rightarrow> string \<Rightarrow> string \<Rightarrow> string \<Rightarrow> string \<Rightarrow> NetworkFlowEvent" where
  "nettopFlow env processes now current rec protocol local remote state =
     (let known = mget processes (ncPID current);
          resolved = (case known of Some info \<Rightarrow> resolveProcessPath env (piName info) (ncName current) | None \<Rightarrow> [])
      in zeroFlow\<lparr>fSchema := SchemaNetworkV0, fTS := now,
           fFlowID := networkStatisticsFlowID (ncPID current) protocol local remote, fObserver := ''network_statistics'',
           fPID := ncPID current, fPPID := (case known of Some info \<Rightarrow> piPPID info | None \<Rightarrow> 0),
           fProcessPath := (if resolved \<noteq> [] then resolved else ncName current), fLocal := local, fRemote := remote,
           fProtocol := protocol, fDirection := ''out'', fBytesOut := parseNettopBytes (rec ! 5),
           fBytesIn := parseNettopBytes (rec ! 4), fState := state\<rparr>)"

definition parseNettopCSVRecord ::
    "ExecEnv \<Rightarrow> string list \<Rightarrow> proc_table \<Rightarrow> time \<Rightarrow> nettopProcessContext \<Rightarrow> nettop_result \<times> nettopProcessContext" where
  "parseNettopCSVRecord env rec processes now current =
     (if length rec < 6 then (NettopError, current)
      else
        let item = TrimSpace (rec ! 1)
        in if item = [] then (NettopNone, current)
           else if \<not> Contains item ''<->'' then
             (case parseNettopProcessLabel item of
                Some (pid, name) \<Rightarrow> (NettopNone, \<lparr>ncPID = pid, ncName = name\<rparr>)
              | None \<Rightarrow> (NettopNone, current))
           else if ncPID current \<le> 0 then (NettopError, current)
           else case parseNettopSocketItem item of
                  None \<Rightarrow> (NettopNone, current)
                | Some (protocol, local, remote) \<Rightarrow>
                    (case normalizeNettopState protocol (rec ! 3) of
                       None \<Rightarrow> (NettopNone, current)
                     | Some state \<Rightarrow> (NettopFlow (nettopFlow env processes now current rec protocol local remote state), current)))"

definition parseNettopCSVLine ::
    "ExecEnv \<Rightarrow> string \<Rightarrow> proc_table \<Rightarrow> time \<Rightarrow> nettopProcessContext \<Rightarrow> nettop_result \<times> nettopProcessContext" where
  "parseNettopCSVLine env line processes now current =
     (case csv_record (TrimSuffix line [CHR 0x0D]) of
        None \<Rightarrow> (NettopError, current)
      | Some rec \<Rightarrow> parseNettopCSVRecord env rec processes now current)"

section \<open>Rationing the refreshes\<close>

definition NetworkRefreshTranscriptInterval :: duration where [time_defs]: "NetworkRefreshTranscriptInterval = 30 * Second"

definition shouldAppendNetworkRefreshTranscript :: "string \<Rightarrow> time \<Rightarrow> (string, time) gomap \<Rightarrow> bool \<times> (string, time) gomap" where
  "shouldAppendNetworkRefreshTranscript key now seen =
     (if key = [] then (False, seen)
      else case mget seen key of
             Some prev \<Rightarrow> if time_sub now prev < NetworkRefreshTranscriptInterval then (False, seen) else (True, mput key now seen)
           | None \<Rightarrow> (True, mput key now seen))"

section \<open>Lemmas\<close>

lemma digit_not_space: "is_digit c \<Longrightarrow> \<not> is_space c"
  by (auto simp: is_digit_def is_space_def Let_def)

text \<open>Reading back a printed integer.\<close>

lemma Sscanf_Itoa:
  assumes "- (2 ^ 63) \<le> n" "n < 2 ^ 63" "rest = [] \<or> \<not> is_digit (hd rest)"
  shows "Sscanf_d (Itoa n @ rest) = Some n"
proof -
  obtain c cs where sd: "show_digits \<bar>n\<bar> = c # cs" using show_digits_nonempty by (metis neq_Nil_conv)
  have d: "list_all is_digit (c # cs)" using show_digits_digits [of "\<bar>n\<bar>"] sd by simp
  then have c: "\<not> is_space c" "c \<noteq> CHR ''-''" "c \<noteq> CHR ''+''" using digit_not_space by (auto simp: is_digit_def)
  have tw: "takeWhile is_digit ((c # cs) @ rest) = c # cs"
    using d assms(3) by (cases rest) (auto simp: list_all_iff takeWhile_append)
  have p: "parse_dec (c # cs) = nat \<bar>n\<bar>" using parse_show_digits [of "\<bar>n\<bar>"] sd by simp
  show ?thesis
  proof (cases "n < 0")
    case True
    then have "Itoa n = CHR ''-'' # c # cs" using sd by (simp add: Itoa_def)
    then show ?thesis using True tw p assms(1,2) by (simp add: Sscanf_d_def Let_def is_space_def)
  next
    case False
    then have "Itoa n = c # cs" using sd by (simp add: Itoa_def)
    then show ?thesis using False tw p assms(1,2) c by (simp add: Sscanf_d_def Let_def)
  qed
qed

lemma Sscanf_bounds: "Sscanf_d s = Some n \<Longrightarrow> - (2 ^ 63) \<le> n \<and> n < 2 ^ 63"
  by (auto simp: Sscanf_d_def Let_def split: if_splits)

lemma parseNettopBytes_bounds: "0 \<le> parseNettopBytes v \<and> parseNettopBytes v < 2 ^ 63"
  using Sscanf_bounds [of "TrimSpace v"] by (auto simp: parseNettopBytes_def Let_def split: option.split)

subsection \<open>The process table\<close>

lemma parseProcessLine_keyed: "parseProcessLine env raw = Some (pid, info) \<Longrightarrow> piPID info = pid"
  by (auto simp: parseProcessLine_def Let_def split: if_splits option.splits)

lemma keyed_mput: "keyed m \<Longrightarrow> piPID i = p \<Longrightarrow> keyed (mput p i m)"
  by (induction m) (auto simp: keyed_def)

lemma keyed_parseTable: "keyed (parseProcessTableOutput env out) \<and> wf_map (parseProcessTableOutput env out)"
proof -
  have "keyed (fold (\<lambda>raw table. case parseProcessLine env raw of Some (pid, info) \<Rightarrow> mput pid info table | None \<Rightarrow> table) ls t) \<and>
        wf_map (fold (\<lambda>raw table. case parseProcessLine env raw of Some (pid, info) \<Rightarrow> mput pid info table | None \<Rightarrow> table) ls t)"
    if "keyed t" "wf_map t" for ls t
    using that
  proof (induction ls arbitrary: t)
    case (Cons l ls)
    then show ?case using parseProcessLine_keyed [of env l] by (cases "parseProcessLine env l") (auto simp: keyed_mput)
  qed simp
  then show ?thesis by (simp add: parseProcessTableOutput_def keyed_def wf_map_def)
qed

text \<open>Words: non-empty and free of white space.\<close>

definition word_list :: "string list \<Rightarrow> bool" where
  "word_list ws \<longleftrightarrow> list_all (\<lambda>w. w \<noteq> [] \<and> list_all (\<lambda>c. \<not> is_space c) w) ws"

lemma Fields_words: "word_list ws \<Longrightarrow> Fields (Join ws '' '') = ws"
  unfolding Fields_def by (rule FieldsFunc_Join) (auto simp: word_list_def list_all_iff is_space_def)

lemma Itoa_word: "word_list [Itoa n]"
  using show_digits_digits show_digits_nonempty digit_not_space
  by (auto simp: word_list_def Itoa_def list_all_iff is_space_def)

lemma TrimSpace_words:
  assumes "word_list ws" "ws \<noteq> []"
  shows "TrimSpace (Join ws '' '') = Join ws '' '' \<and> Join ws '' '' \<noteq> []"
proof -
  have w: "w \<noteq> [] \<and> (\<forall>c \<in> set w. \<not> is_space c)" if "w \<in> set ws" for w
    using that assms(1) by (auto simp: word_list_def list_all_iff)
  obtain rest where j: "Join ws '' '' = hd ws @ rest" using Join_first [OF assms(2)] by blast
  obtain pre where l: "Join ws '' '' = pre @ last ws"
    using Join_snoc [of "butlast ws" "last ws" "'' ''"] unfolding append_butlast_last_id [OF assms(2)]
    by (metis append.assoc append_Nil)
  have "hd ws \<noteq> []" "\<not> is_space (hd (hd ws))" using w [of "hd ws"] assms(2) by (auto simp: hd_in_set)
  moreover have "last ws \<noteq> []" "\<not> is_space (last (last ws))" using w [of "last ws"] assms(2) by auto
  ultimately have "hd (Join ws '' '') = hd (hd ws)" "Join ws '' '' \<noteq> []" "last (Join ws '' '') = last (last ws)"
    by (simp add: j, simp add: j, simp add: l)
  then have "Join ws '' '' \<noteq> []" "\<not> is_space (hd (Join ws '' ''))" "\<not> is_space (last (Join ws '' ''))"
    using \<open>\<not> is_space (hd (hd ws))\<close> \<open>\<not> is_space (last (last ws))\<close> by simp_all
  then show ?thesis unfolding TrimSpace_def by (intro conjI trim_by_fixed) auto
qed

lemma word_list_append: "word_list (xs @ ys) = (word_list xs \<and> word_list ys)"
  by (simp add: word_list_def)

lemma parseProcessLine_printed:
  assumes "- (2 ^ 63) \<le> pid" "pid < 2 ^ 63" "- (2 ^ 63) \<le> ppid" "ppid < 2 ^ 63"
    and "length start = 5" "word_list start" "word_list command"
  shows "parseProcessLine env (Join ([Itoa pid, Itoa ppid] @ start @ command) '' '') =
    Some (pid, zeroProcess\<lparr>piPID := pid, piPPID := ppid, piStartedAt := parseProcessStartTime env start, piName := Join command '' '',
      piSource := ''ps''\<rparr>)"
proof -
  let ?ws = "[Itoa pid, Itoa ppid] @ start @ command"
  have ws: "word_list ?ws" using assms(6,7) Itoa_word by (simp add: word_list_def)
  note t = TrimSpace_words [OF ws] Fields_words [OF ws]
  have n: "Sscanf_d (Itoa pid) = Some pid" "Sscanf_d (Itoa ppid) = Some ppid"
    using Sscanf_Itoa [of pid "[]"] Sscanf_Itoa [of ppid "[]"] assms(1-4) by simp_all
  show ?thesis
    using t n assms(5) unfolding parseProcessLine_def Let_def by (cases command) simp_all
qed

subsection \<open>Observed flows\<close>

definition observed_flow :: "NetworkFlowEvent \<Rightarrow> bool" where
  "observed_flow f \<longleftrightarrow> 0 < fPID f \<and> fRemote f \<noteq> [] \<and> fDirection f = ''out'' \<and> fSchema f = SchemaNetworkV0 \<and>
     0 \<le> fBytesIn f \<and> fBytesIn f < 2 ^ 63 \<and> 0 \<le> fBytesOut f \<and> fBytesOut f < 2 ^ 63 \<and>
     fState f \<in> {''new'', ''established'', ''data'', ''closed''} \<and> fProtocol f \<in> {''tcp'', ''udp'', ''quic''}"

lemma nettopProtocol_known: "nettopProtocol t = Some p \<Longrightarrow> p \<in> {''tcp'', ''udp'', ''quic''}"
  by (auto simp: nettopProtocol_def split: if_splits)

lemma parseNettopSocketItem_result:
  "parseNettopSocketItem item = Some (p, l, r) \<Longrightarrow> r \<noteq> [] \<and> p \<in> {''tcp'', ''udp'', ''quic''}"
  by (auto simp: parseNettopSocketItem_def dest!: nettopProtocol_known split: list.splits option.splits if_splits)

lemma normalizeNettopState_result:
  "normalizeNettopState p st = Some s \<Longrightarrow> s \<in> {''new'', ''established'', ''data'', ''closed''}"
  by (auto simp: normalizeNettopState_def Let_def split: if_splits)

lemma nettop_observed:
  assumes "parseNettopCSVRecord env rec processes now current = (NettopFlow f, current')"
  shows "observed_flow f \<and> fPID f = ncPID current"
proof -
  obtain p l r st where "parseNettopSocketItem (TrimSpace (rec ! 1)) = Some (p, l, r)"
    "normalizeNettopState p (rec ! 3) = Some st" "0 < ncPID current"
    "f = nettopFlow env processes now current rec p l r st"
    using assms by (auto simp: parseNettopCSVRecord_def Let_def split: if_splits option.splits)
  then show ?thesis
    using parseNettopSocketItem_result [of "TrimSpace (rec ! 1)" p l r] normalizeNettopState_result [of p "rec ! 3" st]
      parseNettopBytes_bounds
    by (auto simp: observed_flow_def nettopFlow_def Let_def)
qed

text \<open>The flows of one \<open>lsof\<close> run are numbered, so that no two of one process share an identifier.\<close>

definition lsof_ok :: "lsofState \<Rightarrow> bool" where
  "lsof_ok s \<longleftrightarrow> list_all observed_flow (lsFlows s) \<and>
     (\<forall>i < length (lsFlows s). fFlowID (lsFlows s ! i) = ''lsof-'' @ Itoa (fPID (lsFlows s ! i)) @ ''-'' @ show_hex (int i + 1))"

lemma lsof_ok_line: "lsof_ok s \<Longrightarrow> lsof_ok (lsofLine env now processes raw s)"
proof -
  assume ok: "lsof_ok s"
  have "lsof_ok (s\<lparr>lsFlows := lsFlows s @ [lsofFlow env now processes s l r]\<rparr>)" if "0 < lsPID s" "r \<noteq> []" for l r
    using ok that by (auto simp: lsof_ok_def observed_flow_def lsofFlow_def Let_def zeroFlow_def nth_append less_Suc_eq)
  then show ?thesis
    using ok by (auto simp: lsofLine_def lsof_ok_def split: list.split prod.split)
qed

lemma lsof_ok_lines: "lsof_ok s \<Longrightarrow> lsof_ok (fold (lsofLine env now processes) ls s)"
  by (induction ls arbitrary: s) (simp_all add: lsof_ok_line)

lemma hex_char_inj: "a < 16 \<Longrightarrow> b < 16 \<Longrightarrow> hex_char a = hex_char b \<Longrightarrow> a = b"
  by (auto simp: hex_char_def less_Suc_eq eval_nat_numeral split: if_splits)

lemma show_hex_nonempty: "show_hex n \<noteq> []"
  by (subst show_hex.simps) simp

lemma show_hex_inj: "0 \<le> a \<Longrightarrow> 0 \<le> b \<Longrightarrow> show_hex a = show_hex b \<Longrightarrow> a = b"
proof (induction a arbitrary: b rule: show_hex.induct)
  case (1 a)
  have small: "show_hex n = [hex_char (nat n)]" if "n < 16" for n using that by (subst show_hex.simps) simp
  have big: "show_hex n = show_hex (n div 16) @ [hex_char (nat (n mod 16))]" if "\<not> n < 16" for n
    using that by (subst show_hex.simps) simp
  consider "a < 16" "b < 16" | "a < 16" "\<not> b < 16" | "\<not> a < 16" "b < 16" | "\<not> a < 16" "\<not> b < 16" by blast
  then show ?case
  proof cases
    case 1
    then have "nat a = nat b" using "1.prems" small [of a] small [of b] by (intro hex_char_inj) auto
    then show ?thesis using "1.prems" by simp
  next
    case 2
    then show ?thesis using "1.prems"(3) small [of a] big [of b] show_hex_nonempty [of "b div 16"] by auto
  next
    case 3
    then show ?thesis using "1.prems"(3) small [of b] big [of a] show_hex_nonempty [of "a div 16"] by auto
  next
    case 4
    then have eq: "show_hex (a div 16) = show_hex (b div 16)" "hex_char (nat (a mod 16)) = hex_char (nat (b mod 16))"
      using "1.prems"(3) big [of a] big [of b] by simp_all
    have "nat (a mod 16) = nat (b mod 16)" using eq(2) by (intro hex_char_inj) auto
    then have "a mod 16 = b mod 16" by (simp add: eq_nat_nat_iff)
    moreover have "a div 16 = b div 16" using "1.IH" [of "b div 16"] 4 "1.prems" eq(1) by simp
    ultimately show ?thesis by (metis div_mult_mod_eq)
  qed
qed

lemma show_hex_no_dash: "CHR ''-'' \<notin> set (show_hex n)"
proof (induction n rule: show_hex.induct)
  case (1 n)
  have "hex_char d \<noteq> CHR ''-''" if "d < 16" for d
    using that by (auto simp: hex_char_def less_Suc_eq eval_nat_numeral)
  then have "hex_char (nat n) \<noteq> CHR ''-''" if "n < 16" using that by (simp add: nat_less_iff)
  moreover have "hex_char (nat (n mod 16)) \<noteq> CHR ''-''" using \<open>\<And>d. d < 16 \<Longrightarrow> hex_char d \<noteq> CHR ''-''\<close> by (simp add: nat_less_iff)
  ultimately show ?case using 1 by (subst show_hex.simps) auto
qed

lemma last_dash_unique:
  assumes "a @ CHR ''-'' # x = b @ CHR ''-'' # y" "CHR ''-'' \<notin> set x" "CHR ''-'' \<notin> set y"
  shows "x = y"
  using assms by (auto simp: append_eq_append_conv2 Cons_eq_append_conv append_eq_Cons_conv)

lemma lsof_ids_distinct: "lsof_ok s \<Longrightarrow> distinct (map fFlowID (lsFlows s))"
proof (unfold distinct_conv_nth, intro allI impI)
  fix i j
  assume "lsof_ok s" "i < length (map fFlowID (lsFlows s))" "j < length (map fFlowID (lsFlows s))" "i \<noteq> j"
  then show "map fFlowID (lsFlows s) ! i \<noteq> map fFlowID (lsFlows s) ! j"
    using show_hex_inj [of "int i + 1" "int j + 1"]
      last_dash_unique [of "''lsof-'' @ Itoa (fPID (lsFlows s ! i))" "show_hex (int i + 1)"
        "''lsof-'' @ Itoa (fPID (lsFlows s ! j))" "show_hex (int j + 1)"] show_hex_no_dash
    by (auto simp: lsof_ok_def)
qed

section \<open>Properties\<close>

text \<open>A line of the process listing: PID, parent, start time in five words and the words of the command.\<close>

record ps_entry =
  pePID :: int
  pePPID :: int
  peStart :: "string list"
  peCommand :: "string list"

definition ps_line :: "ps_entry \<Rightarrow> string" where
  "ps_line e = Join ([Itoa (pePID e), Itoa (pePPID e)] @ peStart e @ peCommand e) '' ''"

definition ps_info :: "ExecEnv \<Rightarrow> ps_entry \<Rightarrow> ProcessInfo" where
  "ps_info env e = zeroProcess\<lparr>piPID := pePID e, piPPID := pePPID e, piStartedAt := parseProcessStartTime env (peStart e),
     piName := Join (peCommand e) '' '', piSource := ''ps''\<rparr>"

definition ps_printable :: "ps_entry \<Rightarrow> bool" where
  "ps_printable e \<longleftrightarrow> - (2 ^ 63) \<le> pePID e \<and> pePID e < 2 ^ 63 \<and> - (2 ^ 63) \<le> pePPID e \<and> pePPID e < 2 ^ 63 \<and>
     length (peStart e) = 5 \<and> word_list (peStart e) \<and> word_list (peCommand e)"

lemma ps_line_parsed: "ps_printable e \<Longrightarrow> parseProcessLine env (ps_line e) = Some (pePID e, ps_info env e)"
  unfolding ps_printable_def ps_line_def ps_info_def by (rule parseProcessLine_printed) auto

lemma set_Join: "c \<in> set (Join ws sep) \<Longrightarrow> c \<in> set sep \<or> (\<exists>w \<in> set ws. c \<in> set w)"
  by (induction ws sep rule: Join.induct) auto

lemma word_list_no_newline: "word_list ws \<Longrightarrow> w \<in> set ws \<Longrightarrow> CHR 0x0A \<notin> set w"
proof
  assume "word_list ws" "w \<in> set ws" "CHR 0x0A \<in> set w"
  then have "\<not> is_space (CHR 0x0A)" unfolding word_list_def list_all_iff by blast
  then show False by (simp add: is_space_def)
qed

lemma ps_line_one_line:
  assumes "ps_printable e"
  shows "CHR 0x0A \<notin> set (ps_line e)"
proof
  let ?ws = "[Itoa (pePID e), Itoa (pePPID e)] @ peStart e @ peCommand e"
  assume "CHR 0x0A \<in> set (ps_line e)"
  then obtain w where w: "w \<in> set ?ws" "CHR 0x0A \<in> set w"
    unfolding ps_line_def using set_Join [of "CHR 0x0A" ?ws "'' ''"] by auto
  have "word_list ?ws" using assms Itoa_word by (simp add: ps_printable_def word_list_def)
  from word_list_no_newline [OF this w(1)] w(2) show False by contradiction
qed

lemma mput_fresh: "k \<notin> fst ` set m \<Longrightarrow> mput k v m = m @ [(k, v)]"
  by (induction m) auto

lemma parse_lines:
  assumes "list_all ps_printable es" "distinct (map fst t @ map pePID es)"
  shows "fold (\<lambda>raw table. case parseProcessLine env raw of Some (pid, info) \<Rightarrow> mput pid info table | None \<Rightarrow> table) (map ps_line es) t =
    t @ map (\<lambda>e. (pePID e, ps_info env e)) es"
  using assms
proof (induction es arbitrary: t)
  case (Cons e es)
  have "mput (pePID e) (ps_info env e) t = t @ [(pePID e, ps_info env e)]" using Cons.prems(2) by (intro mput_fresh) auto
  then show ?case using Cons ps_line_parsed [of e env] by simp
qed simp

text \<open>The process table is read back exactly: for any listing of processes with distinct PIDs (each line holding
  the PID, the parent, the five words of the start time and a command of words), parsing the printed text gives
  one entry per process, in order, with those values and the start time as the clock library parses it.\<close>

theorem process_table_roundtrip:
  assumes "es \<noteq> []" "list_all ps_printable es" "distinct (map pePID es)"
  shows "parseProcessTableOutput env (Join (map ps_line es) [CHR 0x0A]) = map (\<lambda>e. (pePID e, ps_info env e)) es"
proof -
  have "Split (Join (map ps_line es) [CHR 0x0A]) [CHR 0x0A] = map ps_line es"
    using assms(1,2) ps_line_one_line by (intro Split_Join) (auto simp: list_all_iff)
  then show ?thesis using parse_lines [of es "[]" env] assms(2,3) by (simp add: parseProcessTableOutput_def)
qed

definition demoEntry :: ps_entry where
  "demoEntry = \<lparr>pePID = 42, pePPID = 1, peStart = [''Mon'', ''Jan'', ''5'', ''10:00:00'', ''2026''], peCommand = [''claude'', ''-p'']\<rparr>"

definition demoExec :: ExecEnv where
  "demoExec = \<lparr>exHome = ''/h'', isFile = (\<lambda>p. False), LookPath = (\<lambda>c. None), parseStart = (\<lambda>t. Some 7)\<rparr>"

theorem process_table_roundtrip_witness:
  "parseProcessTableOutput demoExec (Join (map ps_line [demoEntry]) [CHR 0x0A]) = [(42, ps_info demoExec demoEntry)]"
proof -
  have "ps_printable demoEntry" by (simp add: ps_printable_def demoEntry_def word_list_def is_space_def)
  then show ?thesis using process_table_roundtrip [of "[demoEntry]" demoExec] by (simp add: demoEntry_def)
qed

text \<open>C30. Every flow the fallback observers report is usable evidence: it has a positive PID, a remote end, the
  direction out, byte counts within 63 bits and a known state and protocol, whatever \<open>lsof\<close> or \<open>nettop\<close> print; a
  \<open>nettop\<close> flow belongs to the process whose row came before; and no two flows of an \<open>lsof\<close> run share an
  identifier. The tables the observers work with list each process once, under its own PID.\<close>

theorem observed_flows_usable:
  "(\<forall>flows. snapshotEstablishedTCP env now processes out = Some flows \<longrightarrow> list_all observed_flow flows \<and> distinct (map fFlowID flows)) \<and>
   (\<forall>f current'. parseNettopCSVLine env line processes now current = (NettopFlow f, current') \<longrightarrow> observed_flow f \<and> fPID f = ncPID current) \<and>
   keyed (parseProcessTableOutput env text1) \<and> wf_map (parseProcessTableOutput env text1)"
proof -
  have "lsof_ok (fold (lsofLine env now processes) ls \<lparr>lsPID = 0, lsProc = [], lsFlows = []\<rparr>)" for ls
    by (rule lsof_ok_lines) (simp add: lsof_ok_def)
  then have "list_all observed_flow flows \<and> distinct (map fFlowID flows)"
    if "snapshotEstablishedTCP env now processes out = Some flows" for flows
    using that lsof_ids_distinct by (auto simp: snapshotEstablishedTCP_def lsof_ok_def)
  moreover have "observed_flow f \<and> fPID f = ncPID current" if "parseNettopCSVLine env line processes now current = (NettopFlow f, current')" for f current'
    using that nettop_observed by (fastforce simp: parseNettopCSVLine_def split: option.splits)
  ultimately show ?thesis using keyed_parseTable by blast
qed

definition demoLsof :: string where
  "demoLsof = Join [''p42'', ''cclaude'', ''n10.0.0.1:5->9.9.9.9:443'', ''n10.0.0.1:6->9.9.9.8:443''] [CHR 0x0A]"

lemma demoLsof_flows: "map_option length (snapshotEstablishedTCP demoExec 5 [] (Some demoLsof)) = Some 2"
  by code_simp

theorem observed_flows_usable_witness:
  "\<exists>flows. snapshotEstablishedTCP demoExec 5 [] (Some demoLsof) = Some flows \<and> length flows = 2 \<and>
     list_all observed_flow flows \<and> distinct (map fFlowID flows)"
  using observed_flows_usable [of demoExec 5 "[]" "Some demoLsof"] demoLsof_flows by auto

end
