(* ===== verification/Daemon_Sessions.thy ===== *)
theory Daemon_Sessions
  imports Daemon_Monitor Daemon_Observe Corr_Machine
begin

text \<open>
  \<open>cmd/daemon/sessions.go\<close>: the sessions the daemon keeps, each with its correlator state and its sub-agent
  monitor, and the flows that wait for a session to claim them. A pointer to a session is the session's value;
  \<open>putSession\<close> writes a changed session back, and does nothing when the session was removed in between, as a write
  through a pointer to a removed session does nothing to the map. A range over the map takes the order of the
  association list; \<open>clk\<close> is the clock reading of the call. The purge of inspection payloads a pruned session
  starts in the background is not part of this state.
\<close>

section \<open>State\<close>

definition defaultDaemonSessionIdle :: duration where [time_defs]: "defaultDaemonSessionIdle = 90 * Second"
definition maxPendingNetworkFlows :: nat where "maxPendingNetworkFlows = 100"
definition rawNetworkVisibilityTTL :: duration where [time_defs]: "rawNetworkVisibilityTTL = 10 * Minute"

record daemonSession =
  dsID :: string
  dsState :: SessionState
  dsSubagents :: subagentMonitor
  dsLastActivity :: time
  dsRawSeen :: "(string, time) gomap"

record daemonSessions =
  dsMap :: "(string, daemonSession) gomap"
  dsPending :: "NetworkFlowEvent list"
  dsUnattributedSeen :: "(string, time) gomap"

definition newDaemonSessions :: daemonSessions where
  "newDaemonSessions = \<lparr>dsMap = [], dsPending = [], dsUnattributedSeen = []\<rparr>"

definition normalizedSessionID :: "string \<Rightarrow> string" where
  "normalizedSessionID sid = (if TrimSpace sid = [] then ''unknown-session'' else TrimSpace sid)"

definition newSession :: "time \<Rightarrow> string \<Rightarrow> daemonSession" where
  "newSession clk sid = \<lparr>dsID = sid, dsState = NewSessionState clk, dsSubagents = newSubagentMonitor, dsLastActivity = clk, dsRawSeen = []\<rparr>"

section \<open>Operations\<close>

definition getOrCreate :: "time \<Rightarrow> string \<Rightarrow> daemonSessions \<Rightarrow> daemonSession \<times> daemonSessions" where
  "getOrCreate clk sid0 ss =
     (let sid = normalizedSessionID sid0
      in case mget (dsMap ss) sid of
           Some sess \<Rightarrow> (sess, ss)
         | None \<Rightarrow> (newSession clk sid, ss\<lparr>dsMap := mput sid (newSession clk sid) (dsMap ss)\<rparr>))"

definition forSemantic :: "time \<Rightarrow> SemanticEvent \<Rightarrow> daemonSessions \<Rightarrow> daemonSession \<times> daemonSessions" where
  "forSemantic clk ev ss = getOrCreate clk (sessID (sSession ev)) ss"

definition getExisting :: "string \<Rightarrow> daemonSessions \<Rightarrow> daemonSession option" where
  "getExisting sid ss = mget (dsMap ss) (normalizedSessionID sid)"

definition putSession :: "daemonSession \<Rightarrow> daemonSessions \<Rightarrow> daemonSessions" where
  "putSession sess ss = (if mhas (dsMap ss) (dsID sess) then ss\<lparr>dsMap := mput (dsID sess) sess (dsMap ss)\<rparr> else ss)"

text \<open>The session as the map holds it after the call comes back as well, for the callers that go on with the
  pointer.\<close>

definition recordActivity :: "time \<Rightarrow> daemonSession \<Rightarrow> time \<Rightarrow> daemonSessions \<Rightarrow> daemonSession \<times> daemonSessions" where
  "recordActivity clk sess at0 ss =
     (let at1 = (if IsZero at0 then clk else at0)
      in if \<not> mhas (dsMap ss) (dsID sess) then (sess, ss)
         else
           let sess' = (if IsZero (dsLastActivity sess) \<or> at1 > dsLastActivity sess then sess\<lparr>dsLastActivity := at1\<rparr> else sess)
           in (sess', putSession sess' ss))"

text \<open>\<open>list()\<close> followed by a loop that calls \<open>f\<close> on every session, threading what the loop accumulates.\<close>

definition sessionList :: "daemonSessions \<Rightarrow> daemonSession list" where
  "sessionList ss = map snd (dsMap ss)"

fun each_session :: "('a \<Rightarrow> daemonSession \<Rightarrow> 'a \<times> daemonSession) \<Rightarrow> 'a \<Rightarrow> (string, daemonSession) gomap \<Rightarrow> 'a \<times> (string, daemonSession) gomap" where
  "each_session f acc [] = (acc, [])"
| "each_session f acc ((sid, sess) # m) =
     (case f acc sess of (acc', sess') \<Rightarrow> (case each_session f acc' m of (acc'', m') \<Rightarrow> (acc'', (sid, sess') # m')))"

definition forEach :: "('a \<Rightarrow> daemonSession \<Rightarrow> 'a \<times> daemonSession) \<Rightarrow> 'a \<Rightarrow> daemonSessions \<Rightarrow> 'a \<times> daemonSessions" where
  "forEach f acc ss = (case each_session f acc (dsMap ss) of (acc', m) \<Rightarrow> (acc', ss\<lparr>dsMap := m\<rparr>))"

definition pendingFlowExpired :: "time \<Rightarrow> NetworkFlowEvent \<Rightarrow> bool" where
  "pendingFlowExpired now flow = (if IsZero (fTS flow) then False else time_sub now (fTS flow) > ExistingConnectionWindow)"

definition prunePendingFlowsLocked :: "time \<Rightarrow> daemonSessions \<Rightarrow> daemonSessions" where
  "prunePendingFlowsLocked now ss = ss\<lparr>dsPending := filter (\<lambda>f. \<not> pendingFlowExpired now f) (dsPending ss)\<rparr>"

definition holdPendingNetworkFlow :: "time \<Rightarrow> NetworkFlowEvent \<Rightarrow> time \<Rightarrow> daemonSessions \<Rightarrow> daemonSessions" where
  "holdPendingNetworkFlow clk nf now0 ss =
     (let now = (if IsZero now0 then clk else now0); s1 = prunePendingFlowsLocked now ss
      in s1\<lparr>dsPending := append_trim maxPendingNetworkFlows nf (dsPending s1)\<rparr>)"

text \<open>The match of a flow prunes the session's state; the loop threads it.\<close>

fun drain_loop :: "time \<Rightarrow> time \<Rightarrow> NetworkFlowEvent list \<Rightarrow> SessionState \<Rightarrow> NetworkFlowEvent list \<times> NetworkFlowEvent list \<times> SessionState" where
  "drain_loop clk now [] st = ([], [], st)"
| "drain_loop clk now (flow # flows) st =
     (if pendingFlowExpired now flow then drain_loop clk now flows st
      else case MatchesNetworkFlow clk flow st of
             (hit, st') \<Rightarrow>
               (case drain_loop clk now flows st' of
                  (matched, kept, st'') \<Rightarrow>
                    if hit then (flow # matched, kept, st'') else (matched, flow # kept, st'')))"

definition drainPendingForSession ::
    "time \<Rightarrow> daemonSession \<Rightarrow> time \<Rightarrow> daemonSessions \<Rightarrow> NetworkFlowEvent list \<times> daemonSession \<times> daemonSessions" where
  "drainPendingForSession clk sess now0 ss =
     (let now = (if IsZero now0 then clk else now0)
      in case drain_loop clk now (dsPending ss) (dsState sess) of
           (matched, kept, st) \<Rightarrow>
             let sess' = sess\<lparr>dsState := st\<rparr> in (matched, sess', putSession sess' (ss\<lparr>dsPending := kept\<rparr>)))"

definition idleSession :: "time \<Rightarrow> duration \<Rightarrow> daemonSession \<Rightarrow> bool" where
  "idleSession now idle sess =
     (let prev = (if IsZero (dsLastActivity sess) then StartTime (dsState sess) else dsLastActivity sess)
      in \<not> time_sub now prev \<le> idle)"

fun prune_sessions :: "time \<Rightarrow> time \<Rightarrow> proc_table \<Rightarrow> duration \<Rightarrow> (string, daemonSession) gomap \<Rightarrow> (string, daemonSession) gomap" where
  "prune_sessions clk now processes idle [] = []"
| "prune_sessions clk now processes idle ((sid, sess) # m) =
     (let rest = prune_sessions clk now processes idle m
      in if \<not> idleSession now idle sess then (sid, sess) # rest
         else case HasLiveAgentPID clk processes (dsState sess) of
                (live, st) \<Rightarrow> if live then (sid, sess\<lparr>dsState := st\<rparr>) # rest else rest)"

definition pruneIdle :: "time \<Rightarrow> time \<Rightarrow> proc_table \<Rightarrow> duration \<Rightarrow> daemonSessions \<Rightarrow> daemonSessions" where
  "pruneIdle clk now0 processes idle ss =
     (if idle \<le> 0 then ss
      else
        let now = (if IsZero now0 then clk else now0)
        in prunePendingFlowsLocked now (ss\<lparr>dsMap := prune_sessions clk now processes idle (dsMap ss)\<rparr>))"

text \<open>\<open>ApplyProcessSnapshot\<close> annotates the caller's process table, so the loops thread the table.\<close>

definition snapshotSession :: "time \<Rightarrow> proc_table \<Rightarrow> daemonSession \<Rightarrow> proc_table \<times> daemonSession" where
  "snapshotSession clk processes sess =
     (case ApplyProcessSnapshot clk processes (dsState sess) of (processes', st) \<Rightarrow> (processes', sess\<lparr>dsState := st\<rparr>))"

definition observeSession ::
    "SideFS \<Rightarrow> (int \<Rightarrow> string) \<Rightarrow> time \<Rightarrow> proc_table \<Rightarrow> daemonSession \<Rightarrow> subagentEvents \<times> daemonSession" where
  "observeSession fs cwdForPID clk processes sess =
     (case observe fs processes cwdForPID clk (dsSubagents sess) of (m, e) \<Rightarrow> (e, sess\<lparr>dsSubagents := m\<rparr>))"

definition snapshotAndObserve ::
    "SideFS \<Rightarrow> (int \<Rightarrow> string) \<Rightarrow> time \<Rightarrow> proc_table \<times> subagentEvents \<Rightarrow> daemonSession \<Rightarrow> (proc_table \<times> subagentEvents) \<times> daemonSession" where
  "snapshotAndObserve fs cwdForPID clk = (\<lambda>(ps, out) sess.
     case snapshotSession clk ps sess of
       (ps', sess1) \<Rightarrow> (case observeSession fs cwdForPID clk ps' sess1 of (e, sess2) \<Rightarrow> ((ps', appendEvents out e), sess2)))"

definition applyProcessSnapshot ::
    "SideFS \<Rightarrow> (int \<Rightarrow> string) \<Rightarrow> time \<Rightarrow> proc_table \<Rightarrow> daemonSessions \<Rightarrow> subagentEvents \<times> daemonSessions" where
  "applyProcessSnapshot fs cwdForPID clk processes ss =
     (case forEach (snapshotAndObserve fs cwdForPID clk) (processes, noEvents) ss of
        ((ps, out), ss1) \<Rightarrow> (out, pruneIdle clk clk ps defaultDaemonSessionIdle ss1))"

definition applyProcessSnapshotToStates :: "time \<Rightarrow> proc_table \<Rightarrow> daemonSessions \<Rightarrow> proc_table \<times> daemonSessions" where
  "applyProcessSnapshotToStates clk processes ss =
     (case forEach (\<lambda>ps sess. snapshotSession clk ps sess) processes ss of
        (ps, ss1) \<Rightarrow> (ps, pruneIdle clk clk ps defaultDaemonSessionIdle ss1))"

definition matchSession :: "time \<Rightarrow> NetworkFlowEvent \<Rightarrow> daemonSession \<Rightarrow> bool \<times> daemonSession" where
  "matchSession clk nf sess =
     (case MatchesNetworkFlow clk nf (dsState sess) of (hit, st) \<Rightarrow> (hit, sess\<lparr>dsState := st\<rparr>))"

text \<open>The candidates are collected before the idle sessions go; a candidate that stays is the one the map holds.\<close>

definition currentSession :: "daemonSessions \<Rightarrow> daemonSession \<Rightarrow> daemonSession" where
  "currentSession ss sess = (case mget (dsMap ss) (dsID sess) of Some s \<Rightarrow> s | None \<Rightarrow> sess)"

definition snapshotAndMatch ::
    "time \<Rightarrow> NetworkFlowEvent \<Rightarrow> proc_table \<times> daemonSession list \<Rightarrow> daemonSession \<Rightarrow> (proc_table \<times> daemonSession list) \<times> daemonSession" where
  "snapshotAndMatch clk nf = (\<lambda>(ps, out) sess.
     case snapshotSession clk ps sess of
       (ps', sess1) \<Rightarrow> (case matchSession clk nf sess1 of (hit, sess2) \<Rightarrow> ((ps', if hit then out @ [sess2] else out), sess2)))"

definition applyProcessSnapshotAndMatch ::
    "time \<Rightarrow> proc_table \<Rightarrow> NetworkFlowEvent \<Rightarrow> daemonSessions \<Rightarrow> daemonSession list \<times> proc_table \<times> daemonSessions" where
  "applyProcessSnapshotAndMatch clk processes nf ss =
     (case forEach (snapshotAndMatch clk nf) (processes, []) ss of
        ((ps, out), ss1) \<Rightarrow>
          let ss2 = pruneIdle clk clk ps defaultDaemonSessionIdle ss1 in (map (currentSession ss2) out, ps, ss2))"

definition candidatesForNetwork :: "time \<Rightarrow> NetworkFlowEvent \<Rightarrow> daemonSessions \<Rightarrow> daemonSession list \<times> daemonSessions" where
  "candidatesForNetwork clk nf ss =
     forEach (\<lambda>out sess. case matchSession clk nf sess of (hit, sess') \<Rightarrow> (if hit then out @ [sess'] else out, sess')) [] ss"

text \<open>The two questions stop at the first session that answers yes.\<close>

definition anySessionMatchesNetworkFlow :: "time \<Rightarrow> NetworkFlowEvent \<Rightarrow> daemonSessions \<Rightarrow> bool \<times> daemonSessions" where
  "anySessionMatchesNetworkFlow clk nf ss =
     forEach (\<lambda>found sess. if found then (True, sess) else matchSession clk nf sess) False ss"

definition anyAgentPID :: "time \<Rightarrow> int \<Rightarrow> daemonSessions \<Rightarrow> bool \<times> daemonSessions" where
  "anyAgentPID clk pid ss =
     (if pid \<le> 0 then (False, ss)
      else forEach (\<lambda>found sess. if found then (True, sess)
                      else case IsAgentPID clk pid (dsState sess) of (hit, st) \<Rightarrow> (hit, sess\<lparr>dsState := st\<rparr>)) False ss)"

definition pendingCount :: "daemonSessions \<Rightarrow> nat" where
  "pendingCount ss = length (dsPending ss)"

section \<open>The interface of the waiting room\<close>

interpretation pending_ring: bounded_buffer "append_trim maxPendingNetworkFlows" maxPendingNetworkFlows
  by unfold_locales (simp_all add: append_trim_def Let_def)

interpretation raw_cache: ttl_cache "prune_instants rawNetworkVisibilityTTL" rawNetworkVisibilityTTL
  by unfold_locales (simp_all add: prune_instants_lookup, simp add: prune_instants_def)

section \<open>Lemmas\<close>

subsection \<open>Matching\<close>

text \<open>Asking about one flow does not change the answer about another.\<close>

definition flow_matches :: "time \<Rightarrow> SessionState \<Rightarrow> NetworkFlowEvent \<Rightarrow> bool" where
  "flow_matches clk st flow = fst (MatchesNetworkFlow clk flow st)"

lemma pruneAll_graph:
  "Processes (pruneAll clk s) = filter (\<lambda>(pid, info). \<not> processExpired clk info) (Processes s)"
  "KnownPIDs (pruneAll clk s) =
     filter (\<lambda>pid. pid \<notin> set (map fst (filter (\<lambda>(pid, info). processExpired clk info) (Processes s)))) (KnownPIDs s)"
  by (simp_all add: pruneAll_def pruneCorrelationCachesLocked_def pruneExpiredProcessesLocked_def Let_def split: prod.split)

lemma pruneAll_twice:
  "Processes (pruneAll clk (pruneAll clk s)) = Processes (pruneAll clk s)"
  "KnownPIDs (pruneAll clk (pruneAll clk s)) = KnownPIDs (pruneAll clk s)"
proof -
  show "Processes (pruneAll clk (pruneAll clk s)) = Processes (pruneAll clk s)" by (auto simp: pruneAll_graph)
  have "filter (\<lambda>(pid, info). processExpired clk info) (Processes (pruneAll clk s)) = []"
    by (auto simp: pruneAll_graph filter_empty_conv)
  then show "KnownPIDs (pruneAll clk (pruneAll clk s)) = KnownPIDs (pruneAll clk s)"
    using pruneAll_graph(2) [of clk "pruneAll clk s"] by simp
qed

lemma lineage_walk_graph:
  "Processes s = Processes t \<Longrightarrow> KnownPIDs s = KnownPIDs t \<Longrightarrow> lineage_walk n s out seen p = lineage_walk n t out seen p"
  by (induction n arbitrary: out seen p) (simp_all add: pidInSet_def Let_def split: option.split)

lemma matches_graph:
  assumes "Processes s = Processes t" "KnownPIDs s = KnownPIDs t"
  shows "trackedLineageLocked s ps = trackedLineageLocked t ps" "pidInSet s = pidInSet t"
  using lineage_walk_graph [OF assms] assms by (simp_all add: trackedLineageLocked_def pidInSet_def fun_eq_iff)

lemma flow_matches_pruned: "flow_matches clk (snd (MatchesNetworkFlow clk g st)) f = flow_matches clk st f"
  using matches_graph [OF pruneAll_twice(1,2) [of clk st]] by (simp add: flow_matches_def MatchesNetworkFlow_def Let_def)

text \<open>Draining splits the waiting flows: the expired go, the rest is divided by whether the session owns it.\<close>

lemma drain_loop_split:
  "drain_loop clk now flows st = (matched, kept, st') \<Longrightarrow>
   matched = filter (\<lambda>f. \<not> pendingFlowExpired now f \<and> flow_matches clk st f) flows \<and>
   kept = filter (\<lambda>f. \<not> pendingFlowExpired now f \<and> \<not> flow_matches clk st f) flows \<and> (wf_session st \<longrightarrow> wf_session st')"
proof (induction flows arbitrary: st matched kept st')
  case (Cons f flows)
  show ?case
  proof (cases "pendingFlowExpired now f")
    case False
    obtain hit st1 where m: "MatchesNetworkFlow clk f st = (hit, st1)" by fastforce
    obtain ma ke st2 where d: "drain_loop clk now flows st1 = (ma, ke, st2)" using prod_cases3 by blast
    have same: "flow_matches clk st1 g = flow_matches clk st g" for g
      using flow_matches_pruned [of clk f st g] m by simp
    have wf: "wf_session st \<Longrightarrow> wf_session st1" using m by (auto simp: MatchesNetworkFlow_def Let_def)
    have hit: "flow_matches clk st f = hit" by (simp add: flow_matches_def m)
    note IH = Cons.IH [OF d, unfolded same]
    have res: "(matched, kept, st') = (if hit then (f # ma, ke, st2) else (ma, f # ke, st2))"
      using Cons.prems False m d by (simp split: if_splits)
    show ?thesis using res IH wf hit False by (cases hit) simp_all
  qed (use Cons in auto)
qed simp

subsection \<open>The invariant\<close>

definition wf_daemon_session :: "daemonSession \<Rightarrow> bool" where
  "wf_daemon_session sess \<longleftrightarrow> wf_session (dsState sess) \<and> wf_monitor (dsSubagents sess) \<and> wf_map (dsRawSeen sess)"

definition wf_sessions :: "daemonSessions \<Rightarrow> bool" where
  "wf_sessions ss \<longleftrightarrow> wf_map (dsMap ss) \<and> list_all (\<lambda>(sid, sess). dsID sess = sid \<and> wf_daemon_session sess) (dsMap ss) \<and>
     length (dsPending ss) \<le> maxPendingNetworkFlows \<and> wf_map (dsUnattributedSeen ss)"

lemma wf_sessionsD: "wf_sessions ss \<Longrightarrow> mget (dsMap ss) sid = Some sess \<Longrightarrow> dsID sess = sid \<and> wf_daemon_session sess"
  by (auto simp: wf_sessions_def list_all_iff dest!: map_of_SomeD)

lemma wf_new_monitor: "wf_monitor newSubagentMonitor"
  by (simp add: wf_monitor_def newSubagentMonitor_def)

lemma wf_newSession: "wf_daemon_session (newSession clk sid)"
  by (simp add: wf_daemon_session_def newSession_def wf_session_New wf_new_monitor wf_map_def)

lemma wf_sessions_new: "wf_sessions newDaemonSessions"
  by (simp add: wf_sessions_def newDaemonSessions_def wf_map_def)

lemma list_all_mput:
  "list_all (\<lambda>(k, v). P k v) m \<Longrightarrow> P k v \<Longrightarrow> list_all (\<lambda>(k, v). P k v) (mput k v m)"
  by (induction m) auto

lemma wf_sessions_mput:
  "wf_sessions ss \<Longrightarrow> dsID sess = sid \<Longrightarrow> wf_daemon_session sess \<Longrightarrow> wf_sessions (ss\<lparr>dsMap := mput sid sess (dsMap ss)\<rparr>)"
  by (auto simp: wf_sessions_def intro!: list_all_mput)

lemma wf_putSession: "wf_sessions ss \<Longrightarrow> wf_daemon_session sess \<Longrightarrow> wf_sessions (putSession sess ss)"
  by (simp add: putSession_def wf_sessions_mput)

lemma wf_getOrCreate:
  "wf_sessions ss \<Longrightarrow> getOrCreate clk sid ss = (sess, ss') \<Longrightarrow>
   wf_sessions ss' \<and> wf_daemon_session sess \<and> dsID sess = normalizedSessionID sid \<and> mget (dsMap ss') (dsID sess) = Some sess"
  using wf_sessionsD [of ss "normalizedSessionID sid"] wf_newSession [of clk "normalizedSessionID sid"]
    wf_sessions_mput [of ss "newSession clk (normalizedSessionID sid)"]
  by (auto simp: getOrCreate_def Let_def newSession_def split: option.splits)

lemma wf_recordActivity:
  "wf_sessions ss \<Longrightarrow> wf_daemon_session sess \<Longrightarrow> recordActivity clk sess at1 ss = (sess', ss') \<Longrightarrow>
   wf_sessions ss' \<and> wf_daemon_session sess' \<and> dsID sess' = dsID sess \<and> dsState sess' = dsState sess \<and> dsSubagents sess' = dsSubagents sess"
  by (auto simp: recordActivity_def Let_def wf_daemon_session_def intro!: wf_putSession split: if_splits)

lemma each_session_inv:
  assumes "\<And>acc sess. P acc \<Longrightarrow> wf_daemon_session sess \<Longrightarrow>
      P (fst (f acc sess)) \<and> wf_daemon_session (snd (f acc sess)) \<and> dsID (snd (f acc sess)) = dsID sess"
    and "P acc" "list_all (\<lambda>(sid, sess). dsID sess = sid \<and> wf_daemon_session sess) m" "each_session f acc m = (acc', m')"
  shows "P acc' \<and> list_all (\<lambda>(sid, sess). dsID sess = sid \<and> wf_daemon_session sess) m' \<and> map fst m' = map fst m"
  using assms(2-)
proof (induction m arbitrary: acc m')
  case (Cons p m)
  obtain sid sess where p: "p = (sid, sess)" by fastforce
  obtain a1 s1 where a1: "f acc sess = (a1, s1)" by fastforce
  obtain a2 m2 where a2: "each_session f a1 m = (a2, m2)" by fastforce
  have sess: "dsID sess = sid" "wf_daemon_session sess" using Cons.prems(2) p by simp_all
  have "P a1 \<and> wf_daemon_session s1 \<and> dsID s1 = sid" using assms(1) [OF Cons.prems(1) sess(2)] a1 sess(1) by simp
  moreover have "acc' = a2" "m' = (sid, s1) # m2" using Cons.prems(3) p a1 a2 by simp_all
  ultimately show ?case using Cons.IH [of a1 m2] Cons.prems(2) p a2 by simp
qed simp

lemma wf_forEach:
  assumes "\<And>acc sess. P acc \<Longrightarrow> wf_daemon_session sess \<Longrightarrow>
      P (fst (f acc sess)) \<and> wf_daemon_session (snd (f acc sess)) \<and> dsID (snd (f acc sess)) = dsID sess"
    and "P acc" "wf_sessions ss" "forEach f acc ss = (acc', ss')"
  shows "P acc' \<and> wf_sessions ss'"
proof -
  obtain m where m: "each_session f acc (dsMap ss) = (acc', m)" "ss' = ss\<lparr>dsMap := m\<rparr>"
    using assms(4) by (auto simp: forEach_def split: prod.splits)
  have "P acc' \<and> list_all (\<lambda>(sid, sess). dsID sess = sid \<and> wf_daemon_session sess) m \<and> map fst m = map fst (dsMap ss)"
    using assms(3) by (intro each_session_inv [OF assms(1) assms(2) _ m(1)]) (auto simp: wf_sessions_def)
  then show ?thesis using assms(3) m(2) by (simp add: wf_sessions_def wf_map_def)
qed

lemma wf_snapshotSession:
  assumes "wf_map ps" "wf_daemon_session sess" "snapshotSession clk ps sess = (ps', sess')"
  shows "wf_map ps' \<and> wf_daemon_session sess' \<and> dsID sess' = dsID sess"
proof -
  have "wf_map (fst (ApplyProcessSnapshot clk ps st))" for st
    using assms(1) by (auto simp: ApplyProcessSnapshot_def annotateSnapshot_def wf_map_def Let_def comp_def case_prod_beta)
  moreover have "wf_session (snd (ApplyProcessSnapshot clk ps (dsState sess)))"
    using assms(2) by (simp add: wf_session_ApplyProcessSnapshot wf_daemon_session_def)
  ultimately show ?thesis
    using assms(2,3) by (auto simp: snapshotSession_def wf_daemon_session_def split: prod.splits) (metis fst_conv)
qed

lemma wf_observeSession:
  assumes "wf_map ps" "wf_daemon_session sess" "observeSession fs cwd clk ps sess = (e, sess')"
  shows "wf_daemon_session sess' \<and> dsID sess' = dsID sess"
  using assms wf_observe [of ps fs cwd clk "dsSubagents sess"]
  by (auto simp: observeSession_def wf_daemon_session_def wf_map_def split: prod.splits)

lemma wf_matchSession:
  "wf_daemon_session sess \<Longrightarrow> matchSession clk nf sess = (hit, sess') \<Longrightarrow> wf_daemon_session sess' \<and> dsID sess' = dsID sess"
  by (auto simp: matchSession_def wf_daemon_session_def MatchesNetworkFlow_def Let_def)

lemma wf_prunePending: "wf_sessions ss \<Longrightarrow> wf_sessions (prunePendingFlowsLocked now ss)"
  by (auto simp: wf_sessions_def prunePendingFlowsLocked_def intro: le_trans [OF length_filter_le])

lemma prune_sessions_keys: "set (map fst (prune_sessions clk now ps idle m)) \<subseteq> set (map fst m)"
  by (induction m rule: prune_sessions.induct) (auto simp: Let_def split: prod.splits if_splits)

lemma wf_prune_sessions:
  assumes "wf_map m" "list_all (\<lambda>(sid, sess). dsID sess = sid \<and> wf_daemon_session sess) m"
  shows "wf_map (prune_sessions clk now ps idle m) \<and>
    list_all (\<lambda>(sid, sess). dsID sess = sid \<and> wf_daemon_session sess) (prune_sessions clk now ps idle m)"
  using assms
proof (induction clk now ps idle m rule: prune_sessions.induct)
  case (2 clk now ps idle sid sess m)
  have "sid \<notin> fst ` set (prune_sessions clk now ps idle m)"
    using "2.prems"(1) prune_sessions_keys [of clk now ps idle m] by (auto simp: wf_map_def)
  moreover have "wf_session (snd (HasLiveAgentPID clk ps (dsState sess)))"
    using "2.prems"(2) by (simp add: HasLiveAgentPID_def wf_daemon_session_def Let_def)
  ultimately show ?case
    using 2 by (auto simp: wf_map_def wf_daemon_session_def Let_def split: prod.split)
qed simp

lemma wf_pruneIdle: "wf_sessions ss \<Longrightarrow> wf_sessions (pruneIdle clk now ps idle ss)"
  using wf_prune_sessions [of "dsMap ss" clk "if IsZero now then clk else now" ps idle]
  by (auto simp: pruneIdle_def Let_def wf_sessions_def prunePendingFlowsLocked_def intro: le_trans [OF length_filter_le])

lemma wf_holdPending: "wf_sessions ss \<Longrightarrow> wf_sessions (holdPendingNetworkFlow clk nf now ss)"
  by (simp add: holdPendingNetworkFlow_def Let_def wf_sessions_def prunePendingFlowsLocked_def pending_ring.push_length)

lemma wf_drainPending:
  assumes "wf_sessions ss" "wf_daemon_session sess" "drainPendingForSession clk sess now ss = (matched, sess', ss')"
  shows "wf_sessions ss' \<and> wf_daemon_session sess' \<and> dsID sess' = dsID sess"
proof -
  obtain ma ke st where d: "drain_loop clk (if IsZero now then clk else now) (dsPending ss) (dsState sess) = (ma, ke, st)"
    using prod_cases3 by blast
  note split = drain_loop_split [OF d]
  have "length ke \<le> length (dsPending ss)" using split by (metis length_filter_le)
  then have "wf_sessions (ss\<lparr>dsPending := ke\<rparr>)" using assms(1) by (simp add: wf_sessions_def)
  moreover have "wf_daemon_session (sess\<lparr>dsState := st\<rparr>)" using split assms(2) by (simp add: wf_daemon_session_def)
  ultimately show ?thesis using assms(3) d by (auto simp: drainPendingForSession_def Let_def wf_putSession)
qed

lemma wf_snapshotAndObserve:
  assumes "wf_map (fst acc)" "wf_daemon_session sess"
  shows "wf_map (fst (fst (snapshotAndObserve fs cwd clk acc sess))) \<and> wf_daemon_session (snd (snapshotAndObserve fs cwd clk acc sess)) \<and>
    dsID (snd (snapshotAndObserve fs cwd clk acc sess)) = dsID sess"
proof -
  obtain p1 s1 where s1: "snapshotSession clk (fst acc) sess = (p1, s1)" by fastforce
  obtain e2 s2 where s2: "observeSession fs cwd clk p1 s1 = (e2, s2)" by fastforce
  show ?thesis
    using wf_snapshotSession [OF assms s1] wf_observeSession [OF _ _ s2] s1 s2
    by (cases acc) (auto simp: snapshotAndObserve_def)
qed

lemma wf_applySnapshot:
  assumes "wf_map ps" "wf_sessions ss" "applyProcessSnapshot fs cwd clk ps ss = (e, ss')"
  shows "wf_sessions ss'"
proof -
  obtain acc ss1 where f: "forEach (snapshotAndObserve fs cwd clk) (ps, noEvents) ss = (acc, ss1)" by (rule prod.exhaust)
  have "wf_map (fst acc) \<and> wf_sessions ss1"
    using assms(1) by (intro wf_forEach [OF wf_snapshotAndObserve _ assms(2) f]) simp_all
  then show ?thesis using assms(3) f by (cases acc) (auto simp: applyProcessSnapshot_def wf_pruneIdle)
qed

lemma wf_snapshotAndMatch:
  assumes "wf_map (fst acc) \<and> list_all wf_daemon_session (snd acc)" "wf_daemon_session sess"
  shows "(wf_map (fst (fst (snapshotAndMatch clk nf acc sess))) \<and> list_all wf_daemon_session (snd (fst (snapshotAndMatch clk nf acc sess)))) \<and>
    wf_daemon_session (snd (snapshotAndMatch clk nf acc sess)) \<and> dsID (snd (snapshotAndMatch clk nf acc sess)) = dsID sess"
proof -
  obtain p1 s1 where s1: "snapshotSession clk (fst acc) sess = (p1, s1)" by fastforce
  obtain hit s2 where s2: "matchSession clk nf s1 = (hit, s2)" by fastforce
  have "wf_map p1 \<and> wf_daemon_session s1 \<and> dsID s1 = dsID sess" using wf_snapshotSession [OF _ assms(2) s1] assms(1) by simp
  then show ?thesis using wf_matchSession [OF _ s2] s1 s2 assms(1) by (cases acc) (auto simp: snapshotAndMatch_def)
qed

lemma wf_applySnapshotAndMatch:
  assumes "wf_map ps" "wf_sessions ss" "applyProcessSnapshotAndMatch clk ps nf ss = (out, ps', ss')"
  shows "wf_sessions ss' \<and> wf_map ps' \<and> list_all wf_daemon_session out"
proof -
  obtain acc ss1 where f: "forEach (snapshotAndMatch clk nf) (ps, []) ss = (acc, ss1)" by (rule prod.exhaust)
  obtain ps1 out1 where acc: "acc = (ps1, out1)" by fastforce
  have r: "(wf_map (fst acc) \<and> list_all wf_daemon_session (snd acc)) \<and> wf_sessions ss1"
    using assms(1) by (intro wf_forEach [OF wf_snapshotAndMatch _ assms(2) f]) simp_all
  define ss2 where "ss2 = pruneIdle clk clk ps1 defaultDaemonSessionIdle ss1"
  have wf2: "wf_sessions ss2" using r by (simp add: ss2_def wf_pruneIdle)
  have res: "out = map (currentSession ss2) out1" "ps' = ps1" "ss' = ss2"
    using assms(3) f acc by (auto simp: applyProcessSnapshotAndMatch_def ss2_def Let_def)
  have "wf_daemon_session (currentSession ss2 s)" if "wf_daemon_session s" for s
    using that wf_sessionsD [OF wf2] by (auto simp: currentSession_def split: option.split)
  then show ?thesis using r wf2 res acc by (auto simp: list_all_iff)
qed

lemma wf_anySessionMatches:
  assumes "wf_sessions ss" "anySessionMatchesNetworkFlow clk nf ss = (b, ss')"
  shows "wf_sessions ss'"
proof -
  have "wf_daemon_session (snd (matchSession clk nf sess)) \<and> dsID (snd (matchSession clk nf sess)) = dsID sess"
    if "wf_daemon_session sess" for sess using wf_matchSession [OF that] by (metis prod.collapse)
  then show ?thesis
    using wf_forEach [of "\<lambda>_. True", OF _ _ assms(1) assms(2) [unfolded anySessionMatchesNetworkFlow_def]] by auto
qed

lemma wf_anyAgentPID:
  assumes "wf_sessions ss" "anyAgentPID clk pid ss = (b, ss')"
  shows "wf_sessions ss'"
proof (cases "pid \<le> 0")
  case False
  then have "forEach (\<lambda>found sess. if found then (True, sess)
                      else case IsAgentPID clk pid (dsState sess) of (hit, st) \<Rightarrow> (hit, sess\<lparr>dsState := st\<rparr>)) False ss = (b, ss')"
    using assms(2) by (simp add: anyAgentPID_def)
  from wf_forEach [of "\<lambda>_. True", OF _ _ assms(1) this] show ?thesis
    by (auto simp: IsAgentPID_def wf_daemon_session_def Let_def)
qed (use assms in \<open>simp add: anyAgentPID_def\<close>)

subsection \<open>Which sessions are pruned\<close>

lemma mhas_prune_sessions:
  "wf_map m \<Longrightarrow> mhas (prune_sessions clk now ps idle m) sid \<longleftrightarrow>
     (\<exists>sess. mget m sid = Some sess \<and> (\<not> idleSession now idle sess \<or> fst (HasLiveAgentPID clk ps (dsState sess))))"
proof (induction clk now ps idle m rule: prune_sessions.induct)
  case (2 clk now ps idle k sess m)
  have fresh: "mget m k = None" "mget (prune_sessions clk now ps idle m) k = None"
    using "2.prems" prune_sessions_keys [of clk now ps idle m] by (auto simp: wf_map_def map_of_eq_None_iff)
  have "wf_map m" using "2.prems" by (simp add: wf_map_def)
  then show ?case
    using "2.IH" fresh by (cases "sid = k") (auto simp: mhas_def Let_def split: prod.split)
qed (simp add: mhas_def)

subsection \<open>How long a held flow waits\<close>

text \<open>The flow is in the buffer with at most \<open>n\<close> younger ones behind it.\<close>

definition held :: "nat \<Rightarrow> NetworkFlowEvent \<Rightarrow> daemonSessions \<Rightarrow> bool" where
  "held n nf ss \<longleftrightarrow> (\<exists>pre post. dsPending ss = pre @ nf # post \<and> length post \<le> n)"

lemma held_now: "held 0 nf (holdPendingNetworkFlow clk nf now ss)"
proof -
  let ?old = "dsPending (prunePendingFlowsLocked (if IsZero now then clk else now) ss)"
  have "append_trim maxPendingNetworkFlows nf ?old \<noteq> []" "last (append_trim maxPendingNetworkFlows nf ?old) = nf"
    using pending_ring.push_last [where x = nf and xs = ?old] by (simp_all add: maxPendingNetworkFlows_def)
  then have "append_trim maxPendingNetworkFlows nf ?old = butlast (append_trim maxPendingNetworkFlows nf ?old) @ nf # []"
    by (metis append_butlast_last_id)
  then show ?thesis unfolding held_def holdPendingNetworkFlow_def Let_def by (intro exI conjI) auto
qed

lemma held_later:
  assumes "held n nf ss" "Suc n < maxPendingNetworkFlows" "now \<noteq> 0" "\<not> pendingFlowExpired now nf"
  shows "held (Suc n) nf (holdPendingNetworkFlow clk g now ss)"
proof -
  obtain pre post where p: "dsPending ss = pre @ nf # post" "length post \<le> n" using assms(1) by (auto simp: held_def)
  let ?keep = "filter (\<lambda>f. \<not> pendingFlowExpired now f)"
  let ?xs = "?keep pre @ nf # ?keep post"
  have eq: "dsPending (holdPendingNetworkFlow clk g now ss) = drop (Suc (length ?xs) - maxPendingNetworkFlows) (?xs @ [g])"
    using p(1) assms(3,4) unfolding pending_ring.push_eq [symmetric]
    by (simp add: holdPendingNetworkFlow_def prunePendingFlowsLocked_def IsZero_def Let_def)
  have l: "length (?keep post) \<le> n" using p(2) le_trans [OF length_filter_le] by blast
  then have "Suc (length ?xs) - maxPendingNetworkFlows \<le> length (?keep pre)" using assms(2) by simp
  then have "drop (Suc (length ?xs) - maxPendingNetworkFlows) (?xs @ [g]) =
      drop (Suc (length ?xs) - maxPendingNetworkFlows) (?keep pre) @ nf # (?keep post @ [g])" by simp
  then show ?thesis using l unfolding held_def eq by (intro exI conjI) auto
qed

fun holdAll :: "time \<Rightarrow> (NetworkFlowEvent \<times> time) list \<Rightarrow> daemonSessions \<Rightarrow> daemonSessions" where
  "holdAll clk [] ss = ss"
| "holdAll clk ((g, now) # gs) ss = holdAll clk gs (holdPendingNetworkFlow clk g now ss)"

lemma held_holdAll:
  "held n nf ss \<Longrightarrow> n + length gs < maxPendingNetworkFlows \<Longrightarrow> list_all (\<lambda>(g, now). now \<noteq> 0 \<and> \<not> pendingFlowExpired now nf) gs \<Longrightarrow>
   held (n + length gs) nf (holdAll clk gs ss)"
proof (induction clk gs ss arbitrary: n rule: holdAll.induct)
  case (2 clk g now gs ss)
  then show ?case using held_later [of n nf ss now clk g] "2.IH" [of "Suc n"] by simp
qed simp

section \<open>Properties\<close>

text \<open>C14. A flow that arrives before its session is not lost: when it is held, fewer than a hundred other flows are
  held after it and it does not expire, the first session that owns it and drains the waiting flows gets it,
  together with exactly the other unexpired flows the session owns; what the session does not own keeps waiting.\<close>

theorem held_flow_reaches_session:
  assumes "length gs < maxPendingNetworkFlows" "list_all (\<lambda>(g, t). t \<noteq> 0 \<and> \<not> pendingFlowExpired t nf) gs"
    and "now \<noteq> 0" "\<not> pendingFlowExpired now nf" "fst (MatchesNetworkFlow clk nf (dsState sess))"
    and "ss1 = holdAll clk gs (holdPendingNetworkFlow clk nf t0 ss)"
    and "drainPendingForSession clk sess now ss1 = (matched, sess', ss2)"
  shows "nf \<in> set matched \<and> nf \<notin> set (dsPending ss2) \<and>
    matched = filter (\<lambda>f. \<not> pendingFlowExpired now f \<and> fst (MatchesNetworkFlow clk f (dsState sess))) (dsPending ss1) \<and>
    dsPending ss2 = filter (\<lambda>f. \<not> pendingFlowExpired now f \<and> \<not> fst (MatchesNetworkFlow clk f (dsState sess))) (dsPending ss1)"
proof -
  have "held (length gs) nf ss1"
    unfolding assms(6) using held_holdAll [OF held_now, of gs nf clk clk t0 ss] assms(1,2) by simp
  then have "nf \<in> set (dsPending ss1)" by (auto simp: held_def)
  moreover obtain ma ke st where d: "drain_loop clk now (dsPending ss1) (dsState sess) = (ma, ke, st)" using prod_cases3 by blast
  moreover have "matched = ma" "dsPending ss2 = ke"
    using assms(3,7) d by (auto simp: drainPendingForSession_def IsZero_def putSession_def Let_def)
  ultimately show ?thesis using drain_loop_split [OF d] assms(4,5) by (simp add: flow_matches_def)
qed

definition demoSession :: daemonSession where
  "demoSession = (newSession 1 ''s1'')\<lparr>dsState := AddPID 1 42 (NewSessionState 1)\<rparr>"

definition demoFlow :: NetworkFlowEvent where
  "demoFlow = zeroFlow\<lparr>fTS := 1, fPID := 42, fRemote := ''9.9.9.9:443''\<rparr>"

lemma demo_match:
  "fst (MatchesNetworkFlow 2 demoFlow (dsState demoSession)) \<and> \<not> pendingFlowExpired 2 demoFlow"
  by code_simp

theorem held_flow_reaches_session_witness:
  "demoFlow \<in> set (fst (drainPendingForSession 2 demoSession 2 (holdPendingNetworkFlow 2 demoFlow 1 newDaemonSessions)))"
proof -
  obtain matched sess' ss2 where d: "drainPendingForSession 2 demoSession 2 (holdPendingNetworkFlow 2 demoFlow 1 newDaemonSessions) = (matched, sess', ss2)"
    using prod_cases3 by blast
  have "demoFlow \<in> set matched"
    by (rule held_flow_reaches_session [of "[]" demoFlow 2 2 demoSession _ 1 newDaemonSessions matched sess' ss2, THEN conjunct1])
      (use demo_match d in \<open>simp_all add: maxPendingNetworkFlows_def\<close>)
  then show ?thesis using d by simp
qed

text \<open>A session ends exactly when it has been idle for longer than the limit and none of its agent processes is
  in the process table; nothing else removes a session and nothing keeps an abandoned one.\<close>

theorem session_ends_when_idle_and_dead:
  assumes "wf_sessions ss" "0 < idle" "now \<noteq> 0"
  shows "mhas (dsMap (pruneIdle clk now ps idle ss)) sid \<longleftrightarrow>
    (\<exists>sess. mget (dsMap ss) sid = Some sess \<and>
       (time_sub now (if dsLastActivity sess = 0 then StartTime (dsState sess) else dsLastActivity sess) \<le> idle \<or>
        fst (HasLiveAgentPID clk ps (dsState sess))))"
  using assms mhas_prune_sessions [of "dsMap ss" clk now ps idle sid]
  by (simp add: pruneIdle_def prunePendingFlowsLocked_def wf_sessions_def idleSession_def IsZero_def Let_def)

definition demoSessions :: daemonSessions where
  "demoSessions = newDaemonSessions\<lparr>dsMap := [(''s1'', newSession 1 ''s1'')]\<rparr>"

theorem session_ends_when_idle_and_dead_witness:
  "\<not> mhas (dsMap (pruneIdle (200 * Second) (200 * Second) [] defaultDaemonSessionIdle demoSessions)) ''s1'' \<and>
   mhas (dsMap (pruneIdle (80 * Second) (80 * Second) [] defaultDaemonSessionIdle demoSessions)) ''s1''"
proof -
  have "wf_sessions demoSessions"
    using wf_newSession by (simp add: wf_sessions_def demoSessions_def newDaemonSessions_def wf_map_def newSession_def)
  then show ?thesis
    using session_ends_when_idle_and_dead [of demoSessions defaultDaemonSessionIdle "200 * Second" "200 * Second" "[]" "''s1''"]
      session_ends_when_idle_and_dead [of demoSessions defaultDaemonSessionIdle "80 * Second" "80 * Second" "[]" "''s1''"]
    by (simp add: demoSessions_def newSession_def HasLiveAgentPID_def time_defs time_sub_def)
qed

end
