(* ===== verification/Daemon_Trust.thy ===== *)
theory Daemon_Trust
  imports Go_Path
begin

text \<open>
  The trust decisions of \<open>cmd/daemon/main.go\<close>: which executable may send hook events, network flows and
  control messages, and which code signature it must carry. What the daemon reads from its host (the
  environment, the path the kernel reports for a process, the output of \<open>codesign\<close>) is the record
  \<open>Host\<close>; the cached identity of the daemon is passed as a state.
\<close>

section \<open>Definitions\<close>

record Host =
  Getenv :: "string \<Rightarrow> string"
  darwin :: bool
  resolvePeerExePath :: "int \<Rightarrow> string option"
  codesign :: "string \<Rightarrow> string option"
  Executable :: "string option"

record codeIdentity =
  TeamID :: string
  CDHash :: string
  AdHoc :: bool

definition noIdentity :: codeIdentity where
  "noIdentity = \<lparr>TeamID = [], CDHash = [], AdHoc = False\<rparr>"

text \<open>\<open>daemonCodeIdentity\<close>: the identity of the daemon itself, resolved once.\<close>

record identityCache =
  idLoaded :: bool
  idValue :: codeIdentity

definition freshCache :: identityCache where
  "freshCache = \<lparr>idLoaded = False, idValue = noIdentity\<rparr>"

definition unsignedPeerTrustAllowed :: "Host \<Rightarrow> bool" where
  "unsignedPeerTrustAllowed h =
     (let v = ToLower (TrimSpace (Getenv h ''AGENTSNITCH_ALLOW_UNSIGNED_PEERS'')) in v = ''1'' \<or> v = ''true'' \<or> v = ''yes'')"

definition identity_line :: "string \<Rightarrow> codeIdentity \<Rightarrow> codeIdentity" where
  "identity_line raw i =
     (let line = TrimSpace raw
      in case CutPrefix line ''Signature='' of
           Some v \<Rightarrow> i\<lparr>AdHoc := EqualFold (TrimSpace v) ''adhoc''\<rparr>
         | None \<Rightarrow>
         (case CutPrefix line ''TeamIdentifier='' of
           Some v \<Rightarrow> (let t = TrimSpace v in if t \<noteq> [] \<and> t \<noteq> ''not set'' then i\<lparr>TeamID := t\<rparr> else i)
         | None \<Rightarrow>
         (case CutPrefix line ''CDHash='' of
           Some v \<Rightarrow> i\<lparr>CDHash := TrimSpace v\<rparr>
         | None \<Rightarrow> i)))"

definition identified :: "codeIdentity \<Rightarrow> bool" where
  "identified i \<longleftrightarrow> TeamID i \<noteq> [] \<or> AdHoc i"

definition parseCodeIdentity :: "string \<Rightarrow> codeIdentity \<times> bool" where
  "parseCodeIdentity out =
     (let i = fold identity_line (Split out [CHR 0x0A]) noIdentity in (i, identified i))"

definition resolveCodeIdentity :: "Host \<Rightarrow> string \<Rightarrow> codeIdentity \<times> bool" where
  "resolveCodeIdentity h path =
     (if \<not> darwin h then
        if unsignedPeerTrustAllowed h then (noIdentity\<lparr>TeamID := ''unsigned-dev''\<rparr>, True) else (noIdentity, False)
      else case codesign h path of None \<Rightarrow> (noIdentity, False) | Some out \<Rightarrow> parseCodeIdentity out)"

definition daemonIdentity :: "Host \<Rightarrow> identityCache \<Rightarrow> (codeIdentity \<times> bool) \<times> identityCache" where
  "daemonIdentity h c =
     (if idLoaded c then ((idValue c, identified (idValue c)), c)
      else
        let c1 = c\<lparr>idLoaded := True\<rparr>
        in case Executable h of
             None \<Rightarrow> ((noIdentity, False), c1)
           | Some exe \<Rightarrow>
               (case resolveCodeIdentity h exe of
                  (identity, ok) \<Rightarrow> if \<not> ok then ((noIdentity, False), c1)
                                    else ((identity, True), c1\<lparr>idValue := identity\<rparr>)))"

definition trustedTeamID :: "Host \<Rightarrow> identityCache \<Rightarrow> string \<times> identityCache" where
  "trustedTeamID h c =
     (let team = TrimSpace (Getenv h ''AGENTSNITCH_TRUSTED_TEAM_ID'')
      in if team \<noteq> [] then (team, c)
         else case daemonIdentity h c of ((identity, ok), c') \<Rightarrow> (if \<not> ok then [] else TeamID identity, c'))"

definition daemonAdHocIdentity :: "Host \<Rightarrow> identityCache \<Rightarrow> bool \<times> identityCache" where
  "daemonAdHocIdentity h c =
     (if TrimSpace (Getenv h ''AGENTSNITCH_TRUSTED_TEAM_ID'') \<noteq> [] then (False, c)
      else case daemonIdentity h c of ((identity, ok), c') \<Rightarrow> (ok \<and> AdHoc identity \<and> TeamID identity = [], c'))"

definition trustedPeerSignature :: "Host \<Rightarrow> identityCache \<Rightarrow> string \<Rightarrow> bool \<times> identityCache" where
  "trustedPeerSignature h c exe =
     (case resolveCodeIdentity h exe of
        (identity, ok) \<Rightarrow>
          if \<not> ok then (unsignedPeerTrustAllowed h, c)
          else
            case trustedTeamID h c of
              (expected, c1) \<Rightarrow>
                if expected = [] then
                  if AdHoc identity then
                    case daemonAdHocIdentity h c1 of
                      (adhoc, c2) \<Rightarrow> if adhoc then (True, c2) else (unsignedPeerTrustAllowed h, c2)
                  else (unsignedPeerTrustAllowed h, c1)
                else (TeamID identity = expected, c1))"

definition agentSnitchSupportBins :: "Host \<Rightarrow> string list" where
  "agentSnitchSupportBins h =
     (let dir = TrimSpace (Getenv h ''AGENTSNITCH_SUPPORT_DIR'')
      in if dir \<noteq> [] then [PathJoin [dir, ''bin'']]
         else
           let home = TrimSpace (Getenv h ''HOME'')
           in (if home \<noteq> [] then [PathJoin [home, ''Library'', ''Application Support'', ''AgentSnitch'', ''bin'']] else [])
              @ [''/Library/Application Support/AgentSnitch/bin''])"

definition agentSnitchAppPath :: "Host \<Rightarrow> string" where
  "agentSnitchAppPath h =
     (let p = TrimSpace (Getenv h ''AGENTSNITCH_APP_PATH'') in if p \<noteq> [] then p else ''/Applications/AgentSnitch.app'')"

definition networkExtensionBundleID :: string where
  "networkExtensionBundleID = ''com.somoore.agentsnitch.network-extension.systemextension''"

definition isTrustedEmitterExe :: "Host \<Rightarrow> string \<Rightarrow> bool" where
  "isTrustedEmitterExe h exe0 =
     (let exe = Clean exe0
      in if exe = [] then False
         else list_ex (\<lambda>bin. exe = PathJoin [bin, ''emitter'']) (agentSnitchSupportBins h))"

definition isTrustedNetworkSenderExe :: "Host \<Rightarrow> string \<Rightarrow> bool" where
  "isTrustedNetworkSenderExe h exe0 =
     (let exe = Clean exe0; app = Clean (agentSnitchAppPath h)
      in if exe = [] then False
         else if app \<noteq> [] \<and> (exe = app \<or> HasPrefix exe (app @ ''/'')) then True
         else HasPrefix exe ''/Library/SystemExtensions/'' \<and> Contains exe (''/'' @ networkExtensionBundleID @ ''/''))"

definition isTrustedControlSenderExe :: "Host \<Rightarrow> string \<Rightarrow> bool" where
  "isTrustedControlSenderExe h exe0 =
     (let exe = Clean exe0; app = Clean (agentSnitchAppPath h)
      in if exe = [] then False
         else if app = [] then False
         else exe = PathJoin [app, ''Contents'', ''MacOS'', ''agentsnitch-ui''])"

text \<open>The three socket checks share one shape: resolve the path of the peer, check it, then the signature.\<close>

definition trusted_peer :: "(string \<Rightarrow> bool) \<Rightarrow> Host \<Rightarrow> identityCache \<Rightarrow> int \<Rightarrow> bool \<times> identityCache" where
  "trusted_peer valid h c pid =
     (case resolvePeerExePath h pid of
        None \<Rightarrow> (False, c)
      | Some exe \<Rightarrow> if valid exe then trustedPeerSignature h c exe else (False, c))"

definition trustedSemanticSocketPeer :: "Host \<Rightarrow> identityCache \<Rightarrow> int \<Rightarrow> bool \<times> identityCache" where
  "trustedSemanticSocketPeer h = trusted_peer (isTrustedEmitterExe h) h"

definition trustedNetworkSocketPeer :: "Host \<Rightarrow> identityCache \<Rightarrow> int \<Rightarrow> bool \<times> identityCache" where
  "trustedNetworkSocketPeer h = trusted_peer (isTrustedNetworkSenderExe h) h"

definition trustedControlSocketPeer :: "Host \<Rightarrow> identityCache \<Rightarrow> int \<Rightarrow> bool \<times> identityCache" where
  "trustedControlSocketPeer h = trusted_peer (isTrustedControlSenderExe h) h"

section \<open>Lemmas: the signature\<close>

text \<open>The cache never changes a decision: it holds what a fresh resolution gives.\<close>

definition cache_ok :: "Host \<Rightarrow> identityCache \<Rightarrow> bool" where
  "cache_ok h c \<longleftrightarrow> (if idLoaded c then (idValue c, identified (idValue c)) = fst (daemonIdentity h freshCache)
                       else idValue c = noIdentity)"

lemma cache_ok_fresh [simp]: "cache_ok h freshCache"
  by (simp add: cache_ok_def freshCache_def)

lemma identified_noIdentity [simp]: "\<not> identified noIdentity"
  by (simp add: identified_def noIdentity_def)

lemma resolve_identified: "resolveCodeIdentity h p = (i, ok) \<Longrightarrow> ok \<Longrightarrow> identified i"
  by (auto simp: resolveCodeIdentity_def parseCodeIdentity_def Let_def identified_def noIdentity_def
      split: if_splits option.splits)

lemma daemonIdentity_cached:
  assumes "cache_ok h c"
  shows "fst (daemonIdentity h c) = fst (daemonIdentity h freshCache)" "cache_ok h (snd (daemonIdentity h c))"
proof -
  show "fst (daemonIdentity h c) = fst (daemonIdentity h freshCache)"
    using assms by (auto simp: cache_ok_def daemonIdentity_def freshCache_def Let_def split: option.splits prod.splits if_splits)
  show "cache_ok h (snd (daemonIdentity h c))"
    using assms resolve_identified
    by (auto simp: cache_ok_def daemonIdentity_def freshCache_def Let_def split: option.splits prod.splits if_splits)
qed

lemma trustedTeamID_cached:
  assumes "cache_ok h c"
  shows "fst (trustedTeamID h c) = fst (trustedTeamID h freshCache)" "cache_ok h (snd (trustedTeamID h c))"
  using daemonIdentity_cached [OF assms] assms
  by (auto simp: trustedTeamID_def Let_def split: prod.splits)

lemma daemonAdHoc_cached:
  assumes "cache_ok h c"
  shows "fst (daemonAdHocIdentity h c) = fst (daemonAdHocIdentity h freshCache)" "cache_ok h (snd (daemonAdHocIdentity h c))"
  using daemonIdentity_cached [OF assms] assms
  by (auto simp: daemonAdHocIdentity_def Let_def split: prod.splits)

text \<open>The signature decision without the cache: the expected team, the ad hoc rule and the override.\<close>

definition signature_rule :: "Host \<Rightarrow> string \<Rightarrow> bool" where
  "signature_rule h exe =
     (let (i, ok) = resolveCodeIdentity h exe; team = fst (trustedTeamID h freshCache)
      in if ok \<and> team \<noteq> [] then TeamID i = team
         else (ok \<and> AdHoc i \<and> fst (daemonAdHocIdentity h freshCache)) \<or> unsignedPeerTrustAllowed h)"

lemma trustedPeerSignature_cached:
  assumes "cache_ok h c"
  shows "fst (trustedPeerSignature h c exe) = signature_rule h exe" "cache_ok h (snd (trustedPeerSignature h c exe))"
proof -
  obtain i ok where i: "resolveCodeIdentity h exe = (i, ok)" by fastforce
  obtain team c1 where t: "trustedTeamID h c = (team, c1)" by fastforce
  obtain ad c2 where a: "daemonAdHocIdentity h c1 = (ad, c2)" by fastforce
  have team: "team = fst (trustedTeamID h freshCache)" "cache_ok h c1" using trustedTeamID_cached [OF assms] t by auto
  have ad: "ad = fst (daemonAdHocIdentity h freshCache)" "cache_ok h c2" using daemonAdHoc_cached [OF team(2)] a by auto
  show "fst (trustedPeerSignature h c exe) = signature_rule h exe" "cache_ok h (snd (trustedPeerSignature h c exe))"
    using assms team ad by (auto simp: trustedPeerSignature_def signature_rule_def i t a Let_def)
qed

text \<open>The two ways to pass it: a verified signature of the expected signer, and the override of the environment, which
  does not help an executable that is signed by another team.\<close>

definition properly_signed :: "Host \<Rightarrow> string \<Rightarrow> bool" where
  "properly_signed h exe =
     (let (i, ok) = resolveCodeIdentity h exe; team = fst (trustedTeamID h freshCache)
      in ok \<and> (if team = [] then AdHoc i \<and> fst (daemonAdHocIdentity h freshCache) else TeamID i = team))"

definition override_applies :: "Host \<Rightarrow> string \<Rightarrow> bool" where
  "override_applies h exe =
     (unsignedPeerTrustAllowed h \<and> (\<not> snd (resolveCodeIdentity h exe) \<or> fst (trustedTeamID h freshCache) = []))"

lemma signature_rule_iff: "signature_rule h exe \<longleftrightarrow> properly_signed h exe \<or> override_applies h exe"
  by (cases "resolveCodeIdentity h exe") (auto simp: signature_rule_def properly_signed_def override_applies_def Let_def)

lemma trusted_peer_cached:
  assumes "cache_ok h c"
  shows "fst (trusted_peer valid h c pid) \<longleftrightarrow> (\<exists>exe. resolvePeerExePath h pid = Some exe \<and> valid exe \<and> signature_rule h exe)"
    "cache_ok h (snd (trusted_peer valid h c pid))"
  using trustedPeerSignature_cached [OF assms] assms by (auto simp: trusted_peer_def split: option.splits)

section \<open>Lemmas: the path\<close>

lemma agentSnitchSupportBins_nonempty: "bin \<in> set (agentSnitchSupportBins h) \<Longrightarrow> bin \<noteq> []"
  by (auto simp: agentSnitchSupportBins_def Let_def PathJoin_nonempty dest!: PathJoin_eq_Nil split: if_splits)

lemma emitter_name_exact:
  assumes "isTrustedEmitterExe h (p @ ''/'' @ e)" "plain_elem e" "p \<noteq> []"
  shows "e = ''emitter''"
proof -
  obtain bin where "bin \<in> set (agentSnitchSupportBins h)" "Clean (p @ ''/'' @ e) = PathJoin [bin, ''emitter'']"
    using assms(1) by (auto simp: isTrustedEmitterExe_def list_ex_iff)
  moreover have "plain_elem ''emitter''" by (simp add: plain_elem_def)
  ultimately show ?thesis using PathJoin_last assms(2,3) agentSnitchSupportBins_nonempty by metis
qed


lemma control_is_network:
  assumes "isTrustedControlSenderExe h exe" "Clean (agentSnitchAppPath h) \<notin> {''/'', ''.''}"
  shows "isTrustedNetworkSenderExe h exe"
proof -
  have "Clean exe = Clean (agentSnitchAppPath h) @ ''/'' @ Join [''Contents'', ''MacOS'', ''agentsnitch-ui''] ''/''"
    using assms PathJoin_under [of "[''Contents'', ''MacOS'', ''agentsnitch-ui'']" "agentSnitchAppPath h"]
    by (simp add: isTrustedControlSenderExe_def plain_elem_def Let_def)
  then show ?thesis by (simp add: isTrustedNetworkSenderExe_def HasPrefix_def Let_def)
qed

lemma control_is_not_emitter:
  assumes "isTrustedControlSenderExe h exe"
  shows "\<not> isTrustedEmitterExe h exe"
proof
  assume "isTrustedEmitterExe h exe"
  then obtain bin where bin: "bin \<in> set (agentSnitchSupportBins h)" "Clean exe = PathJoin [bin, ''emitter'']"
    by (auto simp: isTrustedEmitterExe_def list_ex_iff)
  let ?app = "Clean (agentSnitchAppPath h) @ ''/'' @ ''Contents/MacOS''"
  have "Clean exe = Clean (?app @ ''/'' @ ''agentsnitch-ui'')"
    using assms by (simp add: isTrustedControlSenderExe_def PathJoin_append Let_def)
  moreover have "plain_elem ''agentsnitch-ui''" "plain_elem ''emitter''" by (simp_all add: plain_elem_def)
  ultimately have "''agentsnitch-ui'' = ''emitter''"
    using PathJoin_last [of "''agentsnitch-ui''" ?app "''emitter''" bin] bin agentSnitchSupportBins_nonempty [OF bin(1)] by simp
  then show False by simp
qed

section \<open>Properties\<close>

text \<open>C37. Peer trust fails closed: a peer is trusted as the sender of hooks, of network flows or of control messages exactly
  when the kernel-reported path of its executable passes the path rule of that role and either \<open>codesign\<close> identified
  that executable and it is of the expected team (or, when no team is expected, both it and the daemon are signed ad
  hoc), or the environment allows unsigned peers and the executable is not identified or no team is expected. So the
  override never admits an executable of another team, and without it nothing unsigned is trusted. The cached
  identity of the daemon does not change the decision.\<close>

theorem peer_trust_fails_closed:
  assumes "cache_ok h c"
    and "(trustedPeer, valid) \<in> {(trustedSemanticSocketPeer, isTrustedEmitterExe), (trustedNetworkSocketPeer, isTrustedNetworkSenderExe),
           (trustedControlSocketPeer, isTrustedControlSenderExe)}"
  shows "fst (trustedPeer h c pid) \<longleftrightarrow>
    (\<exists>exe i ok. resolvePeerExePath h pid = Some exe \<and> valid h exe \<and> resolveCodeIdentity h exe = (i, ok) \<and>
      (let team = fst (trustedTeamID h freshCache)
       in ok \<and> (if team = [] then AdHoc i \<and> fst (daemonAdHocIdentity h freshCache) else TeamID i = team) \<or>
          unsignedPeerTrustAllowed h \<and> (\<not> ok \<or> team = [])))"
proof -
  have rule: "signature_rule h exe \<longleftrightarrow> (\<exists>i ok. resolveCodeIdentity h exe = (i, ok) \<and>
      (let team = fst (trustedTeamID h freshCache)
       in ok \<and> (if team = [] then AdHoc i \<and> fst (daemonAdHocIdentity h freshCache) else TeamID i = team) \<or>
          unsignedPeerTrustAllowed h \<and> (\<not> ok \<or> team = [])))" for exe
    unfolding signature_rule_iff properly_signed_def override_applies_def by (cases "resolveCodeIdentity h exe") (simp add: Let_def)
  have "fst (trustedPeer h c pid) \<longleftrightarrow> (\<exists>exe. resolvePeerExePath h pid = Some exe \<and> valid h exe \<and> signature_rule h exe)"
    using assms(2) trusted_peer_cached(1) [OF assms(1)]
    by (auto simp: trustedSemanticSocketPeer_def trustedNetworkSocketPeer_def trustedControlSocketPeer_def)
  then show ?thesis unfolding rule by blast
qed

definition demoHost :: Host where
  "demoHost = \<lparr>Getenv = (\<lambda>k. if k = ''HOME'' then ''/Users/ana'' else []), darwin = True,
     resolvePeerExePath = (\<lambda>pid. if pid = 7 then Some ''/Applications/AgentSnitch.app/Contents/MacOS/agentsnitch-ui''
        else if pid = 8 then Some ''/Library/Application Support/AgentSnitch/bin/emitter '' else None),
     codesign = (\<lambda>p. Some ''TeamIdentifier=TEAM1''), Executable = Some ''/Library/Application Support/AgentSnitch/bin/daemon''\<rparr>"

theorem peer_trust_fails_closed_witness:
  "fst (trustedControlSocketPeer demoHost freshCache 7) \<and> \<not> fst (trustedSemanticSocketPeer demoHost freshCache 8)"
proof -
  have u: "\<not> unsignedPeerTrustAllowed demoHost" by code_simp
  have i: "resolveCodeIdentity demoHost p = (noIdentity\<lparr>TeamID := ''TEAM1''\<rparr>, True)" for p
  proof -
    have "parseCodeIdentity ''TeamIdentifier=TEAM1'' = (noIdentity\<lparr>TeamID := ''TEAM1''\<rparr>, True)" by code_simp
    then show ?thesis by (simp add: resolveCodeIdentity_def demoHost_def)
  qed
  have "fst (trustedTeamID demoHost freshCache) = ''TEAM1''" by code_simp
  moreover have "isTrustedControlSenderExe demoHost ''/Applications/AgentSnitch.app/Contents/MacOS/agentsnitch-ui''" by code_simp
  moreover have "\<not> isTrustedEmitterExe demoHost ''/Library/Application Support/AgentSnitch/bin/emitter ''" by code_simp
  moreover have "resolvePeerExePath demoHost 7 = Some ''/Applications/AgentSnitch.app/Contents/MacOS/agentsnitch-ui''"
    "resolvePeerExePath demoHost 8 = Some ''/Library/Application Support/AgentSnitch/bin/emitter ''"
    by (simp_all add: demoHost_def)
  ultimately show ?thesis
    using peer_trust_fails_closed [OF cache_ok_fresh, of trustedControlSocketPeer isTrustedControlSenderExe demoHost 7]
      peer_trust_fails_closed [OF cache_ok_fresh, of trustedSemanticSocketPeer isTrustedEmitterExe demoHost 8] i u
    by (simp add: Let_def) blast
qed

text \<open>The three roles are separate executables: a control sender is never the hook emitter, it is a
  network sender as well (for an application path other than the root or the current directory), and the
  file name of a trusted emitter is exactly \<open>emitter\<close>: a lookalike with a space or any other character
  added is refused.\<close>

theorem peer_roles_are_separate:
  assumes "Clean (agentSnitchAppPath h) \<notin> {''/'', ''.''}"
  shows "(isTrustedControlSenderExe h exe \<longrightarrow> \<not> isTrustedEmitterExe h exe \<and> isTrustedNetworkSenderExe h exe) \<and>
    (p \<noteq> [] \<and> plain_elem e \<and> e \<noteq> ''emitter'' \<longrightarrow> \<not> isTrustedEmitterExe h (p @ ''/'' @ e))"
  using assms control_is_network control_is_not_emitter emitter_name_exact by blast

theorem peer_roles_are_separate_witness:
  "isTrustedControlSenderExe demoHost ''/Applications/AgentSnitch.app/Contents/MacOS/agentsnitch-ui'' \<and>
   \<not> isTrustedEmitterExe demoHost ''/Applications/AgentSnitch.app/Contents/MacOS/agentsnitch-ui'' \<and>
   \<not> isTrustedEmitterExe demoHost (''/Library/Application Support/AgentSnitch/bin'' @ ''/'' @ ''emitter '')"
proof -
  have "Clean (agentSnitchAppPath demoHost) \<notin> {''/'', ''.''}" by code_simp
  moreover have "isTrustedControlSenderExe demoHost ''/Applications/AgentSnitch.app/Contents/MacOS/agentsnitch-ui''" by code_simp
  moreover have "plain_elem ''emitter ''" by code_simp
  ultimately show ?thesis
    using peer_roles_are_separate [of demoHost "''/Applications/AgentSnitch.app/Contents/MacOS/agentsnitch-ui''"
        "''/Library/Application Support/AgentSnitch/bin''" "''emitter ''"] by simp
qed

end
