(* ===== verification/Daemon_Pause.thy ===== *)
theory Daemon_Pause
  imports Daemon_Out
begin

text \<open>
  \<open>cmd/daemon/pause.go\<close>: the switch that halts sensing. The operations are modelled twice: as the whole
  calls (what one caller at a time sees), with the abstract specification they implement, and as their
  atomic steps (the swap of the flag, then the locked access to the instant), which several connections
  may interleave.
\<close>

section \<open>Definitions\<close>

record pauseController =
  paused :: bool
  pausedAt :: time

definition newPauseController :: pauseController where
  "newPauseController = \<lparr>paused = False, pausedAt = 0\<rparr>"

definition Paused :: "pauseController \<Rightarrow> bool" where "Paused p = paused p"

text \<open>\<open>clock\<close> is what \<open>time.Now()\<close> gives when the caller passes the zero instant.\<close>

definition instant_or :: "time \<Rightarrow> time \<Rightarrow> time" where
  "instant_or clock now = (if IsZero now then clock else now)"

definition Pause :: "time \<Rightarrow> time \<Rightarrow> pauseController \<Rightarrow> bool \<times> pauseController" where
  "Pause clock now p =
     (if paused p then (False, p) else (True, p\<lparr>paused := True, pausedAt := instant_or clock now\<rparr>))"

definition Resume :: "time \<Rightarrow> time \<Rightarrow> pauseController \<Rightarrow> (time \<times> time \<times> bool) \<times> pauseController" where
  "Resume clock now p =
     (if \<not> paused p then ((0, 0, False), p)
      else ((pausedAt p, instant_or clock now, True), p\<lparr>paused := False, pausedAt := 0\<rparr>))"

text \<open>\<open>live\<close> are the identifiers of the sessions \<open>sessions.list()\<close> returns.\<close>

definition handleControl ::
    "OutEnv \<Rightarrow> time \<Rightarrow> ControlMessage \<Rightarrow> string list \<Rightarrow> pauseController \<times> DaemonOut \<Rightarrow> pauseController \<times> DaemonOut" where
  "handleControl e now msg live = (\<lambda>(p, d).
     if mAction msg = ControlActionPause then (snd (Pause now now p), d)
     else if mAction msg = ControlActionResume then
       (case Resume now now p of
          ((from, to, transitioned), p') \<Rightarrow>
            if \<not> transitioned then (p', d)
            else
              let gap = UIGap (NewPauseGapEvent from to);
                  d' = (if live = [] then appendTranscript e now ''pause-gap'' ''pause_gap'' gap d
                        else fold (\<lambda>sid. appendTranscript e now sid ''pause_gap'' gap) live d)
              in (p', forwardToUI gap d'))
     else (p, d))"

section \<open>The abstract specification\<close>

text \<open>Sensing is on, or off since an instant.\<close>

definition spec_pause :: "time \<Rightarrow> time option \<Rightarrow> bool \<times> time option" where
  "spec_pause now s = (case s of None \<Rightarrow> (True, Some now) | Some t \<Rightarrow> (False, Some t))"

definition spec_resume :: "time \<Rightarrow> time option \<Rightarrow> (time \<times> time) option \<times> time option" where
  "spec_resume now s = (map_option (\<lambda>t. (t, now)) s, None)"

definition pause_abs :: "pauseController \<Rightarrow> time option" where
  "pause_abs p = (if paused p then Some (pausedAt p) else None)"

datatype pause_op = OpPause time | OpResume time

fun op_time :: "pause_op \<Rightarrow> time" where
  "op_time (OpPause t) = t"
| "op_time (OpResume t) = t"

text \<open>The gaps a sequence of calls reports.\<close>

fun run_ops :: "pause_op list \<Rightarrow> pauseController \<Rightarrow> (time \<times> time) list \<times> pauseController" where
  "run_ops [] p = ([], p)"
| "run_ops (OpPause t # ops) p = run_ops ops (snd (Pause t t p))"
| "run_ops (OpResume t # ops) p =
     (case Resume t t p of ((from, to, transitioned), p') \<Rightarrow>
        (case run_ops ops p' of (gaps, p'') \<Rightarrow> ((if transitioned then [(from, to)] else []) @ gaps, p'')))"

section \<open>The atomic steps\<close>

datatype pause_thread =
    WantPause time
  | SetPausedAt time
  | WantResume time
  | TakePausedAt time
  | PauseDone bool
  | ResumeDone "(time \<times> time) option"

type_synonym pause_config = "pauseController \<times> pause_thread list"

fun thread_step :: "pauseController \<Rightarrow> pause_thread \<Rightarrow> pauseController \<times> pause_thread" where
  "thread_step p (WantPause t) = (if paused p then (p, PauseDone False) else (p\<lparr>paused := True\<rparr>, SetPausedAt t))"
| "thread_step p (SetPausedAt t) = (p\<lparr>pausedAt := t\<rparr>, PauseDone True)"
| "thread_step p (WantResume t) =
     (if paused p then (p\<lparr>paused := False\<rparr>, TakePausedAt t) else (p, ResumeDone None))"
| "thread_step p (TakePausedAt t) = (p\<lparr>pausedAt := 0\<rparr>, ResumeDone (Some (pausedAt p, t)))"
| "thread_step p done = (p, done)"

inductive pause_step :: "pause_config \<Rightarrow> pause_config \<Rightarrow> bool" where
  step: "i < length ts \<Longrightarrow> thread_step p (ts ! i) = (p', th') \<Longrightarrow> pause_step (p, ts) (p', ts[i := th'])"

inductive pause_reach :: "pause_config \<Rightarrow> pause_config \<Rightarrow> bool" for start where
  pause_refl: "pause_reach start start"
| pause_more: "pause_reach start c \<Longrightarrow> pause_step c c' \<Longrightarrow> pause_reach start c'"

fun starting :: "pause_thread \<Rightarrow> bool" where
  "starting (WantPause t) = True"
| "starting (WantResume t) = True"
| "starting _ = False"

fun granted_pause :: "pause_thread \<Rightarrow> bool" where
  "granted_pause (SetPausedAt t) = True"
| "granted_pause (PauseDone b) = b"
| "granted_pause _ = False"

fun granted_resume :: "pause_thread \<Rightarrow> bool" where
  "granted_resume (TakePausedAt t) = True"
| "granted_resume (ResumeDone r) = (r \<noteq> None)"
| "granted_resume _ = False"

section \<open>Lemmas\<close>

definition pause_wf :: "pauseController \<Rightarrow> bool" where
  "pause_wf p \<longleftrightarrow> (\<not> paused p \<longrightarrow> pausedAt p = 0)"

lemma pause_wf_new [simp]: "pause_wf newPauseController"
  by (simp add: pause_wf_def newPauseController_def)

lemma Pause_refines:
  "\<not> IsZero now \<Longrightarrow> fst (Pause clock now p) = fst (spec_pause now (pause_abs p))"
  "\<not> IsZero now \<Longrightarrow> pause_abs (snd (Pause clock now p)) = snd (spec_pause now (pause_abs p))"
  "pause_wf (snd (Pause clock now p)) \<longleftrightarrow> pause_wf p \<or> \<not> paused p"
  by (auto simp: Pause_def spec_pause_def pause_abs_def instant_or_def pause_wf_def)

lemma Resume_refines:
  assumes "\<not> IsZero now" "Resume clock now p = ((from, to, tr), p')"
  shows "fst (spec_resume now (pause_abs p)) = (if tr then Some (from, to) else None)"
    and "pause_abs p' = None" and "pause_wf p \<Longrightarrow> pause_wf p'"
  using assms by (auto simp: Resume_def spec_resume_def pause_abs_def instant_or_def pause_wf_def split: if_splits)

text \<open>The gaps of a sequence of calls in time order.\<close>

definition flatten_gaps :: "(time \<times> time) list \<Rightarrow> time list" where
  "flatten_gaps gaps = concat (map (\<lambda>(from, to). [from, to]) gaps)"

lemma flatten_gaps_simps [simp]:
  "flatten_gaps [] = []" "flatten_gaps ((from, to) # gaps) = from # to # flatten_gaps gaps"
  by (simp_all add: flatten_gaps_def)

lemma run_ops_gaps:
  assumes "sorted (map op_time ops)" "\<forall>t \<in> set (map op_time ops). lo \<le> t \<and> \<not> IsZero t"
    "paused p \<longrightarrow> lo0 \<le> pausedAt p \<and> pausedAt p \<le> lo" "lo0 \<le> lo"
  shows "sorted (flatten_gaps (fst (run_ops ops p))) \<and> (\<forall>t \<in> set (flatten_gaps (fst (run_ops ops p))). lo0 \<le> t)"
  using assms
proof (induction ops p arbitrary: lo0 lo rule: run_ops.induct)
  case (2 t ops p)
  have t: "lo \<le> t" "\<not> IsZero t" "\<forall>u \<in> set (map op_time ops). t \<le> u \<and> \<not> IsZero u" "sorted (map op_time ops)"
    using "2.prems"(1) "2.prems"(2) by auto
  have st: "paused (snd (Pause t t p)) \<longrightarrow> lo0 \<le> pausedAt (snd (Pause t t p)) \<and> pausedAt (snd (Pause t t p)) \<le> t"
    using "2.prems"(3,4) t(1,2) by (auto simp: Pause_def instant_or_def split: if_splits)
  show ?case
    unfolding run_ops.simps by (rule "2.IH" [OF t(4,3) st]) (use t(1) "2.prems"(4) in simp)
next
  case (3 t ops p)
  have t: "lo \<le> t" "\<not> IsZero t" "\<forall>u \<in> set (map op_time ops). t \<le> u \<and> \<not> IsZero u" "sorted (map op_time ops)"
    using "3.prems"(1) "3.prems"(2) by auto
  obtain fr to tr p' where r: "Resume t t p = ((fr, to, tr), p')" by (metis surj_pair)
  obtain gaps p'' where g: "run_ops ops p' = (gaps, p'')" by fastforce
  have live: "\<not> paused p'" using r by (auto simp: Resume_def split: if_splits)
  have IH: "sorted (flatten_gaps gaps) \<and> (\<forall>u \<in> set (flatten_gaps gaps). b \<le> u)" if "b \<le> t" for b
    using "3.IH" [OF r [symmetric] refl refl t(4,3) _ that] live by (simp add: g)
  show ?case
  proof (cases tr)
    case True
    then have ft: "fr = pausedAt p" "to = t" "paused p" using r t(2) by (auto simp: Resume_def instant_or_def split: if_splits)
    then show ?thesis using IH [of t] True "3.prems"(3) t(1) by (auto simp: r g)
  next
    case False
    then show ?thesis using IH [of lo0] t(1) "3.prems"(4) by (simp add: r g)
  qed
qed simp

text \<open>Under every interleaving the grants alternate: one more pause than resumes exactly while paused.\<close>

definition grants :: "pause_thread list \<Rightarrow> int" where
  "grants ts = int (length (filter granted_pause ts)) - int (length (filter granted_resume ts))"

lemma length_filter_update:
  "i < length xs \<Longrightarrow> int (length (filter P (xs[i := x]))) = int (length (filter P xs)) - of_bool (P (xs ! i)) + of_bool (P x)"
proof (induction xs arbitrary: i)
  case (Cons y xs)
  then show ?case by (cases i) auto
qed simp

lemma grants_update:
  "i < length ts \<Longrightarrow> grants (ts[i := th]) = grants ts - of_bool (granted_pause (ts ! i)) + of_bool (granted_pause th)
     + of_bool (granted_resume (ts ! i)) - of_bool (granted_resume th)"
  by (simp add: grants_def length_filter_update)

lemma thread_step_grants:
  "thread_step p th = (p', th') \<Longrightarrow>
     of_bool (paused p') - of_bool (paused p) =
     (of_bool (granted_pause th') - of_bool (granted_pause th) - of_bool (granted_resume th') + of_bool (granted_resume th) :: int)"
  by (cases th) (auto split: if_splits)

lemma pause_reach_grants:
  assumes "pause_reach (newPauseController, ts0) (p, ts)" "list_all starting ts0"
  shows "grants ts = of_bool (paused p) \<and> length ts = length ts0"
  using assms(1)
proof (induction "(p, ts)" arbitrary: p ts rule: pause_reach.induct)
  case pause_refl
  have "granted_pause th = False" "granted_resume th = False" if "starting th" for th
    using that by (cases th; simp)+
  then have "filter granted_pause ts0 = []" "filter granted_resume ts0 = []"
    using assms(2) by (auto simp: filter_empty_conv list_all_iff)
  with pause_refl show ?case by (simp add: grants_def newPauseController_def)
next
  case (pause_more c)
  from pause_more(3) pause_more(2) show ?case
  proof (cases rule: pause_step.cases)
    case (step i ts1 p1 th')
    then show ?thesis
      using pause_more(2) [of p1 ts1] thread_step_grants [of p1 "ts1 ! i" p th'] by (simp add: grants_update)
  qed
qed

lemma mget_appendTranscript:
  "writable e (TranscriptPath (TranscriptsDir e) sid) \<Longrightarrow>
   mget (transcripts (appendTranscript e now sid kind ev d)) (TranscriptPath (TranscriptsDir e) sid) =
     Some (items (mget (transcripts d) (TranscriptPath (TranscriptsDir e) sid)) @
       [\<lparr>trSchema = SchemaTranscriptV0, trTS = now, trKind = TrimSpace kind, trEvent = ev\<rparr>])"
  by (simp add: appendTranscript_def transcriptAppend_def recordTranscript_def Let_def)

definition gapRecord :: "time \<Rightarrow> time \<Rightarrow> time \<Rightarrow> TranscriptRecord" where
  "gapRecord now from to =
     \<lparr>trSchema = SchemaTranscriptV0, trTS = now, trKind = ''pause_gap'', trEvent = UIGap (NewPauseGapEvent from to)\<rparr>"

definition inTranscript :: "OutEnv \<Rightarrow> string \<Rightarrow> TranscriptRecord \<Rightarrow> DaemonOut \<Rightarrow> bool" where
  "inTranscript e sid r d \<longleftrightarrow> r \<in> set (items (mget (transcripts d) (TranscriptPath (TranscriptsDir e) sid)))"

lemma inTranscript_mono: "inTranscript e sid r d \<Longrightarrow> inTranscript e sid r (appendTranscript e now sid' kind ev d)"
  using transcript_prefix [of d] unfolding inTranscript_def by (meson set_mono_prefix subsetD)

lemma inTranscript_append:
  "writable e (TranscriptPath (TranscriptsDir e) sid) \<Longrightarrow>
     inTranscript e sid (gapRecord now from to) (appendTranscript e now sid ''pause_gap'' (UIGap (NewPauseGapEvent from to)) d)"
proof -
  have "TrimSpace ''pause_gap'' = ''pause_gap''" by code_simp
  then show "writable e (TranscriptPath (TranscriptsDir e) sid) \<Longrightarrow>
     inTranscript e sid (gapRecord now from to) (appendTranscript e now sid ''pause_gap'' (UIGap (NewPauseGapEvent from to)) d)"
    by (simp add: inTranscript_def gapRecord_def mget_appendTranscript)
qed

lemma inTranscript_fold_mono:
  "inTranscript e sid r d \<Longrightarrow> inTranscript e sid r (fold (\<lambda>s. appendTranscript e now s kind ev) sids d)"
  by (induction sids arbitrary: d) (simp_all add: inTranscript_mono)

lemma inTranscript_fold:
  "sid \<in> set sids \<Longrightarrow> writable e (TranscriptPath (TranscriptsDir e) sid) \<Longrightarrow>
     inTranscript e sid (gapRecord now from to)
       (fold (\<lambda>s. appendTranscript e now s ''pause_gap'' (UIGap (NewPauseGapEvent from to))) sids d)"
  by (induction sids arbitrary: d) (auto simp: inTranscript_fold_mono inTranscript_append)

section \<open>Properties\<close>

text \<open>C38. The switch implements its specification: with non-zero instants each call returns what the
  abstract state (on, or off since an instant) says and moves it the same way, and the gaps a sequence of
  calls in time order reports are disjoint and in order.\<close>

theorem pause_refines_spec:
  assumes "\<not> IsZero now" "sorted (map op_time ops)" "\<forall>t \<in> set (map op_time ops). 0 < t"
  shows "fst (Pause clock now p) = fst (spec_pause now (pause_abs p)) \<and>
    pause_abs (snd (Pause clock now p)) = snd (spec_pause now (pause_abs p)) \<and>
    (case Resume clock now p of ((from, to, tr), p') \<Rightarrow>
       spec_resume now (pause_abs p) = (if tr then Some (from, to) else None, pause_abs p')) \<and>
    sorted (flatten_gaps (fst (run_ops ops newPauseController)))"
proof -
  have "case Resume clock now p of ((from, to, tr), p') \<Rightarrow>
       spec_resume now (pause_abs p) = (if tr then Some (from, to) else None, pause_abs p')"
    using assms(1) by (simp add: Resume_def spec_resume_def pause_abs_def instant_or_def)
  moreover have "sorted (flatten_gaps (fst (run_ops ops newPauseController)))"
    using run_ops_gaps [of ops 0 newPauseController 0] assms(2,3)
    by (fastforce simp: newPauseController_def IsZero_def)
  ultimately show ?thesis using Pause_refines(1,2) [OF assms(1)] by blast
qed

theorem pause_refines_spec_witness:
  "fst (run_ops [OpPause 10, OpPause 20, OpResume 30, OpResume 40, OpPause 50, OpResume 60] newPauseController) =
     [(10, 30), (50, 60)] \<and>
   sorted (flatten_gaps (fst (run_ops [OpPause 10, OpPause 20, OpResume 30, OpResume 40, OpPause 50, OpResume 60]
     newPauseController)))"
proof -
  have "fst (run_ops [OpPause 10, OpPause 20, OpResume 30, OpResume 40, OpPause 50, OpResume 60] newPauseController) =
     [(10, 30), (50, 60)]" by code_simp
  moreover have "sorted (flatten_gaps (fst (run_ops [OpPause 10, OpPause 20, OpResume 30, OpResume 40, OpPause 50, OpResume 60]
     newPauseController)))"
    using pause_refines_spec [of 10 "[OpPause 10, OpPause 20, OpResume 30, OpResume 40, OpPause 50, OpResume 60]"]
    by (simp add: IsZero_def)
  ultimately show ?thesis by blast
qed

text \<open>Whatever way concurrent calls interleave, the transitions alternate: of the calls made since the
  start, the number granted a pause exceeds the number granted a resume by one while sensing is halted and
  by none while it is live.\<close>

theorem pause_transitions_alternate:
  assumes "pause_reach (newPauseController, ts0) (p, ts)" "list_all starting ts0"
  shows "length (filter granted_pause ts) = length (filter granted_resume ts) + (if Paused p then 1 else 0)"
  using pause_reach_grants [OF assms] by (auto simp: grants_def Paused_def split: if_splits)

theorem pause_transitions_alternate_witness:
  "pause_reach (newPauseController, [WantPause 10, WantPause 20])
     (newPauseController\<lparr>paused := True\<rparr>, [SetPausedAt 10, WantPause 20]) \<and>
   length (filter granted_pause [SetPausedAt 10, WantPause 20]) = 1"
proof -
  have r: "pause_reach (newPauseController, [WantPause 10, WantPause 20])
     (newPauseController\<lparr>paused := True\<rparr>, [SetPausedAt 10, WantPause 20])"
    using pause_more [OF pause_refl step [of 0 "[WantPause 10, WantPause 20]" newPauseController]]
    by (simp add: newPauseController_def)
  then show ?thesis using pause_transitions_alternate [OF r] by (simp add: Paused_def)
qed

text \<open>A resume that runs between the two steps of a pause reports a gap that starts at the zero instant,
  and leaves the instant of the finished pause behind although sensing is live.\<close>

theorem pause_race_loses_instant:
  "pause_reach (newPauseController, [WantPause 10, WantResume 20])
     (\<lparr>paused = False, pausedAt = 10\<rparr>, [PauseDone True, ResumeDone (Some (0, 20))])"
proof -
  let ?s = "(newPauseController, [WantPause 10, WantResume 20])"
  have "pause_reach ?s (\<lparr>paused = True, pausedAt = 0\<rparr>, [SetPausedAt 10, WantResume 20])"
    using pause_more [OF pause_refl [of ?s] step [of 0]] by (simp add: newPauseController_def)
  from pause_more [OF this step [of 1]]
  have "pause_reach ?s (\<lparr>paused = False, pausedAt = 0\<rparr>, [SetPausedAt 10, TakePausedAt 20])" by simp
  from pause_more [OF this step [of 1]]
  have "pause_reach ?s (\<lparr>paused = False, pausedAt = 0\<rparr>, [SetPausedAt 10, ResumeDone (Some (0, 20))])" by simp
  from pause_more [OF this step [of 0]] show ?thesis by simp
qed

text \<open>A pause is never an invisible hole: when a resume message ends a pause, the gap from the pause to
  the resume is recorded in the transcript of every live session whose file can be written (in the file of
  the synthetic session \<open>pause-gap\<close> when none is live), and is the newest event queued for the user
  interface.\<close>

theorem resume_records_gap:
  assumes "paused p" "mAction msg = ControlActionResume" "\<not> IsZero now"
    and "handleControl e now msg live (p, d) = (p', d')"
    and "sid \<in> set (if live = [] then [''pause-gap''] else live)" "writable e (TranscriptPath (TranscriptsDir e) sid)"
  shows "\<not> Paused p' \<and> inTranscript e sid (gapRecord now (pausedAt p) now) d' \<and>
    uiQueue d' \<noteq> [] \<and> last (uiQueue d') = UIGap (NewPauseGapEvent (pausedAt p) now)"
proof -
  have ne: "ControlActionResume \<noteq> ControlActionPause" by (simp add: ControlActionPause_def ControlActionResume_def)
  have r: "Resume now now p = ((pausedAt p, now, True), p\<lparr>paused := False, pausedAt := 0\<rparr>)"
    using assms(1,3) by (simp add: Resume_def instant_or_def)
  define gap where "gap = UIGap (NewPauseGapEvent (pausedAt p) now)"
  define dt where "dt = (if live = [] then appendTranscript e now ''pause-gap'' ''pause_gap'' gap d
      else fold (\<lambda>sid. appendTranscript e now sid ''pause_gap'' gap) live d)"
  have h: "p' = p\<lparr>paused := False, pausedAt := 0\<rparr>" "d' = forwardToUI gap dt"
    using assms(2,4) ne unfolding handleControl_def gap_def dt_def by (auto simp: r Let_def)
  have "inTranscript e sid (gapRecord now (pausedAt p) now) dt"
    using assms(5,6) inTranscript_append [of e sid now "pausedAt p" now d]
      inTranscript_fold [of sid live e now "pausedAt p" now d]
    by (auto simp: dt_def gap_def split: if_splits)
  then have "inTranscript e sid (gapRecord now (pausedAt p) now) d'"
    by (simp add: h inTranscript_def forwardToUI_def)
  then show ?thesis
    using ui_ring.push_last [of gap "uiQueue dt"]
    by (simp add: h Paused_def forwardToUI_def gap_def uiForwardQueueSize_def)
qed

definition demoOut :: DaemonOut where
  "demoOut = \<lparr>transcripts = [], uiQueue = [], status = fst (newStatusReporter 1), sources = snd (newStatusReporter 1)\<rparr>"

definition demoOutEnv :: OutEnv where
  "demoOutEnv = \<lparr>TranscriptsDir = ''/t'', writable = (\<lambda>p. True)\<rparr>"

definition resumeMessage :: ControlMessage where
  "resumeMessage = \<lparr>mSchema = SchemaControlV0, mAction = ControlActionResume\<rparr>"

theorem resume_records_gap_witness:
  "last (uiQueue (snd (handleControl demoOutEnv 30 resumeMessage [''s1'', ''s2'']
      (\<lparr>paused = True, pausedAt = 10\<rparr>, demoOut)))) = UIGap (NewPauseGapEvent 10 30)"
proof -
  obtain p' d' where h: "handleControl demoOutEnv 30 resumeMessage [''s1'', ''s2'']
      (\<lparr>paused = True, pausedAt = 10\<rparr>, demoOut) = (p', d')" by fastforce
  show ?thesis
    using resume_records_gap [OF _ _ _ h, of "''s1''"] unfolding h
    by (simp add: resumeMessage_def IsZero_def demoOutEnv_def)
qed

end
