(* ===== verification/Daemon_Handlers.thy ===== *)
theory Daemon_Handlers
  imports Daemon_Sessions Daemon_Trust Daemon_Pause
begin

text \<open>
  The event handlers of \<open>cmd/daemon/main.go\<close>: what a line on the socket, an observed flow or an inspected exchange
  does to the daemon. The state of the daemon is one record; everything the handlers read from outside (the host,
  the file system, the decoders of \<open>encoding/json\<close>, DNS) is the record \<open>DaemonEnv\<close>. A process snapshot is an
  optional table, None standing for the nil map of a failed \<open>ps\<close>; the snapshots a handler takes are arguments, and
  \<open>clk\<close> is its clock reading. The handlers run one at a time here; log lines are left out. \<open>dispatch_exact\<close> says which
  peer may send which kind of line, and that any other line changes nothing.
\<close>

section \<open>State\<close>

record reverseDNSCacheEntry =
  dnsName :: string
  dnsExpiresAt :: time

record Daemon =
  gSessions :: daemonSessions
  gOut :: DaemonOut
  gPause :: pauseController
  gIdentity :: identityCache
  gDNS :: "(string, reverseDNSCacheEntry) gomap"
  gBurst :: bool

record DaemonEnv =
  deHost :: Host
  deOut :: OutEnv
  deFS :: SideFS
  deExec :: ExecEnv
  deCWD :: "int \<Rightarrow> string"
  deMarshal :: "jobject \<Rightarrow> string option"
  deLookupAddr :: "string \<Rightarrow> string list option"
  deLsof :: bool
  decodeControl :: "string \<Rightarrow> ControlMessage option"
  decodeNetwork :: "string \<Rightarrow> NetworkFlowEvent option"
  decodeSemantic :: "string \<Rightarrow> SemanticEvent option"

definition ReverseDNSCacheTTL :: duration where [time_defs]: "ReverseDNSCacheTTL = 6 * Hour"
definition ReverseDNSNegativeCacheTTL :: duration where [time_defs]: "ReverseDNSNegativeCacheTTL = 30 * Minute"

section \<open>Hosts\<close>

definition remoteHost :: "string \<Rightarrow> string" where
  "remoteHost endpoint =
     (let host = TrimSpace endpoint
      in if host = [] then []
         else Trim (case SplitHostPort host of Some (parsed, port) \<Rightarrow> parsed | None \<Rightarrow> host) ''[]'')"

definition is_letter :: "char \<Rightarrow> bool" where
  "is_letter ch = (let n = of_char ch :: nat in (97 \<le> n \<and> n \<le> 122) \<or> (65 \<le> n \<and> n \<le> 90))"

definition looksLikeHostname :: "string \<Rightarrow> bool" where
  "looksLikeHostname host = list_ex is_letter (TrimSpace host)"

definition hostnameSourceForObserver :: "string \<Rightarrow> string" where
  "hostnameSourceForObserver observer =
     (let o1 = ToLower (TrimSpace observer) in if o1 = [] then ''observer'' else o1)"

definition publicAddrForDNS :: "addr \<Rightarrow> bool" where
  "publicAddrForDNS a = (IsGlobalUnicast a \<and> \<not> IsPrivate a \<and> \<not> IsLoopback a \<and> \<not> IsLinkLocalUnicast a \<and> \<not> IsLinkLocalMulticast a)"

definition reverseDNSLookupEnabled :: "Host \<Rightarrow> bool" where
  "reverseDNSLookupEnabled h = (ToLower (TrimSpace (Getenv h ''AGENTSNITCH_ENABLE_REVERSE_DNS'')) \<in> {''1'', ''true'', ''yes''})"

definition cachedReverseDNS ::
    "DaemonEnv \<Rightarrow> string \<Rightarrow> time \<Rightarrow> (string, reverseDNSCacheEntry) gomap \<Rightarrow> string \<times> (string, reverseDNSCacheEntry) gomap" where
  "cachedReverseDNS e ip now dns =
     (let name = (case deLookupAddr e ip of
                    Some (n # ns) \<Rightarrow> TrimSuffix (TrimSpace n) ''.''
                  | _ \<Rightarrow> []);
          ttl = (if name \<noteq> [] then ReverseDNSCacheTTL else ReverseDNSNegativeCacheTTL);
          fetched = (name, mput ip \<lparr>dnsName = name, dnsExpiresAt = now + ttl\<rparr> dns)
      in case mget dns ip of
           Some entry \<Rightarrow> if now < dnsExpiresAt entry then (dnsName entry, dns) else fetched
         | None \<Rightarrow> fetched)"

definition enrichNetworkHostname ::
    "DaemonEnv \<Rightarrow> time \<Rightarrow> NetworkFlowEvent \<Rightarrow> (string, reverseDNSCacheEntry) gomap \<Rightarrow>
       NetworkFlowEvent \<times> (string, reverseDNSCacheEntry) gomap" where
  "enrichNetworkHostname e clk nf dns =
     (if fSNI nf \<noteq> [] then (nf\<lparr>fHostname := fSNI nf, fHostnameSource := ''sni''\<rparr>, dns)
      else
        let host = remoteHost (fRemote nf)
        in if host = [] then (nf, dns)
           else case ParseAddr host of
                  None \<Rightarrow>
                    (if fHostname nf = [] \<and> looksLikeHostname host
                     then nf\<lparr>fHostname := host, fHostnameSource := hostnameSourceForObserver (fObserver nf)\<rparr> else nf, dns)
                | Some a \<Rightarrow>
                    if \<not> publicAddrForDNS a then (nf, dns)
                    else if \<not> reverseDNSLookupEnabled (deHost e) then (nf, dns)
                    else case cachedReverseDNS e (AddrString a) clk dns of
                           (name, dns') \<Rightarrow> (if name \<noteq> [] then nf\<lparr>fPTRHostname := name\<rparr> else nf, dns'))"

definition isPublicRemoteForUI :: "string \<Rightarrow> bool" where
  "isPublicRemoteForUI remote =
     (if TrimSpace remote = [] then False
      else case ParseAddr (remoteHost remote) of None \<Rightarrow> True | Some a \<Rightarrow> publicAddrForDNS a)"

section \<open>What the user interface is told\<close>

definition forwardSubagentEventsToUI :: "subagentEvents \<Rightarrow> DaemonOut \<Rightarrow> DaemonOut" where
  "forwardSubagentEventsToUI ev d =
     fold (\<lambda>s. forwardToUI (UISemantic s)) (semantics ev) (fold (\<lambda>l. forwardToUI (UILifecycle l)) (lifecycle ev) d)"

definition reportCards :: "DaemonEnv \<Rightarrow> time \<Rightarrow> CorrelatedEvent list \<Rightarrow> DaemonOut \<Rightarrow> DaemonOut" where
  "reportCards e clk cards d = fold (\<lambda>c d. forwardToUI (UICorrelated c) (logCorrelation (deOut e) clk c d)) cards d"

definition isAgentRelevantNetworkFlow :: "time \<Rightarrow> NetworkFlowEvent \<Rightarrow> SessionState option \<Rightarrow> bool \<times> SessionState option" where
  "isAgentRelevantNetworkFlow clk nf st =
     (let byName = (looksLikeAgentProcess (fProcessPath nf) \<or> Contains (ToLower (fProcessBundleID nf)) ''claude-code'')
      in case st of
           None \<Rightarrow> (byName, None)
         | Some s \<Rightarrow>
             (case IsAgentPID clk (fPID nf) s of
                (True, s1) \<Rightarrow> (True, Some s1)
              | (False, s1) \<Rightarrow>
                  (case IsAgentPID clk (fPPID nf) s1 of
                     (True, s2) \<Rightarrow> (True, Some s2)
                   | (False, s2) \<Rightarrow> (byName, Some s2))))"

definition shouldForwardRawNetworkToUI ::
    "time \<Rightarrow> NetworkFlowEvent \<Rightarrow> SessionState option \<Rightarrow> bool \<Rightarrow> bool \<times> SessionState option" where
  "shouldForwardRawNetworkToUI clk nf st correlated =
     (if correlated then (True, st)
      else if \<not> IsExternal nf \<or> fDirection nf = ''in'' \<or> \<not> isPublicRemoteForUI (fRemote nf) then (False, st)
      else case isAgentRelevantNetworkFlow clk nf st of
             (False, st') \<Rightarrow> (False, st')
           | (True, st') \<Rightarrow> (fState nf \<in> {''new'', ''established'', ''data'', []}, st'))"

definition rawNetworkVisibilityKey :: "NetworkFlowEvent \<Rightarrow> string" where
  "rawNetworkVisibilityKey nf =
     (let h1 = TrimSpace (fSNI nf);
          h2 = (if h1 = [] then TrimSpace (fHostname nf) else h1);
          h3 = (if h2 = [] then remoteHost (fRemote nf) else h2)
      in ToLower (Trim h3 ''[]''))"

text \<open>One key is shown once per time to live.\<close>

definition rawSeenOnce :: "string \<Rightarrow> time \<Rightarrow> (string, time) gomap \<Rightarrow> bool \<times> (string, time) gomap" where
  "rawSeenOnce key now seen =
     (let seen1 = prune_instants rawNetworkVisibilityTTL now seen
      in if mhas seen1 key then (False, seen1) else (True, mput key now seen1))"

definition shouldForwardSessionRaw :: "time \<Rightarrow> NetworkFlowEvent \<Rightarrow> daemonSession \<Rightarrow> bool \<times> daemonSession" where
  "shouldForwardSessionRaw clk nf sess =
     (case shouldForwardRawNetworkToUI clk nf (Some (dsState sess)) False of
        (ok, st) \<Rightarrow>
          let sess1 = sess\<lparr>dsState := (case st of Some s \<Rightarrow> s | None \<Rightarrow> dsState sess)\<rparr>;
              key = rawNetworkVisibilityKey nf
          in if \<not> ok then (False, sess1)
             else if key = [] then (False, sess1)
             else case rawSeenOnce key clk (dsRawSeen sess1) of (first, seen) \<Rightarrow> (first, sess1\<lparr>dsRawSeen := seen\<rparr>))"

definition shouldForwardUnattributedRawNetworkToUI :: "time \<Rightarrow> NetworkFlowEvent \<Rightarrow> daemonSessions \<Rightarrow> bool \<times> daemonSessions" where
  "shouldForwardUnattributedRawNetworkToUI clk nf ss =
     (let key = rawNetworkVisibilityKey nf
      in if \<not> fst (shouldForwardRawNetworkToUI clk nf None False) then (False, ss)
         else if key = [] then (False, ss)
         else case rawSeenOnce key clk (dsUnattributedSeen ss) of (first, seen) \<Rightarrow> (first, ss\<lparr>dsUnattributedSeen := seen\<rparr>))"

fun forward_loop :: "time \<Rightarrow> NetworkFlowEvent \<Rightarrow> daemonSession list \<Rightarrow> daemonSessions \<Rightarrow> bool \<times> daemonSessions" where
  "forward_loop clk nf [] ss = (False, ss)"
| "forward_loop clk nf (sess # cands) ss =
     (case shouldForwardSessionRaw clk nf sess of
        (ok, sess') \<Rightarrow> if ok then (True, putSession sess' ss) else forward_loop clk nf cands (putSession sess' ss))"

definition shouldForwardRawNetworkToUIForSessions ::
    "time \<Rightarrow> NetworkFlowEvent \<Rightarrow> daemonSession list \<Rightarrow> bool \<Rightarrow> daemonSessions \<Rightarrow> bool \<times> daemonSessions" where
  "shouldForwardRawNetworkToUIForSessions clk nf candidates correlated ss =
     (if correlated then (True, ss)
      else if candidates = [] then shouldForwardUnattributedRawNetworkToUI clk nf ss
      else forward_loop clk nf candidates ss)"

definition shouldHoldUnattributedNetworkFlow :: "NetworkFlowEvent \<Rightarrow> bool" where
  "shouldHoldUnattributedNetworkFlow nf =
     (if \<not> IsExternal nf \<or> fDirection nf = ''in'' \<or> \<not> isPublicRemoteForUI (fRemote nf) then False
      else fState nf \<in> {''new'', ''established'', ''data''})"

definition requestLsofBurstPoll :: "DaemonEnv \<Rightarrow> Daemon \<Rightarrow> Daemon" where
  "requestLsofBurstPoll e g = (if deLsof e then g\<lparr>gBurst := True\<rparr> else g)"

section \<open>Flows\<close>

definition correlateSessionFlow ::
    "DaemonEnv \<Rightarrow> time \<Rightarrow> daemonSession \<Rightarrow> NetworkFlowEvent \<Rightarrow> Daemon \<Rightarrow> bool \<times> daemonSession \<times> Daemon" where
  "correlateSessionFlow e clk sess flow g =
     (let sess1 = sess\<lparr>dsState := AddNetworkFlow clk flow (dsState sess)\<rparr>;
          (sess2, ss2) = recordActivity clk sess1 (fTS flow) (putSession sess1 (gSessions g));
          (cards, st) = TryCorrelate clk flow (dsState sess2);
          sess3 = sess2\<lparr>dsState := st\<rparr>
      in (cards \<noteq> [], sess3, g\<lparr>gSessions := putSession sess3 ss2, gOut := reportCards e clk cards (gOut g)\<rparr>))"

definition annotatedNetworkFlowForSession ::
    "DaemonEnv \<Rightarrow> time \<Rightarrow> NetworkFlowEvent \<Rightarrow> proc_table \<Rightarrow> daemonSession \<Rightarrow> NetworkFlowEvent \<times> daemonSession" where
  "annotatedNetworkFlowForSession e clk nf processes sess =
     (case (if fAgent nf = None then annotateNetwork (deCWD e) clk nf processes (dsSubagents sess) else (nf, dsSubagents sess)) of
        (flow, m) \<Rightarrow> (NormalizeNetworkFlow clk flow, sess\<lparr>dsSubagents := m\<rparr>))"

text \<open>The loop that gives every candidate its own view of the flow; a live flow also lets the monitor look at
  the process table.\<close>

fun annotate_candidates ::
    "DaemonEnv \<Rightarrow> time \<Rightarrow> bool \<Rightarrow> NetworkFlowEvent \<Rightarrow> proc_table \<Rightarrow> daemonSession list \<Rightarrow> Daemon \<Rightarrow>
       (daemonSession \<times> NetworkFlowEvent) list \<times> Daemon" where
  "annotate_candidates e clk live nf processes [] g = ([], g)"
| "annotate_candidates e clk live nf processes (sess # cands) g =
     (let (ev, sess1) = (if live then observeSession (deFS e) (deCWD e) clk processes sess else (noEvents, sess));
          (flow, sess2) = annotatedNetworkFlowForSession e clk nf processes sess1;
          g1 = g\<lparr>gSessions := putSession sess2 (gSessions g), gOut := forwardSubagentEventsToUI ev (gOut g)\<rparr>;
          (rest, g2) = annotate_candidates e clk live nf processes cands g1
      in ((sess2, flow) # rest, g2))"

fun correlate_candidates ::
    "DaemonEnv \<Rightarrow> time \<Rightarrow> (daemonSession \<times> NetworkFlowEvent) list \<Rightarrow> Daemon \<Rightarrow> bool \<times> daemonSession list \<times> Daemon" where
  "correlate_candidates e clk [] g = (False, [], g)"
| "correlate_candidates e clk ((sess, flow) # cands) g =
     (let (hit, sess1, g1) = correlateSessionFlow e clk sess flow g;
          (hits, sesss, g2) = correlate_candidates e clk cands g1
      in (hit \<or> hits, sess1 # sesss, g2))"

text \<open>What live handling and refreshing share once the flow is valid.\<close>

definition deliverFlow ::
    "DaemonEnv \<Rightarrow> time \<Rightarrow> NetworkFlowEvent \<Rightarrow> (daemonSession \<times> NetworkFlowEvent) list \<Rightarrow> string option \<Rightarrow> Daemon \<Rightarrow> Daemon" where
  "deliverFlow e clk nf cands kind g =
     (let statusFlow = (case cands of [(sess, flow)] \<Rightarrow> flow | _ \<Rightarrow> nf);
          d1 = recordNetwork clk statusFlow (gOut g);
          d2 = (case kind of Some k \<Rightarrow> appendTranscript (deOut e) clk ''network-observer'' k (UINetwork statusFlow) d1 | None \<Rightarrow> d1);
          (correlated, sesss, g1) = correlate_candidates e clk cands (g\<lparr>gOut := d2\<rparr>);
          ss1 = (if cands = [] \<and> shouldHoldUnattributedNetworkFlow nf then holdPendingNetworkFlow clk nf clk (gSessions g1) else gSessions g1);
          (forward, ss2) = shouldForwardRawNetworkToUIForSessions clk statusFlow sesss correlated ss1
      in g1\<lparr>gSessions := ss2, gOut := (if forward then forwardToUI (UINetwork statusFlow) (gOut g1) else gOut g1)\<rparr>)"

definition handleNetworkWithProcesses ::
    "DaemonEnv \<Rightarrow> time \<Rightarrow> proc_table option \<Rightarrow> NetworkFlowEvent \<Rightarrow> proc_table option \<Rightarrow> Daemon \<Rightarrow> Daemon" where
  "handleNetworkWithProcesses e clk snapshot nf0 processes0 g =
     (let (nf1, dns) = enrichNetworkHostname e clk (NormalizeNetworkFlow clk nf0) (gDNS g);
          processes = items (if processes0 = None then snapshot else processes0);
          nf2 = enrichNetworkFlowFromProcesses (deExec e) processes nf1;
          (cands, processes', ss) = applyProcessSnapshotAndMatch clk processes nf2 (gSessions g);
          (flows, g1) = annotate_candidates e clk True nf2 processes' cands (g\<lparr>gDNS := dns, gSessions := ss\<rparr>);
          nf3 = NormalizeNetworkFlow clk nf2
      in if ValidateNetworkFlow nf3 \<noteq> None then g1
         else deliverFlow e clk nf3 flows (Some ''network'') g1)"

definition handleNetwork :: "DaemonEnv \<Rightarrow> time \<Rightarrow> proc_table option \<Rightarrow> NetworkFlowEvent \<Rightarrow> Daemon \<Rightarrow> Daemon" where
  "handleNetwork e clk snapshot nf g = handleNetworkWithProcesses e clk snapshot nf None g"

definition refreshNetworkObservationForSessions ::
    "DaemonEnv \<Rightarrow> time \<Rightarrow> proc_table option \<Rightarrow> NetworkFlowEvent \<Rightarrow> bool \<Rightarrow> Daemon \<Rightarrow> Daemon" where
  "refreshNetworkObservationForSessions e clk snapshot nf0 writeTranscript g =
     (let (nf1, dns) = enrichNetworkHostname e clk (NormalizeNetworkFlow clk nf0) (gDNS g);
          processes = items snapshot;
          nf3 = NormalizeNetworkFlow clk (enrichNetworkFlowFromProcesses (deExec e) processes nf1);
          g0 = g\<lparr>gDNS := dns\<rparr>
      in if ValidateNetworkFlow nf3 \<noteq> None then g0
         else
           let (cands, processes', ss) = applyProcessSnapshotAndMatch clk processes nf3 (gSessions g0);
               (flows, g1) = annotate_candidates e clk False nf3 processes' cands (g0\<lparr>gSessions := ss\<rparr>)
           in deliverFlow e clk nf3 flows (if writeTranscript then Some ''network_refresh'' else None) g1)"

definition handleSocketNetwork ::
    "DaemonEnv \<Rightarrow> time \<Rightarrow> proc_table option \<Rightarrow> proc_table option \<Rightarrow> NetworkFlowEvent \<Rightarrow> int \<Rightarrow> bool \<Rightarrow> Daemon \<Rightarrow> Daemon" where
  "handleSocketNetwork e clk snapshot1 snapshot2 nf peerPID hasPeerPID g =
     (if \<not> hasPeerPID \<or> peerPID \<le> 0 then g
      else case trustedNetworkSocketPeer (deHost e) (gIdentity g) peerPID of
             (trusted, cache) \<Rightarrow>
               let g1 = g\<lparr>gIdentity := cache\<rparr>
               in if \<not> trusted then g1 else handleNetworkWithProcesses e clk snapshot2 nf snapshot1 g1)"

section \<open>Hook events\<close>

fun drain_flows :: "DaemonEnv \<Rightarrow> time \<Rightarrow> NetworkFlowEvent list \<Rightarrow> daemonSession \<Rightarrow> Daemon \<Rightarrow> daemonSession \<times> Daemon" where
  "drain_flows e clk [] sess g = (sess, g)"
| "drain_flows e clk (flow # flows) sess g =
     (case correlateSessionFlow e clk sess flow g of (hit, sess1, g1) \<Rightarrow> drain_flows e clk flows sess1 g1)"

text \<open>An accepted event: the session learns it, the waiting flows are replayed, the event is correlated and
  everything is reported.\<close>

definition ingestSemantic :: "DaemonEnv \<Rightarrow> time \<Rightarrow> proc_table \<Rightarrow> SemanticEvent \<Rightarrow> Daemon \<Rightarrow> Daemon" where
  "ingestSemantic e clk processes0 se0 g =
     (let (sess0, ss0) = forSemantic clk se0 (gSessions g);
          (processes, sess1) = snapshotSession clk processes0 sess0;
          (ev1, sess2) = observeSession (deFS e) (deCWD e) clk processes sess1;
          (se, monitor, ev2) = annotateSemantic (deFS e) clk se0 processes (dsSubagents sess2);
          d1 = forwardSubagentEventsToUI ev2 (forwardSubagentEventsToUI ev1 (gOut g));
          d2 = appendTranscript (deOut e) clk (sessID (sSession se)) ''semantic'' (UISemantic se) (Daemon_Out.recordSemantic clk se d1);
          sess3 = sess2\<lparr>dsSubagents := monitor, dsState := AddSemanticEvent clk se (dsState sess2)\<rparr>;
          (sess4, ss1) = recordActivity clk sess3 (sTS se) (putSession sess3 ss0);
          (flows, sess5, ss2) = drainPendingForSession clk sess4 (sTS se) ss1;
          (sess6, g1) = drain_flows e clk flows sess5 (g\<lparr>gSessions := ss2, gOut := d2\<rparr>);
          sess7 = sess6\<lparr>dsSubagents := Daemon_Monitor.recordSemantic (deMarshal e) clk se (dsSubagents sess6)\<rparr>;
          g2 = requestLsofBurstPoll e g1;
          (cards, st) = TryCorrelateSemantic clk se (dsState sess7);
          sess8 = sess7\<lparr>dsState := st\<rparr>
      in g2\<lparr>gSessions := putSession sess8 (gSessions g2), gOut := forwardToUI (UISemantic se) (reportCards e clk cards (gOut g2))\<rparr>)"

definition handleSemantic ::
    "DaemonEnv \<Rightarrow> time \<Rightarrow> proc_table option \<Rightarrow> SemanticEvent \<Rightarrow> int \<Rightarrow> bool \<Rightarrow> Daemon \<Rightarrow> Daemon" where
  "handleSemantic e clk snapshot se0 peerPID hasPeerPID g =
     (let se = NormalizeSemanticEvent clk se0
      in if hasPeerPID \<and> peerPID > 0 \<and> sPID se \<noteq> peerPID then g
         else
           let (trusted, cache) = (if hasPeerPID \<and> peerPID > 0 then trustedSemanticSocketPeer (deHost e) (gIdentity g) peerPID
                                   else (True, gIdentity g));
               g1 = g\<lparr>gIdentity := cache\<rparr>
           in if \<not> trusted then g1
              else if ValidateSemanticEvent se \<noteq> None then g1
              else ingestSemantic e clk (items snapshot) se g1)"

definition handleSocketSemantic ::
    "DaemonEnv \<Rightarrow> time \<Rightarrow> proc_table option \<Rightarrow> proc_table option \<Rightarrow> SemanticEvent \<Rightarrow> int \<Rightarrow> bool \<Rightarrow> Daemon \<Rightarrow> Daemon" where
  "handleSocketSemantic e clk snapshot1 snapshot2 se peerPID hasPeerPID g =
     (if \<not> hasPeerPID \<or> peerPID \<le> 0 then g
      else if \<not> trustedSemanticHookOrigin peerPID (items snapshot1) then g
      else handleSemantic e clk snapshot2 se peerPID hasPeerPID g)"

section \<open>The socket\<close>

definition handleControlMessage :: "DaemonEnv \<Rightarrow> time \<Rightarrow> ControlMessage \<Rightarrow> Daemon \<Rightarrow> Daemon" where
  "handleControlMessage e clk ctrl g =
     (case handleControl (deOut e) clk ctrl (map dsID (sessionList (gSessions g))) (gPause g, gOut g) of
        (p, d) \<Rightarrow> g\<lparr>gPause := p, gOut := d\<rparr>)"

definition controlOf :: "DaemonEnv \<Rightarrow> string \<Rightarrow> ControlMessage option" where
  "controlOf e line =
     (if Contains line ''agentsnitch.control''
      then (case decodeControl e line of
              Some ctrl \<Rightarrow> if mSchema ctrl = SchemaControlV0 then Some ctrl else None
            | None \<Rightarrow> None)
      else None)"

definition dispatchEvidence ::
    "DaemonEnv \<Rightarrow> time \<Rightarrow> proc_table option \<Rightarrow> proc_table option \<Rightarrow> string \<Rightarrow> int \<Rightarrow> bool \<Rightarrow> Daemon \<Rightarrow> Daemon" where
  "dispatchEvidence e clk snapshot1 snapshot2 line peerPID hasPeerPID g =
     (let network = (if Contains line ''\"remote\"'' \<or> Contains line ''agentsnitch.network'' then decodeNetwork e line else None)
      in case network of
           Some nf \<Rightarrow> handleSocketNetwork e clk snapshot1 snapshot2 nf peerPID hasPeerPID g
         | None \<Rightarrow>
             let semantic = (case decodeSemantic e line of
                               Some se \<Rightarrow> if sPID se \<noteq> 0 \<or> sTool se \<noteq> [] \<or> Contains line ''agentsnitch.semantic'' then Some se else None
                             | None \<Rightarrow> None)
             in case semantic of
                  Some se \<Rightarrow> handleSocketSemantic e clk snapshot1 snapshot2 se peerPID hasPeerPID g
                | None \<Rightarrow>
                    (case decodeNetwork e line of
                       Some nf \<Rightarrow> if fRemote nf \<noteq> [] then handleSocketNetwork e clk snapshot1 snapshot2 nf peerPID hasPeerPID g else g
                     | None \<Rightarrow> g))"

definition dispatch ::
    "DaemonEnv \<Rightarrow> time \<Rightarrow> proc_table option \<Rightarrow> proc_table option \<Rightarrow> string \<Rightarrow> int \<Rightarrow> bool \<Rightarrow> Daemon \<Rightarrow> Daemon" where
  "dispatch e clk snapshot1 snapshot2 line peerPID hasPeerPID g =
     (case controlOf e line of
        Some ctrl \<Rightarrow>
          if \<not> hasPeerPID \<or> peerPID \<le> 0 then g
          else (case trustedControlSocketPeer (deHost e) (gIdentity g) peerPID of
                  (trusted, cache) \<Rightarrow>
                    let g1 = g\<lparr>gIdentity := cache\<rparr> in if \<not> trusted then g1 else handleControlMessage e clk ctrl g1)
      | None \<Rightarrow>
          if Paused (gPause g) then g
          else dispatchEvidence e clk snapshot1 snapshot2 line peerPID hasPeerPID g)"

text \<open>\<open>handleConn\<close>: the lines of one connection, blank ones skipped; a line that does not fit the buffer ends it.
  Each line comes with the clock and the snapshots taken while it is handled.\<close>

definition MaxDaemonSocketLineBytes :: nat where "MaxDaemonSocketLineBytes = 2 * 1024 * 1024"

definition handleConn ::
    "DaemonEnv \<Rightarrow> int \<Rightarrow> bool \<Rightarrow> (string \<times> time \<times> proc_table option \<times> proc_table option) list \<Rightarrow> Daemon \<Rightarrow> Daemon" where
  "handleConn e peerPID hasPeerPID input g =
     fold (\<lambda>(line0, clk, snapshot1, snapshot2) g.
             let line = TrimSpace line0 in if line = [] then g else dispatch e clk snapshot1 snapshot2 line peerPID hasPeerPID g)
       (takeWhile (\<lambda>(line0, _). length line0 < MaxDaemonSocketLineBytes) input) g"

section \<open>What a line can change\<close>

text \<open>Everything but the cached identity of the daemon.\<close>

definition unchanged :: "Daemon \<Rightarrow> Daemon \<Rightarrow> bool" where
  "unchanged g g' \<longleftrightarrow> (\<exists>c. g' = g\<lparr>gIdentity := c\<rparr>)"

lemma unchanged_refl [simp]: "unchanged g g"
  unfolding unchanged_def by (rule exI [of _ "gIdentity g"]) simp

lemma unchanged_identity [simp]: "unchanged g (g\<lparr>gIdentity := c\<rparr>)"
  by (auto simp: unchanged_def)

lemma handleSocketNetwork_guard:
  "\<not> (hasPeerPID \<and> 0 < peerPID \<and> fst (trustedNetworkSocketPeer (deHost e) (gIdentity g) peerPID)) \<Longrightarrow>
   unchanged g (handleSocketNetwork e clk s1 s2 nf peerPID hasPeerPID g)"
  by (auto simp: handleSocketNetwork_def Let_def split: prod.split)

lemma handleSocketSemantic_guard:
  "\<not> (hasPeerPID \<and> 0 < peerPID \<and> fst (trustedSemanticSocketPeer (deHost e) (gIdentity g) peerPID) \<and>
      trustedSemanticHookOrigin peerPID (items s1) \<and> sPID se = peerPID \<and> ValidateSemanticEvent (NormalizeSemanticEvent clk se) = None) \<Longrightarrow>
   unchanged g (handleSocketSemantic e clk s1 s2 se peerPID hasPeerPID g)"
proof -
  have pid: "sPID (NormalizeSemanticEvent clk se) = sPID se" by (simp add: NormalizeSemanticEvent_def)
  assume "\<not> (hasPeerPID \<and> 0 < peerPID \<and> fst (trustedSemanticSocketPeer (deHost e) (gIdentity g) peerPID) \<and>
      trustedSemanticHookOrigin peerPID (items s1) \<and> sPID se = peerPID \<and> ValidateSemanticEvent (NormalizeSemanticEvent clk se) = None)"
  then show ?thesis
    by (auto simp: handleSocketSemantic_def handleSemantic_def pid Let_def split: prod.split)
qed

section \<open>The invariant of the daemon\<close>

definition wf_daemon :: "Host \<Rightarrow> Daemon \<Rightarrow> bool" where
  "wf_daemon h g \<longleftrightarrow> wf_sessions (gSessions g) \<and> length (uiQueue (gOut g)) \<le> uiForwardQueueSize \<and> cache_ok h (gIdentity g) \<and>
     pause_wf (gPause g)"

lemma uiQueue_forwardToUI [simp]: "uiQueue (forwardToUI v d) = enqueue v (uiQueue d)"
  by (simp add: forwardToUI_def)

lemma enqueue_bound: "length (enqueue v q) \<le> uiForwardQueueSize"
  by (simp add: ui_ring.push_length)

lemma uiQueue_records [simp]:
  "uiQueue (appendTranscript e now sid kind ev d) = uiQueue d" "uiQueue (recordNetwork now nf d) = uiQueue d"
  "uiQueue (Daemon_Out.recordSemantic now se d) = uiQueue d" "uiQueue (recordInspectedHTTP now x d) = uiQueue d"
  "uiQueue (logCorrelation e now c d) = uiQueue d"
  by (auto simp: appendTranscript_def recordTranscript_def recordNetwork_def Daemon_Out.recordSemantic_def recordInspectedHTTP_def
      logCorrelation_def recordCorrelated_def Let_def split: option.split)

lemma uiQueue_fold:
  "length (uiQueue d) \<le> uiForwardQueueSize \<Longrightarrow> (\<And>x d. length (uiQueue d) \<le> uiForwardQueueSize \<Longrightarrow> length (uiQueue (f x d)) \<le> uiForwardQueueSize) \<Longrightarrow>
   length (uiQueue (fold f xs d)) \<le> uiForwardQueueSize"
  by (induction xs arbitrary: d) simp_all

lemma uiQueue_reports [simp]:
  "length (uiQueue d) \<le> uiForwardQueueSize \<Longrightarrow> length (uiQueue (forwardSubagentEventsToUI ev d)) \<le> uiForwardQueueSize"
  "length (uiQueue d) \<le> uiForwardQueueSize \<Longrightarrow> length (uiQueue (reportCards e clk cards d)) \<le> uiForwardQueueSize"
  unfolding forwardSubagentEventsToUI_def reportCards_def by (intro uiQueue_fold; simp add: enqueue_bound)+

lemma wf_daemon_sessions: "wf_daemon h g \<Longrightarrow> wf_sessions ss \<Longrightarrow> wf_daemon h (g\<lparr>gSessions := ss\<rparr>)"
  by (simp add: wf_daemon_def)

lemma wf_daemon_out: "wf_daemon h g \<Longrightarrow> length (uiQueue d) \<le> uiForwardQueueSize \<Longrightarrow> wf_daemon h (g\<lparr>gOut := d\<rparr>)"
  by (simp add: wf_daemon_def)

subsection \<open>Flows\<close>

lemma wf_correlateSessionFlow:
  assumes "wf_daemon h g" "wf_daemon_session sess" "correlateSessionFlow e clk sess flow g = (hit, sess', g')"
  shows "wf_daemon h g' \<and> wf_daemon_session sess'"
proof -
  define sess1 where "sess1 = sess\<lparr>dsState := AddNetworkFlow clk flow (dsState sess)\<rparr>"
  obtain sess2 ss2 where a: "recordActivity clk sess1 (fTS flow) (putSession sess1 (gSessions g)) = (sess2, ss2)" by fastforce
  obtain cards st where t: "TryCorrelate clk flow (dsState sess2) = (cards, st)" by fastforce
  have w1: "wf_daemon_session sess1" using assms(2) by (simp add: sess1_def wf_daemon_session_def wf_session_AddNetworkFlow)
  have "wf_sessions (putSession sess1 (gSessions g))" using assms(1) w1 by (simp add: wf_daemon_def wf_putSession)
  then have w2: "wf_sessions ss2" "wf_daemon_session sess2" using wf_recordActivity [OF _ w1 a] by auto
  have "wf_session st" using wf_session_TryCorrelate [of "dsState sess2" clk flow] w2 t by (simp add: wf_daemon_session_def)
  then have w3: "wf_daemon_session (sess2\<lparr>dsState := st\<rparr>)" using w2 by (simp add: wf_daemon_session_def)
  have "sess' = sess2\<lparr>dsState := st\<rparr>"
    "g' = g\<lparr>gSessions := putSession (sess2\<lparr>dsState := st\<rparr>) ss2, gOut := reportCards e clk cards (gOut g)\<rparr>"
    using assms(3) a t by (auto simp: correlateSessionFlow_def sess1_def Let_def)
  then show ?thesis using assms(1) w2 w3 by (simp add: wf_daemon_def wf_putSession)
qed

lemma wf_correlate_candidates:
  "wf_daemon h g \<Longrightarrow> list_all (\<lambda>(sess, flow). wf_daemon_session sess) cands \<Longrightarrow> correlate_candidates e clk cands g = (hit, sesss, g') \<Longrightarrow>
   wf_daemon h g' \<and> list_all wf_daemon_session sesss"
proof (induction e clk cands g arbitrary: hit sesss g' rule: correlate_candidates.induct)
  case (2 e clk sess flow cands g)
  obtain h1 s1 g1 where c: "correlateSessionFlow e clk sess flow g = (h1, s1, g1)" using prod_cases3 by blast
  obtain h2 ss2 g2 where r: "correlate_candidates e clk cands g1 = (h2, ss2, g2)" using prod_cases3 by blast
  have "wf_daemon h g1 \<and> wf_daemon_session s1" using wf_correlateSessionFlow [OF "2.prems"(1) _ c] "2.prems"(2) by simp
  moreover from this have "wf_daemon h g2 \<and> list_all wf_daemon_session ss2"
    using "2.IH" [OF c [symmetric] refl refl, of h2 ss2 g2] "2.prems"(2) r by simp
  ultimately show ?case using "2.prems"(3) c r by auto
qed simp

lemma wf_annotatedFlow:
  assumes "wf_daemon_session sess" "annotatedNetworkFlowForSession e clk nf ps sess = (flow, sess')"
  shows "wf_daemon_session sess'"
proof -
  obtain f m where a: "annotateNetwork (deCWD e) clk nf ps (dsSubagents sess) = (f, m)" by fastforce
  have "wf_monitor m" using annotateNetwork_result [OF a] assms(1) by (simp add: wf_monitor_def wf_daemon_session_def)
  then show ?thesis
    using assms a by (auto simp: annotatedNetworkFlowForSession_def wf_daemon_session_def split: if_splits)
qed

lemma wf_annotate_candidates:
  "wf_daemon h g \<Longrightarrow> wf_map ps \<Longrightarrow> list_all wf_daemon_session cands \<Longrightarrow> annotate_candidates e clk live nf ps cands g = (flows, g') \<Longrightarrow>
   wf_daemon h g' \<and> list_all (\<lambda>(sess, flow). wf_daemon_session sess) flows"
proof (induction e clk live nf ps cands g arbitrary: flows g' rule: annotate_candidates.induct)
  case (2 e clk live nf ps sess cands g)
  obtain ev s1 where o1: "(if live then observeSession (deFS e) (deCWD e) clk ps sess else (noEvents, sess)) = (ev, s1)" by fastforce
  obtain flow s2 where a: "annotatedNetworkFlowForSession e clk nf ps s1 = (flow, s2)" by fastforce
  define g1 where "g1 = g\<lparr>gSessions := putSession s2 (gSessions g), gOut := forwardSubagentEventsToUI ev (gOut g)\<rparr>"
  obtain rest g2 where r: "annotate_candidates e clk live nf ps cands g1 = (rest, g2)" by fastforce
  have "wf_daemon_session s1"
    using o1 "2.prems"(3) wf_observeSession [OF "2.prems"(2)] by (auto split: if_splits)
  then have w2: "wf_daemon_session s2" using wf_annotatedFlow [OF _ a] by simp
  then have w1: "wf_daemon h g1" using "2.prems"(1) by (simp add: g1_def wf_daemon_def wf_putSession)
  have "wf_daemon h g2 \<and> list_all (\<lambda>(sess, flow). wf_daemon_session sess) rest"
    using "2.IH" [OF o1 [symmetric] refl a [symmetric] refl g1_def w1 "2.prems"(2) _ r] "2.prems"(3) by simp
  moreover have "flows = (s2, flow) # rest" "g' = g2"
    using "2.prems"(4) o1 a r by (auto simp: g1_def Let_def)
  ultimately show ?case using w2 by simp
qed simp

lemma wf_rawSeenOnce: "wf_map seen \<Longrightarrow> rawSeenOnce key now seen = (first, seen') \<Longrightarrow> wf_map seen'"
  by (auto simp: rawSeenOnce_def Let_def raw_cache.prune_wf split: if_splits)

lemma wf_isAgentPID: "wf_session s \<Longrightarrow> wf_session (snd (IsAgentPID clk pid s))"
  by (simp add: IsAgentPID_def Let_def)

lemma wf_shouldForwardRaw:
  assumes "wf_session s" "shouldForwardRawNetworkToUI clk nf (Some s) correlated = (ok, st)"
  shows "\<exists>s'. st = Some s' \<and> wf_session s'"
proof -
  obtain b1 s1 where a: "IsAgentPID clk (fPID nf) s = (b1, s1)" by fastforce
  obtain b2 s2 where b: "IsAgentPID clk (fPPID nf) s1 = (b2, s2)" by fastforce
  have "wf_session s1" using wf_isAgentPID [OF assms(1), of clk "fPID nf"] a by simp
  moreover from this have "wf_session s2" using wf_isAgentPID [of s1 clk "fPPID nf"] b by simp
  ultimately show ?thesis
    using assms a b
    by (auto simp: shouldForwardRawNetworkToUI_def isAgentRelevantNetworkFlow_def Let_def split: if_splits bool.splits)
qed

lemma wf_shouldForwardSessionRaw:
  assumes "wf_daemon_session sess" "shouldForwardSessionRaw clk nf sess = (ok, sess')"
  shows "wf_daemon_session sess'"
proof -
  obtain ok1 st where f: "shouldForwardRawNetworkToUI clk nf (Some (dsState sess)) False = (ok1, st)" by fastforce
  obtain s where s: "st = Some s" "wf_session s" using wf_shouldForwardRaw [OF _ f] assms(1) by (auto simp: wf_daemon_session_def)
  obtain first seen where r: "rawSeenOnce (rawNetworkVisibilityKey nf) clk (dsRawSeen sess) = (first, seen)" by fastforce
  have "wf_map seen" using wf_rawSeenOnce [OF _ r] assms(1) by (simp add: wf_daemon_session_def)
  then show ?thesis
    using assms f s r by (auto simp: shouldForwardSessionRaw_def wf_daemon_session_def Let_def split: if_splits)
qed

lemma wf_forward_loop:
  "wf_sessions ss \<Longrightarrow> list_all wf_daemon_session cands \<Longrightarrow> forward_loop clk nf cands ss = (ok, ss') \<Longrightarrow> wf_sessions ss'"
proof (induction clk nf cands ss arbitrary: ok ss' rule: forward_loop.induct)
  case (2 clk nf sess cands ss)
  obtain b s1 where f: "shouldForwardSessionRaw clk nf sess = (b, s1)" by fastforce
  have "wf_sessions (putSession s1 ss)" using wf_shouldForwardSessionRaw [OF _ f] "2.prems"(1,2) by (simp add: wf_putSession)
  then show ?case using "2.IH" [OF f [symmetric]] "2.prems"(2,3) f by (auto split: if_splits)
qed simp

lemma wf_shouldForwardForSessions:
  assumes "wf_sessions ss" "list_all wf_daemon_session cands"
    and "shouldForwardRawNetworkToUIForSessions clk nf cands correlated ss = (ok, ss')"
  shows "wf_sessions ss'"
proof -
  obtain first seen where r: "rawSeenOnce (rawNetworkVisibilityKey nf) clk (dsUnattributedSeen ss) = (first, seen)" by fastforce
  have "wf_map seen" using wf_rawSeenOnce [OF _ r] assms(1) by (simp add: wf_sessions_def)
  then have "wf_sessions (ss\<lparr>dsUnattributedSeen := seen\<rparr>)" using assms(1) by (simp add: wf_sessions_def)
  then show ?thesis
    using assms wf_forward_loop [OF assms(1,2)] r
    by (auto simp: shouldForwardRawNetworkToUIForSessions_def shouldForwardUnattributedRawNetworkToUI_def Let_def split: if_splits)
qed

lemma wf_deliverFlow:
  assumes "wf_daemon h g" "list_all (\<lambda>(sess, flow). wf_daemon_session sess) cands"
  shows "wf_daemon h (deliverFlow e clk nf cands kind g)"
proof -
  define sf where "sf = (case cands of [(sess, flow)] \<Rightarrow> flow | _ \<Rightarrow> nf)"
  define d2 where "d2 = (case kind of Some k \<Rightarrow> appendTranscript (deOut e) clk ''network-observer'' k (UINetwork sf) (recordNetwork clk sf (gOut g))
    | None \<Rightarrow> recordNetwork clk sf (gOut g))"
  obtain hit sesss g1 where c: "correlate_candidates e clk cands (g\<lparr>gOut := d2\<rparr>) = (hit, sesss, g1)" using prod_cases3 by blast
  define ss1 where "ss1 = (if cands = [] \<and> shouldHoldUnattributedNetworkFlow nf then holdPendingNetworkFlow clk nf clk (gSessions g1) else gSessions g1)"
  obtain fwd ss2 where f: "shouldForwardRawNetworkToUIForSessions clk sf sesss hit ss1 = (fwd, ss2)" by fastforce
  have "uiQueue d2 = uiQueue (gOut g)" by (simp add: d2_def split: option.split)
  then have "wf_daemon h (g\<lparr>gOut := d2\<rparr>)" using assms(1) by (simp add: wf_daemon_def)
  then have w1: "wf_daemon h g1" "list_all wf_daemon_session sesss" using wf_correlate_candidates [OF _ assms(2) c] by blast+
  then have "wf_sessions ss1" by (simp add: ss1_def wf_daemon_def wf_holdPending)
  then have w2: "wf_sessions ss2" using wf_shouldForwardForSessions [OF _ w1(2) f] by blast
  have "deliverFlow e clk nf cands kind g = g1\<lparr>gSessions := ss2, gOut := (if fwd then forwardToUI (UINetwork sf) (gOut g1) else gOut g1)\<rparr>"
    unfolding deliverFlow_def Let_def sf_def [symmetric] d2_def [symmetric] c prod.case ss1_def [symmetric] f ..
  then show ?thesis using w1(1) w2 by (simp add: wf_daemon_def enqueue_bound)
qed

lemma wf_handleNetwork:
  assumes "wf_daemon h g" "wf_map (items snapshot)" "wf_map (items processes)"
  shows "wf_daemon h (handleNetworkWithProcesses e clk snapshot nf processes g)"
proof -
  define ps where "ps = items (if processes = None then snapshot else processes)"
  obtain nf1 dns where n: "enrichNetworkHostname e clk (NormalizeNetworkFlow clk nf) (gDNS g) = (nf1, dns)" by fastforce
  define nf2 where "nf2 = enrichNetworkFlowFromProcesses (deExec e) ps nf1"
  obtain cands ps' ss where m: "applyProcessSnapshotAndMatch clk ps nf2 (gSessions g) = (cands, ps', ss)" using prod_cases3 by blast
  obtain flows g1 where a: "annotate_candidates e clk True nf2 ps' cands (g\<lparr>gDNS := dns, gSessions := ss\<rparr>) = (flows, g1)" by fastforce
  have "wf_map ps" using assms(2,3) by (simp add: ps_def)
  then have w: "wf_sessions ss" "wf_map ps'" "list_all wf_daemon_session cands"
    using wf_applySnapshotAndMatch [OF _ _ m] assms(1) by (auto simp: wf_daemon_def)
  have "wf_daemon h (g\<lparr>gDNS := dns, gSessions := ss\<rparr>)" using assms(1) w(1) by (simp add: wf_daemon_def)
  then have w1: "wf_daemon h g1" "list_all (\<lambda>(sess, flow). wf_daemon_session sess) flows"
    using wf_annotate_candidates [OF _ w(2,3) a] by blast+
  have "handleNetworkWithProcesses e clk snapshot nf processes g =
      (if ValidateNetworkFlow (NormalizeNetworkFlow clk nf2) \<noteq> None then g1
       else deliverFlow e clk (NormalizeNetworkFlow clk nf2) flows (Some ''network'') g1)"
    unfolding handleNetworkWithProcesses_def Let_def n prod.case ps_def [symmetric] nf2_def [symmetric] m a ..
  then show ?thesis using w1 wf_deliverFlow by simp
qed

lemma wf_refresh:
  assumes "wf_daemon h g" "wf_map (items snapshot)"
  shows "wf_daemon h (refreshNetworkObservationForSessions e clk snapshot nf write g)"
proof -
  obtain nf1 dns where n: "enrichNetworkHostname e clk (NormalizeNetworkFlow clk nf) (gDNS g) = (nf1, dns)" by fastforce
  define nf3 where "nf3 = NormalizeNetworkFlow clk (enrichNetworkFlowFromProcesses (deExec e) (items snapshot) nf1)"
  obtain cands ps' ss where m: "applyProcessSnapshotAndMatch clk (items snapshot) nf3 (gSessions (g\<lparr>gDNS := dns\<rparr>)) = (cands, ps', ss)"
    using prod_cases3 by blast
  obtain flows g1 where a: "annotate_candidates e clk False nf3 ps' cands (g\<lparr>gDNS := dns, gSessions := ss\<rparr>) = (flows, g1)" by fastforce
  have g0: "wf_daemon h (g\<lparr>gDNS := dns\<rparr>)" using assms(1) by (simp add: wf_daemon_def)
  have w: "wf_sessions ss" "wf_map ps'" "list_all wf_daemon_session cands"
    using wf_applySnapshotAndMatch [OF assms(2) _ m] g0 by (auto simp: wf_daemon_def)
  have "wf_daemon h (g\<lparr>gDNS := dns, gSessions := ss\<rparr>)" using assms(1) w(1) by (simp add: wf_daemon_def)
  then have "wf_daemon h g1" "list_all (\<lambda>(sess, flow). wf_daemon_session sess) flows"
    using wf_annotate_candidates [OF _ w(2,3) a] by blast+
  moreover have "refreshNetworkObservationForSessions e clk snapshot nf write g =
      (if ValidateNetworkFlow nf3 \<noteq> None then g\<lparr>gDNS := dns\<rparr>
       else deliverFlow e clk nf3 flows (if write then Some ''network_refresh'' else None) g1)"
    unfolding refreshNetworkObservationForSessions_def Let_def n prod.case nf3_def [symmetric] m a ..
  ultimately show ?thesis using g0 wf_deliverFlow by simp
qed

subsection \<open>Hook events\<close>

lemma wf_drain_flows:
  "wf_daemon h g \<Longrightarrow> wf_daemon_session sess \<Longrightarrow> drain_flows e clk flows sess g = (sess', g') \<Longrightarrow> wf_daemon h g' \<and> wf_daemon_session sess'"
proof (induction flows arbitrary: sess g)
  case (Cons f flows)
  obtain hit s1 g1 where c: "correlateSessionFlow e clk sess f g = (hit, s1, g1)" using prod_cases3 by blast
  then show ?case using Cons.IH [of g1 s1] wf_correlateSessionFlow [OF Cons.prems(1,2) c] Cons.prems(3) by simp
qed simp

lemma wf_ingestSemantic:
  assumes "wf_daemon h g" "wf_map ps0"
  shows "wf_daemon h (ingestSemantic e clk ps0 se0 g)"
proof -
  obtain sess0 ss0 where s0: "forSemantic clk se0 (gSessions g) = (sess0, ss0)" by fastforce
  obtain ps sess1 where s1: "snapshotSession clk ps0 sess0 = (ps, sess1)" by fastforce
  obtain ev1 sess2 where s2: "observeSession (deFS e) (deCWD e) clk ps sess1 = (ev1, sess2)" by fastforce
  obtain se m ev2 where an: "annotateSemantic (deFS e) clk se0 ps (dsSubagents sess2) = (se, m, ev2)" using prod_cases3 by blast
  define d2 where "d2 = appendTranscript (deOut e) clk (sessID (sSession se)) ''semantic'' (UISemantic se)
    (Daemon_Out.recordSemantic clk se (forwardSubagentEventsToUI ev2 (forwardSubagentEventsToUI ev1 (gOut g))))"
  define sess3 where "sess3 = sess2\<lparr>dsSubagents := m, dsState := AddSemanticEvent clk se (dsState sess2)\<rparr>"
  obtain sess4 ss1 where s4: "recordActivity clk sess3 (sTS se) (putSession sess3 ss0) = (sess4, ss1)" by fastforce
  obtain flows sess5 ss2 where s5: "drainPendingForSession clk sess4 (sTS se) ss1 = (flows, sess5, ss2)" using prod_cases3 by blast
  obtain sess6 g1 where s6: "drain_flows e clk flows sess5 (g\<lparr>gSessions := ss2, gOut := d2\<rparr>) = (sess6, g1)" by fastforce
  define sess7 where "sess7 = sess6\<lparr>dsSubagents := Daemon_Monitor.recordSemantic (deMarshal e) clk se (dsSubagents sess6)\<rparr>"
  define g2 where "g2 = requestLsofBurstPoll e g1"
  obtain cards st where t: "TryCorrelateSemantic clk se (dsState sess7) = (cards, st)" by fastforce
  have res: "ingestSemantic e clk ps0 se0 g = g2\<lparr>gSessions := putSession (sess7\<lparr>dsState := st\<rparr>) (gSessions g2),
      gOut := forwardToUI (UISemantic se) (reportCards e clk cards (gOut g2))\<rparr>"
    unfolding ingestSemantic_def Let_def s0 prod.case s1 s2 an d2_def [symmetric] sess3_def [symmetric] s4 s5 s6
      sess7_def [symmetric] g2_def [symmetric] t ..
  have w0: "wf_sessions ss0" "wf_daemon_session sess0"
    using wf_getOrCreate [of "gSessions g" clk _ sess0 ss0] s0 assms(1) by (auto simp: forSemantic_def wf_daemon_def)
  have w1: "wf_map ps" "wf_daemon_session sess1" using wf_snapshotSession [OF assms(2) w0(2) s1] by auto
  have w2: "wf_daemon_session sess2" using wf_observeSession [OF w1 s2] by blast
  have "wf_monitor m" using annotateSemantic_result [OF an] w2 by (simp add: wf_monitor_def wf_daemon_session_def)
  then have w3: "wf_daemon_session sess3"
    using w2 by (simp add: sess3_def wf_daemon_session_def wf_session_AddSemanticEvent)
  then have w4: "wf_sessions ss1" "wf_daemon_session sess4"
    using wf_recordActivity [OF wf_putSession [OF w0(1) w3] w3 s4] by auto
  have w5: "wf_sessions ss2" "wf_daemon_session sess5" using wf_drainPending [OF w4 s5] by auto
  have "length (uiQueue d2) \<le> uiForwardQueueSize" using assms(1) by (simp add: d2_def wf_daemon_def)
  then have "wf_daemon h (g\<lparr>gSessions := ss2, gOut := d2\<rparr>)" using assms(1) w5(1) by (simp add: wf_daemon_def)
  then have w6: "wf_daemon h g1" "wf_daemon_session sess6" using wf_drain_flows [OF _ w5(2) s6] by blast+
  have "wf_daemon_session sess7" using w6(2) by (simp add: sess7_def wf_daemon_session_def wf_monitor_def recordSemantic_result)
  moreover have "wf_session st"
    using wf_session_TryCorrelateSemantic [of "dsState sess7" clk se] t calculation by (simp add: wf_daemon_session_def)
  ultimately have w8: "wf_daemon_session (sess7\<lparr>dsState := st\<rparr>)" by (simp add: wf_daemon_session_def)
  have "wf_daemon h g2" using w6(1) by (simp add: g2_def requestLsofBurstPoll_def wf_daemon_def)
  then show ?thesis using w8 by (simp add: res wf_daemon_def wf_putSession enqueue_bound)
qed

lemma wf_handleSocketSemantic:
  assumes "wf_daemon (deHost e) g" "wf_map (items s2)"
  shows "wf_daemon (deHost e) (handleSocketSemantic e clk s1 s2 se peerPID hasPeerPID g)"
proof -
  obtain b c where t: "trustedSemanticSocketPeer (deHost e) (gIdentity g) peerPID = (b, c)" by fastforce
  have "cache_ok (deHost e) c"
    using trusted_peer_cached(2) [of "deHost e" "gIdentity g" "isTrustedEmitterExe (deHost e)" peerPID] assms(1) t
    by (simp add: wf_daemon_def trustedSemanticSocketPeer_def)
  then have "wf_daemon (deHost e) (g\<lparr>gIdentity := c\<rparr>)" using assms(1) by (simp add: wf_daemon_def)
  then show ?thesis
    using wf_ingestSemantic [OF _ assms(2)] assms(1) t
    by (simp add: handleSocketSemantic_def handleSemantic_def Let_def)
qed

lemma wf_handleSocketNetwork:
  assumes "wf_daemon (deHost e) g" "wf_map (items s1)" "wf_map (items s2)"
  shows "wf_daemon (deHost e) (handleSocketNetwork e clk s1 s2 nf peerPID hasPeerPID g)"
proof -
  obtain b c where t: "trustedNetworkSocketPeer (deHost e) (gIdentity g) peerPID = (b, c)" by fastforce
  have "cache_ok (deHost e) c"
    using trusted_peer_cached(2) [of "deHost e" "gIdentity g" "isTrustedNetworkSenderExe (deHost e)" peerPID] assms(1) t
    by (simp add: wf_daemon_def trustedNetworkSocketPeer_def)
  then have "wf_daemon (deHost e) (g\<lparr>gIdentity := c\<rparr>)" using assms(1) by (simp add: wf_daemon_def)
  then show ?thesis
    using wf_handleNetwork [OF _ assms(3,2)] assms(1) t by (simp add: handleSocketNetwork_def Let_def)
qed

lemma wf_handleControl:
  assumes "wf_daemon h g"
  shows "wf_daemon h (handleControlMessage e clk ctrl g)"
proof -
  obtain p d where c: "handleControl (deOut e) clk ctrl (map dsID (sessionList (gSessions g))) (gPause g, gOut g) = (p, d)" by fastforce
  have f: "uiQueue (fold (\<lambda>sid. appendTranscript oe clk sid k v) live d0) = uiQueue d0" for live oe k v d0
    by (induction live arbitrary: d0) simp_all
  have "length (uiQueue d) \<le> uiForwardQueueSize \<and> pause_wf p"
    using c assms Resume_refines(3) [of clk clk "gPause g"]
    by (auto simp: handleControl_def wf_daemon_def Pause_def Resume_def pause_wf_def enqueue_bound f Let_def split: if_splits)
  then show ?thesis using assms c by (simp add: handleControlMessage_def wf_daemon_def)
qed

lemma wf_dispatchEvidence:
  assumes "wf_daemon (deHost e) g" "wf_map (items s1)" "wf_map (items s2)"
  shows "wf_daemon (deHost e) (dispatchEvidence e clk s1 s2 line peerPID hasPeerPID g)"
  using wf_handleSocketSemantic [OF assms(1,3)] wf_handleSocketNetwork [OF assms] assms(1)
  by (simp add: dispatchEvidence_def Let_def split: option.split)

lemma wf_dispatch:
  assumes "wf_daemon (deHost e) g" "wf_map (items s1)" "wf_map (items s2)"
  shows "wf_daemon (deHost e) (dispatch e clk s1 s2 line peerPID hasPeerPID g)"
proof (cases "controlOf e line")
  case None
  then show ?thesis using wf_dispatchEvidence [OF assms] assms(1) by (simp add: dispatch_def)
next
  case (Some ctrl)
  obtain b c where t: "trustedControlSocketPeer (deHost e) (gIdentity g) peerPID = (b, c)" by fastforce
  have "cache_ok (deHost e) c"
    using trusted_peer_cached(2) [of "deHost e" "gIdentity g" "isTrustedControlSenderExe (deHost e)" peerPID] assms(1) t
    by (simp add: wf_daemon_def trustedControlSocketPeer_def)
  then have "wf_daemon (deHost e) (g\<lparr>gIdentity := c\<rparr>)" using assms(1) by (simp add: wf_daemon_def)
  then show ?thesis using Some t assms(1) wf_handleControl by (simp add: dispatch_def Let_def)
qed

section \<open>Properties\<close>

text \<open>The trust decisions without the cache.\<close>

definition trusted_as :: "(Host \<Rightarrow> string \<Rightarrow> bool) \<Rightarrow> Host \<Rightarrow> int \<Rightarrow> bool" where
  "trusted_as valid h pid \<longleftrightarrow> (\<exists>exe. resolvePeerExePath h pid = Some exe \<and> valid h exe \<and> (properly_signed h exe \<or> override_applies h exe))"

lemma trusted_as_cached:
  assumes "cache_ok h c"
  shows "fst (trustedSemanticSocketPeer h c pid) = trusted_as isTrustedEmitterExe h pid"
    "fst (trustedNetworkSocketPeer h c pid) = trusted_as isTrustedNetworkSenderExe h pid"
    "fst (trustedControlSocketPeer h c pid) = trusted_as isTrustedControlSenderExe h pid"
  using trusted_peer_cached(1) [OF assms]
  by (simp_all add: trustedSemanticSocketPeer_def trustedNetworkSocketPeer_def trustedControlSocketPeer_def trusted_as_def signature_rule_iff)

text \<open>What a line is, who may send it, and what it does when it is accepted.\<close>

datatype line_kind = ControlLine ControlMessage | NetworkLine NetworkFlowEvent | HookLine SemanticEvent | Unrecognized

definition kindOfLine :: "DaemonEnv \<Rightarrow> string \<Rightarrow> line_kind" where
  "kindOfLine e line =
     (let network = (\<lambda>ok. case decodeNetwork e line of Some nf \<Rightarrow> if ok nf then Some (NetworkLine nf) else None | None \<Rightarrow> None);
          hook = (case decodeSemantic e line of
                    Some se \<Rightarrow> if sPID se \<noteq> 0 \<or> sTool se \<noteq> [] \<or> Contains line ''agentsnitch.semantic'' then Some (HookLine se) else None
                  | None \<Rightarrow> None);
          candidates =
            [map_option ControlLine (controlOf e line),
             network (\<lambda>nf. Contains line ''\"remote\"'' \<or> Contains line ''agentsnitch.network''),
             hook,
             network (\<lambda>nf. fRemote nf \<noteq> [])]
      in case List.map_filter id candidates of [] \<Rightarrow> Unrecognized | kind # _ \<Rightarrow> kind)"

fun entitled :: "Host \<Rightarrow> time \<Rightarrow> proc_table option \<Rightarrow> int \<Rightarrow> bool \<Rightarrow> line_kind \<Rightarrow> bool" where
  "entitled h clk snapshot pid halted (ControlLine ctrl) = trusted_as isTrustedControlSenderExe h pid"
| "entitled h clk snapshot pid halted (NetworkLine nf) = (\<not> halted \<and> trusted_as isTrustedNetworkSenderExe h pid)"
| "entitled h clk snapshot pid halted (HookLine se) =
     (\<not> halted \<and> trusted_as isTrustedEmitterExe h pid \<and> trustedSemanticHookOrigin pid (items snapshot) \<and>
      sPID se = pid \<and> ValidateSemanticEvent (NormalizeSemanticEvent clk se) = None)"
| "entitled h clk snapshot pid halted Unrecognized = False"

fun takeLine :: "DaemonEnv \<Rightarrow> time \<Rightarrow> proc_table option \<Rightarrow> proc_table option \<Rightarrow> line_kind \<Rightarrow> Daemon \<Rightarrow> Daemon" where
  "takeLine e clk snapshot1 snapshot2 (ControlLine ctrl) g = handleControlMessage e clk ctrl g"
| "takeLine e clk snapshot1 snapshot2 (NetworkLine nf) g = handleNetworkWithProcesses e clk snapshot2 nf snapshot1 g"
| "takeLine e clk snapshot1 snapshot2 (HookLine se) g = ingestSemantic e clk (items snapshot2) (NormalizeSemanticEvent clk se) g"
| "takeLine e clk snapshot1 snapshot2 Unrecognized g = g"

lemma dispatch_by_kind:
  "dispatch e clk s1 s2 line peerPID hasPeerPID g =
     (case kindOfLine e line of
        ControlLine ctrl \<Rightarrow>
          if \<not> hasPeerPID \<or> peerPID \<le> 0 then g
          else (case trustedControlSocketPeer (deHost e) (gIdentity g) peerPID of
                  (trusted, cache) \<Rightarrow> if trusted then handleControlMessage e clk ctrl (g\<lparr>gIdentity := cache\<rparr>) else g\<lparr>gIdentity := cache\<rparr>)
      | NetworkLine nf \<Rightarrow> if Paused (gPause g) then g else handleSocketNetwork e clk s1 s2 nf peerPID hasPeerPID g
      | HookLine se \<Rightarrow> if Paused (gPause g) then g else handleSocketSemantic e clk s1 s2 se peerPID hasPeerPID g
      | Unrecognized \<Rightarrow> g)"
  by (cases "controlOf e line"; cases "decodeNetwork e line"; cases "decodeSemantic e line")
    (auto simp: dispatch_def dispatchEvidence_def kindOfLine_def List.map_filter_def Let_def split: prod.split)

text \<open>Shared by the line and the connection: an entitled line does what it says, any other does nothing.\<close>

lemma dispatch_exact:
  assumes "wf_daemon (deHost e) g"
  shows "\<exists>c. cache_ok (deHost e) c \<and> dispatch e clk s1 s2 line peerPID hasPeerPID g =
    (if hasPeerPID \<and> 0 < peerPID \<and> entitled (deHost e) clk s1 peerPID (Paused (gPause g)) (kindOfLine e line)
     then takeLine e clk s1 s2 (kindOfLine e line) (g\<lparr>gIdentity := c\<rparr>) else g\<lparr>gIdentity := c\<rparr>)"
proof -
  have c: "cache_ok (deHost e) (gIdentity g)" and here: "g\<lparr>gIdentity := gIdentity g\<rparr> = g" using assms by (simp_all add: wf_daemon_def)
  have refreshed: "cache_ok (deHost e) (snd (trusted_peer valid (deHost e) (gIdentity g) peerPID))" for valid
    by (rule trusted_peer_cached(2) [OF c])
  note roles = trustedSemanticSocketPeer_def trustedNetworkSocketPeer_def trustedControlSocketPeer_def
  show ?thesis
  proof (cases "hasPeerPID \<and> 0 < peerPID")
    case False
    then have "dispatch e clk s1 s2 line peerPID hasPeerPID g = g"
      by (auto simp: dispatch_by_kind handleSocketNetwork_def handleSocketSemantic_def split: line_kind.split)
    then show ?thesis using False c here by (intro exI [of _ "gIdentity g"]) auto
  next
    case True
    show ?thesis
    proof (cases "kindOfLine e line")
      case (ControlLine ctrl)
      obtain b c' where t: "trustedControlSocketPeer (deHost e) (gIdentity g) peerPID = (b, c')" by fastforce
      then show ?thesis using True ControlLine trusted_as_cached(3) [OF c, of peerPID] refreshed [of "isTrustedControlSenderExe (deHost e)"]
        by (intro exI [of _ c']) (simp add: dispatch_by_kind roles)
    next
      case (NetworkLine nf)
      obtain b c' where t: "trustedNetworkSocketPeer (deHost e) (gIdentity g) peerPID = (b, c')" by fastforce
      show ?thesis
      proof (cases "Paused (gPause g)")
        case False
        then show ?thesis using True NetworkLine t trusted_as_cached(2) [OF c, of peerPID] refreshed [of "isTrustedNetworkSenderExe (deHost e)"]
          by (intro exI [of _ c']) (simp add: dispatch_by_kind handleSocketNetwork_def roles Let_def)
      qed (use NetworkLine c here in \<open>intro exI [of _ "gIdentity g"], simp add: dispatch_by_kind\<close>)
    next
      case (HookLine se)
      obtain b c' where t: "trustedSemanticSocketPeer (deHost e) (gIdentity g) peerPID = (b, c')" by fastforce
      have pid: "sPID (NormalizeSemanticEvent clk se) = sPID se" by (simp add: NormalizeSemanticEvent_def)
      show ?thesis
      proof (cases "Paused (gPause g) \<or> \<not> trustedSemanticHookOrigin peerPID (items s1) \<or> sPID se \<noteq> peerPID")
        case False
        then show ?thesis using True HookLine t pid trusted_as_cached(1) [OF c, of peerPID] refreshed [of "isTrustedEmitterExe (deHost e)"]
          by (intro exI [of _ c']) (simp add: dispatch_by_kind handleSocketSemantic_def handleSemantic_def roles Let_def)
      qed (use True HookLine c here pid in \<open>intro exI [of _ "gIdentity g"],
          auto simp: dispatch_by_kind handleSocketSemantic_def handleSemantic_def Let_def\<close>)
    qed (use c here in \<open>intro exI [of _ "gIdentity g"], simp add: dispatch_by_kind\<close>)
  qed
qed

text \<open>C5. The socket fails closed, and what it accepts depends on the kind of line. A line does what it says exactly when
  the kernel reports the PID of the peer and the peer is the right sender: for a control message the user interface; for a
  network flow, while sensing is not paused, the network sender; for a hook event, while sensing is not paused, the
  emitter below a command-line agent (itself or one of its ancestors), whose PID the event carries and whose event is
  valid. In every other case nothing changes beyond the cached identity of the daemon. The sender is recognised by the
  executable the kernel reports, with a verified signature or under the override for unsigned peers.\<close>

theorem socket_fails_closed:
  assumes "wf_daemon (deHost e) g"
  shows "\<exists>c. cache_ok (deHost e) c \<and> dispatch e clk s1 s2 line peerPID hasPeerPID g =
    (if hasPeerPID \<and> 0 < peerPID \<and>
        (case kindOfLine e line of
           ControlLine ctrl \<Rightarrow> trusted_as isTrustedControlSenderExe (deHost e) peerPID
         | NetworkLine nf \<Rightarrow> \<not> Paused (gPause g) \<and> trusted_as isTrustedNetworkSenderExe (deHost e) peerPID
         | HookLine se \<Rightarrow> \<not> Paused (gPause g) \<and> trusted_as isTrustedEmitterExe (deHost e) peerPID \<and>
             trustedSemanticHookOrigin peerPID (items s1) \<and> sPID se = peerPID \<and> ValidateSemanticEvent (NormalizeSemanticEvent clk se) = None
         | Unrecognized \<Rightarrow> False)
     then takeLine e clk s1 s2 (kindOfLine e line) (g\<lparr>gIdentity := c\<rparr>) else g\<lparr>gIdentity := c\<rparr>)"
  using dispatch_exact [OF assms, of clk s1 s2 line peerPID hasPeerPID] by (cases "kindOfLine e line") simp_all

definition demoEnv :: DaemonEnv where
  "demoEnv = \<lparr>deHost = demoHost, deOut = demoOutEnv, deFS = exampleFS, deExec = demoExec, deCWD = (\<lambda>p. []), deMarshal = (\<lambda>m. None),
     deLookupAddr = (\<lambda>ip. None), deLsof = True, decodeControl = (\<lambda>l. Some \<lparr>mSchema = SchemaControlV0, mAction = ControlActionPause\<rparr>),
     decodeNetwork = (\<lambda>l. None), decodeSemantic = (\<lambda>l. None)\<rparr>"

definition demoDaemon :: Daemon where
  "demoDaemon = \<lparr>gSessions = newDaemonSessions, gOut = demoOut, gPause = newPauseController, gIdentity = freshCache, gDNS = [], gBurst = False\<rparr>"

lemma wf_demoDaemon: "wf_daemon (deHost demoEnv) demoDaemon"
  by (simp add: wf_daemon_def demoDaemon_def wf_sessions_new demoOut_def)

lemma demo_ui_trusted: "trusted_as isTrustedControlSenderExe demoHost 7"
proof -
  have "resolvePeerExePath demoHost 7 = Some ''/Applications/AgentSnitch.app/Contents/MacOS/agentsnitch-ui''" by (simp add: demoHost_def)
  moreover have "isTrustedControlSenderExe demoHost ''/Applications/AgentSnitch.app/Contents/MacOS/agentsnitch-ui''" by code_simp
  moreover have "properly_signed demoHost ''/Applications/AgentSnitch.app/Contents/MacOS/agentsnitch-ui''" by code_simp
  ultimately show ?thesis by (simp add: trusted_as_def)
qed

theorem socket_fails_closed_witness:
  "unchanged demoDaemon (dispatch demoEnv 1 None None ''agentsnitch.control'' 9 True demoDaemon) \<and>
   (\<exists>c. dispatch demoEnv 1 None None ''agentsnitch.control'' 7 True demoDaemon =
      handleControlMessage demoEnv 1 \<lparr>mSchema = SchemaControlV0, mAction = ControlActionPause\<rparr> (demoDaemon\<lparr>gIdentity := c\<rparr>))"
proof -
  have kind: "kindOfLine demoEnv ''agentsnitch.control'' = ControlLine \<lparr>mSchema = SchemaControlV0, mAction = ControlActionPause\<rparr>"
    by (simp add: kindOfLine_def controlOf_def demoEnv_def Contains_def List.map_filter_def)
  have "\<not> trusted_as isTrustedControlSenderExe (deHost demoEnv) 9" by (simp add: trusted_as_def demoEnv_def demoHost_def)
  moreover have "trusted_as isTrustedControlSenderExe (deHost demoEnv) 7" using demo_ui_trusted by (simp add: demoEnv_def)
  ultimately show ?thesis
    using socket_fails_closed [OF wf_demoDaemon, of 1 None None "''agentsnitch.control''" 9 True]
      socket_fails_closed [OF wf_demoDaemon, of 1 None None "''agentsnitch.control''" 7 True]
    by (auto simp: unchanged_def kind)
qed

lemma rawSeenOnce_keeps:
  assumes "wf_map seen" "mget seen key = Some t" "now \<le> t + rawNetworkVisibilityTTL"
  shows "mget (snd (rawSeenOnce k now seen)) key = Some t \<and> wf_map (snd (rawSeenOnce k now seen))"
proof -
  have "mget (prune_instants rawNetworkVisibilityTTL now seen) key = Some t"
    using raw_cache.prune_keeps [OF assms(1,2)] assms(3) by simp
  then show ?thesis
    using raw_cache.prune_wf [OF assms(1)] by (auto simp: rawSeenOnce_def Let_def mhas_def)
qed

lemma rawSeenOnce_first:
  assumes "wf_map seen" "rawSeenOnce key t seen = (True, seen')"
  shows "mget seen' key = Some t \<and> wf_map seen'"
  using assms raw_cache.prune_wf [OF assms(1)] by (auto simp: rawSeenOnce_def Let_def split: if_splits)

lemma rawSeenOnce_again:
  assumes "wf_map seen" "mget seen key = Some t" "now \<le> t + rawNetworkVisibilityTTL"
  shows "\<not> fst (rawSeenOnce key now seen)"
  using raw_cache.prune_keeps [of seen key t now] assms by (simp add: rawSeenOnce_def Let_def mhas_def)

text \<open>Both the sessions and the store of unowned flows answer the question whether to show a flow. The contract
  they share: the answer is one use of the cache of shown hosts, for the host of the flow, or it is no and the
  cache is left alone. What follows for a series of questions is proved once.\<close>

locale shown_once =
  fixes ask :: "time \<Rightarrow> NetworkFlowEvent \<Rightarrow> 's \<Rightarrow> bool \<times> 's"
    and shown :: "'s \<Rightarrow> (string, time) gomap"
  assumes ask_cache:
    "ask now nf s = (b, s') \<Longrightarrow>
     (b, shown s') = rawSeenOnce (rawNetworkVisibilityKey nf) now (shown s) \<or> \<not> b \<and> shown s' = shown s"
begin

lemma ask_keeps:
  assumes "wf_map (shown s)" "mget (shown s) key = Some t" "now \<le> t + rawNetworkVisibilityTTL"
  shows "mget (shown (snd (ask now nf s))) key = Some t \<and> wf_map (shown (snd (ask now nf s)))"
proof (cases "ask now nf s")
  case (Pair b s')
  then show ?thesis using ask_cache [OF Pair] rawSeenOnce_keeps [OF assms, of "rawNetworkVisibilityKey nf"] assms(1,2) by (auto dest: sym)
qed

lemma ask_first:
  assumes "wf_map (shown s)" "fst (ask t nf s)"
  shows "mget (shown (snd (ask t nf s))) (rawNetworkVisibilityKey nf) = Some t \<and> wf_map (shown (snd (ask t nf s)))"
proof (cases "ask t nf s")
  case (Pair b s')
  then show ?thesis using ask_cache [OF Pair] rawSeenOnce_first [OF assms(1), of "rawNetworkVisibilityKey nf" t "shown s'"] assms(2) by simp
qed

lemma ask_again:
  assumes "wf_map (shown s)" "mget (shown s) (rawNetworkVisibilityKey nf) = Some t" "now \<le> t + rawNetworkVisibilityTTL"
  shows "\<not> fst (ask now nf s)"
proof (cases "ask now nf s")
  case (Pair b s')
  then show ?thesis using ask_cache [OF Pair] rawSeenOnce_again [OF assms] by (auto dest: sym)
qed

lemma ask_all_keeps:
  "wf_map (shown s) \<Longrightarrow> mget (shown s) key = Some t \<Longrightarrow> list_all (\<lambda>(f, now). now \<le> t + rawNetworkVisibilityTTL) fs \<Longrightarrow>
   mget (shown (fold (\<lambda>(f, now) s. snd (ask now f s)) fs s)) key = Some t \<and>
   wf_map (shown (fold (\<lambda>(f, now) s. snd (ask now f s)) fs s))"
proof (induction fs arbitrary: s)
  case (Cons a fs)
  obtain f now where a: "a = (f, now)" by fastforce
  have "mget (shown (snd (ask now f s))) key = Some t \<and> wf_map (shown (snd (ask now f s)))"
    using ask_keeps [OF Cons.prems(1,2)] Cons.prems(3) a by simp
  then show ?case using Cons.IH [of "snd (ask now f s)"] Cons.prems(3) a by simp
qed simp

lemma once:
  assumes "wf_map (shown s)" "list_all (\<lambda>(f, now). now \<le> t + rawNetworkVisibilityTTL) fs"
    and "later \<le> t + rawNetworkVisibilityTTL" "rawNetworkVisibilityKey nf' = rawNetworkVisibilityKey nf" "fst (ask t nf s)"
  shows "\<not> fst (ask later nf' (fold (\<lambda>(f, now) s. snd (ask now f s)) fs (snd (ask t nf s))))"
proof -
  note first = ask_first [OF assms(1,5)]
  show ?thesis
    using ask_again [OF _ _ assms(3), of _ nf'] ask_all_keeps [OF conjunct2 [OF first] conjunct1 [OF first] assms(2)] assms(4)
    by simp
qed

end

interpretation session_shown: shown_once shouldForwardSessionRaw dsRawSeen
  by unfold_locales (auto simp: shouldForwardSessionRaw_def Let_def split: prod.splits if_splits)

interpretation unattributed_shown: shown_once shouldForwardUnattributedRawNetworkToUI dsUnattributedSeen
  by unfold_locales (auto simp: shouldForwardUnattributedRawNetworkToUI_def Let_def split: prod.splits if_splits)

text \<open>Later questions, each with its own flow and instant.\<close>

definition showAll :: "(NetworkFlowEvent \<times> time) list \<Rightarrow> daemonSession \<Rightarrow> daemonSession" where
  "showAll = fold (\<lambda>(f, now) sess. snd (shouldForwardSessionRaw now f sess))"

definition showAllUnattributed :: "(NetworkFlowEvent \<times> time) list \<Rightarrow> daemonSessions \<Rightarrow> daemonSessions" where
  "showAllUnattributed = fold (\<lambda>(f, now) ss. snd (shouldForwardUnattributedRawNetworkToUI now f ss))"

text \<open>A destination is shown raw once: after a flow was shown, neither its session nor, for flows no session
  owns, the daemon shows another flow to the same host until ten minutes have passed, whatever other flows are
  asked about in between.\<close>

theorem raw_flow_shown_once:
  assumes "wf_map (dsRawSeen sess)" "wf_map (dsUnattributedSeen ss)"
    and "list_all (\<lambda>(f, now). now \<le> t + rawNetworkVisibilityTTL) fs" "later \<le> t + rawNetworkVisibilityTTL"
    and "rawNetworkVisibilityKey nf' = rawNetworkVisibilityKey nf"
  shows "(fst (shouldForwardSessionRaw t nf sess) \<longrightarrow>
            \<not> fst (shouldForwardSessionRaw later nf' (showAll fs (snd (shouldForwardSessionRaw t nf sess))))) \<and>
         (fst (shouldForwardUnattributedRawNetworkToUI t nf ss) \<longrightarrow>
            \<not> fst (shouldForwardUnattributedRawNetworkToUI later nf'
                    (showAllUnattributed fs (snd (shouldForwardUnattributedRawNetworkToUI t nf ss)))))"
  unfolding showAll_def showAllUnattributed_def
  using session_shown.once [OF assms(1,3,4,5)] unattributed_shown.once [OF assms(2,3,4,5)] by (intro conjI impI)

definition rawFlow :: NetworkFlowEvent where
  "rawFlow = zeroFlow\<lparr>fPID := 9, fProcessPath := ''/usr/local/bin/claude'', fRemote := ''93.184.216.34:443'',
     fDirection := ''out'', fState := ''established''\<rparr>"

theorem raw_flow_shown_once_witness:
  "fst (shouldForwardUnattributedRawNetworkToUI 1 rawFlow newDaemonSessions) \<and>
   \<not> fst (shouldForwardUnattributedRawNetworkToUI (5 * Minute) rawFlow
        (showAllUnattributed [(rawFlow\<lparr>fSNI := ''b.example.com''\<rparr>, 2 * Minute)]
          (snd (shouldForwardUnattributedRawNetworkToUI 1 rawFlow newDaemonSessions))))"
proof -
  have "fst (shouldForwardUnattributedRawNetworkToUI 1 rawFlow newDaemonSessions)" by code_simp
  then show ?thesis
    using raw_flow_shown_once [of "newSession 1 ''s''" newDaemonSessions 1 "[(rawFlow\<lparr>fSNI := ''b.example.com''\<rparr>, 2 * Minute)]"
        "5 * Minute" rawFlow rawFlow]
    by (simp add: wf_map_def time_defs newSession_def newDaemonSessions_def)
qed

end
