(* ===== verification/Daemon_Loops.thy ===== *)
theory Daemon_Loops
  imports Daemon_Handlers Inspect_Evidence
begin

text \<open>
  The parts of \<open>cmd/daemon/main.go\<close> that drive the handlers: the process tick, the \<open>lsof\<close> poll, the \<open>nettop\<close>
  stream, and the reports of the inspection proxy. A run of a loop body is one function of the daemon's state and of
  the loop's own maps; what the operating system delivers is an argument. Opening the socket, starting the
  commands and the timers are not modelled.
\<close>

section \<open>Observers\<close>

definition processTick :: "DaemonEnv \<Rightarrow> time \<Rightarrow> proc_table option \<Rightarrow> Daemon \<Rightarrow> Daemon" where
  "processTick e clk snapshot g =
     (if Paused (gPause g) then g
      else if items snapshot = [] then g
      else case applyProcessSnapshot (deFS e) (deCWD e) clk (items snapshot) (gSessions g) of
             (ev, ss) \<Rightarrow> g\<lparr>gSessions := ss, gOut := forwardSubagentEventsToUI ev (gOut g)\<rparr>)"

record observerState =
  obsSeen :: "(string, time) gomap"
  obsTranscriptSeen :: "(string, time) gomap"

definition observerTTL :: duration where [time_defs]: "observerTTL = 10 * Minute"

text \<open>Keys not seen for ten minutes leave both maps.\<close>

definition pruneObserver :: "time \<Rightarrow> observerState \<Rightarrow> observerState" where
  "pruneObserver now ob =
     (let gone = map fst (filter (\<lambda>(k, ts). ts < now - observerTTL) (obsSeen ob))
      in ob\<lparr>obsSeen := filter (\<lambda>(k, ts). \<not> ts < now - observerTTL) (obsSeen ob),
            obsTranscriptSeen := filter (\<lambda>(k, ts). k \<notin> set gone) (obsTranscriptSeen ob)\<rparr>)"

definition relevantFlow :: "time \<Rightarrow> NetworkFlowEvent \<Rightarrow> daemonSessions \<Rightarrow> bool \<times> daemonSessions" where
  "relevantFlow clk flow ss =
     (case anySessionMatchesNetworkFlow clk flow ss of
        (True, ss1) \<Rightarrow> (True, ss1)
      | (False, ss1) \<Rightarrow>
          (case anyAgentPID clk (fPID flow) ss1 of
             (True, ss2) \<Rightarrow> (True, ss2)
           | (False, ss2) \<Rightarrow> (looksLikeAgentProcess (fProcessPath flow), ss2)))"

text \<open>A known connection is refreshed, a new one is handled as a flow.\<close>

definition observeConnection ::
    "DaemonEnv \<Rightarrow> time \<Rightarrow> proc_table option \<Rightarrow> string \<Rightarrow> NetworkFlowEvent \<Rightarrow> observerState \<times> Daemon \<Rightarrow> observerState \<times> Daemon" where
  "observeConnection e clk snapshot key flow = (\<lambda>(ob, g).
     if mhas (obsSeen ob) key
     then (case shouldAppendNetworkRefreshTranscript key clk (obsTranscriptSeen ob) of
             (write, seen) \<Rightarrow> (\<lparr>obsSeen = mput key clk (obsSeen ob), obsTranscriptSeen = seen\<rparr>,
                             refreshNetworkObservationForSessions e clk snapshot flow write g))
     else (\<lparr>obsSeen = mput key clk (obsSeen ob), obsTranscriptSeen = mput key clk (obsTranscriptSeen ob)\<rparr>,
           handleNetwork e clk snapshot flow g))"

definition lsofKey :: "NetworkFlowEvent \<Rightarrow> string" where
  "lsofKey flow = Itoa (fPID flow) @ ''|'' @ fLocal flow @ ''|'' @ fRemote flow"

definition nettopKey :: "NetworkFlowEvent \<Rightarrow> string" where
  "nettopKey flow = Itoa (fPID flow) @ ''|'' @ fProtocol flow @ ''|'' @ fLocal flow @ ''|'' @ fRemote flow"

definition lsofFlowStep ::
    "DaemonEnv \<Rightarrow> time \<Rightarrow> proc_table option \<Rightarrow> NetworkFlowEvent \<Rightarrow> observerState \<times> Daemon \<Rightarrow> observerState \<times> Daemon" where
  "lsofFlowStep e clk snapshot flow = (\<lambda>(ob, g).
     if \<not> IsExternal flow then (ob, g)
     else case relevantFlow clk flow (gSessions g) of
            (relevant, ss) \<Rightarrow>
              let g1 = g\<lparr>gSessions := ss\<rparr>
              in if \<not> relevant then (ob, g1)
                 else if fProcessPath flow = [] \<and> fProcessBundleID flow = [] then (ob, g1)
                 else observeConnection e clk snapshot (lsofKey flow) flow (ob, g1))"

definition lsofPoll ::
    "DaemonEnv \<Rightarrow> time \<Rightarrow> proc_table option \<Rightarrow> string option \<Rightarrow> observerState \<times> Daemon \<Rightarrow> observerState \<times> Daemon" where
  "lsofPoll e clk snapshot out = (\<lambda>(ob, g).
     if Paused (gPause g) then (ob, g)
     else case snapshotEstablishedTCP (deExec e) clk (items snapshot) out of
            None \<Rightarrow> (ob, g)
          | Some flows \<Rightarrow> fold (lsofFlowStep e clk snapshot) flows (pruneObserver clk ob, g))"

text \<open>One line of \<open>nettop\<close>; the loop keeps the process its rows belong to and a process table no older than two
  seconds.\<close>

record nettopState =
  ntCurrent :: nettopProcessContext
  ntProcesses :: "proc_table option"
  ntSnapshotAt :: time

definition nettopLine ::
    "DaemonEnv \<Rightarrow> time \<Rightarrow> proc_table option \<Rightarrow> string \<Rightarrow> nettopState \<times> observerState \<times> Daemon \<Rightarrow> nettopState \<times> observerState \<times> Daemon" where
  "nettopLine e clk snapshot text0 = (\<lambda>(nt, ob, g).
     let line = TrimSpace text0
     in if Paused (gPause g) then (nt, ob, g)
        else if line = [] \<or> HasPrefix line ''time,'' then (nt, ob, g)
        else
          let nt1 = (if time_sub clk (ntSnapshotAt nt) > 2 * Second then nt\<lparr>ntProcesses := snapshot, ntSnapshotAt := clk\<rparr> else nt)
          in case parseNettopCSVLine (deExec e) line (items (ntProcesses nt1)) clk (ntCurrent nt1) of
               (NettopFlow flow, current) \<Rightarrow>
                 let nt2 = nt1\<lparr>ntCurrent := current\<rparr>
                 in if \<not> IsExternal flow then (nt2, ob, g)
                    else (case relevantFlow clk flow (gSessions g) of
                            (relevant, ss) \<Rightarrow>
                              let g1 = g\<lparr>gSessions := ss\<rparr>
                              in if \<not> relevant then (nt2, ob, g1)
                                 else (nt2, observeConnection e clk snapshot (nettopKey flow) flow (pruneObserver clk ob, g1)))
             | (_, current) \<Rightarrow> (nt1\<lparr>ntCurrent := current\<rparr>, ob, g))"

section \<open>The inspection proxy\<close>

text \<open>Which tool call an exchange belongs to: the one it names, otherwise the newest one that sends data out.\<close>

definition spanFor :: "SessionState \<Rightarrow> string \<Rightarrow> ToolSpan option" where
  "spanFor st toolUseID = (if TrimSpace toolUseID \<noteq> [] then ActiveToolSpan st toolUseID else ActiveEgressToolSpan st)"

definition inspectScopeForActiveToolSpan :: "InspectContext \<Rightarrow> daemonSessions \<Rightarrow> InspectContext \<times> bool" where
  "inspectScopeForActiveToolSpan ctx ss =
     (if TrimSpace (cxSessionID ctx) = [] then (ctx, False)
      else case getExisting (cxSessionID ctx) ss of
             None \<Rightarrow> (ctx, False)
           | Some session \<Rightarrow>
               (case spanFor (dsState session) (cxToolUseID ctx) of
                  None \<Rightarrow> (ctx, False)
                | Some sp \<Rightarrow>
                    (ctx\<lparr>cxToolUseID := (if TrimSpace (cxToolUseID ctx) = [] then tsToolUseID sp else cxToolUseID ctx),
                         cxSpanID := (if TrimSpace (cxSpanID ctx) = [] then tsSpanID sp else cxSpanID ctx)\<rparr>, True)))"

definition inspectConfidenceWithoutActiveSpan :: "InspectedHTTPExchange \<Rightarrow> string" where
  "inspectConfidenceWithoutActiveSpan x = (if TrimSpace (xSessionID x) \<noteq> [] then ''medium'' else ''low'')"

definition addInspectBasis :: "string list option \<Rightarrow> string \<Rightarrow> string list option" where
  "addInspectBasis values basis = (if basis \<in> set (items values) then values else Some (items values @ [basis]))"

definition removeInspectBasis :: "string list option \<Rightarrow> string \<Rightarrow> string list option" where
  "removeInspectBasis values basis = map_option (filter (\<lambda>v. v \<noteq> basis)) values"

definition withoutActiveSpan :: "InspectedHTTPExchange \<Rightarrow> InspectedHTTPExchange" where
  "withoutActiveSpan x = x\<lparr>xCorrelation := (xCorrelation x)\<lparr>crBasis := removeInspectBasis (crBasis (xCorrelation x)) ''active_tool_span'',
     crConfidence := inspectConfidenceWithoutActiveSpan x\<rparr>\<rparr>"

definition withActiveSpan :: "ToolSpan \<Rightarrow> InspectedHTTPExchange \<Rightarrow> InspectedHTTPExchange" where
  "withActiveSpan sp x = x\<lparr>
     xToolUseID := (if xToolUseID x = [] then tsToolUseID sp else xToolUseID x),
     xSpanID := (if xSpanID x = [] then tsSpanID sp else xSpanID x),
     xCorrelation := (xCorrelation x)\<lparr>crBasis := addInspectBasis (crBasis (xCorrelation x)) ''active_tool_span'',
       crConfidence := (if tInspectionMode (xTLS x) = ''local_mitm'' then ''high'' else crConfidence (xCorrelation x))\<rparr>\<rparr>"

definition reconcileInspectCorrelation :: "InspectedHTTPExchange \<Rightarrow> daemonSessions \<Rightarrow> InspectedHTTPExchange" where
  "reconcileInspectCorrelation x ss =
     (if TrimSpace (xSessionID x) = [] then withoutActiveSpan x
      else case getExisting (xSessionID x) ss of
             None \<Rightarrow> withoutActiveSpan x
           | Some session \<Rightarrow>
               (case spanFor (dsState session) (xToolUseID x) of
                  None \<Rightarrow> withoutActiveSpan x
                | Some sp \<Rightarrow> withActiveSpan sp x))"

definition handleInspectedHTTP :: "DaemonEnv \<Rightarrow> time \<Rightarrow> InspectedHTTPExchange \<Rightarrow> Daemon \<Rightarrow> Daemon" where
  "handleInspectedHTTP e clk x0 g =
     (let x = NormalizeInspectedHTTPExchange clk (reconcileInspectCorrelation x0 (gSessions g))
      in if ValidateInspectedHTTPExchange clk x \<noteq> None then g
         else
           let sessionID = (if TrimSpace (xSessionID x) = [] then ''inspect-proxy'' else xSessionID x);
               d1 = recordInspectedHTTP clk x (gOut g);
               d2 = appendTranscript (deOut e) clk sessionID ''inspected_http'' (UIInspected x) d1
           in g\<lparr>gOut := forwardToUI (UIInspected x) d2\<rparr>)"

section \<open>Lemmas\<close>

lemma wf_processTick:
  assumes "wf_daemon h g" "wf_map (items snapshot)"
  shows "wf_daemon h (processTick e clk snapshot g)"
proof -
  obtain ev ss where a: "applyProcessSnapshot (deFS e) (deCWD e) clk (items snapshot) (gSessions g) = (ev, ss)" by fastforce
  have "wf_sessions ss" using wf_applySnapshot [OF assms(2) _ a] assms(1) by (simp add: wf_daemon_def)
  then show ?thesis using assms(1) a by (simp add: processTick_def wf_daemon_def)
qed

lemma wf_relevantFlow:
  assumes "wf_sessions ss" "relevantFlow clk flow ss = (b, ss')"
  shows "wf_sessions ss'"
proof -
  obtain b1 s1 where a: "anySessionMatchesNetworkFlow clk flow ss = (b1, s1)" by fastforce
  obtain b2 s2 where b: "anyAgentPID clk (fPID flow) s1 = (b2, s2)" by fastforce
  have "wf_sessions s1" "wf_sessions s2" using wf_anySessionMatches [OF assms(1) a] wf_anyAgentPID [OF _ b] by auto
  then show ?thesis using assms(2) a b by (auto simp: relevantFlow_def split: bool.splits)
qed

lemma wf_observeConnection:
  assumes "wf_daemon h g" "wf_map (items snapshot)"
  shows "wf_daemon h (snd (observeConnection e clk snapshot key flow (ob, g)))"
  using wf_handleNetwork [OF assms(1,2), of None] wf_refresh [OF assms]
  by (auto simp: observeConnection_def handleNetwork_def wf_map_def split: prod.split)

lemma wf_lsofFlowStep:
  assumes "wf_daemon h (snd s)" "wf_map (items snapshot)"
  shows "wf_daemon h (snd (lsofFlowStep e clk snapshot flow s))"
proof -
  obtain ob g where s: "s = (ob, g)" by fastforce
  obtain b ss where r: "relevantFlow clk flow (gSessions g) = (b, ss)" by fastforce
  have "wf_daemon h (g\<lparr>gSessions := ss\<rparr>)" using wf_relevantFlow [OF _ r] assms(1) s by (simp add: wf_daemon_def)
  then show ?thesis
    using assms(1) wf_observeConnection [OF _ assms(2)] r s by (auto simp: lsofFlowStep_def Let_def)
qed

lemma wf_lsofPoll:
  assumes "wf_daemon h g" "wf_map (items snapshot)"
  shows "wf_daemon h (snd (lsofPoll e clk snapshot out (ob, g)))"
proof -
  have "wf_daemon h (snd (fold (lsofFlowStep e clk snapshot) flows (ob', g)))" for flows ob'
    using assms(1) by (intro wf_fold [of "\<lambda>s. wf_daemon h (snd s)"] wf_lsofFlowStep [OF _ assms(2)]) simp_all
  then show ?thesis using assms(1) by (simp add: lsofPoll_def split: option.split)
qed

lemma wf_nettopLine:
  assumes "wf_daemon h g" "wf_map (items snapshot)"
  shows "wf_daemon h (snd (snd (nettopLine e clk snapshot line (nt, ob, g))))"
proof -
  have step: "wf_daemon h (g\<lparr>gSessions := ss\<rparr>)" if "relevantFlow clk flow (gSessions g) = (b, ss)" for flow b ss
    using wf_relevantFlow [OF _ that] assms(1) by (simp add: wf_daemon_def)
  have "wf_daemon h (snd (observeConnection e clk snapshot key flow (ob', g\<lparr>gSessions := ss\<rparr>)))"
    if "relevantFlow clk flow (gSessions g) = (b, ss)" for flow b ss key ob'
    by (rule wf_observeConnection [OF step [OF that] assms(2)])
  then show ?thesis
    using assms(1) step by (auto simp: nettopLine_def Let_def split: prod.split nettop_result.split)
qed

lemma wf_handleInspectedHTTP: "wf_daemon h g \<Longrightarrow> wf_daemon h (handleInspectedHTTP e clk x g)"
  by (simp add: handleInspectedHTTP_def wf_daemon_def enqueue_bound Let_def)

section \<open>The daemon as a machine\<close>

text \<open>Each step is one handled input. A process table has each PID once, which holds for every table parsed from
  the output of \<open>ps\<close>.\<close>

inductive daemon_step :: "DaemonEnv \<Rightarrow> Daemon \<Rightarrow> Daemon \<Rightarrow> bool" for e where
  Line: "wf_map (items s1) \<Longrightarrow> wf_map (items s2) \<Longrightarrow> daemon_step e g (dispatch e clk s1 s2 line peerPID hasPeerPID g)"
| Tick: "wf_map (items s1) \<Longrightarrow> daemon_step e g (processTick e clk s1 g)"
| Poll: "wf_map (items s1) \<Longrightarrow> lsofPoll e clk s1 out (ob, g) = (ob', g') \<Longrightarrow> daemon_step e g g'"
| Nettop: "wf_map (items s1) \<Longrightarrow> nettopLine e clk s1 line (nt, ob, g) = (nt', ob', g') \<Longrightarrow> daemon_step e g g'"
| Exchange: "daemon_step e g (handleInspectedHTTP e clk x g)"

inductive daemon_run :: "DaemonEnv \<Rightarrow> Daemon \<Rightarrow> bool" for e where
  Start: "daemon_run e \<lparr>gSessions = newDaemonSessions,
      gOut = \<lparr>transcripts = [], uiQueue = [], status = fst (newStatusReporter clk), sources = snd (newStatusReporter clk)\<rparr>,
      gPause = newPauseController, gIdentity = freshCache, gDNS = [], gBurst = False\<rparr>"
| Step: "daemon_run e g \<Longrightarrow> daemonIdentity (deHost e') freshCache = daemonIdentity (deHost e) freshCache \<Longrightarrow>
    daemon_step e' g g' \<Longrightarrow> daemon_run e g'"

lemma daemon_run_step: "daemon_run e g \<Longrightarrow> daemon_step e g g' \<Longrightarrow> daemon_run e g'"
  by (rule daemon_run.Step [OF _ refl])

lemma wf_daemon_step: "daemon_step e g g' \<Longrightarrow> wf_daemon (deHost e) g \<Longrightarrow> wf_daemon (deHost e) g'"
proof (induction rule: daemon_step.induct)
  case (Line s1 s2 g clk line peerPID hasPeerPID)
  then show ?case by (simp add: wf_dispatch)
next
  case (Tick s1 g clk)
  then show ?case by (simp add: wf_processTick)
next
  case (Poll s1 clk out ob g ob' g')
  then show ?case using wf_lsofPoll [of "deHost e" g s1 e clk out ob] by simp
next
  case (Nettop s1 clk line nt ob g nt' ob' g')
  then show ?case using wf_nettopLine [of "deHost e" g s1 e clk line nt ob] by simp
next
  case (Exchange g clk x)
  then show ?case by (rule wf_handleInspectedHTTP)
qed

lemma wf_daemon_run: "daemon_run e g \<Longrightarrow> wf_daemon (deHost e) g"
proof (induction rule: daemon_run.induct)
  case (Start clk)
  show ?case by (simp add: wf_daemon_def wf_sessions_new)
next
  case (Step g e' g')
  then have "wf_daemon (deHost e') g = wf_daemon (deHost e) g" "wf_daemon (deHost e') g' = wf_daemon (deHost e) g'"
    by (simp_all add: wf_daemon_def cache_ok_def)
  then show ?case using Step wf_daemon_step by blast
qed

section \<open>Properties\<close>

text \<open>C4. The invariant of the daemon, whatever lines, process tables, connections and inspected exchanges arrive
  and in whatever order: every session is filed under its own identifier with a well-formed correlator state and a
  consistent agent registry, at most a hundred flows wait for a session, at most 256 events wait for the user
  interface, and the cached identity of the daemon is the one a fresh check would give.\<close>

theorem daemon_invariant:
  assumes "daemon_run e g"
  shows "(\<forall>sid sess. mget (dsMap (gSessions g)) sid = Some sess \<longrightarrow>
            dsID sess = sid \<and> wf_session (dsState sess) \<and> wf_registry (mRegistry (dsSubagents sess))) \<and>
    length (dsPending (gSessions g)) \<le> 100 \<and> length (uiQueue (gOut g)) \<le> 256 \<and> cache_ok (deHost e) (gIdentity g)"
proof -
  have w: "wf_daemon (deHost e) g" by (rule wf_daemon_run [OF assms])
  then have "dsID sess = sid \<and> wf_session (dsState sess) \<and> wf_registry (mRegistry (dsSubagents sess))"
    if "mget (dsMap (gSessions g)) sid = Some sess" for sid sess
    using wf_sessionsD [OF _ that] by (simp add: wf_daemon_def wf_daemon_session_def wf_monitor_def)
  then show ?thesis
    using w by (simp add: wf_daemon_def wf_sessions_def maxPendingNetworkFlows_def uiForwardQueueSize_def)
qed

text \<open>C10. Pausing halts sensing: while the daemon is paused, a line that is not a control message, a process
  snapshot, an \<open>lsof\<close> poll and a line of \<open>nettop\<close> change nothing at all, neither the sessions nor what is recorded or
  shown.\<close>

theorem paused_daemon_senses_nothing:
  assumes "Paused (gPause g)"
  shows "(controlOf e line = None \<longrightarrow> dispatch e clk s1 s2 line peerPID hasPeerPID g = g) \<and>
    processTick e clk s1 g = g \<and> lsofPoll e clk s1 out (ob, g) = (ob, g) \<and> nettopLine e clk s1 row (nt, ob, g) = (nt, ob, g)"
  using assms by (simp add: dispatch_def processTick_def lsofPoll_def nettopLine_def Let_def)

theorem paused_daemon_senses_nothing_witness:
  "dispatch demoEnv 5 None None ''anything'' 7 True (demoDaemon\<lparr>gPause := \<lparr>paused = True, pausedAt = 3\<rparr>\<rparr>) =
   demoDaemon\<lparr>gPause := \<lparr>paused = True, pausedAt = 3\<rparr>\<rparr>"
proof -
  have "controlOf demoEnv ''anything'' = None" by code_simp
  then show ?thesis
    using paused_daemon_senses_nothing [of "demoDaemon\<lparr>gPause := \<lparr>paused = True, pausedAt = 3\<rparr>\<rparr>" demoEnv "''anything''" 5 None None 7 True]
    by (simp add: Paused_def)
qed

lemma demo_daemon_run: "daemon_run demoEnv demoDaemon"
  unfolding demoDaemon_def demoOut_def by (rule daemon_run.Start)

theorem daemon_invariant_witness:
  "\<exists>g. daemon_run demoEnv g \<and> Paused (gPause g) \<and> length (uiQueue (gOut g)) \<le> 256"
proof -
  let ?g = "dispatch demoEnv 5 None None ''agentsnitch.control'' 7 True demoDaemon"
  have "daemon_run demoEnv ?g"
    by (rule daemon_run_step [OF demo_daemon_run daemon_step.Line]) (simp_all add: wf_map_def)
  moreover have "Paused (gPause ?g)" by code_simp
  ultimately show ?thesis using daemon_invariant [of demoEnv ?g] by blast
qed

text \<open>An inspected exchange claims an active tool call exactly when there is one: after reconciliation its basis
  names the active tool span just when it has a session that exists and in which the tool call it names (or, if it
  names none, some egress tool call) is open, and without one its confidence is at most medium.\<close>

theorem inspect_basis_exact:
  "let x' = reconcileInspectCorrelation x ss;
       active = (TrimSpace (xSessionID x) \<noteq> [] \<and>
                 (\<exists>session sp. getExisting (xSessionID x) ss = Some session \<and> spanFor (dsState session) (xToolUseID x) = Some sp))
   in (''active_tool_span'' \<in> set (items (crBasis (xCorrelation x'))) \<longleftrightarrow> active) \<and>
      (crConfidence (xCorrelation x') = (if active then (if tInspectionMode (xTLS x) = ''local_mitm'' then ''high'' else crConfidence (xCorrelation x))
         else if TrimSpace (xSessionID x) \<noteq> [] then ''medium'' else ''low''))"
proof -
  have on: "''active_tool_span'' \<in> set (items (crBasis (xCorrelation (withActiveSpan sp x))))" for sp
    by (simp add: withActiveSpan_def addInspectBasis_def)
  have off: "''active_tool_span'' \<notin> set (items (crBasis (xCorrelation (withoutActiveSpan x))))"
    by (cases "crBasis (xCorrelation x)") (simp_all add: withoutActiveSpan_def removeInspectBasis_def)
  show ?thesis
    using on off
    by (auto simp: reconcileInspectCorrelation_def withActiveSpan_def withoutActiveSpan_def inspectConfidenceWithoutActiveSpan_def Let_def
        split: option.splits)
qed

end
