(* ===== verification/Daemon_Inspect.thy ===== *)
theory Daemon_Inspect
  imports Daemon_Loops Inspect_Proxy
begin

text \<open>
  How the daemon and the inspection proxy work together once it runs, and the payload purges of
  \<open>cmd/daemon/main.go\<close> and \<open>cmd/daemon/sessions.go\<close>: the proxy asks the daemon which tool call a request belongs to,
  and hands it every exchange it reports. One served request is one step of both.
\<close>

section \<open>Definitions\<close>

text \<open>The scope function reads the sessions as they are when a request arrives.\<close>

definition withSessions :: "daemonSessions \<Rightarrow> Proxy \<Rightarrow> Proxy" where
  "withSessions ss p = p\<lparr>pxScope := Some (\<lambda>ctx host. inspectScopeForActiveToolSpan ctx ss)\<rparr>"

definition serveInspected ::
    "DaemonEnv \<Rightarrow> ProxyNet \<Rightarrow> Proxy \<Rightarrow> time \<Rightarrow> int \<Rightarrow> Request \<Rightarrow> payload_dir \<times> Daemon \<Rightarrow> ProxyResult \<times> payload_dir \<times> Daemon" where
  "serveInspected e net p clk ms req = (\<lambda>(dir, g).
     let r = ServeHTTP net (withSessions (gSessions g) p) clk ms req dir
     in (r, pyPayloads r, fold (handleInspectedHTTP e clk) (pyEvents r) g))"

definition purgeExpiredInspectPayloads :: "PayloadEnv \<Rightarrow> time \<Rightarrow> payload_dir \<Rightarrow> payload_dir" where
  "purgeExpiredInspectPayloads env now dir = snd (PurgeExpiredPayloads env now dir)"

definition purgeInspectPayloadsForEndedSessions :: "PayloadEnv \<Rightarrow> string list \<Rightarrow> payload_dir \<Rightarrow> payload_dir" where
  "purgeInspectPayloadsForEndedSessions env sessionIDs dir = snd (PurgePayloadsForEndedSessions env sessionIDs dir)"

section \<open>Properties\<close>

text \<open>A request belongs to an open tool call when its credentials name a session the daemon knows and that session has an
  open span: the one of the named tool use, or any when none is named.\<close>

definition openToolCall :: "daemonSessions \<Rightarrow> InspectContext \<Rightarrow> bool" where
  "openToolCall ss ctx =
     (TrimSpace (cxSessionID ctx) \<noteq> [] \<and>
      (case getExisting (cxSessionID ctx) ss of None \<Rightarrow> False | Some session \<Rightarrow> spanFor (dsState session) (cxToolUseID ctx) \<noteq> None))"

lemma scope_open: "snd (inspectScopeForActiveToolSpan ctx ss) = openToolCall ss ctx"
  by (auto simp: inspectScopeForActiveToolSpan_def openToolCall_def split: option.split)

lemma inspectable_open: "inspectable (withSessions ss p) ctx host = Some ctx' \<Longrightarrow> openToolCall ss ctx"
  using scope_open [of ctx ss]
  by (auto simp: inspectable_def withSessions_def inspectAllowed_def split: if_split_asm prod.split_asm)



end
