(* ===== verification/Inspect_Start.thy ===== *)
theory Inspect_Start
  imports Cli Daemon_Inspect
begin

text \<open>
  The life of the inspection proxy: \<open>NewProxy\<close>, \<open>Start\<close>, \<open>Shutdown\<close> and the accessors of \<open>internal/inspect/proxy.go\<close>, and
  \<open>startInspectProxyIfEnabled\<close> of \<open>cmd/daemon/main.go\<close>, which starts it and publishes the environment for processes in the
  daemon's status. The random bytes and the address the listener gets are parameters. The fingerprint that
  exchanges carry is read from the certificate manager; here it is stored when the authority is made.
\<close>

section \<open>Definitions\<close>

record StartHost = CliHost +
  shRandom :: "string option"
  shListen :: "string option"

record ProxyServer =
  svProxy :: Proxy
  svCerts :: "CertManager option"
  svListener :: "string option"

definition NewProxy :: "Settings \<Rightarrow> CertManager option \<Rightarrow> ProxyServer" where
  "NewProxy settings certs =
     \<lparr>svProxy = \<lparr>pxSettings = settings, pxToken = [], pxScope = None, pxMaxBodyBytes = 0, pxFingerprint = []\<rparr>,
      svCerts = certs, svListener = None\<rparr>"

definition hex_pair :: "char \<Rightarrow> string" where
  "hex_pair c = (let n = of_char c :: nat in [hex_char (n div 16), hex_char (n mod 16)])"

definition newProxyToken :: "string option \<Rightarrow> string option" where
  "newProxyToken raw = map_option (\<lambda>bytes. concat (map hex_pair bytes)) raw"

definition Start :: "StartHost \<Rightarrow> ProxyServer \<Rightarrow> ((inspect_error + unit) \<times> ProxyServer) io" where
  "Start h sv =
     (let p = svProxy sv;
          certs = (case svCerts sv of Some m \<Rightarrow> m | None \<Rightarrow> NewCertManager (DefaultPaths h));
          sv1 = sv\<lparr>svCerts := Some certs\<rparr>
      in if svListener sv \<noteq> None then State_Monad.return (Inr (), sv)
         else if \<not> HTTPSInspectEnabled (pxSettings p) then State_Monad.return (Inr (), sv)
         else case (if pxToken p = [] then newProxyToken (shRandom h) else Some (pxToken p)) of
           None \<Rightarrow> State_Monad.return (Inl (Invalid ''random''), sv1)
         | Some token \<Rightarrow> do {
             ((info, err), m) \<leftarrow> EnsureCA (clCrypto h) (clEntropy h) (clNow h) certs;
             let sv2 = sv1\<lparr>svProxy := p\<lparr>pxToken := token\<rparr>, svCerts := Some m\<rparr>;
             State_Monad.return (case err of
               Some e \<Rightarrow> (Inl e, sv2)
             | None \<Rightarrow>
                 (case shListen h of
                    None \<Rightarrow> (Inl (Invalid ''listen''), sv2)
                  | Some address \<Rightarrow>
                      (Inr (), sv2\<lparr>svListener := Some address,
                                   svProxy := p\<lparr>pxToken := token, pxFingerprint := caFingerprint info\<rparr>\<rparr>))) })"

definition Shutdown :: "ProxyServer \<Rightarrow> ProxyServer" where
  "Shutdown sv = sv\<lparr>svListener := None\<rparr>"

definition proxyStatusOf :: "ProxyServer \<Rightarrow> ProxyStatus" where
  "proxyStatusOf sv =
     \<lparr>psEnabled = HTTPSInspectEnabled (pxSettings (svProxy sv)), psListening = (svListener sv \<noteq> None),
      psAddress = (case svListener sv of None \<Rightarrow> [] | Some a \<Rightarrow> a)\<rparr>"

definition Token :: "ProxyServer \<Rightarrow> string" where
  "Token sv = pxToken (svProxy sv)"

definition SetScopeFunc :: "(InspectContext \<Rightarrow> string \<Rightarrow> InspectContext \<times> bool) \<Rightarrow> ProxyServer \<Rightarrow> ProxyServer" where
  "SetScopeFunc scope sv = sv\<lparr>svProxy := (svProxy sv)\<lparr>pxScope := Some scope\<rparr>\<rparr>"

definition recordInspectStatus :: "time \<Rightarrow> InspectStatus \<Rightarrow> FullStatus \<Rightarrow> FullStatus" where
  "recordInspectStatus now st full = writeLocked now (full\<lparr>stInspect := st\<rparr>)"

definition processEnvOf :: "StartHost \<Rightarrow> ProxyServer \<Rightarrow> (string, string) gomap" where
  "processEnvOf h sv = ProcessScopedEnv (pBundlePath (DefaultPaths h)) (AuthenticatedURL (proxyStatusOf sv) (Token sv))"

definition reportInspect :: "StartHost \<Rightarrow> ProxyStatus \<Rightarrow> (InspectStatus \<Rightarrow> InspectStatus) \<Rightarrow> 'p option \<Rightarrow> FullStatus \<Rightarrow> ('p option \<times> FullStatus) io" where
  "reportInspect h ps f proxy full =
     do { st \<leftarrow> CurrentStatus h (clCrypto h) (clTrust h) ps; State_Monad.return (proxy, recordInspectStatus (clNow h) (f st) full) }"

definition startInspectProxyIfEnabled :: "StartHost \<Rightarrow> daemonSessions \<Rightarrow> FullStatus \<Rightarrow> (ProxyServer option \<times> FullStatus) io" where
  "startInspectProxyIfEnabled h ss full =
     do { (settings, err) \<leftarrow> loadSettings h;
          if err \<noteq> None then reportInspect h noProxy id None full
          else if \<not> HTTPSInspectEnabled settings then reportInspect h noProxy id None full
          else do {
            (r, sv) \<leftarrow> Start h (SetScopeFunc (\<lambda>ctx host. inspectScopeForActiveToolSpan ctx ss)
                (NewProxy settings (Some (NewCertManager (DefaultPaths h)))));
            case r of
              Inl _ \<Rightarrow> reportInspect h (noProxy\<lparr>psEnabled := True\<rparr>) id None full
            | Inr _ \<Rightarrow> reportInspect h (proxyStatusOf sv) (\<lambda>st. st\<lparr>isProcessEnv := processEnvOf h sv\<rparr>) (Some sv) full } }"

section \<open>Lemmas\<close>

lemma token_nonempty: "newProxyToken raw = Some token \<Longrightarrow> raw \<noteq> Some [] \<Longrightarrow> token \<noteq> []"
proof -
  have "hex_pair c \<noteq> []" for c by (simp add: hex_pair_def Let_def)
  moreover assume "newProxyToken raw = Some token" "raw \<noteq> Some []"
  ultimately show ?thesis by (cases "the raw") (auto simp: newProxyToken_def)
qed

text \<open>A proxy that runs has a token and listens where the system said, and its settings are the ones it was made with.\<close>

definition guarded :: "StartHost \<Rightarrow> ProxyServer \<Rightarrow> bool" where
  "guarded h sv \<longleftrightarrow> pxToken (svProxy sv) \<noteq> [] \<and> svListener sv = shListen h \<and> svListener sv \<noteq> None \<and> HTTPSInspectEnabled (pxSettings (svProxy sv))"

lemma wp_Start:
  assumes "svListener sv = None" "HTTPSInspectEnabled (pxSettings (svProxy sv))" "shRandom h \<noteq> Some []"
  shows "wp (Start h sv) (\<lambda>(r, sv') s'. r = Inr () \<longrightarrow> guarded h sv' \<and> pxScope (svProxy sv') = pxScope (svProxy sv)) s"
  unfolding Start_def Let_def using assms token_nonempty [of "shRandom h"]
  by (auto simp: wp_def guarded_def case_prod_beta split: option.split)

lemma wp_any: "(\<And>r s'. Q r s') \<Longrightarrow> wp m Q s"
  by (simp add: wp_def case_prod_beta)

definition startedPost :: "StartHost \<Rightarrow> daemonSessions \<Rightarrow> ProxyServer option \<times> FullStatus \<Rightarrow> OS \<Rightarrow> bool" where
  "startedPost h ss = (\<lambda>(proxy, full) s'. case proxy of
       None \<Rightarrow> True
     | Some sv \<Rightarrow> guarded h sv \<and> pxScope (svProxy sv) = Some (\<lambda>ctx host. inspectScopeForActiveToolSpan ctx ss) \<and>
                 isProcessEnv (stInspect full) = processEnvOf h sv)"

lemma wp_reportInspect:
  "(\<And>st s'. Q (proxy, recordInspectStatus (clNow h) (f st) full) s') \<Longrightarrow> wp (reportInspect h ps f proxy full) Q s"
  unfolding reportInspect_def wp_bind wp_return by (rule wp_any)

lemma wp_startInspectProxy:
  assumes "shRandom h \<noteq> Some []"
  shows "wp (startInspectProxyIfEnabled h ss full) (startedPost h ss) s"
  unfolding startInspectProxyIfEnabled_def wp_bind
proof (rule wp_any, goal_cases)
  case (1 r s1)
  obtain settings err where r: "r = (settings, err)" by fastforce
  let ?sv = "SetScopeFunc (\<lambda>ctx host. inspectScopeForActiveToolSpan ctx ss) (NewProxy settings (Some (NewCertManager (DefaultPaths h))))"
  have fresh: "svListener ?sv = None" "pxSettings (svProxy ?sv) = settings"
    "pxScope (svProxy ?sv) = Some (\<lambda>ctx host. inspectScopeForActiveToolSpan ctx ss)" by (simp_all add: SetScopeFunc_def NewProxy_def)
  have none: "startedPost h ss (None, full') s'" for full' s' by (simp add: startedPost_def)
  consider "err \<noteq> None" | "err = None" "\<not> HTTPSInspectEnabled settings" | "err = None" "HTTPSInspectEnabled settings" by blast
  then show ?case
  proof cases
    case 3
    have "wp (Start h ?sv) (\<lambda>(r, sv') s'. r = Inr () \<longrightarrow> guarded h sv' \<and> pxScope (svProxy sv') = pxScope (svProxy ?sv)) s1"
      using 3 fresh assms by (intro wp_Start) simp_all
    then have "wp (Start h ?sv) (\<lambda>x. wp (case x of (r, sv) \<Rightarrow> case r of
          Inl _ \<Rightarrow> reportInspect h (noProxy\<lparr>psEnabled := True\<rparr>) id None full
        | Inr _ \<Rightarrow> reportInspect h (proxyStatusOf sv) (\<lambda>st. st\<lparr>isProcessEnv := processEnvOf h sv\<rparr>) (Some sv) full) (startedPost h ss)) s1"
      by (rule wp_mono)
        (auto intro!: wp_reportInspect none simp: fresh startedPost_def recordInspectStatus_def writeLocked_def split: sum.split)
    then show ?thesis using 3 by (simp add: r wp_bind)
  qed (auto simp: r intro!: wp_reportInspect none)
qed

text \<open>The credentials of a URL as a client sends them: the user of a session and the token.\<close>

lemma SafeProxySessionID_chars: "c \<in> set (SafeProxySessionID sid) \<Longrightarrow> is_alnum c \<or> c \<in> {CHR ''.'', CHR ''_'', CHR ''-''}"
  using Trim_subset [of "take 96 (map session_rune (runes (TrimSpace sid)))" "''.-_''"]
  by (auto simp: SafeProxySessionID_def session_rune_def dest!: subsetD in_set_takeD split: if_split_asm)

lemma trim_no_space: "(\<And>c. c \<in> set v \<Longrightarrow> \<not> is_space c) \<Longrightarrow> TrimSpace v = v"
  unfolding TrimSpace_def by (cases "v = []") (auto intro!: trim_by_fixed)

lemma trim_by_first: "\<not> P c \<Longrightarrow> \<exists>t. trim_by P (c # s) = c # t"
  by (induction s rule: rev_induct) (auto simp: trim_by_def trim_left_by_def trim_right_by_def, metis rev_rev_ident)

lemma trim_by_nonempty: "\<not> P c \<Longrightarrow> trim_by P (c # s) \<noteq> []"
  using trim_by_first [of P c s] by auto

lemma alnum_plain: "is_alnum c \<Longrightarrow> \<not> is_space c \<and> byte_of c < 0x80 \<and> c \<notin> {CHR ''.'', CHR ''_'', CHR ''-'', CHR '':''}"
  by (auto simp: is_alnum_def is_word_def is_space_def byte_of_def Let_def)

lemma session_no_space: "c \<in> set (SafeProxySessionID sid) \<Longrightarrow> \<not> is_space c \<and> byte_of c < 0x80 \<and> c \<noteq> CHR '':''"
  using SafeProxySessionID_chars [of c sid] alnum_plain [of c] by (auto simp: is_space_def byte_of_def)

lemma session_from_user: "sessionIDFromProxyUser (proxyUserPrefix @ SafeProxySessionID sid) = SafeProxySessionID sid"
proof -
  have "TrimSpace (proxyUserPrefix @ SafeProxySessionID sid) = proxyUserPrefix @ SafeProxySessionID sid"
    using session_no_space by (intro trim_no_space) (auto simp: proxyUserPrefix_def is_space_def)
  moreover have "TrimSpace (SafeProxySessionID sid) = SafeProxySessionID sid" using session_no_space by (blast intro: trim_no_space)
  ultimately show ?thesis by (simp add: sessionIDFromProxyUser_def HasPrefix_def TrimPrefix_def Let_def)
qed

lemma length_trim_by: "length (trim_by P s) \<le> length s"
  unfolding trim_by_def trim_left_by_def trim_right_by_def
  by (metis length_dropWhile_le length_rev order.trans)

lemma SafeProxySessionID_idem: "SafeProxySessionID (SafeProxySessionID sid) = SafeProxySessionID sid"
proof -
  let ?v = "SafeProxySessionID sid"
  have plain: "byte_of c < 0x80 \<and> session_rune (byte_of c) = c \<and> \<not> is_space c" if "c \<in> set ?v" for c
    using SafeProxySessionID_chars [OF that] session_no_space [OF that] by (auto simp: session_rune_def)
  then have "runes ?v = map byte_of ?v" "TrimSpace ?v = ?v"
    using runes_ascii [of ?v "[]"] by (auto simp: list_all_iff intro!: trim_no_space)
  moreover have "map (session_rune \<circ> byte_of) ?v = ?v" using plain by (intro map_idI) simp
  moreover have "length ?v \<le> 96" unfolding SafeProxySessionID_def Trim_def by (rule order.trans [OF length_trim_by]) simp
  ultimately show ?thesis by (subst SafeProxySessionID_def) (simp add: SafeProxySessionID_def)
qed

lemma SafeProxySessionID_nonempty: "is_alnum c \<Longrightarrow> SafeProxySessionID (c # s) \<noteq> []"
proof -
  assume c: "is_alnum c"
  then have p: "\<not> is_space c" "byte_of c < 0x80" "session_rune (byte_of c) = c" "c \<notin> set ''.-_''"
    using alnum_plain [of c] by (auto simp: session_rune_def)
  obtain t where t: "TrimSpace (c # s) = c # t" using trim_by_first [of is_space c s] p(1) by (auto simp: TrimSpace_def)
  have "runes (c # t) = byte_of c # runes t" using runes_ascii [of "[c]" t] p(2) by simp
  then show ?thesis using p(3,4) by (simp add: SafeProxySessionID_def t Trim_def take_Cons' trim_by_nonempty)
qed

lemma managed_session: "SafeProxySessionID (managedRunSessionID h args) = managedRunSessionID h args \<and> managedRunSessionID h args \<noteq> []"
proof -
  have "is_alnum CHR ''i''" by code_simp
  then have "SafeProxySessionID (''inspect-run-'' @ v) \<noteq> []" for v using SafeProxySessionID_nonempty [of "CHR ''i''"] by simp
  then show ?thesis by (simp add: managedRunSessionID_def SafeProxySessionID_idem split: option.split)
qed

lemma mget_map_values: "mget (map (\<lambda>(k, v). (k, f k v)) m) key = map_option (f key) (mget m key)"
  by (induction m) auto

section \<open>Properties\<close>

text \<open>C20. A proxy the daemon started is guarded. It has a token, listens at the address the system gave, looks only into
  the tool calls of the daemon's sessions, and publishes its address with the token in the status; a request that is not
  local or does not carry the token reaches no server, is reported nowhere, stores nothing and gets an error.\<close>

theorem started_proxy_is_guarded:
  assumes "run_state (startInspectProxyIfEnabled h ss full) s = ((Some sv, full'), s')" "shRandom h \<noteq> Some []"
    and "\<not> localClient req \<or> cxToken (contextFromRequest req) \<noteq> pxToken (svProxy sv)"
  shows "guarded h sv \<and> pxScope (svProxy sv) = Some (\<lambda>ctx host. inspectScopeForActiveToolSpan ctx ss) \<and>
    isProcessEnv (stInspect full') = processEnvOf h sv \<and>
    (let r = ServeHTTP net (withSessions ss' (svProxy sv)) clk ms req dir
     in pyUpstream r = [] \<and> pyEvents r = [] \<and> pyPayloads r = dir \<and> pyReply r \<in> {[HTTPError 403], [HTTPError 407]})"
proof -
  have post: "guarded h sv \<and> pxScope (svProxy sv) = Some (\<lambda>ctx host. inspectScopeForActiveToolSpan ctx ss) \<and>
      isProcessEnv (stInspect full') = processEnvOf h sv"
    using wp_run [OF wp_startInspectProxy [OF assms(2)] assms(1)] by (simp add: startedPost_def)
  moreover have "pxToken (withSessions ss' (svProxy sv)) = pxToken (svProxy sv)" by (simp add: withSessions_def)
  moreover from this post have "let r = ServeHTTP net (withSessions ss' (svProxy sv)) clk ms req dir
     in pyUpstream r = [] \<and> pyEvents r = [] \<and> pyPayloads r = dir \<and> pyReply r \<in> {[HTTPError 403], [HTTPError 407]}"
    using assms(3) by (auto simp: ServeHTTP_def authorized_def constantTimeStringEqual_eq guarded_def Let_def)
  ultimately show ?thesis by blast
qed

definition demoStart :: StartHost where
  "demoStart = CliHost.extend demoCli (StartHost.fields (Some ''ab'') (Some ''127.0.0.1:9''))"

definition demoFullStatus :: FullStatus where
  "demoFullStatus = Status.extend (fst (newStatusReporter 1)) (FullStatus.fields
     \<lparr>isEnabled = False, isProxy = noProxy, isCA = zeroInfo, isTrust = \<lparr>SystemTrusted = False, trustDetail = []\<rparr>, isTrustMode = [], isPayloadMode = [],
      isRetention = [], isProcessEnv = [], isWarnings = [], isLastInspection = []\<rparr>)"

theorem started_proxy_is_guarded_witness:
  "\<exists>sv full s'. run_state (startInspectProxyIfEnabled demoStart newDaemonSessions demoFullStatus) demoCliDisk = ((Some sv, full), s') \<and>
     pxToken (svProxy sv) = ''6162'' \<and> svListener sv = Some ''127.0.0.1:9'' \<and>
     pyReply (ServeHTTP demoNet (withSessions newDaemonSessions (svProxy sv)) 1 0 (demoConnect ''Bearer guess'') None) \<in> {[HTTPError 403], [HTTPError 407]}"
proof -
  let ?run = "run_state (startInspectProxyIfEnabled demoStart newDaemonSessions demoFullStatus) demoCliDisk"
  have "map_option (\<lambda>sv. pxToken (svProxy sv)) (fst (fst ?run)) = Some ''6162''" by code_simp
  then obtain sv where "fst (fst ?run) = Some sv" and token: "pxToken (svProxy sv) = ''6162''" by auto
  then obtain full s' where run: "?run = ((Some sv, full), s')" by (metis prod.collapse)
  have random: "shRandom demoStart \<noteq> Some []" and listen: "shListen demoStart = Some ''127.0.0.1:9''"
    by (simp_all add: demoStart_def CliHost.defs StartHost.defs)
  have "cxToken (contextFromRequest (demoConnect ''Bearer guess'')) = ''guess''" by code_simp
  then have "\<not> localClient (demoConnect ''Bearer guess'') \<or> cxToken (contextFromRequest (demoConnect ''Bearer guess'')) \<noteq> pxToken (svProxy sv)"
    using token by simp
  from started_proxy_is_guarded [OF run random this, of demoNet newDaemonSessions 1 0 None] run token listen
  show ?thesis by (auto simp: guarded_def Let_def)
qed

text \<open>C27. A process started by \<open>inspect run\<close> is recognised by the proxy as belonging to its own session: its proxy variable
  carries the user of the session and the daemon's token, and a request with these credentials is authorised and gives
  back exactly the session, whatever the name of the command.\<close>

theorem managed_run_is_attributed:
  assumes "session = managedRunSessionID h args"
    and "mget live ''HTTPS_PROXY'' = Some (AuthenticatedProxyURL address token)" "TrimSpace address \<noteq> []" "token \<noteq> []"
    and "clParseURL h (AuthenticatedProxyURL address token) = Some \<lparr>quScheme = ''http'', quUser = Some (''agentsnitch'', Some token), quHost = address\<rparr>"
    and "HeaderGet (reqHeader req) ''Proxy-Authorization'' = ''Basic '' @ b" "TrimSpace b = b"
    and "DecodeString b = Some (proxyUserPrefix @ session @ '':'' @ token)" "HeaderGet (reqHeader req) ''X-AgentSnitch-Session'' = []"
  shows "mget (scopedInspectEnv (clParseURL h) live session) ''HTTPS_PROXY'' =
      Some (urlString \<lparr>quScheme = ''http'', quUser = Some (proxyUserPrefix @ session, Some token), quHost = address\<rparr>) \<and>
    mget (scopedInspectEnv (clParseURL h) live session) ''AGENTSNITCH_SESSION_ID'' = Some session \<and>
    cxSessionID (contextFromRequest req) = session \<and> (pxToken p = token \<longrightarrow> authorized p (contextFromRequest req))"
proof -
  have safe: "SafeProxySessionID session = session" "session \<noteq> []" using managed_session assms(1) by auto
  have "address \<noteq> []" using assms(3) by auto
  have url: "TrimSpace (AuthenticatedProxyURL address token) \<noteq> []"
    using assms(3) by (simp add: AuthenticatedProxyURL_def urlString_def TrimSpace_def trim_by_nonempty is_space_def)
  have "SessionScopedProxyURL (clParseURL h) (AuthenticatedProxyURL address token) session =
      urlString \<lparr>quScheme = ''http'', quUser = Some (proxyUserPrefix @ session, Some token), quHost = address\<rparr>"
    using assms(4,5) url safe \<open>address \<noteq> []\<close> by (simp add: SessionScopedProxyURL_def Let_def)
  moreover have "''HTTPS_PROXY'' \<in> set proxyKeys" by (simp add: proxyKeys_def)
  ultimately have env: "mget (scopedInspectEnv (clParseURL h) live session) ''HTTPS_PROXY'' =
      Some (urlString \<lparr>quScheme = ''http'', quUser = Some (proxyUserPrefix @ session, Some token), quHost = address\<rparr>)"
    "mget (scopedInspectEnv (clParseURL h) live session) ''AGENTSNITCH_SESSION_ID'' = Some session"
    using assms(2) safe by (simp_all add: scopedInspectEnv_def Let_def mget_map_values)
  have "CHR '':'' \<notin> set (proxyUserPrefix @ session)"
    using session_no_space [of "CHR '':''" session] safe by (auto simp: proxyUserPrefix_def)
  then have "Cut (proxyUserPrefix @ session @ '':'' @ token) '':'' = Some (proxyUserPrefix @ session, token)"
    using Cut_here [of "CHR '':''" "proxyUserPrefix @ session" token] by simp
  moreover have "ToLower (''Basic '' @ b) = ''basic '' @ ToLower b" unfolding ToLower_def map_append by (rule arg_cong2) (code_simp, rule refl)
  ultimately have "proxyCredentials req = (proxyUserPrefix @ session, token)"
    using assms(7,8) by (simp add: proxyCredentials_def Let_def HasPrefix_def assms(6) del: append_Cons append_Nil) simp
  then have "cxSessionID (contextFromRequest req) = session \<and> cxToken (contextFromRequest req) = token"
    using assms(9) session_from_user [of session] safe by (simp add: contextFromRequest_def)
  with env show ?thesis by (simp add: authorized_def constantTimeStringEqual_eq)
qed

definition demoRun :: CliHost where
  "demoRun = demoCli\<lparr>clNow := 62135596800 * Second,
     clParseURL := (\<lambda>_. Some \<lparr>quScheme = ''http'', quUser = Some (''agentsnitch'', Some ''t0k''), quHost = ''127.0.0.1:9''\<rparr>)\<rparr>"

definition demoRunRequest :: Request where
  "demoRunRequest = demoConnect ''Basic YWdlbnRzbml0Y2guaW5zcGVjdC1ydW4tY3VybC0wLWFiOnQwaw==''"

theorem managed_run_is_attributed_witness:
  "managedRunSessionID demoRun [''/usr/bin/curl''] = ''inspect-run-curl-0-ab'' \<and>
   cxSessionID (contextFromRequest demoRunRequest) = ''inspect-run-curl-0-ab'' \<and>
   authorized (demoProxy\<lparr>pxToken := ''t0k''\<rparr>) (contextFromRequest demoRunRequest)"
proof -
  let ?b = "''YWdlbnRzbml0Y2guaW5zcGVjdC1ydW4tY3VybC0wLWFiOnQwaw==''"
  have session: "''inspect-run-curl-0-ab'' = managedRunSessionID demoRun [''/usr/bin/curl'']" by code_simp
  have live: "mget [(''HTTPS_PROXY'', AuthenticatedProxyURL ''127.0.0.1:9'' ''t0k'')] ''HTTPS_PROXY'' = Some (AuthenticatedProxyURL ''127.0.0.1:9'' ''t0k'')" by simp
  have decoded: "DecodeString ?b = Some (proxyUserPrefix @ ''inspect-run-curl-0-ab'' @ '':'' @ ''t0k'')"
    by (simp add: DecodeString_def b64_value_def b64_bytes_def char_of_def bit_0 proxyUserPrefix_def)
  have parts: "TrimSpace ''127.0.0.1:9'' \<noteq> []" "TrimSpace ?b = ?b"
    "HeaderGet (reqHeader demoRunRequest) ''X-AgentSnitch-Session'' = []" "HeaderGet (reqHeader demoRunRequest) ''Proxy-Authorization'' = ''Basic '' @ ?b"
    by code_simp+
  have parse: "clParseURL demoRun (AuthenticatedProxyURL ''127.0.0.1:9'' ''t0k'') =
      Some \<lparr>quScheme = ''http'', quUser = Some (''agentsnitch'', Some ''t0k''), quHost = ''127.0.0.1:9''\<rparr>" by (simp add: demoRun_def)
  from managed_run_is_attributed [OF session live parts(1) _ parse parts(4,2) decoded parts(3), of "demoProxy\<lparr>pxToken := ''t0k''\<rparr>"] session
  show ?thesis by simp
qed

end
