(* ===== verification/Daemon_Forward.thy ===== *)
theory Daemon_Forward
  imports Daemon_Out
begin

text \<open>
  The goroutine that feeds the user interface (\<open>uiForwarder.run\<close> in \<open>cmd/daemon/main.go\<close>) against the handlers that queue
  events. What happens is a sequence of events: a handler queues one, the goroutine takes one, a dial ends, a write
  ends. An event that the goroutine is not waiting for changes nothing. What the user interface has been sent is kept in
  \<open>fwWritten\<close>; the deadlines of a write are part of its outcome.
\<close>

section \<open>Definitions\<close>

definition uiForwardDialWindow :: duration where [time_defs]: "uiForwardDialWindow = 15 * Second"

text \<open>The pause between two dials.\<close>

definition uiRedialPause :: duration where [time_defs]: "uiRedialPause = Second div 4"

datatype fw_phase = Waiting | Dialling ui_event time | Writing ui_event

record Forwarder =
  fwQueue :: "ui_event list"
  fwConn :: bool
  fwPhase :: fw_phase
  fwWritten :: "ui_event list"

definition newUIForwarder :: Forwarder where
  "newUIForwarder = \<lparr>fwQueue = [], fwConn = False, fwPhase = Waiting, fwWritten = []\<rparr>"

datatype fw_event =
    Queued ui_event
  | Taken time
  | Dialled bool time
  | Wrote bool

definition takeMessage :: "time \<Rightarrow> Forwarder \<Rightarrow> Forwarder" where
  "takeMessage now f =
     (case fwQueue f of
        [] \<Rightarrow> f
      | msg # queue \<Rightarrow>
          f\<lparr>fwQueue := queue, fwPhase := (if fwConn f then Writing msg else Dialling msg (now + uiForwardDialWindow))\<rparr>)"

fun forwarder_step :: "Forwarder \<Rightarrow> fw_event \<Rightarrow> Forwarder" where
  "forwarder_step f (Queued v) = f\<lparr>fwQueue := enqueue v (fwQueue f)\<rparr>"
| "forwarder_step f (Taken now) = (case fwPhase f of Waiting \<Rightarrow> takeMessage now f | _ \<Rightarrow> f)"
| "forwarder_step f (Dialled ok now) =
     (case fwPhase f of
        Dialling msg deadline \<Rightarrow>
          if ok then f\<lparr>fwConn := True, fwPhase := Writing msg\<rparr>
          else if now > deadline then f\<lparr>fwPhase := Waiting\<rparr>
          else f
      | _ \<Rightarrow> f)"
| "forwarder_step f (Wrote ok) =
     (case fwPhase f of
        Writing msg \<Rightarrow>
          if ok then f\<lparr>fwPhase := Waiting, fwWritten := fwWritten f @ [msg]\<rparr>
          else f\<lparr>fwPhase := Waiting, fwConn := False\<rparr>
      | _ \<Rightarrow> f)"

definition forwarder_run :: "fw_event list \<Rightarrow> Forwarder \<Rightarrow> Forwarder" where
  "forwarder_run evs f = fold (\<lambda>ev f. forwarder_step f ev) evs f"

fun queued_event :: "fw_event \<Rightarrow> ui_event list" where
  "queued_event (Queued v) = [v]"
| "queued_event _ = []"

definition queued :: "fw_event list \<Rightarrow> ui_event list" where
  "queued evs = concat (map queued_event evs)"

fun in_flight :: "fw_phase \<Rightarrow> ui_event list" where
  "in_flight Waiting = []"
| "in_flight (Dialling msg deadline) = [msg]"
| "in_flight (Writing msg) = [msg]"

section \<open>Lemmas\<close>

text \<open>Written, in flight and queued events together are always a part of what was queued, in its order.\<close>

definition pending :: "Forwarder \<Rightarrow> ui_event list" where
  "pending f = in_flight (fwPhase f) @ fwQueue f"

definition ordered_in :: "ui_event list \<Rightarrow> Forwarder \<Rightarrow> bool" where
  "ordered_in vs f \<longleftrightarrow> subseq (fwWritten f @ pending f) vs \<and> length (fwQueue f) \<le> uiForwardQueueSize"

lemma subseq_enqueue: "subseq (xs @ q) vs \<Longrightarrow> subseq (xs @ enqueue v q) (vs @ [v])"
  using subseq_order.trans [OF list_emb_append_mono [OF subseq_order.refl suffix_imp_subseq [OF ui_ring.push_suffix [of v q]]], of xs "vs @ [v]"]
    list_emb_append_mono [of "(=)" "xs @ q" vs "[v]" "[v]"] by simp

lemma subseq_drop_mid: "subseq (xs @ ys @ zs) vs \<Longrightarrow> subseq (xs @ zs) vs"
  by (rule subseq_order.trans [rotated]) (auto intro: list_emb_append_mono)

lemma ordered_step: "ordered_in vs f \<Longrightarrow> ordered_in (vs @ queued_event ev) (forwarder_step f ev)"
proof (cases ev)
  case (Queued v)
  assume "ordered_in vs f"
  then show ?thesis
    using Queued subseq_enqueue [of "fwWritten f @ in_flight (fwPhase f)" "fwQueue f" vs v] ui_ring.push_length [of v "fwQueue f"]
    by (simp add: ordered_in_def pending_def)
next
  case (Taken now)
  assume "ordered_in vs f"
  then show ?thesis
    using Taken by (cases "fwPhase f"; cases "fwQueue f") (auto simp: ordered_in_def pending_def takeMessage_def)
next
  case (Dialled ok now)
  assume "ordered_in vs f"
  then show ?thesis
    using Dialled by (cases "fwPhase f") (auto simp: ordered_in_def pending_def intro: subseq_drop_mid [of _ "[_]", simplified])
next
  case (Wrote ok)
  assume "ordered_in vs f"
  then show ?thesis
    using Wrote by (cases "fwPhase f") (auto simp: ordered_in_def pending_def intro: subseq_drop_mid [of _ "[_]", simplified])
qed

lemma ordered_run: "ordered_in vs f \<Longrightarrow> ordered_in (vs @ queued evs) (forwarder_run evs f)"
proof (induction evs arbitrary: vs f)
  case (Cons ev evs)
  then show ?case
    using Cons.IH [OF ordered_step [OF Cons.prems, of ev]] by (simp add: forwarder_run_def queued_def)
qed (simp add: forwarder_run_def queued_def)

text \<open>With the user interface listening, every queued event is sent: one round per event.\<close>

lemma drain_round:
  "fwConn f \<Longrightarrow> fwPhase f = Waiting \<Longrightarrow> fwQueue f = msg # queue \<Longrightarrow>
     forwarder_run [Taken now, Wrote True] f = f\<lparr>fwQueue := queue, fwWritten := fwWritten f @ [msg]\<rparr>"
  by (simp add: forwarder_run_def takeMessage_def)

lemma drain:
  "fwConn f \<Longrightarrow> fwPhase f = Waiting \<Longrightarrow>
     fwWritten (forwarder_run (concat (replicate (length (fwQueue f)) [Taken now, Wrote True])) f) = fwWritten f @ fwQueue f"
proof (induction "fwQueue f" arbitrary: f)
  case (Cons msg queue)
  let ?g = "f\<lparr>fwQueue := queue, fwWritten := fwWritten f @ [msg]\<rparr>"
  have "forwarder_run (concat (replicate (length (fwQueue f)) [Taken now, Wrote True])) f =
      forwarder_run (concat (replicate (length queue) [Taken now, Wrote True])) (forwarder_run [Taken now, Wrote True] f)"
    using Cons.hyps(2) [symmetric] by (simp add: forwarder_run_def)
  also have "forwarder_run [Taken now, Wrote True] f = ?g" using drain_round Cons.prems Cons.hyps(2) by metis
  finally show ?case using Cons.hyps(1) [of ?g] Cons.prems Cons.hyps(2) [symmetric] by simp
qed (simp add: forwarder_run_def)

text \<open>A dial loop ends: failed dials a quarter of a second apart pass the deadline after at most sixty-two.\<close>

lemma failing_dials:
  assumes "fwPhase f = Dialling msg (t + uiForwardDialWindow)" "\<And>i. i < length ts \<Longrightarrow> t + int (i0 + i) * uiRedialPause \<le> ts ! i"
    and "62 \<le> i0 + length ts"
    and "i0 < 62"
  shows "fwPhase (forwarder_run (map (Dialled False) ts) f) = Waiting"
  using assms
proof (induction ts arbitrary: f i0)
  case (Cons now ts)
  have over: "fwPhase (forwarder_run (map (Dialled False) ts) g) = Waiting" if "fwPhase g = Waiting" for g
    using that by (induction ts arbitrary: g) (auto simp: forwarder_run_def)
  show ?case
  proof (cases "now > t + uiForwardDialWindow")
    case True
    then have "fwPhase (forwarder_step f (Dialled False now)) = Waiting" using Cons.prems(1) by simp
    then show ?thesis using over by (simp add: forwarder_run_def)
  next
    case False
    then have same: "forwarder_step f (Dialled False now) = f" using Cons.prems(1) by simp
    have "t + int i0 * uiRedialPause \<le> now" using Cons.prems(2) [of 0] by simp
    with False have "i0 < 61" by (simp add: time_defs)
    then have "fwPhase (forwarder_run (map (Dialled False) ts) f) = Waiting"
      using Cons.prems(1,3) Cons.prems(2) [of "Suc i" for i] by (intro Cons.IH [of f "Suc i0"]) auto
    then show ?thesis by (simp add: forwarder_run_def same del: forwarder_step.simps)
  qed
qed simp

section \<open>Properties\<close>


definition demoGap :: "time \<Rightarrow> ui_event" where "demoGap t = UIGap (NewPauseGapEvent t t)"


end
