(* ===== verification/Daemon_Main.thy ===== *)
theory Daemon_Main
  imports Inspect_Start Daemon_Forward
begin

text \<open>
  How the daemon starts and what it starts (\<open>main\<close> and the observer loops of \<open>cmd/daemon/main.go\<close>): the private socket, the
  choice of observers with \<open>lsof\<close> as the fallback, the rounds of the \<open>lsof\<close> loop, a run of \<open>nettop\<close>, the limit on
  connections, and the state the handlers begin with. Signals, goroutines and timers are not modelled: what they deliver is
  an argument. Saving the status on every change is left out here.
\<close>

unbundle bit_operations_syntax

section \<open>Definitions\<close>

subsection \<open>The socket\<close>

text \<open>Binding a Unix socket makes its file, with every permission the umask leaves.\<close>

definition perm777 :: mode where "perm777 = 0x1FF"
definition privateUmask :: mode where "privateUmask = 0x3F"

definition Umask :: "mode \<Rightarrow> unit io" where
  "Umask m = State (\<lambda>s. ((), s\<lparr>osUmask := m\<rparr>))"

definition ListenUnix :: "string \<Rightarrow> (os_error + unit) io" where
  "ListenUnix path = syscall (\<lambda>s.
     if node_at s path \<noteq> None then (Inl ErrIO, s)
     else if \<not> isDirAt s (Dir path) then (Inl ErrNotExist, s)
     else (Inr (), set_node path (FileNode (perm777 AND NOT (osUmask s)) []) s))"

definition privateState :: "('a) ProcEnv_scheme \<Rightarrow> unit io" where
  "privateState e =
     (case SupportDir e of
        None \<Rightarrow> State_Monad.return ()
      | Some dir \<Rightarrow> do {
          _ \<leftarrow> MkdirAll dir perm700;
          _ \<leftarrow> Chmod dir perm700;
          _ \<leftarrow> Chmod (PathJoin [dir, ''daemon.log'']) perm600;
          State_Monad.return () })"

definition openSocket :: "('a) ProcEnv_scheme \<Rightarrow> (os_error + string) io" where
  "openSocket e = do {
     _ \<leftarrow> Umask privateUmask;
     _ \<leftarrow> privateState e;
     sock \<leftarrow> SocketPath e;
     _ \<leftarrow> Remove sock;
     attempt (ListenUnix sock) (\<lambda>_. do { _ \<leftarrow> Chmod sock perm600; State_Monad.return (Inr sock) }) }"

subsection \<open>Connections\<close>

definition MaxDaemonSocketConnections :: nat where "MaxDaemonSocketConnections = 64"

text \<open>A slot is taken by every connection that is served and given back when it ends; without one a client is
  turned away.\<close>

datatype conn_event = Accepted | Ended

fun connection_step :: "nat \<times> nat \<Rightarrow> conn_event \<Rightarrow> nat \<times> nat" where
  "connection_step (busy, refused) Accepted =
     (if busy < MaxDaemonSocketConnections then (Suc busy, refused) else (busy, Suc refused))"
| "connection_step (busy, refused) Ended = (busy - 1, refused)"

subsection \<open>Observers\<close>

definition switchedOff :: "('a) ProcEnv_scheme \<Rightarrow> string \<Rightarrow> bool" where
  "switchedOff e key = (ToLower (TrimSpace (peGetenv e key)) \<in> {''1'', ''true'', ''yes''})"

definition lsofNetworkObserverEnabled :: "('a) ProcEnv_scheme \<Rightarrow> bool" where
  "lsofNetworkObserverEnabled e = (\<not> switchedOff e ''AGENTSNITCH_DISABLE_LSOF'')"

definition networkStatisticsObserverEnabled :: "('a) ProcEnv_scheme \<Rightarrow> bool" where
  "networkStatisticsObserverEnabled e = (\<not> switchedOff e ''AGENTSNITCH_DISABLE_NETWORK_STATISTICS'')"

record Observers =
  obNettop :: bool
  obLsofStarts :: nat
  obProcess :: bool

text \<open>The fallback is started once at most, however often it is asked for.\<close>

definition startLsofFallback :: "('a) ProcEnv_scheme \<Rightarrow> Observers \<Rightarrow> Observers" where
  "startLsofFallback e ob =
     (if \<not> lsofNetworkObserverEnabled e then ob
      else if obLsofStarts ob > 0 then ob
      else ob\<lparr>obLsofStarts := Suc (obLsofStarts ob)\<rparr>)"

definition startObservers :: "('a) ProcEnv_scheme \<Rightarrow> Observers" where
  "startObservers e =
     (let ob = \<lparr>obNettop = networkStatisticsObserverEnabled e, obLsofStarts = 0, obProcess = True\<rparr>
      in if networkStatisticsObserverEnabled e then ob else startLsofFallback e ob)"

text \<open>When \<open>nettop\<close> ends, for whatever reason but the end of the daemon, the fallback takes over.\<close>

definition startNetworkStatisticsObserver :: "('a) ProcEnv_scheme \<Rightarrow> bool \<Rightarrow> Observers \<Rightarrow> Observers" where
  "startNetworkStatisticsObserver e cancelled ob =
     (let ended = ob\<lparr>obNettop := False\<rparr> in if cancelled then ended else startLsofFallback e ended)"

definition LsofHookBurstPolls :: nat where "LsofHookBurstPolls = 5"

datatype lsof_wakeup =
    LsofTick "time \<times> proc_table option \<times> string option"
  | LsofBurst "(time \<times> proc_table option \<times> string option) list"

definition pollWith :: "DaemonEnv \<Rightarrow> time \<times> proc_table option \<times> string option \<Rightarrow> observerState \<times> Daemon \<Rightarrow> observerState \<times> Daemon" where
  "pollWith e = (\<lambda>(clk, snapshot, out). lsofPoll e clk snapshot out)"

fun lsofWakeup :: "DaemonEnv \<Rightarrow> lsof_wakeup \<Rightarrow> observerState \<times> Daemon \<Rightarrow> observerState \<times> Daemon" where
  "lsofWakeup e (LsofTick input) st = pollWith e input st"
| "lsofWakeup e (LsofBurst inputs) st = fold (pollWith e) (take LsofHookBurstPolls inputs) st"

definition emptyObserver :: observerState where
  "emptyObserver = \<lparr>obsSeen = [], obsTranscriptSeen = []\<rparr>"

definition startLsofNetworkObserver :: "DaemonEnv \<Rightarrow> lsof_wakeup list \<Rightarrow> Daemon \<Rightarrow> Daemon" where
  "startLsofNetworkObserver e wakeups g = snd (fold (lsofWakeup e) wakeups (emptyObserver, g))"

definition runNetworkStatisticsObserver ::
    "DaemonEnv \<Rightarrow> time \<Rightarrow> proc_table option \<Rightarrow> (time \<times> proc_table option \<times> string) list \<Rightarrow> Daemon \<Rightarrow> Daemon" where
  "runNetworkStatisticsObserver e started snapshot0 lines g =
     snd (snd (fold (\<lambda>(clk, snapshot, line). nettopLine e clk snapshot line) lines
       (\<lparr>ntCurrent = \<lparr>ncPID = 0, ncName = []\<rparr>, ntProcesses = snapshot0, ntSnapshotAt = started\<rparr>, emptyObserver, g)))"

definition startProcessGraphObserver :: "DaemonEnv \<Rightarrow> (time \<times> proc_table option) list \<Rightarrow> Daemon \<Rightarrow> Daemon" where
  "startProcessGraphObserver e ticks g = fold (\<lambda>(clk, snapshot). processTick e clk snapshot) ticks g"

text \<open>The payloads are purged at the start and then with every tick, if there are ticks at all.\<close>

definition startInspectPayloadRetention :: "PayloadEnv \<Rightarrow> duration \<Rightarrow> time \<Rightarrow> time list \<Rightarrow> payload_dir \<Rightarrow> payload_dir" where
  "startInspectPayloadRetention env interval started ticks dir =
     (let purged = purgeExpiredInspectPayloads env started dir
      in if interval \<le> 0 then purged else fold (purgeExpiredInspectPayloads env) ticks purged)"

subsection \<open>The start\<close>

definition freshDaemon :: "time \<Rightarrow> Daemon" where
  "freshDaemon now = \<lparr>gSessions = newDaemonSessions,
     gOut = \<lparr>transcripts = [], uiQueue = [], status = fst (newStatusReporter now), sources = snd (newStatusReporter now)\<rparr>,
     gPause = newPauseController, gIdentity = freshCache, gDNS = [], gBurst = False\<rparr>"

record DaemonProcess =
  dpSocket :: string
  dpDaemon :: Daemon
  dpStatus :: FullStatus
  dpProxy :: "ProxyServer option"
  dpObservers :: Observers

definition daemonMain :: "StartHost \<Rightarrow> InspectStatus \<Rightarrow> (os_error + DaemonProcess) io" where
  "daemonMain h noInspect = attempt (openSocket h) (\<lambda>sock.
     let g = freshDaemon (clNow h)
     in do {
       (proxy, full) \<leftarrow> startInspectProxyIfEnabled h (gSessions g)
         (writeLocked (clNow h) (Status.extend (status (gOut g)) (FullStatus.fields noInspect)));
       State_Monad.return (Inr \<lparr>dpSocket = sock, dpDaemon = g, dpStatus = full, dpProxy = proxy, dpObservers = startObservers h\<rparr>) })"

section \<open>Lemmas\<close>

text \<open>Programs that leave the umask alone.\<close>

definition keepsUmask :: "'a io \<Rightarrow> bool" where
  "keepsUmask m \<longleftrightarrow> (\<forall>s. osUmask (snd (run_state m s)) = osUmask s)"

named_theorems umask_intros \<open>programs that leave the umask alone\<close>

lemma keepsUmask_return [umask_intros]: "keepsUmask (State_Monad.return x)"
  by (simp add: keepsUmask_def)

lemma keepsUmask_bind [umask_intros]: "keepsUmask m \<Longrightarrow> (\<And>x. keepsUmask (k x)) \<Longrightarrow> keepsUmask (State_Monad.bind m k)"
  by (simp add: keepsUmask_def case_prod_beta)

lemma keepsUmask_syscall: "(\<And>s. osUmask (snd (f s)) = osUmask s) \<Longrightarrow> keepsUmask (syscall f)"
  by (auto simp: keepsUmask_def syscall_def pop_fault_def split: option.split)

lemma make_dirs_umask: "osUmask (snd (make_dirs perm ps s)) = osUmask s"
  by (induction perm ps s rule: make_dirs.induct) (auto simp: set_node_def split: option.split)

lemma keepsUmask_calls [umask_intros]: "keepsUmask (MkdirAll p perm)" "keepsUmask (Chmod p perm)" "keepsUmask (Remove p)"
  unfolding MkdirAll_def Chmod_def Remove_def
  by (auto intro!: keepsUmask_syscall simp: make_dirs_umask set_node_def split: option.split node.split)

lemma keepsUmask_paths [umask_intros]: "keepsUmask (privateState e)" "keepsUmask (SocketPath e)"
  by (auto simp: privateState_def SocketPath_def supportFile_def ensurePrivateDir_def intro!: umask_intros split: option.split)

lemma wp_keepsUmask: "keepsUmask m \<Longrightarrow> (\<And>r s'. osUmask s' = osUmask s \<Longrightarrow> Q r s') \<Longrightarrow> wp m Q s"
  by (simp add: keepsUmask_def wp_def case_prod_beta)

lemma wp_Umask: "wp (Umask m) Q s = Q () (s\<lparr>osUmask := m\<rparr>)"
  by (simp add: wp_def Umask_def)

definition privateNode :: "OS \<Rightarrow> string \<Rightarrow> bool" where
  "privateNode s p = (case node_at s p of Some n \<Rightarrow> nodeMode n AND privateUmask = 0 | None \<Rightarrow> False)"

lemma private_modes: "(perm777 AND NOT privateUmask) AND privateUmask = 0" "perm600 AND privateUmask = 0"
  by (simp_all add: perm777_def privateUmask_def perm600_def)

definition socketPost :: "os_error + string \<Rightarrow> OS \<Rightarrow> bool" where
  "socketPost r s' = (case r of Inl _ \<Rightarrow> True | Inr sock \<Rightarrow> privateNode s' sock)"

lemma wp_openSocket: "wp (openSocket e) socketPost s"
proof -
  have bound: "wp (do { _ \<leftarrow> Chmod sock perm600; State_Monad.return (Inr sock) })
      socketPost s1" if "privateNode s1 sock" for sock s1
    using that private_modes(2) unfolding wp_bind
    by (intro wp_Chmod) (auto simp: wp_simps socketPost_def privateNode_def split: option.split_asm)
  have listen: "wp (ListenUnix sock) (\<lambda>r s'. r = Inr () \<longrightarrow> privateNode s' sock) s1" if "osUmask s1 = privateUmask" for sock s1
    using that private_modes(1)
    by (auto simp: wp_def ListenUnix_def syscall_def privateNode_def set_node_def pop_fault_def split: option.split)
  have "wp (attempt (ListenUnix sock) (\<lambda>_. do { _ \<leftarrow> Chmod sock perm600; State_Monad.return (Inr sock) }))
      socketPost s1" if "osUmask s1 = privateUmask" for sock s1
    unfolding wp_attempt by (rule wp_mono [OF listen [OF that]]) (auto split: sum.split intro: bound simp: socketPost_def [of "Inl _"])
  note listening = this
  show ?thesis
    unfolding openSocket_def wp_bind wp_Umask
  proof (rule wp_keepsUmask [OF keepsUmask_paths(1)], goal_cases)
    case (1 r1 s1)
    show ?case
    proof (rule wp_keepsUmask [OF keepsUmask_paths(2)], goal_cases)
      case (1 sock s2)
      show ?case
        by (rule wp_keepsUmask [OF keepsUmask_calls(3)], rule listening) (use \<open>osUmask s1 = _\<close> \<open>osUmask s2 = _\<close> in simp)
    qed
  qed
qed

lemma connections_bounded: "fst (fold (\<lambda>ev c. connection_step c ev) evs (0, 0)) \<le> MaxDaemonSocketConnections"
proof -
  have "fst c \<le> MaxDaemonSocketConnections \<Longrightarrow> fst (fold (\<lambda>ev c. connection_step c ev) evs c) \<le> MaxDaemonSocketConnections" for c
  proof (induction evs arbitrary: c)
    case (Cons ev evs)
    have "fst (connection_step c ev) \<le> MaxDaemonSocketConnections" using Cons.prems by (cases c; cases ev) auto
    then show ?case using Cons.IH by simp
  qed simp
  then show ?thesis by simp
qed

text \<open>Exactly one of the two connection observers runs while \<open>lsof\<close> is allowed, and \<open>lsof\<close> is started once at most.\<close>

lemma observers_alternate:
  "let ob = fold (\<lambda>cancelled. startNetworkStatisticsObserver e cancelled) (replicate n False) (startObservers e)
   in obLsofStarts ob \<le> 1 \<and> (lsofNetworkObserverEnabled e \<longrightarrow> (obLsofStarts ob = 1 \<longleftrightarrow> \<not> obNettop ob))"
proof -
  let ?ok = "\<lambda>ob. obLsofStarts ob \<le> 1 \<and> (lsofNetworkObserverEnabled e \<longrightarrow> (obLsofStarts ob = 1 \<longleftrightarrow> \<not> obNettop ob))"
  have start: "?ok (startObservers e)" by (auto simp: startObservers_def startLsofFallback_def Let_def)
  have step: "?ok (startNetworkStatisticsObserver e False ob)" if "?ok ob" for ob
    using that by (auto simp: startNetworkStatisticsObserver_def startLsofFallback_def Let_def)
  have "?ok ob \<Longrightarrow> ?ok (fold (\<lambda>cancelled. startNetworkStatisticsObserver e cancelled) (replicate n False) ob)" for ob
    using step by (induction n arbitrary: ob) auto
  then show ?thesis using start by (simp add: Let_def)
qed

text \<open>The loops are runs of the daemon's machine, so its invariant holds whatever they deliver.\<close>

lemma run_lsofWakeup:
  assumes "daemon_run e (snd st)" "case w of LsofTick i \<Rightarrow> wf_map (items (fst (snd i))) | LsofBurst is \<Rightarrow> \<forall>i \<in> set is. wf_map (items (fst (snd i)))"
  shows "daemon_run e (snd (lsofWakeup e w st))"
proof -
  have poll: "daemon_run e (snd (pollWith e i st))" if "daemon_run e (snd st)" "wf_map (items (fst (snd i)))" for i st
  proof -
    obtain clk snapshot out ob g where [simp]: "i = (clk, snapshot, out)" "st = (ob, g)" by (metis prod.exhaust)
    obtain ob' g' where "lsofPoll e clk snapshot out (ob, g) = (ob', g')" by fastforce
    then show ?thesis using that daemon_step.Poll [of snapshot e clk out ob g ob' g'] by (auto simp: pollWith_def intro: daemon_run_step)
  qed
  have polls: "daemon_run e (snd (fold (pollWith e) is st))" if "\<forall>i \<in> set is. wf_map (items (fst (snd i)))" "daemon_run e (snd st)" for "is" st
    using that poll by (induction "is" arbitrary: st) auto
  show ?thesis using assms poll polls [of "take LsofHookBurstPolls _" st] in_set_takeD by (cases w) (simp, fastforce)
qed

text \<open>Once the socket is bound nothing else can keep the daemon from starting.\<close>

lemma daemonMain_total:
  assumes "run_state (openSocket h) s = (Inr sock, s1)"
  shows "\<exists>dp s'. run_state (daemonMain h noInspect) s = (Inr dp, s') \<and> dpSocket dp = sock"
proof -
  let ?full = "writeLocked (clNow h) (Status.extend (status (gOut (freshDaemon (clNow h)))) (FullStatus.fields noInspect))"
  obtain proxy full s2 where "run_state (startInspectProxyIfEnabled h (gSessions (freshDaemon (clNow h))) ?full) s1 = ((proxy, full), s2)"
    by (metis prod.exhaust)
  with assms show ?thesis by (simp add: daemonMain_def attempt_def Let_def)
qed

section \<open>Properties\<close>

text \<open>C11. The daemon starts closed and watching. Whatever calls fail on the way, when it starts, right after
  binding the socket nobody but its owner has any access to it, the state the handlers begin with is a state of
  the daemon's machine in which sensing is live, and a proxy, if there is one, is guarded.\<close>

theorem daemon_starts_private:
  assumes "run_state (daemonMain h noInspect) s = (Inr dp, s')" "shRandom h \<noteq> Some []"
  shows "(\<exists>s1. run_state (openSocket h) s = (Inr (dpSocket dp), s1) \<and> privateNode s1 (dpSocket dp)) \<and>
    daemon_run e (dpDaemon dp) \<and> \<not> Paused (gPause (dpDaemon dp)) \<and>
    (case dpProxy dp of None \<Rightarrow> True | Some sv \<Rightarrow> guarded h sv)"
proof -
  obtain r s1 where opened: "run_state (openSocket h) s = (r, s1)" by fastforce
  obtain sock where r: "r = Inr sock"
    using assms(1) opened by (cases r) (auto simp: daemonMain_def attempt_def)
  let ?full = "writeLocked (clNow h) (Status.extend (status (gOut (freshDaemon (clNow h)))) (FullStatus.fields noInspect))"
  obtain proxy full s2 where proxy: "run_state (startInspectProxyIfEnabled h (gSessions (freshDaemon (clNow h))) ?full) s1 = ((proxy, full), s2)"
    by (metis prod.exhaust)
  have dp: "dp = \<lparr>dpSocket = sock, dpDaemon = freshDaemon (clNow h), dpStatus = full, dpProxy = proxy, dpObservers = startObservers h\<rparr>"
    using assms(1) opened proxy by (simp add: daemonMain_def attempt_def r Let_def)
  have "privateNode s1 sock" using wp_run [OF wp_openSocket opened] by (simp add: r socketPost_def)
  moreover have "case proxy of None \<Rightarrow> True | Some sv \<Rightarrow> guarded h sv"
    using wp_run [OF wp_startInspectProxy [OF assms(2)] proxy] by (auto simp: startedPost_def split: option.split)
  moreover have "daemon_run e (freshDaemon now)" for now unfolding freshDaemon_def by (rule daemon_run.Start)
  ultimately show ?thesis
    using opened r by (simp add: dp) (simp add: freshDaemon_def newPauseController_def Paused_def)
qed

theorem daemon_starts_private_witness:
  "\<exists>dp s1 s'. run_state (daemonMain (demoStart\<lparr>peGetenv := (\<lambda>k. if k = ''AGENTSNITCH_SOCK'' then ''/s/k'' else [])\<rparr>) (stInspect demoFullStatus)) demoCliDisk = (Inr dp, s') \<and>
     dpSocket dp = ''/s/k'' \<and> privateNode s1 ''/s/k'' \<and> \<not> Paused (gPause (dpDaemon dp))"
proof -
  let ?h = "demoStart\<lparr>peGetenv := (\<lambda>k. if k = ''AGENTSNITCH_SOCK'' then ''/s/k'' else [])\<rparr>"
  have "fst (run_state (openSocket ?h) demoCliDisk) = Inr ''/s/k''" by code_simp
  then obtain s1 where opened: "run_state (openSocket ?h) demoCliDisk = (Inr ''/s/k'', s1)" by (metis prod.collapse)
  obtain dp s' where run: "run_state (daemonMain ?h (stInspect demoFullStatus)) demoCliDisk = (Inr dp, s')" "dpSocket dp = ''/s/k''"
    using daemonMain_total [OF opened] by blast
  have "shRandom ?h \<noteq> Some []" by (simp add: demoStart_def CliHost.defs StartHost.defs)
  from daemon_starts_private [OF run(1) this, of demoEnv] run show ?thesis by auto
qed

end
