(* ===== verification/Hookmatch.thy ===== *)
theory Hookmatch
  imports Go_Path
begin

text \<open>
  \<open>internal/hookmatch/hookmatch.go\<close> and the quoting of \<open>cmd/hookctl/main.go\<close>: splitting a hook
  command into words, recognising the emitter, and writing the command. Go iterates over runes; the
  bytes of a multi-byte rune are never quotes, spaces or backslashes, so for a command in valid UTF-8 a byte
  is a step here.
\<close>

section \<open>Definitions\<close>

abbreviation squote :: char where "squote \<equiv> CHR 0x27"
abbreviation dquote :: char where "dquote \<equiv> CHR 0x22"
abbreviation bslash :: char where "bslash \<equiv> CHR 0x5C"

definition is_blank :: "char \<Rightarrow> bool" where
  "is_blank r \<longleftrightarrow> r = CHR 0x20 \<or> r = CHR 0x09 \<or> r = CHR 0x0A \<or> r = CHR 0x0D"

record scan =
  scOut :: "string list"
  scB :: string
  scSingle :: bool
  scDouble :: bool
  scEscaped :: bool
  scField :: bool

definition scan_flush :: "scan \<Rightarrow> scan" where
  "scan_flush st = (if scField st then st\<lparr>scOut := scOut st @ [scB st], scB := [], scField := False\<rparr> else st)"

definition scan_step :: "char \<Rightarrow> scan \<Rightarrow> scan" where
  "scan_step r st =
     (if scEscaped st then st\<lparr>scB := scB st @ [r], scField := True, scEscaped := False\<rparr>
      else if r = bslash \<and> \<not> scSingle st then st\<lparr>scEscaped := True, scField := True\<rparr>
      else if r = squote \<and> \<not> scDouble st then st\<lparr>scSingle := \<not> scSingle st, scField := True\<rparr>
      else if r = dquote \<and> \<not> scSingle st then st\<lparr>scDouble := \<not> scDouble st, scField := True\<rparr>
      else if is_blank r \<and> \<not> scSingle st \<and> \<not> scDouble st then scan_flush st
      else st\<lparr>scB := scB st @ [r], scField := True\<rparr>)"

definition scan_start :: scan where
  "scan_start = \<lparr>scOut = [], scB = [], scSingle = False, scDouble = False, scEscaped = False, scField = False\<rparr>"

definition ShellFields :: "string \<Rightarrow> string list option" where
  "ShellFields s =
     (let st = fold scan_step s scan_start
      in if scEscaped st \<or> scSingle st \<or> scDouble st then None else Some (scOut (scan_flush st)))"

definition executableMatchesEmitter :: "string \<Rightarrow> string \<Rightarrow> bool" where
  "executableMatchesEmitter argv00 emitter0 =
     (let argv0 = Clean (TrimSpace argv00); emitter = Clean (TrimSpace emitter0)
      in if argv0 = [] \<or> emitter = [] then False
         else if argv0 = emitter then True
         else CHR ''/'' \<notin> set argv0 \<and> argv0 = Base emitter)"

definition looksLikeAgentSnitchEmitter :: "string \<Rightarrow> bool" where
  "looksLikeAgentSnitchEmitter argv0 =
     (let c = Clean (TrimSpace argv0) in Base c = ''emitter'' \<and> Contains (ToLower c) ''agentsnitch'')"

definition Installed :: "string \<Rightarrow> string \<Rightarrow> string \<Rightarrow> bool" where
  "Installed cmd emitter arg =
     (case ShellFields cmd of
        Some (a0 # a1 # _) \<Rightarrow> executableMatchesEmitter a0 emitter \<and> EqualFold a1 arg
      | _ \<Rightarrow> False)"

definition AgentSnitchCommand :: "string \<Rightarrow> string \<Rightarrow> bool" where
  "AgentSnitchCommand cmd emitter =
     (case ShellFields cmd of
        Some (a0 # _) \<Rightarrow> executableMatchesEmitter a0 emitter \<or> looksLikeAgentSnitchEmitter a0
      | _ \<Rightarrow> False)"

definition is_plain :: "char \<Rightarrow> bool" where
  "is_plain r =
     (let n = of_char r :: nat
      in r \<in> {CHR ''/'', CHR ''_'', CHR ''-'', CHR ''.'', CHR '':''} \<or>
         (48 \<le> n \<and> n \<le> 57) \<or> (65 \<le> n \<and> n \<le> 90) \<or> (97 \<le> n \<and> n \<le> 122))"

text \<open>\<open>strings.ReplaceAll\<close> of the single quote by the close-escape-reopen sequence.\<close>

definition quote_char :: "char \<Rightarrow> string" where
  "quote_char c = (if c = squote then [squote, bslash, squote, squote] else [c])"

definition shellQuote :: "string \<Rightarrow> string" where
  "shellQuote s =
     (if s = [] then [squote, squote]
      else if list_all is_plain s then s
      else [squote] @ concat (map quote_char s) @ [squote])"

definition shellCommand :: "string \<Rightarrow> string \<Rightarrow> string" where
  "shellCommand emitter arg = shellQuote emitter @ '' '' @ arg"

section \<open>Lemmas\<close>

lemma scan_start_simps [simp]:
  "scOut scan_start = []" "scB scan_start = []" "\<not> scSingle scan_start" "\<not> scDouble scan_start"
  "\<not> scEscaped scan_start" "\<not> scField scan_start"
  by (simp_all add: scan_start_def)

lemma is_plain_not_special:
  assumes "is_plain c"
  shows "c \<noteq> bslash" "c \<noteq> squote" "c \<noteq> dquote" "\<not> is_blank c"
  using assms by (auto simp: is_plain_def is_blank_def Let_def)

text \<open>Plain characters are copied into the current word.\<close>

lemma scan_plain:
  assumes "list_all is_plain w" "\<not> scEscaped st" "\<not> scSingle st" "\<not> scDouble st" "w \<noteq> []"
  shows "fold scan_step w st = st\<lparr>scB := scB st @ w, scField := True\<rparr>"
  using assms
proof (induction w arbitrary: st)
  case (Cons c w)
  then have step: "scan_step c st = st\<lparr>scB := scB st @ [c], scField := True\<rparr>"
    using is_plain_not_special [of c] by (simp add: scan_step_def)
  show ?case
  proof (cases "w = []")
    case False
    then show ?thesis using Cons by (simp add: step)
  qed (simp add: step)
qed simp

text \<open>The quoted form of a character, read inside single quotes, is that character.\<close>

lemma scan_quote_char:
  assumes "\<not> scEscaped st" "scSingle st" "\<not> scDouble st"
  shows "fold scan_step (quote_char c) st = st\<lparr>scB := scB st @ [c], scField := True\<rparr>"
proof (cases "c = squote")
  case True
  with assms show ?thesis by (cases st) (simp add: quote_char_def scan_step_def)
next
  case False
  with assms show ?thesis by (simp add: quote_char_def scan_step_def)
qed

lemma scan_quoted:
  assumes "\<not> scEscaped st" "scSingle st" "\<not> scDouble st" "scField st"
  shows "fold scan_step (concat (map quote_char s)) st = st\<lparr>scB := scB st @ s\<rparr>"
  using assms
proof (induction s arbitrary: st)
  case (Cons c s)
  then have "fold scan_step (quote_char c) st = st\<lparr>scB := scB st @ [c]\<rparr>"
    by (simp add: scan_quote_char)
  with Cons show ?case by simp
qed simp

lemma scan_shellQuote:
  "fold scan_step (shellQuote s) scan_start = scan_start\<lparr>scB := s, scField := True\<rparr>"
proof -
  consider (empty) "s = []" | (plain) "s \<noteq> []" "list_all is_plain s" | (quoted) "s \<noteq> []" "\<not> list_all is_plain s" by blast
  then show ?thesis
  proof cases
    case empty
    then show ?thesis by (simp add: shellQuote_def scan_step_def scan_start_def)
  next
    case plain
    then have "fold scan_step s scan_start = scan_start\<lparr>scB := scB scan_start @ s, scField := True\<rparr>"
      by (intro scan_plain) (simp_all add: scan_start_def)
    with plain show ?thesis by (simp add: shellQuote_def)
  next
    case quoted
    let ?st = "scan_start\<lparr>scSingle := True, scField := True\<rparr>"
    have "fold scan_step (concat (map quote_char s)) ?st = ?st\<lparr>scB := scB ?st @ s\<rparr>"
      by (intro scan_quoted) (simp_all add: scan_start_def)
    with quoted show ?thesis by (simp add: shellQuote_def scan_step_def scan_start_def)
  qed
qed

lemma ShellFields_shellQuote: "ShellFields (shellQuote s) = Some [s]"
  by (simp add: ShellFields_def scan_shellQuote scan_flush_def Let_def)

lemma ShellFields_shellCommand:
  assumes "list_all is_plain arg" "arg \<noteq> []"
  shows "ShellFields (shellCommand emitter arg) = Some [emitter, arg]"
proof -
  let ?st = "scan_start\<lparr>scOut := [emitter], scB := [], scField := False\<rparr>"
  have "fold scan_step (shellQuote emitter @ '' '') scan_start = ?st"
    by (simp add: scan_shellQuote scan_step_def scan_flush_def is_blank_def)
  moreover have "fold scan_step arg ?st = ?st\<lparr>scB := scB ?st @ arg, scField := True\<rparr>"
    using assms by (intro scan_plain) (simp_all add: scan_start_def)
  ultimately have "fold scan_step (shellCommand emitter arg) scan_start = ?st\<lparr>scB := scB ?st @ arg, scField := True\<rparr>"
    unfolding shellCommand_def by (metis append.assoc fold_append comp_apply)
  then show ?thesis by (simp add: ShellFields_def scan_flush_def Let_def)
qed

lemma executableMatchesEmitter_self [simp]: "executableMatchesEmitter e e"
  by (simp add: executableMatchesEmitter_def Let_def)

lemma Installed_shellCommand: "list_all is_plain arg \<Longrightarrow> arg \<noteq> [] \<Longrightarrow> Installed (shellCommand emitter arg) emitter arg"
  by (simp add: Installed_def ShellFields_shellCommand)

lemma AgentSnitchCommand_shellCommand:
  "list_all is_plain arg \<Longrightarrow> arg \<noteq> [] \<Longrightarrow> AgentSnitchCommand (shellCommand emitter arg) emitter"
  by (simp add: AgentSnitchCommand_def ShellFields_shellCommand)

lemma Installed_AgentSnitchCommand: "Installed cmd emitter arg \<Longrightarrow> AgentSnitchCommand cmd emitter"
  by (auto simp: Installed_def AgentSnitchCommand_def split: option.splits list.splits)

end
