(* ===== verification/Hookctl.thy ===== *)
theory Hookctl
  imports Hookmatch
begin

text \<open>
  \<open>cmd/hookctl/main.go\<close>: installing, removing and checking the AgentSnitch hooks in the settings
  document of Claude Code. The document is a decoded JSON object; reading and writing the file,
  backups and the discovery of the claude binary are in the theory of the files. Go mutates the maps in
  place; here the updated document is returned.
\<close>

section \<open>Definitions\<close>

record hookSpec =
  hsEvent :: string
  hsArg :: string
  hsLabel :: string
  hsDescription :: string

definition preEvent :: string where "preEvent = ''PreToolUse''"
definition postEvent :: string where "postEvent = ''PostToolUse''"

definition allHookSpecs :: "hookSpec list" where
  "allHookSpecs =
     [\<lparr>hsEvent = preEvent, hsArg = ''pretooluse'', hsLabel = ''PreToolUse'',
        hsDescription = ''Records Claude Code tool intent before a tool runs.''\<rparr>,
      \<lparr>hsEvent = postEvent, hsArg = ''posttooluse'', hsLabel = ''PostToolUse'',
        hsDescription = ''Records Claude Code tool result metadata after a tool runs.''\<rparr>]"

record hookStatus =
  stEvent :: string
  stArg :: string
  stLabel :: string
  stDescription :: string
  stDesiredCommand :: string
  stInstalled :: bool
  stUpToDate :: bool
  stStale :: bool
  stCurrentCommand :: string
  stStatus :: string

fun asSlice :: "json option \<Rightarrow> json list" where
  "asSlice (Some (JArr xs)) = xs"
| "asSlice _ = []"

definition hooksMap :: "jobject \<Rightarrow> jobject" where
  "hooksMap doc = (case mget doc ''hooks'' of Some (JObj hooks) \<Rightarrow> hooks | _ \<Rightarrow> [])"

definition commandOf :: "jobject \<Rightarrow> string" where
  "commandOf hook = (case jstring (Some hook) ''command'' of Some cmd \<Rightarrow> cmd | None \<Rightarrow> [])"

definition hookEntry :: "string \<Rightarrow> json" where
  "hookEntry command =
     JObj [(''matcher'', JStr ''''),
           (''hooks'', JArr [JObj [(''type'', JStr ''command''), (''command'', JStr command), (''timeout'', JNum ''5'')]])]"

definition addAgentSnitchHook :: "hookSpec \<Rightarrow> string \<Rightarrow> jobject \<Rightarrow> jobject" where
  "addAgentSnitchHook spec emitter hooks =
     mput (hsEvent spec) (JArr (asSlice (mget hooks (hsEvent spec)) @ [hookEntry (shellCommand emitter (hsArg spec))])) hooks"

text \<open>The inner loops of \<open>removeAgentSnitchHooks\<close>: the commands a group keeps, and the group itself
  unless it keeps none.\<close>

fun keepsCommand :: "string \<Rightarrow> json \<Rightarrow> bool" where
  "keepsCommand emitter (JObj hook) = (\<not> AgentSnitchCommand (commandOf hook) emitter)"
| "keepsCommand emitter _ = True"

fun strippedGroup :: "string \<Rightarrow> json \<Rightarrow> json option" where
  "strippedGroup emitter (JObj grp) =
     (let kept = filter (keepsCommand emitter) (asSlice (mget grp ''hooks''))
      in if kept = [] then None else Some (JObj (mput ''hooks'' (JArr kept) grp)))"
| "strippedGroup emitter v = Some v"

fun removedFrom :: "string \<Rightarrow> json \<Rightarrow> nat" where
  "removedFrom emitter (JObj grp) = length (filter (\<lambda>c. \<not> keepsCommand emitter c) (asSlice (mget grp ''hooks'')))"
| "removedFrom emitter _ = 0"

definition removeFromEvent :: "string \<Rightarrow> string \<Rightarrow> jobject \<Rightarrow> jobject" where
  "removeFromEvent emitter ev hooks =
     (let kept = List.map_filter (strippedGroup emitter) (asSlice (mget hooks ev))
      in if kept = [] then mdel ev hooks else mput ev (JArr kept) hooks)"

definition removeAgentSnitchHooks :: "string \<Rightarrow> hookSpec list \<Rightarrow> jobject \<Rightarrow> nat \<times> jobject" where
  "removeAgentSnitchHooks emitter specs hooks =
     fold (\<lambda>spec (n, h). (n + sum_list (map (removedFrom emitter) (asSlice (mget h (hsEvent spec)))),
                            removeFromEvent emitter (hsEvent spec) h)) specs (0, hooks)"

definition installHooks :: "string \<Rightarrow> hookSpec list \<Rightarrow> jobject \<Rightarrow> jobject" where
  "installHooks emitter specs doc =
     mput ''hooks'' (JObj (fold (\<lambda>spec h. addAgentSnitchHook spec emitter h) specs
                             (snd (removeAgentSnitchHooks emitter specs (hooksMap doc))))) doc"

definition uninstallHooks :: "string \<Rightarrow> hookSpec list \<Rightarrow> jobject \<Rightarrow> nat \<times> jobject" where
  "uninstallHooks emitter specs doc =
     (let r = removeAgentSnitchHooks emitter specs (hooksMap doc) in (fst r, mput ''hooks'' (JObj (snd r)) doc))"

definition missingStatus :: "hookSpec \<Rightarrow> string \<Rightarrow> hookStatus" where
  "missingStatus spec emitter = \<lparr>stEvent = hsEvent spec, stArg = hsArg spec, stLabel = hsLabel spec,
     stDescription = hsDescription spec, stDesiredCommand = shellCommand emitter (hsArg spec),
     stInstalled = False, stUpToDate = False, stStale = False, stCurrentCommand = [], stStatus = ''missing''\<rparr>"

text \<open>The commands \<open>statusForHook\<close> visits, in order, and its loop over them.\<close>

fun commandsOf :: "json \<Rightarrow> string list" where
  "commandsOf (JObj grp) =
     List.map_filter (\<lambda>h. case h of JObj hook \<Rightarrow> Some (commandOf hook) | _ \<Rightarrow> None) (asSlice (mget grp ''hooks''))"
| "commandsOf _ = []"

definition eventCommands :: "jobject \<Rightarrow> string \<Rightarrow> string list" where
  "eventCommands hooks ev = concat (map commandsOf (asSlice (mget hooks ev)))"

fun status_loop :: "string \<Rightarrow> string \<Rightarrow> string list \<Rightarrow> hookStatus \<Rightarrow> hookStatus" where
  "status_loop emitter arg [] st = st"
| "status_loop emitter arg (cmd # cmds) st =
     (if Installed cmd emitter arg
      then st\<lparr>stInstalled := True, stUpToDate := True, stCurrentCommand := cmd, stStatus := ''up_to_date''\<rparr>
      else if AgentSnitchCommand cmd emitter
      then status_loop emitter arg cmds
             (st\<lparr>stInstalled := True, stStale := True, stCurrentCommand := cmd, stStatus := ''stale''\<rparr>)
      else status_loop emitter arg cmds st)"

definition statusForHook :: "jobject \<Rightarrow> hookSpec \<Rightarrow> string \<Rightarrow> hookStatus" where
  "statusForHook hooks spec emitter =
     status_loop emitter (hsArg spec) (eventCommands hooks (hsEvent spec)) (missingStatus spec emitter)"

definition hookInstalled :: "jobject \<Rightarrow> hookSpec \<Rightarrow> string \<Rightarrow> bool" where
  "hookInstalled hooks spec emitter = stUpToDate (statusForHook hooks spec emitter)"

datatype hook_error = UnsupportedHookEvent string | NoHookEvents

fun parse_events :: "(string, hookSpec) gomap \<Rightarrow> string list \<Rightarrow> hookSpec list \<Rightarrow> hook_error + hookSpec list" where
  "parse_events byName [] specs = Inr specs"
| "parse_events byName (raw # raws) specs =
     (case mget byName (ToLower (TrimSpace raw)) of
        None \<Rightarrow> Inl (UnsupportedHookEvent raw)
      | Some spec \<Rightarrow> parse_events byName raws
          (if hsEvent spec \<in> hsEvent ` set specs then specs else specs @ [spec]))"

definition parseHookEvents :: "string \<Rightarrow> hook_error + hookSpec list" where
  "parseHookEvents csv =
     (if TrimSpace csv = [] then Inr allHookSpecs
      else
        let byName = fold (\<lambda>spec m. mput (ToLower (hsArg spec)) spec (mput (ToLower (hsEvent spec)) spec m)) allHookSpecs []
        in case parse_events byName (Split csv '','') [] of
             Inl err \<Rightarrow> Inl err
           | Inr specs \<Rightarrow> if specs = [] then Inl NoHookEvents else Inr specs)"

definition normalizeAgentName :: "string \<Rightarrow> string" where
  "normalizeAgentName agent =
     (let a = ToLower (TrimSpace agent)
      in if a \<in> {'''', ''claude'', ''claude-code'', ''claudecode''} then ''claude''
         else if a \<in> {''all'', ''*''} then ''all'' else a)"

section \<open>Lemmas: what a document keeps\<close>

lemma status_loop_UpToDate:
  "stUpToDate (status_loop emitter arg cmds st) \<longleftrightarrow> stUpToDate st \<or> (\<exists>cmd \<in> set cmds. Installed cmd emitter arg)"
  by (induction cmds arbitrary: st) auto

lemma status_loop_none:
  "(\<And>cmd. cmd \<in> set cmds \<Longrightarrow> \<not> AgentSnitchCommand cmd emitter) \<Longrightarrow> status_loop emitter arg cmds st = st"
  by (induction cmds arbitrary: st) (auto dest: Installed_AgentSnitchCommand)

lemma hookInstalled_iff:
  "hookInstalled hooks spec emitter \<longleftrightarrow> (\<exists>cmd \<in> set (eventCommands hooks (hsEvent spec)). Installed cmd emitter (hsArg spec))"
  by (simp add: hookInstalled_def statusForHook_def status_loop_UpToDate missingStatus_def)

lemma commandsOf_hookEntry [simp]: "commandsOf (hookEntry cmd) = [cmd]"
  by (simp add: hookEntry_def commandOf_def jstring_def List.map_filter_def)

lemma set_map_filter: "set (List.map_filter f xs) = {y. \<exists>x \<in> set xs. f x = Some y}"
  by (auto simp: List.map_filter_def) force

text \<open>Stripping a group removes exactly its AgentSnitch commands.\<close>

lemma strippedGroup_commands:
  "strippedGroup emitter g = Some g' \<Longrightarrow>
     commandsOf g' = filter (\<lambda>c. \<not> AgentSnitchCommand c emitter) (commandsOf g)"
proof (cases g)
  case (JObj grp)
  have "List.map_filter (\<lambda>h. case h of JObj hook \<Rightarrow> Some (commandOf hook) | _ \<Rightarrow> None) (filter (keepsCommand emitter) hs) =
      filter (\<lambda>c. \<not> AgentSnitchCommand c emitter)
        (List.map_filter (\<lambda>h. case h of JObj hook \<Rightarrow> Some (commandOf hook) | _ \<Rightarrow> None) hs)" for hs
    by (induction hs) (auto simp: List.map_filter_def split: json.splits)
  moreover assume "strippedGroup emitter g = Some g'"
  ultimately show ?thesis using JObj by (auto simp: Let_def split: if_split_asm)
qed auto

lemma not_keepsCommand: "\<not> keepsCommand emitter h \<longleftrightarrow> (\<exists>hook. h = JObj hook \<and> AgentSnitchCommand (commandOf hook) emitter)"
  by (cases h) auto

lemma strippedGroup_None:
  assumes "strippedGroup emitter g = None"
  shows "filter (\<lambda>c. \<not> AgentSnitchCommand c emitter) (commandsOf g) = []"
proof (cases g)
  case (JObj grp)
  with assms have all: "\<And>h. h \<in> set (asSlice (mget grp ''hooks'')) \<Longrightarrow> \<not> keepsCommand emitter h"
    by (auto simp: Let_def filter_empty_conv split: if_split_asm)
  have "AgentSnitchCommand c emitter" if "c \<in> set (commandsOf g)" for c
  proof -
    from that JObj obtain h where h: "h \<in> set (asSlice (mget grp ''hooks''))"
      "(case h of JObj hook \<Rightarrow> Some (commandOf hook) | _ \<Rightarrow> None) = Some c"
      by (auto simp: set_map_filter)
    from all [OF h(1)] obtain hook where "h = JObj hook" "AgentSnitchCommand (commandOf hook) emitter"
      unfolding not_keepsCommand by blast
    with h(2) show ?thesis by simp
  qed
  then show ?thesis by (simp add: filter_empty_conv)
qed (use assms in auto)

lemma concat_commandsOf_stripped:
  "concat (map commandsOf (List.map_filter (strippedGroup emitter) gs)) =
     filter (\<lambda>c. \<not> AgentSnitchCommand c emitter) (concat (map commandsOf gs))"
proof (induction gs)
  case (Cons g gs)
  then show ?case
    by (cases "strippedGroup emitter g")
       (simp_all add: List.map_filter_def strippedGroup_None strippedGroup_commands)
qed (simp add: List.map_filter_def)

lemma eventCommands_removeFromEvent:
  "eventCommands (removeFromEvent emitter ev hooks) ev' =
     (if ev' = ev then filter (\<lambda>c. \<not> AgentSnitchCommand c emitter) (eventCommands hooks ev) else eventCommands hooks ev')"
proof (cases "List.map_filter (strippedGroup emitter) (asSlice (mget hooks ev)) = []")
  case True
  then show ?thesis
    using concat_commandsOf_stripped [of emitter "asSlice (mget hooks ev)"]
    by (simp add: eventCommands_def removeFromEvent_def)
next
  case False
  then show ?thesis
    using concat_commandsOf_stripped [of emitter "asSlice (mget hooks ev)"]
    by (simp add: eventCommands_def removeFromEvent_def Let_def)
qed

lemma snd_removeAgentSnitchHooks:
  "snd (removeAgentSnitchHooks emitter specs hooks) = fold (\<lambda>spec h. removeFromEvent emitter (hsEvent spec) h) specs hooks"
proof -
  have "snd (fold (\<lambda>spec (n, h). (n + f spec h, removeFromEvent emitter (hsEvent spec) h)) specs (m, hooks)) =
      fold (\<lambda>spec h. removeFromEvent emitter (hsEvent spec) h) specs hooks" for m :: nat and f
    by (induction specs arbitrary: m hooks) simp_all
  then show ?thesis unfolding removeAgentSnitchHooks_def by (simp add: case_prod_beta)
qed

lemma eventCommands_removed:
  "eventCommands (snd (removeAgentSnitchHooks emitter specs hooks)) ev =
     (if ev \<in> hsEvent ` set specs then filter (\<lambda>c. \<not> AgentSnitchCommand c emitter) (eventCommands hooks ev)
      else eventCommands hooks ev)"
  unfolding snd_removeAgentSnitchHooks
  by (induction specs arbitrary: hooks) (auto simp: eventCommands_removeFromEvent)

lemma eventCommands_add:
  "eventCommands (addAgentSnitchHook spec emitter hooks) ev =
     eventCommands hooks ev @ (if ev = hsEvent spec then [shellCommand emitter (hsArg spec)] else [])"
  by (simp add: eventCommands_def addAgentSnitchHook_def)

lemma eventCommands_add_all:
  "eventCommands (fold (\<lambda>spec h. addAgentSnitchHook spec emitter h) specs hooks) ev =
     eventCommands hooks ev @ map (\<lambda>spec. shellCommand emitter (hsArg spec)) (filter (\<lambda>spec. hsEvent spec = ev) specs)"
  by (induction specs arbitrary: hooks) (auto simp: eventCommands_add)

lemma hooksMap_put [simp]: "hooksMap (mput ''hooks'' (JObj h) doc) = h"
  by (simp add: hooksMap_def)

lemma eventCommands_install:
  "eventCommands (hooksMap (installHooks emitter specs doc)) ev =
     (if ev \<in> hsEvent ` set specs
      then filter (\<lambda>c. \<not> AgentSnitchCommand c emitter) (eventCommands (hooksMap doc) ev)
      else eventCommands (hooksMap doc) ev) @
     map (\<lambda>spec. shellCommand emitter (hsArg spec)) (filter (\<lambda>spec. hsEvent spec = ev) specs)"
  by (simp add: installHooks_def eventCommands_add_all eventCommands_removed)

lemma mget_installHooks_other: "k \<noteq> ''hooks'' \<Longrightarrow> mget (installHooks emitter specs doc) k = mget doc k"
  by (simp add: installHooks_def)

section \<open>Groups\<close>

text \<open>What an edit may do to the group of an event: take out commands of AgentSnitch and nothing else. A group that is left
  without commands goes away.\<close>

definition ours :: "string \<Rightarrow> json \<Rightarrow> bool" where
  "ours emitter h \<longleftrightarrow> (case h of JObj hook \<Rightarrow> AgentSnitchCommand (commandOf hook) emitter | _ \<Rightarrow> False)"

definition holdsForeign :: "string \<Rightarrow> json \<Rightarrow> bool" where
  "holdsForeign emitter g \<longleftrightarrow> (case g of JObj grp \<Rightarrow> list_ex (\<lambda>h. \<not> ours emitter h) (asSlice (mget grp ''hooks'')) | _ \<Rightarrow> True)"

definition sameButOurs :: "string \<Rightarrow> json \<Rightarrow> json \<Rightarrow> bool" where
  "sameButOurs emitter g g' \<longleftrightarrow>
     (case g of
        JObj grp \<Rightarrow> (\<exists>grp'. g' = JObj grp' \<and> (\<forall>k. k \<noteq> ''hooks'' \<longrightarrow> mget grp' k = mget grp k) \<and>
          mget grp' ''hooks'' = Some (JArr (filter (\<lambda>h. \<not> ours emitter h) (asSlice (mget grp ''hooks'')))))
      | _ \<Rightarrow> g' = g)"

lemma keepsCommand_ours: "keepsCommand emitter = (\<lambda>h. \<not> ours emitter h)"
proof
  show "keepsCommand emitter h = (\<not> ours emitter h)" for h by (cases h) (simp_all add: ours_def)
qed

lemma stripped_group:
  "if holdsForeign emitter g then \<exists>g'. strippedGroup emitter g = Some g' \<and> sameButOurs emitter g g' else strippedGroup emitter g = None"
  by (cases g) (auto simp: holdsForeign_def sameButOurs_def keepsCommand_ours Let_def list_ex_iff filter_empty_conv)

lemma stripped_groups:
  "list_all2 (sameButOurs emitter) (filter (holdsForeign emitter) gs) (List.map_filter (strippedGroup emitter) gs)"
proof (induction gs)
  case (Cons g gs)
  then show ?case using stripped_group [of emitter g] by (auto simp: List.map_filter_def split: if_splits)
qed (simp add: List.map_filter_def)

lemma slice_removeFromEvent:
  "asSlice (mget (removeFromEvent emitter ev hooks) ev) = List.map_filter (strippedGroup emitter) (asSlice (mget hooks ev))"
  "ev' \<noteq> ev \<Longrightarrow> mget (removeFromEvent emitter ev hooks) ev' = mget hooks ev'"
  by (simp_all add: removeFromEvent_def Let_def)

lemma mget_addAgentSnitchHook:
  "mget (addAgentSnitchHook spec emitter h) ev =
     (if ev = hsEvent spec then Some (JArr (asSlice (mget h ev) @ [hookEntry (shellCommand emitter (hsArg spec))])) else mget h ev)"
  by (simp add: addAgentSnitchHook_def)

lemma edits_other_event:
  assumes "ev \<notin> hsEvent ` set specs"
  shows "mget (fold (\<lambda>spec h. removeFromEvent emitter (hsEvent spec) h) specs h) ev = mget h ev"
    "mget (fold (\<lambda>spec h. addAgentSnitchHook spec emitter h) specs h) ev = mget h ev"
  using assms by (induction specs arbitrary: h) (simp_all add: slice_removeFromEvent(2) mget_addAgentSnitchHook)

lemma installed_event:
  assumes "distinct (map hsEvent specs)" "spec \<in> set specs"
  shows "mget (hooksMap (installHooks emitter specs doc)) (hsEvent spec) =
    Some (JArr (List.map_filter (strippedGroup emitter) (asSlice (mget (hooksMap doc) (hsEvent spec))) @ [hookEntry (shellCommand emitter (hsArg spec))]))"
proof -
  have removed: "asSlice (mget (fold (\<lambda>spec h. removeFromEvent emitter (hsEvent spec) h) sps h) (hsEvent spec)) =
      List.map_filter (strippedGroup emitter) (asSlice (mget h (hsEvent spec)))" if "spec \<in> set sps" "distinct (map hsEvent sps)" for sps h
    using that
  proof (induction sps arbitrary: h)
    case (Cons sp sps)
    then show ?case
    proof (cases "sp = spec")
      case True
      then show ?thesis using Cons.prems(2) by (simp add: edits_other_event(1) slice_removeFromEvent(1))
    next
      case False
      then have "hsEvent spec \<noteq> hsEvent sp" using Cons.prems by (auto simp: image_iff)
      then show ?thesis using Cons False by (simp add: slice_removeFromEvent(2))
    qed
  qed simp
  have added: "mget (fold (\<lambda>spec h. addAgentSnitchHook spec emitter h) sps h) (hsEvent spec) =
      Some (JArr (asSlice (mget h (hsEvent spec)) @ [hookEntry (shellCommand emitter (hsArg spec))]))"
    if "spec \<in> set sps" "distinct (map hsEvent sps)" for sps h
    using that
  proof (induction sps arbitrary: h)
    case (Cons sp sps)
    then show ?case
    proof (cases "sp = spec")
      case True
      then show ?thesis using Cons.prems(2) by (simp add: edits_other_event(2) mget_addAgentSnitchHook)
    next
      case False
      then have "hsEvent spec \<noteq> hsEvent sp" using Cons.prems by (auto simp: image_iff)
      then show ?thesis using Cons False by (simp add: mget_addAgentSnitchHook)
    qed
  qed simp
  show ?thesis using added [OF assms(2,1)] removed [OF assms(2,1)] by (simp add: installHooks_def snd_removeAgentSnitchHooks)
qed

lemma installed_other_event:
  "ev \<notin> hsEvent ` set specs \<Longrightarrow> mget (hooksMap (installHooks emitter specs doc)) ev = mget (hooksMap doc) ev"
  by (simp add: installHooks_def snd_removeAgentSnitchHooks edits_other_event)

section \<open>Properties\<close>

lemma allHookSpecs_plain: "spec \<in> set allHookSpecs \<Longrightarrow> list_all is_plain (hsArg spec) \<and> hsArg spec \<noteq> []"
proof -
  have "list_all (\<lambda>spec. list_all is_plain (hsArg spec) \<and> hsArg spec \<noteq> []) allHookSpecs" by code_simp
  then show "spec \<in> set allHookSpecs \<Longrightarrow> list_all is_plain (hsArg spec) \<and> hsArg spec \<noteq> []" by (simp add: list_all_iff)
qed

lemma allHookSpecs_event: "spec \<in> set allHookSpecs \<Longrightarrow> filter (\<lambda>sp. hsEvent sp = hsEvent spec) allHookSpecs = [spec]"
  by (auto simp: allHookSpecs_def preEvent_def postEvent_def)

lemma hookInstalled_install:
  "spec \<in> set allHookSpecs \<Longrightarrow> hookInstalled (hooksMap (installHooks emitter allHookSpecs doc)) spec emitter"
  using Installed_shellCommand [of "hsArg spec" emitter] allHookSpecs_plain [of spec]
  by (simp add: hookInstalled_iff eventCommands_install allHookSpecs_event)

text \<open>C26. The command hookctl writes is read back as written: for every emitter path, whatever characters
  it contains, and every plain argument, splitting the quoted command gives exactly the emitter and the
  argument, and the verifier recognises it.\<close>

theorem hook_command_roundtrip:
  assumes "list_all is_plain arg" "arg \<noteq> []"
  shows "ShellFields (shellQuote emitter) = Some [emitter] \<and>
    ShellFields (shellCommand emitter arg) = Some [emitter, arg] \<and>
    Installed (shellCommand emitter arg) emitter arg \<and> AgentSnitchCommand (shellCommand emitter arg) emitter"
  using assms
  by (simp add: ShellFields_shellQuote ShellFields_shellCommand Installed_shellCommand AgentSnitchCommand_shellCommand)

theorem hook_command_roundtrip_witness:
  "ShellFields (shellCommand ''/Users/o'' ''pretooluse'') = Some [''/Users/o'', ''pretooluse'']"
  using hook_command_roundtrip [of "''pretooluse''" "''/Users/o''"] by (simp add: is_plain_def Let_def)

text \<open>C25. Installing is exact. For each hook event the commands of other tools stay, in their order, followed by exactly one
  AgentSnitch command, which then verifies as installed; every group that holds something foreign keeps its place,
  its other members and its foreign entries as they are, and one new group follows. The groups of other events, the other
  settings and, once installed, the commands of a second installation are untouched.\<close>

theorem install_is_exact:
  assumes "spec \<in> set allHookSpecs"
  shows "eventCommands (hooksMap (installHooks emitter allHookSpecs doc)) (hsEvent spec) =
      filter (\<lambda>c. \<not> AgentSnitchCommand c emitter) (eventCommands (hooksMap doc) (hsEvent spec)) @
      [shellCommand emitter (hsArg spec)] \<and>
    hookInstalled (hooksMap (installHooks emitter allHookSpecs doc)) spec emitter \<and>
    (\<exists>groups. mget (hooksMap (installHooks emitter allHookSpecs doc)) (hsEvent spec) =
        Some (JArr (groups @ [hookEntry (shellCommand emitter (hsArg spec))])) \<and>
      list_all2 (sameButOurs emitter) (filter (holdsForeign emitter) (asSlice (mget (hooksMap doc) (hsEvent spec)))) groups) \<and>
    (\<forall>ev. ev \<noteq> ''PreToolUse'' \<and> ev \<noteq> ''PostToolUse'' \<longrightarrow>
      mget (hooksMap (installHooks emitter allHookSpecs doc)) ev = mget (hooksMap doc) ev) \<and>
    (\<forall>k. k \<noteq> ''hooks'' \<longrightarrow> mget (installHooks emitter allHookSpecs doc) k = mget doc k) \<and>
    eventCommands (hooksMap (installHooks emitter allHookSpecs (installHooks emitter allHookSpecs doc))) (hsEvent spec) =
      eventCommands (hooksMap (installHooks emitter allHookSpecs doc)) (hsEvent spec)"
proof -
  have E: "eventCommands (hooksMap (installHooks emitter allHookSpecs d)) (hsEvent spec) =
      filter (\<lambda>c. \<not> AgentSnitchCommand c emitter) (eventCommands (hooksMap d) (hsEvent spec)) @
      [shellCommand emitter (hsArg spec)]" for d
    using assms by (simp add: eventCommands_install allHookSpecs_event)
  note arg = allHookSpecs_plain [OF assms]
  have events: "distinct (map hsEvent allHookSpecs)" "hsEvent ` set allHookSpecs = {''PreToolUse'', ''PostToolUse''}"
    by (simp_all add: allHookSpecs_def preEvent_def postEvent_def)
  have "ev \<noteq> ''PreToolUse'' \<and> ev \<noteq> ''PostToolUse'' \<longrightarrow>
      mget (hooksMap (installHooks emitter allHookSpecs doc)) ev = mget (hooksMap doc) ev" for ev
    using installed_other_event [of ev allHookSpecs] events(2) by simp
  moreover note installed_event [OF events(1) assms] stripped_groups
  ultimately show ?thesis
    using AgentSnitchCommand_shellCommand [of "hsArg spec" emitter] arg
    by (simp add: E hookInstalled_install [OF assms] mget_installHooks_other)
qed

definition demoSettings :: jobject where
  "demoSettings = [(''model'', JStr ''opus''), (''hooks'', JObj [(preEvent, JArr [hookEntry ''/usr/bin/audit log'']), (''Stop'', JArr [hookEntry ''/usr/bin/bell''])])]"

theorem install_is_exact_witness:
  "eventCommands (hooksMap (installHooks ''/opt/emitter'' allHookSpecs demoSettings)) preEvent =
     [''/usr/bin/audit log'', ''/opt/emitter pretooluse''] \<and>
   mget (hooksMap (installHooks ''/opt/emitter'' allHookSpecs demoSettings)) ''Stop'' = Some (JArr [hookEntry ''/usr/bin/bell''])"
proof -
  have m: "hd allHookSpecs \<in> set allHookSpecs" by (simp add: allHookSpecs_def)
  have "hsEvent (hd allHookSpecs) = preEvent" "hsArg (hd allHookSpecs) = ''pretooluse''" by (simp_all add: allHookSpecs_def)
  moreover have "filter (\<lambda>c. \<not> AgentSnitchCommand c ''/opt/emitter'') (eventCommands (hooksMap demoSettings) preEvent) =
      [''/usr/bin/audit log'']" by code_simp
  moreover have "shellCommand ''/opt/emitter'' ''pretooluse'' = ''/opt/emitter pretooluse''" by code_simp
  moreover have "mget (hooksMap demoSettings) ''Stop'' = Some (JArr [hookEntry ''/usr/bin/bell''])" by code_simp
  ultimately show ?thesis using install_is_exact [OF m, of "''/opt/emitter''" demoSettings] by simp
qed

text \<open>Uninstalling removes every AgentSnitch command of the selected events and nothing else: the
  commands that stay are the foreign ones in their order, the status of each event is missing, and
  events that were not selected and other settings are untouched.\<close>

theorem uninstall_is_exact:
  assumes "spec \<in> set specs"
  shows "eventCommands (hooksMap (snd (uninstallHooks emitter specs doc))) (hsEvent spec) =
      filter (\<lambda>c. \<not> AgentSnitchCommand c emitter) (eventCommands (hooksMap doc) (hsEvent spec)) \<and>
    statusForHook (hooksMap (snd (uninstallHooks emitter specs doc))) spec emitter = missingStatus spec emitter \<and>
    (\<forall>ev. ev \<notin> hsEvent ` set specs \<longrightarrow>
      eventCommands (hooksMap (snd (uninstallHooks emitter specs doc))) ev = eventCommands (hooksMap doc) ev) \<and>
    (\<forall>k. k \<noteq> ''hooks'' \<longrightarrow> mget (snd (uninstallHooks emitter specs doc)) k = mget doc k)"
proof -
  have E: "eventCommands (hooksMap (snd (uninstallHooks emitter specs doc))) ev =
     (if ev \<in> hsEvent ` set specs then filter (\<lambda>c. \<not> AgentSnitchCommand c emitter) (eventCommands (hooksMap doc) ev)
      else eventCommands (hooksMap doc) ev)" for ev
    by (simp add: uninstallHooks_def Let_def eventCommands_removed)
  have "statusForHook (hooksMap (snd (uninstallHooks emitter specs doc))) spec emitter = missingStatus spec emitter"
    unfolding statusForHook_def by (rule status_loop_none) (use assms in \<open>simp add: E\<close>)
  moreover have "mget (snd (uninstallHooks emitter specs doc)) k = mget doc k" if "k \<noteq> ''hooks''" for k
    using that by (simp add: uninstallHooks_def Let_def)
  ultimately show ?thesis using assms by (simp add: E)
qed

theorem uninstall_is_exact_witness:
  "eventCommands (hooksMap (snd (uninstallHooks ''/opt/emitter'' allHookSpecs
     (installHooks ''/opt/emitter'' allHookSpecs demoSettings)))) preEvent = [''/usr/bin/audit log'']"
proof -
  let ?doc = "installHooks ''/opt/emitter'' allHookSpecs demoSettings"
  have m: "hd allHookSpecs \<in> set allHookSpecs" by (simp add: allHookSpecs_def)
  have "hsEvent (hd allHookSpecs) = preEvent" by (simp add: allHookSpecs_def)
  moreover have "filter (\<lambda>c. \<not> AgentSnitchCommand c ''/opt/emitter'') (eventCommands (hooksMap ?doc) preEvent) =
      [''/usr/bin/audit log'']" by code_simp
  ultimately show ?thesis using uninstall_is_exact [OF m, of "''/opt/emitter''" ?doc] by simp
qed

end
