(* ===== verification/Hookctl_Files.thy ===== *)
theory Hookctl_Files
  imports Hookctl Runtime_Paths
begin

text \<open>
  The file-level half of \<open>cmd/hookctl/main.go\<close>: finding the claude binary and its settings file, reading and
  replacing the settings with a backup, and the install, uninstall, verify and status commands. The
  commands run in the file system monad, so every call may fail. \<open>exec.LookPath\<close>, what a login shell prints for
  \<open>command -v claude\<close>, \<open>json.Unmarshal\<close>, \<open>json.MarshalIndent\<close> and the formatted time are fields of the host; the parsed
  command-line flags are arguments of \<open>hookctlMain\<close>.
\<close>

section \<open>Definitions\<close>

record HookHost = ProcEnv +
  hhLookPath :: "string \<Rightarrow> string option"
  hhLoginShell :: "string \<Rightarrow> string option"
  hhUnmarshal :: "string \<Rightarrow> jobject option option"
  hhMarshal :: "jobject \<Rightarrow> string option"
  hhStamp :: string

record hookOptions =
  hoSettings :: string
  hoEmitter :: string
  hoEvents :: "hookSpec list"
  hoAgent :: string

record agentTarget =
  atID :: string
  atLabel :: string
  atSettingsPath :: string
  atCommandPath :: string
  atInstalled :: bool
  atSupported :: bool

record agentStatus =
  asID :: string
  asLabel :: string
  asInstalled :: bool
  asSupported :: bool
  asPath :: string
  asSettingsPath :: string
  asSettingsExists :: bool
  asAllInstalled :: bool
  asAllUpToDate :: bool
  asNeedsUpdate :: bool
  asHooks :: "hookStatus list"

record statusReport =
  srSchema :: string
  srSelectedAgentID :: string
  srSelectedAgentLabel :: string
  srScopeLabel :: string
  srAgents :: "agentStatus list"
  srClaudeInstalled :: bool
  srClaudePath :: string
  srSettingsPath :: string
  srSettingsExists :: bool
  srEmitterPath :: string
  srEmitterExecutable :: bool
  srAllInstalled :: bool
  srAllUpToDate :: bool
  srNeedsUpdate :: bool
  srHooks :: "hookStatus list"

datatype cli_error = OSErr os_error | Msg string | Wrap string os_error | BadEvents hook_error

definition claudeSettingsPath :: "('a) ProcEnv_scheme \<Rightarrow> cli_error + string" where
  "claudeSettingsPath h =
     (if peGetenv h ''CLAUDE_SETTINGS'' \<noteq> [] then Inr (peGetenv h ''CLAUDE_SETTINGS'')
      else case UserHomeDir h of
        None \<Rightarrow> Inl (Msg ''HOME unavailable'')
      | Some home \<Rightarrow> Inr (PathJoin [home, ''.claude'', ''settings.json'']))"

definition fileExists :: "string \<Rightarrow> bool io" where
  "fileExists path = do { st \<leftarrow> Stat path; State_Monad.return (case st of Inl _ \<Rightarrow> False | Inr _ \<Rightarrow> True) }"

definition executable :: "string \<Rightarrow> bool io" where
  "executable path =
     (if path = [] then State_Monad.return False
      else do { st \<leftarrow> Stat path; State_Monad.return (case st of Inl _ \<Rightarrow> False | Inr n \<Rightarrow> nodeExecutable n) })"

definition requireExecutable :: "string \<Rightarrow> (cli_error + unit) io" where
  "requireExecutable path =
     do { st \<leftarrow> Stat path;
          State_Monad.return (case st of
            Inl _ \<Rightarrow> Inl (Msg (''emitter missing: '' @ path))
          | Inr n \<Rightarrow> if nodeExecutable n then Inr () else Inl (Msg (''emitter is not executable: '' @ path))) }"

text \<open>The loops that return the first executable of some paths.\<close>

fun firstExecutable :: "string list \<Rightarrow> string io" where
  "firstExecutable [] = State_Monad.return []"
| "firstExecutable (p # ps) = do { x \<leftarrow> executable p; if x then State_Monad.return p else firstExecutable ps }"

definition IsAbs :: "string \<Rightarrow> bool" where
  "IsAbs p = HasPrefix p ''/''"

fun loginShells :: "HookHost \<Rightarrow> string list \<Rightarrow> string list \<Rightarrow> string io" where
  "loginShells h seen [] = State_Monad.return []"
| "loginShells h seen (shell # shells) =
     (if shell \<in> set seen then loginShells h seen shells
      else do {
        x \<leftarrow> executable shell;
        if \<not> x then loginShells h seen shells
        else case hhLoginShell h shell of
          None \<Rightarrow> loginShells h (shell # seen) shells
        | Some out \<Rightarrow> do {
            p \<leftarrow> firstExecutable (filter IsAbs (map TrimSpace (Split out ''\<newline>'')));
            if p \<noteq> [] then State_Monad.return p else loginShells h (shell # seen) shells } })"

definition loginShellClaudePath :: "HookHost \<Rightarrow> string io" where
  "loginShellClaudePath h =
     loginShells h [] ((if peGetenv h ''SHELL'' \<noteq> [] then [peGetenv h ''SHELL''] else []) @ [''/bin/zsh'', ''/bin/bash''])"

definition claudeCandidates :: "HookHost \<Rightarrow> string list" where
  "claudeCandidates h =
     (case UserHomeDir h of
        None \<Rightarrow> []
      | Some home \<Rightarrow>
          [PathJoin [home, ''.local'', ''bin'', ''claude''],
           PathJoin [home, ''.claude'', ''local'', ''claude''],
           PathJoin [home, ''.npm-global'', ''bin'', ''claude''],
           PathJoin [home, ''.npm-packages'', ''bin'', ''claude''],
           PathJoin [home, ''Library'', ''pnpm'', ''claude''],
           PathJoin [home, ''.volta'', ''bin'', ''claude''],
           PathJoin [home, ''.asdf'', ''shims'', ''claude'']]) @
     [''/opt/homebrew/bin/claude'', ''/usr/local/bin/claude'', ''/opt/local/bin/claude'']"

definition claudeCommandPath :: "HookHost \<Rightarrow> string io" where
  "claudeCommandPath h =
     do { named \<leftarrow> firstExecutable [peGetenv h ''CLAUDE_BIN'', peGetenv h ''CLAUDE_PATH''];
          if named \<noteq> [] then State_Monad.return named
          else case hhLookPath h ''claude'' of
            Some (c # p) \<Rightarrow> State_Monad.return (c # p)
          | _ \<Rightarrow> do {
              found \<leftarrow> firstExecutable (claudeCandidates h);
              if found \<noteq> [] then State_Monad.return found else loginShellClaudePath h } }"

text \<open>An absent or blank settings file and the document \<open>null\<close> read as the empty object.\<close>

definition decodeSettings :: "HookHost \<Rightarrow> os_error + string \<Rightarrow> cli_error + jobject" where
  "decodeSettings h r =
     (case r of
        Inl ErrNotExist \<Rightarrow> Inr []
      | Inl e \<Rightarrow> Inl (Wrap ''read Claude settings'' e)
      | Inr raw \<Rightarrow>
          if TrimSpace raw = [] then Inr []
          else case hhUnmarshal h raw of
            None \<Rightarrow> Inl (Msg ''Claude settings JSON is invalid'')
          | Some None \<Rightarrow> Inr []
          | Some (Some doc) \<Rightarrow> Inr doc)"

definition readSettings :: "HookHost \<Rightarrow> string \<Rightarrow> (cli_error + jobject) io" where
  "readSettings h path = do { r \<leftarrow> ReadFile path; State_Monad.return (decodeSettings h r) }"

definition copyFile :: "string \<Rightarrow> string \<Rightarrow> (os_error + unit) io" where
  "copyFile src dst = attempt (ReadFile src) (\<lambda>raw. WriteFile dst raw perm600)"

definition backupPath :: "HookHost \<Rightarrow> string \<Rightarrow> string" where
  "backupPath h path = path @ ''.agentsnitch-backup-'' @ hhStamp h"

definition tmpPath :: "string \<Rightarrow> string" where
  "tmpPath path = path @ ''.agentsnitch-tmp''"

definition encodeDoc :: "HookHost \<Rightarrow> jobject \<Rightarrow> string option" where
  "encodeDoc h doc = map_option (\<lambda>raw. raw @ ''\<newline>'') (hhMarshal h doc)"

definition writeSettings :: "HookHost \<Rightarrow> string \<Rightarrow> jobject \<Rightarrow> (cli_error + unit) io" where
  "writeSettings h path doc =
     attempt (wrapped OSErr (MkdirAll (Dir path) perm700)) (\<lambda>_. do {
       st \<leftarrow> Stat path;
       attempt (case st of
                  Inr _ \<Rightarrow> wrapped (Wrap ''write backup'') (copyFile path (backupPath h path))
                | Inl _ \<Rightarrow> State_Monad.return (Inr ())) (\<lambda>_.
         case encodeDoc h doc of
           None \<Rightarrow> State_Monad.return (Inl (Msg ''json: unsupported value''))
         | Some raw \<Rightarrow>
             attempt (wrapped OSErr (WriteFile (tmpPath path) raw perm600)) (\<lambda>_.
               wrapped OSErr (Rename (tmpPath path) path))) })"

definition targetSettings :: "HookHost \<Rightarrow> hookOptions \<Rightarrow> string" where
  "targetSettings h opts =
     (if hoSettings opts \<noteq> [] then hoSettings opts else case claudeSettingsPath h of Inr p \<Rightarrow> p | Inl _ \<Rightarrow> [])"

definition discoverAgentTargets :: "HookHost \<Rightarrow> hookOptions \<Rightarrow> agentTarget list io" where
  "discoverAgentTargets h opts =
     do { claudePath \<leftarrow> claudeCommandPath h;
          State_Monad.return [\<lparr>atID = ''claude'', atLabel = ''Claude Code'', atSettingsPath = targetSettings h opts,
            atCommandPath = claudePath, atInstalled = (claudePath \<noteq> []), atSupported = True\<rparr>] }"

definition chooseTargets :: "string \<Rightarrow> string \<Rightarrow> agentTarget list \<Rightarrow> cli_error + agentTarget list" where
  "chooseTargets given agent all =
     (if agent = ''all'' then
        (let targets = filter atSupported all
         in if targets = [] then Inl (Msg ''no supported coding agents discovered'') else Inr targets)
      else case find (\<lambda>t. atID t = agent) all of
        None \<Rightarrow> Inl (Msg (''unsupported coding agent: '' @ given))
      | Some t \<Rightarrow> if \<not> atSupported t then Inl (Msg (atLabel t @ '' is discovered but not supported yet'')) else Inr [t])"

definition selectedAgentTargets :: "HookHost \<Rightarrow> hookOptions \<Rightarrow> (cli_error + agentTarget list) io" where
  "selectedAgentTargets h opts =
     do { all \<leftarrow> discoverAgentTargets h opts;
          State_Monad.return (chooseTargets (hoAgent opts) (normalizeAgentName (hoAgent opts)) all) }"

definition selectedAgentLabel :: "agentTarget list \<Rightarrow> string" where
  "selectedAgentLabel targets = Join (map atLabel targets) '', ''"

definition eventNames :: "hookSpec list \<Rightarrow> string" where
  "eventNames specs = Join (map hsEvent specs) '', ''"

definition selectedHooks :: "hookSpec list \<Rightarrow> hookSpec list" where
  "selectedHooks specs = (if specs = [] then allHookSpecs else specs)"

definition withSelectedHooks :: "hookOptions \<Rightarrow> hookOptions" where
  "withSelectedHooks opts = opts\<lparr>hoEvents := selectedHooks (hoEvents opts)\<rparr>"

definition installTargetHooks :: "HookHost \<Rightarrow> hookOptions \<Rightarrow> agentTarget \<Rightarrow> (cli_error + unit) io" where
  "installTargetHooks h opts target =
     attempt (readSettings h (atSettingsPath target)) (\<lambda>doc.
       writeSettings h (atSettingsPath target) (installHooks (hoEmitter opts) (hoEvents opts) doc))"

definition uninstallTargetHooks :: "HookHost \<Rightarrow> hookOptions \<Rightarrow> agentTarget \<Rightarrow> (cli_error + nat) io" where
  "uninstallTargetHooks h opts target =
     attempt (readSettings h (atSettingsPath target)) (\<lambda>doc.
       attempt (writeSettings h (atSettingsPath target) (snd (uninstallHooks (hoEmitter opts) (hoEvents opts) doc))) (\<lambda>_.
         State_Monad.return (Inr (fst (uninstallHooks (hoEmitter opts) (hoEvents opts) doc)))))"

definition agentStatusOf :: "hookOptions \<Rightarrow> agentTarget \<Rightarrow> jobject \<Rightarrow> bool \<Rightarrow> agentStatus" where
  "agentStatusOf opts target doc exists =
     (let hooks = map (\<lambda>spec. statusForHook (hooksMap doc) spec (hoEmitter opts)) (hoEvents opts);
          upToDate = list_all stUpToDate hooks
      in \<lparr>asID = atID target, asLabel = atLabel target, asInstalled = atInstalled target, asSupported = atSupported target,
          asPath = atCommandPath target, asSettingsPath = atSettingsPath target, asSettingsExists = exists,
          asAllInstalled = list_all stInstalled hooks, asAllUpToDate = upToDate, asNeedsUpdate = (\<not> upToDate), asHooks = hooks\<rparr>)"

definition statusForAgent :: "HookHost \<Rightarrow> hookOptions \<Rightarrow> agentTarget \<Rightarrow> (cli_error + agentStatus) io" where
  "statusForAgent h opts target =
     attempt (readSettings h (atSettingsPath target)) (\<lambda>doc. do {
       exists \<leftarrow> fileExists (atSettingsPath target);
       State_Monad.return (Inr (agentStatusOf opts target doc exists)) })"

fun eachTarget :: "(agentTarget \<Rightarrow> (cli_error + 'b) io) \<Rightarrow> agentTarget list \<Rightarrow> (cli_error + 'b list) io" where
  "eachTarget f [] = State_Monad.return (Inr [])"
| "eachTarget f (t # ts) = attempt (f t) (\<lambda>x. attempt (eachTarget f ts) (\<lambda>xs. State_Monad.return (Inr (x # xs))))"

definition missingHooks :: "agentTarget \<Rightarrow> agentStatus \<Rightarrow> string list" where
  "missingHooks target st = map (\<lambda>hook. atLabel target @ ''/'' @ stEvent hook) (filter (\<lambda>hook. \<not> stUpToDate hook) (asHooks st))"

definition verifyClaudeHooks :: "HookHost \<Rightarrow> hookOptions \<Rightarrow> (cli_error + unit) io" where
  "verifyClaudeHooks h opts0 =
     (let opts = withSelectedHooks opts0
      in attempt (selectedAgentTargets h opts) (\<lambda>targets.
           attempt (eachTarget (statusForAgent h opts) targets) (\<lambda>sts.
             let missing = concat (map2 missingHooks targets sts)
             in if missing \<noteq> [] then State_Monad.return (Inl (Msg (''hooks missing or wrong for: '' @ Join missing '', '')))
                else do {
                  _ \<leftarrow> Println (selectedAgentLabel targets @ '' hooks verified: '' @ eventNames (hoEvents opts) @ '' point at '' @ hoEmitter opts);
                  State_Monad.return (Inr ()) })))"

definition installClaudeHooks :: "HookHost \<Rightarrow> hookOptions \<Rightarrow> (cli_error + unit) io" where
  "installClaudeHooks h opts0 =
     (let opts = withSelectedHooks opts0
      in attempt (requireExecutable (hoEmitter opts)) (\<lambda>_.
           attempt (selectedAgentTargets h opts) (\<lambda>targets.
             attempt (eachTarget (\<lambda>target. attempt (installTargetHooks h opts target) (\<lambda>_. do {
               _ \<leftarrow> Println (atLabel target @ '' hooks installed: '' @ atSettingsPath target);
               State_Monad.return (Inr ()) })) targets) (\<lambda>_. do {
             _ \<leftarrow> Println (''Emitter: '' @ hoEmitter opts);
             verifyClaudeHooks h opts }))))"

definition removedLine :: "string \<Rightarrow> nat \<Rightarrow> string" where
  "removedLine label n = label @ '' hooks removed: '' @ Itoa (int n) @ '' AgentSnitch command(s)''"

definition uninstallClaudeHooks :: "HookHost \<Rightarrow> hookOptions \<Rightarrow> (cli_error + unit) io" where
  "uninstallClaudeHooks h opts0 =
     (let opts = withSelectedHooks opts0
      in attempt (selectedAgentTargets h opts) (\<lambda>targets.
           attempt (eachTarget (\<lambda>target. attempt (uninstallTargetHooks h opts target) (\<lambda>removed. do {
             _ \<leftarrow> Println (removedLine (atLabel target) removed);
             State_Monad.return (Inr removed) })) targets) (\<lambda>counts. do {
           _ \<leftarrow> Println (removedLine ''Total'' (sum_list counts));
           State_Monad.return (Inr ()) })))"

text \<open>\<open>mergeAggregateHooks\<close>: the last entry of an event takes the conjunction of the statuses.\<close>

definition mergedStatus :: "hookStatus \<Rightarrow> hookStatus \<Rightarrow> hookStatus" where
  "mergedStatus cur hook =
     (let upToDate = (stUpToDate cur \<and> stUpToDate hook); stale = (stStale cur \<or> stStale hook)
      in cur\<lparr>stInstalled := (stInstalled cur \<and> stInstalled hook), stUpToDate := upToDate, stStale := stale,
            stStatus := (if upToDate then ''up_to_date'' else if stale then ''stale'' else ''missing'')\<rparr>)"

fun mergeFirst :: "hookStatus \<Rightarrow> hookStatus list \<Rightarrow> hookStatus list" where
  "mergeFirst hook [] = []"
| "mergeFirst hook (c # cs) = (if stEvent c = stEvent hook then mergedStatus c hook # cs else c # mergeFirst hook cs)"

definition mergeAggregateHooks :: "hookStatus list \<Rightarrow> hookStatus list \<Rightarrow> hookStatus list" where
  "mergeAggregateHooks current nxt =
     (if current = [] then nxt
      else fold (\<lambda>hook cur. if stEvent hook \<in> stEvent ` set cur then rev (mergeFirst hook (rev cur)) else cur @ [hook]) nxt current)"

definition baseReport :: "hookOptions \<Rightarrow> bool \<Rightarrow> agentTarget list \<Rightarrow> statusReport" where
  "baseReport opts emitterExecutable targets =
     (let label = (if hoAgent opts = ''all'' then ''All supported agents'' else selectedAgentLabel targets)
      in \<lparr>srSchema = ''agentsnitch.hooks_status.v0'', srSelectedAgentID = hoAgent opts, srSelectedAgentLabel = label,
          srScopeLabel = label, srAgents = [], srClaudeInstalled = False, srClaudePath = [], srSettingsPath = [],
          srSettingsExists = False, srEmitterPath = hoEmitter opts, srEmitterExecutable = emitterExecutable,
          srAllInstalled = True, srAllUpToDate = True, srNeedsUpdate = False, srHooks = []\<rparr>)"

definition selectTarget :: "hookOptions \<Rightarrow> agentTarget list \<Rightarrow> bool \<Rightarrow> statusReport \<Rightarrow> statusReport" where
  "selectTarget opts targets exists report =
     (if hoAgent opts \<noteq> ''all'' \<and> length targets = 1
      then report\<lparr>srSelectedAgentID := atID (hd targets), srSelectedAgentLabel := atLabel (hd targets),
                  srSettingsPath := atSettingsPath (hd targets), srSettingsExists := exists\<rparr>
      else report)"

definition addAgent :: "agentTarget \<times> agentStatus \<Rightarrow> statusReport \<Rightarrow> statusReport" where
  "addAgent = (\<lambda>(target, st) report.
     let r1 = report\<lparr>srAgents := srAgents report @ [st]\<rparr>
     in if atID target \<noteq> ''claude'' then r1
        else
          let r2 = r1\<lparr>srClaudeInstalled := atInstalled target, srClaudePath := atCommandPath target\<rparr>
          in if srSettingsPath r2 = [] then r2\<lparr>srSettingsPath := atSettingsPath target, srSettingsExists := asSettingsExists st\<rparr> else r2)"

definition addHooks :: "bool \<Rightarrow> agentStatus \<Rightarrow> statusReport \<Rightarrow> statusReport" where
  "addHooks single st report =
     report\<lparr>srHooks := (if single then asHooks st else mergeAggregateHooks (srHooks report) (asHooks st)),
            srAllInstalled := (srAllInstalled report \<and> asAllInstalled st),
            srAllUpToDate := (srAllUpToDate report \<and> asAllUpToDate st)\<rparr>"

definition statusClaudeHooks :: "HookHost \<Rightarrow> hookOptions \<Rightarrow> (cli_error + statusReport) io" where
  "statusClaudeHooks h opts0 =
     (let opts = withSelectedHooks opts0
      in do {
        exe \<leftarrow> requireExecutable (hoEmitter opts);
        allTargets \<leftarrow> discoverAgentTargets h opts;
        attempt (selectedAgentTargets h opts) (\<lambda>targets. do {
          exists \<leftarrow> (if hoAgent opts \<noteq> ''all'' \<and> length targets = 1 then fileExists (atSettingsPath (hd targets))
                    else State_Monad.return False);
          attempt (eachTarget (statusForAgent h opts) allTargets) (\<lambda>allStatuses.
            attempt (eachTarget (statusForAgent h opts) targets) (\<lambda>statuses.
              let r1 = selectTarget opts targets exists (baseReport opts (exe = Inr ()) targets);
                  r2 = fold addAgent (zip allTargets allStatuses) r1;
                  r3 = fold (addHooks (length targets = 1)) statuses r2
              in State_Monad.return (Inr (r3\<lparr>srNeedsUpdate := (\<not> srAllUpToDate r3)\<rparr>)))) }) })"

definition writeStatusJSON :: "HookHost \<Rightarrow> (statusReport \<Rightarrow> string) \<Rightarrow> hookOptions \<Rightarrow> (cli_error + unit) io" where
  "writeStatusJSON h enc opts =
     attempt (statusClaudeHooks h opts) (\<lambda>report. do { _ \<leftarrow> Println (enc report); State_Monad.return (Inr ()) })"

definition commandReferencesEmitter :: "string \<Rightarrow> string \<Rightarrow> bool" where
  "commandReferencesEmitter cmd emitter =
     (case ShellFields cmd of Some (arg # _) \<Rightarrow> arg = emitter \<or> arg = Base emitter | _ \<Rightarrow> False)"

text \<open>\<open>main\<close>: the exit code for the flags (settings, emitter, events, agent) and the remaining arguments.\<close>

definition exitCode :: "(cli_error + unit) \<Rightarrow> int" where
  "exitCode r = (case r of Inl _ \<Rightarrow> 1 | Inr _ \<Rightarrow> 0)"

definition runCommand :: "HookHost \<Rightarrow> (statusReport \<Rightarrow> string) \<Rightarrow> string \<Rightarrow> hookOptions \<Rightarrow> int io" where
  "runCommand h enc cmd opts =
     (if cmd = ''install'' then do { r \<leftarrow> installClaudeHooks h opts; State_Monad.return (exitCode r) }
      else if cmd = ''uninstall'' then do { r \<leftarrow> uninstallClaudeHooks h opts; State_Monad.return (exitCode r) }
      else if cmd = ''verify'' then do { r \<leftarrow> verifyClaudeHooks h opts; State_Monad.return (exitCode r) }
      else if cmd = ''status-json'' then do { r \<leftarrow> writeStatusJSON h enc opts; State_Monad.return (exitCode r) }
      else State_Monad.return 2)"

definition hookctlMain :: "HookHost \<Rightarrow> (statusReport \<Rightarrow> string) \<Rightarrow> string \<Rightarrow> string \<Rightarrow> string \<Rightarrow> string \<Rightarrow> string list \<Rightarrow> int io" where
  "hookctlMain h enc settings emitter eventsCSV agentName args =
     (if length args \<noteq> 1 then State_Monad.return 2
      else do {
        em \<leftarrow> (if emitter = [] then DefaultEmitterPath h else State_Monad.return emitter);
        case (if settings = [] then claudeSettingsPath h else Inr settings) of
          Inl _ \<Rightarrow> State_Monad.return 1
        | Inr path \<Rightarrow>
            (case parseHookEvents eventsCSV of
               Inl _ \<Rightarrow> State_Monad.return 2
             | Inr events \<Rightarrow>
                 runCommand h enc (hd args)
                   \<lparr>hoSettings = path, hoEmitter = em, hoEvents = events, hoAgent = normalizeAgentName agentName\<rparr>) })"

section \<open>Lemmas: the searches change no file\<close>

lemma readonly_executable [readonly_intros]: "readonly (executable p)"
  unfolding executable_def by (intro readonly_intros)

lemma readonly_firstExecutable [readonly_intros]: "readonly (firstExecutable ps)"
  by (induction ps) (auto intro!: readonly_intros)

lemma readonly_loginShells: "readonly (loginShells h seen shells)"
  by (induction h seen shells rule: loginShells.induct) (auto intro!: readonly_intros split: option.split)

lemma readonly_claudeCommandPath [readonly_intros]: "readonly (claudeCommandPath h)"
  unfolding claudeCommandPath_def loginShellClaudePath_def
  by (auto intro!: readonly_intros readonly_loginShells split: option.split list.split)

lemma readonly_selectedAgentTargets [readonly_intros]: "readonly (selectedAgentTargets h opts)"
  unfolding selectedAgentTargets_def discoverAgentTargets_def by (intro readonly_intros)

lemma readonly_requireExecutable [readonly_intros]: "readonly (requireExecutable p)"
  unfolding requireExecutable_def by (intro readonly_intros)

lemma readonly_readSettings [readonly_intros]: "readonly (readSettings h p)"
  unfolding readSettings_def by (intro readonly_intros)

lemma readonly_statusForAgent [readonly_intros]: "readonly (statusForAgent h opts t)"
  unfolding statusForAgent_def fileExists_def by (intro readonly_intros)

lemma readonly_eachTarget [readonly_intros]: "(\<And>t. readonly (f t)) \<Longrightarrow> readonly (eachTarget f ts)"
  by (induction ts) (auto intro!: readonly_intros)

lemma readonly_verifyClaudeHooks [readonly_intros]: "readonly (verifyClaudeHooks h opts)"
  unfolding verifyClaudeHooks_def Let_def by (intro readonly_intros)

lemma readonly_statusClaudeHooks: "readonly (statusClaudeHooks h opts)"
  unfolding statusClaudeHooks_def discoverAgentTargets_def fileExists_def Let_def by (intro readonly_intros)

section \<open>Lemmas: the settings file\<close>

lemma backupPath_neq [simp]: "backupPath h p \<noteq> p" "p \<noteq> backupPath h p"
  by (simp_all add: backupPath_def)

lemma tmpPath_neq [simp]: "tmpPath p \<noteq> p" "p \<noteq> tmpPath p"
  by (simp_all add: tmpPath_def)

lemma tmpPath_backupPath [simp]: "tmpPath p \<noteq> backupPath h p" "backupPath h p \<noteq> tmpPath p"
  by (simp_all add: tmpPath_def backupPath_def)

lemma wp_copyFile:
  assumes "\<And>r s'. (\<And>q. q \<noteq> dst \<Longrightarrow> node_at s' q = node_at s q) \<Longrightarrow>
    (r = Inr () \<longrightarrow> src \<noteq> dst \<longrightarrow> contentAt s' dst = contentAt s src \<and> contentAt s src \<noteq> None) \<Longrightarrow> Q r s'"
  shows "wp (copyFile src dst) Q s"
  unfolding copyFile_def wp_attempt
  by (rule wp_ReadFile) (auto simp: contentAt_def intro!: wp_WriteFile assms)

text \<open>What a program reads from the settings file when its read succeeds.\<close>

definition settingsDoc :: "HookHost \<Rightarrow> OS \<Rightarrow> string \<Rightarrow> cli_error + jobject" where
  "settingsDoc h s path = decodeSettings h
     (case node_at s path of None \<Rightarrow> Inl ErrNotExist | Some (DirNode _) \<Rightarrow> Inl ErrIsDir | Some (FileNode _ c) \<Rightarrow> Inr c)"

lemma wp_readSettings:
  assumes "\<And>e s'. osFiles s' = osFiles s \<Longrightarrow> Q (Inl e) s'"
    "\<And>doc s'. osFiles s' = osFiles s \<Longrightarrow> settingsDoc h s path = Inr doc \<Longrightarrow> Q (Inr doc) s'"
  shows "wp (readSettings h path) Q s"
proof -
  have ret: "wp (State_Monad.return (decodeSettings h r)) Q s'"
    if "osFiles s' = osFiles s" "\<And>doc. decodeSettings h r = Inr doc \<Longrightarrow> settingsDoc h s path = Inr doc" for r s'
    using assms that by (cases "decodeSettings h r") (auto simp: wp_simps)
  have notExist: "decodeSettings h (Inl e) = Inr doc \<Longrightarrow> e = ErrNotExist" for e doc
    by (cases e) (simp_all add: decodeSettings_def)
  show ?thesis
    unfolding readSettings_def wp_bind
  proof (rule wp_ReadFile)
    show "wp (State_Monad.return (decodeSettings h (Inl e))) Q s'"
      if "osFiles s' = osFiles s" "e = ErrNotExist \<longrightarrow> node_at s path = None" for e s'
      using that notExist [of e] by (intro ret) (auto simp: settingsDoc_def)
    show "wp (State_Monad.return (decodeSettings h (Inr c))) Q s'"
      if "osFiles s' = osFiles s" "node_at s path = Some (FileNode m c)" for m c s'
      using that by (intro ret) (auto simp: settingsDoc_def)
  qed
qed

lemma wp_writeSettings: "wp (writeSettings h path doc) (savePost path (encodeDoc h doc) s) s"
proof -
  have replace: "wp (case encodeDoc h doc of
       None \<Rightarrow> State_Monad.return (Inl (Msg ''json: unsupported value''))
     | Some raw \<Rightarrow> attempt (wrapped OSErr (WriteFile (tmpPath path) raw perm600)) (\<lambda>_. wrapped OSErr (Rename (tmpPath path) path)))
     (savePost path (encodeDoc h doc) s) s1" if "contentAt s1 path = contentAt s path" for s1
    using that
    by (cases "encodeDoc h doc")
       (auto simp: wp_simps savePost_def contentAt_def intro!: wp_WriteFile wp_Rename split: sum.split)
  show ?thesis
    unfolding writeSettings_def wp_simps
  proof (rule wp_MkdirAll, goal_cases)
    case (1 r s1)
    then have c: "contentAt s1 path = contentAt s path" by simp
    have kept: "contentAt s' path = contentAt s path" if "osFiles s' = osFiles s1" for s'
      using contentAt_cong [OF that, of path] c by simp
    show ?case
    proof (cases r)
      case (Inr u)
      show ?thesis unfolding Inr sum.case
      proof (rule wp_Stat, goal_cases)
        case (1 e s2)
        then show ?case by (simp add: wp_simps replace kept)
      next
        case (2 n s2)
        show ?case unfolding sum.case wp_simps
        proof (rule wp_copyFile, goal_cases)
          case (1 r3 s3)
          then have "contentAt s3 path = contentAt s path"
            using 2 kept [of s2] contentAt_node [of s3 path s2] by simp
          then show ?case by (cases r3) (simp_all add: savePost_kept replace)
        qed
      qed
    qed (simp add: savePost_kept c)
  qed
qed

interpretation claudeSettings: atomic_save
    "\<lambda>(h, path, doc). writeSettings h path doc" "\<lambda>(h, path, doc). path" "\<lambda>(h, path, doc). encodeDoc h doc" "\<lambda>_. True"
  by unfold_locales (auto simp: wp_writeSettings)

section \<open>Lemmas: the commands\<close>

text \<open>Every command works on one target, the settings file of Claude Code.\<close>

lemma chooseTargets_single:
  "chooseTargets given agent [t] = Inr ts \<Longrightarrow> ts = [t]"
  by (auto simp: chooseTargets_def Let_def split: if_split_asm)

lemma wp_selectedAgentTargets:
  assumes "\<And>e s'. osFiles s' = osFiles s \<Longrightarrow> Q (Inl e) s'"
    "\<And>t s'. osFiles s' = osFiles s \<Longrightarrow> atSettingsPath t = targetSettings h opts \<Longrightarrow> Q (Inr [t]) s'"
  shows "wp (selectedAgentTargets h opts) Q s"
  unfolding selectedAgentTargets_def discoverAgentTargets_def wp_simps
proof (rule wp_readonly [OF readonly_claudeCommandPath], goal_cases)
  case (1 p s1)
  show ?case
    using chooseTargets_single [of "hoAgent opts" "normalizeAgentName (hoAgent opts)"] assms 1
    by (metis agentTarget.select_convs(3) sum.exhaust)
qed

lemma targetSettings_selected [simp]: "targetSettings h (withSelectedHooks opts) = targetSettings h opts"
  "hoEmitter (withSelectedHooks opts) = hoEmitter opts" "withSelectedHooks (withSelectedHooks opts) = withSelectedHooks opts"
  by (simp_all add: targetSettings_def withSelectedHooks_def selectedHooks_def allHookSpecs_def)

text \<open>The settings file holds what it held, or the edit of the document that was read from it.\<close>

definition editedOrKept :: "HookHost \<Rightarrow> (jobject \<Rightarrow> jobject) \<Rightarrow> string \<Rightarrow> OS \<Rightarrow> OS \<Rightarrow> bool" where
  "editedOrKept h f path s s' =
     (contentAt s' path = contentAt s path \<or>
      (case settingsDoc h s path of
         Inl _ \<Rightarrow> False
       | Inr doc \<Rightarrow> encodeDoc h (f doc) \<noteq> None \<and> contentAt s' path = encodeDoc h (f doc)))"

lemma editedOrKept_files: "osFiles s' = osFiles s \<Longrightarrow> editedOrKept h f path s s'"
  using contentAt_cong [of s' s path] by (simp add: editedOrKept_def)

lemma editedOrKept_cong: "osFiles s1 = osFiles s \<Longrightarrow> editedOrKept h f path s1 s' = editedOrKept h f path s s'"
  using contentAt_cong [of s1 s path] by (simp add: editedOrKept_def settingsDoc_def)

lemma editedOrKept_trans: "editedOrKept h f path s s1 \<Longrightarrow> osFiles s2 = osFiles s1 \<Longrightarrow> editedOrKept h f path s s2"
  using contentAt_cong [of s2 s1 path] by (auto simp: editedOrKept_def split: sum.split)

lemma editedOrKept_print [simp]: "editedOrKept h f path s (osOut_update g s1) = editedOrKept h f path s s1"
  by (simp add: editedOrKept_def split: sum.split)

lemma wp_edit:
  assumes s1: "osFiles s1 = osFiles s"
  shows "wp (attempt (readSettings h path) (\<lambda>doc. attempt (writeSettings h path (f doc)) (\<lambda>_. State_Monad.return (Inr (g doc)))))
    (\<lambda>_. editedOrKept h f path s) s1"
  unfolding wp_attempt
proof (rule wp_readSettings)
  fix doc and s2 :: OS
  assume s2: "osFiles s2 = osFiles s1" and doc: "settingsDoc h s1 path = Inr doc"
  have "wp (writeSettings h path (f doc)) (\<lambda>_. editedOrKept h f path s) s2"
    using doc contentAt_cong [of s2 s path] s1 s2
    by (intro wp_mono [OF wp_writeSettings]) (auto simp: savePost_def editedOrKept_def settingsDoc_def)
  then show "case Inr doc of Inl e \<Rightarrow> editedOrKept h f path s s2
    | Inr doc \<Rightarrow> wp (writeSettings h path (f doc))
        (\<lambda>r s'. case r of Inl e \<Rightarrow> editedOrKept h f path s s'
          | Inr _ \<Rightarrow> wp (State_Monad.return (Inr (g doc))) (\<lambda>_. editedOrKept h f path s) s') s2"
    by (auto simp: wp_return elim: wp_mono split: sum.split)
qed (use s1 in \<open>auto intro!: editedOrKept_files\<close>)

lemma wp_on_target:
  assumes g: "\<And>t s1. osFiles s1 = osFiles s \<Longrightarrow> atSettingsPath t = targetSettings h opts \<Longrightarrow>
      wp (g t) (\<lambda>_. editedOrKept h f path s) s1"
    and k: "\<And>xs. readonly (k xs)"
    and s1: "osFiles s1 = osFiles s"
  shows "wp (attempt (selectedAgentTargets h opts) (\<lambda>ts. attempt (eachTarget g ts) k)) (\<lambda>_. editedOrKept h f path s) s1"
  unfolding wp_attempt
proof (rule wp_selectedAgentTargets, goal_cases)
  case (2 t s2)
  have "wp (g t) (\<lambda>_. editedOrKept h f path s) s2" using 2 s1 by (intro g) simp_all
  then show ?case
    by (auto simp: wp_simps elim!: wp_mono intro: editedOrKept_trans split: sum.split intro!: wp_readonly [OF k])
qed (use s1 in \<open>auto intro!: editedOrKept_files\<close>)

lemma installTargetHooks_edit:
  "installTargetHooks h opts t =
     attempt (readSettings h (atSettingsPath t)) (\<lambda>doc.
       attempt (writeSettings h (atSettingsPath t) (installHooks (hoEmitter opts) (hoEvents opts) doc)) (\<lambda>_. State_Monad.return (Inr ())))"
  unfolding installTargetHooks_def attempt_def
  by (auto intro!: state_ext split: sum.split prod.split)

lemma wp_installClaudeHooks:
  "wp (installClaudeHooks h opts)
     (\<lambda>_. editedOrKept h (installHooks (hoEmitter opts) (selectedHooks (hoEvents opts))) (targetSettings h opts) s) s"
proof -
  let ?o = "withSelectedHooks opts"
  have o: "hoEvents ?o = selectedHooks (hoEvents opts)" by (simp add: withSelectedHooks_def)
  let ?E = "editedOrKept h (installHooks (hoEmitter opts) (selectedHooks (hoEvents opts))) (targetSettings h opts) s"
  have target: "wp (attempt (installTargetHooks h ?o t) (\<lambda>_. do { _ \<leftarrow> Println line; State_Monad.return (Inr ()) })) (\<lambda>_. ?E) s1"
    if "osFiles s1 = osFiles s" "atSettingsPath t = targetSettings h ?o" for t s1 and line
    using wp_edit [OF that(1), of h "targetSettings h opts" "installHooks (hoEmitter opts) (selectedHooks (hoEvents opts))" "\<lambda>_. ()"] that(2)
    unfolding installTargetHooks_edit wp_attempt
    by (auto elim!: wp_mono simp: o wp_simps split: sum.split)
  show ?thesis
    unfolding installClaudeHooks_def Let_def wp_attempt [of "requireExecutable _"]
    by (rule wp_readonly [OF readonly_requireExecutable])
       (auto split: sum.split intro!: editedOrKept_files wp_on_target target readonly_intros)
qed

lemma wp_uninstallClaudeHooks:
  "wp (uninstallClaudeHooks h opts)
     (\<lambda>_. editedOrKept h (\<lambda>doc. snd (uninstallHooks (hoEmitter opts) (selectedHooks (hoEvents opts)) doc)) (targetSettings h opts) s) s"
proof -
  let ?o = "withSelectedHooks opts"
  have o: "hoEvents ?o = selectedHooks (hoEvents opts)" by (simp add: withSelectedHooks_def)
  let ?f = "\<lambda>doc. snd (uninstallHooks (hoEmitter opts) (selectedHooks (hoEvents opts)) doc)"
  let ?E = "editedOrKept h ?f (targetSettings h opts) s"
  have target: "wp (attempt (uninstallTargetHooks h ?o t) (\<lambda>removed. do { _ \<leftarrow> Println (line removed); State_Monad.return (Inr removed) })) (\<lambda>_. ?E) s1"
    if "osFiles s1 = osFiles s" "atSettingsPath t = targetSettings h ?o" for t s1 and line
    using wp_edit [OF that(1), of h "targetSettings h opts" ?f "\<lambda>doc. fst (uninstallHooks (hoEmitter opts) (selectedHooks (hoEvents opts)) doc)"] that(2)
    unfolding uninstallTargetHooks_def wp_attempt
    by (auto elim!: wp_mono simp: o wp_simps split: sum.split)
  show ?thesis
    unfolding uninstallClaudeHooks_def Let_def by (rule wp_on_target) (auto intro!: target readonly_intros)
qed

text \<open>C21. Whatever call fails at whatever point, hookctl never damages the settings of Claude Code: after install
  or uninstall the file holds exactly what it held before, or the complete new document made from what
  was read; settings that cannot be read or parsed are never replaced; verify and status change no
  file at all.\<close>

theorem hookctl_never_loses_settings:
  "let path = targetSettings h opts; specs = selectedHooks (hoEvents opts) in
   editedOrKept h (installHooks (hoEmitter opts) specs) path s (snd (run_state (installClaudeHooks h opts) s)) \<and>
   editedOrKept h (\<lambda>doc. snd (uninstallHooks (hoEmitter opts) specs doc)) path s (snd (run_state (uninstallClaudeHooks h opts) s)) \<and>
   osFiles (snd (run_state (verifyClaudeHooks h opts) s)) = osFiles s \<and>
   osFiles (snd (run_state (statusClaudeHooks h opts) s)) = osFiles s"
  using wp_installClaudeHooks [of h opts s] wp_uninstallClaudeHooks [of h opts s]
    readonly_verifyClaudeHooks [of h opts] readonly_statusClaudeHooks [of h opts]
  by (simp add: wp_def prod.case_eq_if readonly_def)

section \<open>Lemmas: a run without faults\<close>

lemma Dir_append: "CHR ''/'' \<notin> set sfx \<Longrightarrow> Dir (p @ sfx) = Dir p"
proof -
  assume "CHR ''/'' \<notin> set sfx"
  then have "dropWhile (\<lambda>c. c \<noteq> CHR ''/'') (rev sfx @ rev p) = dropWhile (\<lambda>c. c \<noteq> CHR ''/'') (rev p)"
    by (intro dropWhile_append2) auto
  then show ?thesis by (simp add: Dir_def)
qed

lemma Dir_tmpPath [simp]: "Dir (tmpPath p) = Dir p"
  by (simp add: tmpPath_def Dir_append)

lemma Dir_backupPath: "CHR ''/'' \<notin> set (hhStamp h) \<Longrightarrow> Dir (backupPath h p) = Dir p"
  unfolding backupPath_def by (rule Dir_append) auto

lemma calm_writeSettings:
  assumes "osFaults s = []" "isDirAt s (Dir path)" "\<And>m. node_at s path \<noteq> Some (DirNode m)"
    "node_at s (tmpPath path) = None" "node_at s (backupPath h path) = None" "CHR ''/'' \<notin> set (hhStamp h)"
    "encodeDoc h doc = Some raw"
  shows "wp (writeSettings h path doc) (\<lambda>r s'. r = Inr () \<and> osFaults s' = [] \<and> contentAt s' path = Some raw \<and>
    node_at s' (tmpPath path) = None \<and> contentAt s' (backupPath h path) = contentAt s path) s"
proof (cases "node_at s path")
  case None
  then show ?thesis
    using assms
    by (simp add: wp_def writeSettings_def io_simps isDirAt_set_file contentAt_def writtenMode_def)
next
  case (Some n)
  then obtain m c where n: "n = FileNode m c" using assms(3) by (cases n) auto
  show ?thesis
    using assms Some n
    by (simp add: wp_def writeSettings_def copyFile_def io_simps isDirAt_set_file contentAt_def writtenMode_def Dir_backupPath)
qed

lemma calm_selectedAgentTargets:
  assumes "osFaults s = []" "normalizeAgentName (hoAgent opts) \<in> {''claude'', ''all''}"
    "\<And>t s'. osFiles s' = osFiles s \<Longrightarrow> osFaults s' = [] \<Longrightarrow> atSettingsPath t = targetSettings h opts \<Longrightarrow> Q (Inr [t]) s'"
  shows "wp (selectedAgentTargets h opts) Q s"
  unfolding selectedAgentTargets_def discoverAgentTargets_def wp_simps
proof (rule wp_readonly_calm [OF readonly_claudeCommandPath assms(1)], goal_cases)
  case (1 p s1)
  then show ?case using assms(2) by (auto simp: chooseTargets_def Let_def intro!: assms(3))
qed

lemma run_readSettings [io_simps]: "osFaults s = [] \<Longrightarrow> run_state (readSettings h path) s = (settingsDoc h s path, s)"
  by (simp add: readSettings_def settingsDoc_def io_simps)

lemma settingsDoc_content:
  "contentAt s path = Some raw \<Longrightarrow> TrimSpace raw \<noteq> [] \<Longrightarrow> hhUnmarshal h raw = Some (Some doc) \<Longrightarrow> settingsDoc h s path = Inr doc"
  by (auto simp: settingsDoc_def decodeSettings_def contentAt_Some)

lemma settingsDoc_not_dir: "settingsDoc h s path = Inr doc \<Longrightarrow> node_at s path \<noteq> Some (DirNode m)"
  by (auto simp: settingsDoc_def decodeSettings_def)

lemma calm_verify:
  assumes "osFaults s = []" "normalizeAgentName (hoAgent opts) \<in> {''claude'', ''all''}"
    "settingsDoc h s (targetSettings h opts) = Inr doc"
    "\<And>spec. spec \<in> set (selectedHooks (hoEvents opts)) \<Longrightarrow> hookInstalled (hooksMap doc) spec (hoEmitter opts)"
  shows "wp (verifyClaudeHooks h opts) (\<lambda>r s'. r = Inr () \<and> osFiles s' = osFiles s) s"
  unfolding verifyClaudeHooks_def Let_def wp_attempt [of "selectedAgentTargets _ _"]
proof (rule calm_selectedAgentTargets, goal_cases)
  case (3 t s1)
  then have "settingsDoc h s1 (atSettingsPath t) = Inr doc"
    using assms(3) by (simp add: settingsDoc_def)
  moreover have "missingHooks t (agentStatusOf (withSelectedHooks opts) t doc ex) = []" for ex
    using assms(4) by (auto simp: missingHooks_def agentStatusOf_def Let_def withSelectedHooks_def hookInstalled_def filter_empty_conv)
  ultimately show ?case
    using 3 by (simp add: wp_def statusForAgent_def fileExists_def io_simps)
qed (use assms in \<open>simp_all add: withSelectedHooks_def\<close>)

text \<open>Installing works: when no call fails, the emitter is executable, the settings are absent or parse, and
  what is written parses back, install exits successfully, the settings file holds the new document with
  both hooks verified, the backup holds the previous content, and no temporary file is left.\<close>

theorem install_takes_effect:
  assumes "osFaults s = []" "normalizeAgentName (hoAgent opts) \<in> {''claude'', ''all''}" "hoEvents opts = []"
    "node_at s (hoEmitter opts) = Some n" "nodeExecutable n"
    "settingsDoc h s (targetSettings h opts) = Inr doc"
    "isDirAt s (Dir (targetSettings h opts))" "node_at s (tmpPath (targetSettings h opts)) = None"
    "node_at s (backupPath h (targetSettings h opts)) = None" "CHR ''/'' \<notin> set (hhStamp h)"
    "encodeDoc h (installHooks (hoEmitter opts) allHookSpecs doc) = Some raw" "TrimSpace raw \<noteq> []"
    "hhUnmarshal h raw = Some (Some (installHooks (hoEmitter opts) allHookSpecs doc))"
  shows "wp (installClaudeHooks h opts) (\<lambda>r s'. r = Inr () \<and> contentAt s' (targetSettings h opts) = Some raw \<and>
    contentAt s' (backupPath h (targetSettings h opts)) = contentAt s (targetSettings h opts) \<and>
    node_at s' (tmpPath (targetSettings h opts)) = None) s"
proof -
  let ?o = "withSelectedHooks opts" and ?p = "targetSettings h opts"
  let ?new = "installHooks (hoEmitter opts) allHookSpecs doc"
  have o: "hoEvents ?o = allHookSpecs" "hoAgent ?o = hoAgent opts" "selectedHooks allHookSpecs = allHookSpecs"
    using assms(3) by (simp_all add: withSelectedHooks_def selectedHooks_def allHookSpecs_def)
  have written: "wp (writeSettings h ?p ?new) (\<lambda>r s'. r = Inr () \<and> osFaults s' = [] \<and> contentAt s' ?p = Some raw \<and>
      node_at s' (tmpPath ?p) = None \<and> contentAt s' (backupPath h ?p) = contentAt s ?p) s1"
    if "osFiles s1 = osFiles s" "osFaults s1 = []" for s1
    using calm_writeSettings [of s1 ?p h ?new raw] that assms settingsDoc_not_dir [OF assms(6)]
    by (simp add: isDirAt_def contentAt_cong [OF that(1)])
  have verify: "wp (verifyClaudeHooks h ?o) (\<lambda>r s'. r = Inr () \<and> osFiles s' = osFiles s1) s1"
    if "osFaults s1 = []" "contentAt s1 ?p = Some raw" for s1
    using that settingsDoc_content [OF that(2) assms(12,13)] assms(2) hookInstalled_install o
    by (intro calm_verify [of s1 ?o h ?new]) simp_all
  have exe: "wp (requireExecutable (hoEmitter ?o)) Q s = Q (Inr ()) s" for Q
    using assms(1,4,5) by (simp add: wp_def requireExecutable_def io_simps)
  have target: "wp (installTargetHooks h ?o t) Q s1 = wp (writeSettings h ?p ?new) Q s1"
    if "osFiles s1 = osFiles s" "osFaults s1 = []" "atSettingsPath t = ?p" for t Q s1
    using that assms(6) o by (simp add: installTargetHooks_def wp_def io_simps settingsDoc_def)
  show ?thesis
    unfolding installClaudeHooks_def Let_def wp_attempt exe sum.case
  proof (rule calm_selectedAgentTargets, goal_cases)
    case (3 t s1)
    then have t: "osFiles s1 = osFiles s" "osFaults s1 = []" "atSettingsPath t = ?p" by simp_all
    show ?case
      unfolding sum.case eachTarget.simps wp_attempt target [OF t]
    proof (rule wp_mono [OF written [OF t(1,2)]], goal_cases)
      case (1 r s2)
      have "wp (verifyClaudeHooks h ?o) (\<lambda>r' s3. r' = Inr () \<and> contentAt s3 ?p = Some raw \<and>
          contentAt s3 (backupPath h ?p) = contentAt s ?p \<and> node_at s3 (tmpPath ?p) = None) (s2\<lparr>osOut := out\<rparr>)" for out
        using 1 by (intro wp_mono [OF verify]) (simp_all add: contentAt_def)
      with 1 show ?case by (simp add: wp_simps)
    qed
  qed (use assms o in simp_all)
qed

definition demoHookHost :: HookHost where
  "demoHookHost = \<lparr>peGetenv = (\<lambda>_. []), peExecutable = None, peCwd = None, peTempDir = ''/tmp'',
     hhLookPath = (\<lambda>_. None), hhLoginShell = (\<lambda>_. None),
     hhUnmarshal = (\<lambda>raw. Some (Some (if raw = ''old'' then demoSettings else installHooks ''/e'' allHookSpecs demoSettings))),
     hhMarshal = (\<lambda>_. Some ''new''), hhStamp = ''20260101-000000''\<rparr>"

definition demoHookOptions :: hookOptions where
  "demoHookOptions = \<lparr>hoSettings = ''/u/s'', hoEmitter = ''/e'', hoEvents = [], hoAgent = ''claude''\<rparr>"

definition demoOS :: OS where
  "demoOS = \<lparr>osFiles = [(''/u'', DirNode perm700), (''/u/s'', FileNode perm600 ''old''), (''/e'', FileNode 0x1ED [])],
     osFaults = [], osUmask = 0x12, osOut = [], osKeychain = []\<rparr>"

theorem install_takes_effect_witness:
  "wp (installClaudeHooks demoHookHost demoHookOptions) (\<lambda>r s'. r = Inr () \<and>
     contentAt s' ''/u/s'' = Some (''new'' @ ''\<newline>'') \<and>
     contentAt s' (backupPath demoHookHost ''/u/s'') = contentAt demoOS ''/u/s'' \<and> node_at s' (tmpPath ''/u/s'') = None) demoOS"
proof -
  have p: "targetSettings demoHookHost demoHookOptions = ''/u/s''"
    by (simp add: targetSettings_def demoHookOptions_def)
  have d: "Dir ''/u/s'' = ''/u''" by code_simp
  have a: "normalizeAgentName ''claude'' = ''claude''" by code_simp
  have t: "TrimSpace ''old'' = ''old''" "TrimSpace (''new'' @ ''\<newline>'') = ''new''" by code_simp+
  have x: "nodeExecutable (FileNode 0x1ED [])" by code_simp
  show ?thesis
    by (rule install_takes_effect [of demoOS demoHookOptions "FileNode 0x1ED []" demoHookHost demoSettings "''new'' @ ''\<newline>''", unfolded p])
       (use x t in \<open>simp_all add: d a demoOS_def settingsDoc_def decodeSettings_def isDirAt_def tmpPath_def backupPath_def
          encodeDoc_def demoHookHost_def demoHookOptions_def\<close>)
qed

end
