(* ===== verification/Doctor.thy ===== *)
theory Doctor
  imports Hookctl_Files Cli Corr_Match Daemon_Observe
begin

text \<open>
  \<open>cmd/doctor/main.go\<close>: the checks of an installation and what each reports, with the exit code they add up to. The
  sockets, \<open>ps\<close>, \<open>systemextensionsctl\<close>, modification times, the clock, \<open>encoding/json\<close>, the parsing of local times and
  the printing of durations and errors are fields of the host.
\<close>

section \<open>Definitions\<close>

text \<open>\<open>claudeSettingsPath\<close> and \<open>currentInspectStatus\<close> are written out again in \<open>cmd/doctor\<close>, word for word.\<close>

record DocHost = CliHost +
  dcDial :: "string \<Rightarrow> bool"
  dcPs :: "string option"
  dcSysext :: "bool \<times> string \<times> string"
  dcModTime :: "string \<Rightarrow> time"
  dcPsTime :: "string \<Rightarrow> time option"
  dcLogTime :: "string \<Rightarrow> time option"
  dcDuration :: "duration \<Rightarrow> string"
  dcErrorText :: "event_error \<Rightarrow> string"
  dcSettingsJSON :: "string \<Rightarrow> jobject option option"
  dcAppSettings :: "string \<Rightarrow> (bool \<times> bool) option"
  dcSemantic :: "string \<Rightarrow> SemanticEvent option"
  dcNetwork :: "string \<Rightarrow> NetworkFlowEvent option"

record check =
  ckName :: string
  ckStatus :: string
  ckDetail :: string
  ckOk :: bool
  ckFail :: bool

definition okCheck :: "string \<Rightarrow> string \<Rightarrow> check" where
  "okCheck name detail = \<lparr>ckName = name, ckStatus = [], ckDetail = detail, ckOk = True, ckFail = False\<rparr>"

definition waitCheck :: "string \<Rightarrow> string \<Rightarrow> string \<Rightarrow> check" where
  "waitCheck name st detail = \<lparr>ckName = name, ckStatus = st, ckDetail = detail, ckOk = True, ckFail = False\<rparr>"

definition setupCheck :: "string \<Rightarrow> string \<Rightarrow> check" where
  "setupCheck name detail = \<lparr>ckName = name, ckStatus = ''SETUP'', ckDetail = detail, ckOk = False, ckFail = False\<rparr>"

definition failCheck :: "string \<Rightarrow> string \<Rightarrow> string \<Rightarrow> check" where
  "failCheck name st detail = \<lparr>ckName = name, ckStatus = st, ckDetail = detail, ckOk = False, ckFail = True\<rparr>"

text \<open>The CLI host of a doctor host.\<close>

definition cli :: "DocHost \<Rightarrow> CliHost" where
  "cli h = CliHost.truncate h"

definition doctorInspectStatus :: "DocHost \<Rightarrow> InspectStatus io" where
  "doctorInspectStatus h = currentInspectStatus (cli h)"

definition doctorSettingsPath :: "DocHost \<Rightarrow> cli_error + string" where
  "doctorSettingsPath h = claudeSettingsPath h"

definition onOff :: "bool \<Rightarrow> string" where "onOff v = (if v then ''ON'' else ''OFF'')"
definition yesNo :: "bool \<Rightarrow> string" where "yesNo v = (if v then ''yes'' else ''no'')"

subsection \<open>The emitter and the hooks\<close>

definition executableCandidate :: "string \<Rightarrow> string io" where
  "executableCandidate path =
     do { st \<leftarrow> Stat path; State_Monad.return (case st of Inr n \<Rightarrow> if nodeExecutable n then path else [] | Inl _ \<Rightarrow> []) }"

definition installedEmitterPath :: "DocHost \<Rightarrow> string io" where
  "installedEmitterPath h =
     (if peGetenv h ''AGENTSNITCH_SUPPORT_DIR'' \<noteq> []
      then executableCandidate (PathJoin [peGetenv h ''AGENTSNITCH_SUPPORT_DIR'', ''bin'', ''emitter''])
      else case UserHomeDir h of
        None \<Rightarrow> State_Monad.return []
      | Some home \<Rightarrow> executableCandidate (PathJoin [home, ''Library'', ''Application Support'', ''AgentSnitch'', ''bin'', ''emitter'']))"

definition preferredEmitterPath :: "DocHost \<Rightarrow> string io" where
  "preferredEmitterPath h =
     (if peGetenv h ''AGENTSNITCH_EMITTER'' \<noteq> [] then State_Monad.return (peGetenv h ''AGENTSNITCH_EMITTER'')
      else do { installed \<leftarrow> installedEmitterPath h;
                if installed \<noteq> [] then State_Monad.return installed else DefaultEmitterPath h })"

definition checkEmitter :: "string \<Rightarrow> check io" where
  "checkEmitter path =
     do { st \<leftarrow> Stat path;
          State_Monad.return (case st of
            Inl _ \<Rightarrow> failCheck ''Emitter binary'' [] (''missing at '' @ path)
          | Inr n \<Rightarrow> if nodeExecutable n then okCheck ''Emitter binary'' path
                     else failCheck ''Emitter binary'' [] (''not executable at '' @ path)) }"

text \<open>A missing or ill-typed part of the document reads as a nil map or slice.\<close>

definition asMap :: "json option \<Rightarrow> jobject" where
  "asMap v = (case v of Some (JObj m) \<Rightarrow> m | _ \<Rightarrow> [])"

definition commandHasEmitter :: "string \<Rightarrow> string \<Rightarrow> json \<Rightarrow> bool" where
  "commandHasEmitter emitter arg command =
     (let cmd = commandOf (asMap (Some command)) in cmd \<noteq> [] \<and> Installed cmd emitter arg)"

definition hookHasEmitter :: "jobject \<Rightarrow> string \<Rightarrow> string \<Rightarrow> string \<Rightarrow> bool" where
  "hookHasEmitter hooks eventName emitter arg =
     list_ex (\<lambda>item. list_ex (commandHasEmitter emitter arg) (asSlice (mget (asMap (Some item)) ''hooks'')))
       (asSlice (mget hooks eventName))"

definition hooksCheck :: "jobject option \<Rightarrow> string \<Rightarrow> check" where
  "hooksCheck doc emitter =
     (let hooks = asMap (case doc of None \<Rightarrow> None | Some d \<Rightarrow> mget d ''hooks'');
          pre = hookHasEmitter hooks ''PreToolUse'' emitter ''pretooluse'';
          post = hookHasEmitter hooks ''PostToolUse'' emitter ''posttooluse''
      in if pre \<and> post then okCheck ''Claude hooks'' ''PreToolUse and PostToolUse installed''
         else setupCheck ''Claude hooks''
           (''missing or wrong: '' @ Join ((if pre then [] else [''PreToolUse'']) @ (if post then [] else [''PostToolUse''])) '', '' @
            ''; open AgentSnitch Settings > Hooks''))"

definition checkClaudeHooks :: "DocHost \<Rightarrow> string \<Rightarrow> check io" where
  "checkClaudeHooks h emitter =
     (case doctorSettingsPath h of
        Inl _ \<Rightarrow> State_Monad.return (failCheck ''Claude hooks'' [] ''HOME unavailable'')
      | Inr settings \<Rightarrow> do {
          r \<leftarrow> ReadFile settings;
          State_Monad.return (case r of
            Inl ErrNotExist \<Rightarrow> setupCheck ''Claude hooks'' ''not installed; open AgentSnitch Settings > Hooks''
          | Inl _ \<Rightarrow> failCheck ''Claude hooks'' [] (''settings not readable: '' @ settings)
          | Inr raw \<Rightarrow>
              (case dcSettingsJSON h raw of
                 None \<Rightarrow> failCheck ''Claude hooks'' [] ''settings JSON is invalid''
               | Some doc \<Rightarrow> hooksCheck doc emitter)) })"

definition checkDaemonSocket :: "DocHost \<Rightarrow> check io" where
  "checkDaemonSocket h =
     do { up \<leftarrow> DialDaemon h (dcDial h);
          path \<leftarrow> SocketPath h;
          State_Monad.return (if up then okCheck ''Daemon socket'' path else failCheck ''Daemon socket'' [] (''unreachable at '' @ path)) }"

definition checkUIListener :: "DocHost \<Rightarrow> check io" where
  "checkUIListener h =
     do { up \<leftarrow> DialUI h (dcDial h);
          path \<leftarrow> UISocketPath h;
          State_Monad.return (if up then okCheck ''UI listener'' path else failCheck ''UI listener'' [] (''unreachable at '' @ path)) }"

subsection \<open>Running Claude processes\<close>

record claudeProcess =
  cpPID :: int
  cpStarted :: time
  cpCommand :: string

definition isClaudeCommand :: "string \<Rightarrow> bool" where
  "isClaudeCommand command = (case Fields command of [] \<Rightarrow> False | f # _ \<Rightarrow> Base f = ''claude'')"

definition parseClaudeProcess :: "(string \<Rightarrow> time option) \<Rightarrow> string \<Rightarrow> claudeProcess option" where
  "parseClaudeProcess psTime line =
     (let fields = Fields line
      in if length fields < 7 then None
         else case Atoi (fields ! 0) of
           None \<Rightarrow> None
         | Some pid \<Rightarrow>
             let command = Join (drop 6 fields) '' ''
             in if \<not> isClaudeCommand command then None
                else Some \<lparr>cpPID = pid, cpStarted = (case psTime (Join (take 5 (drop 1 fields)) '' '') of Some t \<Rightarrow> t | None \<Rightarrow> 0),
                           cpCommand = command\<rparr>)"

definition parseClaudeProcesses :: "(string \<Rightarrow> time option) \<Rightarrow> string \<Rightarrow> claudeProcess list" where
  "parseClaudeProcesses psTime raw = List.map_filter (parseClaudeProcess psTime) (Split raw ''\<newline>'')"

definition processAdvice :: "string \<Rightarrow> time \<Rightarrow> claudeProcess list \<Rightarrow> string" where
  "processAdvice base modified processes =
     (let older = filter (\<lambda>p. \<not> IsZero (cpStarted p) \<and> cpStarted p < modified) processes
      in if processes = [] then base @ ''; start Claude Code and run a real tool action''
         else if length older = length processes then
           base @ ''; '' @ Itoa (int (length processes)) @ '' running Claude process(es) predate hook settings, restart Claude Code and run a real tool action''
         else if older \<noteq> [] then
           base @ ''; '' @ Itoa (int (length older)) @ '' of '' @ Itoa (int (length processes)) @
             '' running Claude process(es) predate hook settings, restart stale sessions or run a tool in a fresh session''
         else base @ ''; run a real Claude Code tool action to trigger hooks'')"

definition currentClaudeProcesses :: "DocHost \<Rightarrow> claudeProcess list option" where
  "currentClaudeProcesses h = map_option (parseClaudeProcesses (dcPsTime h)) (dcPs h)"

definition missingHookDetail :: "DocHost \<Rightarrow> string \<Rightarrow> string io" where
  "missingHookDetail h base =
     (case doctorSettingsPath h of
        Inl _ \<Rightarrow> State_Monad.return base
      | Inr settings \<Rightarrow> do {
          st \<leftarrow> Stat settings;
          State_Monad.return (case st of
            Inl _ \<Rightarrow> base
          | Inr _ \<Rightarrow> processAdvice base (dcModTime h settings) (items (currentClaudeProcesses h))) })"

subsection \<open>The last events\<close>

definition formatAge :: "DocHost \<Rightarrow> duration \<Rightarrow> string" where
  "formatAge h age = (if age \<le> 0 then ''seen'' else dcDuration h age)"

definition daemonLogPath :: "DocHost \<Rightarrow> string" where
  "daemonLogPath h = (let p = peGetenv h ''AGENTSNITCH_DAEMON_LOG'' in if p = [] then ''/tmp/agentsnitch-daemon.log'' else p)"

text \<open>The loop over the log lines, newest first: the payload of the first line with the marker and its age.\<close>

fun last_json :: "DocHost \<Rightarrow> string \<Rightarrow> string \<Rightarrow> string list \<Rightarrow> string + (string \<times> duration)" where
  "last_json h logPath mark [] = Inl (''none yet in '' @ logPath)"
| "last_json h logPath mark (line # older) =
     (case Cut line mark of
        None \<Rightarrow> last_json h logPath mark older
      | Some (_, after) \<Rightarrow>
          if TrimSpace after = [] then Inl (''empty '' @ mark @ '' payload in '' @ logPath)
          else Inr (TrimSpace after,
            if length line \<ge> 19 then (case dcLogTime h (take 19 line) of Some ts \<Rightarrow> time_sub (clNow h) ts | None \<Rightarrow> 0) else 0))"

definition findLastLogJSON :: "DocHost \<Rightarrow> string \<Rightarrow> string \<Rightarrow> (string + (string \<times> duration)) io" where
  "findLastLogJSON h logPath mark =
     do { r \<leftarrow> ReadFile logPath;
          State_Monad.return (case r of
            Inl _ \<Rightarrow> Inl (''no daemon log at '' @ logPath)
          | Inr raw \<Rightarrow> last_json h logPath mark (rev (Split raw ''\<newline>''))) }"

definition semanticCheck :: "DocHost \<Rightarrow> SemanticEvent \<Rightarrow> (SemanticEvent \<Rightarrow> duration) \<Rightarrow> check" where
  "semanticCheck h raw age =
     (let ev = NormalizeSemanticEvent (clNow h) raw
      in case ValidateSemanticEvent ev of
           Some err \<Rightarrow> failCheck ''Last hook event'' ''--'' (''last semantic event incomplete: '' @ dcErrorText h err)
         | None \<Rightarrow> okCheck ''Last hook event'' (formatAge h (age ev) @ '' ago; real hook contract OK''))"

definition checkLastHookEvent :: "DocHost \<Rightarrow> check io" where
  "checkLastHookEvent h =
     do { r \<leftarrow> ReadStatus h (clReadStatus h);
          case r of
            Inr st \<Rightarrow>
              (case LastSemantic st of
                 None \<Rightarrow> do { path \<leftarrow> StatusPath h; detail \<leftarrow> missingHookDetail h (''none yet in '' @ path);
                             State_Monad.return (failCheck ''Last hook event'' ''--'' detail) }
               | Some ev \<Rightarrow> State_Monad.return (semanticCheck h ev (\<lambda>e. time_sub (clNow h) (sTS e))))
          | Inl _ \<Rightarrow> do {
              found \<leftarrow> findLastLogJSON h (daemonLogPath h) ''SEMANTIC_JSON:'';
              case found of
                Inl err \<Rightarrow> do { detail \<leftarrow> missingHookDetail h err; State_Monad.return (failCheck ''Last hook event'' ''--'' detail) }
              | Inr (line, age) \<Rightarrow> State_Monad.return (case dcSemantic h line of
                  None \<Rightarrow> failCheck ''Last hook event'' ''--'' ''last semantic JSON is invalid''
                | Some ev \<Rightarrow> semanticCheck h ev (\<lambda>_. age)) } }"

definition waitAtStatus :: "DocHost \<Rightarrow> string \<Rightarrow> string \<Rightarrow> check io" where
  "waitAtStatus h name detail = do { path \<leftarrow> StatusPath h; State_Monad.return (waitCheck name ''WAIT'' (detail @ path)) }"

definition observerDetail :: "NetworkFlowEvent \<Rightarrow> string" where
  "observerDetail ev =
     (if fObserver ev = ''network_extension'' then '' via Network Extension''
      else if fObserver ev = ''network_statistics'' then '' via NetworkStatistics''
      else if fObserver ev = ''lsof'' then '' via lsof fallback''
      else if fObserver ev = [] then [] else '' via '' @ fObserver ev)"

definition networkCheck :: "DocHost \<Rightarrow> NetworkFlowEvent \<Rightarrow> (NetworkFlowEvent \<Rightarrow> duration) \<Rightarrow> check" where
  "networkCheck h raw age =
     (let ev = NormalizeNetworkFlow (clNow h) raw
      in case ValidateNetworkFlow ev of
           Some err \<Rightarrow> waitCheck ''Last network event'' ''WAIT'' (''last network event incomplete: '' @ dcErrorText h err)
         | None \<Rightarrow> okCheck ''Last network event'' (formatAge h (age ev) @ '' ago; real network contract OK'' @ observerDetail ev))"

definition checkLastNetworkEvent :: "DocHost \<Rightarrow> check io" where
  "checkLastNetworkEvent h =
     do { r \<leftarrow> ReadStatus h (clReadStatus h);
          case r of
            Inr st \<Rightarrow>
              (case LastNetwork st of
                 None \<Rightarrow> waitAtStatus h ''Last network event'' ''none yet in ''
               | Some ev \<Rightarrow> State_Monad.return (networkCheck h ev (\<lambda>e. time_sub (clNow h) (fTS e))))
          | Inl _ \<Rightarrow> do {
              found \<leftarrow> findLastLogJSON h (daemonLogPath h) ''NETFLOW_JSON:'';
              State_Monad.return (case found of
                Inl err \<Rightarrow> waitCheck ''Last network event'' ''WAIT'' err
              | Inr (line, age) \<Rightarrow>
                  (case dcNetwork h line of
                     None \<Rightarrow> waitCheck ''Last network event'' ''WAIT'' ''last network JSON is invalid''
                   | Some ev \<Rightarrow> networkCheck h ev (\<lambda>_. age))) } }"

subsection \<open>The OS sensor\<close>

definition networkExtensionBundleID :: string where
  "networkExtensionBundleID = ''com.somoore.agentsnitch.network-extension''"

definition appSettingsPath :: "DocHost \<Rightarrow> string" where
  "appSettingsPath h =
     (let path = TrimSpace (peGetenv h ''AGENTSNITCH_UI_SETTINGS'')
      in if path \<noteq> [] then path
         else case UserHomeDir h of
           Some home \<Rightarrow> PathJoin [home, ''.agentsnitch'', ''ui-settings.json'']
         | None \<Rightarrow> PathJoin [peTempDir h, ''agentsnitch-ui-settings.json''])"

definition networkSensorDisabledInSettings :: "DocHost \<Rightarrow> bool io" where
  "networkSensorDisabledInSettings h =
     do { r \<leftarrow> ReadFile (appSettingsPath h);
          State_Monad.return (case r of
            Inl _ \<Rightarrow> True
          | Inr raw \<Rightarrow> (case dcAppSettings h raw of None \<Rightarrow> True | Some (disabled, highAssurance) \<Rightarrow> disabled \<and> \<not> highAssurance)) }"

text \<open>The exit of \<open>systemextensionsctl\<close>, its output and the error text; the result is listed or an error.\<close>

definition systemExtensionListed :: "DocHost \<Rightarrow> string + bool" where
  "systemExtensionListed h =
     (case dcSysext h of
        (False, out, err) \<Rightarrow> Inl (let detail = TrimSpace out in if detail = [] then err else detail)
      | (True, out, _) \<Rightarrow> Inr (Contains out networkExtensionBundleID))"

definition sensorWarn :: "string \<Rightarrow> check" where "sensorWarn detail = waitCheck ''OS Sensor'' ''WARN'' detail"
definition sensorWait :: "string \<Rightarrow> check" where "sensorWait detail = waitCheck ''OS Sensor'' ''WAIT'' detail"

definition listedCheck :: "string + bool \<Rightarrow> string \<Rightarrow> string \<Rightarrow> string \<Rightarrow> check" where
  "listedCheck listed onError onListed onMissing =
     (case listed of
        Inl err \<Rightarrow> sensorWarn (onError @ err)
      | Inr yes \<Rightarrow> if yes then sensorWait onListed else sensorWarn onMissing)"

definition notListedDetail :: string where
  "notListedDetail = networkExtensionBundleID @ '' is not activated/listed; run ./bin/neready for signing details''"

definition networkExtensionCheckForStatus :: "DocHost \<Rightarrow> FullStatus \<Rightarrow> string + bool \<Rightarrow> check" where
  "networkExtensionCheckForStatus h st listed =
     (let noFlow = listedCheck listed ''could not inspect system extension state: '' ''system extension is listed; waiting for first NE flow'' notListedDetail
      in if ObserverMode st = ''high_assurance_active'' then
           okCheck ''OS Sensor'' (''OS-backed flow telemetry has been observed'' @
             (if ObserverSources st = [] then [] else ''; active observers: '' @ Join (ObserverSources st) '', ''))
         else if ObserverMode st = ''high_assurance_requested'' then
           listedCheck listed ''requested, but could not inspect system extension state: ''
             ''system extension is listed; waiting for first OS-backed flow'' notListedDetail
         else case LastNetwork st of
           None \<Rightarrow> noFlow
         | Some raw \<Rightarrow>
             (let ev = NormalizeNetworkFlow (clNow h) raw
              in if fObserver ev = ''network_extension'' then
                   okCheck ''OS Sensor'' (formatAge h (time_sub (clNow h) (fTS ev)) @ '' ago; real NE flow observed'')
                 else if fObserver ev = ''lsof'' then
                   listedCheck listed ''latest network event is lsof fallback; could not inspect system extension state: ''
                     ''system extension is listed, but latest network event is still lsof fallback''
                     (''lsof fallback only; '' @ networkExtensionBundleID @ '' is not activated/listed'')
                 else if fObserver ev \<noteq> [] then sensorWarn (''latest network event came from observer '' @ fObserver ev)
                 else noFlow))"

definition checkNetworkExtension :: "DocHost \<Rightarrow> check io" where
  "checkNetworkExtension h =
     do { off \<leftarrow> networkSensorDisabledInSettings h;
          if off then State_Monad.return (waitCheck ''OS Sensor'' ''OFF''
            ''User Visibility mode; semantic hooks + userland process/network correlation are primary'')
          else do {
            r \<leftarrow> ReadStatus h (clReadStatus h);
            case r of
              Inl _ \<Rightarrow> waitAtStatus h ''OS Sensor'' ''requested in app settings, but no daemon status at ''
            | Inr st \<Rightarrow> State_Monad.return (networkExtensionCheckForStatus h st (systemExtensionListed h)) } }"

subsection \<open>Why there is no card\<close>

definition isSensitiveSignal :: "SemanticEvent \<Rightarrow> bool" where
  "isSensitiveSignal sem =
     list_ex (\<lambda>tag. tag = ''sensitive_read'' \<or> tag = ''credential_output'' \<or> tag = ''structured_secret'') (items (sTags sem))"

definition isLinkedSignal :: "SemanticEvent \<Rightarrow> bool" where
  "isLinkedSignal sem = (IsEgressLike sem \<or> isSensitiveSignal sem)"

definition hookLabel :: "SemanticEvent \<Rightarrow> string" where
  "hookLabel sem =
     (if TrimSpace (sTool sem) \<noteq> [] then TrimSpace (sTool sem)
      else if TrimSpace (sEvent sem) \<noteq> [] then TrimSpace (sEvent sem) else ''hook'')"

definition isActiveNetworkFlow :: "NetworkFlowEvent \<Rightarrow> bool" where
  "isActiveNetworkFlow flow = (ToLower (TrimSpace (fState flow)) \<in> {''established'', ''data''})"

definition linkedTimeMissReason :: "DocHost \<Rightarrow> SemanticEvent \<Rightarrow> NetworkFlowEvent \<Rightarrow> string" where
  "linkedTimeMissReason h sem flow =
     (if IsZero (sTS sem) \<or> IsZero (fTS flow) then []
      else
        let delta = time_sub (fTS flow) (sTS sem)
        in if delta \<ge> 0 \<and> delta \<le> 10 * Second then []
           else if delta < 0 \<and> dur_neg delta \<le> 30 * Second \<and> isSensitiveSignal sem \<and> isActiveNetworkFlow flow then []
           else ''last high-signal hook and latest network sample are outside the correlation window (delta '' @ dcDuration h delta @ '')'')"

definition uniqueStrings :: "string list \<Rightarrow> string list" where
  "uniqueStrings values = foldl (\<lambda>out v. if v = [] \<or> v \<in> set out then out else out @ [v]) [] values"

definition linkedProcessReasons :: "SemanticEvent \<Rightarrow> NetworkFlowEvent \<Rightarrow> string list" where
  "linkedProcessReasons sem flow = uniqueStrings
     ((if sPID sem > 0 \<and> sPID sem = fPID flow then [''pid_match''] else []) @
      (if sPPID sem > 0 \<and> sPPID sem = fPID flow then [''parent_match''] else []) @
      (if fPPID flow > 0 \<and> sPID sem = fPPID flow then [''parent_match''] else []) @
      (if sPPID sem > 0 \<and> fPPID flow > 0 \<and> sPPID sem = fPPID flow then [''same_agent_session''] else []))"

definition linkedDiagnosis :: "DocHost \<Rightarrow> string \<Rightarrow> SemanticEvent \<Rightarrow> NetworkFlowEvent \<Rightarrow> string" where
  "linkedDiagnosis h base sem flow =
     (if \<not> isLinkedSignal sem then
        base @ ''; last hook was '' @ hookLabel sem @ '' without sensitive/egress tags, waiting for sensitive read, explicit egress, or MCP tool''
      else if \<not> IsExternal flow then base @ ''; latest network event is not outbound external activity''
      else if linkedTimeMissReason h sem flow \<noteq> [] then base @ ''; '' @ linkedTimeMissReason h sem flow
      else if linkedProcessReasons sem flow = [] then
        base @ ''; latest network sample does not prove same process tree (hook pid='' @ Itoa (sPID sem) @ '' ppid='' @ Itoa (sPPID sem) @
          '', flow pid='' @ Itoa (fPID flow) @ '' ppid='' @ Itoa (fPPID flow) @ '')''
      else base @ ''; latest hook and network sample look linkable, check daemon correlation logs'')"

definition missingLinkedDetail :: "DocHost \<Rightarrow> FullStatus \<Rightarrow> string io" where
  "missingLinkedDetail h st =
     do { path \<leftarrow> StatusPath h;
          State_Monad.return (let base = ''none yet in '' @ path in
            case (LastSemantic st, LastNetwork st) of
              (None, None) \<Rightarrow> base @ ''; waiting for real hook and network events''
            | (None, Some _) \<Rightarrow> base @ ''; waiting for a real hook event''
            | (Some _, None) \<Rightarrow> base @ ''; waiting for a real network event''
            | (Some sem, Some flow) \<Rightarrow>
                linkedDiagnosis h base (NormalizeSemanticEvent (clNow h) sem) (NormalizeNetworkFlow (clNow h) flow)) }"

definition waitStatus :: "bool \<Rightarrow> string" where "waitStatus required = (if required then ''--'' else ''WAIT'')"

fun last_line :: "string \<Rightarrow> string list \<Rightarrow> string option" where
  "last_line needle [] = None"
| "last_line needle (line # older) = (if Contains line needle then Some line else last_line needle older)"

definition checkLastLogEvent :: "DocHost \<Rightarrow> string \<Rightarrow> string \<Rightarrow> bool \<Rightarrow> check io" where
  "checkLastLogEvent h name needle required =
     (let logPath = daemonLogPath h;
          none = (\<lambda>detail. \<lparr>ckName = name, ckStatus = waitStatus required, ckDetail = detail, ckOk = (\<not> required), ckFail = required\<rparr>)
      in do { r \<leftarrow> ReadFile logPath;
              State_Monad.return (case r of
                Inl _ \<Rightarrow> none (''no daemon log at '' @ logPath)
              | Inr raw \<Rightarrow>
                  (case last_line needle (rev (Split raw ''\<newline>'')) of
                     None \<Rightarrow> none (''none yet in '' @ logPath)
                   | Some line \<Rightarrow>
                       (case (if length line \<ge> 19 then dcLogTime h (take 19 line) else None) of
                          Some ts \<Rightarrow> okCheck name (dcDuration h (time_sub (clNow h) ts) @ '' ago'')
                        | None \<Rightarrow> okCheck name (''seen in '' @ logPath)))) })"

definition checkLastCorrelatedEvent :: "DocHost \<Rightarrow> check io" where
  "checkLastCorrelatedEvent h =
     do { r \<leftarrow> ReadStatus h (clReadStatus h);
          case r of
            Inl _ \<Rightarrow> checkLastLogEvent h ''Last linked event'' ''CORRELATED:'' False
          | Inr st \<Rightarrow>
              (case LastCorrelated st of
                 None \<Rightarrow> do { detail \<leftarrow> missingLinkedDetail h st; State_Monad.return (waitCheck ''Last linked event'' ''WAIT'' detail) }
               | Some ev \<Rightarrow> State_Monad.return (case ValidateCorrelatedEvent (clNow h) ev of
                   Some err \<Rightarrow> waitCheck ''Last linked event'' ''WAIT'' (''last linked event incomplete: '' @ dcErrorText h err)
                 | None \<Rightarrow> okCheck ''Last linked event'' (formatAge h (time_sub (clNow h) (cTS ev)) @ '' ago; real linked evidence OK''))) }"

definition transcriptDetail :: "DocHost \<Rightarrow> FullStatus \<Rightarrow> string" where
  "transcriptDetail h st =
     (let named = (if LastTranscriptKind st = [] then LastTranscriptPath st else LastTranscriptKind st @ '' -> '' @ LastTranscriptPath st)
      in if IsZero (LastTranscriptAt st) then named
         else formatAge h (time_sub (clNow h) (LastTranscriptAt st)) @ '' ago; '' @ named)"

definition transcriptCheck :: "DocHost \<Rightarrow> FullStatus \<Rightarrow> os_error + node \<Rightarrow> check" where
  "transcriptCheck h st info =
     (case info of
        Inl _ \<Rightarrow> waitCheck ''Last transcript'' ''WAIT'' (''missing '' @ LastTranscriptPath st)
      | Inr n \<Rightarrow>
          if nodeIsDir n then waitCheck ''Last transcript'' ''WAIT'' (''path is a directory: '' @ LastTranscriptPath st)
          else if nodeMode n \<noteq> perm600 then
            waitCheck ''Last transcript'' ''WAIT'' (''permissions '' @ showOctal (nodeMode n) @ '', want 0600 at '' @ LastTranscriptPath st)
          else okCheck ''Last transcript'' (transcriptDetail h st))"

definition checkLastTranscript :: "DocHost \<Rightarrow> check io" where
  "checkLastTranscript h =
     do { r \<leftarrow> ReadStatus h (clReadStatus h);
          case r of
            Inl _ \<Rightarrow> waitAtStatus h ''Last transcript'' ''no status at ''
          | Inr st \<Rightarrow>
              (if LastTranscriptPath st = [] then waitAtStatus h ''Last transcript'' ''none yet in ''
               else do { info \<leftarrow> Stat (LastTranscriptPath st); State_Monad.return (transcriptCheck h st info) }) }"

subsection \<open>The inspection report and the whole run\<close>

definition inspectCheck :: "InspectStatus \<Rightarrow> check" where
  "inspectCheck st =
     (let detail = (if caFingerprint (isCA st) = [] then [] else [caFingerprint (isCA st)]) @
            [''trust='' @ isTrustMode st, ''payload='' @ isPayloadMode st] @
            (if psListening (isProxy st) then [''proxy='' @ psAddress (isProxy st)] else [])
      in if \<not> isEnabled st \<and> \<not> caPresent (isCA st) \<and> \<not> SystemTrusted (isTrust st)
         then waitCheck ''HTTPS Inspect'' ''OFF'' ''off by default; no local CA trusted''
         else if isWarnings st \<noteq> [] then waitCheck ''HTTPS Inspect'' ''WARN'' (Join (detail @ isWarnings st) ''; '')
         else waitCheck ''HTTPS Inspect'' (onOff (isEnabled st)) (Join detail ''; ''))"

definition checkInspectMode :: "DocHost \<Rightarrow> check io" where
  "checkInspectMode h = do { st \<leftarrow> doctorInspectStatus h; State_Monad.return (inspectCheck st) }"

definition inspectReport :: "InspectStatus \<Rightarrow> string list" where
  "inspectReport st =
     [''HTTPS Inspect Mode: '' @ onOff (isEnabled st), ''Managed proxy: '' @ onOff (psListening (isProxy st))] @
     (if psAddress (isProxy st) = [] then [] else [''Proxy listener: '' @ psAddress (isProxy st)]) @
     [''CA present: '' @ yesNo (caPresent (isCA st))] @
     (if caFingerprint (isCA st) = [] then [] else [''CA fingerprint: '' @ caFingerprint (isCA st)]) @
     [''Trust mode: '' @ isTrustMode st, ''System trust: '' @ yesNo (SystemTrusted (isTrust st)),
      ''Payload retention: '' @ isPayloadMode st @ '', '' @ isRetention st] @
     map (\<lambda>w. ''WARN: '' @ w) (isWarnings st)"

definition printInspectDoctor :: "DocHost \<Rightarrow> unit io" where
  "printInspectDoctor h = do { st \<leftarrow> doctorInspectStatus h; printLines (inspectReport st) }"

definition checkFailed :: "check \<Rightarrow> bool" where
  "checkFailed c = (ckFail c \<or> (\<not> ckOk c \<and> ckStatus c = []))"

definition pad_right :: "nat \<Rightarrow> string \<Rightarrow> string" where
  "pad_right w v = v @ replicate (w - length v) (CHR '' '')"

definition checkLine :: "check \<Rightarrow> string" where
  "checkLine c =
     (let icon = (if ckStatus c \<noteq> [] then ckStatus c else if ckOk c then ''OK'' else ''--'')
      in pad_right 22 (ckName c @ '':'') @ '' '' @ icon @ (if ckDetail c = [] then [] else ''  '' @ ckDetail c))"

fun runChecks :: "check io list \<Rightarrow> check list io" where
  "runChecks [] = State_Monad.return []"
| "runChecks (m # ms) = do { c \<leftarrow> m; cs \<leftarrow> runChecks ms; State_Monad.return (c # cs) }"

definition doctorChecks :: "DocHost \<Rightarrow> check list io" where
  "doctorChecks h =
     do { emitter \<leftarrow> preferredEmitterPath h;
          runChecks [checkEmitter emitter, checkClaudeHooks h emitter, checkDaemonSocket h, checkUIListener h, checkLastHookEvent h,
            checkLastNetworkEvent h, checkNetworkExtension h, checkInspectMode h, checkLastCorrelatedEvent h, checkLastTranscript h] }"

definition doctorMain :: "DocHost \<Rightarrow> string list \<Rightarrow> int io" where
  "doctorMain h args =
     (if args \<noteq> [] \<and> hd args = ''inspect'' then do { _ \<leftarrow> printInspectDoctor h; State_Monad.return 0 }
      else do {
        checks \<leftarrow> doctorChecks h;
        _ \<leftarrow> printLines (map checkLine checks);
        State_Monad.return (if list_ex checkFailed checks then 1 else 0) })"

section \<open>Lemmas\<close>

lemma Installed_Nil [simp]: "\<not> Installed [] emitter arg"
  by (simp add: Installed_def ShellFields_def scan_flush_def)

lemma commandHasEmitter_iff:
  "commandHasEmitter emitter arg command \<longleftrightarrow> (\<exists>hook. command = JObj hook \<and> Installed (commandOf hook) emitter arg)"
proof (cases command)
  case (JObj hook)
  then show ?thesis by (cases "commandOf hook") (simp_all add: commandHasEmitter_def asMap_def Let_def)
qed (simp_all add: commandHasEmitter_def asMap_def commandOf_def jstring_def)

text \<open>The doctor's search for an installed hook finds what the installer's status finds.\<close>

lemma group_commands:
  "(\<exists>cmd \<in> set (commandsOf item). P cmd) \<longleftrightarrow>
     (\<exists>command \<in> set (asSlice (mget (asMap (Some item)) ''hooks'')). \<exists>hook. command = JObj hook \<and> P (commandOf hook))"
proof (cases item)
  case (JObj grp)
  have "(case h of JObj hook \<Rightarrow> Some (commandOf hook) | _ \<Rightarrow> None) = Some cmd \<longleftrightarrow> (\<exists>hook. h = JObj hook \<and> cmd = commandOf hook)" for h cmd
    by (cases h) auto
  then show ?thesis using JObj by (auto simp: asMap_def set_map_filter)
qed (simp_all add: asMap_def)

lemma hookHasEmitter_hookInstalled:
  "hookHasEmitter hooks (hsEvent spec) emitter (hsArg spec) \<longleftrightarrow> hookInstalled hooks spec emitter"
  using group_commands [of _ "\<lambda>cmd. Installed cmd emitter (hsArg spec)"]
  by (simp add: hookHasEmitter_def hookInstalled_iff eventCommands_def list_ex_iff commandHasEmitter_iff)

lemma hooksCheck_lists_missing:
  "hooksCheck (Some doc) emitter =
     (let missing = map hsEvent (filter (\<lambda>spec. \<not> hookInstalled (hooksMap doc) spec emitter) allHookSpecs)
      in if missing = [] then okCheck ''Claude hooks'' ''PreToolUse and PostToolUse installed''
         else setupCheck ''Claude hooks'' (''missing or wrong: '' @ Join missing '', '' @ ''; open AgentSnitch Settings > Hooks''))"
proof -
  have "asMap (mget doc ''hooks'') = hooksMap doc" by (simp add: asMap_def hooksMap_def split: option.split json.split)
  then show ?thesis
    by (simp add: hooksCheck_def Let_def allHookSpecs_def preEvent_def postEvent_def flip: hookHasEmitter_hookInstalled)
qed

section \<open>Properties\<close>

text \<open>C28. The doctor and the installer agree hook by hook: on every settings document and emitter, the doctor reports the
  hooks as installed exactly when hookctl's status is up to date for all hook events, and otherwise lists exactly the
  events whose hook status is not up to date, in the order of the status.\<close>

theorem doctor_agrees_with_hookctl:
  "hooksCheck (Some doc) (hoEmitter opts) =
     (let status = agentStatusOf (opts\<lparr>hoEvents := allHookSpecs\<rparr>) target doc exists;
          missing = map stEvent (filter (\<lambda>hook. \<not> stUpToDate hook) (asHooks status))
      in if asAllUpToDate status then okCheck ''Claude hooks'' ''PreToolUse and PostToolUse installed''
         else setupCheck ''Claude hooks'' (''missing or wrong: '' @ Join missing '', '' @ ''; open AgentSnitch Settings > Hooks''))"
proof -
  have event: "stEvent (statusForHook hooks spec emitter) = hsEvent spec" for hooks spec emitter
  proof -
    have "stEvent (status_loop emitter arg cmds st) = stEvent st" for arg cmds st by (induction cmds arbitrary: st) simp_all
    then show ?thesis by (simp add: statusForHook_def missingStatus_def)
  qed
  then have "map stEvent (filter (\<lambda>hook. \<not> stUpToDate hook) (map (\<lambda>spec. statusForHook hooks spec emitter) specs)) =
      map hsEvent (filter (\<lambda>spec. \<not> hookInstalled hooks spec emitter) specs)" for hooks emitter specs
    by (induction specs) (simp_all add: hookInstalled_def)
  then show ?thesis
    by (simp add: hooksCheck_lists_missing agentStatusOf_def Let_def hookInstalled_def list_all_iff filter_empty_conv)
qed

lemma tags_agree: "isSensitiveSignal sem = hasSensitiveTag sem" "IsEgressLike sem = isEgressLike sem" "isActiveNetworkFlow flow = isActiveFlow flow"
  by (simp_all add: isSensitiveSignal_def hasSensitiveTag_def IsEgressLike_def isEgressLike_def isActiveNetworkFlow_def isActiveFlow_def)

lemma windows_agree: "CorrelationWindow = 10 * Second" "ExistingConnectionWindow = 30 * Second"
  by code_simp+

text \<open>The doctor's timing diagnosis against the correlator: it is silent exactly when the correlator accepts the
  timing, with one exception: for an egress-like hook without a sensitive tag that follows an active flow, which the
  correlator links, the doctor reports that they are outside the correlation window.\<close>

theorem doctor_window_vs_correlator:
  assumes "sTS sem \<noteq> 0" "fTS flow \<noteq> 0"
  shows "linkedTimeMissReason h sem flow = [] \<longleftrightarrow>
    timingReasons sem flow (fTS flow) \<noteq> [] \<and> \<not> (time_sub (fTS flow) (sTS sem) < 0 \<and> \<not> hasSensitiveTag sem)"
  using assms
  by (simp add: linkedTimeMissReason_def timingReasons_def tags_agree windows_agree IsZero_def Let_def)

definition fetchHook :: SemanticEvent where
  "fetchHook = zeroSemantic\<lparr>sTS := 12 * Second, sTool := ''WebFetch''\<rparr>"

definition openFlow :: NetworkFlowEvent where
  "openFlow = zeroFlow\<lparr>fTS := 5 * Second, fState := ''established''\<rparr>"

theorem doctor_window_vs_correlator_witness:
  "(\<forall>h. linkedTimeMissReason h fetchHook openFlow \<noteq> []) \<and> timingReasons fetchHook openFlow (fTS openFlow) = [''existing_connection_active'']"
proof -
  have "sTS fetchHook \<noteq> 0" "fTS openFlow \<noteq> 0" "time_sub (fTS openFlow) (sTS fetchHook) < 0" "\<not> hasSensitiveTag fetchHook"
    "timingReasons fetchHook openFlow (fTS openFlow) = [''existing_connection_active'']" by code_simp+
  then show ?thesis using doctor_window_vs_correlator [of fetchHook openFlow] by simp
qed

end
