(* ===== verification/Neready.thy ===== *)
theory Neready
  imports Go_OS
begin

text \<open>
  \<open>cmd/neready/main.go\<close>: the readiness checks of the network extension. The command only looks: the host is a record
  of what \<open>os.Stat\<close> and \<open>os.ReadFile\<close> find, what the tools \<open>plutil\<close>, \<open>codesign\<close>, \<open>nm\<close>, \<open>strings\<close>, \<open>security\<close> and
  \<open>systemextensionsctl\<close> print (with whether they succeeded), and one environment variable.
\<close>

section \<open>Definitions\<close>

record NereadyHost =
  nrStat :: "string \<Rightarrow> node option"
  nrRead :: "string \<Rightarrow> string option"
  nrExec :: "string list \<Rightarrow> bool \<times> string"
  nrAppPath :: string

definition hostEntitlementsPath :: string where "hostEntitlementsPath = ''ui/src-tauri/entitlements.plist''"
definition extensionInfoPath :: string where "extensionInfoPath = ''extension/Info.plist''"
definition extensionEntPath :: string where "extensionEntPath = ''extension/entitlements.plist''"
definition xpcProtocolPath :: string where "xpcProtocolPath = ''extension/AgentSnitchXPCProtocol.swift''"
definition hostBridgePath :: string where "hostBridgePath = ''extension/AgentSnitchHostBridge.swift''"
definition extensionSourcePath :: string where "extensionSourcePath = ''extension/AgentSnitchNetworkExtension.swift''"
definition tauriBackendPath :: string where "tauriBackendPath = ''ui/src-tauri/src/lib.rs''"
definition uiDistPath :: string where "uiDistPath = ''ui/dist/index.html''"
definition defaultAppBundlePath :: string where "defaultAppBundlePath = ''/Applications/AgentSnitch.app''"
definition extensionBundleID :: string where "extensionBundleID = ''com.somoore.agentsnitch.network-extension''"
definition extensionBundleName :: string where "extensionBundleName = extensionBundleID @ ''.systemextension''"
definition hostBridgeDylibName :: string where "hostBridgeDylibName = ''libAgentSnitchHostBridge.dylib''"
definition builtExtensionPath :: string where "builtExtensionPath = ''extension/build/'' @ extensionBundleName"
definition builtHostBridgePath :: string where "builtHostBridgePath = ''extension/build/'' @ hostBridgeDylibName"

record check =
  ckName :: string
  ckStatus :: string
  ckDetail :: string
  ckFail :: bool

definition okCheck :: "string \<Rightarrow> string \<Rightarrow> check" where
  "okCheck name detail = \<lparr>ckName = name, ckStatus = ''OK'', ckDetail = detail, ckFail = False\<rparr>"

definition warnCheck :: "string \<Rightarrow> string \<Rightarrow> check" where
  "warnCheck name detail = \<lparr>ckName = name, ckStatus = ''WARN'', ckDetail = detail, ckFail = False\<rparr>"

definition failCheck :: "string \<Rightarrow> string \<Rightarrow> check" where
  "failCheck name detail = \<lparr>ckName = name, ckStatus = ''FAIL'', ckDetail = detail, ckFail = True\<rparr>"

definition blob :: "NereadyHost \<Rightarrow> string \<Rightarrow> string" where
  "blob h path = (case nrRead h path of Some raw \<Rightarrow> raw | None \<Rightarrow> [])"

definition present :: "NereadyHost \<Rightarrow> string \<Rightarrow> bool" where
  "present h path = (nrStat h path \<noteq> None)"

definition isFile :: "NereadyHost \<Rightarrow> string \<Rightarrow> bool" where
  "isFile h path = (case nrStat h path of Some n \<Rightarrow> \<not> nodeIsDir n | None \<Rightarrow> False)"

definition toolText :: "NereadyHost \<Rightarrow> string list \<Rightarrow> string" where
  "toolText h argv = snd (nrExec h argv)"

definition appBundlePath :: "NereadyHost \<Rightarrow> string" where
  "appBundlePath h = (let path = TrimSpace (nrAppPath h) in if path \<noteq> [] then path else defaultAppBundlePath)"

definition checkPlistSyntax :: "NereadyHost \<Rightarrow> string \<Rightarrow> string \<Rightarrow> check" where
  "checkPlistSyntax h name path =
     (if \<not> present h path then failCheck name (path @ '' missing'')
      else case nrExec h [''plutil'', ''-lint'', path] of
        (False, out) \<Rightarrow> failCheck name (TrimSpace out)
      | (True, _) \<Rightarrow> okCheck name path)"

definition checkSourceFile :: "NereadyHost \<Rightarrow> string \<Rightarrow> string \<Rightarrow> check" where
  "checkSourceFile h name path = (if present h path then okCheck name path else failCheck name (path @ '' missing''))"

definition containsCheck :: "string \<Rightarrow> string \<Rightarrow> string \<Rightarrow> string \<Rightarrow> check" where
  "containsCheck name text needle detail =
     (if Contains text needle then okCheck name detail else failCheck name (''missing '' @ needle))"

definition forbiddenNeedlesCheck :: "string \<Rightarrow> string \<Rightarrow> string list \<Rightarrow> string \<Rightarrow> check" where
  "forbiddenNeedlesCheck name text forbidden detail =
     (case find (Contains text) forbidden of
        Some needle \<Rightarrow> failCheck name (''forbidden '' @ needle)
      | None \<Rightarrow> okCheck name detail)"

definition forbiddenEntitlements :: "string list" where
  "forbiddenEntitlements = [''app-proxy-provider-systemextension'', ''packet-tunnel-provider-systemextension'', ''dns-proxy-systemextension'']"

definition forbiddenAPIs :: "string list" where
  "forbiddenAPIs = [''URLSession'', ''URLRequest'', ''NWConnection'', ''NETransparentProxyProvider'', ''NEAppProxyProvider'',
     ''NEPacketTunnelProvider'', ''NEDNSProxyProvider'', ''socket(AF_INET'', ''socket(AF_INET6'', ''NSXPCListener'', ''listen('', ''accept('']"

definition bridgeSymbols :: "string list" where
  "bridgeSymbols = [''AgentSnitchHostBridgeStart'', ''AgentSnitchHostBridgeActivateSystemExtension'',
     ''AgentSnitchHostBridgeSetNetworkSensorDisabled'']"

definition checkTauriHostBridgeLinked :: "string \<Rightarrow> check" where
  "checkTauriHostBridgeLinked tauriBackend =
     (let name = ''Tauri host bridge linked''
      in if tauriBackend = [] then failCheck name (tauriBackendPath @ '' missing or empty'')
         else if Contains tauriBackend ''NE activation stub complete'' \<or> Contains tauriBackend ''(stub)'' then
           failCheck name ''Tauri backend still uses activation stub; Swift host bridge is not linked/called at runtime''
         else if list_all (Contains tauriBackend) bridgeSymbols \<and> Contains tauriBackend hostBridgeDylibName then
           okCheck name ''Tauri dynamically loads host bridge dylib and calls start/activate/disable exports''
         else warnCheck name ''no activation stub found, but host bridge dynamic linkage could not be proven'')"

text \<open>The contracts in the order of the source: name, file, needle, detail.\<close>

definition captureBytesNeedle :: string where
  "captureBytesNeedle = [CHR 0x22] @ ''capture_bytes'' @ [CHR 0x22] @ '': false''"

definition observeLocalNeedle :: string where
  "observeLocalNeedle = [CHR 0x22] @ ''observe_local'' @ [CHR 0x22] @ '': false''"

definition entitlementContracts :: "(string \<times> string \<times> string \<times> string) list" where
  "entitlementContracts =
    [(''Host sysext install entitlement'', hostEntitlementsPath, ''com.apple.developer.system-extension.install'', ''host can request OSSystemExtension activation''),
     (''Host NE entitlement'', hostEntitlementsPath, ''content-filter-provider-systemextension'', ''host declares content-filter system extension capability''),
     (''Extension NE entitlement'', extensionEntPath, ''content-filter-provider-systemextension'', ''extension declares matching content-filter capability'')]"

definition sourceContracts :: "(string \<times> string \<times> string \<times> string) list" where
  "sourceContracts =
    [(''Extension bundle id'', extensionInfoPath, extensionBundleID, extensionBundleID),
     (''Extension provider type'', extensionInfoPath, ''com.apple.networkextension.filter-data'', ''NEFilterDataProvider / content filter''),
     (''XPC service name'', xpcProtocolPath, ''com.somoore.agentsnitch.xpc'', ''shared extension->host XPC service name''),
     (''Host XPC receiver'', hostBridgePath, ''handleFlowEvent'', ''host bridge receives FlowEvent Data over XPC''),
     (''Host daemon forwarder'', hostBridgePath, ''forwardToDaemon'', ''host bridge forwards FlowEvent JSON to daemon socket''),
     (''Host filter manager'', hostBridgePath, ''NEFilterManager.shared'', ''host bridge configures NEFilterManager preferences''),
     (''Host filter bundle binding'', hostBridgePath, ''filterDataProviderBundleIdentifier'', ''content filter binds to AgentSnitch data provider bundle id''),
     (''NE byte capture default'', hostBridgePath, captureBytesNeedle, ''host config leaves byte callbacks disabled by default''),
     (''NE local traffic default'', hostBridgePath, observeLocalNeedle, ''host config excludes local/private routine traffic by default''),
     (''OS Sensor off by default'', tauriBackendPath, ''network_sensor_disabled: true'', ''fresh settings start in User Visibility until the user enables OS Sensor mode''),
     (''Static UI OS Sensor default'', uiDistPath, ''high_assurance_default_enabled: false'', ''static UI initializes OS Sensor startup default as off before settings load''),
     (''Static UI OS Sensor label'', uiDistPath, ''OS Sensor mode'', ''settings expose OS Sensor as the user-facing mode instead of raw Network Extension wording''),
     (''Tauri NE env kill switch'', tauriBackendPath, ''AGENTSNITCH_DISABLE_NETWORK_EXTENSION'', ''app-side kill switch skips activation and requests filter disable''),
     (''Host bridge disable waits'', hostBridgePath, ''DispatchSemaphore'', ''disable/enable bridge waits for NEFilterManager save result instead of fire-and-forget''),
     (''NE byte lifecycle gate'', extensionSourcePath, ''guard captureByteLifecycle else'', ''provider allows flows without byte callbacks by default''),
     (''NE fail-open new flow'', extensionSourcePath, ''return .allow()'', ''provider returns allow verdicts on unavailable delivery, local/private skip, and default observe path''),
     (''NE process audit token source'', extensionSourcePath, ''sourceProcessAuditToken'', ''provider prefers process audit token for PID attribution''),
     (''NE modern endpoint source'', extensionSourcePath, ''remoteFlowEndpoint'', ''provider uses macOS 15+ Network endpoint metadata''),
     (''NE hostname hint source'', extensionSourcePath, ''hostnameHint(socketFlow.remoteHostname)'', ''provider preserves remoteHostname as a destination display hint'')]"

definition capContracts :: "(string \<times> string \<times> string \<times> string) list" where
  "capContracts =
    [(''NE event payload cap'', extensionSourcePath, ''maxEncodedEventBytes'', ''extension rejects oversized encoded events before local IPC''),
     (''NE config payload cap'', extensionSourcePath, ''maxDaemonSocketPathBytes'', ''extension rejects oversized daemon socket configuration''),
     (''Host XPC payload cap'', hostBridgePath, ''maxForwardedEventBytes'', ''host XPC fallback rejects oversized FlowEvent payloads before daemon forwarding'')]"

definition contractCheck :: "NereadyHost \<Rightarrow> string \<times> string \<times> string \<times> string \<Rightarrow> check" where
  "contractCheck h = (\<lambda>(name, path, needle, detail). containsCheck name (blob h path) needle detail)"

definition moduleVariable :: string where "moduleVariable = ''$(PRODUCT_MODULE_NAME)''"

definition checkSourceContracts :: "NereadyHost \<Rightarrow> check list" where
  "checkSourceContracts h =
     map (contractCheck h) entitlementContracts @
     [forbiddenNeedlesCheck ''Extension entitlement minimum'' (blob h extensionEntPath) forbiddenEntitlements ''content-filter entitlement only''] @
     map (contractCheck h) sourceContracts @
     [forbiddenNeedlesCheck ''NE no remote egress APIs'' (blob h extensionSourcePath) forbiddenAPIs
        ''extension source contains no proxy, tunnel, remote socket, HTTP, or inbound-listener APIs''] @
     map (contractCheck h) capContracts @
     [checkTauriHostBridgeLinked (blob h tauriBackendPath),
      (if Contains (blob h extensionInfoPath) moduleVariable
       then warnCheck ''Principal class concrete'' ''NSExtensionPrincipalClass still uses $(PRODUCT_MODULE_NAME); Xcode must substitute it or Info.plist must be concrete''
       else okCheck ''Principal class concrete'' ''principal class is concrete'')]"

definition toolContains :: "NereadyHost \<Rightarrow> string \<Rightarrow> string list \<Rightarrow> string \<Rightarrow> string \<Rightarrow> check" where
  "toolContains h name argv needle detail =
     (case nrExec h argv of
        (False, out) \<Rightarrow> failCheck name (TrimSpace out)
      | (True, out) \<Rightarrow> if Contains out needle then okCheck name detail else failCheck name (''missing '' @ needle))"

definition checkDylibSymbol :: "NereadyHost \<Rightarrow> string \<Rightarrow> string \<Rightarrow> string \<Rightarrow> check" where
  "checkDylibSymbol h name path symbol = toolContains h name [''nm'', ''-gU'', path] symbol symbol"

definition checkDylibContains :: "NereadyHost \<Rightarrow> string \<Rightarrow> string \<Rightarrow> string \<Rightarrow> string \<Rightarrow> check" where
  "checkDylibContains h name path needle detail = toolContains h name [''strings'', path] needle detail"

definition checkBinaryContains :: "NereadyHost \<Rightarrow> string \<Rightarrow> string \<Rightarrow> string \<Rightarrow> string \<Rightarrow> check" where
  "checkBinaryContains h name path needle detail = toolContains h name [''strings'', path] needle detail"

definition signatureCheck :: "string \<Rightarrow> string \<Rightarrow> string \<Rightarrow> check" where
  "signatureCheck name codesignText adhoc =
     (if Contains codesignText ''Signature=adhoc'' then warnCheck name adhoc
      else if TrimSpace codesignText = [] then failCheck name ''codesign did not report signature''
      else okCheck name ''not ad hoc'')"

definition extensionExecutable :: "string \<Rightarrow> string" where
  "extensionExecutable bundle = PathJoin [bundle, ''Contents'', ''MacOS'', ''AgentSnitchNetworkExtension'']"

definition checkBuiltExtension :: "NereadyHost \<Rightarrow> check list" where
  "checkBuiltExtension h =
     (if \<not> present h builtExtensionPath
      then [failCheck ''Built system extension'' (builtExtensionPath @ '' missing; run make build-extension'')]
      else
        let infoPath = PathJoin [builtExtensionPath, ''Contents'', ''Info.plist''];
            execPath = extensionExecutable builtExtensionPath
        in [okCheck ''Built system extension'' builtExtensionPath,
            (case nrRead h infoPath of
               None \<Rightarrow> failCheck ''Built extension Info.plist'' (infoPath @ '' missing'')
             | Some info \<Rightarrow>
                 if Contains info moduleVariable
                 then failCheck ''Built principal class'' ''principal class still contains $(PRODUCT_MODULE_NAME)''
                 else okCheck ''Built principal class'' ''principal class is concrete'')] @
           (if \<not> isFile h execPath then [failCheck ''Built extension executable'' (execPath @ '' missing'')]
            else [okCheck ''Built extension executable'' execPath,
                  checkBinaryContains h ''Built NE process audit token'' execPath ''sourceProcessAuditToken'' ''prefers process audit token attribution'']) @
           [signatureCheck ''Built extension signature'' (toolText h [''codesign'', ''-dvvv'', ''--entitlements'', '':-'', builtExtensionPath])
              ''ad hoc signed; use AGENTSNITCH_EXT_SIGN_IDENTITY for production signing''])"

definition bridgeChecks :: "NereadyHost \<Rightarrow> string \<Rightarrow> string \<Rightarrow> string \<Rightarrow> check list" where
  "bridgeChecks h stage path detail =
     [checkDylibSymbol h (stage @ '' host bridge start symbol'') path ''AgentSnitchHostBridgeStart'',
      checkDylibSymbol h (stage @ '' host bridge activate symbol'') path ''AgentSnitchHostBridgeActivateSystemExtension'',
      checkDylibSymbol h (stage @ '' host bridge disable symbol'') path ''AgentSnitchHostBridgeSetNetworkSensorDisabled'',
      checkDylibContains h (stage @ '' host bridge filter manager'') path ''NEFilterManager'' detail]"

definition checkBuiltHostBridge :: "NereadyHost \<Rightarrow> check list" where
  "checkBuiltHostBridge h =
     (if \<not> isFile h builtHostBridgePath
      then [failCheck ''Built host bridge dylib'' (builtHostBridgePath @ '' missing; run make build-extension'')]
      else [okCheck ''Built host bridge dylib'' builtHostBridgePath] @
           bridgeChecks h ''Built'' builtHostBridgePath ''contains NEFilterManager configuration code'' @
           [signatureCheck ''Built host bridge signature'' (toolText h [''codesign'', ''-dvvv'', builtHostBridgePath])
              ''ad hoc signed; use a real signing identity for production''])"

subsection \<open>The installed application\<close>

definition checkProvisioningProfile :: "NereadyHost \<Rightarrow> string \<Rightarrow> string \<Rightarrow> string list \<Rightarrow> string \<Rightarrow> check" where
  "checkProvisioningProfile h name path required detail =
     (if \<not> present h path then failCheck name (path @ '' missing'')
      else case nrExec h [''security'', ''cms'', ''-D'', ''-i'', path] of
        (False, out) \<Rightarrow> failCheck name (TrimSpace out)
      | (True, out) \<Rightarrow>
          (case find (\<lambda>needle. \<not> Contains out needle) required of
             Some needle \<Rightarrow> failCheck name (''missing '' @ needle)
           | None \<Rightarrow> okCheck name detail))"

definition checkSignedSystemExtension :: "string \<Rightarrow> check list" where
  "checkSignedSystemExtension codesignText =
     (if TrimSpace codesignText = [] then [failCheck ''Embedded extension signature'' ''codesign did not report signature'']
      else
        [(if Contains codesignText ''Signature=adhoc''
          then failCheck ''Embedded extension signature'' ''ad hoc signed; System Extension activation requires real Apple signing/provisioning''
          else okCheck ''Embedded extension signature'' ''not ad hoc''),
         (if Contains codesignText ''content-filter-provider-systemextension''
          then okCheck ''Embedded extension entitlements'' ''signed extension includes content-filter-provider-systemextension''
          else failCheck ''Embedded extension entitlements'' ''signed extension does not show content-filter-provider-systemextension entitlement'')])"

fun team_line :: "string list \<Rightarrow> string" where
  "team_line [] = []"
| "team_line (l # ls) =
     (let line = TrimSpace l
      in if HasPrefix line ''TeamIdentifier=''
         then (let v = TrimSpace (TrimPrefix line ''TeamIdentifier='') in if v = ''not set'' then [] else v)
         else team_line ls)"

definition parseTeamIdentifier :: "string \<Rightarrow> string" where
  "parseTeamIdentifier codesignText = team_line (Split codesignText ''\<newline>'')"

definition teamIdentifierForPath :: "NereadyHost \<Rightarrow> string \<Rightarrow> string" where
  "teamIdentifierForPath h path =
     (if path = [] then []
      else case nrExec h [''codesign'', ''-dvvv'', path] of
        (ok, out) \<Rightarrow> if \<not> ok \<and> out = [] then [] else parseTeamIdentifier out)"

definition quoted :: "string \<Rightarrow> string" where "quoted v = [CHR 0x22] @ v @ [CHR 0x22]"

definition teamsText :: "string \<Rightarrow> string \<Rightarrow> string \<Rightarrow> string" where
  "teamsText app ext bridge = ''(app='' @ quoted app @ '' extension='' @ quoted ext @ '' bridge='' @ quoted bridge @ '')''"

definition checkInstalledTeamAlignment :: "NereadyHost \<Rightarrow> string \<Rightarrow> string \<Rightarrow> string \<Rightarrow> check" where
  "checkInstalledTeamAlignment h appPath extensionPath bridgePath =
     (let app = teamIdentifierForPath h appPath; ext = teamIdentifierForPath h extensionPath; bridge = teamIdentifierForPath h bridgePath;
          name = ''Installed signing team alignment''
      in if app = [] \<or> ext = [] \<or> bridge = [] then
           failCheck name (''TeamIdentifier missing '' @ teamsText app ext bridge @ ''; NE activation requires one real Team ID across installed artifacts'')
         else if app \<noteq> ext \<or> app \<noteq> bridge then failCheck name (''TeamIdentifier mismatch '' @ teamsText app ext bridge)
         else okCheck name (''all installed artifacts signed by TeamIdentifier='' @ app))"

definition installedAppExecutablePath :: "NereadyHost \<Rightarrow> string + string" where
  "installedAppExecutablePath h =
     (case nrExec h [''plutil'', ''-extract'', ''CFBundleExecutable'', ''raw'', PathJoin [appBundlePath h, ''Contents'', ''Info.plist'']] of
        (False, out) \<Rightarrow> Inl (''could not read CFBundleExecutable: '' @ TrimSpace out)
      | (True, out) \<Rightarrow>
          if TrimSpace out = [] then Inl ''CFBundleExecutable is empty''
          else Inr (PathJoin [appBundlePath h, ''Contents'', ''MacOS'', TrimSpace out]))"

definition checkInstalledTauriBinary :: "NereadyHost \<Rightarrow> check list" where
  "checkInstalledTauriBinary h =
     (case installedAppExecutablePath h of
        Inl err \<Rightarrow> [failCheck ''Installed app executable'' err]
      | Inr execPath \<Rightarrow>
          if \<not> isFile h execPath then [failCheck ''Installed app executable'' (execPath @ '' missing'')]
          else [okCheck ''Installed app executable'' execPath,
            (case nrExec h [''strings'', execPath] of
               (False, out) \<Rightarrow> failCheck ''Installed app bridge loader'' (TrimSpace out)
             | (True, text) \<Rightarrow>
                 if list_all (Contains text) bridgeSymbols \<and> Contains text hostBridgeDylibName
                 then okCheck ''Installed app bridge loader'' ''binary contains host bridge dylib loader and start/activate/disable symbols''
                 else failCheck ''Installed app bridge loader'' ''installed Tauri binary does not contain host bridge loader symbols; rebuild and reinstall app'')])"

definition teamLine :: "string \<Rightarrow> string" where
  "teamLine codesignText =
     (case find (\<lambda>line. HasPrefix line ''TeamIdentifier='') (Split codesignText ''\<newline>'') of
        Some line \<Rightarrow> line | None \<Rightarrow> ''TeamIdentifier not reported'')"

definition appSignatureChecks :: "string \<Rightarrow> check list" where
  "appSignatureChecks codesignText =
     [(if Contains codesignText ''Signature=adhoc''
       then failCheck ''App signature'' ''ad hoc signed; NE activation requires a real Apple signing identity/profile''
       else okCheck ''App signature'' ''not ad hoc''),
      (if Contains codesignText ''TeamIdentifier=not set'' then failCheck ''App team id'' ''TeamIdentifier not set''
       else okCheck ''App team id'' (teamLine codesignText)),
      (if Contains codesignText ''com.apple.developer.system-extension.install'' \<and> Contains codesignText ''content-filter-provider-systemextension''
       then okCheck ''Signed app entitlements'' ''system-extension + networkextension present''
       else failCheck ''Signed app entitlements'' ''signed app does not show required system-extension/networkextension entitlements'')]"

definition embeddedExtensionPath :: "NereadyHost \<Rightarrow> string" where
  "embeddedExtensionPath h = PathJoin [appBundlePath h, ''Contents'', ''Library'', ''SystemExtensions'', extensionBundleName]"

definition embeddedBridgePath :: "NereadyHost \<Rightarrow> string" where
  "embeddedBridgePath h = PathJoin [appBundlePath h, ''Contents'', ''Frameworks'', hostBridgeDylibName]"

definition embeddedExtensionChecks :: "NereadyHost \<Rightarrow> check list" where
  "embeddedExtensionChecks h =
     (let embedded = embeddedExtensionPath h; exec = extensionExecutable embedded
      in if \<not> present h embedded then [failCheck ''Embedded system extension'' (embedded @ '' missing'')]
         else [okCheck ''Embedded system extension'' embedded,
               checkProvisioningProfile h ''Embedded extension profile'' (PathJoin [embedded, ''Contents'', ''embedded.provisionprofile''])
                 [''com.apple.application-identifier'', extensionBundleID, ''content-filter-provider-systemextension'']
                 ''extension profile covers extension id and content-filter entitlement''] @
              checkSignedSystemExtension (toolText h [''codesign'', ''-dvvv'', ''--entitlements'', '':-'', embedded]) @
              (if \<not> isFile h exec then [failCheck ''Embedded extension executable'' (exec @ '' missing'')]
               else [okCheck ''Embedded extension executable'' exec,
                     checkBinaryContains h ''Embedded NE process audit token'' exec ''sourceProcessAuditToken'' ''prefers process audit token attribution'']))"

definition checkInstalledApp :: "NereadyHost \<Rightarrow> check list" where
  "checkInstalledApp h =
     (let app = appBundlePath h; bridge = embeddedBridgePath h
      in if \<not> present h app then [failCheck ''Installed app'' (app @ '' missing'')]
         else [okCheck ''Installed app'' app] @ checkInstalledTauriBinary h @
              appSignatureChecks (toolText h [''codesign'', ''-dvvv'', ''--entitlements'', '':-'', app]) @
              [checkProvisioningProfile h ''Embedded host profile'' (PathJoin [app, ''Contents'', ''embedded.provisionprofile''])
                 [''com.apple.application-identifier'', ''com.somoore.agentsnitch'', ''com.apple.developer.system-extension.install'',
                  ''content-filter-provider-systemextension'']
                 ''host profile covers app id, System Extension install, and content-filter entitlement''] @
              embeddedExtensionChecks h @
              (if \<not> present h bridge then [failCheck ''Embedded host bridge dylib'' (bridge @ '' missing'')]
               else okCheck ''Embedded host bridge dylib'' bridge #
                    bridgeChecks h ''Embedded'' bridge ''installed dylib contains NEFilterManager configuration code'') @
              [checkInstalledTeamAlignment h app (embeddedExtensionPath h) bridge])"

definition checkSystemExtensionState :: "NereadyHost \<Rightarrow> check" where
  "checkSystemExtensionState h =
     (case nrExec h [''systemextensionsctl'', ''list''] of
        (False, out) \<Rightarrow> warnCheck ''System extension state'' (TrimSpace out)
      | (True, out) \<Rightarrow>
          if Contains out extensionBundleID then okCheck ''System extension state'' ''listed by systemextensionsctl''
          else failCheck ''System extension state'' (extensionBundleID @ '' is not activated/listed''))"

definition nereadyChecks :: "NereadyHost \<Rightarrow> check list" where
  "nereadyChecks h =
     [checkPlistSyntax h ''Host entitlements'' hostEntitlementsPath, checkPlistSyntax h ''Extension Info.plist'' extensionInfoPath,
      checkPlistSyntax h ''Extension entitlements'' extensionEntPath, checkSourceFile h ''XPC protocol source'' xpcProtocolPath,
      checkSourceFile h ''Host bridge source'' hostBridgePath, checkSourceFile h ''Network Extension source'' extensionSourcePath,
      checkSourceFile h ''Tauri backend source'' tauriBackendPath, checkSourceFile h ''Tauri static UI'' uiDistPath] @
     checkSourceContracts h @ checkBuiltExtension h @ checkBuiltHostBridge h @ checkInstalledApp h @ [checkSystemExtensionState h]"

definition nereadyExit :: "NereadyHost \<Rightarrow> int" where
  "nereadyExit h = (if list_ex ckFail (nereadyChecks h) then 1 else 0)"

section \<open>Lemmas\<close>

lemma check_fail_simps [simp]: "\<not> ckFail (okCheck n d)" "\<not> ckFail (warnCheck n d)" "ckFail (failCheck n d)"
  by (simp_all add: okCheck_def warnCheck_def failCheck_def)

lemma containsCheck_fail [simp]: "ckFail (containsCheck n t needle d) \<longleftrightarrow> \<not> Contains t needle"
  by (simp add: containsCheck_def)

lemma forbiddenNeedlesCheck_fail [simp]: "ckFail (forbiddenNeedlesCheck n t forbidden d) \<longleftrightarrow> list_ex (Contains t) forbidden"
  by (auto simp: forbiddenNeedlesCheck_def list_ex_iff find_None_iff find_Some_iff split: option.split)

lemma alignment_fail [simp]:
  "ckFail (checkInstalledTeamAlignment h a e b) \<longleftrightarrow>
     teamIdentifierForPath h a = [] \<or> teamIdentifierForPath h e \<noteq> teamIdentifierForPath h a \<or> teamIdentifierForPath h b \<noteq> teamIdentifierForPath h a"
  by (auto simp: checkInstalledTeamAlignment_def Let_def)

lemma nereadyExit_0: "nereadyExit h = 0 \<longleftrightarrow> (\<forall>c \<in> set (nereadyChecks h). \<not> ckFail c)"
  by (auto simp: nereadyExit_def list_ex_iff)

lemma ready_parts:
  assumes "nereadyExit h = 0"
  shows "\<forall>c \<in> set (checkSourceContracts h). \<not> ckFail c" "\<forall>c \<in> set (checkInstalledApp h). \<not> ckFail c"
  using assms by (simp_all add: nereadyExit_0 nereadyChecks_def)

lemma ready_contracts:
  assumes "nereadyExit h = 0" "(name, path, needle, detail) \<in> set (entitlementContracts @ sourceContracts @ capContracts)"
  shows "Contains (blob h path) needle"
proof -
  have "contractCheck h (name, path, needle, detail) \<in> set (checkSourceContracts h)"
    using assms(2) by (auto simp: checkSourceContracts_def)
  with ready_parts(1) [OF assms(1)] show ?thesis by (auto simp: contractCheck_def)
qed

lemma ready_installed:
  assumes "nereadyExit h = 0"
  shows "\<forall>c \<in> set (appSignatureChecks (toolText h [''codesign'', ''-dvvv'', ''--entitlements'', '':-'', appBundlePath h])). \<not> ckFail c"
    "\<forall>c \<in> set (embeddedExtensionChecks h). \<not> ckFail c"
    "\<not> ckFail (checkInstalledTeamAlignment h (appBundlePath h) (embeddedExtensionPath h) (embeddedBridgePath h))"
proof -
  have "present h (appBundlePath h)"
    using ready_parts(2) [OF assms] by (auto simp: checkInstalledApp_def Let_def split: if_split_asm)
  with ready_parts(2) [OF assms]
  show "\<forall>c \<in> set (appSignatureChecks (toolText h [''codesign'', ''-dvvv'', ''--entitlements'', '':-'', appBundlePath h])). \<not> ckFail c"
    "\<forall>c \<in> set (embeddedExtensionChecks h). \<not> ckFail c"
    "\<not> ckFail (checkInstalledTeamAlignment h (appBundlePath h) (embeddedExtensionPath h) (embeddedBridgePath h))"
    by (auto simp: checkInstalledApp_def Let_def simp del: alignment_fail)
qed

section \<open>Properties\<close>

text \<open>A readiness run that exits successfully means what it says: every source contract holds, the extension's
  source and entitlements contain none of the forbidden interfaces, the application and its extension carry a real
  signature, and application, extension and bridge are signed by one and the same team.\<close>

theorem ready_means_ready:
  assumes "nereadyExit h = 0"
  shows "list_all (\<lambda>(name, path, needle, detail). Contains (blob h path) needle) (entitlementContracts @ sourceContracts @ capContracts) \<and>
    \<not> list_ex (Contains (blob h extensionSourcePath)) forbiddenAPIs \<and>
    \<not> list_ex (Contains (blob h extensionEntPath)) forbiddenEntitlements \<and>
    \<not> Contains (toolText h [''codesign'', ''-dvvv'', ''--entitlements'', '':-'', appBundlePath h]) ''Signature=adhoc'' \<and>
    \<not> Contains (toolText h [''codesign'', ''-dvvv'', ''--entitlements'', '':-'', embeddedExtensionPath h]) ''Signature=adhoc'' \<and>
    teamIdentifierForPath h (appBundlePath h) \<noteq> [] \<and>
    teamIdentifierForPath h (embeddedExtensionPath h) = teamIdentifierForPath h (appBundlePath h) \<and>
    teamIdentifierForPath h (embeddedBridgePath h) = teamIdentifierForPath h (appBundlePath h)"
proof -
  have "list_all (\<lambda>(name, path, needle, detail). Contains (blob h path) needle) (entitlementContracts @ sourceContracts @ capContracts)"
    using ready_contracts [OF assms] by (auto simp: list_all_iff)
  moreover have "\<not> list_ex (Contains (blob h extensionSourcePath)) forbiddenAPIs" "\<not> list_ex (Contains (blob h extensionEntPath)) forbiddenEntitlements"
    using ready_parts(1) [OF assms] by (simp_all add: checkSourceContracts_def)
  moreover have "\<not> Contains (toolText h [''codesign'', ''-dvvv'', ''--entitlements'', '':-'', appBundlePath h]) ''Signature=adhoc''"
    using ready_installed(1) [OF assms] by (auto simp: appSignatureChecks_def)
  moreover have "\<not> Contains (toolText h [''codesign'', ''-dvvv'', ''--entitlements'', '':-'', embeddedExtensionPath h]) ''Signature=adhoc''"
    using ready_installed(2) [OF assms]
    by (auto simp: embeddedExtensionChecks_def checkSignedSystemExtension_def Let_def split: if_split_asm)
  ultimately show ?thesis using ready_installed(3) [OF assms] by simp
qed

definition demoLines :: "string list" where
  "demoLines = [''TeamIdentifier=AB12'', ''com.apple.developer.system-extension.install'', ''content-filter-provider-systemextension'',
     ''com.apple.application-identifier'', ''com.somoore.agentsnitch'', extensionBundleID, ''sourceProcessAuditToken'', ''NEFilterManager'',
     hostBridgeDylibName] @ bridgeSymbols"

definition demoContracts :: "string \<Rightarrow> string list" where
  "demoContracts p = map (\<lambda>(n, q, needle, d). needle) (filter (\<lambda>(n, q, needle, d). q = p) (entitlementContracts @ sourceContracts @ capContracts))"

definition demoReady :: NereadyHost where
  "demoReady = \<lparr>nrStat = (\<lambda>p. Some (FileNode perm644 [])), nrRead = (\<lambda>p. Some (Join (demoContracts p) '' '')),
     nrExec = (\<lambda>argv. (True, Join demoLines ''\<newline>'')), nrAppPath = []\<rparr>"

lemma Contains_Join: "x \<in> set xs \<Longrightarrow> Contains (Join xs sep) x"
proof (induction xs sep rule: Join.induct)
  case (3 y z zs sep)
  have "Contains (y @ sep @ Join (z # zs) sep) (Join (z # zs) sep)" "Contains (y @ sep @ Join (z # zs) sep) y"
    unfolding Contains_def sublist_def by (metis append_Nil2 append_assoc) (metis append_Nil)
  with 3 show ?case by (auto intro: Contains_trans)
qed (auto simp: Contains_def)

lemma needle_in: "(name, path, needle, detail) \<in> set cs \<Longrightarrow>
    needle \<in> set (map (\<lambda>(n, q, needle, d). needle) (filter (\<lambda>(n, q, needle, d). q = path) cs))"
  by force

lemma demo_contracts: "c \<in> set (entitlementContracts @ sourceContracts @ capContracts) \<Longrightarrow> \<not> ckFail (contractCheck demoReady c)"
proof -
  assume c: "c \<in> set (entitlementContracts @ sourceContracts @ capContracts)"
  obtain name path needle detail where c': "c = (name, path, needle, detail)" by (cases c)
  have "needle \<in> set (demoContracts path)" unfolding demoContracts_def by (rule needle_in [OF c [unfolded c']])
  then have "Contains (blob demoReady path) needle" by (simp add: blob_def demoReady_def Contains_Join)
  with c' show ?thesis by (simp add: contractCheck_def)
qed

lemma demo_tools:
  "present demoReady p" "isFile demoReady p" "nrExec demoReady argv = (True, Join demoLines ''\<newline>'')"
  by (simp_all add: present_def isFile_def demoReady_def)

lemma demo_lines: "x \<in> set demoLines \<Longrightarrow> Contains (Join demoLines ''\<newline>'') x"
  by (rule Contains_Join)

lemma demo_sources: "\<forall>c \<in> set (checkSourceContracts demoReady). \<not> ckFail c"
proof -
  have "\<not> list_ex (Contains (blob demoReady extensionEntPath)) forbiddenEntitlements" by code_simp
  moreover have "\<not> list_ex (Contains (blob demoReady extensionSourcePath)) forbiddenAPIs" by code_simp
  moreover have "\<not> ckFail (checkTauriHostBridgeLinked (blob demoReady tauriBackendPath))" by code_simp
  ultimately show ?thesis using demo_contracts by (auto simp: checkSourceContracts_def)
qed

lemma demo_needles:
  "Contains (Join demoLines ''\<newline>'') ''com.apple.developer.system-extension.install''"
  "Contains (Join demoLines ''\<newline>'') ''content-filter-provider-systemextension''"
  "Contains (Join demoLines ''\<newline>'') ''com.apple.application-identifier''"
  "Contains (Join demoLines ''\<newline>'') ''com.somoore.agentsnitch''" "Contains (Join demoLines ''\<newline>'') extensionBundleID"
  "Contains (Join demoLines ''\<newline>'') ''sourceProcessAuditToken''" "Contains (Join demoLines ''\<newline>'') ''NEFilterManager''"
  "Contains (Join demoLines ''\<newline>'') hostBridgeDylibName" "Contains (Join demoLines ''\<newline>'') ''AgentSnitchHostBridgeStart''"
  "Contains (Join demoLines ''\<newline>'') ''AgentSnitchHostBridgeActivateSystemExtension''"
  "Contains (Join demoLines ''\<newline>'') ''AgentSnitchHostBridgeSetNetworkSensorDisabled''"
  by (rule demo_lines; simp add: demoLines_def bridgeSymbols_def)+

lemma demo_signature:
  "\<not> Contains (Join demoLines ''\<newline>'') ''Signature=adhoc''" "\<not> Contains (Join demoLines ''\<newline>'') ''TeamIdentifier=not set''"
  "TrimSpace (Join demoLines ''\<newline>'') \<noteq> []" "parseTeamIdentifier (Join demoLines ''\<newline>'') = ''AB12''"
  "\<not> Contains (Join (demoContracts (PathJoin [builtExtensionPath, ''Contents'', ''Info.plist''])) '' '') moduleVariable"
  by code_simp+

lemmas demo_facts = demo_tools demo_needles demo_signature toolText_def toolContains_def checkDylibSymbol_def checkDylibContains_def
  checkBinaryContains_def signatureCheck_def bridgeChecks_def

lemma demo_built: "\<forall>c \<in> set (checkBuiltExtension demoReady @ checkBuiltHostBridge demoReady). \<not> ckFail c"
  by (simp add: checkBuiltExtension_def checkBuiltHostBridge_def Let_def demo_facts) (simp add: demoReady_def demo_signature)

lemma demo_installed: "\<forall>c \<in> set (checkInstalledApp demoReady). \<not> ckFail c"
proof -
  have t: "p \<noteq> [] \<Longrightarrow> teamIdentifierForPath demoReady p = ''AB12''" for p
    by (simp add: teamIdentifierForPath_def demo_facts)
  have "appBundlePath demoReady \<noteq> []" "embeddedExtensionPath demoReady \<noteq> []" "embeddedBridgePath demoReady \<noteq> []" by code_simp+
  then show ?thesis
    by (simp add: checkInstalledApp_def embeddedExtensionChecks_def appSignatureChecks_def checkSignedSystemExtension_def
        checkProvisioningProfile_def checkInstalledTauriBinary_def installedAppExecutablePath_def bridgeSymbols_def Let_def demo_facts t)
qed

theorem ready_means_ready_witness: "teamIdentifierForPath demoReady (appBundlePath demoReady) \<noteq> []"
proof -
  have "nereadyExit demoReady = 0"
    using demo_sources demo_built demo_installed
    by (auto simp: nereadyExit_0 nereadyChecks_def checkPlistSyntax_def checkSourceFile_def checkSystemExtensionState_def demo_tools demo_needles)
  from ready_means_ready [OF this] show ?thesis by blast
qed

end
