(* ===== verification/Corr_Snapshot.thy ===== *)
theory Corr_Snapshot
  imports Correlator Daemon_Observe
begin

text \<open>
  The rest of \<open>SessionState\<close> in \<open>internal/correlator/correlator.go\<close>: seeding the known processes from the output of \<open>pgrep\<close>,
  which is an argument, and the one-line summary of a session.
\<close>

section \<open>Definitions\<close>

definition containsString :: "string list \<Rightarrow> string \<Rightarrow> bool" where
  "containsString values want = list_ex (\<lambda>v. v = want) values"

definition addProcessLockedFromSnapshot :: "time \<Rightarrow> ProcessInfo \<Rightarrow> SessionState \<Rightarrow> SessionState" where
  "addProcessLockedFromSnapshot clk info s = addProcessLocked clk info s"

text \<open>\<open>pgrep\<close> ends with status 1 when nothing matches.\<close>

datatype pgrep_result = Matches string | NoMatches | PgrepFailed

text \<open>One line: a process that is the command-line binary of an agent is added.\<close>

definition pgrepProcess :: "string \<Rightarrow> ProcessInfo option" where
  "pgrepProcess raw =
     (let line = TrimSpace raw
      in if line = [] then None
         else case Fields line of
                [] \<Rightarrow> None
              | field # _ \<Rightarrow>
                  (case Sscanf_d field of
                     None \<Rightarrow> None
                   | Some pid \<Rightarrow>
                       let name = TrimSpace (TrimPrefix line field)
                       in if pid \<le> 0 then None
                          else case IdentifyAgentProcess name of
                                 None \<Rightarrow> None
                               | Some (_, kind) \<Rightarrow>
                                   if \<not> HasSuffix kind ''_cli'' then None
                                   else Some (zeroProcess\<lparr>piPID := pid, piName := name, piSource := ''pgrep'', piTrackAsAgent := True\<rparr>)))"

definition SnapshotAgentProcesses :: "time \<Rightarrow> pgrep_result \<Rightarrow> SessionState \<Rightarrow> (string + int list) \<times> SessionState" where
  "SnapshotAgentProcesses clk result s =
     (case result of
        PgrepFailed \<Rightarrow> (Inl ''pgrep failed'', s)
      | NoMatches \<Rightarrow> (Inr [], s)
      | Matches out \<Rightarrow>
          let found = List.map_filter pgrepProcess (Split (TrimSpace out) [CHR 0x0A])
          in (Inr (map piPID found), fold (addProcessLockedFromSnapshot clk) found s))"

text \<open>\<open>Duration.Round(time.Second)\<close> and \<open>Duration.String\<close> of what it returns.\<close>

definition RoundSecond :: "duration \<Rightarrow> duration" where
  "RoundSecond d =
     (let r = \<bar>d\<bar> mod Second; down = \<bar>d\<bar> - r; up = down + Second; mag = (if r + r < Second then down else up)
      in if d < 0 then (if - mag < minDuration then minDuration else - mag)
         else if mag > maxDuration then maxDuration else mag)"

definition DurationString :: "duration \<Rightarrow> string" where
  "DurationString d =
     (let secs = \<bar>d\<bar> div Second; mins = secs div 60; hours = mins div 60
      in if d = 0 then ''0s''
         else (if d < 0 then ''-'' else [])
              @ (if hours > 0 then Itoa hours @ ''h'' else []) @ (if mins > 0 then Itoa (mins mod 60) @ ''m'' else [])
              @ Itoa (secs mod 60) @ show_fraction (\<bar>d\<bar> mod Second) @ ''s'')"

definition SessionSummary :: "time \<Rightarrow> SessionState \<Rightarrow> string" where
  "SessionSummary clk s =
     ''session: pids='' @ Itoa (int (length (KnownPIDs s))) @ '' processes='' @ Itoa (int (length (Processes s))) @
     '' events='' @ Itoa (int (length (Events s))) @ '' has_sensitive='' @ (if HasSensitive s then ''true'' else ''false'') @
     '' age='' @ DurationString (RoundSecond (time_sub clk (StartTime s)))"

section \<open>Lemmas\<close>

lemma containsString_iff: "containsString values want \<longleftrightarrow> want \<in> set values"
  by (auto simp: containsString_def list_ex_iff)

lemma pgrepProcess_agent:
  "pgrepProcess raw = Some info \<Longrightarrow> 0 < piPID info \<and> piTrackAsAgent info \<and> piSource info = ''pgrep'' \<and>
     (\<exists>ident kind. IdentifyAgentProcess (piName info) = Some (ident, kind) \<and> HasSuffix kind ''_cli'')"
  by (auto simp: pgrepProcess_def Let_def split: if_splits list.splits option.splits)

lemma wf_session_snapshot [wf_intros]: "wf_session s \<Longrightarrow> wf_session (snd (SnapshotAgentProcesses clk result s))"
proof -
  have "wf_session s \<Longrightarrow> wf_session (fold (addProcessLockedFromSnapshot clk) infos s)" for infos
    by (induction infos arbitrary: s) (simp_all add: addProcessLockedFromSnapshot_def)
  then show "wf_session s \<Longrightarrow> ?thesis" by (simp add: SnapshotAgentProcesses_def Let_def split: pgrep_result.split)
qed

text \<open>Every process it reports is the binary of an agent and is known afterwards.\<close>

lemma addProcess_tracked:
  assumes "0 < piPID info" "piTrackAsAgent info"
  shows "piPID info \<in> set (KnownPIDs (addProcessLocked clk info s))"
proof -
  have "piTrackAsAgent (annotateAgentProcess (mergeProcess existing info))" for existing
    using assms(2) by (auto simp: annotateAgentProcess_def mergeProcess_def Let_def split: option.split)
  then show ?thesis using assms(1) by (simp add: addProcessLocked_def Let_def shouldTrackAsAgentPID_def)
qed

lemma addProcess_keeps_known:
  assumes "pid \<in> set (KnownPIDs s)" "0 < piPID info" "piTrackAsAgent info"
  shows "pid \<in> set (KnownPIDs (addProcessLocked clk info s))"
  using assms addProcess_tracked [OF assms(2,3)]
  by (cases "piPID info = pid") (auto simp: addProcessLocked_def Let_def)

lemma adds_known:
  "list_all (\<lambda>info. 0 < piPID info \<and> piTrackAsAgent info) infos \<Longrightarrow>
   set (KnownPIDs s) \<union> set (map piPID infos) \<subseteq> set (KnownPIDs (fold (addProcessLockedFromSnapshot clk) infos s))"
proof (induction infos arbitrary: s)
  case (Cons info infos)
  let ?s = "addProcessLocked clk info s"
  have "set (KnownPIDs s) \<union> {piPID info} \<subseteq> set (KnownPIDs ?s)"
    using Cons.prems addProcess_tracked [of info clk s] addProcess_keeps_known [of _ s info clk] by auto
  then show ?case using Cons.IH [of ?s] Cons.prems by (auto simp: addProcessLockedFromSnapshot_def)
qed simp

lemma set_found: "info \<in> set (List.map_filter f xs) \<longleftrightarrow> (\<exists>x \<in> set xs. f x = Some info)"
  by (force simp: List.map_filter_def)

lemma snapshot_known:
  assumes "SnapshotAgentProcesses clk result s = (Inr pids, s')"
  shows "list_all (\<lambda>pid. 0 < pid) pids \<and> set (KnownPIDs s) \<union> set pids \<subseteq> set (KnownPIDs s')"
proof (cases result)
  case (Matches out)
  let ?found = "List.map_filter pgrepProcess (Split (TrimSpace out) [CHR 0x0A])"
  have f: "list_all (\<lambda>info. 0 < piPID info \<and> piTrackAsAgent info) ?found"
    by (auto simp: list_all_iff set_found dest: pgrepProcess_agent)
  have "pids = map piPID ?found" "s' = fold (addProcessLockedFromSnapshot clk) ?found s"
    using assms by (simp_all add: Matches SnapshotAgentProcesses_def Let_def)
  then show ?thesis using f adds_known [OF f] by (simp add: list_all_iff)
qed (use assms in \<open>simp_all add: SnapshotAgentProcesses_def\<close>)

text \<open>Rounding is to the nearest second, and an age prints as its hours, minutes and seconds.\<close>

lemma RoundSecond_near:
  assumes "minDuration + Second < d" "d < maxDuration - Second"
  shows "2 * \<bar>RoundSecond d - d\<bar> \<le> Second \<and> Second dvd RoundSecond d"
proof -
  define r where "r = \<bar>d\<bar> mod Second"
  define mag where "mag = (if r + r < Second then \<bar>d\<bar> - r else \<bar>d\<bar> - r + Second)"
  have r: "0 \<le> r" "r < Second" "r \<le> \<bar>d\<bar>" by (simp_all add: r_def Second_def zmod_le_nonneg_dividend)
  have near: "2 * \<bar>mag - \<bar>d\<bar>\<bar> \<le> Second" "mag < \<bar>d\<bar> + Second" "0 \<le> mag"
    using r by (auto simp: mag_def)
  have "RoundSecond d = (if d < 0 then (if - mag < minDuration then minDuration else - mag) else if mag > maxDuration then maxDuration else mag)"
    unfolding RoundSecond_def Let_def mag_def r_def by (rule refl)
  moreover have "d < 0 \<Longrightarrow> minDuration \<le> - mag" "0 \<le> d \<Longrightarrow> mag \<le> maxDuration" using assms near by linarith+
  ultimately have round: "RoundSecond d = (if d < 0 then - mag else mag)" by (cases "d < 0") simp_all
  have "Second dvd \<bar>d\<bar> - r" by (simp add: r_def)
  then have "Second dvd mag" by (simp add: mag_def)
  moreover have "\<bar>RoundSecond d - d\<bar> = \<bar>mag - \<bar>d\<bar>\<bar>" unfolding round by (split if_split) linarith
  ultimately show ?thesis using near(1) by (simp add: round)
qed

lemma DurationString_examples:
  "DurationString (RoundSecond (90 * Second + 600000000)) = ''1m31s''" "DurationString (RoundSecond (Hour - 1)) = ''1h0m0s''"
  "DurationString (RoundSecond 499999999) = ''0s''"
  by code_simp+

end
