(* ===== verification/Go_Json.thy ===== *)
theory Go_Json
  imports Go_Utf8 Go_Net
begin

text \<open>
  \<open>encoding/json\<close> on values: the text \<open>Marshal\<close> prints and the value \<open>Unmarshal\<close> reads. Members are printed in the order of
  the list; Go prints those of a map in the order of their keys, which is \<open>sortKeys\<close>. Strings are printed rune by rune
  with the escapes Go uses, the HTML ones included; bytes that are not UTF-8 become U+FFFD on either side. The limit
  on the depth of nesting is not modelled.
\<close>

section \<open>Printing\<close>

definition quote_mark :: char where "quote_mark = CHR 0x22"

definition hexChar :: "nat \<Rightarrow> char" where
  "hexChar n = (if n < 10 then char_of (48 + n) else char_of (87 + n))"

definition u_escape :: "rune \<Rightarrow> string" where
  "u_escape r = [CHR 0x5C, CHR ''u'', hexChar (r div 4096), hexChar (r div 256 mod 16), hexChar (r div 16 mod 16), hexChar (r mod 16)]"

text \<open>The bytes that HTML or JSON reserve are escaped.\<close>

definition quoteASCII :: "char \<Rightarrow> string" where
  "quoteASCII c =
     (if c = quote_mark \<or> c = CHR 0x5C then [CHR 0x5C, c]
      else if c = CHR 0x08 then [CHR 0x5C, CHR ''b'']
      else if c = CHR 0x0C then [CHR 0x5C, CHR ''f'']
      else if c = CHR 0x0A then [CHR 0x5C, CHR ''n'']
      else if c = CHR 0x0D then [CHR 0x5C, CHR ''r'']
      else if c = CHR 0x09 then [CHR 0x5C, CHR ''t'']
      else if byte_of c < 0x20 \<or> c \<in> {CHR ''<'', CHR ''>'', CHR ''&''} then u_escape (byte_of c)
      else [c])"

definition quoteRune :: "rune \<times> nat \<Rightarrow> string" where
  "quoteRune = (\<lambda>(r, width).
     if r = RuneError \<and> width = 1 then u_escape RuneError
     else if r = 0x2028 \<or> r = 0x2029 then u_escape r
     else EncodeRune r)"

function quoteBody :: "string \<Rightarrow> string" where
  "quoteBody [] = []"
| "quoteBody (c # cs) =
     (if byte_of c < 0x80 then quoteASCII c @ quoteBody cs
      else quoteRune (DecodeRune c cs) @ quoteBody (drop (snd (DecodeRune c cs) - 1) cs))"
  by pat_completeness auto

termination
  by (relation "measure length") (auto simp: le_imp_less_Suc)

definition jsonQuote :: "string \<Rightarrow> string" where
  "jsonQuote s = quote_mark # quoteBody s @ [quote_mark]"

fun jsonText :: "json \<Rightarrow> string" where
  "jsonText JNull = ''null''"
| "jsonText (JBool b) = (if b then ''true'' else ''false'')"
| "jsonText (JNum n) = n"
| "jsonText (JStr s) = jsonQuote s"
| "jsonText (JArr vs) = ''['' @ Join (map jsonText vs) '','' @ '']''"
| "jsonText (JObj kvs) = ''{'' @ Join (map (\<lambda>(k, v). jsonQuote k @ '':'' @ v) (map (\<lambda>(k, v). (k, jsonText v)) kvs)) '','' @ ''}''"

fun sortKeys :: "json \<Rightarrow> json" where
  "sortKeys (JArr vs) = JArr (map sortKeys vs)"
| "sortKeys (JObj kvs) = JObj (sort_key fst (map (\<lambda>(k, v). (k, sortKeys v)) kvs))"
| "sortKeys v = v"

section \<open>Reading\<close>

definition json_space :: "char \<Rightarrow> bool" where
  "json_space c \<longleftrightarrow> c \<in> {CHR 0x20, CHR 0x09, CHR 0x0A, CHR 0x0D}"

definition skip :: "string \<Rightarrow> string" where
  "skip s = dropWhile json_space s"

fun hex4 :: "string \<Rightarrow> (nat \<times> string) option" where
  "hex4 (a # b # c # d # rest) =
     (case (hex_val a, hex_val b, hex_val c, hex_val d) of
        (Some w, Some x, Some y, Some z) \<Rightarrow> Some (w * 4096 + x * 256 + y * 16 + z, rest)
      | _ \<Rightarrow> None)"
| "hex4 _ = None"

text \<open>What follows \<open>\u\<close>: a surrogate stands for a rune only with its other half.\<close>

definition u_rune :: "string \<Rightarrow> (rune \<times> string) option" where
  "u_rune s =
     (case hex4 s of
        None \<Rightarrow> None
      | Some (r, rest) \<Rightarrow>
          if 0xD800 \<le> r \<and> r \<le> 0xDFFF then
            (case rest of
               b # u # more \<Rightarrow>
                 if b = CHR 0x5C \<and> u = CHR ''u'' then
                   (case hex4 more of
                      Some (r2, rest2) \<Rightarrow>
                        if r \<le> 0xDBFF \<and> 0xDC00 \<le> r2 \<and> r2 \<le> 0xDFFF
                        then Some ((r - 0xD800) * 1024 + (r2 - 0xDC00) + 0x10000, rest2)
                        else Some (RuneError, rest)
                    | None \<Rightarrow> None)
                 else Some (RuneError, rest)
             | _ \<Rightarrow> Some (RuneError, rest))
          else Some (r, rest))"

definition simple_escape :: "char \<Rightarrow> char option" where
  "simple_escape c =
     (if c = quote_mark \<or> c = CHR 0x5C \<or> c = CHR ''/'' then Some c
      else if c = CHR ''b'' then Some CHR 0x08
      else if c = CHR ''f'' then Some CHR 0x0C
      else if c = CHR ''n'' then Some CHR 0x0A
      else if c = CHR ''r'' then Some CHR 0x0D
      else if c = CHR ''t'' then Some CHR 0x09
      else None)"

text \<open>The text of a string after its opening quote, up to the closing one.\<close>

lemma hex4_shorter: "hex4 s = Some (r, rest) \<Longrightarrow> length rest < length s"
  by (induction s rule: hex4.induct) (auto split: option.splits)

lemma u_rune_shorter: "u_rune s = Some (r, rest) \<Longrightarrow> length rest < length s"
  by (auto simp: u_rune_def dest!: hex4_shorter split: option.splits if_splits list.splits)

function unquote :: "string \<Rightarrow> (string \<times> string) option" where
  "unquote [] = None"
| "unquote (c # cs) =
     (if c = quote_mark then Some ([], cs)
      else if c = CHR 0x5C then
        (case cs of
           [] \<Rightarrow> None
         | e # rest \<Rightarrow>
             if e = CHR ''u'' then
               (case u_rune rest of
                  None \<Rightarrow> None
                | Some (r, rest') \<Rightarrow> map_option (\<lambda>(t, after). (EncodeRune r @ t, after)) (unquote rest'))
             else
               (case simple_escape e of
                  None \<Rightarrow> None
                | Some x \<Rightarrow> map_option (\<lambda>(t, after). (x # t, after)) (unquote rest)))
      else if byte_of c < 0x20 then None
      else if byte_of c < 0x80 then map_option (\<lambda>(t, after). (c # t, after)) (unquote cs)
      else map_option (\<lambda>(t, after). (EncodeRune (fst (DecodeRune c cs)) @ t, after))
             (unquote (drop (snd (DecodeRune c cs) - 1) cs)))"
  by pat_completeness auto

termination
  by (relation "measure length") (auto simp: le_imp_less_Suc dest: u_rune_shorter)

declare unquote.simps(2) [simp del] quoteBody.simps(2) [simp del]

text \<open>A number is a longest run of the characters numbers are made of.\<close>

definition number_char :: "char \<Rightarrow> bool" where
  "number_char c \<longleftrightarrow> c \<in> set ''0123456789+-.eE''"

definition digits :: "string \<Rightarrow> bool" where
  "digits s \<longleftrightarrow> s \<noteq> [] \<and> list_all (\<lambda>c. c \<in> set ''0123456789'') s"

definition drop_sign :: "char list \<Rightarrow> string \<Rightarrow> string" where
  "drop_sign signs s = (case s of c # cs \<Rightarrow> if c \<in> set signs then cs else s | [] \<Rightarrow> [])"

definition valid_number :: "string \<Rightarrow> bool" where
  "valid_number s =
     (let u = drop_sign ''-'' s;
          whole = takeWhile (\<lambda>c. c \<in> set ''0123456789'') u;
          r1 = dropWhile (\<lambda>c. c \<in> set ''0123456789'') u;
          frac = (case r1 of c # cs \<Rightarrow> if c = CHR ''.'' then takeWhile (\<lambda>c. c \<in> set ''0123456789'') cs else [] | [] \<Rightarrow> []);
          r2 = (case r1 of c # cs \<Rightarrow> if c = CHR ''.'' then dropWhile (\<lambda>c. c \<in> set ''0123456789'') cs else r1 | [] \<Rightarrow> []);
          dotted = (case r1 of c # cs \<Rightarrow> c = CHR ''.'' | [] \<Rightarrow> False)
      in whole \<noteq> [] \<and> (hd whole = CHR ''0'' \<longrightarrow> length whole = 1) \<and> (dotted \<longrightarrow> frac \<noteq> []) \<and>
         (case r2 of [] \<Rightarrow> True | c # cs \<Rightarrow> c \<in> {CHR ''e'', CHR ''E''} \<and> digits (drop_sign ''+-'' cs)))"

definition keyword :: "string \<Rightarrow> json \<Rightarrow> string \<Rightarrow> (json \<times> string) option" where
  "keyword w v s = map_option (Pair v) (CutPrefix s w)"

text \<open>The argument that decreases bounds the values still to be read; the length of the text is always enough.\<close>

fun readValue :: "nat \<Rightarrow> string \<Rightarrow> (json \<times> string) option"
  and readElements :: "nat \<Rightarrow> string \<Rightarrow> (json list \<times> string) option"
  and readMembers :: "nat \<Rightarrow> string \<Rightarrow> ((string \<times> json) list \<times> string) option" where
  "readValue 0 s = None"
| "readValue (Suc n) s =
     (case skip s of
        [] \<Rightarrow> None
      | c # cs \<Rightarrow>
          if c = quote_mark then map_option (\<lambda>(t, rest). (JStr t, rest)) (unquote cs)
          else if c = CHR ''['' then
            (case skip cs of
               d # ds \<Rightarrow> if d = CHR '']'' then Some (JArr [], ds) else map_option (\<lambda>(vs, rest). (JArr vs, rest)) (readElements n cs)
             | [] \<Rightarrow> None)
          else if c = CHR ''{'' then
            (case skip cs of
               d # ds \<Rightarrow> if d = CHR ''}'' then Some (JObj [], ds) else map_option (\<lambda>(kvs, rest). (JObj kvs, rest)) (readMembers n cs)
             | [] \<Rightarrow> None)
          else if c = CHR ''n'' then keyword ''null'' JNull (c # cs)
          else if c = CHR ''t'' then keyword ''true'' (JBool True) (c # cs)
          else if c = CHR ''f'' then keyword ''false'' (JBool False) (c # cs)
          else
            let number = takeWhile number_char (c # cs)
            in if valid_number number then Some (JNum number, dropWhile number_char (c # cs)) else None)"
| "readElements 0 s = None"
| "readElements (Suc n) s =
     (case readValue n s of
        None \<Rightarrow> None
      | Some (v, rest) \<Rightarrow>
          (case skip rest of
             [] \<Rightarrow> None
           | c # cs \<Rightarrow>
               if c = CHR '']'' then Some ([v], cs)
               else if c = CHR '','' then map_option (\<lambda>(vs, after). (v # vs, after)) (readElements n cs)
               else None))"
| "readMembers 0 s = None"
| "readMembers (Suc n) s =
     (case skip s of
        [] \<Rightarrow> None
      | q # qs \<Rightarrow>
          if q \<noteq> quote_mark then None
          else case unquote qs of
                 None \<Rightarrow> None
               | Some (k, rest0) \<Rightarrow>
                   (case skip rest0 of
                      [] \<Rightarrow> None
                    | colon # vs \<Rightarrow>
                        if colon \<noteq> CHR '':'' then None
                        else case readValue n vs of
                               None \<Rightarrow> None
                             | Some (v, rest) \<Rightarrow>
                                 (case skip rest of
                                    [] \<Rightarrow> None
                                  | c # cs \<Rightarrow>
                                      if c = CHR ''}'' then Some ([(k, v)], cs)
                                      else if c = CHR '','' then map_option (\<lambda>(kvs, after). ((k, v) # kvs, after)) (readMembers n cs)
                                      else None)))"

definition readJSON :: "string \<Rightarrow> json option" where
  "readJSON s =
     (case readValue (Suc (length s)) s of
        Some (v, rest) \<Rightarrow> if skip rest = [] then Some v else None
      | None \<Rightarrow> None)"

section \<open>Strings come back\<close>

lemma hex_val_hexChar [simp]: "n < 16 \<Longrightarrow> hex_val (hexChar n) = Some n"
  by (simp add: hex_val_def hexChar_def)

lemma hex4_digits:
  assumes "a < 16" "b < 16" "c < 16" "d < 16"
  shows "hex4 (hexChar a # hexChar b # hexChar c # hexChar d # rest) = Some (a * 4096 + b * 256 + c * 16 + d, rest)"
  using assms by simp

lemma u_escape_digits:
  assumes "r < 0x10000"
  obtains a b c d where "a < 16" "b < 16" "c < 16" "d < 16" "r = a * 4096 + b * 256 + c * 16 + d"
    "u_escape r = [CHR 0x5C, CHR ''u'', hexChar a, hexChar b, hexChar c, hexChar d]"
proof (rule that [of "r div 4096" "r div 256 mod 16" "r div 16 mod 16" "r mod 16"])
  have parts: "r div 256 = r div 16 div 16" "r div 4096 = r div 16 div 16 div 16"
    using div_mult2_eq [of r 16 16] div_mult2_eq [of r 16 256] div_mult2_eq [of "r div 16" 16 16] by simp_all
  have "r = r div 16 * 16 + r mod 16" "r div 16 = r div 16 div 16 * 16 + r div 16 mod 16"
    "r div 16 div 16 = r div 16 div 16 div 16 * 16 + r div 16 div 16 mod 16"
    by (rule div_mult_mod_eq [symmetric])+
  then show "r = r div 4096 * 4096 + r div 256 mod 16 * 256 + r div 16 mod 16 * 16 + r mod 16"
    unfolding parts by linarith
  show "r div 4096 < 16" using assms by (simp add: div_less_iff_less_mult)
qed (simp_all add: u_escape_def)

lemma unquote_u_escape:
  assumes "r < 0x10000" "ValidRune r"
  shows "unquote (u_escape r @ s) = map_option (\<lambda>(t, after). (EncodeRune r @ t, after)) (unquote s)"
proof -
  obtain a b c d where u: "a < 16" "b < 16" "c < 16" "d < 16" "r = a * 4096 + b * 256 + c * 16 + d"
    "u_escape r = [CHR 0x5C, CHR ''u'', hexChar a, hexChar b, hexChar c, hexChar d]"
    using u_escape_digits [OF assms(1)] by blast
  have "hex4 (hexChar a # hexChar b # hexChar c # hexChar d # s) = Some (r, s)"
    using hex4_digits [OF u(1-4)] unfolding u(5) .
  then have "u_rune (hexChar a # hexChar b # hexChar c # hexChar d # s) = Some (r, s)"
    using assms(2) by (auto simp: u_rune_def ValidRune_def simp del: hex4.simps)
  then show ?thesis unfolding u(6) by (simp add: unquote.simps(2) quote_mark_def)
qed

lemma unquote_quoteASCII:
  assumes "byte_of c < 0x80"
  shows "unquote (quoteASCII c @ s) = map_option (\<lambda>(t, after). (c # t, after)) (unquote s)"
proof -
  have u: "unquote (u_escape (byte_of c) @ s) = map_option (\<lambda>(t, after). (c # t, after)) (unquote s)"
    using assms by (subst unquote_u_escape) (simp_all add: ValidRune_def EncodeRune_ascii)
  show ?thesis
    using assms u by (auto simp: quoteASCII_def unquote.simps(2) simple_escape_def quote_mark_def)
qed

lemma DecodeRune_EncodeRune:
  assumes "ValidRune r" "0x80 \<le> r"
  shows "\<exists>c cs. EncodeRune r = c # cs \<and> 0x80 \<le> byte_of c \<and> DecodeRune c (cs @ s) = (r, Suc (length cs))"
proof -
  have high: "0x80 \<le> byte_of c" if "EncodeRune r = c # cs" for c cs using EncodeRune_high [OF assms(2), of c] that by simp
  consider "r < 0x800" | "0x800 \<le> r" "r < 0x10000" | "0x10000 \<le> r" "r \<le> MaxRune"
    using assms(1) by (fastforce simp: ValidRune_def MaxRune_def)
  then show ?thesis
    using assms high
    by cases (simp_all add: EncodeRune_def decode_encode_2 decode_encode_3 decode_encode_4)
qed

lemma unquote_EncodeRune:
  assumes "ValidRune r" "0x80 \<le> r"
  shows "unquote (EncodeRune r @ s) = map_option (\<lambda>(t, after). (EncodeRune r @ t, after)) (unquote s)"
proof -
  obtain c cs where c: "EncodeRune r = c # cs" "0x80 \<le> byte_of c" "DecodeRune c (cs @ s) = (r, Suc (length cs))"
    using DecodeRune_EncodeRune [OF assms] by blast
  then have "c \<noteq> quote_mark" "c \<noteq> CHR 0x5C" "\<not> byte_of c < 0x20" "\<not> byte_of c < 0x80" by (auto simp: quote_mark_def byte_of_def)
  then show ?thesis using c(1,3) by (simp add: unquote.simps(2))
qed

lemma DecodeRune_high: "0x80 \<le> byte_of c \<Longrightarrow> 0x80 \<le> fst (DecodeRune c cs)"
proof -
  assume c: "0x80 \<le> byte_of c"
  have two: "0x80 \<le> b mod 32 * 64 + n" if "0xC2 \<le> b" "b \<le> 0xDF" for b n :: nat
  proof -
    have "b mod 32 = b - 0xC0" using mod_top(1) [of "b - 0xC0"] that by simp
    then show ?thesis using that by simp
  qed
  have three: "0x80 \<le> b mod 16 * 4096 + low6 c1 * 64 + n" if "0xE0 \<le> b" "b \<le> 0xEF" "second_ok b c1" for b c1 n
  proof -
    have "b mod 16 = b - 0xE0" using mod_top(2) [of "b - 0xE0"] that by simp
    moreover have "b = 0xE0 \<Longrightarrow> 32 \<le> low6 c1" using that(3) low6_second second_ok_bounds [OF that(3)] by (auto simp: second_ok_def)
    ultimately show ?thesis using that by (cases "b = 0xE0") auto
  qed
  have four: "0x80 \<le> b mod 8 * 262144 + low6 c1 * 4096 + n + m" if "0xF0 \<le> b" "b \<le> 0xF4" "second_ok b c1" for b c1 n m
  proof -
    have "b mod 8 = b - 0xF0" using mod_top(3) [of "b - 0xF0"] that by simp
    moreover have "b = 0xF0 \<Longrightarrow> 16 \<le> low6 c1" using that(3) low6_second second_ok_bounds [OF that(3)] by (auto simp: second_ok_def)
    ultimately show ?thesis using that by (cases "b = 0xF0") auto
  qed
  show ?thesis
    using c two [of "byte_of c"] three [of "byte_of c"] four [of "byte_of c"]
    by (auto simp: DecodeRune_def Let_def RuneError_def split: list.splits)
qed

lemma unquote_quoteRune:
  assumes "0x80 \<le> byte_of c"
  shows "unquote (quoteRune (DecodeRune c cs) @ s) = map_option (\<lambda>(t, after). (EncodeRune (fst (DecodeRune c cs)) @ t, after)) (unquote s)"
  using assms DecodeRune_valid [of c cs] DecodeRune_high [of c cs]
    unquote_u_escape [of RuneError s] unquote_u_escape [of "0x2028" s] unquote_u_escape [of "0x2029" s]
  by (cases "DecodeRune c cs") (auto simp: quoteRune_def RuneError_def ValidRune_def MaxRune_def unquote_EncodeRune)

text \<open>What comes back is the text with its ill-formed bytes replaced: a text in UTF-8 comes back as it is.\<close>

definition cleanText :: "string \<Rightarrow> string" where
  "cleanText s = encode (runes s)"

lemma unquote_quoteBody: "unquote (quoteBody s @ quote_mark # rest) = Some (cleanText s, rest)"
proof (induction s rule: quoteBody.induct)
  case 1
  show ?case by (simp add: unquote.simps(2) cleanText_def)
next
  case (2 c cs)
  show ?case
  proof (cases "byte_of c < 0x80")
    case True
    then show ?thesis
      using "2.IH"(1) by (simp add: quoteBody.simps(2) unquote_quoteASCII cleanText_def DecodeRune_def encode_def EncodeRune_ascii)
  next
    case False
    then show ?thesis
      using "2.IH"(2) by (simp add: quoteBody.simps(2) unquote_quoteRune cleanText_def encode_def)
  qed
qed

section \<open>Values come back\<close>

text \<open>A value whose numbers are numbers, and what comes back of it: the same with its texts cleaned.\<close>

fun good_numbers :: "json \<Rightarrow> bool" where
  "good_numbers (JNum n) \<longleftrightarrow> valid_number n \<and> list_all number_char n"
| "good_numbers (JArr vs) \<longleftrightarrow> (\<forall>v \<in> set vs. good_numbers v)"
| "good_numbers (JObj kvs) \<longleftrightarrow> (\<forall>(k, v) \<in> set kvs. good_numbers v)"
| "good_numbers v \<longleftrightarrow> True"

fun cleanValue :: "json \<Rightarrow> json" where
  "cleanValue (JStr s) = JStr (cleanText s)"
| "cleanValue (JArr vs) = JArr (map cleanValue vs)"
| "cleanValue (JObj kvs) = JObj (map (\<lambda>(k, v). (cleanText k, cleanValue v)) kvs)"
| "cleanValue v = v"

text \<open>How far the reader counts down for a value.\<close>

fun weight :: "json \<Rightarrow> nat" where
  "weight (JArr vs) = Suc (sum_list (map (\<lambda>v. Suc (weight v)) vs))"
| "weight (JObj kvs) = Suc (sum_list (map (\<lambda>kv. Suc (snd kv)) (map (\<lambda>(k, v). (k, weight v)) kvs)))"
| "weight v = 1"

definition comes_back :: "json \<Rightarrow> bool" where
  "comes_back v \<longleftrightarrow> (\<forall>n rest. weight v \<le> n \<longrightarrow> (rest = [] \<or> \<not> number_char (hd rest)) \<longrightarrow>
     readValue n (jsonText v @ rest) = Some (cleanValue v, rest))"

lemma valid_number_head:
  assumes "valid_number s"
  obtains c cs where "s = c # cs" "c \<in> set ''-0123456789''"
proof (cases s)
  case Nil
  then show ?thesis using assms by (simp add: valid_number_def drop_sign_def)
next
  case (Cons c cs)
  have "takeWhile (\<lambda>c. c \<in> set ''0123456789'') (drop_sign ''-'' s) \<noteq> []"
    using assms unfolding valid_number_def Let_def by blast
  then have "c \<in> set ''-0123456789''" by (auto simp: Cons drop_sign_def split: if_splits)
  then show ?thesis using that Cons by blast
qed

lemma jsonText_head:
  assumes "good_numbers v"
  obtains c cs where "jsonText v = c # cs" "\<not> json_space c" "c \<noteq> CHR '']''"
proof (cases v)
  case (JNum n)
  then obtain c cs where "n = c # cs" "c \<in> set ''-0123456789''" using assms valid_number_head by auto
  then show ?thesis using that JNum by (auto simp: json_space_def)
next
  case (JBool b)
  then show ?thesis using that by (cases b) (simp_all add: json_space_def)
qed (use that in \<open>auto simp: json_space_def jsonQuote_def quote_mark_def split: if_splits\<close>)

lemma skip_solid: "\<not> json_space c \<Longrightarrow> skip (c # cs) = c # cs"
  by (simp add: skip_def)

lemma readValue_number:
  assumes "valid_number s" "list_all number_char s" "rest = [] \<or> \<not> number_char (hd rest)"
  shows "readValue (Suc n) (s @ rest) = Some (JNum s, rest)"
proof -
  obtain c cs where c: "s = c # cs" "c \<in> set ''-0123456789''" using valid_number_head [OF assms(1)] by blast
  have run: "takeWhile number_char (s @ rest) = s" "dropWhile number_char (s @ rest) = rest"
    using assms(2,3) by (cases rest; simp add: list_all_iff takeWhile_append dropWhile_append)+
  have "skip (s @ rest) = c # cs @ rest" using c by (auto simp: skip_def json_space_def)
  moreover have "c \<noteq> quote_mark" "c \<noteq> CHR ''[''" "c \<noteq> CHR ''{''" "c \<noteq> CHR ''n''" "c \<noteq> CHR ''t''" "c \<noteq> CHR ''f''"
    using c(2) by (auto simp: quote_mark_def)
  ultimately show ?thesis using run assms(1) c(1) by (simp add: Let_def)
qed

lemma number_char_simps [simp]: "\<not> number_char (CHR '','')" "\<not> number_char (CHR '']'')" "\<not> number_char (CHR ''}'')"
  by (simp_all add: number_char_def)

lemma readElements_texts:
  assumes "vs \<noteq> []" "\<forall>v \<in> set vs. comes_back v" "sum_list (map (\<lambda>v. Suc (weight v)) vs) \<le> n"
  shows "readElements n (Join (map jsonText vs) '','' @ '']'' @ rest) = Some (map cleanValue vs, rest)"
  using assms
proof (induction vs arbitrary: n)
  case (Cons v vs)
  then obtain m where n: "n = Suc m" "weight v \<le> m" by (cases n) auto
  show ?case
  proof (cases vs)
    case Nil
    then show ?thesis using Cons.prems(2) n by (simp add: comes_back_def skip_solid json_space_def)
  next
    case (Cons w ws)
    have "readElements m (Join (map jsonText vs) '','' @ '']'' @ rest) = Some (map cleanValue vs, rest)"
      using Cons.IH Cons.prems n(1) local.Cons by simp
    then show ?thesis
      using Cons.prems(2) n local.Cons by (simp add: comes_back_def skip_solid json_space_def)
  qed
qed simp

definition memberText :: "string \<times> json \<Rightarrow> string" where
  "memberText = (\<lambda>(k, v). jsonQuote k @ '':'' @ jsonText v)"

lemma jsonText_JObj: "jsonText (JObj kvs) = ''{'' @ Join (map memberText kvs) '','' @ ''}''"
  by (simp add: memberText_def comp_def case_prod_unfold)

lemma weight_JObj: "weight (JObj kvs) = Suc (sum_list (map (\<lambda>(k, v). Suc (weight v)) kvs))"
  by (simp add: comp_def case_prod_unfold)

lemma unquote_jsonQuote: "jsonQuote k @ rest = quote_mark # quoteBody k @ quote_mark # rest"
  by (simp add: jsonQuote_def)

lemma readMembers_texts:
  assumes "kvs \<noteq> []" "\<forall>(k, v) \<in> set kvs. comes_back v" "sum_list (map (\<lambda>(k, v). Suc (weight v)) kvs) \<le> n"
  shows "readMembers n (Join (map memberText kvs) '','' @ ''}'' @ rest) = Some (map (\<lambda>(k, v). (cleanText k, cleanValue v)) kvs, rest)"
  using assms
proof (induction kvs arbitrary: n)
  case (Cons kv kvs)
  obtain k v where kv: "kv = (k, v)" by fastforce
  obtain m where n: "n = Suc m" "weight v \<le> m" using Cons.prems(3) by (cases n) (auto simp: kv)
  have quoted: "\<not> json_space quote_mark" by (simp add: json_space_def quote_mark_def)
  show ?case
  proof (cases kvs)
    case Nil
    then show ?thesis
      using Cons.prems(2) n quoted by (simp add: kv memberText_def jsonQuote_def unquote_quoteBody comes_back_def skip_solid json_space_def)
  next
    case (Cons w ws)
    have "readMembers m (Join (map memberText kvs) '','' @ ''}'' @ rest) = Some (map (\<lambda>(k, v). (cleanText k, cleanValue v)) kvs, rest)"
      using Cons.IH Cons.prems n(1) local.Cons by (simp add: kv)
    then show ?thesis
      using Cons.prems(2) n quoted local.Cons
      by (simp add: kv memberText_def jsonQuote_def unquote_quoteBody comes_back_def skip_solid json_space_def)
  qed
qed simp

lemma good_value_comes_back: "good_numbers v \<Longrightarrow> comes_back v"
proof (induction v)
  case (JNum s)
  have "readValue n (s @ rest) = Some (JNum s, rest)" if "1 \<le> n" "rest = [] \<or> \<not> number_char (hd rest)" for n rest
    using that JNum readValue_number by (cases n) simp_all
  then show ?case by (simp add: comes_back_def)
next
  case (JStr s)
  then show ?case
    using unquote_quoteBody [of s]
    by (auto simp: comes_back_def jsonQuote_def skip_def json_space_def quote_mark_def dest!: Suc_le_D)
next
  case (JArr vs)
  then have vs: "\<forall>v \<in> set vs. comes_back v" by auto
  show ?case
  proof (cases vs)
    case Nil
    then show ?thesis by (auto simp: comes_back_def skip_def json_space_def quote_mark_def dest!: Suc_le_D)
  next
    case (Cons w ws)
    obtain c cs where c: "jsonText w = c # cs" "\<not> json_space c" "c \<noteq> CHR '']''"
      using jsonText_head [of w] JArr.prems Cons by auto
    have join: "\<exists>ds. Join (map jsonText vs) '','' = c # ds" using c(1) Cons by (cases ws) auto
    show ?thesis
      unfolding comes_back_def
    proof (intro allI impI)
      fix n rest assume "weight (JArr vs) \<le> n"
      then obtain m where m: "n = Suc m" "sum_list (map (\<lambda>v. Suc (weight v)) vs) \<le> m" by (cases n) auto
      have "readElements m (Join (map jsonText vs) '','' @ '']'' @ rest) = Some (map cleanValue vs, rest)"
        using readElements_texts [OF _ vs m(2)] Cons by blast
      then show "readValue n (jsonText (JArr vs) @ rest) = Some (cleanValue (JArr vs), rest)"
        using join c(2,3) by (auto simp: m(1) skip_solid json_space_def quote_mark_def)
    qed
  qed
next
  case (JObj kvs)
  then have kvs: "\<forall>(k, v) \<in> set kvs. comes_back v" by (fastforce simp: snds.simps)
  show ?case
  proof (cases kvs)
    case Nil
    then show ?thesis by (auto simp: comes_back_def skip_def json_space_def quote_mark_def dest!: Suc_le_D)
  next
    case (Cons w ws)
    have join: "\<exists>ds. Join (map memberText kvs) '','' = quote_mark # ds"
      using Cons by (cases ws) (auto simp: memberText_def jsonQuote_def split: prod.split)
    show ?thesis
      unfolding comes_back_def
    proof (intro allI impI)
      fix n rest assume "weight (JObj kvs) \<le> n"
      then obtain m where m: "n = Suc m" "sum_list (map (\<lambda>(k, v). Suc (weight v)) kvs) \<le> m"
        unfolding weight_JObj by (cases n) auto
      have "readMembers m (Join (map memberText kvs) '','' @ ''}'' @ rest) = Some (map (\<lambda>(k, v). (cleanText k, cleanValue v)) kvs, rest)"
        using readMembers_texts [OF _ kvs m(2)] Cons by blast
      then show "readValue n (jsonText (JObj kvs) @ rest) = Some (cleanValue (JObj kvs), rest)"
        using join unfolding jsonText_JObj by (auto simp: m(1) skip_solid json_space_def quote_mark_def)
    qed
  qed
qed (auto simp: comes_back_def keyword_def skip_def json_space_def quote_mark_def CutPrefix_def HasPrefix_def dest!: Suc_le_D)

lemma length_Join: "xs \<noteq> [] \<Longrightarrow> sum_list (map (\<lambda>x. Suc (length x)) xs) = Suc (length (Join xs [c]))"
  by (induction xs "[c]" rule: Join.induct) simp_all

lemma weight_bound: "good_numbers v \<Longrightarrow> weight v \<le> length (jsonText v)"
proof (induction v)
  case (JNum n)
  then show ?case using valid_number_head [of n] by (cases n) (auto simp: valid_number_def drop_sign_def)
next
  case (JArr vs)
  then have "sum_list (map (\<lambda>v. Suc (weight v)) vs) \<le> sum_list (map (\<lambda>x. Suc (length x)) (map jsonText vs))"
    by (auto simp: comp_def intro!: sum_list_mono)
  then show ?case using length_Join [of "map jsonText vs" "CHR '',''"] by (cases "vs = []") simp_all
next
  case (JObj kvs)
  have "weight v \<le> length (memberText (k, v))" if "(k, v) \<in> set kvs" for k v
    using JObj.IH [of "(k, v)" v] JObj.prems that by (fastforce simp: snds.simps memberText_def)
  then have "sum_list (map (\<lambda>(k, v). Suc (weight v)) kvs) \<le> sum_list (map (\<lambda>x. Suc (length x)) (map memberText kvs))"
    by (auto simp: comp_def intro!: sum_list_mono)
  then show ?case using length_Join [of "map memberText kvs" "CHR '',''"] unfolding weight_JObj jsonText_JObj by (cases "kvs = []") simp_all
qed (simp_all add: jsonQuote_def)

text \<open>Reading what was printed gives the value back, its texts cleaned.\<close>

lemma readJSON_jsonText:
  assumes "good_numbers v"
  shows "readJSON (jsonText v) = Some (cleanValue v)"
  using good_value_comes_back [OF assms] weight_bound [OF assms]
  by (auto simp: readJSON_def comes_back_def skip_def dest: spec [of _ "Suc (length (jsonText v))"] spec [of _ "[]"])

text \<open>A value whose texts are UTF-8 comes back as it is.\<close>

fun clean :: "json \<Rightarrow> bool" where
  "clean (JStr s) \<longleftrightarrow> cleanText s = s"
| "clean (JArr vs) \<longleftrightarrow> (\<forall>v \<in> set vs. clean v)"
| "clean (JObj kvs) \<longleftrightarrow> (\<forall>(k, v) \<in> set kvs. cleanText k = k \<and> clean v)"
| "clean v \<longleftrightarrow> True"

lemma cleanValue_id: "clean v \<Longrightarrow> cleanValue v = v"
proof (induction v)
  case (JObj kvs)
  have "cleanValue v = v \<and> cleanText k = k" if "(k, v) \<in> set kvs" for k v
    using JObj.IH [of "(k, v)" v] JObj.prems that by (fastforce simp: snds.simps)
  then show ?case by (auto intro: map_idI)
qed (auto intro: map_idI)

section \<open>One line\<close>

text \<open>A printed value has no control characters: it is one line, and nothing to trim.\<close>

definition printable :: "string \<Rightarrow> bool" where
  "printable s \<longleftrightarrow> list_all (\<lambda>c. 0x20 \<le> byte_of c) s"

lemma printable_simps [simp]:
  "printable []" "printable (c # s) \<longleftrightarrow> 0x20 \<le> byte_of c \<and> printable s" "printable (s @ t) \<longleftrightarrow> printable s \<and> printable t"
  by (simp_all add: printable_def)

lemma hexChar_high: "n < 16 \<Longrightarrow> 0x20 \<le> byte_of (hexChar n)"
  by (simp add: hexChar_def byte_of_def)

lemma printable_u_escape: "r < 0x10000 \<Longrightarrow> printable (u_escape r)"
proof -
  assume "r < 0x10000"
  then obtain a b c d where "a < 16" "b < 16" "c < 16" "d < 16" "u_escape r = [CHR 0x5C, CHR ''u'', hexChar a, hexChar b, hexChar c, hexChar d]"
    by (rule u_escape_digits)
  then show ?thesis using hexChar_high by (simp add: byte_of_def)
qed

lemma printable_quoteBody: "printable (quoteBody s)"
proof (induction s rule: quoteBody.induct)
  case (2 c cs)
  have ascii: "printable (quoteASCII c)" if "byte_of c < 0x80"
    using that printable_u_escape [of "byte_of c"] by (auto simp: quoteASCII_def quote_mark_def byte_of_def)
  have high: "printable (quoteRune (DecodeRune c cs))" if "0x80 \<le> byte_of c"
  proof -
    obtain r w where d: "DecodeRune c cs = (r, w)" by fastforce
    then have "0x80 \<le> r" using DecodeRune_high [OF that, of cs] by simp
    then have "printable (EncodeRune r)" using EncodeRune_high [of r] by (fastforce simp: printable_def list_all_iff)
    then show ?thesis using printable_u_escape [of r] printable_u_escape [of RuneError] by (auto simp: d quoteRune_def RuneError_def)
  qed
  show ?case using 2 ascii high by (cases "byte_of c < 0x80") (simp_all add: quoteBody.simps(2))
qed simp

lemma printable_Join: "list_all printable xs \<Longrightarrow> printable sep \<Longrightarrow> printable (Join xs sep)"
  by (induction xs sep rule: Join.induct) simp_all

lemma printable_jsonQuote [simp]: "printable (jsonQuote s)"
  by (simp add: jsonQuote_def printable_quoteBody quote_mark_def byte_of_def)

lemma printable_jsonText: "good_numbers v \<Longrightarrow> printable (jsonText v)"
proof (induction v)
  case (JNum n)
  have "number_char c \<Longrightarrow> 0x20 \<le> byte_of c" for c by (auto simp: number_char_def byte_of_def)
  then show ?case using JNum by (auto simp: printable_def list_all_iff)
next
  case (JObj kvs)
  have "printable (memberText (k, v))" if "(k, v) \<in> set kvs" for k v
    using JObj.IH [of "(k, v)" v] JObj.prems that by (fastforce simp: snds.simps memberText_def byte_of_def)
  then show ?case unfolding jsonText_JObj by (auto simp: byte_of_def list_all_iff intro!: printable_Join)
qed (auto simp: byte_of_def list_all_iff intro!: printable_Join)

end
