(* ===== verification/Go_Rfc3339.thy ===== *)
theory Go_Rfc3339
  imports Go_Net Go_Time "HOL-Library.Monad_Syntax"
begin

text \<open>
  \<open>time.Time.UnmarshalJSON\<close> on the text between the quotes: a timestamp of RFC 3339 read strictly, with its fraction and
  its zone. The instants that \<open>Format(time.RFC3339Nano)\<close> can write, those of the years 0 to 9999, come back exactly.
\<close>

section \<open>Reading\<close>

text \<open>Days since 1 January of year 1, the inverse of \<open>civil_of_days\<close>.\<close>

definition days_of_civil :: "int \<Rightarrow> int \<Rightarrow> int \<Rightarrow> int" where
  "days_of_civil y m d =
     (let y' = (if m \<le> 2 then y - 1 else y);
          era = y' div 400;
          yoe = y' mod 400;
          mp = (if m \<le> 2 then m + 9 else m - 3);
          doy = (153 * mp + 2) div 5 + d - 1;
          doe = 365 * yoe + yoe div 4 - yoe div 100 + doy
      in era * days_per_400y + doe - 306)"

text \<open>A number of exactly so many digits within bounds, and one expected character.\<close>

definition readDigits :: "nat \<Rightarrow> int \<Rightarrow> int \<Rightarrow> string \<Rightarrow> (int \<times> string) option" where
  "readDigits w lo hi s =
     (let ds = take w s; n = int (parse_dec ds)
      in if length ds = w \<and> list_all is_digit ds \<and> lo \<le> n \<and> n \<le> hi then Some (n, drop w s) else None)"

definition expect :: "char \<Rightarrow> string \<Rightarrow> string option" where
  "expect c s = (case s of d # ds \<Rightarrow> if c = d then Some ds else None | [] \<Rightarrow> None)"

text \<open>A fraction: any positive number of digits, of which nine count.\<close>

definition readFraction :: "string \<Rightarrow> int \<times> string" where
  "readFraction s =
     (case s of
        dot # ds \<Rightarrow>
          let f = takeWhile is_digit ds
          in if dot = CHR ''.'' \<and> f \<noteq> []
             then (int (parse_dec (take 9 f @ replicate (9 - length f) CHR ''0'')), dropWhile is_digit ds)
             else (0, s)
      | [] \<Rightarrow> (0, s))"

definition readZone :: "string \<Rightarrow> int option" where
  "readZone s =
     (if s = ''Z'' then Some 0
      else do {
        (sign, s) \<leftarrow> (case s of c # cs \<Rightarrow> if c = CHR ''+'' then Some (1, cs) else if c = CHR ''-'' then Some (-1, cs) else None | [] \<Rightarrow> None);
        (h, s) \<leftarrow> readDigits 2 0 23 s;
        s \<leftarrow> expect CHR '':'' s;
        (m, s) \<leftarrow> readDigits 2 0 59 s;
        if s = [] then Some (sign * (h * 3600 + m * 60)) else None })"

definition parseRFC3339 :: "string \<Rightarrow> time option" where
  "parseRFC3339 s =
     do {
       (y, s) \<leftarrow> readDigits 4 0 9999 s;
       s \<leftarrow> expect CHR ''-'' s;
       (m, s) \<leftarrow> readDigits 2 1 12 s;
       s \<leftarrow> expect CHR ''-'' s;
       (d, s) \<leftarrow> readDigits 2 1 (days_in_month y m) s;
       s \<leftarrow> expect CHR ''T'' s;
       (h, s) \<leftarrow> readDigits 2 0 23 s;
       s \<leftarrow> expect CHR '':'' s;
       (mi, s) \<leftarrow> readDigits 2 0 59 s;
       s \<leftarrow> expect CHR '':'' s;
       (sec, s) \<leftarrow> readDigits 2 0 59 s;
       let (ns, s) = readFraction s;
       zone \<leftarrow> readZone s;
       Some ((days_of_civil y m d * 86400 + h * 3600 + mi * 60 + sec - zone) * Second + ns) }"

section \<open>Days\<close>

lemma euclid:
  fixes x n :: int
  assumes "0 < n"
  obtains q r where "x = n * q + r" "0 \<le> r" "r < n"
  using that [of "x div n" "x mod n"] assms by simp

text \<open>A day of an era of 400 years is a day \<open>k\<close> of a year \<open>a\<close> of a leap cycle \<open>q\<close> of a century \<open>c\<close>; only the last
  year of a cycle can have a day 365, and of the cycle that ends a century only the last one.\<close>

definition era_day :: "int \<Rightarrow> int \<Rightarrow> int \<Rightarrow> int \<Rightarrow> bool" where
  "era_day c q a k \<longleftrightarrow> 0 \<le> c \<and> c \<le> 3 \<and> 0 \<le> q \<and> q \<le> 24 \<and> 0 \<le> a \<and> a \<le> 3 \<and> 0 \<le> k \<and> k \<le> 365 \<and>
     (k = 365 \<longrightarrow> a = 3 \<and> (q = 24 \<longrightarrow> c = 3))"

lemma day_of_era:
  fixes doe :: int
  assumes "0 \<le> doe" "doe < 146097"
  obtains c q a k where "era_day c q a k" "doe = 36524 * c + 1461 * q + 365 * a + k"
proof -
  obtain b r0 where b: "doe = 36524 * b + r0" "0 \<le> r0" "r0 < 36524" using euclid [of 36524 doe] by auto
  obtain c r where c: "doe = 36524 * c + r" "0 \<le> c" "c \<le> 3" "0 \<le> r" "r \<le> 36524" "r = 36524 \<longrightarrow> c = 3"
    using that [of b r0] that [of 3 36524] b assms by (cases "b \<le> 3") auto
  obtain q u where q: "r = 1461 * q + u" "0 \<le> u" "u < 1461" using euclid [of 1461 r] by auto
  obtain w k0 where w: "u = 365 * w + k0" "0 \<le> k0" "k0 < 365" using euclid [of 365 u] by auto
  obtain a k where k: "u = 365 * a + k" "0 \<le> a" "a \<le> 3" "0 \<le> k" "k \<le> 365" "k = 365 \<longrightarrow> a = 3"
    using that [of w k0] that [of 3 365] w q(2,3) by (cases "w \<le> 3") auto
  have "0 \<le> q" "q \<le> 24" using q c(4,5) by linarith+
  moreover have "k = 365 \<longrightarrow> q = 24 \<longrightarrow> c = 3" using k c(5,6) q(1) by auto
  ultimately show ?thesis using that [of c q a k] c k q(1) by (simp add: era_day_def)
qed

text \<open>The year of the era is recovered by the division the code of \<open>civil_of_days\<close> makes.\<close>

lemma century_of_era:
  assumes "era_day c q a k" "doe = 36524 * c + 1461 * q + 365 * a + k"
  shows "doe div 36524 - doe div 146096 = c"
proof (cases "doe = 146096")
  case True
  then have "c = 3" using assms by (auto simp: era_day_def)
  then show ?thesis using True by simp
next
  case False
  then have low: "1461 * q + 365 * a + k < 36524" "0 \<le> doe" "doe < 146096" using assms by (auto simp: era_day_def)
  have "doe div 36524 = c" using assms low(1) by (intro int_div_pos_eq [of _ _ _ "1461 * q + 365 * a + k"]) (auto simp: era_day_def)
  then show ?thesis using low(2,3) by simp
qed

lemma cycles_of_era:
  assumes "era_day c q a k" "doe = 36524 * c + 1461 * q + 365 * a + k"
  obtains z where "doe div 1460 = 25 * c + q + z" "0 \<le> k - z" "k - z < 365"
proof (cases "24 * c + q + 365 * a + k < 1460")
  case True
  then have "doe div 1460 = 25 * c + q" using assms by (intro int_div_pos_eq [of _ _ _ "24 * c + q + 365 * a + k"]) (auto simp: era_day_def)
  moreover have "k \<noteq> 365" using True assms by (auto simp: era_day_def)
  ultimately show ?thesis using that [of 0] assms(1) by (auto simp: era_day_def)
next
  case False
  then have "doe div 1460 = 25 * c + q + 1" using assms by (intro int_div_pos_eq [of _ _ _ "24 * c + q + 365 * a + k - 1460"]) (auto simp: era_day_def)
  then show ?thesis using that [of 1] False assms(1) by (auto simp: era_day_def)
qed

lemma year_of_era:
  assumes "era_day c q a k" "doe = 36524 * c + 1461 * q + 365 * a + k"
  shows "(doe - doe div 1460 + doe div 36524 - doe div 146096) div 365 = 100 * c + 4 * q + a"
proof -
  obtain z where z: "doe div 1460 = 25 * c + q + z" "0 \<le> k - z" "k - z < 365" using cycles_of_era [OF assms] by blast
  have "doe - doe div 1460 + doe div 36524 - doe div 146096 = doe - (25 * c + q + z) + c"
    using century_of_era [OF assms] unfolding z(1) by simp
  also have "\<dots> = 365 * (100 * c + 4 * q + a) + (k - z)" by (simp add: assms(2))
  finally show ?thesis using z(2,3) by (metis int_div_pos_eq)
qed

text \<open>The month and the day of a day \<open>k\<close> counted from March.\<close>

definition month_ok :: "int \<Rightarrow> int \<Rightarrow> bool" where
  "month_ok k mp \<longleftrightarrow>
     (let m = (if mp < 10 then mp + 3 else mp - 9); d = k - (153 * mp + 2) div 5 + 1
      in 1 \<le> m \<and> m \<le> 12 \<and> (if m \<le> 2 then m + 9 else m - 3) = mp \<and> 1 \<le> d \<and>
         d \<le> (if m = 2 then (if k = 365 then 29 else 28) else if m \<in> {4, 6, 9, 11} then 30 else 31))"

lemma month_of_day:
  fixes k :: int
  assumes "0 \<le> k" "k \<le> 365"
  shows "month_ok k ((5 * k + 2) div 153)"
proof -
  obtain mp r where b: "5 * k + 2 = 153 * mp + r" "0 \<le> r" "r < 153" using euclid [of 153 "5 * k + 2"] by auto
  then have "0 \<le> mp" "mp \<le> 11" using assms by linarith+
  then have "mp = 0 \<or> mp = 1 \<or> mp = 2 \<or> mp = 3 \<or> mp = 4 \<or> mp = 5 \<or> mp = 6 \<or> mp = 7 \<or> mp = 8 \<or> mp = 9 \<or> mp = 10 \<or> mp = 11" by arith
  then have "month_ok k mp"
    using b assms(2) unfolding month_ok_def Let_def by (elim disjE) (simp_all split: if_split)
  then show ?thesis using b by (metis int_div_pos_eq)
qed

lemma yoe_parts:
  assumes "era_day c q a k"
  shows "(100 * c + 4 * q + a) div 4 = 25 * c + q" "(100 * c + 4 * q + a) div 100 = c"
    "(400 * era + (100 * c + 4 * q + a)) div 400 = era" "(400 * era + (100 * c + 4 * q + a)) mod 400 = 100 * c + 4 * q + a"
  using assms
  by (auto simp: era_day_def intro: int_div_pos_eq [of _ _ _ a] int_div_pos_eq [of _ _ _ "4 * q + a"]
      int_div_pos_eq [of _ _ _ "100 * c + 4 * q + a"] int_mod_pos_eq [of _ _ era])

lemma civil_parts:
  obtains era c q a k where "era_day c q a k" "t + 306 = 146097 * era + (36524 * c + 1461 * q + 365 * a + k)"
    "civil_of_days t =
       (let mp = (5 * k + 2) div 153; m = (if mp < 10 then mp + 3 else mp - 9)
        in (100 * c + 4 * q + a + era * 400 + (if m \<le> 2 then 1 else 0), m, k - (153 * mp + 2) div 5 + 1))"
proof -
  obtain era doe where t: "t + 306 = 146097 * era + doe" "0 \<le> doe" "doe < 146097" using euclid [of 146097 "t + 306"] by auto
  then obtain c q a k where p: "era_day c q a k" "doe = 36524 * c + 1461 * q + 365 * a + k"
    using day_of_era [OF t(2,3)] by blast
  note parts = yoe_parts [OF p(1)]
  have era: "(t + 306) div 146097 = era" "(t + 306) mod 146097 = doe"
    using t int_div_pos_eq [of "t + 306" 146097 era doe] int_mod_pos_eq [of "t + 306" 146097 era doe] by simp_all
  have doy: "doe - (365 * (100 * c + 4 * q + a) + (100 * c + 4 * q + a) div 4 - (100 * c + 4 * q + a) div 100) = k"
    unfolding parts(1,2) by (simp add: p(2))
  show ?thesis
  proof (rule that [OF p(1)])
    show "t + 306 = 146097 * era + (36524 * c + 1461 * q + 365 * a + k)" using t(1) p(2) by simp
  qed (simp only: civil_of_days_def days_per_400y_def Let_def era year_of_era [OF p] doy)
qed

text \<open>The last day of February of a leap year.\<close>

lemma leap_day:
  assumes "era_day c q a k" "k = 365"
  shows "leap_year (400 * era + (100 * c + 4 * q + a) + 1)"
proof (cases "q = 24")
  case True
  then have y: "400 * era + (100 * c + 4 * q + a) + 1 = 4 * (100 * (era + 1))" "400 * era + (100 * c + 4 * q + a) + 1 = 400 * (era + 1)"
    using assms by (auto simp: era_day_def)
  have "(400 * era + (100 * c + 4 * q + a) + 1) mod 4 = 0" unfolding y(1) by (rule mod_mult_self1_is_0)
  moreover have "(400 * era + (100 * c + 4 * q + a) + 1) mod 400 = 0" unfolding y(2) by (rule mod_mult_self1_is_0)
  ultimately show ?thesis by (simp only: leap_year_def simp_thms)
next
  case False
  have "400 * era + (100 * c + 4 * q + a) + 1 = 4 * (100 * era + 25 * c + q + 1)" using assms by (auto simp: era_day_def)
  moreover have "(400 * era + (100 * c + 4 * q + a) + 1) mod 100 = 4 * q + 4"
    using assms False by (intro int_mod_pos_eq [of _ _ "4 * era + c"]) (auto simp: era_day_def)
  moreover have "4 * q + 4 \<noteq> 0" using assms by (auto simp: era_day_def)
  ultimately show ?thesis by (simp add: leap_year_def)
qed

text \<open>The calendar is one to one: the date of a day is a date of its month and gives the day back.\<close>

lemma days_of_civil_of_days:
  assumes "civil_of_days t = (y, m, d)"
  shows "days_of_civil y m d = t" "1 \<le> m" "m \<le> 12" "1 \<le> d" "d \<le> days_in_month y m"
proof -
  obtain era c q a k where p: "era_day c q a k" "t + 306 = 146097 * era + (36524 * c + 1461 * q + 365 * a + k)"
    "civil_of_days t =
       (let mp = (5 * k + 2) div 153; m = (if mp < 10 then mp + 3 else mp - 9)
        in (100 * c + 4 * q + a + era * 400 + (if m \<le> 2 then 1 else 0), m, k - (153 * mp + 2) div 5 + 1))"
    by (rule civil_parts)
  obtain mp where mp: "(5 * k + 2) div 153 = mp" by blast
  have ymd: "m = (if mp < 10 then mp + 3 else mp - 9)" "y = 400 * era + (100 * c + 4 * q + a) + (if m \<le> 2 then 1 else 0)"
    "d = k - (153 * mp + 2) div 5 + 1"
    using assms unfolding p(3) mp Let_def by auto
  have "month_ok k mp" using month_of_day [of k] p(1) unfolding mp by (simp add: era_day_def)
  then have m: "1 \<le> m \<and> m \<le> 12 \<and> (if m \<le> 2 then m + 9 else m - 3) = mp \<and> 1 \<le> d \<and>
    d \<le> (if m = 2 then (if k = 365 then 29 else 28) else if m \<in> {4, 6, 9, 11} then 30 else 31)"
    unfolding month_ok_def Let_def ymd(1) [symmetric] ymd(3) [symmetric] .
  then have inv: "(if m \<le> 2 then m + 9 else m - 3) = mp" by blast
  have yoe: "(if m \<le> 2 then y - 1 else y) = 400 * era + (100 * c + 4 * q + a)" by (simp add: ymd(2))
  show "days_of_civil y m d = t"
    unfolding days_of_civil_def Let_def yoe inv yoe_parts [OF p(1)] days_per_400y_def using p(2) by (simp add: ymd(3))
  show "1 \<le> m" "m \<le> 12" "1 \<le> d" using m by blast+
  have "m = 2 \<Longrightarrow> k = 365 \<Longrightarrow> leap_year y" using leap_day [OF p(1)] by (simp add: ymd(2))
  then show "d \<le> days_in_month y m" using m unfolding days_in_month_def by (auto split: if_splits)
qed

section \<open>Timestamps come back\<close>

lemma parse_dec_zeros: "parse_dec (replicate n CHR ''0'' @ s) = parse_dec s"
  by (induction n) (simp_all add: parse_dec_def)

lemma length_show_digits: "0 \<le> i \<Longrightarrow> i < 10 ^ Suc w \<Longrightarrow> length (show_digits i) \<le> Suc w"
proof (induction w arbitrary: i)
  case 0
  then show ?case by (subst show_digits.simps) simp
next
  case (Suc w)
  show ?case
  proof (cases "i < 10")
    case True
    then show ?thesis by (subst show_digits.simps) simp
  next
    case False
    obtain j r where j: "i = 10 * j + r" "0 \<le> r" "r < 10" using euclid [of 10 i] by auto
    have "i div 10 = j" using j by (intro int_div_pos_eq)
    moreover have "10 * j < 10 * 10 ^ Suc w" using Suc.prems(2) j(1,2) by simp
    ultimately have "i div 10 < 10 ^ Suc w" by simp
    then show ?thesis using False Suc by (subst show_digits.simps) (simp add: pos_imp_zdiv_nonneg_iff)
  qed
qed

lemma show_padded_digits:
  assumes "0 \<le> i" "i < 10 ^ w" "0 < w"
  shows "length (show_padded w i) = w" "list_all is_digit (show_padded w i)" "int (parse_dec (show_padded w i)) = i"
proof -
  obtain v where w: "w = Suc v" using assms(3) by (cases w) auto
  have "length (show_digits i) \<le> w" using length_show_digits assms(1,2) unfolding w by blast
  then show "length (show_padded w i) = w" using assms(1) by (simp add: show_padded_def pad_left_def)
  show "list_all is_digit (show_padded w i)" using assms(1) by (simp add: show_padded_def pad_left_def show_digits_digits) (simp add: list_all_iff is_digit_def)
  show "int (parse_dec (show_padded w i)) = i" using assms(1) by (simp add: show_padded_def pad_left_def parse_dec_zeros parse_show_digits)
qed

lemma readDigits_show:
  assumes "0 \<le> i" "i < 10 ^ w" "0 < w" "lo \<le> i" "i \<le> hi"
  shows "readDigits w lo hi (show_padded w i @ rest) = Some (i, rest)"
  using show_padded_digits [OF assms(1-3)] assms(4,5) by (simp add: readDigits_def)

lemma readFraction_show:
  assumes "0 \<le> ns" "ns < Second"
  shows "readFraction (show_fraction ns @ ''Z'') = (ns, ''Z'')"
proof -
  let ?t = "show_padded 9 ns"
  define f where "f = TrimRight ?t ''0''"
  have t: "length ?t = 9" "list_all is_digit ?t" "int (parse_dec ?t) = ns"
    using show_padded_digits [of ns 9] assms by (simp_all add: Second_def)
  define zs where "zs = rev (takeWhile (\<lambda>c. c \<in> set ''0'') (rev ?t))"
  have split: "?t = f @ zs"
    unfolding f_def zs_def TrimRight_def trim_right_by_def rev_append [symmetric] takeWhile_dropWhile_id rev_rev_ident ..
  have "zs = replicate (length zs) CHR ''0''"
    by (rule replicate_length_same [symmetric]) (auto simp: zs_def dest!: set_takeWhileD)
  moreover have len: "length f + length zs = 9" using t(1) split by (metis length_append)
  ultimately have padded: "?t = f @ replicate (9 - length f) CHR ''0''" using split by (metis add_diff_cancel_left')
  have f: "list_all is_digit f" using t(2) by (simp add: split)
  have run: "takeWhile is_digit (f @ ''Z'') = f" "dropWhile is_digit (f @ ''Z'') = ''Z''"
    using f by (simp_all add: list_all_iff takeWhile_append dropWhile_append is_digit_def)
  have ns: "int (parse_dec (f @ replicate (9 - length f) CHR ''0'')) = ns" using t(3) padded by simp
  have "ns = 0" if "f = []" using that ns parse_dec_zeros [of 9 "[]"] by (simp add: parse_dec_def)
  then show ?thesis
    using len ns run by (simp add: show_fraction_def f_def [symmetric] Let_def readFraction_def)
qed

text \<open>The instants whose year has four digits.\<close>

definition writable_time :: "time \<Rightarrow> bool" where
  "writable_time t \<longleftrightarrow> (let y = fst (civil_of_days (t div Second div 86400)) in 0 \<le> y \<and> y \<le> 9999)"

lemma parse_format:
  assumes "writable_time t"
  shows "parseRFC3339 (FormatRFC3339Nano t) = Some t"
proof -
  obtain secs ns where t: "t = Second * secs + ns" "0 \<le> ns" "ns < Second" using euclid [of Second t] by (auto simp: Second_def)
  obtain days sod where s: "secs = 86400 * days + sod" "0 \<le> sod" "sod < 86400" using euclid [of 86400 secs] by auto
  obtain h r where h: "sod = 3600 * h + r" "0 \<le> r" "r < 3600" using euclid [of 3600 sod] by auto
  obtain mi sec where m: "r = 60 * mi + sec" "0 \<le> sec" "sec < 60" using euclid [of 60 r] by auto
  obtain y mo d where c: "civil_of_days days = (y, mo, d)" using prod_cases3 by blast
  have divs: "t div Second = secs" "t mod Second = ns" "secs div 86400 = days" "secs mod 86400 = sod" "sod div 3600 = h" "sod mod 3600 = r"
    "r div 60 = mi" "r mod 60 = sec"
    using t s h m by (auto intro: int_div_pos_eq int_mod_pos_eq)
  have sec: "sod mod 60 = sec" using h(1) m by (intro int_mod_pos_eq [of _ _ "60 * h + mi"]) auto
  have y: "0 \<le> y" "y \<le> 9999" using assms by (simp_all add: writable_time_def divs c)
  note date = days_of_civil_of_days [OF c]
  have d: "days_in_month y mo < 100" by (simp add: days_in_month_def)
  have bounds: "0 \<le> h" "h \<le> 23" "0 \<le> mi" "mi \<le> 59" "sec \<le> 59" using s h m by linarith+
  have "(days_of_civil y mo d * 86400 + h * 3600 + mi * 60 + sec - 0) * Second + ns = t"
    unfolding date(1) t(1) s(1) h(1) m(1) by (simp add: algebra_simps)
  then show ?thesis
    using y date bounds m(2) d t(2,3)
    by (simp add: FormatRFC3339Nano_def parseRFC3339_def divs sec c readDigits_show readFraction_show expect_def readZone_def)
qed

end
