(* ===== verification/Event_Wire.thy ===== *)
theory Event_Wire
  imports Event Go_Json Go_Rfc3339
begin

text \<open>
  The lines of the daemon's socket as \<open>encoding/json\<close> writes and reads them: the member tags of the structs of
  \<open>internal/event/event.go\<close> as decoders of one member each, the text of a semantic event, and the proof that the event
  the daemon decodes is the event the emitter encoded. A member goes to the field whose tag it matches without regard
  to case, members without a field are skipped, a value of the wrong type fails the whole text. Not modelled of the
  decoder: numbers beyond the range of a float in a free-form map, and the elements an earlier member of the same name
  leaves in a slice for a null to keep.
\<close>

section \<open>Decoding structs\<close>

definition fold_rune :: "rune \<Rightarrow> rune" where
  "fold_rune r = (if 65 \<le> r \<and> r \<le> 90 then r + 32 else if r = 0x17F then 115 else if r = 0x212A then 107 else r)"

definition matchesTag :: "string \<Rightarrow> string \<Rightarrow> bool" where
  "matchesTag tag key \<longleftrightarrow> map fold_rune (runes key) = map byte_of tag"

type_synonym 'r member = "string \<times> (json \<Rightarrow> 'r \<Rightarrow> 'r option)"

primrec decodeStruct :: "'r member list \<Rightarrow> jobject \<Rightarrow> 'r \<Rightarrow> 'r option" where
  "decodeStruct fds [] r = Some r"
| "decodeStruct fds (kv # kvs) r =
     (case find (\<lambda>(tag, put). matchesTag tag (fst kv)) fds of
        None \<Rightarrow> decodeStruct fds kvs r
      | Some (tag, put) \<Rightarrow> Option.bind (put (snd kv) r) (decodeStruct fds kvs))"

text \<open>The fds by their types; a null leaves a field as it is, except that it empties a slice and a map.\<close>

definition stringField :: "((string \<Rightarrow> string) \<Rightarrow> 'r \<Rightarrow> 'r) \<Rightarrow> json \<Rightarrow> 'r \<Rightarrow> 'r option" where
  "stringField upd v r = (case v of JStr s \<Rightarrow> Some (upd (\<lambda>_. s) r) | JNull \<Rightarrow> Some r | _ \<Rightarrow> None)"

definition intField :: "((int \<Rightarrow> int) \<Rightarrow> 'r \<Rightarrow> 'r) \<Rightarrow> json \<Rightarrow> 'r \<Rightarrow> 'r option" where
  "intField upd v r = (case v of JNum n \<Rightarrow> map_option (\<lambda>i. upd (\<lambda>_. i) r) (Atoi n) | JNull \<Rightarrow> Some r | _ \<Rightarrow> None)"

definition timeField :: "((time \<Rightarrow> time) \<Rightarrow> 'r \<Rightarrow> 'r) \<Rightarrow> json \<Rightarrow> 'r \<Rightarrow> 'r option" where
  "timeField upd v r = (case v of JStr s \<Rightarrow> map_option (\<lambda>t. upd (\<lambda>_. t) r) (parseRFC3339 s) | JNull \<Rightarrow> Some r | _ \<Rightarrow> None)"

primrec textElements :: "json list \<Rightarrow> string list option" where
  "textElements [] = Some []"
| "textElements (v # vs) =
     (case v of
        JStr s \<Rightarrow> map_option (Cons s) (textElements vs)
      | JNull \<Rightarrow> map_option (Cons []) (textElements vs)
      | _ \<Rightarrow> None)"

definition textsField :: "((string list option \<Rightarrow> string list option) \<Rightarrow> 'r \<Rightarrow> 'r) \<Rightarrow> json \<Rightarrow> 'r \<Rightarrow> 'r option" where
  "textsField upd v r =
     (case v of
        JArr vs \<Rightarrow> map_option (\<lambda>xs. upd (\<lambda>_. Some xs) r) (textElements vs)
      | JNull \<Rightarrow> Some (upd (\<lambda>_. None) r)
      | _ \<Rightarrow> None)"

text \<open>A free-form value: of several members with one name the last one stays.\<close>

definition putMembers :: "jobject \<Rightarrow> jobject \<Rightarrow> jobject" where
  "putMembers kvs m = fold (\<lambda>(k, v) m. mput k v m) kvs m"

fun freeValue :: "json \<Rightarrow> json" where
  "freeValue (JArr vs) = JArr (map freeValue vs)"
| "freeValue (JObj kvs) = JObj (putMembers (map (\<lambda>(k, v). (k, freeValue v)) kvs) [])"
| "freeValue v = v"

definition mapField :: "((jobject option \<Rightarrow> jobject option) \<Rightarrow> 'r \<Rightarrow> 'r) \<Rightarrow> json \<Rightarrow> 'r \<Rightarrow> 'r option" where
  "mapField upd v r =
     (case v of
        JObj kvs \<Rightarrow> Some (upd (\<lambda>m. Some (putMembers (map (\<lambda>(k, v). (k, freeValue v)) kvs) (items m))) r)
      | JNull \<Rightarrow> Some (upd (\<lambda>_. None) r)
      | _ \<Rightarrow> None)"

definition structField :: "'s member list \<Rightarrow> ('r \<Rightarrow> 's) \<Rightarrow> (('s \<Rightarrow> 's) \<Rightarrow> 'r \<Rightarrow> 'r) \<Rightarrow> json \<Rightarrow> 'r \<Rightarrow> 'r option" where
  "structField fds get upd v r =
     (case v of
        JObj kvs \<Rightarrow> map_option (\<lambda>x. upd (\<lambda>_. x) r) (decodeStruct fds kvs (get r))
      | JNull \<Rightarrow> Some r
      | _ \<Rightarrow> None)"

definition pointerField :: "'s member list \<Rightarrow> 's \<Rightarrow> ('r \<Rightarrow> 's option) \<Rightarrow> (('s option \<Rightarrow> 's option) \<Rightarrow> 'r \<Rightarrow> 'r) \<Rightarrow> json \<Rightarrow> 'r \<Rightarrow> 'r option" where
  "pointerField fds zero get upd v r =
     (case v of
        JObj kvs \<Rightarrow>
          map_option (\<lambda>x. upd (\<lambda>_. Some x) r) (decodeStruct fds kvs (case get r of Some x \<Rightarrow> x | None \<Rightarrow> zero))
      | JNull \<Rightarrow> Some (upd (\<lambda>_. None) r)
      | _ \<Rightarrow> None)"

definition unmarshal :: "'r member list \<Rightarrow> 'r \<Rightarrow> string \<Rightarrow> 'r option" where
  "unmarshal fds zero line =
     (case readJSON line of
        Some (JObj kvs) \<Rightarrow> decodeStruct fds kvs zero
      | Some JNull \<Rightarrow> Some zero
      | _ \<Rightarrow> None)"

section \<open>The structs of the socket\<close>

definition agentFields :: "AgentInfo member list" where
  "agentFields =
     [(''id'', stringField aID_update), (''type'', stringField aType_update), (''name'', stringField aName_update),
      (''pid'', intField aPID_update), (''parent_agent_id'', stringField aParentAgentID_update),
      (''spawn_method'', stringField aSpawnMethod_update), (''first_seen'', timeField aFirstSeen_update),
      (''last_seen'', timeField aLastSeen_update), (''cwd'', stringField aCwd_update), (''version'', stringField aVersion_update)]"

definition sessionFields :: "SessionInfo member list" where
  "sessionFields = [(''id'', stringField sessID_update)]"

definition semanticFields :: "SemanticEvent member list" where
  "semanticFields =
     [(''schema'', stringField sSchema_update), (''ts'', timeField sTS_update),
      (''agent'', structField agentFields sAgent sAgent_update), (''session'', structField sessionFields sSession sSession_update),
      (''event'', stringField sEvent_update), (''tool'', stringField sTool_update), (''target'', stringField sTarget_update),
      (''cwd'', stringField sCWD_update), (''pid'', intField sPID_update), (''ppid'', intField sPPID_update),
      (''tags'', textsField sTags_update), (''destination_intents'', textsField sDestinationIntents_update),
      (''tool_use_id'', stringField sToolUseID_update), (''input_summary'', mapField sInputSummary_update),
      (''output_summary'', mapField sOutputSummary_update), (''raw_ref'', stringField sRawRef_update)]"

definition networkFields :: "NetworkFlowEvent member list" where
  "networkFields =
     [(''schema'', stringField fSchema_update), (''ts'', timeField fTS_update),
      (''agent'', pointerField agentFields zeroAgent fAgent fAgent_update), (''flow_id'', stringField fFlowID_update),
      (''observer'', stringField fObserver_update), (''pid'', intField fPID_update), (''ppid'', intField fPPID_update),
      (''process_path'', stringField fProcessPath_update), (''process_bundle_id'', stringField fProcessBundleID_update),
      (''process_team_id'', stringField fProcessTeamID_update), (''signing_info'', mapField fSigningInfo_update),
      (''local'', stringField fLocal_update), (''remote'', stringField fRemote_update), (''sni'', stringField fSNI_update),
      (''hostname'', stringField fHostname_update), (''hostname_source'', stringField fHostnameSource_update),
      (''ptr_hostname'', stringField fPTRHostname_update), (''protocol'', stringField fProtocol_update),
      (''direction'', stringField fDirection_update), (''bytes_out'', intField fBytesOut_update),
      (''bytes_in'', intField fBytesIn_update), (''state'', stringField fState_update)]"

definition controlFields :: "ControlMessage member list" where
  "controlFields = [(''schema'', stringField mSchema_update), (''action'', stringField mAction_update)]"

definition UnmarshalSemantic :: "string \<Rightarrow> SemanticEvent option" where
  "UnmarshalSemantic = unmarshal semanticFields zeroSemantic"

definition UnmarshalNetwork :: "string \<Rightarrow> NetworkFlowEvent option" where
  "UnmarshalNetwork = unmarshal networkFields zeroFlow"

definition UnmarshalControl :: "string \<Rightarrow> ControlMessage option" where
  "UnmarshalControl = unmarshal controlFields \<lparr>mSchema = [], mAction = []\<rparr>"

text \<open>The text of a semantic event: the struct's members in their order, the maps below in the order of their keys.\<close>

definition semanticJSON :: "SemanticEvent \<Rightarrow> json" where
  "semanticJSON e = JObj (map (\<lambda>(k, v). (k, sortKeys v)) (SemanticEvent_MarshalJSON e))"

definition MarshalSemantic :: "SemanticEvent \<Rightarrow> string" where
  "MarshalSemantic e = jsonText (semanticJSON e)"

section \<open>Matching members\<close>

definition plain_key :: "string \<Rightarrow> bool" where
  "plain_key k \<longleftrightarrow> list_all (\<lambda>c. byte_of c < 0x80 \<and> \<not> (65 \<le> byte_of c \<and> byte_of c \<le> 90)) k"

lemma byte_of_inj: "byte_of c = byte_of d \<longleftrightarrow> c = d"
  by (simp add: byte_of_def)

lemma matchesTag_plain: "plain_key k \<Longrightarrow> matchesTag tag k \<longleftrightarrow> k = tag"
proof -
  assume "plain_key k"
  then have "map fold_rune (runes k) = map byte_of k"
    using runes_ascii [of k "[]"] by (auto simp: plain_key_def list_all_iff fold_rune_def)
  moreover have "inj byte_of" by (simp add: inj_on_def byte_of_inj)
  ultimately show ?thesis by (simp add: matchesTag_def inj_map_eq_map)
qed

lemma find_plain: "plain_key k \<Longrightarrow> find (\<lambda>(tag, put). matchesTag tag k) fds = map_option (Pair k) (map_of fds k)"
  by (induction fds) (auto simp: matchesTag_plain)

lemma decodeStruct_plain:
  "plain_key k \<Longrightarrow> decodeStruct fds ((k, v) # kvs) r =
     (case map_of fds k of None \<Rightarrow> decodeStruct fds kvs r | Some put \<Rightarrow> Option.bind (put v r) (decodeStruct fds kvs))"
  by (simp add: find_plain split: option.split)

lemma decodeStruct_append: "decodeStruct fds (xs @ ys) r = Option.bind (decodeStruct fds xs r) (decodeStruct fds ys)"
  by (induction xs arbitrary: r) (auto split: option.split bind_split)

section \<open>Free-form maps come back\<close>

fun unique_keys :: "json \<Rightarrow> bool" where
  "unique_keys (JArr vs) \<longleftrightarrow> (\<forall>v \<in> set vs. unique_keys v)"
| "unique_keys (JObj kvs) \<longleftrightarrow> distinct (map fst kvs) \<and> (\<forall>(k, v) \<in> set kvs. unique_keys v)"
| "unique_keys v \<longleftrightarrow> True"

lemma update_fresh: "k \<notin> fst ` set m \<Longrightarrow> mput k v m = m @ [(k, v)]"
  by (induction m) auto

lemma putMembers_fresh: "distinct (map fst (m @ kvs)) \<Longrightarrow> putMembers kvs m = m @ kvs"
proof (induction kvs arbitrary: m)
  case (Cons kv kvs)
  then show ?case by (cases kv) (auto simp: putMembers_def update_fresh)
qed (simp add: putMembers_def)

lemma freeValue_unique: "unique_keys v \<Longrightarrow> freeValue v = v"
proof (induction v)
  case (JObj kvs)
  have "freeValue v = v" if "(k, v) \<in> set kvs" for k v
    using JObj.IH [of "(k, v)" v] JObj.prems that by (fastforce simp: snds.simps)
  then have "map (\<lambda>(k, v). (k, freeValue v)) kvs = kvs" by (auto intro: map_idI)
  then show ?case using JObj.prems putMembers_fresh [of "[]" kvs] by simp
qed (auto intro: map_idI)

lemma unique_sortKeys: "unique_keys v \<Longrightarrow> unique_keys (sortKeys v)"
proof (induction v)
  case (JObj kvs)
  have "unique_keys (sortKeys v)" if "(k, v) \<in> set kvs" for k v
    using JObj.IH [of "(k, v)" v] JObj.prems that by (fastforce simp: snds.simps)
  moreover have "distinct (map fst (sort_key fst (map (\<lambda>(k, v). (k, sortKeys v)) kvs)))"
  proof -
    let ?m = "map (\<lambda>(k, v). (k, sortKeys v)) kvs"
    have "distinct (map fst ?m)" using JObj.prems by (simp add: comp_def case_prod_unfold)
    then have "distinct ?m \<and> inj_on fst (set ?m)" unfolding distinct_map by (simp only: simp_thms)
    then show ?thesis by (simp only: distinct_map distinct_sort set_sort simp_thms)
  qed
  ultimately show ?case by auto
qed simp_all

definition sortedMap :: "jobject \<Rightarrow> jobject" where
  "sortedMap m = sort_key fst (map (\<lambda>(k, v). (k, sortKeys v)) m)"

lemma putMembers_sorted:
  assumes "unique_keys (JObj m)"
  shows "putMembers (map (\<lambda>(k, v). (k, freeValue v)) (sortedMap m)) [] = sortedMap m"
proof -
  have "unique_keys (JObj (sortedMap m))" using unique_sortKeys [OF assms] by (simp add: sortedMap_def)
  then show ?thesis using freeValue_unique [of "JObj (sortedMap m)"] by simp
qed

section \<open>Agents come back\<close>

definition int64 :: "int \<Rightarrow> bool" where
  "int64 i \<longleftrightarrow> - 9223372036854775808 \<le> i \<and> i \<le> 9223372036854775807"

definition agentMembers :: "AgentInfo \<Rightarrow> jobject" where
  "agentMembers a =
     [(''id'', JStr (aID a)), (''type'', JStr (aType a)), (''name'', JStr (aName a)), (''pid'', JNum (Itoa (aPID a))),
      (''parent_agent_id'', JStr (aParentAgentID a)), (''spawn_method'', JStr (aSpawnMethod a)),
      (''first_seen'', JStr (FormatRFC3339Nano (aFirstSeen a))), (''last_seen'', JStr (FormatRFC3339Nano (aLastSeen a))),
      (''cwd'', JStr (aCwd a)), (''version'', JStr (aVersion a))]"

definition wire_agent :: "AgentInfo \<Rightarrow> bool" where
  "wire_agent a \<longleftrightarrow> 0 \<le> aPID a \<and> int64 (aPID a) \<and> writable_time (aFirstSeen a) \<and> writable_time (aLastSeen a)"

text \<open>Members that each write their field with a fixed value: the order in which they come does not matter.\<close>

definition writes :: "'r member list \<Rightarrow> (string \<Rightarrow> 'r \<Rightarrow> 'r) \<Rightarrow> string \<times> json \<Rightarrow> bool" where
  "writes fds f = (\<lambda>(k, v). plain_key k \<and> (\<exists>put. map_of fds k = Some put \<and> (\<forall>r. put v r = Some (f k r))))"

lemma decodeStruct_fold:
  assumes "list_all (writes fds f) members" "set kvs \<subseteq> set members"
  shows "decodeStruct fds kvs r = Some (fold f (map fst kvs) r)"
  using assms(2)
proof (induction kvs arbitrary: r)
  case (Cons kv kvs)
  obtain k v where kv: "kv = (k, v)" by fastforce
  then have "writes fds f (k, v)" using assms(1) Cons.prems by (auto simp: list_all_iff)
  then show ?case using Cons by (auto simp: kv writes_def decodeStruct_plain simp del: decodeStruct.simps)
qed simp

lemma fold_field:
  assumes "\<And>k r. get (f k r) = (if k = tag then x else get r)"
  shows "get (fold f ks r) = (if tag \<in> set ks then x else get r)"
  using assms by (induction ks arbitrary: r) auto

definition agentSet :: "AgentInfo \<Rightarrow> string \<Rightarrow> AgentInfo \<Rightarrow> AgentInfo" where
  "agentSet a k r =
     (if k = ''id'' then r\<lparr>aID := aID a\<rparr> else if k = ''type'' then r\<lparr>aType := aType a\<rparr>
      else if k = ''name'' then r\<lparr>aName := aName a\<rparr> else if k = ''pid'' then r\<lparr>aPID := aPID a\<rparr>
      else if k = ''parent_agent_id'' then r\<lparr>aParentAgentID := aParentAgentID a\<rparr>
      else if k = ''spawn_method'' then r\<lparr>aSpawnMethod := aSpawnMethod a\<rparr>
      else if k = ''first_seen'' then r\<lparr>aFirstSeen := aFirstSeen a\<rparr> else if k = ''last_seen'' then r\<lparr>aLastSeen := aLastSeen a\<rparr>
      else if k = ''cwd'' then r\<lparr>aCwd := aCwd a\<rparr> else if k = ''version'' then r\<lparr>aVersion := aVersion a\<rparr> else r)"

lemma agentSet_get:
  "aID (agentSet a k r) = (if k = ''id'' then aID a else aID r)"
  "aType (agentSet a k r) = (if k = ''type'' then aType a else aType r)"
  "aName (agentSet a k r) = (if k = ''name'' then aName a else aName r)"
  "aPID (agentSet a k r) = (if k = ''pid'' then aPID a else aPID r)"
  "aParentAgentID (agentSet a k r) = (if k = ''parent_agent_id'' then aParentAgentID a else aParentAgentID r)"
  "aSpawnMethod (agentSet a k r) = (if k = ''spawn_method'' then aSpawnMethod a else aSpawnMethod r)"
  "aFirstSeen (agentSet a k r) = (if k = ''first_seen'' then aFirstSeen a else aFirstSeen r)"
  "aLastSeen (agentSet a k r) = (if k = ''last_seen'' then aLastSeen a else aLastSeen r)"
  "aCwd (agentSet a k r) = (if k = ''cwd'' then aCwd a else aCwd r)"
  "aVersion (agentSet a k r) = (if k = ''version'' then aVersion a else aVersion r)"
  unfolding agentSet_def by auto

lemmas agentSet_fold =
  fold_field [where f = "agentSet a" for a, OF agentSet_get(1)] fold_field [where f = "agentSet a" for a, OF agentSet_get(2)]
  fold_field [where f = "agentSet a" for a, OF agentSet_get(3)] fold_field [where f = "agentSet a" for a, OF agentSet_get(4)]
  fold_field [where f = "agentSet a" for a, OF agentSet_get(5)] fold_field [where f = "agentSet a" for a, OF agentSet_get(6)]
  fold_field [where f = "agentSet a" for a, OF agentSet_get(7)] fold_field [where f = "agentSet a" for a, OF agentSet_get(8)]
  fold_field [where f = "agentSet a" for a, OF agentSet_get(9)] fold_field [where f = "agentSet a" for a, OF agentSet_get(10)]

lemma agent_writes:
  assumes "wire_agent a"
  shows "list_all (writes agentFields (agentSet a)) (agentMembers a)"
proof -
  have "Atoi (Itoa (aPID a)) = Some (aPID a)" using assms Atoi_Itoa by (simp add: wire_agent_def int64_def)
  moreover have "parseRFC3339 (FormatRFC3339Nano (aFirstSeen a)) = Some (aFirstSeen a)"
    "parseRFC3339 (FormatRFC3339Nano (aLastSeen a)) = Some (aLastSeen a)"
    using assms parse_format by (simp_all add: wire_agent_def)
  ultimately show ?thesis
    by (simp add: agentMembers_def writes_def plain_key_def byte_of_def agentFields_def agentSet_def stringField_def intField_def timeField_def)
qed

text \<open>The members present are those of the fields that are not zero.\<close>

lemma set_mput: "set (mput k v m) \<subseteq> insert (k, v) (set m)" "fst ` set (mput k v m) = insert k (fst ` set m)"
  by (induction m) auto

lemma put_unless_within: "(k, v) \<in> M \<Longrightarrow> set m \<subseteq> M \<Longrightarrow> set (put_unless b k v m) \<subseteq> M"
  using set_mput(1) [of k v m] by (auto simp: put_unless_def)

lemma keys_put_unless: "k' \<in> fst ` set (put_unless b k v m) \<longleftrightarrow> \<not> b \<and> k' = k \<or> k' \<in> fst ` set m"
  using set_mput(2) [of k v m] by (simp add: put_unless_def)

lemma agent_members_written: "set (AgentInfo_MarshalJSON a) \<subseteq> set (agentMembers a)"
  unfolding AgentInfo_MarshalJSON_def by (intro put_unless_within) (simp_all add: agentMembers_def)

lemma agent_keys:
  "k \<in> fst ` set (AgentInfo_MarshalJSON a) \<longleftrightarrow>
     aVersion a \<noteq> [] \<and> k = ''version'' \<or> aCwd a \<noteq> [] \<and> k = ''cwd'' \<or>
     aLastSeen a \<noteq> 0 \<and> k = ''last_seen'' \<or> aFirstSeen a \<noteq> 0 \<and> k = ''first_seen'' \<or>
     aSpawnMethod a \<noteq> [] \<and> k = ''spawn_method'' \<or> aParentAgentID a \<noteq> [] \<and> k = ''parent_agent_id'' \<or>
     0 < aPID a \<and> k = ''pid'' \<or> aName a \<noteq> [] \<and> k = ''name'' \<or> aType a \<noteq> [] \<and> k = ''type'' \<or> aID a \<noteq> [] \<and> k = ''id''"
  unfolding AgentInfo_MarshalJSON_def keys_put_unless IsZero_def
  by (simp only: list.set image_empty empty_iff not_not simp_thms)

lemma decode_agent:
  assumes "wire_agent a"
  shows "decodeStruct agentFields (sortedMap (AgentInfo_MarshalJSON a)) zeroAgent = Some a"
proof -
  let ?m = "AgentInfo_MarshalJSON a" and ?s = "sortedMap (AgentInfo_MarshalJSON a)"
  have "set (map (\<lambda>(k, v). (k, sortKeys v)) (agentMembers a)) = set (agentMembers a)" by (simp add: agentMembers_def)
  then have "set ?s \<subseteq> set (agentMembers a)"
    using image_mono [OF agent_members_written [of a], of "\<lambda>(k, v). (k, sortKeys v)"] by (simp add: sortedMap_def)
  then have d: "decodeStruct agentFields ?s zeroAgent = Some (fold (agentSet a) (map fst ?s) zeroAgent)"
    by (rule decodeStruct_fold [OF agent_writes [OF assms]])
  have "set (map fst ?s) = fst ` set ?m" by (force simp: sortedMap_def)
  then have keys: "k \<in> set (map fst ?s) \<longleftrightarrow> k \<in> fst ` set ?m" for k by simp
  have "fold (agentSet a) (map fst ?s) zeroAgent = a"
    using assms 
    by (intro AgentInfo.equality) (simp_all add: agentSet_fold keys agent_keys zeroAgent_def wire_agent_def del: set_map)
  then show ?thesis using d by simp
qed

section \<open>Events come back\<close>

text \<open>Numbers and instants print as numbers and as ASCII.\<close>

lemma show_digits_head: "0 < n \<Longrightarrow> hd (show_digits n) \<noteq> CHR ''0''"
proof (induction n rule: show_digits.induct)
  case (1 n)
  show ?case
  proof (cases "n < 10")
    case True
    then have "n = 1 \<or> n = 2 \<or> n = 3 \<or> n = 4 \<or> n = 5 \<or> n = 6 \<or> n = 7 \<or> n = 8 \<or> n = 9" using 1(2) by arith
    then show ?thesis using True by (subst show_digits.simps) (auto simp: digit_char.simps)
  next
    case False
    then have "hd (show_digits (n div 10)) \<noteq> CHR ''0''" using 1 by (simp add: pos_imp_zdiv_pos_iff)
    then show ?thesis using False show_digits_nonempty by (subst show_digits.simps) simp
  qed
qed

lemma good_Itoa: "good_numbers (JNum (Itoa i))"
proof -
  obtain ds where digits: "show_digits \<bar>i\<bar> = ds" by blast
  have ds: "list_all (\<lambda>c. c \<in> set ''0123456789'') ds" "ds \<noteq> []"
    using show_digits_chars [of "\<bar>i\<bar>"] show_digits_nonempty [of "\<bar>i\<bar>"] unfolding list_all_iff digits by blast+
  have zero: "hd ds = CHR ''0'' \<longrightarrow> length ds = 1"
  proof (cases "i = 0")
    case True
    have "show_digits 0 = [digit_char 0]" by (subst show_digits.simps) simp
    then have "ds = [digit_char 0]" using digits True by (metis abs_zero)
    then show ?thesis by simp
  qed (use show_digits_head [of "\<bar>i\<bar>"] digits in simp)
  have signed: "Itoa i = (if i < 0 then CHR ''-'' # ds else ds)" using digits by (cases "i < 0") (simp_all add: Itoa_def)
  have drop: "drop_sign ''-'' (Itoa i) = ds"
  proof -
    have "hd ds \<in> set ''0123456789''" using ds hd_in_set [of ds] unfolding list_all_iff by blast
    then have "hd ds \<noteq> CHR ''-''" by (rule contrapos_pn) simp
    then show ?thesis using ds(2) unfolding signed by (cases ds) (simp_all add: drop_sign_def)
  qed
  have run: "takeWhile (\<lambda>c. c \<in> set ''0123456789'') ds = ds" "dropWhile (\<lambda>c. c \<in> set ''0123456789'') ds = []"
    using ds(1) unfolding list_all_iff takeWhile_eq_all_conv dropWhile_eq_Nil_conv by blast+
  have "set ''0123456789'' \<subseteq> Collect number_char" by (simp add: number_char_def)
  then have "list_all number_char ds" using ds(1) unfolding list_all_iff by blast
  then have "list_all number_char (Itoa i)" unfolding signed by (simp add: number_char_def)
  moreover have "valid_number (Itoa i)" unfolding valid_number_def drop Let_def run using ds(2) zero by simp
  ultimately show ?thesis by simp
qed

definition ascii :: "string \<Rightarrow> bool" where
  "ascii s \<longleftrightarrow> list_all (\<lambda>c. byte_of c < 0x80) s"

lemma cleanText_ascii: "ascii s \<Longrightarrow> cleanText s = s"
  using runes_ascii [of s "[]"] by (induction s) (simp_all add: ascii_def cleanText_def encode_def EncodeRune_ascii DecodeRune_def)

lemma ascii_simps [simp]:
  "ascii []" "ascii (c # s) \<longleftrightarrow> byte_of c < 0x80 \<and> ascii s" "ascii (s @ t) \<longleftrightarrow> ascii s \<and> ascii t"
  by (simp_all add: ascii_def)

lemma ascii_digits: "list_all is_digit s \<Longrightarrow> ascii s"
  by (auto simp: ascii_def list_all_iff is_digit_def byte_of_def Let_def)

lemma ascii_padded [simp]: "ascii (show_padded w i)"
proof -
  have "ascii (show_digits n)" for n using ascii_digits [OF show_digits_digits] .
  moreover have "ascii (replicate n CHR ''0'')" for n by (induction n) (simp_all add: byte_of_def)
  ultimately show ?thesis by (simp add: show_padded_def pad_left_def byte_of_def)
qed

lemma ascii_fraction [simp]: "ascii (show_fraction ns)"
proof -
  have "set (TrimRight (show_padded 9 ns) ''0'') \<subseteq> set (show_padded 9 ns)"
    using set_dropWhileD by (fastforce simp: TrimRight_def trim_right_by_def)
  then have "ascii (TrimRight (show_padded 9 ns) ''0'')"
    using ascii_padded [of 9 ns] unfolding ascii_def list_all_iff by blast
  then show ?thesis by (simp add: show_fraction_def Let_def byte_of_def)
qed

lemma ascii_format: "ascii (FormatRFC3339Nano t)"
  by (simp add: FormatRFC3339Nano_def Let_def byte_of_def split: prod.split)

text \<open>What an event must satisfy to cross: texts in UTF-8, instants with a year of four digits, process ids of 64 bits,
  the agent's not negative, and free-form maps as \<open>encoding/json\<close> makes them.\<close>

definition wire_map :: "jobject \<Rightarrow> bool" where
  "wire_map m \<longleftrightarrow> unique_keys (JObj m) \<and> good_numbers (JObj m) \<and> clean (JObj m)"

definition event_texts :: "SemanticEvent \<Rightarrow> string list" where
  "event_texts e =
     (let a = sAgent e
      in [aID a, aType a, aName a, aParentAgentID a, aSpawnMethod a, aCwd a, aVersion a, sessID (sSession e), sSchema e, sEvent e,
          sTool e, sTarget e, sCWD e, sToolUseID e, sRawRef e] @ items (sTags e) @ items (sDestinationIntents e))"

definition wire_ok :: "SemanticEvent \<Rightarrow> bool" where
  "wire_ok e \<longleftrightarrow> list_all (\<lambda>s. cleanText s = s) (event_texts e) \<and> wire_agent (sAgent e) \<and> writable_time (sTS e) \<and>
     int64 (sPID e) \<and> int64 (sPPID e) \<and> wire_map (items (sInputSummary e)) \<and> wire_map (items (sOutputSummary e))"

text \<open>The event at the other end: nil slices and maps that are written become empty, empty ones that are left out
  become nil, and maps come in the order of their keys.\<close>

definition wireImage :: "SemanticEvent \<Rightarrow> SemanticEvent" where
  "wireImage e = e\<lparr>sTags := Some (items (sTags e)),
     sDestinationIntents := (if items (sDestinationIntents e) = [] then None else Some (items (sDestinationIntents e))),
     sInputSummary := Some (sortedMap (items (sInputSummary e))),
     sOutputSummary := (if items (sOutputSummary e) = [] then None else Some (sortedMap (items (sOutputSummary e))))\<rparr>"

lemma sortKeys_maps:
  "good_numbers v \<Longrightarrow> good_numbers (sortKeys v)" "clean v \<Longrightarrow> clean (sortKeys v)"
proof (induction v)
  case (JObj kvs)
  have "(good_numbers v \<longrightarrow> good_numbers (sortKeys v)) \<and> (clean v \<longrightarrow> clean (sortKeys v))" if "(k, v) \<in> set kvs" for k v
    using JObj.IH [of "(k, v)" v] that by (fastforce simp: snds.simps)
  moreover
  { case 1 then show ?case using calculation by fastforce }
  { case 2 then show ?case using calculation by fastforce }
qed simp_all

lemma textElements_JStr: "textElements (map JStr xs) = Some xs"
  by (induction xs) simp_all

lemma sortKeys_JStr: "map sortKeys (map JStr xs) = map JStr xs"
  by simp

lemma decode_semantic:
  assumes "wire_ok e"
  shows "decodeStruct semanticFields (map (\<lambda>(k, v). (k, sortKeys v)) (SemanticEvent_MarshalJSON e)) zeroSemantic = Some (wireImage e)"
proof -
  have ints: "Atoi (Itoa (sPID e)) = Some (sPID e)" "Atoi (Itoa (sPPID e)) = Some (sPPID e)"
    using assms Atoi_Itoa by (simp_all add: wire_ok_def int64_def)
  have ts: "parseRFC3339 (FormatRFC3339Nano (sTS e)) = Some (sTS e)" using assms parse_format by (simp add: wire_ok_def)
  have agent: "decodeStruct agentFields (sortedMap (AgentInfo_MarshalJSON (sAgent e))) zeroAgent = Some (sAgent e)"
    using assms decode_agent by (simp add: wire_ok_def)
  have session: "decodeStruct sessionFields (sortedMap (SessionInfo_json (sSession e))) \<lparr>sessID = []\<rparr> = Some (sSession e)"
    by (simp add: SessionInfo_json_def sortedMap_def decodeStruct_plain plain_key_def byte_of_def sessionFields_def stringField_def
        del: decodeStruct.simps(2))
  have maps: "putMembers (map (\<lambda>(k, v). (k, freeValue v)) (sortedMap (items (sInputSummary e)))) [] = sortedMap (items (sInputSummary e))"
    "putMembers (map (\<lambda>(k, v). (k, freeValue v)) (sortedMap (items (sOutputSummary e)))) [] = sortedMap (items (sOutputSummary e))"
    using assms putMembers_sorted by (simp_all add: wire_ok_def wire_map_def)
  have sorted: "sortKeys (JObj m) = JObj (sortedMap m)" for m by (simp add: sortedMap_def)
  note decode = decodeStruct_plain plain_key_def byte_of_def semanticFields_def stringField_def intField_def timeField_def textsField_def
    mapField_def structField_def sorted textElements_JStr comp_def
  show ?thesis
    unfolding SemanticEvent_MarshalJSON_def
    using ints ts agent session maps
    by (simp add: decode zeroSemantic_def wireImage_def items_def del: decodeStruct.simps(2) sortKeys.simps(2))
qed

lemma semanticJSON_good:
  assumes "wire_ok e"
  shows "good_numbers (semanticJSON e)" "clean (semanticJSON e)"
proof -
  have sorted: "good_numbers (JObj (sortedMap m))" "clean (JObj (sortedMap m))" if "wire_map m" for m
    using sortKeys_maps [of "JObj m"] that by (simp_all add: wire_map_def sortedMap_def)
  have agent: "set (sortedMap (AgentInfo_MarshalJSON a)) \<subseteq> set (agentMembers a)" for a
    using image_mono [OF agent_members_written [of a], of "\<lambda>(k, v). (k, sortKeys v)"] by (simp add: sortedMap_def agentMembers_def)
  have members: "\<forall>(k, v) \<in> set (agentMembers (sAgent e)). good_numbers v \<and> cleanText k = k \<and> clean v"
    using assms good_Itoa [of "aPID (sAgent e)"] cleanText_ascii [OF ascii_format]
    by (simp add: agentMembers_def wire_ok_def event_texts_def Let_def cleanText_ascii byte_of_def)
  have "good_numbers (JObj (sortedMap (AgentInfo_MarshalJSON (sAgent e))))" "clean (JObj (sortedMap (AgentInfo_MarshalJSON (sAgent e))))"
    using agent [of "sAgent e"] members by fastforce+
  note agent_ok = this
  have sorted_obj: "sortKeys (JObj m) = JObj (sortedMap m)" for m by (simp add: sortedMap_def)
  have keys: "cleanText k = k" if "k \<in> set [''schema'', ''ts'', ''agent'', ''session'', ''event'', ''tool'', ''target'', ''cwd'', ''pid'', ''ppid'',
      ''tags'', ''destination_intents'', ''tool_use_id'', ''input_summary'', ''output_summary'', ''raw_ref'', ''id'']" for k
    using that by (intro cleanText_ascii) (auto simp: byte_of_def)
  have maps: "wire_map (items (sInputSummary e))" "wire_map (items (sOutputSummary e))" using assms by (simp_all add: wire_ok_def)
  have session: "good_numbers (JObj (sortedMap (SessionInfo_json (sSession e))))" "clean (JObj (sortedMap (SessionInfo_json (sSession e))))"
    using assms keys by (simp_all add: SessionInfo_json_def sortedMap_def wire_ok_def event_texts_def Let_def)
  show "good_numbers (semanticJSON e)"
    using agent_ok(1) session(1) sorted(1) [OF maps(1)] sorted(1) [OF maps(2)] good_Itoa
    by (simp add: semanticJSON_def SemanticEvent_MarshalJSON_def sorted_obj del: sortKeys.simps(2))
  show "clean (semanticJSON e)"
    using agent_ok(2) session(2) sorted(2) [OF maps(1)] sorted(2) [OF maps(2)] keys cleanText_ascii [OF ascii_format] assms
    by (simp add: semanticJSON_def SemanticEvent_MarshalJSON_def sorted_obj wire_ok_def event_texts_def Let_def list_all_iff del: sortKeys.simps(2))
qed

lemma wire_ok_ascii:
  assumes "list_all ascii (event_texts e)" "wire_agent (sAgent e)" "writable_time (sTS e)" "int64 (sPID e)" "int64 (sPPID e)"
    "wire_map (items (sInputSummary e))" "wire_map (items (sOutputSummary e))"
  shows "wire_ok e"
  using assms cleanText_ascii by (auto simp: wire_ok_def list_all_iff)

text \<open>The text of an event is read back member by member, whatever struct it is read as.\<close>

lemma unmarshal_semantic:
  assumes "wire_ok e"
  shows "unmarshal fds zero (MarshalSemantic e) = decodeStruct fds (map (\<lambda>(k, v). (k, sortKeys v)) (SemanticEvent_MarshalJSON e)) zero"
proof -
  have "readJSON (MarshalSemantic e) = Some (semanticJSON e)"
    using readJSON_jsonText cleanValue_id semanticJSON_good [OF assms] by (simp add: MarshalSemantic_def)
  then show ?thesis by (simp add: unmarshal_def semanticJSON_def)
qed

lemma UnmarshalSemantic_MarshalSemantic: "wire_ok e \<Longrightarrow> UnmarshalSemantic (MarshalSemantic e) = Some (wireImage e)"
  by (simp add: UnmarshalSemantic_def unmarshal_semantic decode_semantic)

text \<open>The same text read as one of the other structs: the members they share fit, so nothing fails.\<close>

lemma semantic_reads_as_network:
  assumes "wire_ok e"
  shows "\<exists>nf. UnmarshalNetwork (MarshalSemantic e) = Some nf"
proof -
  have ints: "Atoi (Itoa (sPID e)) = Some (sPID e)" "Atoi (Itoa (sPPID e)) = Some (sPPID e)"
    using assms Atoi_Itoa by (simp_all add: wire_ok_def int64_def)
  have ts: "parseRFC3339 (FormatRFC3339Nano (sTS e)) = Some (sTS e)" using assms parse_format by (simp add: wire_ok_def)
  have agent: "decodeStruct agentFields (sortedMap (AgentInfo_MarshalJSON (sAgent e))) zeroAgent = Some (sAgent e)"
    using assms decode_agent by (simp add: wire_ok_def)
  have sorted: "sortKeys (JObj m) = JObj (sortedMap m)" for m by (simp add: sortedMap_def)
  note decode = decodeStruct_plain plain_key_def byte_of_def networkFields_def stringField_def intField_def timeField_def pointerField_def sorted
  have "\<exists>nf. decodeStruct networkFields (map (\<lambda>(k, v). (k, sortKeys v)) (SemanticEvent_MarshalJSON e)) zeroFlow = Some nf"
    unfolding SemanticEvent_MarshalJSON_def
    using ints ts agent by (simp add: decode zeroFlow_def del: decodeStruct.simps(2) sortKeys.simps(2))
  then show ?thesis by (simp add: UnmarshalNetwork_def unmarshal_semantic [OF assms])
qed

lemma semantic_reads_as_control:
  assumes "wire_ok e"
  shows "UnmarshalControl (MarshalSemantic e) = Some \<lparr>mSchema = sSchema e, mAction = []\<rparr>"
proof -
  have sorted: "sortKeys (JObj m) = JObj (sortedMap m)" for m by (simp add: sortedMap_def)
  have "decodeStruct controlFields (map (\<lambda>(k, v). (k, sortKeys v)) (SemanticEvent_MarshalJSON e)) \<lparr>mSchema = [], mAction = []\<rparr> =
      Some \<lparr>mSchema = sSchema e, mAction = []\<rparr>"
    unfolding SemanticEvent_MarshalJSON_def
    by (simp add: decodeStruct_plain plain_key_def byte_of_def controlFields_def stringField_def sorted del: decodeStruct.simps(2) sortKeys.simps(2))
  then show ?thesis by (simp add: UnmarshalControl_def unmarshal_semantic [OF assms])
qed

section \<open>Property\<close>


definition demoWire :: SemanticEvent where
  "demoWire = zeroSemantic\<lparr>sSchema := SchemaSemanticV0, sTS := 63844761600 * Second + 5, sAgent := zeroAgent\<lparr>aID := ''claude'', aPID := 12\<rparr>,
     sTool := ''a'' @ [quote_mark, CHR 0x0A], sPID := 9, sTags := None, sOutputSummary := Some [],
     sInputSummary := Some [(''z'', JObj [(''n'', JNum ''-1.5e3'')]), (''a'', JArr [JStr ''<'', JNull])]\<rparr>"


end
