(* ===== verification/Json_Prefix.thy ===== *)
theory Json_Prefix
  imports Go_Json
begin

text \<open>
  Texts cut short: the reader of \<open>encoding/json\<close> looks no further than the end of the value it found, so that
  no part of a printed object that stops before its last brace is read as anything.
\<close>

section \<open>More text\<close>

text \<open>A reader that found its end does not look further: more text after it changes nothing.\<close>

lemma hex4_more: "hex4 s = Some (r, rest) \<Longrightarrow> hex4 (s @ q) = Some (r, rest @ q)"
  by (induction s rule: hex4.induct) (auto split: option.splits)

lemma DecodeRune_more:
  assumes "quote_mark \<in> set cs"
  shows "DecodeRune c (cs @ q) = DecodeRune c cs" "snd (DecodeRune c cs) - 1 \<le> length cs"
proof -
  have low: "\<not> continuation quote_mark" "\<not> second_ok b quote_mark" for b
    by (simp_all add: continuation_def second_ok_def quote_mark_def byte_of_def)
  show "DecodeRune c (cs @ q) = DecodeRune c cs"
    using assms low by (cases cs rule: list.exhaust; cases "tl cs" rule: list.exhaust; cases "tl (tl cs)" rule: list.exhaust)
      (auto simp: DecodeRune_def Let_def split: list.splits)
  show "snd (DecodeRune c cs) - 1 \<le> length cs" by (auto simp: DecodeRune_def Let_def split: list.splits)
qed

lemma u_rune_more:
  assumes "u_rune s = Some (r, rest)" "unquote rest \<noteq> None"
  shows "u_rune (s @ q) = Some (r, rest @ q)"
proof -
  obtain r1 rest1 where h: "hex4 s = Some (r1, rest1)" using assms(1) by (auto simp: u_rune_def split: option.splits)
  note h' = hex4_more [OF h, of q]
  show ?thesis
  proof (cases "0xD800 \<le> r1 \<and> r1 \<le> 0xDFFF")
    case False
    then show ?thesis using assms(1) h h' by (auto simp: u_rune_def)
  next
    case True
    consider "rest1 = []" | b where "rest1 = [b]" | b u more where "rest1 = b # u # more" by (cases rest1; cases "tl rest1") auto
    then show ?thesis
    proof cases
      case 1
      then show ?thesis using assms True h by (simp add: u_rune_def)
    next
      case 2
      then have "rest = [b]" "r = RuneError" using assms(1) True h by (auto simp: u_rune_def)
      moreover from this have "b \<noteq> CHR 0x5C" using assms(2) by (auto simp: unquote.simps(2) quote_mark_def)
      ultimately show ?thesis using True h' 2 by (auto simp: u_rune_def split: list.split)
    next
      case 3
      show ?thesis
      proof (cases "b = CHR 0x5C \<and> u = CHR ''u''")
        case True
        then obtain r2 rest2 where "hex4 more = Some (r2, rest2)" using assms(1) \<open>0xD800 \<le> r1 \<and> r1 \<le> 0xDFFF\<close> h 3
          by (auto simp: u_rune_def split: option.splits)
        then show ?thesis using assms(1) True \<open>0xD800 \<le> r1 \<and> r1 \<le> 0xDFFF\<close> h h' hex4_more [of more r2 rest2 q] 3
          by (cases "r1 \<le> 0xDBFF \<and> 0xDC00 \<le> r2 \<and> r2 \<le> 0xDFFF") (auto simp: u_rune_def)
      qed (use assms(1) True h h' 3 in \<open>auto simp: u_rune_def\<close>)
    qed
  qed
qed

text \<open>How a string can go on.\<close>

lemma unquote_cases:
  assumes "unquote (c # cs) = Some (t, rest)"
  obtains (Quote) "c = quote_mark" "t = []" "rest = cs"
  | (Rune) r0 r rest' t' where "c = CHR 0x5C" "cs = CHR ''u'' # r0" "u_rune r0 = Some (r, rest')" "unquote rest' = Some (t', rest)"
      "t = EncodeRune r @ t'"
  | (Simple) e r0 x t' where "c = CHR 0x5C" "cs = e # r0" "e \<noteq> CHR ''u''" "simple_escape e = Some x" "unquote r0 = Some (t', rest)" "t = x # t'"
  | (Ascii) t' where "c \<noteq> quote_mark" "c \<noteq> CHR 0x5C" "\<not> byte_of c < 0x20" "byte_of c < 0x80" "unquote cs = Some (t', rest)" "t = c # t'"
  | (High) t' where "\<not> byte_of c < 0x80" "unquote (drop (snd (DecodeRune c cs) - 1) cs) = Some (t', rest)" "t = EncodeRune (fst (DecodeRune c cs)) @ t'"
proof -
  consider "c = quote_mark" | "c = CHR 0x5C" "c \<noteq> quote_mark"
    | "c \<noteq> quote_mark" "c \<noteq> CHR 0x5C" "\<not> byte_of c < 0x20" "byte_of c < 0x80"
    | "c \<noteq> quote_mark" "c \<noteq> CHR 0x5C" "\<not> byte_of c < 0x80"
    using assms by (cases "byte_of c < 0x20") (auto simp: unquote.simps(2) split: if_splits)
  then show thesis
  proof cases
    case 2
    then obtain e r0 where cs: "cs = e # r0" using assms by (cases cs) (auto simp: unquote.simps(2))
    show thesis
    proof (cases "e = CHR ''u''")
      case True
      then show thesis using assms 2 cs Rune by (auto simp: unquote.simps(2) split: option.splits)
    next
      case False
      then show thesis using assms 2 cs Simple by (auto simp: unquote.simps(2) split: option.splits)
    qed
  qed (use assms Quote Ascii High in \<open>auto simp: unquote.simps(2)\<close>)
qed

lemma u_rune_set: "u_rune s = Some (r, rest) \<Longrightarrow> set rest \<subseteq> set s"
proof -
  have hex: "set b \<subseteq> set a" if "hex4 a = Some (x, b)" for a b x
    using that by (induction a rule: hex4.induct) (auto split: option.splits)
  show "u_rune s = Some (r, rest) \<Longrightarrow> set rest \<subseteq> set s"
    by (fastforce simp: u_rune_def split: option.splits if_splits list.splits dest!: hex)
qed

lemma unquote_quote: "unquote s = Some (t, rest) \<Longrightarrow> quote_mark \<in> set s"
proof (induction "length s" arbitrary: s t rule: less_induct)
  case less
  obtain c cs where s: "s = c # cs" using less.prems by (cases s) auto
  have IH: "length s' < length s \<Longrightarrow> unquote s' = Some (t', rest) \<Longrightarrow> quote_mark \<in> set s'" for s' t' using less.hyps by blast
  show ?case
    using less.prems unfolding s
  proof (cases rule: unquote_cases)
    case (Rune r0 r rest' t')
    then show "quote_mark \<in> set (c # cs)" using IH [of rest' t'] u_rune_shorter [OF Rune(3)] u_rune_set [OF Rune(3)] by (auto simp: s)
  next
    case (High t')
    then show "quote_mark \<in> set (c # cs)"
      using IH [of "drop (snd (DecodeRune c cs) - 1) cs" t'] set_drop_subset by (fastforce simp: s)
  qed (use IH in \<open>auto simp: s\<close>)
qed

lemma unquote_more: "unquote s = Some (t, rest) \<Longrightarrow> unquote (s @ q) = Some (t, rest @ q)"
proof (induction "length s" arbitrary: s t rule: less_induct)
  case less
  obtain c cs where s: "s = c # cs" using less.prems by (cases s) auto
  have IH: "length s' < length s \<Longrightarrow> unquote s' = Some (t', rest) \<Longrightarrow> unquote (s' @ q) = Some (t', rest @ q)" for s' t' using less.hyps by blast
  have "unquote (c # cs) = Some (t, rest)" using less.prems s by simp
  then have "unquote ((c # cs) @ q) = Some (t, rest @ q)"
  proof (cases rule: unquote_cases)
    case Quote
    then show ?thesis by (simp add: unquote.simps(2))
  next
    case (Rune r0 r rest' t')
    then show ?thesis
      using IH [of rest' t'] u_rune_shorter [OF Rune(3)] u_rune_more [OF Rune(3), of q] by (simp add: s unquote.simps(2) quote_mark_def)
  next
    case (Simple e r0 x t')
    then show ?thesis using IH [of r0 t'] by (simp add: s unquote.simps(2) quote_mark_def)
  next
    case (Ascii t')
    then show ?thesis using IH [of cs t'] by (simp add: s unquote.simps(2))
  next
    case (High t')
    have "quote_mark \<in> set cs" by (rule in_set_dropD [OF unquote_quote [OF High(2)]])
    note d = DecodeRune_more [OF this, of c]
    have "c \<noteq> quote_mark" "c \<noteq> CHR 0x5C" "\<not> byte_of c < 0x20" using High(1) by (auto simp: quote_mark_def byte_of_def)
    moreover have "drop (snd (DecodeRune c cs) - 1) (cs @ q) = drop (snd (DecodeRune c cs) - 1) cs @ q" using d(2) by simp
    moreover have "unquote (drop (snd (DecodeRune c cs) - 1) cs @ q) = Some (t', rest @ q)" by (rule IH [OF _ High(2)]) (simp add: s less_Suc_eq_le)
    ultimately show ?thesis using High(1,3) by (simp only: append_Cons unquote.simps(2) d(1) if_False option.map prod.case)
  qed
  then show ?case by (simp add: s)
qed

definition is_number :: "json \<Rightarrow> bool" where
  "is_number v \<longleftrightarrow> (case v of JNum n \<Rightarrow> True | _ \<Rightarrow> False)"

lemma skip_more: "skip s = c # cs \<Longrightarrow> skip (s @ q) = c # cs @ q"
  by (induction s) (auto simp: skip_def)

lemma keyword_more: "keyword w v s = Some (x, rest) \<Longrightarrow> keyword w v (s @ q) = Some (x, rest @ q)"
  by (auto simp: keyword_def CutPrefix_def HasPrefix_def prefix_def split: if_splits)

lemma read_more:
  "readValue n s = Some (v, rest) \<Longrightarrow> is_number v \<longrightarrow> rest \<noteq> [] \<Longrightarrow> readValue n (s @ q) = Some (v, rest @ q)"
  "readElements n s = Some (vs, rest) \<Longrightarrow> readElements n (s @ q) = Some (vs, rest @ q)"
  "readMembers n s = Some (kvs, rest) \<Longrightarrow> readMembers n (s @ q) = Some (kvs, rest @ q)"
proof (induction n s and n s and n s arbitrary: v rest and vs rest and kvs rest rule: readValue_readElements_readMembers.induct)
  case (2 n s)
  obtain c cs where s: "skip s = c # cs" using "2.prems"(1) by (cases "skip s") auto
  note s' = skip_more [OF s, of q]
  consider "c = quote_mark" | "c = CHR ''[''" | "c = CHR ''{''" | "c = CHR ''n''" | "c = CHR ''t''" | "c = CHR ''f''"
    | "c \<noteq> quote_mark" "c \<noteq> CHR ''[''" "c \<noteq> CHR ''{''" "c \<noteq> CHR ''n''" "c \<noteq> CHR ''t''" "c \<noteq> CHR ''f''" by blast
  then show ?case
  proof cases
    case 1
    then show ?thesis using "2.prems"(1) s s' unquote_more [of cs] by auto
  next
    case 2
    then obtain d ds where d: "skip cs = d # ds" using "2.prems"(1) s by (cases "skip cs") (auto simp: quote_mark_def)
    show ?thesis using "2.prems"(1) "2.IH"(1) [OF s _ 2 d] 2 s s' d skip_more [OF d, of q] by (auto simp: quote_mark_def split: if_splits)
  next
    case 3
    then obtain d ds where d: "skip cs = d # ds" using "2.prems"(1) s by (cases "skip cs") (auto simp: quote_mark_def)
    show ?thesis using "2.prems"(1) "2.IH"(2) [OF s _ _ 3 d] 3 s s' d skip_more [OF d, of q] by (auto simp: quote_mark_def split: if_splits)
  next
    case 7
    let ?run = "takeWhile number_char (c # cs)"
    have v: "v = JNum ?run" "rest = dropWhile number_char (c # cs)" "valid_number ?run"
      using "2.prems"(1) s 7 by (auto simp: Let_def split: if_splits)
    then have "rest \<noteq> []" using "2.prems"(2) by (simp add: is_number_def)
    then have "takeWhile number_char ((c # cs) @ q) = ?run" "dropWhile number_char ((c # cs) @ q) = rest @ q"
      unfolding v(2) by (auto simp: takeWhile_append dropWhile_append)
    then show ?thesis using 7 s' v by (simp add: Let_def)
  qed (use "2.prems"(1) s s' keyword_more [where s = "c # cs" and q = q] in \<open>auto simp: quote_mark_def\<close>)
next
  case (4 n s)
  obtain v rest0 where v: "readValue n s = Some (v, rest0)" using "4.prems" by (cases "readValue n s") auto
  then obtain c cs where c: "skip rest0 = c # cs" using "4.prems" by (cases "skip rest0") auto
  then have "rest0 \<noteq> []" by (auto simp: skip_def)
  then have v': "readValue n (s @ q) = Some (v, rest0 @ q)" using "4.IH"(1) v by blast
  note c' = skip_more [OF c, of q]
  show ?case
  proof (cases "c = CHR '']''")
    case True
    then show ?thesis using "4.prems" v v' c c' by simp
  next
    case False
    then obtain ws where w: "c = CHR '',''" "readElements n cs = Some (ws, rest)" "vs = v # ws"
      using "4.prems" v c by (auto split: if_splits)
    then have "readElements n (cs @ q) = Some (ws, rest @ q)" using "4.IH"(2) v c by auto
    then show ?thesis using w v' c' by simp
  qed
next
  case (6 n s)
  obtain qs where s: "skip s = quote_mark # qs" using "6.prems" by (cases "skip s") (auto split: if_splits)
  then obtain k rest0 where k: "unquote qs = Some (k, rest0)" using "6.prems" by (cases "unquote qs") auto
  then obtain us where us: "skip rest0 = CHR '':'' # us" using "6.prems" s by (cases "skip rest0") (auto split: if_splits)
  then obtain v rest1 where v: "readValue n us = Some (v, rest1)" using "6.prems" s k by (cases "readValue n us") auto
  then obtain c cs where c: "skip rest1 = c # cs" using "6.prems" s k us by (cases "skip rest1") auto
  then have "rest1 \<noteq> []" by (auto simp: skip_def)
  then have v': "readValue n (us @ q) = Some (v, rest1 @ q)" using "6.IH"(1) s k us v by auto
  note more = skip_more [OF s, of q] unquote_more [OF k, of q] skip_more [OF us, of q] skip_more [OF c, of q]
  show ?case
  proof (cases "c = CHR ''}''")
    case True
    then show ?thesis using "6.prems" s k us v c v' more by simp
  next
    case False
    then obtain ws where w: "c = CHR '',''" "readMembers n cs = Some (ws, rest)" "kvs = (k, v) # ws"
      using "6.prems" s k us v c by (auto split: if_splits)
    then have "readMembers n (cs @ q) = Some (ws, rest @ q)" using "6.IH"(2) s k us v c by auto
    then show ?thesis using w v' more by simp
  qed
qed simp_all

section \<open>More fuel\<close>

lemma read_fuel:
  "readValue n s = Some x \<Longrightarrow> n \<le> m \<Longrightarrow> readValue m s = Some x"
  "readElements n s = Some xs \<Longrightarrow> n \<le> m \<Longrightarrow> readElements m s = Some xs"
  "readMembers n s = Some xms \<Longrightarrow> n \<le> m \<Longrightarrow> readMembers m s = Some xms"
proof (induction n s and n s and n s arbitrary: m x and m xs and m xms rule: readValue_readElements_readMembers.induct)
  case (2 n s)
  obtain k where m: "m = Suc k" "n \<le> k" using "2.prems"(2) by (cases m) auto
  obtain c cs where s: "skip s = c # cs" using "2.prems"(1) by (cases "skip s") auto
  consider "c = CHR ''[''" | "c = CHR ''{''" | "c \<noteq> CHR ''[''" "c \<noteq> CHR ''{''" by blast
  then show ?case
  proof cases
    case 1
    then obtain d ds where d: "skip cs = d # ds" using "2.prems"(1) s by (cases "skip cs") (auto simp: quote_mark_def)
    show ?thesis using "2.prems"(1) "2.IH"(1) [OF s _ 1 d _ _ m(2)] s d 1 by (auto simp: m(1) quote_mark_def split: if_splits)
  next
    case 2
    then obtain d ds where d: "skip cs = d # ds" using "2.prems"(1) s by (cases "skip cs") (auto simp: quote_mark_def)
    show ?thesis using "2.prems"(1) "2.IH"(2) [OF s _ _ 2 d _ _ m(2)] s d 2 by (auto simp: m(1) quote_mark_def split: if_splits)
  next
    case 3
    then have "readValue (Suc k) s = readValue (Suc n) s" by (simp add: s)
    then show ?thesis using "2.prems"(1) by (simp add: m(1))
  qed
next
  case (4 n s)
  obtain k where m: "m = Suc k" "n \<le> k" using "4.prems"(2) by (cases m) auto
  obtain v rest0 where v: "readValue n s = Some (v, rest0)" using "4.prems"(1) by (cases "readValue n s") auto
  then obtain c cs where c: "skip rest0 = c # cs" using "4.prems"(1) by (cases "skip rest0") auto
  have v': "readValue k s = Some (v, rest0)" using "4.IH"(1) v m(2) by blast
  show ?case
  proof (cases "c = CHR '']''")
    case True
    then show ?thesis using "4.prems"(1) v v' c m(1) by simp
  next
    case False
    then obtain ws rest where w: "c = CHR '',''" "readElements n cs = Some (ws, rest)" "xs = (v # ws, rest)"
      using "4.prems"(1) v c by (auto split: if_splits)
    then have "readElements k cs = Some (ws, rest)" using "4.IH"(2) [OF v refl c False _ _ m(2)] by simp
    then show ?thesis using w v' c m(1) by simp
  qed
next
  case (6 n s)
  obtain k where m: "m = Suc k" "n \<le> k" using "6.prems"(2) by (cases m) auto
  obtain qs where s: "skip s = quote_mark # qs" using "6.prems"(1) by (cases "skip s") (auto split: if_splits)
  then obtain key rest0 where key: "unquote qs = Some (key, rest0)" using "6.prems"(1) by (cases "unquote qs") auto
  then obtain us where us: "skip rest0 = CHR '':'' # us" using "6.prems"(1) s by (cases "skip rest0") (auto split: if_splits)
  then obtain v rest1 where v: "readValue n us = Some (v, rest1)" using "6.prems"(1) s key by (cases "readValue n us") auto
  then obtain c cs where c: "skip rest1 = c # cs" using "6.prems"(1) s key us by (cases "skip rest1") auto
  have v': "readValue k us = Some (v, rest1)" using "6.IH"(1) [OF s _ key refl us _ v m(2)] by simp
  show ?case
  proof (cases "c = CHR ''}''")
    case True
    then show ?thesis using "6.prems"(1) s key us v c v' m(1) by simp
  next
    case False
    then obtain ws rest where w: "c = CHR '',''" "readMembers n cs = Some (ws, rest)" "xms = ((key, v) # ws, rest)"
      using "6.prems"(1) s key us v c by (auto split: if_splits)
    then have "readMembers k cs = Some (ws, rest)" using "6.IH"(2) [OF s _ key refl us _ v refl c False _ _ m(2)] by simp
    then show ?thesis using w s key us c v' m(1) by simp
  qed
qed simp_all

section \<open>Less text\<close>

text \<open>No part of a printed object is a value.\<close>

lemma torn_object:
  assumes "good_numbers (JObj kvs)" "jsonText (JObj kvs) = p @ q" "q \<noteq> []"
  shows "readJSON p = None"
proof (rule ccontr)
  assume "readJSON p \<noteq> None"
  then obtain v rest where r: "readValue (Suc (length p)) p = Some (v, rest)" "skip rest = []"
    by (auto simp: readJSON_def split: option.splits if_splits)
  have p: "p \<noteq> []" using r(1) by (cases p) (auto simp: skip_def)
  then obtain p' where p': "p = CHR ''{'' # p'" using assms(2) unfolding jsonText_JObj by (cases p) auto
  then have "\<not> is_number v" using r(1)
    by (auto simp: skip_def json_space_def quote_mark_def is_number_def split: list.splits if_splits)
  then have "readValue (Suc (length p)) (p @ q) = Some (v, rest @ q)" using read_more(1) [OF r(1)] by simp
  moreover have "readValue (max (Suc (length p)) (weight (JObj kvs))) (p @ q) = Some (cleanValue (JObj kvs), [])"
    using good_value_comes_back [OF assms(1)] assms(2) unfolding comes_back_def by (metis append_Nil2 max.cobounded2)
  ultimately show False using read_fuel(1) [of "Suc (length p)" "p @ q" _ "max (Suc (length p)) (weight (JObj kvs))"] assms(3) by simp
qed

end
