(* ===== verification/Daemon_Peer.thy ===== *)
theory Daemon_Peer
  imports Daemon_Trust "HOL-Library.Word"
begin

text \<open>
  \<open>cmd/daemon/peercred_darwin.go\<close>, \<open>peercred_linux.go\<close> and \<open>peercred_unsupported.go\<close>: which process is at the other end of a socket, and
  which executable it runs. What the kernel answers is a parameter: \<open>proc_pidpath\<close> and \<open>readlink\<close> in the record \<open>Kernel\<close>, the
  socket options of one connection in the record \<open>PeerConn\<close>.
\<close>

section \<open>Definitions\<close>

datatype platform = Darwin | Linux | OtherPlatform

text \<open>\<open>proc_pidpath\<close> reports whether it failed and the bytes it wrote.\<close>

record Kernel =
  proc_pidpath :: "int \<Rightarrow> bool \<times> string"
  readlink :: "string \<Rightarrow> string option"

record PeerConn =
  pcUnixConn :: bool
  pcSyscallConn :: bool
  pcControl :: bool
  pcGetsockoptInt :: "int \<Rightarrow> int \<Rightarrow> int option"
  pcUcredPid :: "int option"

text \<open>The conversion \<open>C.int\<close> keeps the low 32 bits.\<close>

definition c_int :: "int \<Rightarrow> int" where
  "c_int i = sint (word_of_int i :: 32 word)"

definition resolvePeerExePath_darwin :: "Kernel \<Rightarrow> int \<Rightarrow> string option" where
  "resolvePeerExePath_darwin k pid =
     (if pid \<le> 0 then None
      else case proc_pidpath k (c_int pid) of
             (failed, path) \<Rightarrow>
               if failed \<or> path = [] then None
               else if \<not> HasPrefix path ''/'' then None
               else Some path)"

definition resolvePeerExePath_linux :: "Kernel \<Rightarrow> int \<Rightarrow> string option" where
  "resolvePeerExePath_linux k pid =
     (if pid \<le> 0 then None
      else case readlink k (''/proc/'' @ Itoa pid @ ''/exe'') of
             None \<Rightarrow> None
           | Some path \<Rightarrow> if path = [] then None else Some path)"

definition resolvePeerExePath_other :: "int \<Rightarrow> string option" where
  "resolvePeerExePath_other pid = None"

definition solLocal :: int where "solLocal = 0"
definition localPeerPID :: int where "localPeerPID = 2"
definition localPeerEPID :: int where "localPeerEPID = 3"

definition socketOf :: "PeerConn \<Rightarrow> int option \<Rightarrow> int option" where
  "socketOf c answer =
     (if \<not> pcUnixConn c then None
      else if \<not> pcSyscallConn c then None
      else if \<not> pcControl c then None
      else case answer of None \<Rightarrow> None | Some pid \<Rightarrow> if pid \<le> 0 then None else Some pid)"

definition peerPIDForConn_darwin :: "PeerConn \<Rightarrow> int option" where
  "peerPIDForConn_darwin c = socketOf c
     (case pcGetsockoptInt c solLocal localPeerPID of
        Some pid \<Rightarrow> if pid \<le> 0 then pcGetsockoptInt c solLocal localPeerEPID else Some pid
      | None \<Rightarrow> pcGetsockoptInt c solLocal localPeerEPID)"

definition peerPIDForConn_linux :: "PeerConn \<Rightarrow> int option" where
  "peerPIDForConn_linux c = socketOf c (pcUcredPid c)"

definition peerPIDForConn_other :: "PeerConn \<Rightarrow> int option" where
  "peerPIDForConn_other c = None"

text \<open>The build picks one file.\<close>

fun peerPIDForConn :: "platform \<Rightarrow> PeerConn \<Rightarrow> int option" where
  "peerPIDForConn Darwin c = peerPIDForConn_darwin c"
| "peerPIDForConn Linux c = peerPIDForConn_linux c"
| "peerPIDForConn OtherPlatform c = peerPIDForConn_other c"

fun peerExePathOn :: "platform \<Rightarrow> Kernel \<Rightarrow> int \<Rightarrow> string option" where
  "peerExePathOn Darwin k pid = resolvePeerExePath_darwin k pid"
| "peerExePathOn Linux k pid = resolvePeerExePath_linux k pid"
| "peerExePathOn OtherPlatform k pid = resolvePeerExePath_other pid"

definition hostOn :: "platform \<Rightarrow> Kernel \<Rightarrow> Host \<Rightarrow> Host" where
  "hostOn p k h = h\<lparr>darwin := (p = Darwin), resolvePeerExePath := peerExePathOn p k\<rparr>"

section \<open>Lemmas\<close>

lemma hostOn_simps [simp]:
  "Getenv (hostOn p k h) = Getenv h" "resolvePeerExePath (hostOn p k h) = peerExePathOn p k" "codesign (hostOn p k h) = codesign h"
  "Executable (hostOn p k h) = Executable h" "darwin (hostOn p k h) = (p = Darwin)"
  by (simp_all add: hostOn_def)

lemma hostOn_paths [simp]:
  "agentSnitchSupportBins (hostOn p k h) = agentSnitchSupportBins h" "agentSnitchAppPath (hostOn p k h) = agentSnitchAppPath h"
  "unsignedPeerTrustAllowed (hostOn p k h) = unsignedPeerTrustAllowed h"
  by (simp_all add: agentSnitchSupportBins_def agentSnitchAppPath_def unsignedPeerTrustAllowed_def Let_def)

text \<open>The contract of a platform: a peer is a positive process, an executable is only reported for one, and is not empty.\<close>

locale peer_platform =
  fixes pid_of :: "PeerConn \<Rightarrow> int option" and exe_of :: "Kernel \<Rightarrow> int \<Rightarrow> string option"
  assumes pid_positive: "pid_of c = Some pid \<Longrightarrow> 0 < pid"
    and exe_of_process: "exe_of k pid = Some path \<Longrightarrow> 0 < pid \<and> path \<noteq> []"
begin

lemma no_process_no_path: "pid \<le> 0 \<Longrightarrow> exe_of k pid = None"
  using exe_of_process by (cases "exe_of k pid") (auto simp: not_less [symmetric])

lemma pid_never_zero: "pid_of c \<noteq> Some 0"
  using pid_positive [of c 0] by auto

end

lemma socketOf_positive: "socketOf c a = Some pid \<Longrightarrow> 0 < pid"
  by (auto simp: socketOf_def split: if_splits option.splits)

interpretation darwin_peer: peer_platform peerPIDForConn_darwin resolvePeerExePath_darwin
  by unfold_locales
    (auto simp: peerPIDForConn_darwin_def resolvePeerExePath_darwin_def intro: socketOf_positive split: if_splits prod.splits)

interpretation linux_peer: peer_platform peerPIDForConn_linux resolvePeerExePath_linux
  by unfold_locales
    (auto simp: peerPIDForConn_linux_def resolvePeerExePath_linux_def intro: socketOf_positive split: if_splits option.splits)

interpretation other_peer: peer_platform peerPIDForConn_other "\<lambda>k. resolvePeerExePath_other"
  by unfold_locales (simp_all add: peerPIDForConn_other_def resolvePeerExePath_other_def)

lemma peerPIDForConn_positive: "peerPIDForConn p c = Some pid \<Longrightarrow> 0 < pid"
  using darwin_peer.pid_positive linux_peer.pid_positive other_peer.pid_positive by (cases p) auto

text \<open>The path is what the kernel reported, byte for byte.\<close>

lemma darwin_path_exact:
  "resolvePeerExePath_darwin k pid = Some path \<Longrightarrow> snd (proc_pidpath k (c_int pid)) = path \<and> HasPrefix path ''/''"
  by (auto simp: resolvePeerExePath_darwin_def split: if_splits prod.splits)

fun kernelReports :: "platform \<Rightarrow> Kernel \<Rightarrow> int \<Rightarrow> string \<Rightarrow> bool" where
  "kernelReports Darwin k pid exe = (proc_pidpath k (c_int pid) = (False, exe))"
| "kernelReports Linux k pid exe = (readlink k (''/proc/'' @ Itoa pid @ ''/exe'') = Some exe)"
| "kernelReports OtherPlatform k pid exe = False"

lemma peer_path_exact: "peerExePathOn p k pid = Some exe \<Longrightarrow> kernelReports p k pid exe"
  by (cases p) (auto simp: resolvePeerExePath_darwin_def resolvePeerExePath_linux_def resolvePeerExePath_other_def
      split: if_splits prod.splits option.splits)

lemma c_int_pid: "0 \<le> pid \<Longrightarrow> pid < 2 ^ 31 \<Longrightarrow> c_int pid = pid"
  by (simp add: c_int_def sint_sbintrunc' signed_take_bit_int_eq_self)

text \<open>A lookalike beside the installed emitter, whose name differs in any byte, is not the emitter.\<close>

lemma lookalike_refused:
  assumes "proc_pidpath k (c_int pid) = (False, dir @ ''/'' @ name)" "dir \<noteq> []" "plain_elem name" "name \<noteq> ''emitter''" "cache_ok (hostOn Darwin k h) c"
  shows "\<not> fst (trustedSemanticSocketPeer (hostOn Darwin k h) c pid)"
proof
  assume "fst (trustedSemanticSocketPeer (hostOn Darwin k h) c pid)"
  then obtain exe where exe: "resolvePeerExePath_darwin k pid = Some exe" "isTrustedEmitterExe (hostOn Darwin k h) exe"
    using trusted_peer_cached(1) [OF assms(5)] by (auto simp: trustedSemanticSocketPeer_def)
  then have "exe = dir @ ''/'' @ name" using darwin_path_exact assms(1) by fastforce
  then show False using emitter_name_exact [of _ dir name] exe(2) assms(2-4) by simp
qed

end
