(* ===== verification/Go_Scanner.thy ===== *)
theory Go_Scanner
  imports Prelude
begin

text \<open>
  \<open>bufio.Scanner\<close> with its default split function. A stream is the bytes a reader delivers before it fails or ends.
  Lines end with a newline, a carriage return before it is dropped, and what follows the last newline is a line of its
  own, also when the reader failed. A line that fills the buffer stops the scanner; what follows is not read.
\<close>

definition newline :: char where "newline = CHR 0x0A"

definition dropCR :: "string \<Rightarrow> string" where
  "dropCR line = (if line \<noteq> [] \<and> last line = CHR 0x0D then butlast line else line)"

lemma dropWhile_shorter: "s \<noteq> [] \<Longrightarrow> length (dropWhile P s) - Suc 0 < length s"
  using length_dropWhile_le [of P s] by (cases s) (auto simp: less_Suc_eq_le)

text \<open>The lines, and whether the scanner stopped at one that is too long.\<close>

function scanLines :: "nat \<Rightarrow> string \<Rightarrow> string list \<times> bool" where
  "scanLines limit s =
     (if s = [] then ([], False)
      else
        let line = takeWhile (\<lambda>c. c \<noteq> newline) s; rest = dropWhile (\<lambda>c. c \<noteq> newline) s
        in if limit \<le> length line then ([], True)
           else if rest = [] then ([dropCR line], False)
           else case scanLines limit (tl rest) of (lines, long) \<Rightarrow> (dropCR line # lines, long))"
  by pat_completeness auto

termination
  by (relation "measure (\<lambda>(_, s). length s)") (auto simp: dropWhile_shorter)

declare scanLines.simps [simp del]

text \<open>The default limit of a scanner.\<close>

definition MaxScanTokenSize :: nat where "MaxScanTokenSize = 64 * 1024"

section \<open>Framing\<close>

text \<open>Text that one line can carry.\<close>

definition carried :: "nat \<Rightarrow> string \<Rightarrow> bool" where
  "carried limit line \<longleftrightarrow> newline \<notin> set line \<and> length line < limit \<and> (line = [] \<or> last line \<noteq> CHR 0x0D)"

definition frame :: "string list \<Rightarrow> string" where
  "frame lines = concat (map (\<lambda>line. line @ [newline]) lines)"

lemma scanLines_Nil [simp]: "scanLines limit [] = ([], False)"
  by (simp add: scanLines.simps)

lemma takeWhile_line: "newline \<notin> set line \<Longrightarrow> takeWhile (\<lambda>c. c \<noteq> newline) (line @ newline # rest) = line"
  "newline \<notin> set line \<Longrightarrow> dropWhile (\<lambda>c. c \<noteq> newline) (line @ newline # rest) = newline # rest"
  by (induction line) auto

lemma dropCR_carried [simp]: "carried limit line \<Longrightarrow> dropCR line = line"
  by (auto simp: carried_def dropCR_def)

lemma scanLines_line:
  "newline \<notin> set line \<Longrightarrow> length line < limit \<Longrightarrow>
   scanLines limit (line @ newline # rest) = (dropCR line # fst (scanLines limit rest), snd (scanLines limit rest))"
  by (subst scanLines.simps) (simp add: takeWhile_line split: prod.split)

lemma scanLines_carried:
  "carried limit line \<Longrightarrow>
   scanLines limit (line @ newline # rest) = (line # fst (scanLines limit rest), snd (scanLines limit rest))"
  using scanLines_line [of line limit rest] dropCR_carried [of limit line] by (simp add: carried_def)

lemma scanLines_last:
  "newline \<notin> set line \<Longrightarrow> line \<noteq> [] \<Longrightarrow> length line < limit \<Longrightarrow> scanLines limit line = ([dropCR line], False)"
proof -
  assume a: "newline \<notin> set line" "line \<noteq> []" "length line < limit"
  then have "takeWhile (\<lambda>c. c \<noteq> newline) line = line" "dropWhile (\<lambda>c. c \<noteq> newline) line = []" by (auto simp: takeWhile_eq_all_conv)
  with a show ?thesis unfolding scanLines.simps [of limit line] Let_def by (simp only:) simp
qed

text \<open>Lines written one after the other are read as they were written.\<close>

lemma scanLines_frame:
  "list_all (carried limit) lines \<Longrightarrow>
   scanLines limit (frame lines @ rest) = (lines @ fst (scanLines limit rest), snd (scanLines limit rest))"
proof (induction lines)
  case (Cons line lines)
  then show ?case using scanLines_carried [of limit line "frame lines @ rest"] by (simp add: frame_def)
qed (simp add: frame_def)

text \<open>A line that does not fit is where reading stops.\<close>

lemma scanLines_long:
  "newline \<notin> set line \<Longrightarrow> limit \<le> length line \<Longrightarrow> 0 < limit \<Longrightarrow> scanLines limit (line @ rest) = ([], True)"
proof -
  assume a: "newline \<notin> set line" "limit \<le> length line" "0 < limit"
  have "takeWhile (\<lambda>c. c \<noteq> newline) (line @ rest) = line @ takeWhile (\<lambda>c. c \<noteq> newline) rest"
    using a(1) by (intro takeWhile_append2) auto
  then show ?thesis using a by (subst scanLines.simps) (auto simp: Let_def)
qed

text \<open>Nothing longer than the limit, and no newline, ever comes out.\<close>

lemma dropCR_subset: "set (dropCR line) \<subseteq> set line" "length (dropCR line) \<le> length line"
  by (auto simp: dropCR_def dest: in_set_butlastD)

lemma scanLines_tokens: "list_all (\<lambda>line. newline \<notin> set line \<and> length line < limit) (fst (scanLines limit s))"
proof (induction limit s rule: scanLines.induct)
  case (1 limit s)
  have ok: "newline \<notin> set (dropCR line) \<and> length (dropCR line) < limit"
    if "line = takeWhile (\<lambda>c. c \<noteq> newline) s" "length line < limit" for line
    using that dropCR_subset [of line] by (auto dest: set_takeWhileD)
  show ?case
  proof (cases "s = [] \<or> limit \<le> length (takeWhile (\<lambda>c. c \<noteq> newline) s)")
    case True
    then show ?thesis by (subst scanLines.simps) auto
  next
    case False
    then show ?thesis using "1.IH" [OF _ refl refl] ok
      by (subst scanLines.simps) (auto simp: Let_def split: prod.split)
  qed
qed

end
