(* ===== verification/Daemon_Socket.thy ===== *)
theory Daemon_Socket
  imports Daemon_Peer Daemon_Loops Go_Scanner
begin

text \<open>
  One connection to the daemon's socket from its first byte to its last (\<open>handleConn\<close> and \<open>ackSocketLine\<close> of
  \<open>cmd/daemon/main.go\<close>): the peer is asked of the kernel once, the bytes are split into lines, every line that is not
  blank is dispatched and acknowledged. Also here: the commands the daemon runs for its process queries, and the
  smaller helpers of \<open>main.go\<close>.
\<close>

section \<open>Definitions\<close>

subsection \<open>A connection\<close>

definition connEnv :: "platform \<Rightarrow> Kernel \<Rightarrow> DaemonEnv \<Rightarrow> DaemonEnv" where
  "connEnv p k e = e\<lparr>deHost := hostOn p k (deHost e)\<rparr>"

definition ackSocketLine :: "string \<Rightarrow> string" where
  "ackSocketLine sent = sent @ ''ok'' @ [newline]"

text \<open>What the handler of one line reads meanwhile: the clock and two process snapshots.\<close>

type_synonym reading = "time \<times> proc_table option \<times> proc_table option"

definition serveLine ::
    "DaemonEnv \<Rightarrow> int option \<Rightarrow> string \<times> reading \<Rightarrow> string \<times> Daemon \<Rightarrow> string \<times> Daemon" where
  "serveLine e peer = (\<lambda>(line0, clk, s1, s2) (sent, g).
     let line = TrimSpace line0; pid = (case peer of Some pid \<Rightarrow> pid | None \<Rightarrow> 0)
     in if line = [] then (sent, g)
        else (ackSocketLine sent, dispatch e clk s1 s2 line pid (peer \<noteq> None) g))"

text \<open>The readings end when the daemon is told to stop.\<close>

definition serveConn ::
    "platform \<Rightarrow> Kernel \<Rightarrow> DaemonEnv \<Rightarrow> PeerConn \<Rightarrow> string \<Rightarrow> reading list \<Rightarrow> Daemon \<Rightarrow> string \<times> Daemon" where
  "serveConn p k e conn received readings g =
     fold (serveLine (connEnv p k e) (peerPIDForConn p conn))
       (zip (fst (scanLines MaxDaemonSocketLineBytes received)) readings) ([], g)"

subsection \<open>Commands\<close>

definition snapshotProcessTable :: "ExecEnv \<Rightarrow> string option \<Rightarrow> proc_table option" where
  "snapshotProcessTable env out = map_option (parseProcessTableOutput env) out"

definition cwdForPID :: "(int \<Rightarrow> string option) \<Rightarrow> int \<Rightarrow> string" where
  "cwdForPID lsof pid =
     (if pid \<le> 0 then []
      else case lsof pid of
             None \<Rightarrow> []
           | Some out \<Rightarrow>
               (case find (\<lambda>line. HasPrefix line ''n'' \<and> length line > 1) (map TrimSpace (Split out [newline])) of
                  Some line \<Rightarrow> tl line
                | None \<Rightarrow> []))"

definition formatPIDs :: "int list \<Rightarrow> string" where
  "formatPIDs pids = Join (map Itoa pids) '',''"

definition logCommandStderr :: "string \<Rightarrow> string \<Rightarrow> string list" where
  "logCommandStderr tag received =
     map (\<lambda>line. tag @ '': '' @ line)
       (filter (\<lambda>line. line \<noteq> []) (map TrimSpace (fst (scanLines MaxScanTokenSize received))))"

subsection \<open>Helpers\<close>

definition verboseNetworkLogging :: "Host \<Rightarrow> bool" where
  "verboseNetworkLogging h = (Getenv h ''AGENTSNITCH_VERBOSE_NETWORK_LOG'' = ''1'')"

definition pruneRawNetworkVisibilitySeenLocked :: "time \<Rightarrow> time \<Rightarrow> daemonSession \<Rightarrow> daemonSession" where
  "pruneRawNetworkVisibilitySeenLocked clk now0 sess =
     (let now = (if IsZero now0 then clk else now0)
      in sess\<lparr>dsRawSeen := prune_instants rawNetworkVisibilityTTL now (dsRawSeen sess)\<rparr>)"

definition pruneUnattributedRawNetworkVisibilitySeenLocked :: "time \<Rightarrow> time \<Rightarrow> daemonSessions \<Rightarrow> daemonSessions" where
  "pruneUnattributedRawNetworkVisibilitySeenLocked clk now0 ss =
     (let now = (if IsZero now0 then clk else now0)
      in ss\<lparr>dsUnattributedSeen := prune_instants rawNetworkVisibilityTTL now (dsUnattributedSeen ss)\<rparr>)"

definition reporterWrite :: "time \<Rightarrow> DaemonOut \<Rightarrow> DaemonOut" where
  "reporterWrite now d = d\<lparr>status := writeLocked now (status d)\<rparr>"

definition refreshNetworkObservation ::
    "DaemonEnv \<Rightarrow> time \<Rightarrow> proc_table option \<Rightarrow> NetworkFlowEvent \<Rightarrow> bool \<Rightarrow> SessionState \<Rightarrow> Daemon \<Rightarrow> SessionState \<times> Daemon" where
  "refreshNetworkObservation e clk snapshot nf0 writeTranscript st g =
     (let (nf1, dns) = enrichNetworkHostname e clk (NormalizeNetworkFlow clk nf0) (gDNS g);
          nf = NormalizeNetworkFlow clk (enrichNetworkFlowFromProcesses (deExec e) (items snapshot) nf1);
          g0 = g\<lparr>gDNS := dns\<rparr>
      in if ValidateNetworkFlow nf \<noteq> None then (st, g0)
         else
           let d1 = recordNetwork clk nf (gOut g0);
               d2 = (if writeTranscript then appendTranscript (deOut e) clk ''network-observer'' ''network_refresh'' (UINetwork nf) d1 else d1);
               (cards, st') = TryCorrelate clk nf (AddNetworkFlow clk nf st)
           in (st', g0\<lparr>gOut := reportCards e clk cards d2\<rparr>))"

section \<open>Lemmas\<close>

lemma connEnv_simps [simp]: "deHost (connEnv p k e) = hostOn p k (deHost e)" "controlOf (connEnv p k e) = controlOf e"
  "kindOfLine (connEnv p k e) = kindOfLine e"
  by (simp_all add: connEnv_def controlOf_def kindOfLine_def fun_eq_iff)

lemma snd_serveLine:
  "snd (serveLine e peer (line0, clk, s1, s2) st) =
     (if TrimSpace line0 = [] then snd st
      else dispatch e clk s1 s2 (TrimSpace line0) (case peer of Some pid \<Rightarrow> pid | None \<Rightarrow> 0) (peer \<noteq> None) (snd st))"
  by (cases st) (simp add: serveLine_def Let_def)

text \<open>The connection refines the handler of lines: the scanner hands it exactly the lines it accepts.\<close>

lemma serveConn_lines:
  "snd (serveConn p k e conn received readings g) =
     handleConn (connEnv p k e) (case peerPIDForConn p conn of Some pid \<Rightarrow> pid | None \<Rightarrow> 0) (peerPIDForConn p conn \<noteq> None)
       (zip (fst (scanLines MaxDaemonSocketLineBytes received)) readings) g"
proof -
  let ?e = "connEnv p k e" and ?peer = "peerPIDForConn p conn"
  let ?step = "\<lambda>(line0, clk, snapshot1, snapshot2) g. let line = TrimSpace line0 in if line = [] then g
      else dispatch ?e clk snapshot1 snapshot2 line (case ?peer of Some pid \<Rightarrow> pid | None \<Rightarrow> 0) (?peer \<noteq> None) g"
  have run: "snd (fold (serveLine ?e ?peer) xs st) = fold ?step xs (snd st)" for xs st
    by (induction xs arbitrary: st) (auto simp: snd_serveLine Let_def)
  have fits: "takeWhile (\<lambda>(line0, _). length line0 < MaxDaemonSocketLineBytes) (zip ls rs) = zip ls rs"
    if "list_all (\<lambda>l. newline \<notin> set l \<and> length l < MaxDaemonSocketLineBytes) ls" for ls and rs :: "reading list"
    using that by (auto simp: takeWhile_eq_all_conv list_all_iff dest: set_zip_leftD)
  show ?thesis
    unfolding serveConn_def handleConn_def fits [OF scanLines_tokens] using run [of _ "([], g)"] by (simp only: snd_conv)
qed

text \<open>Every line that is not blank is acknowledged once, whatever became of it.\<close>

lemma serveConn_acks:
  "fst (serveConn p k e conn received readings g) =
     concat (replicate (length (filter (\<lambda>(line, _). TrimSpace line \<noteq> []) (zip (fst (scanLines MaxDaemonSocketLineBytes received)) readings)))
       (''ok'' @ [newline]))"
proof -
  have "fst (fold (serveLine e' peer) xs (sent, g)) = sent @ concat (replicate (length (filter (\<lambda>(line, _). TrimSpace line \<noteq> []) xs)) (''ok'' @ [newline]))"
    for e' peer xs sent g
    by (induction xs arbitrary: sent g) (auto simp: serveLine_def ackSocketLine_def Let_def)
  from this [of _ _ _ "[]"] show ?thesis by (simp add: serveConn_def)
qed

lemma unchanged_trans: "unchanged a b \<Longrightarrow> unchanged b c \<Longrightarrow> unchanged a c"
  by (auto simp: unchanged_def)

lemma unchanged_pause: "unchanged a b \<Longrightarrow> gPause b = gPause a"
  by (auto simp: unchanged_def)

definition wf_reading :: "reading \<Rightarrow> bool" where
  "wf_reading = (\<lambda>(clk, s1, s2). wf_map (items s1) \<and> wf_map (items s2))"

text \<open>Lines that nobody there may send change nothing.\<close>

lemma fold_unchanged:
  assumes "wf_daemon (deHost e) g" "list_all (\<lambda>(line, r). wf_reading r) xs"
    and "list_all (\<lambda>(line, clk, s1, s2). \<forall>pid. peer = Some pid \<longrightarrow>
      \<not> entitled (deHost e) clk s1 pid (Paused (gPause g)) (kindOfLine e (TrimSpace line))) xs"
  shows "unchanged g (snd (fold (serveLine e peer) xs (sent, g)))"
  using assms
proof (induction xs arbitrary: sent g)
  case (Cons x xs)
  obtain line0 clk s1 s2 where x: "x = (line0, clk, s1, s2)" using prod_cases4 by blast
  obtain sent1 g1 where s: "serveLine e peer x (sent, g) = (sent1, g1)" by fastforce
  have wf: "wf_map (items s1)" "wf_map (items s2)" using Cons.prems(2) by (simp_all add: x wf_reading_def)
  let ?line = "TrimSpace line0" and ?pid = "case peer of Some pid \<Rightarrow> pid | None \<Rightarrow> 0"
  have "\<not> (peer \<noteq> None \<and> entitled (deHost e) clk s1 ?pid (Paused (gPause g)) (kindOfLine e ?line))"
    using Cons.prems(3) by (cases peer) (auto simp: x)
  then have "unchanged g (dispatch e clk s1 s2 ?line ?pid (peer \<noteq> None) g)"
    using dispatch_exact [OF Cons.prems(1), of clk s1 s2 ?line ?pid "peer \<noteq> None"] by (auto simp: unchanged_def)
  moreover have "wf_daemon (deHost e) (dispatch e clk s1 s2 ?line ?pid (peer \<noteq> None) g)" by (rule wf_dispatch [OF Cons.prems(1) wf])
  ultimately have g1: "unchanged g g1" "wf_daemon (deHost e) g1"
    using s Cons.prems(1) by (auto simp: x serveLine_def Let_def split: if_splits)
  have "unchanged g1 (snd (fold (serveLine e peer) xs (sent1, g1)))"
    using Cons.prems(2,3) unchanged_pause [OF g1(1)] by (intro Cons.IH [OF g1(2)]) simp_all
  then show ?case using unchanged_trans [OF g1(1)] by (simp add: s)
qed simp

section \<open>Properties\<close>

text \<open>C6. A connection fails closed. Whatever bytes arrive on a connection, on whatever platform, they change nothing (beyond
  the cached identity of the daemon) unless the kernel names a process at the other end and reports for it, byte for byte,
  an executable that is properly signed (or admitted by the override for unsigned peers) and is the right sender
  of one of the lines: the user interface for a control message, the network sender for a network flow while sensing is not
  paused, or, for a hook event while sensing is not paused, the installed emitter, with a command-line agent at
  or above the process and its own PID in the event. On a platform without such calls nothing changes at all.\<close>

theorem connection_fails_closed:
  assumes "wf_daemon (hostOn p k (deHost e)) g" "list_all wf_reading readings"
    and "\<not> unchanged g (snd (serveConn p k e conn received readings g))"
  shows "\<exists>pid exe line clk s1 s2. peerPIDForConn p conn = Some pid \<and> 0 < pid \<and> kernelReports p k pid exe \<and>
    (properly_signed (hostOn p k (deHost e)) exe \<or> override_applies (hostOn p k (deHost e)) exe) \<and>
    (line, clk, s1, s2) \<in> set (zip (fst (scanLines MaxDaemonSocketLineBytes received)) readings) \<and>
    (case kindOfLine e (TrimSpace line) of
       ControlLine ctrl \<Rightarrow> isTrustedControlSenderExe (hostOn p k (deHost e)) exe
     | NetworkLine nf \<Rightarrow> \<not> Paused (gPause g) \<and> isTrustedNetworkSenderExe (hostOn p k (deHost e)) exe
     | HookLine se \<Rightarrow> \<not> Paused (gPause g) \<and> isTrustedEmitterExe (hostOn p k (deHost e)) exe \<and>
         trustedSemanticHookOrigin pid (items s1) \<and> sPID se = pid
     | Unrecognized \<Rightarrow> False)"
proof -
  let ?xs = "zip (fst (scanLines MaxDaemonSocketLineBytes received)) readings" and ?h = "hostOn p k (deHost e)"
  have readings: "list_all (\<lambda>(line, r). wf_reading r) ?xs"
    using assms(2) by (auto simp: list_all_iff dest: set_zip_rightD)
  have "\<not> list_all (\<lambda>(line, clk, s1, s2). \<forall>pid. peerPIDForConn p conn = Some pid \<longrightarrow>
      \<not> entitled ?h clk s1 pid (Paused (gPause g)) (kindOfLine e (TrimSpace line))) ?xs"
    using fold_unchanged [of "connEnv p k e" g ?xs "peerPIDForConn p conn" "[]"] assms(1,3) readings by (simp add: serveConn_def) blast
  then have "\<exists>pid line clk s1 s2. peerPIDForConn p conn = Some pid \<and> (line, clk, s1, s2) \<in> set ?xs \<and>
      entitled ?h clk s1 pid (Paused (gPause g)) (kindOfLine e (TrimSpace line))"
    by (fastforce simp: list_all_iff)
  then obtain pid line clk s1 s2 where line: "peerPIDForConn p conn = Some pid" "(line, clk, s1, s2) \<in> set ?xs"
    "entitled ?h clk s1 pid (Paused (gPause g)) (kindOfLine e (TrimSpace line))" by blast
  have exact: "kernelReports p k pid exe" if "peerExePathOn p k pid = Some exe" for exe
    using that peer_path_exact by blast
  show ?thesis
    using line exact peerPIDForConn_positive [OF line(1)]
    by (cases "kindOfLine e (TrimSpace line)") (fastforce simp: trusted_as_def)+
qed

text \<open>The user interface pauses the daemon over a connection on macOS.\<close>

definition demoKernel :: Kernel where
  "demoKernel = \<lparr>proc_pidpath = (\<lambda>pid. (False, if pid = 7 then ''/Applications/AgentSnitch.app/Contents/MacOS/agentsnitch-ui'' else [])),
     readlink = (\<lambda>p. None)\<rparr>"

definition demoConn :: PeerConn where
  "demoConn = \<lparr>pcUnixConn = True, pcSyscallConn = True, pcControl = True, pcGetsockoptInt = (\<lambda>level opt. if opt = 2 then Some 7 else None),
     pcUcredPid = None\<rparr>"

theorem connection_fails_closed_witness:
  "\<exists>pid exe. peerPIDForConn Darwin demoConn = Some pid \<and> kernelReports Darwin demoKernel pid exe \<and>
     isTrustedControlSenderExe (hostOn Darwin demoKernel demoHost) exe \<and>
     Paused (gPause (snd (serveConn Darwin demoKernel demoEnv demoConn (''agentsnitch.control'' @ [newline]) [(5, None, None)] demoDaemon)))"
proof -
  let ?g = "snd (serveConn Darwin demoKernel demoEnv demoConn (''agentsnitch.control'' @ [newline]) [(5, None, None)] demoDaemon)"
  have lines: "scanLines MaxDaemonSocketLineBytes (''agentsnitch.control'' @ [newline]) = ([''agentsnitch.control''], False)"
    using scanLines_line [of "''agentsnitch.control''" MaxDaemonSocketLineBytes "[]"]
    by (simp add: MaxDaemonSocketLineBytes_def dropCR_def newline_def)
  have peer: "peerPIDForConn Darwin demoConn = Some 7"
    by (simp add: peerPIDForConn_darwin_def socketOf_def demoConn_def localPeerPID_def localPeerEPID_def)
  have trim: "TrimSpace ''agentsnitch.control'' = ''agentsnitch.control''" by code_simp
  have g: "?g = dispatch (connEnv Darwin demoKernel demoEnv) 5 None None ''agentsnitch.control'' 7 True demoDaemon"
    unfolding serveConn_def lines peer by (simp add: serveLine_def trim)
  have paused: "Paused (gPause (dispatch (connEnv Darwin demoKernel demoEnv) 5 None None ''agentsnitch.control'' 7 True demoDaemon))" by code_simp
  then have "\<not> unchanged demoDaemon ?g" using unchanged_pause [of demoDaemon ?g] unfolding g by (auto simp: demoDaemon_def newPauseController_def Paused_def)
  moreover have "wf_daemon (hostOn Darwin demoKernel (deHost demoEnv)) demoDaemon"
    using wf_demoDaemon by (simp add: wf_daemon_def demoDaemon_def)
  moreover have "list_all wf_reading [(5, None, None)]" by (simp add: wf_reading_def wf_map_def)
  ultimately obtain pid exe where r: "peerPIDForConn Darwin demoConn = Some pid" "kernelReports Darwin demoKernel pid exe"
    using connection_fails_closed [of Darwin demoKernel demoEnv demoDaemon "[(5, None, None)]" demoConn "''agentsnitch.control'' @ [newline]"] by blast
  then have "exe = ''/Applications/AgentSnitch.app/Contents/MacOS/agentsnitch-ui''" using peer by (simp add: demoKernel_def c_int_pid)
  moreover have "isTrustedControlSenderExe (hostOn Darwin demoKernel demoHost) ''/Applications/AgentSnitch.app/Contents/MacOS/agentsnitch-ui''" by code_simp
  ultimately show ?thesis using r paused g by auto
qed

end
