(* ===== verification/Hook_Delivery.thy ===== *)
theory Hook_Delivery
  imports Emitter Event_Wire Json_Prefix Daemon_Socket Runtime_Paths
begin

text \<open>
  A hook event from the process of the hook to the daemon: \<open>emitToSocket\<close> and \<open>initLocalLog\<close> of \<open>cmd/emitter/main.go\<close>,
  the bytes they put on the socket, and what the daemon makes of them when its decoders are those of the event wire.
\<close>

section \<open>Definitions\<close>

text \<open>What reaches the daemon: nothing without a connection, and a part when the write ends early.\<close>

definition emitToSocket :: "(string \<Rightarrow> bool) \<Rightarrow> nat option \<Rightarrow> string \<Rightarrow> SemanticEvent \<Rightarrow> string" where
  "emitToSocket dial fault socketPath sem =
     (let data = MarshalSemantic sem @ [newline]
      in if \<not> dial socketPath then []
         else case fault of None \<Rightarrow> data | Some n \<Rightarrow> take n data)"

text \<open>\<open>os.OpenFile\<close> with \<open>O_CREATE|O_APPEND|O_WRONLY\<close>; where the log goes, None for the standard error.\<close>

definition OpenAppend :: "string \<Rightarrow> mode \<Rightarrow> (os_error + unit) io" where
  "OpenAppend p perm = syscall (\<lambda>s.
     case node_at s p of
       Some (DirNode _) \<Rightarrow> (Inl ErrIsDir, s)
     | Some (FileNode _ _) \<Rightarrow> (Inr (), s)
     | None \<Rightarrow>
         if \<not> isDirAt s (Dir p) then (Inl ErrNotExist, s)
         else (Inr (), set_node p (FileNode (perm AND NOT (osUmask s)) []) s))"

definition initLocalLog :: "('a) ProcEnv_scheme \<Rightarrow> string option io" where
  "initLocalLog e = do {
     path \<leftarrow> EmitterLogPath e;
     opened \<leftarrow> OpenAppend path perm600;
     State_Monad.return (case opened of Inr () \<Rightarrow> Some path | Inl _ \<Rightarrow> None) }"

text \<open>The daemon with the decoders of \<open>encoding/json\<close>.\<close>

definition wired :: "DaemonEnv \<Rightarrow> DaemonEnv" where
  "wired e = e\<lparr>decodeControl := UnmarshalControl, decodeNetwork := UnmarshalNetwork, decodeSemantic := UnmarshalSemantic\<rparr>"

lemma deHost_wired [simp]: "deHost (wired e) = deHost e"
  by (simp add: wired_def)

section \<open>The line\<close>

lemma MarshalSemantic_braces: "\<exists>mid. MarshalSemantic e = CHR ''{'' # mid @ ''}''"
  unfolding MarshalSemantic_def semanticJSON_def jsonText_JObj by simp

lemma MarshalSemantic_line:
  assumes "wire_ok e"
  shows "newline \<notin> set (MarshalSemantic e)" "TrimSpace (MarshalSemantic e) = MarshalSemantic e" "dropCR (MarshalSemantic e) = MarshalSemantic e"
    "MarshalSemantic e \<noteq> []"
proof -
  obtain mid where m: "MarshalSemantic e = CHR ''{'' # mid @ ''}''" using MarshalSemantic_braces by blast
  have "printable (MarshalSemantic e)" unfolding MarshalSemantic_def by (rule printable_jsonText [OF semanticJSON_good(1) [OF assms]])
  then show "newline \<notin> set (MarshalSemantic e)" by (auto simp: printable_def list_all_iff newline_def byte_of_def)
  show "TrimSpace (MarshalSemantic e) = MarshalSemantic e"
    unfolding TrimSpace_def m by (rule trim_by_fixed) (simp add: is_space_def)
  show "dropCR (MarshalSemantic e) = MarshalSemantic e" by (simp add: m dropCR_def)
  show "MarshalSemantic e \<noteq> []" by (simp add: m)
qed

text \<open>The daemon reads the one line the hook writes, and answers it.\<close>

lemma serve_event:
  assumes "wire_ok sem" "length (MarshalSemantic sem) < MaxDaemonSocketLineBytes" "dial path" "peerPIDForConn p conn = Some pid"
  shows "serveConn p k e conn (emitToSocket dial None path sem) [(clk, s1, s2)] g =
    (''ok'' @ [newline], dispatch (connEnv p k e) clk s1 s2 (MarshalSemantic sem) pid True g)"
proof -
  note line = MarshalSemantic_line [OF assms(1)]
  have "scanLines MaxDaemonSocketLineBytes (MarshalSemantic sem @ [newline]) = ([MarshalSemantic sem], False)"
    using scanLines_line [OF line(1) assms(2), of "[]"] line(3) by simp
  then show ?thesis
    using line(2,4) assms(3,4) by (simp add: serveConn_def emitToSocket_def serveLine_def ackSocketLine_def)
qed

text \<open>A line that was cut short is no JSON, for any of the decoders: the daemon drops it.\<close>

lemma torn_line_decodes_to_nothing:
  assumes "wire_ok sem" "MarshalSemantic sem = line @ q" "q \<noteq> []"
  shows "UnmarshalControl line = None" "UnmarshalNetwork line = None" "UnmarshalSemantic line = None"
proof -
  obtain kvs where kvs: "semanticJSON sem = JObj kvs" by (simp add: semanticJSON_def)
  have "readJSON line = None"
    using torn_object [of kvs line q] semanticJSON_good(1) [OF assms(1)] assms(2,3) by (simp add: kvs MarshalSemantic_def)
  then show "UnmarshalControl line = None" "UnmarshalNetwork line = None" "UnmarshalSemantic line = None"
    by (simp_all add: UnmarshalControl_def UnmarshalNetwork_def UnmarshalSemantic_def unmarshal_def)
qed

lemma trimmed_start: "\<not> is_space c \<Longrightarrow> \<exists>t. c # cs = TrimSpace (c # cs) @ t"
proof -
  assume "\<not> is_space c"
  then have "TrimSpace (c # cs) = rev (dropWhile is_space (rev (c # cs)))" by (simp add: TrimSpace_def trim_by_def trim_left_by_def trim_right_by_def)
  moreover have "c # cs = rev (dropWhile is_space (rev (c # cs))) @ rev (takeWhile is_space (rev (c # cs)))"
    unfolding rev_append [symmetric] takeWhile_dropWhile_id by simp
  ultimately show ?thesis by metis
qed

lemma torn_event_is_dropped:
  assumes "wire_ok sem" "n < length (MarshalSemantic sem)"
  shows "snd (serveConn p k (wired e) conn (emitToSocket dial (Some n) path sem) readings g) = g"
proof -
  let ?e = "connEnv p k (wired e)"
  define line where "line = take n (MarshalSemantic sem)"
  obtain q where q: "MarshalSemantic sem = line @ q" "q \<noteq> []" using assms(2) unfolding line_def by (metis append_take_drop_id drop_eq_Nil not_less)
  have printed: "printable line" using printable_jsonText [OF semanticJSON_good(1) [OF assms(1)]] q(1)
    by (simp add: MarshalSemantic_def printable_def)
  then have "newline \<notin> set line" "CHR 0x0D \<notin> set line" by (auto simp: printable_def list_all_iff newline_def byte_of_def)
  moreover from this have "dropCR line = line" by (cases line rule: rev_cases) (auto simp: dropCR_def)
  ultimately have ends: "newline \<notin> set line" "dropCR line = line" by simp_all
  have drops: "snd (serveLine ?e peer (line, reading) (sent, g)) = g" for peer reading sent
  proof (cases "line = []")
    case False
    then obtain cs where cs: "line = CHR ''{'' # cs" using MarshalSemantic_braces [of sem] q(1) by (cases line) auto
    then obtain t where "line = TrimSpace line @ t" using trimmed_start [of "CHR ''{''" cs] by (auto simp: is_space_def)
    then have "MarshalSemantic sem = TrimSpace line @ (t @ q)" "t @ q \<noteq> []" using q by simp_all
    note torn = torn_line_decodes_to_nothing [OF assms(1) this]
    then have "dispatch ?e clk s1 s2 (TrimSpace line) pid has g = g" for clk s1 s2 pid has
      by (simp add: dispatch_def dispatchEvidence_def controlOf_def wired_def connEnv_def)
    then show ?thesis by (cases reading) (simp add: serveLine_def Let_def)
  qed (cases reading, simp add: serveLine_def TrimSpace_def trim_by_def trim_left_by_def trim_right_by_def)
  have "fst (scanLines MaxDaemonSocketLineBytes line) \<in> {[], [line]}"
    using scanLines_last [OF ends(1), of MaxDaemonSocketLineBytes] scanLines_long [OF ends(1), of MaxDaemonSocketLineBytes "[]"] ends(2)
    by (cases "line = []"; cases "length line < MaxDaemonSocketLineBytes") (simp_all add: MaxDaemonSocketLineBytes_def)
  moreover have "emitToSocket dial (Some n) path sem = line \<or> emitToSocket dial (Some n) path sem = []"
    using assms(2) by (simp add: emitToSocket_def line_def Let_def)
  ultimately show ?thesis using drops by (cases readings) (auto simp: serveConn_def)
qed

section \<open>What the daemon records\<close>

lemma LastSemantic_records [simp]:
  "LastSemantic (status (forwardToUI v d)) = LastSemantic (status d)"
  "LastSemantic (status (appendTranscript e now sid kind ev d)) = LastSemantic (status d)"
  "LastSemantic (status (logCorrelation e now c d)) = LastSemantic (status d)"
  "LastSemantic (status (Daemon_Out.recordSemantic now se d)) = Some se"
  by (auto simp: forwardToUI_def appendTranscript_def recordTranscript_def logCorrelation_def recordCorrelated_def
      Daemon_Out.recordSemantic_def writeLocked_def split: option.split)

lemma LastSemantic_reportCards [simp]: "LastSemantic (status (reportCards e clk cards d)) = LastSemantic (status d)"
  unfolding reportCards_def by (induction cards arbitrary: d) simp_all

lemma LastSemantic_drain:
  "drain_flows e clk flows sess g = (sess', g') \<Longrightarrow> LastSemantic (status (gOut g')) = LastSemantic (status (gOut g))"
proof (induction flows arbitrary: sess g)
  case (Cons f fs)
  obtain hit s1 g1 where c: "correlateSessionFlow e clk sess f g = (hit, s1, g1)" using prod_cases3 by blast
  then have "LastSemantic (status (gOut g1)) = LastSemantic (status (gOut g))"
    by (auto simp: correlateSessionFlow_def Let_def split: prod.splits)
  then show ?case using Cons c by simp
qed simp

lemma annotateSemantic_agent: "annotateSemantic fs clk se ps m = (se', m', ev) \<Longrightarrow> se' = se\<lparr>sAgent := sAgent se'\<rparr>"
  by (auto simp: annotateSemantic_def Let_def split: if_splits option.splits prod.splits)

lemma ingest_records:
  "\<exists>agent. LastSemantic (status (gOut (ingestSemantic e clk ps se g))) = Some (se\<lparr>sAgent := agent\<rparr>)"
proof -
  obtain sess0 ss0 where a: "forSemantic clk se (gSessions g) = (sess0, ss0)" by fastforce
  obtain ps1 sess1 where b: "snapshotSession clk ps sess0 = (ps1, sess1)" by fastforce
  obtain ev1 sess2 where c: "observeSession (deFS e) (deCWD e) clk ps1 sess1 = (ev1, sess2)" by fastforce
  obtain se' m ev2 where d: "annotateSemantic (deFS e) clk se ps1 (dsSubagents sess2) = (se', m, ev2)" using prod_cases3 by blast
  have "LastSemantic (status (gOut (ingestSemantic e clk ps se g))) = Some se'"
    unfolding ingestSemantic_def Let_def a b c d prod.case
    by (auto simp: requestLsofBurstPoll_def LastSemantic_drain split: prod.splits)
  then show ?thesis using annotateSemantic_agent [OF d] by metis
qed

text \<open>The event of the hook is already normalised and valid when it arrives.\<close>

lemma arrived_event:
  assumes "snd (emitterMain env now) = Some sem"
  shows "NormalizeSemanticEvent clk (wireImage sem) = wireImage sem" "ValidateSemanticEvent (wireImage sem) = None"
    "sPID (wireImage sem) = emPID env" "0 < emPID env" "sTool (wireImage sem) \<noteq> []"
proof -
  obtain p where p: "sem = NormalizeSemanticEvent now (buildSemanticEvent env now p)" "ValidateSemanticEvent sem = None"
    using emitted_is_built [OF assms] by blast
  then have r: "reportable env now p" using valid_iff_reportable by simp
  then have now: "now \<noteq> 0" by (simp add: reportable_def)
  have same: "NormalizeSemanticEvent clk sem = sem" unfolding p(1) using NormalizeSemanticEvent_idem [OF now] .
  have intents: "normalizeStringSlice (sDestinationIntents sem) = sDestinationIntents sem"
    using arg_cong [OF same, of sDestinationIntents] by (simp add: NormalizeSemanticEvent_def)
  have "normalizeStringSlice (if items (sDestinationIntents sem) = [] then None else Some (items (sDestinationIntents sem))) =
      (if items (sDestinationIntents sem) = [] then None else Some (items (sDestinationIntents sem)))"
    using intents by (cases "sDestinationIntents sem") (auto simp: normalizeStringSlice_def items_def)
  then have "NormalizeSemanticEvent clk (wireImage sem) = wireImage (NormalizeSemanticEvent clk sem)"
    unfolding wireImage_def NormalizeSemanticEvent_def using intents by (simp add: items_def)
  then show "NormalizeSemanticEvent clk (wireImage sem) = wireImage sem" by (simp add: same)
  show "ValidateSemanticEvent (wireImage sem) = None"
    using p(2) by (simp add: ValidateSemanticEvent_def wireImage_def split: if_splits)
  show "sPID (wireImage sem) = emPID env" unfolding p(1) by (simp add: wireImage_def build_fields)
  show "0 < emPID env" using r by (simp add: reportable_def)
  show "sTool (wireImage sem) \<noteq> []" using p(2) by (auto simp: ValidateSemanticEvent_def wireImage_def split: if_splits)
qed

lemma event_is_no_control:
  assumes "snd (emitterMain env now) = Some sem" "wire_ok sem"
  shows "controlOf (connEnv p k (wired e)) (MarshalSemantic sem) = None"
proof -
  have "sSchema sem = SchemaSemanticV0" using arrived_event(2) [OF assms(1)] by (simp add: ValidateSemanticEvent_def wireImage_def split: if_splits)
  then show ?thesis
    using semantic_reads_as_control [OF assms(2)] by (simp add: controlOf_def connEnv_def wired_def SchemaSemanticV0_def SchemaControlV0_def)
qed

section \<open>Properties\<close>

text \<open>What the daemon looks for in the text of a line before it decodes it.\<close>

definition reads_as_hook :: "string \<Rightarrow> bool" where
  "reads_as_hook line \<longleftrightarrow> \<not> Contains line ''agentsnitch.network'' \<and> \<not> Contains line ''\"remote\"''"

text \<open>C7. A hook event is delivered: when the hook reports an event and its write is not cut short, a running daemon that
  is not paused, sees the hook's process at the other end of the connection as the signed emitter below a command-line
  agent, and decodes what \<open>encoding/json\<close> encoded, acknowledges the line and records exactly that event as the last
  hook event (the agent it is attributed to may be refined to a sub-agent), provided its text is UTF-8, its line
  fits the socket's buffer and mentions neither the network schema nor a \<open>remote\<close> member. When the write is cut
  short within the event, no part of it has any effect.\<close>

theorem hook_event_is_delivered:
  assumes "snd (emitterMain env now) = Some sem" "wire_ok sem" "dial path"
    and "length (MarshalSemantic sem) < MaxDaemonSocketLineBytes" "reads_as_hook (MarshalSemantic sem)"
    and "wf_daemon (hostOn p k (deHost e)) g" "\<not> Paused (gPause g)" "peerPIDForConn p conn = Some (emPID env)"
    and "trusted_as isTrustedEmitterExe (hostOn p k (deHost e)) (emPID env)" "trustedSemanticHookOrigin (emPID env) (items s1)"
  shows "(\<exists>g' agent. serveConn p k (wired e) conn (emitToSocket dial None path sem) [(clk, s1, s2)] g = (''ok'' @ [newline], g') \<and>
    LastSemantic (status (gOut g')) = Some ((wireImage sem)\<lparr>sAgent := agent\<rparr>)) \<and>
    (\<forall>n < length (MarshalSemantic sem). snd (serveConn p k (wired e) conn (emitToSocket dial (Some n) path sem) [(clk, s1, s2)] g) = g)"
proof -
  let ?e = "connEnv p k (wired e)" and ?line = "MarshalSemantic sem"
  note ev = arrived_event [OF assms(1)]
  have host: "deHost ?e = hostOn p k (deHost e)" by simp
  have decode: "decodeSemantic ?e ?line = Some (wireImage sem)"
    using UnmarshalSemantic_MarshalSemantic [OF assms(2)] by (simp add: wired_def connEnv_def)
  have cache: "cache_ok (hostOn p k (deHost e)) (gIdentity g)" using assms(6) by (simp add: wf_daemon_def)
  obtain c where peer: "trustedSemanticSocketPeer (deHost ?e) (gIdentity g) (emPID env) = (True, c)"
    using trusted_as_cached(1) [OF cache, of "emPID env"] assms(9) unfolding host by (metis prod.collapse)
  have "controlOf ?e ?line = None" by (rule event_is_no_control [OF assms(1,2)])
  moreover have "dispatchEvidence ?e clk s1 s2 ?line (emPID env) True g = handleSocketSemantic ?e clk s1 s2 (wireImage sem) (emPID env) True g"
    using assms(5) decode ev(5) by (simp add: dispatchEvidence_def reads_as_hook_def)
  moreover have "handleSocketSemantic ?e clk s1 s2 (wireImage sem) (emPID env) True g =
      ingestSemantic ?e clk (items s2) (wireImage sem) (g\<lparr>gIdentity := c\<rparr>)"
    using ev assms(10) peer by (simp add: handleSocketSemantic_def handleSemantic_def Let_def)
  ultimately have "dispatch ?e clk s1 s2 ?line (emPID env) True g = ingestSemantic ?e clk (items s2) (wireImage sem) (g\<lparr>gIdentity := c\<rparr>)"
    using assms(7) by (simp add: dispatch_def)
  then show ?thesis
    using serve_event [where dial = dial and path = path, OF assms(2,4,3,8)] ingest_records torn_event_is_dropped [OF assms(2)] by simp
qed

text \<open>An event that does mention one of them is lost: the line is acknowledged, but it is read as a network flow, which
  the emitter may not send, and nothing of it is recorded. What a tool call says, a command for one, can do that.\<close>

theorem hook_naming_network_is_lost:
  assumes "snd (emitterMain env now) = Some sem" "wire_ok sem" "dial path"
    and "length (MarshalSemantic sem) < MaxDaemonSocketLineBytes" "\<not> reads_as_hook (MarshalSemantic sem)"
    and "wf_daemon (hostOn p k (deHost e)) g" "peerPIDForConn p conn = Some (emPID env)"
    and "\<not> trusted_as isTrustedNetworkSenderExe (hostOn p k (deHost e)) (emPID env)"
  shows "\<exists>g'. serveConn p k (wired e) conn (emitToSocket dial None path sem) [(clk, s1, s2)] g = (''ok'' @ [newline], g') \<and> unchanged g g'"
proof -
  let ?e = "connEnv p k (wired e)" and ?line = "MarshalSemantic sem"
  have host: "deHost ?e = hostOn p k (deHost e)" by simp
  obtain nf where "decodeNetwork ?e ?line = Some nf" using semantic_reads_as_network [OF assms(2)] by (auto simp: wired_def connEnv_def)
  then have "dispatchEvidence ?e clk s1 s2 ?line (emPID env) True g = handleSocketNetwork ?e clk s1 s2 nf (emPID env) True g"
    using assms(5) by (auto simp: dispatchEvidence_def reads_as_hook_def)
  moreover have "cache_ok (hostOn p k (deHost e)) (gIdentity g)" using assms(6) by (simp add: wf_daemon_def)
  then have "unchanged g (handleSocketNetwork ?e clk s1 s2 nf (emPID env) True g)"
    using assms(8) by (intro handleSocketNetwork_guard) (simp add: host trusted_as_cached(2))
  ultimately have "unchanged g (dispatch ?e clk s1 s2 ?line (emPID env) True g)"
    using event_is_no_control [OF assms(1,2)] by (simp add: dispatch_def)
  then show ?thesis using serve_event [where dial = dial and path = path, OF assms(2,4,3,7)] by blast
qed

text \<open>The hook of the emitter's example, delivered.\<close>

definition demoHook :: SemanticEvent where
  "demoHook = zeroSemantic\<lparr>sSchema := SchemaSemanticV0, sTS := 5, sAgent := zeroAgent\<lparr>aID := ''claude'', aName := ''Claude Code''\<rparr>,
     sSession := \<lparr>sessID = ''s1''\<rparr>, sEvent := ''PreToolUse'', sTool := ''Bash'', sTarget := ''sk-[redacted]'', sCWD := ''/w'',
     sPID := 9, sPPID := 7, sTags := Some [''sensitive_read''], sToolUseID := ''t1'',
     sInputSummary := Some [(''command'', JStr ''ls sk-[redacted]''), (''password'', JStr ''[redacted]'')]\<rparr>"

lemma demoHook_emitted: "snd (emitterMain demoEmitter 5) = Some demoHook"
proof -
  define p where "p = (case parseWire (emUnmarshal demoEmitter) ''payload'' of Inr p \<Rightarrow> p)"
  have "readHookPayload (emStdin demoEmitter) = Some ''payload''" by (simp add: readHookPayload_def maxHookPayload_def demoEmitter_def)
  moreover have "TrimSpace ''payload'' = ''payload''" by code_simp
  moreover have "parseWire (emUnmarshal demoEmitter) ''payload'' = Inr p" by (simp add: p_def parseWire_def demoEmitter_def)
  moreover have "NormalizeSemanticEvent 5 (buildSemanticEvent demoEmitter 5 p) = demoHook" unfolding p_def by code_simp
  moreover have "ValidateSemanticEvent demoHook = None" by code_simp
  ultimately show ?thesis by (simp add: emitterMain_def emitterEvent_def Let_def)
qed


lemma wire_ok_demo: "wire_ok demoHook"
proof (rule wire_ok_ascii)
  show "list_all ascii (event_texts demoHook)" "wire_agent (sAgent demoHook)" "writable_time (sTS demoHook)" by code_simp+
  have "clean (JObj [(''command'', JStr ''ls sk-[redacted]''), (''password'', JStr ''[redacted]'')])"
    by (simp add: cleanText_ascii byte_of_def)
  then show "wire_map (items (sInputSummary demoHook))" by (simp add: demoHook_def wire_map_def items_def)
qed (simp_all add: demoHook_def zeroSemantic_def int64_def wire_map_def items_def)

definition demoHookKernel :: Kernel where
  "demoHookKernel = \<lparr>proc_pidpath = (\<lambda>pid. (False, if pid = 9 then ''/Library/Application Support/AgentSnitch/bin/emitter'' else [])),
     readlink = (\<lambda>p. None)\<rparr>"

definition demoHookConn :: PeerConn where
  "demoHookConn = demoConn\<lparr>pcGetsockoptInt := (\<lambda>level opt. if opt = 2 then Some 9 else None)\<rparr>"

definition demoProcesses :: proc_table where
  "demoProcesses =
     (let process = (\<lambda>pid ppid name. \<lparr>piPID = pid, piPPID = ppid, piName = name, piStartedAt = 0, piSource = [], piAgentID = [],
        piAgentKind = [], piIsAgentBinary = False, piTrackAsAgent = False, piLastSeen = 0\<rparr>)
      in [(9, process 9 7 ''emitter''), (7, process 7 1 ''claude'')])"

lemma demo_emitter_trusted: "trusted_as isTrustedEmitterExe (hostOn Darwin demoHookKernel demoHost) 9"
proof -
  have "peerExePathOn Darwin demoHookKernel 9 = Some ''/Library/Application Support/AgentSnitch/bin/emitter''" by code_simp
  moreover have "isTrustedEmitterExe (hostOn Darwin demoHookKernel demoHost) ''/Library/Application Support/AgentSnitch/bin/emitter''" by code_simp
  moreover have "signature_rule (hostOn Darwin demoHookKernel demoHost) ''/Library/Application Support/AgentSnitch/bin/emitter''" by code_simp
  ultimately show ?thesis by (simp add: trusted_as_def signature_rule_iff [symmetric])
qed

theorem hook_event_is_delivered_witness:
  "(\<exists>g' agent. serveConn Darwin demoHookKernel (wired demoEnv) demoHookConn (emitToSocket (\<lambda>p. True) None ''/s'' demoHook)
       [(5, Some demoProcesses, Some demoProcesses)] demoDaemon = (''ok'' @ [newline], g') \<and>
     LastSemantic (status (gOut g')) = Some ((wireImage demoHook)\<lparr>sAgent := agent\<rparr>)) \<and>
   snd (serveConn Darwin demoHookKernel (wired demoEnv) demoHookConn (emitToSocket (\<lambda>p. True) (Some 40) ''/s'' demoHook)
       [(5, Some demoProcesses, Some demoProcesses)] demoDaemon) = demoDaemon"
proof -
  have part: "40 < length (MarshalSemantic demoHook)" by code_simp
  have "length (MarshalSemantic demoHook) < 1000" by code_simp
  then have l: "length (MarshalSemantic demoHook) < MaxDaemonSocketLineBytes" by (simp add: MaxDaemonSocketLineBytes_def)
  have r: "reads_as_hook (MarshalSemantic demoHook)" by code_simp
  have w: "wf_daemon (hostOn Darwin demoHookKernel (deHost demoEnv)) demoDaemon" using wf_demoDaemon by (simp add: wf_daemon_def demoDaemon_def)
  have q: "\<not> Paused (gPause demoDaemon)" by code_simp
  have pid: "emPID demoEmitter = 9" by (simp add: demoEmitter_def)
  have c: "peerPIDForConn Darwin demoHookConn = Some (emPID demoEmitter)"
    by (simp add: pid peerPIDForConn_darwin_def socketOf_def demoHookConn_def demoConn_def localPeerPID_def localPeerEPID_def)
  have s: "trusted_as isTrustedEmitterExe (hostOn Darwin demoHookKernel (deHost demoEnv)) (emPID demoEmitter)"
    using demo_emitter_trusted by (simp add: pid demoEnv_def)
  have o: "trustedSemanticHookOrigin (emPID demoEmitter) (items (Some demoProcesses))" unfolding pid by code_simp
  show ?thesis
    using hook_event_is_delivered [OF demoHook_emitted wire_ok_demo _ l r w q c s o, of "\<lambda>p. True" "''/s''" 5] part by blast
qed

text \<open>The same hook for the command \<open>ls agentsnitch.network\<close>.\<close>

definition demoEvasion :: EmitterEnv where
  "demoEvasion = demoEmitter\<lparr>emUnmarshal := (\<lambda>raw. Inr (demoPayload\<lparr>wToolInput := Some [(''command'', JStr ''ls agentsnitch.network'')]\<rparr>))\<rparr>"

definition demoEvasive :: SemanticEvent where
  "demoEvasive = demoHook\<lparr>sTarget := ''agentsnitch.network'', sTags := Some [], sDestinationIntents := Some [''agentsnitch.network''],
     sInputSummary := Some [(''command'', JStr ''ls agentsnitch.network'')]\<rparr>"

lemma demoEvasive_emitted: "snd (emitterMain demoEvasion 5) = Some demoEvasive"
proof -
  define p where "p = (case parseWire (emUnmarshal demoEvasion) ''payload'' of Inr p \<Rightarrow> p)"
  have "readHookPayload (emStdin demoEvasion) = Some ''payload''"
    by (simp add: readHookPayload_def maxHookPayload_def demoEmitter_def demoEvasion_def)
  moreover have "TrimSpace ''payload'' = ''payload''" by code_simp
  moreover have "parseWire (emUnmarshal demoEvasion) ''payload'' = Inr p" by (simp add: p_def parseWire_def demoEvasion_def demoEmitter_def)
  moreover have "NormalizeSemanticEvent 5 (buildSemanticEvent demoEvasion 5 p) = demoEvasive" unfolding p_def by code_simp
  moreover have "ValidateSemanticEvent demoEvasive = None" by code_simp
  ultimately show ?thesis by (simp add: emitterMain_def emitterEvent_def Let_def)
qed

lemma wire_ok_evasive: "wire_ok demoEvasive"
proof (rule wire_ok_ascii)
  show "list_all ascii (event_texts demoEvasive)" "wire_agent (sAgent demoEvasive)" "writable_time (sTS demoEvasive)" by code_simp+
  have "clean (JObj [(''command'', JStr ''ls agentsnitch.network'')])" by (simp add: cleanText_ascii byte_of_def)
  then show "wire_map (items (sInputSummary demoEvasive))" by (simp add: demoEvasive_def wire_map_def items_def)
qed (simp_all add: demoEvasive_def demoHook_def zeroSemantic_def int64_def wire_map_def items_def)

theorem hook_naming_network_is_lost_witness:
  "\<exists>g'. serveConn Darwin demoHookKernel (wired demoEnv) demoHookConn (emitToSocket (\<lambda>p. True) None ''/s'' demoEvasive)
       [(5, Some demoProcesses, Some demoProcesses)] demoDaemon = (''ok'' @ [newline], g') \<and> unchanged demoDaemon g'"
proof (rule hook_naming_network_is_lost [OF demoEvasive_emitted wire_ok_evasive])
  have "length (MarshalSemantic demoEvasive) < 1000" by code_simp
  then show "length (MarshalSemantic demoEvasive) < MaxDaemonSocketLineBytes" by (simp add: MaxDaemonSocketLineBytes_def)
  show "\<not> reads_as_hook (MarshalSemantic demoEvasive)" by code_simp
  show "wf_daemon (hostOn Darwin demoHookKernel (deHost demoEnv)) demoDaemon" using wf_demoDaemon by (simp add: wf_daemon_def demoDaemon_def)
  have pid: "emPID demoEvasion = 9" by (simp add: demoEvasion_def demoEmitter_def)
  show "peerPIDForConn Darwin demoHookConn = Some (emPID demoEvasion)"
    by (simp add: pid peerPIDForConn_darwin_def socketOf_def demoHookConn_def demoConn_def localPeerPID_def localPeerEPID_def)
  have "peerExePathOn Darwin demoHookKernel 9 = Some ''/Library/Application Support/AgentSnitch/bin/emitter''" by code_simp
  moreover have "\<not> isTrustedNetworkSenderExe (hostOn Darwin demoHookKernel demoHost) ''/Library/Application Support/AgentSnitch/bin/emitter''" by code_simp
  ultimately show "\<not> trusted_as isTrustedNetworkSenderExe (hostOn Darwin demoHookKernel (deHost demoEnv)) (emPID demoEvasion)"
    by (simp add: pid trusted_as_def demoEnv_def)
qed simp


end
