(* ===== verification/Inspect_Transport.thy ===== *)
theory Inspect_Transport
  imports Inspect_Proxy Daemon_Observe
begin

text \<open>
  The network side of \<open>internal/inspect/proxy.go\<close>: the upstream round trip with the address it went to, the description of
  that address in an exchange, the name of the TLS version, the bytes a tunnel counts, and the copy of a
  response to the client. \<open>net/http\<close> is a parameter: for a request it says which addresses it dialled and what came
  back. \<open>netThrough\<close> makes the network of \<open>Inspect_Proxy\<close> from it.
\<close>

section \<open>Definitions\<close>

record Upstream =
  upDial :: "string \<Rightarrow> string option option"
  upExchange :: "Request \<Rightarrow> string list \<times> (Response \<times> 16 word option) option"
  upService :: "string \<Rightarrow> int option"

text \<open>\<open>net.LookupPort\<close>: a decimal number with an optional sign, otherwise the name of a service.\<close>

definition decimal :: "string \<Rightarrow> int" where
  "decimal s = foldl (\<lambda>n c. 10 * n + (of_char c - 48)) 0 s"

definition LookupPort :: "(string \<Rightarrow> int option) \<Rightarrow> string \<Rightarrow> int option" where
  "LookupPort service s =
     (let signed = (s \<noteq> [] \<and> hd s \<in> {CHR ''+'', CHR ''-''});
          number = (if signed then tl s else s);
          found = (if s = [] then Some 0
                   else if list_all (\<lambda>c. c \<in> set ''0123456789'') number then Some (if hd s = CHR ''-'' then - decimal number else decimal number)
                   else service s)
      in case found of
           None \<Rightarrow> None
         | Some port \<Rightarrow> if 0 \<le> port \<and> port \<le> 65535 then Some port else None)"

definition networkFromRemote :: "(string \<Rightarrow> int option) \<Rightarrow> string option \<Rightarrow> int \<Rightarrow> InspectedHTTPNetwork" where
  "networkFromRemote service remote ms =
     (let network = zeroNetwork\<lparr>nwDurationMS := ms\<rparr>
      in case remote of
           None \<Rightarrow> network
         | Some r \<Rightarrow>
             (case SplitHostPort r of
                None \<Rightarrow> network\<lparr>nwRemote := r\<rparr>
              | Some (host, port) \<Rightarrow>
                  network\<lparr>nwRemote := r, nwRemoteIP := Trim host ''[]'',
                          nwRemotePort := (case LookupPort service port of Some p \<Rightarrow> p | None \<Rightarrow> 0)\<rparr>))"

text \<open>The address is that of the last connection the transport made for the request.\<close>

definition roundTripRaw :: "Upstream \<Rightarrow> Request \<Rightarrow> (Response \<times> InspectedHTTPNetwork \<times> 16 word option) option" where
  "roundTripRaw up req =
     (case upExchange up req of
        (dialled, None) \<Rightarrow> None
      | (dialled, Some (resp, tls)) \<Rightarrow>
          let remote = fold (\<lambda>address r. case upDial up address of Some a \<Rightarrow> a | None \<Rightarrow> r) dialled None
          in Some (resp, (networkFromRemote (upService up) remote 0)\<lparr>nwDurationMS := 0\<rparr>, tls))"

definition tlsVersionName :: "16 word \<Rightarrow> string" where
  "tlsVersionName version =
     (if version = 0x0304 then ''TLS 1.3''
      else if version = 0x0303 then ''TLS 1.2''
      else if version = 0x0302 then ''TLS 1.1''
      else if version = 0x0301 then ''TLS 1.0''
      else ''TLS 0x'' @ show_hex (uint version))"

definition netThrough :: "Upstream \<Rightarrow> int \<Rightarrow> ProxyNet \<Rightarrow> ProxyNet" where
  "netThrough up ms net = net\<lparr>
     pnRoundTrip := (\<lambda>req. map_option (\<lambda>(resp, network, tls). (resp, network, case tls of Some v \<Rightarrow> tlsVersionName v | None \<Rightarrow> []))
                       (roundTripRaw up req)),
     pnDial := (\<lambda>host. map_option (\<lambda>remote. networkFromRemote (upService up) remote ms) (upDial up host))\<rparr>"

text \<open>\<open>countingWriter\<close>: a write adds what was written, also when it failed.\<close>

definition countingWrite :: "nat \<times> bool \<Rightarrow> int \<Rightarrow> int" where
  "countingWrite = (\<lambda>(n, failed) count. wrap64 (count + int n))"

definition tunnelCount :: "(nat \<times> bool) list \<Rightarrow> int" where
  "tunnelCount writes = fold countingWrite writes 0"

record ClientWriter =
  cwHeader :: http_header
  cwStatus :: "int option"
  cwBody :: string

definition HeaderAdd :: "string \<Rightarrow> string \<Rightarrow> http_header \<Rightarrow> http_header" where
  "HeaderAdd name v h = mput (CanonicalHeaderKey name) (HeaderValues h name @ [v]) h"

definition copyResponse :: "Response \<Rightarrow> string \<Rightarrow> ClientWriter \<Rightarrow> ClientWriter" where
  "copyResponse resp content w =
     \<lparr>cwHeader = fold (\<lambda>(name, values). fold (HeaderAdd name) values) (respHeader resp) (cwHeader w),
      cwStatus = (if cwStatus w = None then Some (respStatusCode resp) else cwStatus w),
      cwBody = cwBody w @ content\<rparr>"

section \<open>Lemmas\<close>

lemma tunnelCount_exact:
  assumes "int (sum_list (map fst writes)) \<le> maxDuration"
  shows "tunnelCount writes = int (sum_list (map fst writes))"
proof -
  have fit: "0 \<le> x \<Longrightarrow> x \<le> maxDuration \<Longrightarrow> wrap64 x = x" for x
    by (simp add: wrap64_def maxDuration_def)
  have "0 \<le> count \<Longrightarrow> count + int (sum_list (map fst ws)) \<le> maxDuration \<Longrightarrow>
      fold countingWrite ws count = count + int (sum_list (map fst ws))" for ws count
    by (induction ws arbitrary: count) (auto simp: countingWrite_def fit algebra_simps split: prod.split)
  from this [of 0 writes] show ?thesis using assms by (simp add: tunnelCount_def)
qed

text \<open>A client sees the headers of the response: for canonical names every value, in order.\<close>

lemma HeaderValues_Add:
  "HeaderValues (HeaderAdd name v h) other =
     (if CanonicalHeaderKey other = CanonicalHeaderKey name then HeaderValues h name @ [v] else HeaderValues h other)"
  by (simp add: HeaderValues_def HeaderAdd_def)

lemma HeaderValues_Adds:
  "HeaderValues (fold (HeaderAdd name) vs h) other =
     HeaderValues h other @ (if CanonicalHeaderKey other = CanonicalHeaderKey name then vs else [])"
proof (induction vs arbitrary: h)
  case (Cons v vs)
  then show ?case by (auto simp: HeaderValues_Add) (simp add: HeaderValues_def)
qed simp

lemma copied_headers:
  assumes "wf_map h" "list_all (\<lambda>(name, values). CanonicalHeaderKey name = name) h"
  shows "HeaderValues (fold (\<lambda>(name, values). fold (HeaderAdd name) values) h h0) other = HeaderValues h0 other @ HeaderValues h other"
  using assms
proof (induction h arbitrary: h0)
  case (Cons nv h)
  obtain name vs where nv: "nv = (name, vs)" by fastforce
  have wf: "wf_map h" "mget h name = None"
    using Cons.prems(1) by (auto simp: nv wf_map_def map_of_eq_None_iff)
  show ?case
    using Cons.IH [OF wf(1)] Cons.prems(2) wf(2)
    by (auto simp: nv HeaderValues_Adds HeaderValues_def [of "_ # _"] HeaderValues_def [of h])
qed (simp add: HeaderValues_def [of "[]"])

text \<open>What an exchange says of the upstream server is the address the transport reports.\<close>

lemma networkFromRemote_duration: "nwBytesOut (networkFromRemote service remote ms) = 0" "nwBytesIn (networkFromRemote service remote ms) = 0"
  "nwDurationMS (networkFromRemote service remote ms) = ms"
  by (auto simp: networkFromRemote_def zeroNetwork_def Let_def split: option.split)

lemma LookupPort_range: "LookupPort service s = Some p \<Longrightarrow> 0 \<le> p \<and> p \<le> 65535"
  by (auto simp: LookupPort_def Let_def split: option.splits if_splits)

lemma networkFromRemote_port: "0 \<le> nwRemotePort (networkFromRemote service remote ms) \<and> nwRemotePort (networkFromRemote service remote ms) \<le> 65535"
  using LookupPort_range by (auto simp: networkFromRemote_def zeroNetwork_def Let_def split: option.split)

text \<open>An address as \<open>net.Addr\<close> prints it comes back as its host and its port.\<close>

lemma digit_char_value: "0 \<le> d \<Longrightarrow> d < 10 \<Longrightarrow> of_char (digit_char d) = d + 48 \<and> digit_char d \<in> set ''0123456789''"
proof -
  assume "0 \<le> d" "d < 10"
  then have "d = 0 \<or> d = 1 \<or> d = 2 \<or> d = 3 \<or> d = 4 \<or> d = 5 \<or> d = 6 \<or> d = 7 \<or> d = 8 \<or> d = 9" by presburger
  then show ?thesis by (elim disjE) (simp_all add: digit_char.simps)
qed

lemma decimal_show_digits: "0 \<le> n \<Longrightarrow> decimal (show_digits n) = n \<and> show_digits n \<noteq> [] \<and> set (show_digits n) \<subseteq> set ''0123456789''"
proof (induction n rule: show_digits.induct)
  case (1 n)
  show ?case
  proof (cases "n < 10")
    case True
    then have "show_digits n = [digit_char n]" by (subst show_digits.simps) simp
    then show ?thesis using digit_char_value [OF "1.prems" True] by (simp add: decimal_def)
  next
    case False
    then have s: "show_digits n = show_digits (n div 10) @ [digit_char (n mod 10)]" by (subst show_digits.simps) simp
    have ih: "decimal (show_digits (n div 10)) = n div 10" "set (show_digits (n div 10)) \<subseteq> set ''0123456789''"
      using "1.IH" [OF False] "1.prems" by simp_all
    have "of_char (digit_char (n mod 10)) = n mod 10 + 48 \<and> digit_char (n mod 10) \<in> set ''0123456789''" by (rule digit_char_value) simp_all
    then show ?thesis using ih by (auto simp: s decimal_def)
  qed
qed

lemma networkFromRemote_JoinHostPort:
  assumes "set host \<inter> {CHR ''['', CHR '']''} = {}" "0 \<le> port" "port \<le> 65535"
  shows "networkFromRemote service (Some (JoinHostPort host (Itoa port))) ms =
    zeroNetwork\<lparr>nwRemote := JoinHostPort host (Itoa port), nwRemoteIP := host, nwRemotePort := port, nwDurationMS := ms\<rparr>"
proof -
  have port: "Itoa port = show_digits port" using assms(2) by (simp add: Itoa_def)
  note d = decimal_show_digits [OF assms(2)]
  have "set (show_digits port) \<inter> {CHR ''['', CHR '']'', CHR '':''} = {}" using d by auto
  then have split: "SplitHostPort (JoinHostPort host (Itoa port)) = Some (host, Itoa port)"
    using assms(1) by (intro SplitHostPort_JoinHostPort) (auto simp: port)
  have "hd (show_digits port) \<in> set ''0123456789''" using d hd_in_set [of "show_digits port"] by blast
  then have "hd (show_digits port) \<notin> {CHR ''+'', CHR ''-''}" "hd (show_digits port) \<noteq> CHR ''-''" by auto
  moreover have "list_all (\<lambda>c. c \<in> set ''0123456789'') (show_digits port)" using d unfolding list_all_iff by blast
  ultimately have "LookupPort service (Itoa port) = Some port"
    using d assms(2,3) unfolding LookupPort_def port Let_def by (simp only:) simp
  moreover have "Trim host ''[]'' = host"
  proof (cases "host = []")
    case False
    have "c \<notin> set ''[]''" if "c \<in> set host" for c using that assms(1) by auto
    then show ?thesis using False unfolding Trim_def by (intro trim_by_fixed) simp_all
  qed (simp add: Trim_def)
  ultimately show ?thesis by (simp add: networkFromRemote_def split zeroNetwork_def)
qed

end
