(* ===== verification/Event_Log.thy ===== *)
theory Event_Log
  imports Event Go_Utf8
begin

text \<open>
  How untrusted text reaches a log line: \<open>SemanticEvent.String\<close> and \<open>sanitizeLogText\<close> of \<open>internal/event/event.go\<close>, and
  \<open>sanitizeLogField\<close> of \<open>cmd/daemon/main.go\<close>. The argument \<open>wide\<close> says which runes above Latin-1 are printable.
\<close>

section \<open>Definitions\<close>

definition logRune :: "(rune \<Rightarrow> bool) \<Rightarrow> rune \<Rightarrow> rune" where
  "logRune wide r = (if r = 0x09 then 0x20 else if IsPrint wide r then r else 0x3F)"

definition sanitizeLogText :: "(rune \<Rightarrow> bool) \<Rightarrow> string \<Rightarrow> string" where
  "sanitizeLogText wide value = (if value = [] then value else MapRunes (logRune wide) value)"

definition sanitizeLogField :: "(rune \<Rightarrow> bool) \<Rightarrow> string \<Rightarrow> int \<Rightarrow> string" where
  "sanitizeLogField wide value0 maxRunes =
     (if value0 = [] then value0
      else
        let value = MapRunes (logRune wide) value0; rs = runes value
        in if maxRunes > 0 \<and> int (length rs) > maxRunes then encode (take (nat maxRunes) rs) @ ''...'' else value)"

text \<open>\<open>Format("15:04:05.000")\<close>, and \<open>%v\<close> of a slice of strings.\<close>

definition FormatClock :: "time \<Rightarrow> string" where
  "FormatClock t =
     (let sod = t div Second mod 86400
      in show_padded 2 (sod div 3600) @ '':'' @ show_padded 2 (sod mod 3600 div 60) @ '':'' @
         show_padded 2 (sod mod 60) @ ''.'' @ show_padded 3 (t mod Second div 1000000))"

definition SprintStrings :: "string list \<Rightarrow> string" where
  "SprintStrings xs = ''['' @ Join xs '' '' @ '']''"

definition SemanticEvent_String :: "(rune \<Rightarrow> bool) \<Rightarrow> SemanticEvent \<Rightarrow> string" where
  "SemanticEvent_String wide e =
     (let clean = sanitizeLogText wide;
          agent = (if aName (sAgent e) \<noteq> [] then aName (sAgent e) else aID (sAgent e))
      in FormatClock (sTS e) @ '' ['' @ clean agent @ ''] '' @ clean (sEvent e) @ '' '' @ clean (sTool e)
         @ (if sTarget e \<noteq> [] then '' '' @ clean (sTarget e) else [])
         @ (if items (sTags e) \<noteq> [] then '' tags='' @ clean (SprintStrings (items (sTags e))) else [])
         @ (if sPID e \<noteq> 0 then '' pid='' @ Itoa (sPID e) else [])
         @ (if sCWD e \<noteq> [] then '' cwd='' @ clean (sCWD e) else []))"

definition HumanSummary :: "(rune \<Rightarrow> bool) \<Rightarrow> SemanticEvent \<Rightarrow> string" where
  "HumanSummary = SemanticEvent_String"

text \<open>The two places where the daemon prints what a peer sent it.\<close>

definition unrecognizedLine :: "(rune \<Rightarrow> bool) \<Rightarrow> string \<Rightarrow> string" where
  "unrecognizedLine wide line = ''UNRECOGNIZED LINE: '' @ sanitizeLogField wide line 512"

definition netflowLine :: "(rune \<Rightarrow> bool) \<Rightarrow> NetworkFlowEvent \<Rightarrow> string" where
  "netflowLine wide f = ''NETFLOW: pid='' @ Itoa (fPID f) @ '' remote='' @ sanitizeLogField wide (fRemote f) 256 @
     '' sni='' @ sanitizeLogField wide (fSNI f) 256 @ '' out='' @ Itoa (fBytesOut f)"

section \<open>Printable text\<close>

text \<open>The text is well-formed and every rune of it is printable.\<close>

definition printable :: "(rune \<Rightarrow> bool) \<Rightarrow> string \<Rightarrow> bool" where
  "printable wide s \<longleftrightarrow> (\<exists>rs. s = encode rs \<and> list_all ValidRune rs \<and> list_all (IsPrint wide) rs)"

named_theorems printable_intros \<open>texts that are printable\<close>

lemma printable_Nil [printable_intros, simp]: "printable wide []"
  unfolding printable_def by (rule exI [of _ "[]"]) simp

lemma printable_append [printable_intros]: "printable wide s \<Longrightarrow> printable wide t \<Longrightarrow> printable wide (s @ t)"
  unfolding printable_def by (metis encode_append list_all_append)

lemma printable_if [printable_intros]: "(b \<Longrightarrow> printable wide s) \<Longrightarrow> (\<not> b \<Longrightarrow> printable wide t) \<Longrightarrow> printable wide (if b then s else t)"
  by simp

definition ascii_printable :: "char \<Rightarrow> bool" where
  "ascii_printable c \<longleftrightarrow> 0x20 \<le> byte_of c \<and> byte_of c \<le> 0x7E"

lemma printable_ascii [printable_intros]: "list_all ascii_printable s \<Longrightarrow> printable wide s"
proof -
  assume a: "list_all ascii_printable s"
  have "encode (map byte_of s) = s"
    using a by (induction s) (simp_all add: encode_def EncodeRune_ascii ascii_printable_def)
  moreover have "list_all ValidRune (map byte_of s)" "list_all (IsPrint wide) (map byte_of s)"
    using a by (induction s) (simp_all add: ascii_printable_def ValidRune_def IsPrint_def)
  ultimately show ?thesis unfolding printable_def by metis
qed

lemma printable_runes: "printable wide s \<Longrightarrow> list_all (IsPrint wide) (runes s)"
  by (auto simp: printable_def runes_encode_only)

lemma printable_bytes: "printable wide s \<Longrightarrow> list_all (\<lambda>c. 0x20 \<le> byte_of c \<and> byte_of c \<noteq> 0x7F) s"
proof -
  have "0x20 \<le> byte_of c \<and> byte_of c \<noteq> 0x7F" if "IsPrint wide r" "c \<in> set (EncodeRune r)" for r c
    using that EncodeRune_high [of r c] by (cases "r < 0x80") (auto simp: EncodeRune_ascii IsPrint_def)
  then show "printable wide s \<Longrightarrow> ?thesis" by (fastforce simp: printable_def encode_def list_all_iff)
qed

text \<open>A line that ends no line and drives no terminal: no control bytes, and printable runes only.\<close>

definition safe_line :: "(rune \<Rightarrow> bool) \<Rightarrow> string \<Rightarrow> bool" where
  "safe_line wide s \<longleftrightarrow> list_all (IsPrint wide) (runes s) \<and> list_all (\<lambda>c. 0x20 \<le> byte_of c \<and> byte_of c \<noteq> 0x7F) s"

lemma printable_safe: "printable wide s \<Longrightarrow> safe_line wide s"
  unfolding safe_line_def using printable_runes printable_bytes by blast

lemma logRune_ok: "IsPrint wide (logRune wide r)" "ValidRune r \<Longrightarrow> ValidRune (logRune wide r)"
  by (simp_all add: logRune_def IsPrint_def ValidRune_def)

lemma logRune_fixed: "IsPrint wide r \<Longrightarrow> logRune wide r = r"
  by (auto simp: logRune_def IsPrint_def)

lemma mapped_runes: "list_all ValidRune (map (logRune wide) (runes s))" "list_all (IsPrint wide) (map (logRune wide) (runes s))"
  using runes_valid [of s] by (auto simp: list_all_iff logRune_ok)

lemma printable_mapped [printable_intros]: "printable wide (MapRunes (logRune wide) s)"
  unfolding printable_def MapRunes_def using mapped_runes by blast

lemma printable_sanitizeLogText [printable_intros]: "printable wide (sanitizeLogText wide s)"
  by (simp add: sanitizeLogText_def printable_mapped)

lemma printable_sanitizeLogField [printable_intros]: "printable wide (sanitizeLogField wide s n)"
proof -
  let ?rs = "runes (MapRunes (logRune wide) s)"
  have rs: "?rs = map (logRune wide) (runes s)" unfolding MapRunes_def by (rule runes_encode_only [OF mapped_runes(1)])
  have "list_all ValidRune (take m ?rs) \<and> list_all (IsPrint wide) (take m ?rs)" for m
    using mapped_runes [where wide = wide and s = s] unfolding rs list_all_iff using in_set_takeD by fast
  then have "printable wide (encode (take (nat n) ?rs))" unfolding printable_def by blast
  moreover have "printable wide ''...''" by (rule printable_ascii) (simp add: ascii_printable_def byte_of_def)
  ultimately show ?thesis by (auto simp: sanitizeLogField_def Let_def intro!: printable_append printable_mapped)
qed

text \<open>Numbers and the clock.\<close>

lemma ascii_digit [simp]: "ascii_printable (digit_char d)"
  by (simp add: digit_char.simps ascii_printable_def byte_of_def)

lemma ascii_show_digits [simp]: "list_all ascii_printable (show_digits n)"
  by (induction n rule: show_digits.induct) (subst show_digits.simps, simp)

lemma ascii_punctuation [simp]: "ascii_printable CHR ''-''" "ascii_printable CHR ''0''" "ascii_printable CHR '':''" "ascii_printable CHR ''.''"
  by (simp_all add: ascii_printable_def byte_of_def)

lemma ascii_show_padded [simp]: "list_all ascii_printable (show_padded w i)"
proof -
  have "list_all ascii_printable (replicate n CHR ''0'')" for n by (simp add: list_all_iff)
  then show ?thesis by (simp add: show_padded_def pad_left_def)
qed

lemma printable_Itoa [printable_intros]: "printable wide (Itoa i)"
  by (rule printable_ascii) (simp add: Itoa_def)

lemma printable_FormatClock [printable_intros]: "printable wide (FormatClock t)"
  by (rule printable_ascii) (simp add: FormatClock_def Let_def)

lemma printable_String: "printable wide (SemanticEvent_String wide e)"
proof -
  have lit: "printable wide '' [''" "printable wide ''] ''" "printable wide '' ''" "printable wide '' tags=''" "printable wide '' pid=''"
    "printable wide '' cwd=''"
    by (rule printable_ascii, simp add: ascii_printable_def byte_of_def)+
  show ?thesis unfolding SemanticEvent_String_def Let_def
    by (intro printable_append printable_if lit printable_FormatClock printable_sanitizeLogText printable_Itoa printable_Nil)
qed

lemma printable_daemon_lines: "printable wide (unrecognizedLine wide line)" "printable wide (netflowLine wide f)"
proof -
  have lit: "printable wide ''UNRECOGNIZED LINE: ''" "printable wide ''NETFLOW: pid=''" "printable wide '' remote=''" "printable wide '' sni=''"
    "printable wide '' out=''"
    by (rule printable_ascii, simp add: ascii_printable_def byte_of_def)+
  show "printable wide (unrecognizedLine wide line)" "printable wide (netflowLine wide f)"
    unfolding unrecognizedLine_def netflowLine_def
    by (intro printable_append lit printable_sanitizeLogField printable_Itoa)+
qed

text \<open>Sanitising changes nothing in text that is printable already, and bounds what is echoed.\<close>

lemma sanitizeLogText_fixed: "printable wide s \<Longrightarrow> sanitizeLogText wide s = s"
proof -
  assume "printable wide s"
  then obtain rs where rs: "s = encode rs" "list_all ValidRune rs" "list_all (IsPrint wide) rs" by (auto simp: printable_def)
  then have "map (logRune wide) rs = rs" by (intro map_idI) (auto simp: list_all_iff logRune_fixed)
  then show ?thesis using rs by (simp add: sanitizeLogText_def MapRunes_def runes_encode_only)
qed

lemma sanitizeLogField_short:
  assumes "0 < n"
  shows "int (length (runes (sanitizeLogField wide s n))) \<le> n + 3"
proof -
  let ?rs = "runes (MapRunes (logRune wide) s)"
  have v: "list_all ValidRune (take m ?rs)" for m using runes_valid unfolding list_all_iff using in_set_takeD by fast
  have "runes (encode (take (nat n) ?rs) @ ''...'') = take (nat n) ?rs @ runes ''...''" by (rule runes_encode [OF v])
  moreover have "runes ''...'' = [0x2E, 0x2E, 0x2E]" by (simp add: DecodeRune_def byte_of_def)
  ultimately show ?thesis using assms by (auto simp: sanitizeLogField_def Let_def)
qed

section \<open>Properties\<close>



end
