(* ===== verification/Receiver.thy ===== *)
theory Receiver
  imports Event_Log Go_Scanner Daemon_Main
begin

text \<open>
  \<open>cmd/receiver/main.go\<close>, the development helper that prints what arrives on the socket. \<open>json.Unmarshal\<close> and
  \<open>json.MarshalIndent\<close> are parameters; what \<open>Accept\<close> returns, one connection or error after the other, is an argument.
\<close>

section \<open>Definitions\<close>

definition receiverSocketPath :: "string option \<Rightarrow> string io" where
  "receiverSocketPath home =
     (case home of
        Some h \<Rightarrow> do {
          _ \<leftarrow> MkdirAll (PathJoin [h, ''.agentsnitch'']) perm700;
          State_Monad.return (PathJoin [PathJoin [h, ''.agentsnitch''], ''events.sock'']) }
      | None \<Rightarrow> State_Monad.return ''/tmp/agentsnitch-dev.sock'')"

datatype printed = LogLine string | Stdout string

record ReceiverEnv =
  rvWide :: "rune \<Rightarrow> bool"
  rvUnmarshal :: "string \<Rightarrow> string + SemanticEvent"
  rvIndent :: "SemanticEvent \<Rightarrow> string"

definition receivedLine :: "ReceiverEnv \<Rightarrow> string \<Rightarrow> printed" where
  "receivedLine e line =
     (case rvUnmarshal e line of
        Inl err \<Rightarrow> LogLine (''bad json: '' @ err @ [newline] @ ''raw: '' @ line)
      | Inr sem \<Rightarrow> Stdout (''=== EVENT @ '' @ FormatRFC3339Nano (sTS sem) @ '' ==='' @ [newline] @ rvIndent e sem @ [newline] @
                          ''summary: '' @ SemanticEvent_String (rvWide e) sem @ [newline, newline]))"

text \<open>A connection: the bytes until it ended, and the error if it did not end cleanly.\<close>

definition receiverHandle :: "ReceiverEnv \<Rightarrow> string \<times> string option \<Rightarrow> printed list" where
  "receiverHandle e = (\<lambda>(received, failure).
     case scanLines MaxScanTokenSize received of
       (lines, long) \<Rightarrow>
         map (receivedLine e) lines @
         (if long then [LogLine ''scan err: bufio.Scanner: token too long'']
          else case failure of Some err \<Rightarrow> [LogLine (''scan err: '' @ err)] | None \<Rightarrow> []))"

definition acceptStep :: "ReceiverEnv \<Rightarrow> string + (string \<times> string option) \<Rightarrow> printed list" where
  "acceptStep e accepted =
     (case accepted of
        Inl err \<Rightarrow> [LogLine (''accept: '' @ err)]
      | Inr conn \<Rightarrow> receiverHandle e conn)"

text \<open>Connections are handled concurrently; here their output is in the order they were accepted.\<close>

definition receiverMain :: "ReceiverEnv \<Rightarrow> string option \<Rightarrow> (string + (string \<times> string option)) list \<Rightarrow> (os_error + printed list) io" where
  "receiverMain e home accepted = do {
     path \<leftarrow> receiverSocketPath home;
     _ \<leftarrow> Remove path;
     attempt (ListenUnix path) (\<lambda>_.
       State_Monad.return (Inr
         ([LogLine (''dev-receiver listening on '' @ path),
           LogLine ''run Claude Code normally with hooks installed; this helper prints real hook events'']
          @ concat (map (acceptStep e) accepted)))) }"

section \<open>Lemmas\<close>

text \<open>Every line that fits is printed once, in order, until one does not fit.\<close>

lemma receiver_prints:
  "list_all (carried MaxScanTokenSize) lines \<Longrightarrow> receiverHandle e (frame lines, None) = map (receivedLine e) lines"
  using scanLines_frame [of MaxScanTokenSize lines "[]"] by (simp add: receiverHandle_def)

lemma receiver_stops:
  assumes "list_all (carried MaxScanTokenSize) lines" "newline \<notin> set long" "MaxScanTokenSize \<le> length long"
  shows "receiverHandle e (frame lines @ long @ rest, None) =
    map (receivedLine e) lines @ [LogLine ''scan err: bufio.Scanner: token too long'']"
proof -
  have "scanLines MaxScanTokenSize (long @ rest) = ([], True)"
    by (rule scanLines_long) (use assms(2,3) in \<open>simp_all add: MaxScanTokenSize_def\<close>)
  then show ?thesis using scanLines_frame [OF assms(1), of "long @ rest"] by (simp add: receiverHandle_def)
qed

text \<open>The summary of an event is safe for the terminal; a line that is no event is echoed as it came.\<close>

lemma receiver_echoes_raw:
  assumes "rvUnmarshal e line = Inl err"
  shows "\<exists>before. receivedLine e line = LogLine (before @ line)"
  by (rule exI [of _ "''bad json: '' @ err @ [newline] @ ''raw: ''"]) (simp add: receivedLine_def assms)

lemma receiver_summary_safe: "safe_line wide (SemanticEvent_String wide sem)"
  by (rule printable_safe [OF printable_String])

end
